(* ===== verification/Prelude.thy ===== *)
theory Prelude
  imports Main "HOL-Library.AList" "HOL-Library.Code_Target_Nat"
begin

text \<open>
  Shared vocabulary of the development: the collections of simplification rules, results of
  fallible Python code as sums (\<open>Inl\<close> is the raised error), Python dictionaries as
  association lists in insertion order, and the list operations the sources use
  (negative slices, first match, in-place update of the matching rows).
\<close>

named_theorems dict_simps \<open>lookup laws of dictionary operations\<close>
named_theorems slice_simps \<open>laws of Python slices\<close>
named_theorems err_simps \<open>laws of the error monad\<close>

section \<open>Fallible computations\<close>

type_synonym ('e, 'a) res = "'e + 'a"

definition ebind :: "'e + 'a \<Rightarrow> ('a \<Rightarrow> 'e + 'b) \<Rightarrow> 'e + 'b" where
  "ebind m f = (case m of Inl e \<Rightarrow> Inl e | Inr a \<Rightarrow> f a)"

lemma ebind_Inl [simp]: "ebind (Inl e) f = Inl e"
  by (simp add: ebind_def)

lemma ebind_Inr [simp]: "ebind (Inr a) f = f a"
  by (simp add: ebind_def)

lemma ebind_eq_Inr [err_simps]: "ebind m f = Inr b \<longleftrightarrow> (\<exists>a. m = Inr a \<and> f a = Inr b)"
  by (cases m) auto

lemma ebind_eq_Inl [err_simps]:
  "ebind m f = Inl e \<longleftrightarrow> m = Inl e \<or> (\<exists>a. m = Inr a \<and> f a = Inl e)"
  by (cases m) auto

lemma ebind_cong [fundef_cong]:
  assumes "m = m'" and "\<And>a. m' = Inr a \<Longrightarrow> f a = g a"
  shows "ebind m f = ebind m' g"
  using assms by (cases m') auto

text \<open>A loop that stops at the first raised error.\<close>

fun emap :: "('a \<Rightarrow> 'e + 'b) \<Rightarrow> 'a list \<Rightarrow> 'e + 'b list" where
  "emap f [] = Inr []"
| "emap f (x # xs) = ebind (f x) (\<lambda>y. ebind (emap f xs) (\<lambda>ys. Inr (y # ys)))"

fun efold :: "('s \<Rightarrow> 'a \<Rightarrow> 'e + 's) \<Rightarrow> 's \<Rightarrow> 'a list \<Rightarrow> 'e + 's" where
  "efold f s [] = Inr s"
| "efold f s (x # xs) = ebind (f s x) (\<lambda>s'. efold f s' xs)"

lemma efold_invariant:
  assumes "efold f s xs = Inr t" and "P s"
    and "\<And>s x s'. x \<in> set xs \<Longrightarrow> P s \<Longrightarrow> f s x = Inr s' \<Longrightarrow> P s'"
  shows "P t"
  using assms
proof (induction xs arbitrary: s)
  case Nil
  then show ?case by simp
next
  case (Cons x xs)
  then obtain s' where "f s x = Inr s'" and "efold f s' xs = Inr t"
    by (auto simp: err_simps)
  with Cons show ?case by (metis list.set_intros)
qed

lemma emap_length: "emap f xs = Inr ys \<Longrightarrow> length ys = length xs"
  by (induction xs arbitrary: ys) (auto simp: err_simps)

section \<open>Dictionaries\<close>

type_synonym 'v dict = "(string \<times> 'v) list"

abbreviation dset :: "'k \<Rightarrow> 'v \<Rightarrow> ('k \<times> 'v) list \<Rightarrow> ('k \<times> 'v) list" where
  "dset \<equiv> AList.update"

abbreviation dpop :: "'k \<Rightarrow> ('k \<times> 'v) list \<Rightarrow> ('k \<times> 'v) list" where
  "dpop \<equiv> AList.delete"

abbreviation dict_ok :: "('k \<times> 'v) list \<Rightarrow> bool" where
  "dict_ok d \<equiv> distinct (map fst d)"

text \<open>\<open>{**a, **b}\<close> and \<open>a.update(b)\<close>.\<close>

definition dmerge :: "('k \<times> 'v) list \<Rightarrow> ('k \<times> 'v) list \<Rightarrow> ('k \<times> 'v) list" where
  "dmerge a b = fold (\<lambda>(k, v) d. dset k v d) b a"

text \<open>A dictionary comprehension or \<open>dict(pairs)\<close>: a later pair replaces an earlier value.\<close>

definition dict_of :: "('k \<times> 'v) list \<Rightarrow> ('k \<times> 'v) list" where
  "dict_of kvs = dmerge [] kvs"

lemma dget_dset [simp, dict_simps]:
  "map_of (dset k v d) k' = (if k' = k then Some v else map_of d k')"
  by (simp add: update_conv')

lemma dget_dpop [simp, dict_simps]:
  "map_of (dpop k d) k' = (if k' = k then None else map_of d k')"
  by (simp add: AList.delete_conv')

lemma dmerge_Nil [simp, dict_simps]: "dmerge a [] = a"
  by (simp add: dmerge_def)

lemma dmerge_Cons [simp, dict_simps]: "dmerge a ((k, v) # b) = dmerge (dset k v a) b"
  by (simp add: dmerge_def)

lemma dmerge_append: "dmerge a (b @ c) = dmerge (dmerge a b) c"
  by (simp add: dmerge_def)

lemma dget_dmerge:
  "map_of (dmerge a b) k = (case map_of (rev b) k of None \<Rightarrow> map_of a k | Some v \<Rightarrow> Some v)"
proof (induction b arbitrary: a)
  case Nil
  then show ?case by simp
next
  case (Cons kv b)
  then show ?case
    by (cases kv) (auto simp: map_add_def split: option.splits)
qed

lemma dset_ok [simp, intro]: "dict_ok d \<Longrightarrow> dict_ok (dset k v d)"
  by (rule distinct_update)

lemma dpop_ok [simp, intro]: "dict_ok d \<Longrightarrow> dict_ok (dpop k d)"
  by (rule distinct_delete)

lemma dmerge_ok [simp, intro]: "dict_ok a \<Longrightarrow> dict_ok (dmerge a b)"
  by (induction b arbitrary: a) auto

lemma set_dset: "set (dset k v d) \<subseteq> insert (k, v) (set d)"
  by (induction d) auto

lemma set_dmerge: "set (dmerge a b) \<subseteq> set a \<union> set b"
proof (induction b arbitrary: a)
  case (Cons kv b)
  obtain k v where "kv = (k, v)" by (cases kv)
  then show ?case using Cons [of "dset k v a"] set_dset [of k v a] by auto
qed simp

lemma set_dict_of: "set (dict_of kvs) \<subseteq> set kvs"
  using set_dmerge [of "[]" kvs] by (simp add: dict_of_def)

lemma dict_of_ok [simp, intro]: "dict_ok (dict_of kvs)"
  by (simp add: dict_of_def)

lemma dget_dict_of: "map_of (dict_of kvs) k = map_of (rev kvs) k"
  by (simp add: dict_of_def dget_dmerge split: option.splits)

lemma map_of_rev_distinct: "dict_ok kvs \<Longrightarrow> map_of (rev kvs) = map_of kvs"
  by (simp add: map_of_inject_set flip: rev_map)

lemma dset_append_new: "k \<notin> fst ` set d \<Longrightarrow> dset k v d = d @ [(k, v)]"
  by (induction d) auto

lemma dmerge_distinct_append:
  "dict_ok (a @ b) \<Longrightarrow> dmerge a b = a @ b"
proof (induction b arbitrary: a)
  case Nil
  then show ?case by simp
next
  case (Cons kv b)
  obtain k v where kv: "kv = (k, v)" by (cases kv)
  with Cons.prems have "k \<notin> fst ` set a" by auto
  then have "dset k v a = a @ [(k, v)]" by (rule dset_append_new)
  with Cons kv show ?case by simp
qed

lemma dict_of_id: "dict_ok d \<Longrightarrow> dict_of d = d"
  by (simp add: dict_of_def dmerge_distinct_append)

lemma dict_filter_ok [simp, intro]: "dict_ok d \<Longrightarrow> dict_ok (filter P d)"
  by (simp add: distinct_map_filter)

lemma dget_filter_key:
  "map_of (filter (\<lambda>(k, v). P k) d) k = (if P k then map_of d k else None)"
  by (induction d) auto

lemma dict_ok_map_values: "dict_ok (map (\<lambda>(k, v). (k, f k v)) d) \<longleftrightarrow> dict_ok d"
  by (simp add: comp_def case_prod_unfold)

lemma dget_map_values:
  "map_of (map (\<lambda>(k, v). (k, f k v)) d) k = map_option (f k) (map_of d k)"
  by (induction d) auto

text \<open>Equality of dictionaries does not depend on the order of the keys.\<close>

definition dict_eq :: "('k \<times> 'v) list \<Rightarrow> ('k \<times> 'v) list \<Rightarrow> bool" where
  "dict_eq a b = (length a = length b \<and> list_all (\<lambda>(k, v). map_of b k = Some v) a)"

section \<open>Slices and loops over rows\<close>

text \<open>\<open>list(dict.fromkeys(xs))\<close>: the first occurrence of each element, in order.\<close>

definition uniq :: "'a list \<Rightarrow> 'a list" where
  "uniq xs = rev (remdups (rev xs))"

lemma set_uniq [simp]: "set (uniq xs) = set xs"
  by (simp add: uniq_def)

lemma distinct_uniq [simp]: "distinct (uniq xs)"
  by (simp add: uniq_def)

lemma uniq_id: "distinct xs \<Longrightarrow> uniq xs = xs"
  by (simp add: uniq_def distinct_remdups_id)

lemma uniq_Nil_iff [simp]: "uniq xs = [] \<longleftrightarrow> xs = []"
  by (simp add: uniq_def)

text \<open>\<open>xs[-n:]\<close> with \<open>n > 0\<close>.\<close>

definition take_last :: "nat \<Rightarrow> 'a list \<Rightarrow> 'a list" where
  "take_last n xs = drop (length xs - n) xs"

lemma take_last_length [simp, slice_simps]: "length (take_last n xs) = min n (length xs)"
  by (auto simp: take_last_def)

lemma take_last_all [simp, slice_simps]: "length xs \<le> n \<Longrightarrow> take_last n xs = xs"
  by (simp add: take_last_def)

lemma set_take_last: "set (take_last n xs) \<subseteq> set xs"
  by (simp add: take_last_def set_drop_subset)

lemma take_last_snoc: "0 < n \<Longrightarrow> take_last n (xs @ [x]) = take_last (n - 1) xs @ [x]"
  by (cases "length xs + 1 \<le> n") (auto simp: take_last_def)

lemma last_in_take_last: "0 < n \<Longrightarrow> x \<in> set (take_last n (xs @ [x]))"
  by (simp add: take_last_snoc)

lemma find_SomeD: "List.find P xs = Some x \<Longrightarrow> x \<in> set xs \<and> P x"
  by (auto simp: find_Some_iff)

text \<open>The text \<open>a or b\<close>.\<close>

definition text_or :: "string \<Rightarrow> string \<Rightarrow> string" where
  "text_or a b = (if a = [] then b else a)"

end
