(* ===== verification/PyText.thy ===== *)
theory PyText
  imports Prelude "HOL-Library.List_Lexorder" "HOL-Library.Char_ord"
begin

text \<open>
  Python strings and the string methods the sources call. A Python \<open>str\<close> is modelled by the
  list of its code points, restricted to the range 0..255 that \<open>char\<close> covers; on that range
  \<open>isspace\<close>, \<open>isdigit\<close>, \<open>isalnum\<close>, \<open>lower\<close>, \<open>strip\<close>, \<open>split\<close> and \<open>int\<close> are
  Python's (\<open>upper\<close> too, but for the two code points 181 and 255 whose capital lies outside the range
  and which are left alone). User-facing messages, which are in Chinese in the sources, are written as ASCII
  glosses wherever they become part of a stored value.
\<close>

section \<open>Character classes\<close>

definition code :: "char \<Rightarrow> nat" where
  "code c = of_char c"

definition is_space :: "char \<Rightarrow> bool" where
  "is_space c = (let n = code c in (9 \<le> n \<and> n \<le> 13) \<or> (28 \<le> n \<and> n \<le> 32) \<or> n = 133 \<or> n = 160)"

definition is_ascii :: "char \<Rightarrow> bool" where
  "is_ascii c = (code c < 128)"

definition is_dec :: "char \<Rightarrow> bool" where
  "is_dec c = (let n = code c in 48 \<le> n \<and> n \<le> 57)"

text \<open>\<open>str.isdigit\<close> also accepts the superscript digits 178, 179 and 185.\<close>

definition char_isdigit :: "char \<Rightarrow> bool" where
  "char_isdigit c = (is_dec c \<or> code c = 178 \<or> code c = 179 \<or> code c = 185)"

definition char_isalnum :: "char \<Rightarrow> bool" where
  "char_isalnum c = (let n = code c in
     char_isdigit c \<or> (65 \<le> n \<and> n \<le> 90) \<or> (97 \<le> n \<and> n \<le> 122) \<or> n = 170 \<or> n = 181 \<or> n = 186
     \<or> (188 \<le> n \<and> n \<le> 190) \<or> (192 \<le> n \<and> n \<noteq> 215 \<and> n \<noteq> 247))"

definition is_word_char :: "char \<Rightarrow> bool" where
  "is_word_char c = (let n = code c in
     (48 \<le> n \<and> n \<le> 57) \<or> (65 \<le> n \<and> n \<le> 90) \<or> (97 \<le> n \<and> n \<le> 122) \<or> n = 95 \<or> n = 45)"

section \<open>Case, trimming, splitting\<close>

definition lower_char :: "char \<Rightarrow> char" where
  "lower_char c = (let n = code c in
     if (65 \<le> n \<and> n \<le> 90) \<or> (192 \<le> n \<and> n \<le> 222 \<and> n \<noteq> 215) then char_of (n + 32) else c)"

definition lower :: "string \<Rightarrow> string" where
  "lower s = map lower_char s"

definition upper_char :: "char \<Rightarrow> string" where
  "upper_char c = (let n = code c in
     if n = 223 then ''SS''
     else if (97 \<le> n \<and> n \<le> 122) \<or> (224 \<le> n \<and> n \<le> 254 \<and> n \<noteq> 247) then [char_of (n - 32)] else [c])"

definition upper :: "string \<Rightarrow> string" where
  "upper s = concat (map upper_char s)"

definition rstrip_of :: "(char \<Rightarrow> bool) \<Rightarrow> string \<Rightarrow> string" where
  "rstrip_of P s = rev (dropWhile P (rev s))"

definition strip_of :: "(char \<Rightarrow> bool) \<Rightarrow> string \<Rightarrow> string" where
  "strip_of P s = rstrip_of P (dropWhile P s)"

definition strip :: "string \<Rightarrow> string" where
  "strip s = strip_of is_space s"

fun split_on :: "char \<Rightarrow> string \<Rightarrow> string list" where
  "split_on c [] = [[]]"
| "split_on c (x # xs) =
     (if x = c then [] # split_on c xs
      else (case split_on c xs of [] \<Rightarrow> [[x]] | p # ps \<Rightarrow> (x # p) # ps))"

text \<open>The pieces of a text between separators, and the characters at which \<open>splitlines\<close> breaks.\<close>

fun split_by :: "(char \<Rightarrow> bool) \<Rightarrow> string \<Rightarrow> string list" where
  "split_by P [] = [[]]"
| "split_by P (c # s) =
     (if P c then [] # split_by P s
      else (case split_by P s of [] \<Rightarrow> [[c]] | w # ws \<Rightarrow> (c # w) # ws))"

definition line_break :: "char \<Rightarrow> bool" where
  "line_break c = (code c \<in> {10, 11, 12, 13, 28, 29, 30, 133})"

text \<open>\<open>s.split(c, 1)[0]\<close> and the part behind the first \<open>c\<close>, if there is one.\<close>

definition before :: "char \<Rightarrow> string \<Rightarrow> string" where
  "before c s = takeWhile (\<lambda>x. x \<noteq> c) s"

definition after :: "char \<Rightarrow> string \<Rightarrow> string" where
  "after c s = drop 1 (dropWhile (\<lambda>x. x \<noteq> c) s)"

text \<open>\<open>s.rsplit(c, 1)\<close> for a string that contains \<open>c\<close>.\<close>

definition rsplit1 :: "char \<Rightarrow> string \<Rightarrow> string \<times> string" where
  "rsplit1 c s = (rev (after c (rev s)), rev (before c (rev s)))"

definition startswith :: "string \<Rightarrow> string \<Rightarrow> bool" where
  "startswith s p = (take (length p) s = p)"

definition endswith :: "string \<Rightarrow> string \<Rightarrow> bool" where
  "endswith s p = (length p \<le> length s \<and> drop (length s - length p) s = p)"

fun contains :: "string \<Rightarrow> string \<Rightarrow> bool" where
  "contains [] p = (p = [])"
| "contains (x # xs) p = (startswith (x # xs) p \<or> contains xs p)"

fun join :: "string \<Rightarrow> string list \<Rightarrow> string" where
  "join sep [] = []"
| "join sep [s] = s"
| "join sep (s # t # r) = s @ sep @ join sep (t # r)"

definition replace_char :: "char \<Rightarrow> char \<Rightarrow> string \<Rightarrow> string" where
  "replace_char a b s = map (\<lambda>c. if c = a then b else c) s"

text \<open>\<open>s.replace(old, new)\<close> for a non-empty \<open>old\<close>: leftmost occurrences, not overlapping.\<close>

function replace_all :: "string \<Rightarrow> string \<Rightarrow> string \<Rightarrow> string" where
  "replace_all old new [] = []"
| "replace_all old new (x # xs) =
     (if old \<noteq> [] \<and> startswith (x # xs) old then new @ replace_all old new (drop (length old) (x # xs))
      else x # replace_all old new xs)"
  by pat_completeness auto
termination
  by (relation "measure (\<lambda>(old, new, s). length s)") (auto simp: neq_Nil_conv)

definition isdigit :: "string \<Rightarrow> bool" where
  "isdigit s = (s \<noteq> [] \<and> list_all char_isdigit s)"

section \<open>Integers in decimal\<close>

definition dec_digit :: "nat \<Rightarrow> char" where
  "dec_digit d = char_of (48 + d)"

fun nat_str :: "nat \<Rightarrow> string" where
  "nat_str n = (if n < 10 then [dec_digit n] else nat_str (n div 10) @ [dec_digit (n mod 10)])"

declare nat_str.simps [simp del]

definition int_str :: "int \<Rightarrow> string" where
  "int_str i = (if i < 0 then CHR ''-'' # nat_str (nat (- i)) else nat_str (nat i))"

definition dec_value :: "string \<Rightarrow> nat" where
  "dec_value s = foldl (\<lambda>n c. 10 * n + (code c - 48)) 0 s"

text \<open>Digits with single underscores between them, as \<open>int()\<close> accepts them.\<close>

fun int_digits_ok :: "string \<Rightarrow> bool" where
  "int_digits_ok [] = False"
| "int_digits_ok [c] = is_dec c"
| "int_digits_ok (c # d # r) =
     (is_dec c \<and> (if d = CHR ''_'' then int_digits_ok r else int_digits_ok (d # r)))"

text \<open>
  \<open>int(s)\<close> of a string: surrounding white space is ignored (only the C-locale white space when
  the string is all ASCII), one sign, then digits; \<open>None\<close> is \<open>ValueError\<close>.
\<close>

definition int_space :: "string \<Rightarrow> char \<Rightarrow> bool" where
  "int_space s c = (if list_all is_ascii s
     then (let n = code c in (9 \<le> n \<and> n \<le> 13) \<or> n = 32) else is_space c)"

definition py_int :: "string \<Rightarrow> int option" where
  "py_int s = (let t = strip_of (int_space s) s;
       neg = (case t of c # _ \<Rightarrow> c = CHR ''-'' | [] \<Rightarrow> False);
       d = (case t of c # r \<Rightarrow> if c = CHR ''-'' \<or> c = CHR ''+'' then r else t | [] \<Rightarrow> t)
     in if int_digits_ok d
        then Some (let v = int (dec_value (filter is_dec d)) in if neg then - v else v)
        else None)"

section \<open>Laws\<close>

lemma code_char_of [simp]: "n < 256 \<Longrightarrow> code (char_of n) = n"
  by (simp add: code_def)

lemma code_less [simp]: "code c < 256"
  by (simp add: code_def)

lemma char_of_code [simp]: "char_of (code c) = c"
  by (simp add: code_def)

lemma code_eq_iff: "code c = code d \<longleftrightarrow> c = d"
  by (simp add: code_def)

lemma lower_char_idem [simp]: "lower_char (lower_char c) = lower_char c"
  by (auto simp: lower_char_def Let_def)

lemma lower_idem [simp]: "lower (lower s) = lower s"
  by (simp add: lower_def)

lemma length_lower [simp]: "length (lower s) = length s"
  by (simp add: lower_def)

lemma dropWhile_head: "dropWhile P s = c # r \<Longrightarrow> \<not> P c"
  by (induction s) (auto split: if_splits)

lemma dropWhile_id: "(s = [] \<or> \<not> P (hd s)) \<Longrightarrow> dropWhile P s = s"
  by (cases s) auto

lemma dropWhile_hd: "dropWhile P s = [] \<or> \<not> P (hd (dropWhile P s))"
  by (cases "dropWhile P s") (auto dest: dropWhile_head)

lemma rstrip_hd: "rstrip_of P s \<noteq> [] \<Longrightarrow> hd (rstrip_of P s) = hd s"
proof -
  assume ne: "rstrip_of P s \<noteq> []"
  obtain t where "rev s = t @ dropWhile P (rev s)"
    by (metis takeWhile_dropWhile_id)
  then have "s = rstrip_of P s @ rev t"
    by (metis rstrip_of_def rev_append rev_rev_ident)
  with ne show ?thesis by (metis hd_append2)
qed

lemma rstrip_idem: "rstrip_of P (rstrip_of P s) = rstrip_of P s"
  using dropWhile_hd [of P "rev s"] by (auto simp: rstrip_of_def intro: dropWhile_id)

lemma strip_of_idem [simp]: "strip_of P (strip_of P s) = strip_of P s"
proof -
  let ?t = "rstrip_of P (dropWhile P s)"
  have "?t = [] \<or> \<not> P (hd ?t)"
    using rstrip_hd [of P "dropWhile P s"] dropWhile_hd [of P s]
    by (metis rstrip_of_def dropWhile.simps(1) rev.simps(1))
  then have "dropWhile P ?t = ?t" by (rule dropWhile_id)
  then show ?thesis by (simp add: strip_of_def rstrip_idem)
qed

lemma strip_idem [simp]: "strip (strip s) = strip s"
  by (simp add: strip_def)

lemma strip_of_no: "s \<noteq> [] \<Longrightarrow> \<not> P (hd s) \<Longrightarrow> \<not> P (last s) \<Longrightarrow> strip_of P s = s"
  by (simp add: strip_of_def rstrip_of_def dropWhile_id hd_rev)

lemma strip_Nil [simp]: "strip [] = []"
  by (simp add: strip_def strip_of_def rstrip_of_def)

lemma is_dec_digit [simp]: "d < 10 \<Longrightarrow> is_dec (dec_digit d)"
  by (simp add: is_dec_def dec_digit_def)

lemma code_dec_digit [simp]: "d < 10 \<Longrightarrow> code (dec_digit d) = 48 + d"
  by (simp add: dec_digit_def)

lemma nat_str_dec: "list_all is_dec (nat_str n)"
proof (induction n rule: nat_str.induct)
  case (1 n)
  then show ?case by (subst nat_str.simps) auto
qed

lemma nat_str_ne [simp]: "nat_str n \<noteq> []"
  by (subst nat_str.simps) simp

lemma dec_value_snoc: "dec_value (s @ [c]) = 10 * dec_value s + (code c - 48)"
  by (simp add: dec_value_def)

lemma dec_value_nat_str [simp]: "dec_value (nat_str n) = n"
proof (induction n rule: nat_str.induct)
  case (1 n)
  show ?case
  proof (cases "n < 10")
    case True
    then show ?thesis by (subst nat_str.simps) (simp add: dec_value_def)
  next
    case False
    with 1 have "dec_value (nat_str (n div 10)) = n div 10" by simp
    with False show ?thesis
      by (subst nat_str.simps) (simp add: dec_value_snoc)
  qed
qed

lemma dec_not_underscore: "is_dec c \<Longrightarrow> c \<noteq> CHR ''_''"
  by (auto simp: is_dec_def code_def)

lemma int_digits_ok_dec: "s \<noteq> [] \<Longrightarrow> list_all is_dec s \<Longrightarrow> int_digits_ok s"
  by (induction s rule: int_digits_ok.induct) (auto dest: dec_not_underscore)

lemma dec_not_space: "is_dec c \<Longrightarrow> \<not> int_space s c"
  by (auto simp: is_dec_def int_space_def is_space_def Let_def)

lemma dec_not_sign: "is_dec c \<Longrightarrow> c \<noteq> CHR ''-'' \<and> c \<noteq> CHR ''+''"
  by (auto simp: is_dec_def code_def)

lemma py_int_unsigned:
  assumes "s \<noteq> []" and "list_all is_dec s"
  shows "py_int s = Some (int (dec_value s))"
proof -
  from assms obtain c r where s: "s = c # r" "is_dec c" "is_dec (last s)"
    by (cases s) (auto simp: list_all_iff)
  then have st: "strip_of (int_space s) s = s"
    by (intro strip_of_no) (auto dest: dec_not_space)
  have f: "filter is_dec s = s" using assms(2) by (simp add: filter_id_conv list_all_iff)
  show ?thesis
    unfolding py_int_def st
    using s(1) dec_not_sign [OF s(2)] f int_digits_ok_dec [OF assms] by simp
qed

lemma py_int_negative:
  assumes "s \<noteq> []" and "list_all is_dec s"
  shows "py_int (CHR ''-'' # s) = Some (- int (dec_value s))"
proof -
  let ?t = "CHR ''-'' # s"
  have "is_dec (last s)" using assms by (simp add: list_all_iff)
  moreover have "\<not> int_space ?t (CHR ''-'')"
    by (simp add: int_space_def is_space_def code_def Let_def)
  ultimately have st: "strip_of (int_space ?t) ?t = ?t"
    using assms(1) by (intro strip_of_no) (auto dest: dec_not_space)
  have f: "filter is_dec s = s" using assms(2) by (simp add: filter_id_conv list_all_iff)
  show ?thesis
    unfolding py_int_def st using f int_digits_ok_dec [OF assms] by simp
qed

text \<open>\<open>int(str(i)) == i\<close>.\<close>

lemma py_int_int_str [simp]: "py_int (int_str i) = Some i"
  by (simp add: int_str_def py_int_unsigned py_int_negative nat_str_dec)

lemma int_str_ne [simp]: "int_str i \<noteq> []"
  by (simp add: int_str_def)

lemma dec_not_py_space: "is_dec c \<Longrightarrow> \<not> is_space c"
  by (auto simp: is_dec_def is_space_def Let_def)

lemma last_nat_str_dec [simp]: "is_dec (last (nat_str n))" and hd_nat_str_dec [simp]: "is_dec (hd (nat_str n))"
  using nat_str_dec [of n] by (simp_all add: list_all_iff)

lemma minus_not_space [simp]: "\<not> is_space (CHR ''-'')"
  by (simp add: is_space_def code_def)

lemma strip_int_str [simp]: "strip (int_str i) = int_str i"
  unfolding strip_def by (rule strip_of_no) (auto simp: int_str_def dec_not_py_space)

section \<open>Substrings and replacement\<close>

lemma startswith_iff: "startswith s p \<longleftrightarrow> (\<exists>b. s = p @ b)"
  by (metis append_eq_conv_conj append_take_drop_id startswith_def)

lemma contains_iff: "contains s p \<longleftrightarrow> (\<exists>a b. s = a @ p @ b)"
proof (induction s)
  case (Cons x s)
  then show ?case by (auto simp: startswith_iff Cons_eq_append_conv)
qed auto

lemma contains_infix: "contains (a @ s @ b) p" if "contains s p"
  using that by (auto simp: contains_iff) (metis append.assoc)

lemma contains_take: "contains (take n s) p \<Longrightarrow> contains s p"
  using contains_infix [of "take n s" p "[]" "drop n s"] by simp

lemma contains_split:
  assumes "contains (x @ c # y) p" "c \<notin> set p"
  shows "contains x p \<or> contains y p"
proof -
  from assms(1) obtain a b where eq: "x @ c # y = a @ p @ b" by (auto simp: contains_iff)
  from eq consider us where "x = a @ us" "us @ c # y = p @ b" | us where "a = x @ us" "c # y = us @ p @ b"
    by (auto simp: append_eq_append_conv2)
  then show ?thesis
  proof cases
    case (1 us)
    then consider v where "us = p @ v" | v where "p = us @ v" "c # y = v @ b"
      by (auto simp: append_eq_append_conv2)
    then show ?thesis
    proof cases
      case (1 v)
      with \<open>x = a @ us\<close> show ?thesis by (auto simp: contains_iff)
    next
      case (2 v)
      with assms(2) have "v = []" by (cases v) auto
      with 2 \<open>x = a @ us\<close> have "x = a @ p @ []" by simp
      then show ?thesis unfolding contains_iff by blast
    qed
  next
    case (2 us)
    show ?thesis
    proof (cases us)
      case Nil
      with 2 assms(2) have "p = []" by (cases p) auto
      then show ?thesis by (auto simp: contains_iff)
    next
      case (Cons d vs)
      with 2 have "y = vs @ p @ b" by simp
      then show ?thesis by (auto simp: contains_iff)
    qed
  qed
qed

text \<open>Either nothing is replaced, or the first occurrence is and the rest is treated alike.\<close>

lemma replace_all_cases:
  assumes "old \<noteq> []"
  shows "(replace_all old new s = s \<and> \<not> contains s old)
    \<or> (\<exists>u w. s = u @ old @ w \<and> replace_all old new s = u @ new @ replace_all old new w \<and> \<not> contains u old)"
proof (induction s)
  case Nil
  then show ?case using assms by simp
next
  case (Cons x s)
  show ?case
  proof (cases "startswith (x # s) old")
    case True
    then obtain w where w: "x # s = old @ w" by (auto simp: startswith_iff)
    moreover have "\<not> contains [] old" using assms by simp
    ultimately have "replace_all old new (x # s) = [] @ new @ replace_all old new w"
      using assms True by (metis append_Nil append_eq_conv_conj replace_all.simps(2))
    with w \<open>\<not> contains [] old\<close> show ?thesis by (metis append_Nil)
  next
    case False
    have r: "replace_all old new (x # s) = x # replace_all old new s" using False by simp
    from Cons consider "replace_all old new s = s" "\<not> contains s old"
      | u w where "s = u @ old @ w" "replace_all old new s = u @ new @ replace_all old new w" "\<not> contains u old"
      by blast
    then show ?thesis
    proof cases
      case 1
      with r False show ?thesis by simp
    next
      case (2 u w)
      have "\<not> startswith (x # u) old" using False 2(1) unfolding startswith_iff by (metis append.assoc append_Cons)
      with 2 r have "x # s = (x # u) @ old @ w" "replace_all old new (x # s) = (x # u) @ new @ replace_all old new w"
        "\<not> contains (x # u) old" by simp_all
      then show ?thesis by blast
    qed
  qed
qed

end
