(* ===== verification/Json.thy ===== *)
theory Json
  imports PyText
begin

text \<open>
  The dynamic values the hub handles: everything that crosses the document store, the HTTP
  boundary or the router RPC is a JSON value. Numbers are Python integers (a document
  with a fractional number is outside the model). The theory gives Python's view of such a value
  (\<open>bool\<close>, \<open>str\<close>, \<open>==\<close>, iteration, \<open>int\<close>, the \<open>_text\<close> helper every module repeats) and the
  codec \<open>json.dumps(..., ensure_ascii=False, separators=(",", ":"), sort_keys=True)\<close> with
  \<open>json.loads\<close>.
\<close>

datatype json =
    JNull
  | JBool bool
  | JInt int
  | JStr string
  | JList "json list"
  | JObj "(string \<times> json) list"

datatype py_error = TypeError | ValueError | KeyError | AttributeError | RuntimeError string

lemma size_json_item [termination_simp]:
  fixes v :: json
  shows "(k, v) \<in> set kvs \<Longrightarrow> size v < Suc (size_list (size_prod (\<lambda>_. 0) size) kvs)"
  by (induction kvs) auto

lemma size_json_elem [termination_simp]:
  fixes v :: json
  shows "v \<in> set vs \<Longrightarrow> size v < Suc (size_list size vs)"
  by (induction vs) auto

section \<open>Python's view of a value\<close>

fun truthy :: "json \<Rightarrow> bool" where
  "truthy JNull = False"
| "truthy (JBool b) = b"
| "truthy (JInt i) = (i \<noteq> 0)"
| "truthy (JStr s) = (s \<noteq> [])"
| "truthy (JList xs) = (xs \<noteq> [])"
| "truthy (JObj d) = (d \<noteq> [])"

definition por :: "json \<Rightarrow> json \<Rightarrow> json" where
  "por a b = (if truthy a then a else b)"

fun is_dict :: "json \<Rightarrow> bool" where
  "is_dict (JObj d) = True"
| "is_dict _ = False"

fun is_list :: "json \<Rightarrow> bool" where
  "is_list (JList d) = True"
| "is_list _ = False"

text \<open>The items of a dictionary, and of nothing else; \<open>d.get(k)\<close> and \<open>d.get(k, v)\<close>.\<close>

fun items :: "json \<Rightarrow> (string \<times> json) list" where
  "items (JObj d) = d"
| "items _ = []"

fun elems :: "json \<Rightarrow> json list" where
  "elems (JList xs) = xs"
| "elems _ = []"

definition dget_or :: "(string \<times> json) list \<Rightarrow> string \<Rightarrow> json \<Rightarrow> json" where
  "dget_or d k v = (case map_of d k of None \<Rightarrow> v | Some w \<Rightarrow> w)"

definition dget :: "(string \<times> json) list \<Rightarrow> string \<Rightarrow> json" where
  "dget d k = dget_or d k JNull"

definition hex_digit :: "nat \<Rightarrow> char" where
  "hex_digit d = (if d < 10 then char_of (48 + d) else char_of (87 + d))"

definition hex2 :: "nat \<Rightarrow> string" where
  "hex2 n = [hex_digit (n div 16), hex_digit (n mod 16)]"

definition repr_char :: "char \<Rightarrow> char \<Rightarrow> string" where
  "repr_char q c = (let n = code c in
     if c = q \<or> n = 92 then [CHR 0x5C, c]
     else if n = 9 then [CHR 0x5C, CHR ''t'']
     else if n = 10 then [CHR 0x5C, CHR ''n'']
     else if n = 13 then [CHR 0x5C, CHR ''r'']
     else if n < 32 \<or> (127 \<le> n \<and> n \<le> 160) \<or> n = 173 then [CHR 0x5C, CHR ''x''] @ hex2 n
     else [c])"

definition repr_str :: "string \<Rightarrow> string" where
  "repr_str s = (let q = (if CHR 0x27 \<in> set s \<and> CHR 0x22 \<notin> set s then CHR 0x22 else CHR 0x27)
     in [q] @ concat (map (repr_char q) s) @ [q])"

fun py_repr :: "json \<Rightarrow> string" where
  "py_repr JNull = ''None''"
| "py_repr (JBool b) = (if b then ''True'' else ''False'')"
| "py_repr (JInt i) = int_str i"
| "py_repr (JStr s) = repr_str s"
| "py_repr (JList xs) = ''['' @ join '', '' (map py_repr xs) @ '']''"
| "py_repr (JObj d) = ''{'' @ join '', '' (map (\<lambda>(k, v). repr_str k @ '': '' @ py_repr v) d) @ ''}''"

fun py_str :: "json \<Rightarrow> string" where
  "py_str (JStr s) = s"
| "py_str v = py_repr v"

text \<open>The helper \<open>_text(value) = str(value or "").strip()\<close> of every service module.\<close>

definition text_of :: "json \<Rightarrow> string" where
  "text_of v = strip (py_str (por v (JStr [])))"

text \<open>\<open>int(value)\<close>: \<open>None\<close> is the \<open>TypeError\<close> or \<open>ValueError\<close> that the callers catch.\<close>

fun py_int_of :: "json \<Rightarrow> int option" where
  "py_int_of (JInt i) = Some i"
| "py_int_of (JBool b) = Some (if b then 1 else 0)"
| "py_int_of (JStr s) = py_int s"
| "py_int_of _ = None"

definition int_or :: "json \<Rightarrow> int \<Rightarrow> int" where
  "int_or v d = (case py_int_of v of None \<Rightarrow> d | Some i \<Rightarrow> i)"

text \<open>Iterating over a value: \<open>for x in v\<close>; a dictionary yields its keys.\<close>

fun py_iter :: "json \<Rightarrow> py_error + json list" where
  "py_iter (JList xs) = Inr xs"
| "py_iter (JStr s) = Inr (map (\<lambda>c. JStr [c]) s)"
| "py_iter (JObj d) = Inr (map (\<lambda>(k, v). JStr k) d)"
| "py_iter _ = Inl TypeError"

fun py_len :: "json \<Rightarrow> py_error + int" where
  "py_len (JList xs) = Inr (int (length xs))"
| "py_len (JStr s) = Inr (int (length s))"
| "py_len (JObj d) = Inr (int (length d))"
| "py_len _ = Inl TypeError"

text \<open>\<open>==\<close>: \<open>True == 1\<close>, and dictionaries compare without order.\<close>

function py_eq :: "json \<Rightarrow> json \<Rightarrow> bool" where
  "py_eq a b = (case (a, b) of
     (JNull, JNull) \<Rightarrow> True
   | (JBool x, JBool y) \<Rightarrow> x = y
   | (JBool x, JInt j) \<Rightarrow> (if x then 1 else 0) = j
   | (JInt i, JBool y) \<Rightarrow> i = (if y then 1 else 0)
   | (JInt i, JInt j) \<Rightarrow> i = j
   | (JStr s, JStr t) \<Rightarrow> s = t
   | (JList xs, JList ys) \<Rightarrow> length xs = length ys \<and> list_all (\<lambda>(x, y). py_eq x y) (zip xs ys)
   | (JObj d, JObj e) \<Rightarrow> length d = length e
       \<and> list_all (\<lambda>(k, v). case map_of e k of None \<Rightarrow> False | Some w \<Rightarrow> py_eq v w) d
   | _ \<Rightarrow> False)"
  by pat_completeness auto
termination
  by (relation "measure (size \<circ> fst)")
    (auto intro: size_json_item size_json_elem [OF set_zip_leftD])

declare py_eq.simps [simp del]

section \<open>Well-formed values\<close>

text \<open>A Python dictionary has distinct keys, at every level.\<close>

fun json_ok :: "json \<Rightarrow> bool" where
  "json_ok (JList xs) = list_all json_ok xs"
| "json_ok (JObj d) = (dict_ok d \<and> list_all (\<lambda>(k, v). json_ok v) d)"
| "json_ok _ = True"

section \<open>The codec\<close>

definition quote_char :: "char \<Rightarrow> string" where
  "quote_char c = (let n = code c in
     if n = 34 \<or> n = 92 then [CHR 0x5C, c]
     else if n = 10 then [CHR 0x5C, CHR ''n'']
     else if n = 13 then [CHR 0x5C, CHR ''r'']
     else if n = 9 then [CHR 0x5C, CHR ''t'']
     else if n = 12 then [CHR 0x5C, CHR ''f'']
     else if n = 8 then [CHR 0x5C, CHR ''b'']
     else if n < 32 then [CHR 0x5C, CHR ''u'', CHR ''0'', CHR ''0''] @ hex2 n
     else [c])"

definition quote :: "string \<Rightarrow> string" where
  "quote s = [CHR 0x22] @ concat (map quote_char s) @ [CHR 0x22]"

fun json_dumps :: "json \<Rightarrow> string" where
  "json_dumps JNull = ''null''"
| "json_dumps (JBool b) = (if b then ''true'' else ''false'')"
| "json_dumps (JInt i) = int_str i"
| "json_dumps (JStr s) = quote s"
| "json_dumps (JList xs) = ''['' @ join '','' (map json_dumps xs) @ '']''"
| "json_dumps (JObj d) =
     ''{'' @ join '','' (map (\<lambda>(k, v). quote k @ '':'' @ json_dumps v) (sort_key fst d)) @ ''}''"

text \<open>The value that the text stands for: the same value with the keys of every dictionary sorted.\<close>

fun sort_keys :: "json \<Rightarrow> json" where
  "sort_keys (JList xs) = JList (map sort_keys xs)"
| "sort_keys (JObj d) = JObj (map (\<lambda>(k, v). (k, sort_keys v)) (sort_key fst d))"
| "sort_keys v = v"

fun json_ws :: "char \<Rightarrow> bool" where
  "json_ws c = (code c = 32 \<or> code c = 10 \<or> code c = 13 \<or> code c = 9)"

declare json_ws.simps [simp del]

definition skip_ws :: "string \<Rightarrow> string" where
  "skip_ws s = dropWhile json_ws s"

definition hex_val :: "char \<Rightarrow> nat option" where
  "hex_val c = (let n = code c in
     if 48 \<le> n \<and> n \<le> 57 then Some (n - 48)
     else if 97 \<le> n \<and> n \<le> 102 then Some (n - 87)
     else if 65 \<le> n \<and> n \<le> 70 then Some (n - 55) else None)"

text \<open>\<open>\\uXXXX\<close>; a code point above 255 is outside the modelled strings.\<close>

definition hex4 :: "string \<Rightarrow> char option" where
  "hex4 s = (case map hex_val s of
     [Some a, Some b, Some c, Some d] \<Rightarrow>
       (let n = ((a * 16 + b) * 16 + c) * 16 + d in if n < 256 then Some (char_of n) else None)
   | _ \<Rightarrow> None)"

definition unescape :: "char \<Rightarrow> char option" where
  "unescape e = (let n = code e in
     if n = 34 \<or> n = 92 \<or> n = 47 then Some e
     else if e = CHR ''n'' then Some (CHR 0x0A)
     else if e = CHR ''r'' then Some (CHR 0x0D)
     else if e = CHR ''t'' then Some (CHR 0x09)
     else if e = CHR ''f'' then Some (CHR 0x0C)
     else if e = CHR ''b'' then Some (CHR 0x08) else None)"

definition cons_chr :: "char \<Rightarrow> (string \<times> string) option \<Rightarrow> (string \<times> string) option" where
  "cons_chr c m = map_option (\<lambda>(s, r). (c # s, r)) m"

text \<open>The characters of a string literal behind its opening quote.\<close>

fun parse_chars :: "string \<Rightarrow> (string \<times> string) option" where
  "parse_chars [] = None"
| "parse_chars (c # r) =
     (if code c = 34 then Some ([], r)
      else if code c = 92 then
        (case r of
           [] \<Rightarrow> None
         | e # r1 \<Rightarrow>
             (if e = CHR ''u'' then
                (case hex4 (take 4 r1) of
                   None \<Rightarrow> None | Some x \<Rightarrow> cons_chr x (parse_chars (drop 4 r1)))
              else (case unescape e of
                   None \<Rightarrow> None | Some x \<Rightarrow> cons_chr x (parse_chars r1))))
      else if code c < 32 then None
      else cons_chr c (parse_chars r))"

text \<open>An integer literal; a fraction or an exponent makes a float, which is not modelled.\<close>

definition int_literal :: "string \<Rightarrow> string" where
  "int_literal t = (if startswith t ''0'' then ''0'' else takeWhile is_dec t)"

definition parse_int :: "string \<Rightarrow> (json \<times> string) option" where
  "parse_int s =
     (let neg = (case s of c # _ \<Rightarrow> c = CHR ''-'' | [] \<Rightarrow> False);
          t = (if neg then tl s else s);
          ds = int_literal t;
          r = drop (length ds) t
      in if ds = [] \<or> (case r of c # _ \<Rightarrow> c = CHR ''.'' \<or> c = CHR ''e'' \<or> c = CHR ''E'' | [] \<Rightarrow> False) then None
         else Some (JInt (if neg then - int (dec_value ds) else int (dec_value ds)), r))"

fun parse_value :: "nat \<Rightarrow> string \<Rightarrow> (json \<times> string) option"
  and parse_elems :: "nat \<Rightarrow> string \<Rightarrow> (json list \<times> string) option"
  and parse_members :: "nat \<Rightarrow> string \<Rightarrow> ((string \<times> json) list \<times> string) option" where
  "parse_value 0 s = None"
| "parse_value (Suc n) s =
     (case s of
        [] \<Rightarrow> None
      | c # r \<Rightarrow>
          if code c = 34 then map_option (\<lambda>(x, q). (JStr x, q)) (parse_chars r)
          else if c = CHR ''{'' then
            (if startswith (skip_ws r) ''}'' then Some (JObj [], tl (skip_ws r))
             else map_option (\<lambda>(x, q). (JObj (dict_of x), q)) (parse_members n (skip_ws r)))
          else if c = CHR ''['' then
            (if startswith (skip_ws r) '']'' then Some (JList [], tl (skip_ws r))
             else map_option (\<lambda>(x, q). (JList x, q)) (parse_elems n (skip_ws r)))
          else if startswith s ''null'' then Some (JNull, drop 4 s)
          else if startswith s ''true'' then Some (JBool True, drop 4 s)
          else if startswith s ''false'' then Some (JBool False, drop 5 s)
          else parse_int s)"
| "parse_elems 0 s = None"
| "parse_elems (Suc n) s =
     (case parse_value n s of
        None \<Rightarrow> None
      | Some (v, r) \<Rightarrow>
          (case skip_ws r of
             [] \<Rightarrow> None
           | c # q \<Rightarrow>
               if c = CHR '']'' then Some ([v], q)
               else if c = CHR '','' then map_option (\<lambda>(vs, t). (v # vs, t)) (parse_elems n (skip_ws q))
               else None))"
| "parse_members 0 s = None"
| "parse_members (Suc n) s =
     (if \<not> startswith s [CHR 0x22] then None else
      (case parse_chars (tl s) of
        None \<Rightarrow> None
      | Some (k, r) \<Rightarrow>
          if \<not> startswith (skip_ws r) '':'' then None else
          (case parse_value n (skip_ws (tl (skip_ws r))) of
             None \<Rightarrow> None
           | Some (v, q) \<Rightarrow>
               (case skip_ws q of
                  [] \<Rightarrow> None
                | c # t \<Rightarrow>
                    if c = CHR ''}'' then Some ([(k, v)], t)
                    else if c = CHR '','' then
                      map_option (\<lambda>(ms, u). ((k, v) # ms, u)) (parse_members n (skip_ws t))
                    else None))))"

text \<open>\<open>json.loads\<close>: \<open>None\<close> is \<open>JSONDecodeError\<close>.\<close>

definition json_loads :: "string \<Rightarrow> json option" where
  "json_loads s = (case parse_value (length s + 1) (skip_ws s) of
     None \<Rightarrow> None | Some (v, r) \<Rightarrow> if skip_ws r = [] then Some v else None)"

section \<open>Round trip\<close>

text \<open>The encoder without the sorting of keys.\<close>

fun json_enc :: "json \<Rightarrow> string" where
  "json_enc (JList xs) = ''['' @ join '','' (map json_enc xs) @ '']''"
| "json_enc (JObj d) = ''{'' @ join '','' (map (\<lambda>(k, v). quote k @ '':'' @ json_enc v) d) @ ''}''"
| "json_enc v = json_dumps v"

lemma json_dumps_enc: "json_dumps v = json_enc (sort_keys v)"
proof (induction v rule: json_dumps.induct)
  case (6 d)
  have "join '','' (map (\<lambda>x. quote (fst x) @ CHR '':'' # json_dumps (snd x)) (sort_key fst d)) =
      join '','' (map (\<lambda>x. quote (fst x) @ CHR '':'' # json_enc (sort_keys (snd x))) (sort_key fst d))"
    using 6 by (intro arg_cong [of _ _ "join '',''"] map_cong) auto
  then show ?case by (simp add: comp_def case_prod_unfold)
next
  case (5 xs)
  have "join '','' (map json_dumps xs) = join '','' (map (json_enc \<circ> sort_keys) xs)"
    using 5 by (intro arg_cong [of _ _ "join '',''"] map_cong) auto
  then show ?case by simp
qed auto

lemma sort_keys_ok: "json_ok v \<Longrightarrow> json_ok (sort_keys v)"
proof (induction v rule: sort_keys.induct)
  case (2 d)
  then have "dict_ok (sort_key fst d)"
    by (metis distinct_map distinct_sort json_ok.simps(2) set_sort)
  with 2 show ?case by (auto simp: list_all_iff comp_def case_prod_unfold)
qed (auto simp: list_all_iff)

lemma hex_val_digit: "d < 16 \<Longrightarrow> hex_val (hex_digit d) = Some d"
  by (simp add: hex_val_def hex_digit_def)

lemma hex4_hex2: "n < 256 \<Longrightarrow> hex4 ([CHR ''0'', CHR ''0''] @ hex2 n) = Some (char_of n)"
proof -
  assume n: "n < 256"
  then have "n div 16 < 16" by auto
  then have "map hex_val ([CHR ''0'', CHR ''0''] @ hex2 n)
      = [Some 0, Some 0, Some (n div 16), Some (n mod 16)]"
    by (simp add: hex2_def hex_val_digit) (simp add: hex_val_def code_def)
  then show ?thesis using n by (simp add: hex4_def)
qed

lemma cons_chr_Some [simp]: "cons_chr c (Some (s, r)) = Some (c # s, r)"
  by (simp add: cons_chr_def)

lemma parse_quote_char:
  "parse_chars (quote_char c @ t) = cons_chr c (parse_chars t)"
proof (cases "code c < 32 \<and> code c \<notin> {8, 9, 10, 12, 13}")
  case True
  then have q: "quote_char c = [CHR 0x5C, CHR ''u'', CHR ''0'', CHR ''0''] @ hex2 (code c)"
    by (auto simp: quote_char_def)
  have h: "take 4 (CHR ''0'' # CHR ''0'' # hex2 (code c) @ t) = [CHR ''0'', CHR ''0''] @ hex2 (code c)"
      "drop 4 (CHR ''0'' # CHR ''0'' # hex2 (code c) @ t) = t"
    by (simp_all add: hex2_def)
  show ?thesis unfolding q using h hex4_hex2 [of "code c"]
    by (simp add: code_def)
next
  case False
  show ?thesis
  proof (cases "code c < 32 \<or> code c = 34 \<or> code c = 92")
    case True
    with \<open>\<not> (code c < 32 \<and> code c \<notin> {8, 9, 10, 12, 13})\<close>
    have "c \<in> {CHR 0x08, CHR 0x09, CHR 0x0A, CHR 0x0C, CHR 0x0D, CHR 0x22, CHR 0x5C}"
      by (auto simp: code_eq_iff [symmetric]) (auto simp: code_def)
    then show ?thesis
      by (auto simp: quote_char_def unescape_def code_def)
  next
    case False
    then show ?thesis by (simp add: quote_char_def)
  qed
qed

lemma parse_quote: "parse_chars (concat (map quote_char s) @ CHR 0x22 # r) = Some (s, r)"
  by (induction s) (simp_all add: parse_quote_char, simp add: code_def)

text \<open>What may follow a value in a document.\<close>

definition follow :: "string \<Rightarrow> bool" where
  "follow r = (case r of [] \<Rightarrow> True | c # _ \<Rightarrow> c = CHR '','' \<or> c = CHR '']'' \<or> c = CHR ''}'')"

lemma follow_simps [simp]: "follow []" "follow (CHR '','' # r)" "follow (CHR '']'' # r)" "follow (CHR ''}'' # r)"
  by (simp_all add: follow_def)

lemma nat_str_zero: "hd (nat_str n) = CHR ''0'' \<Longrightarrow> n = 0"
proof (induction n rule: nat_str.induct)
  case (1 n)
  show ?case
  proof (cases "n < 10")
    case True
    with 1 show ?thesis by (auto simp: nat_str.simps [of n] dec_digit_def code_eq_iff [symmetric] code_def)
  next
    case False
    with 1 have "hd (nat_str (n div 10)) = CHR ''0''"
      by (simp add: nat_str.simps [of n] hd_append)
    with 1 False have "n div 10 = 0" by blast
    with False show ?thesis by simp
  qed
qed

lemma takeWhile_nat_str:
  assumes "follow r"
  shows "takeWhile is_dec (nat_str n @ r) = nat_str n"
proof -
  have "takeWhile is_dec (nat_str n @ r) = nat_str n @ takeWhile is_dec r"
    using nat_str_dec [of n] by (auto simp: list_all_iff takeWhile_append)
  moreover have "takeWhile is_dec r = []"
    using assms by (cases r) (auto simp: follow_def is_dec_def code_def)
  ultimately show ?thesis by simp
qed

lemma nat_str_0 [simp]: "nat_str 0 = ''0''"
  by (simp add: nat_str.simps dec_digit_def code_eq_iff [symmetric]) (simp add: code_def)

lemma parse_int_digits:
  assumes "follow r"
  shows "int_literal (nat_str n @ r) = nat_str n"
proof (cases "startswith (nat_str n @ r) ''0''")
  case True
  then have "hd (nat_str n) = CHR ''0''"
    using nat_str_ne [of n] by (cases "nat_str n") (auto simp: startswith_def)
  then have "n = 0" by (rule nat_str_zero)
  with True show ?thesis by (simp add: int_literal_def)
next
  case False
  with assms show ?thesis by (simp add: takeWhile_nat_str int_literal_def)
qed

lemma follow_no_float:
  "follow r \<Longrightarrow> \<not> (case r of c # _ \<Rightarrow> c = CHR ''.'' \<or> c = CHR ''e'' \<or> c = CHR ''E'' | [] \<Rightarrow> False)"
  by (auto simp: follow_def split: list.splits)

lemma parse_int_enc:
  assumes "follow r"
  shows "parse_int (int_str i @ r) = Some (JInt i, r)"
proof (cases "i < 0")
  case True
  then show ?thesis
    using parse_int_digits [OF assms, of "nat (- i)"] follow_no_float [OF assms]
    by (simp add: parse_int_def int_str_def Let_def)
next
  case False
  then obtain c s where s: "nat_str (nat i) = c # s" and "c \<noteq> CHR ''-''"
    by (metis dec_not_sign hd_Cons_tl hd_nat_str_dec list.sel(1) nat_str_ne)
  with False show ?thesis
    using parse_int_digits [OF assms, of "nat i"] follow_no_float [OF assms] dec_value_nat_str [of "nat i"]
    by (simp add: parse_int_def int_str_def Let_def)
qed

text \<open>A value starts with a character that is neither white space nor a closing bracket.\<close>

definition value_start :: "char \<Rightarrow> bool" where
  "value_start c = (is_dec c \<or> c \<in> {CHR ''-'', CHR 0x22, CHR ''['', CHR ''{'', CHR ''n'', CHR ''t'', CHR ''f''})"

lemma json_enc_start: "\<exists>c t. json_enc v = c # t \<and> value_start c"
proof (cases v)
  case (JInt i)
  have "is_dec (hd (nat_str n))" for n by simp
  with JInt show ?thesis
    by (cases "int_str i") (auto simp: value_start_def int_str_def split: if_splits intro: hd_nat_str_dec,
        metis hd_nat_str_dec list.sel(1))
qed (auto simp: value_start_def quote_def)

lemma value_start_not_ws: "value_start c \<Longrightarrow> \<not> json_ws c \<and> c \<noteq> CHR '']'' \<and> c \<noteq> CHR ''}''"
  by (auto simp: value_start_def is_dec_def json_ws.simps code_def)

lemma skip_ws_value [simp]: "skip_ws (json_enc v @ r) = json_enc v @ r"
proof -
  obtain c t where "json_enc v = c # t" "value_start c" using json_enc_start by blast
  then show ?thesis by (simp add: skip_ws_def value_start_not_ws)
qed

lemma value_no_close [simp]: "\<not> startswith (json_enc v @ r) '']''"
proof -
  obtain c t where "json_enc v = c # t" "value_start c" using json_enc_start by blast
  then show ?thesis by (auto simp: startswith_def dest: value_start_not_ws)
qed

lemma skip_ws_punct [simp]:
  "skip_ws (CHR '','' # r) = CHR '','' # r" "skip_ws (CHR '']'' # r) = CHR '']'' # r"
  "skip_ws (CHR ''}'' # r) = CHR ''}'' # r" "skip_ws (CHR '':'' # r) = CHR '':'' # r"
  "skip_ws (CHR 0x22 # r) = CHR 0x22 # r" "skip_ws [] = []"
  by (simp_all add: skip_ws_def json_ws.simps code_def)

lemma parse_elems_enc:
  assumes "xs \<noteq> []"
    and "\<And>x n r. x \<in> set xs \<Longrightarrow> follow r \<Longrightarrow> size x < n \<Longrightarrow> parse_value n (json_enc x @ r) = Some (x, r)"
    and "size_list size xs < n"
  shows "parse_elems n (join '','' (map json_enc xs) @ '']'' @ r) = Some (xs, r)"
  using assms
proof (induction xs arbitrary: n)
  case Nil
  then show ?case by simp
next
  case (Cons x xs)
  from Cons.prems(3) obtain m where n: "n = Suc m" by (cases n) auto
  have m: "size x < m" "size_list size xs < m" using Cons.prems(3) n by auto
  show ?case
  proof (cases xs)
    case Nil
    with Cons.prems(2) [of x "'']'' @ r" m] m n show ?thesis by simp
  next
    case (Cons y ys)
    then have tail: "parse_elems m (join '','' (map json_enc xs) @ '']'' @ r) = Some (xs, r)"
      using Cons.IH m Cons.prems(2) by (metis list.discI list.set_intros(2))
    have ws: "skip_ws (join '','' (map json_enc xs) @ '']'' @ r) = join '','' (map json_enc xs) @ '']'' @ r"
      using Cons by (cases ys) simp_all
    show ?thesis
      using Cons.prems(2) [of x "'','' @ join '','' (map json_enc xs) @ '']'' @ r" m] m n tail ws Cons
      by simp
  qed
qed

abbreviation enc_member :: "string \<times> json \<Rightarrow> string" where
  "enc_member kv \<equiv> (case kv of (k, v) \<Rightarrow> quote k @ '':'' @ json_enc v)"

lemma startswith_quote [simp]: "startswith (quote k @ r) [CHR 0x22]" "\<not> startswith (quote k @ r) ''}''"
  by (simp_all add: startswith_def quote_def)

lemma startswith_self [simp]: "startswith (c # r) [c]"
  by (simp add: startswith_def)

lemma skip_ws_quote [simp]: "skip_ws (quote k @ r) = quote k @ r"
  by (simp add: quote_def)

lemma parse_tl_quote [simp]: "parse_chars (tl (quote k @ r)) = Some (k, r)"
  by (simp add: quote_def parse_quote)

lemma parse_members_enc:
  assumes "d \<noteq> []"
    and "\<And>k x n r. (k, x) \<in> set d \<Longrightarrow> follow r \<Longrightarrow> size x < n \<Longrightarrow> parse_value n (json_enc x @ r) = Some (x, r)"
    and "size_list (size_prod (\<lambda>_. 0) size) d < n"
  shows "parse_members n (join '','' (map enc_member d) @ ''}'' @ r) = Some (d, r)"
  using assms
proof (induction d arbitrary: n)
  case Nil
  then show ?case by simp
next
  case (Cons kx d)
  obtain k x where kx: "kx = (k, x)" by (cases kx)
  from Cons.prems(3) obtain m where n: "n = Suc m" by (cases n) auto
  have m: "size x < m" "size_list (size_prod (\<lambda>_. 0) size) d < m" using Cons.prems(3) n kx by auto
  have head: "parse_value m (json_enc x @ t) = Some (x, t)" if "follow t" for t
    using Cons.prems(2) [of k x t m] kx m that by simp
  show ?case
  proof (cases d)
    case Nil
    then show ?thesis using head [of "''}'' @ r"] kx n by simp
  next
    case (Cons y ys)
    then have tail: "parse_members m (join '','' (map enc_member d) @ ''}'' @ r) = Some (d, r)"
      using Cons.IH m Cons.prems(2) by (metis list.discI list.set_intros(2))
    have ws: "skip_ws (join '','' (map enc_member d) @ ''}'' @ r) = join '','' (map enc_member d) @ ''}'' @ r"
      using Cons by (cases ys) (auto split: prod.splits)
    show ?thesis
      using head [of "'','' @ join '','' (map enc_member d) @ ''}'' @ r"] kx n tail ws Cons
      by simp
  qed
qed

lemma parse_value_enc:
  "json_ok v \<Longrightarrow> follow r \<Longrightarrow> size v < n \<Longrightarrow> parse_value n (json_enc v @ r) = Some (v, r)"
proof (induction v arbitrary: r n)
  case (JInt i)
  then obtain m where n: "n = Suc m" by (cases n) auto
  obtain c t where c: "int_str i = c # t" "is_dec c \<or> c = CHR ''-''"
    by (metis hd_nat_str_dec int_str_def list.collapse nat_str_ne)
  then have "code c \<noteq> 34" "c \<noteq> CHR ''{''" "c \<noteq> CHR ''[''" "c \<noteq> CHR ''n''" "c \<noteq> CHR ''t''" "c \<noteq> CHR ''f''"
    by (auto simp: is_dec_def code_def)
  then show ?case using parse_int_enc [OF JInt.prems(2), of i] c n
    by (simp add: startswith_def)
next
  case (JList xs)
  then obtain m where n: "n = Suc m" by (cases n) auto
  show ?case
  proof (cases xs)
    case Nil
    then show ?thesis using n by (simp add: startswith_def code_def)
  next
    case (Cons y ys)
    have "parse_elems m (join '','' (map json_enc xs) @ '']'' @ r) = Some (xs, r)"
      using JList Cons n by (intro parse_elems_enc) (auto simp: list_all_iff)
    moreover have "\<exists>t. join '','' (map json_enc xs) @ '']'' @ r = json_enc y @ t"
      using Cons by (cases ys) auto
    ultimately show ?thesis using n by (auto simp: code_def)
  qed
next
  case (JObj d)
  then obtain m where n: "n = Suc m" by (cases n) auto
  show ?case
  proof (cases d)
    case Nil
    then show ?thesis using n by (simp add: startswith_def code_def)
  next
    case (Cons y ys)
    have ih: "parse_value n (json_enc x @ r) = Some (x, r)"
      if "(k, x) \<in> set d" "follow r" "size x < n" for k x n r
      using JObj.IH [of "(k, x)" x r n] JObj.prems(1) that by (auto simp: list_all_iff)
    have "parse_members m (join '','' (map enc_member d) @ ''}'' @ r) = Some (d, r)"
      using JObj.prems Cons n by (intro parse_members_enc ih) auto
    moreover have "\<exists>k t. join '','' (map enc_member d) @ ''}'' @ r = quote k @ t"
      using Cons by (cases ys; cases y) auto
    moreover have "dict_of d = d" using JObj.prems by (simp add: dict_of_id)
    ultimately show ?thesis using n by (auto simp: code_def)
  qed
next
  case (JStr s)
  then obtain m where n: "n = Suc m" by (cases n) auto
  then show ?case using parse_quote [of s r] by (simp add: quote_def code_def)
next
  case JNull
  then show ?case by (cases n) (auto simp: startswith_def code_def)
next
  case (JBool b)
  then show ?case by (cases n) (auto simp: startswith_def code_def)
qed

lemma length_join:
  "xs \<noteq> [] \<Longrightarrow> length (join '','' xs) + 1 = sum_list (map (\<lambda>x. length x + 1) xs)"
  by (induction "'',''" xs rule: join.induct) auto

lemma size_list_sum: "size_list f xs = sum_list (map (\<lambda>x. f x + 1) xs)"
  by (induction xs) auto

lemma size_le_enc: "size v \<le> length (json_enc v)"
proof (induction v)
  case (JList xs)
  show ?case
  proof (cases "xs = []")
    case False
    have "size_list size xs \<le> sum_list (map (\<lambda>x. length x + 1) (map json_enc xs))"
      unfolding size_list_sum map_map using JList by (intro sum_list_mono) auto
    with False length_join [of "map json_enc xs"] show ?thesis by simp
  qed simp
next
  case (JObj d)
  show ?case
  proof (cases "d = []")
    case False
    have "size_list (size_prod (\<lambda>_. 0) size) d \<le> sum_list (map (\<lambda>x. length x + 1) (map enc_member d))"
      unfolding size_list_sum map_map using JObj
      by (intro sum_list_mono) (force simp: quote_def)
    with False length_join [of "map enc_member d"] show ?thesis by simp
  qed simp
qed auto

text \<open>
  The law of the codec: decoding the canonical text of a well-formed value gives the value back,
  with its keys in sorted order.
\<close>

lemma json_loads_dumps: "json_ok v \<Longrightarrow> json_loads (json_dumps v) = Some (sort_keys v)"
proof -
  assume ok: "json_ok v"
  let ?w = "sort_keys v"
  have "parse_value (length (json_enc ?w) + 1) (json_enc ?w @ []) = Some (?w, [])"
    using sort_keys_ok [OF ok] size_le_enc [of ?w] by (intro parse_value_enc) auto
  moreover have "skip_ws (json_enc ?w) = json_enc ?w" using skip_ws_value [of ?w "[]"] by simp
  ultimately show ?thesis by (simp add: json_loads_def json_dumps_enc)
qed

section \<open>Laws of the value view\<close>

lemma text_of_str [simp]: "text_of (JStr s) = strip s"
  by (cases s) (simp_all add: text_of_def por_def)

lemma strip_text_of [simp]: "strip (text_of v) = text_of v"
  by (simp add: text_of_def)

lemma json_ok_dget: "list_all (\<lambda>(k, v). json_ok v) d \<Longrightarrow> json_ok (dget d k)"
  by (auto simp: dget_def dget_or_def list_all_iff split: option.splits dest!: map_of_SomeD)

lemma json_ok_dget_or: "list_all (\<lambda>(k, v). json_ok v) d \<Longrightarrow> json_ok w \<Longrightarrow> json_ok (dget_or d k w)"
  by (auto simp: dget_or_def list_all_iff split: option.splits dest!: map_of_SomeD)

lemma json_ok_items: "json_ok v \<Longrightarrow> list_all (\<lambda>(k, v). json_ok v) (items v)"
  by (cases v) auto

lemma py_iter_ok: "json_ok v \<Longrightarrow> py_iter v = Inr xs \<Longrightarrow> x \<in> set xs \<Longrightarrow> json_ok x"
  by (cases v) (auto simp: list_all_iff)

lemma json_ok_por: "json_ok a \<Longrightarrow> json_ok b \<Longrightarrow> json_ok (por a b)"
  by (simp add: por_def)

lemma dget_dset_json [simp, dict_simps]: "dget (dset k v d) k' = (if k' = k then v else dget d k')"
  by (simp add: dget_def dget_or_def)

lemma dget_dpop_json [simp, dict_simps]: "dget (dpop k d) k' = (if k' = k then JNull else dget d k')"
  by (simp add: dget_def dget_or_def)

lemma dget_Cons [simp]: "dget ((k, v) # d) k' = (if k' = k then v else dget d k')"
  by (simp add: dget_def dget_or_def)

lemma dget_Nil [simp]: "dget [] k = JNull"
  by (simp add: dget_def dget_or_def)

lemma is_dict_items: "is_dict v \<longleftrightarrow> v = JObj (items v)"
  by (cases v) auto

subsection \<open>Equality\<close>

lemma py_eq_JObj: "py_eq (JObj d) (JObj e) \<longleftrightarrow> length d = length e
    \<and> (\<forall>(k, v)\<in>set d. \<exists>w. map_of e k = Some w \<and> py_eq v w)"
  by (subst py_eq.simps) (auto simp: list_all_iff split: option.splits)

lemma py_eq_JList: "py_eq (JList xs) (JList ys) \<longleftrightarrow> list_all2 py_eq xs ys"
  by (subst py_eq.simps) (auto simp: list_all2_iff list_all_iff)

lemma py_eq_simps [simp]:
  "py_eq JNull b \<longleftrightarrow> b = JNull"
  "py_eq (JStr s) b \<longleftrightarrow> b = JStr s"
  "py_eq a JNull \<longleftrightarrow> a = JNull"
  "py_eq a (JStr s) \<longleftrightarrow> a = JStr s"
  "py_eq (JInt i) (JInt j) \<longleftrightarrow> i = j"
  "py_eq (JBool x) (JBool y) \<longleftrightarrow> x = y"
  by (auto simp: py_eq.simps [of JNull b] py_eq.simps [of "JStr s" b] py_eq.simps [of a JNull]
      py_eq.simps [of a "JStr s"] py_eq.simps [of "JInt i" "JInt j"] py_eq.simps [of "JBool x" "JBool y"]
      split: json.splits)

lemma py_eq_refl: "json_ok v \<Longrightarrow> py_eq v v"
proof (induction v)
  case (JList xs)
  then show ?case by (auto simp: py_eq_JList list_all_iff intro: list_all2_refl list.rel_refl_strong)
next
  case (JObj d)
  then show ?case by (force simp: py_eq_JObj list_all_iff)
qed simp_all

lemma py_eq_truthy: "py_eq a b \<Longrightarrow> truthy a = truthy b"
  using py_eq.simps [of a b] by (auto split: json.splits if_splits)

lemma distinct_keys_eq:
  assumes "dict_ok d" "dict_ok e" "length d = length e" "fst ` set d \<subseteq> fst ` set e"
  shows "fst ` set e = fst ` set d"
proof -
  have "card (fst ` set d) = length d" "card (fst ` set e) = length e"
    using assms(1,2) by (metis distinct_card length_map set_map)+
  with assms(3,4) show ?thesis by (metis List.finite_set card_subset_eq finite_imageI)
qed

lemma py_eq_dget:
  assumes "py_eq (JObj d) (JObj e)" "dict_ok d" "dict_ok e"
  shows "py_eq (dget d k) (dget e k)"
proof (cases "map_of d k")
  case None
  have "fst ` set e = fst ` set d"
    using assms by (intro distinct_keys_eq) (force simp: py_eq_JObj dest: map_of_SomeD)+
  with None have "map_of e k = None" by (simp add: map_of_eq_None_iff)
  with None show ?thesis by (simp add: dget_def dget_or_def)
next
  case (Some v)
  then have "(k, v) \<in> set d" by (rule map_of_SomeD)
  with assms(1) obtain w where "map_of e k = Some w" "py_eq v w" by (auto simp: py_eq_JObj)
  with Some show ?thesis by (simp add: dget_def dget_or_def)
qed

text \<open>The decoded document equals the saved one.\<close>

lemma map_of_sort_key: "dict_ok d \<Longrightarrow> map_of (sort_key fst d) = map_of d"
proof -
  assume d: "dict_ok d"
  then have "dict_ok (sort_key fst d)"
    by (metis distinct_map distinct_sort set_sort)
  with d show ?thesis by (simp add: map_of_inject_set)
qed

lemma py_eq_sort_keys: "json_ok v \<Longrightarrow> py_eq v (sort_keys v)"
proof (induction v)
  case (JList xs)
  then show ?case by (auto simp: py_eq_JList list_all_iff list_all2_map2 intro: list.rel_refl_strong)
next
  case (JObj d)
  then have "map_of (map (\<lambda>(k, v). (k, sort_keys v)) (sort_key fst d)) k = map_option sort_keys (map_of d k)" for k
    by (simp add: dget_map_values [where f = "\<lambda>_. sort_keys"] map_of_sort_key)
  with JObj show ?case by (force simp: py_eq_JObj list_all_iff)
qed simp_all

lemma sort_keys_idem: "sort_keys (sort_keys v) = sort_keys v"
proof (induction v)
  case (JObj d)
  let ?m = "map (\<lambda>(k, v). (k, sort_keys v)) (sort_key fst d)"
  have "sorted (map fst ?m)" by (simp add: comp_def case_prod_unfold)
  then have "sort_key fst ?m = ?m" by (rule sort_key_id_if_sorted)
  moreover have "map (\<lambda>(k, v). (k, sort_keys v)) ?m = ?m"
    using JObj by force
  ultimately show ?case by simp
qed simp_all

lemma json_dumps_sort_keys [simp]: "json_dumps (sort_keys v) = json_dumps v"
  by (simp add: json_dumps_enc sort_keys_idem)

end
