(* ===== verification/Storage.thy ===== *)
theory Storage
  imports Json
begin

text \<open>
  The document store of \<open>src/labprobe_storage.py\<close>: documents in a SQLite table, a revision log
  in a second table written in the same transaction, bounded retention of the log, and the
  incremental synchronisation protocol read from it. A table is the list of its rows in primary
  key order; \<open>sequence\<close> is SQLite's \<open>AUTOINCREMENT\<close> counter, which deletions never lower. The
  readings of the clocks (\<open>_now()\<close>, SQLite's \<open>datetime('now','localtime','-N days')\<close> and
  \<open>time.monotonic()\<close>) are the record \<open>clock\<close>, taken once per operation. A transaction that raises is
  rolled back, so an error result carries no new store.
\<close>

section \<open>Constants and state\<close>

definition env_int :: "string option \<Rightarrow> int \<Rightarrow> int \<Rightarrow> int" where
  "env_int raw dflt minimum =
     (case py_int (case raw of None \<Rightarrow> int_str dflt | Some s \<Rightarrow> s) of
        None \<Rightarrow> dflt | Some n \<Rightarrow> max minimum n)"

definition NON_REVISION_DOCUMENTS :: "string list" where
  "NON_REVISION_DOCUMENTS = [''device_archive.json'', ''portmap_history.json'',
     ''portmap_router_status.json'', ''portmap_commands.json'', ''agent_status.json'',
     ''agent_update_commands.json'', ''daily_online.json'', ''geo_cache.json'', ''router_dashboard.json'']"

definition VOLATILE_DEVICE_KEYS :: "string list" where
  "VOLATILE_DEVICE_KEYS = [''raw'', ''rssi'', ''rxrate'', ''txrate'', ''channel'', ''activeTime'',
     ''activeTimeSec'', ''onlinetime'', ''onlineDurationText'', ''todayOnlineDurationSec'',
     ''todayOnlineDurationText'', ''todayOnlineDate'', ''lastSeenAt'', ''trafficUpdatedAt'',
     ''trafficDate'', ''trafficText'', ''flowUp'', ''flowDown'', ''flow_cnt'', ''up'', ''down'',
     ''dailyUp'', ''dailyDown'', ''todayUpload'', ''todayDownload'', ''totalUpload'', ''totalDownload'',
     ''dailyUpBytes'', ''dailyDownBytes'', ''upBytes'', ''downBytes'', ''todayTraffic'',
     ''realtimeTraffic'', ''awake'', ''psm'']"

definition VOLATILE_STATUS_KEYS :: "string list" where
  "VOLATILE_STATUS_KEYS = [''updatedAt'', ''devicesUpdatedAt'', ''backgroundRefreshedAt'',
     ''routerLastCheckAt'', ''routerUpdatedAt'', ''lastSeenAt'', ''trafficUpdatedAt'', ''ipv6UpdatedAt'',
     ''receivedAt'', ''receivedEpoch'']"

record retention =
  max_rows :: nat
  prune_interval :: int
  checkpoint_interval :: int

text \<open>The values of the module constants when no environment variable overrides them.\<close>

definition default_retention :: retention where
  "default_retention = \<lparr>max_rows = nat (env_int None 1500 500),
     prune_interval = env_int None 300 30, checkpoint_interval = env_int None 900 60\<rparr>"

record clock =
  now_text :: string
  age_cutoff :: string
  monotonic :: int

record revision_row =
  row_revision :: int
  row_entity :: string
  row_operation :: string
  row_key :: string
  row_payload :: "string option"
  row_created :: string

record store =
  documents :: "(string \<times> (string \<times> string)) list"
  revisions :: "revision_row list"
  sequence :: int
  last_revision_prune_at :: int
  last_checkpoint_at :: int

type_synonym change = "string \<times> string \<times> string \<times> json"

definition empty_store :: store where
  "empty_store = \<lparr>documents = [], revisions = [], sequence = 0,
     last_revision_prune_at = 0, last_checkpoint_at = 0\<rparr>"

section \<open>The documents table\<close>

definition json_text :: "json \<Rightarrow> string" where
  "json_text v = json_dumps v"

definition load :: "store \<Rightarrow> string \<Rightarrow> json \<Rightarrow> json" where
  "load st key dflt =
     (case map_of (documents st) key of
        None \<Rightarrow> dflt
      | Some (value_json, updated_at) \<Rightarrow>
          (case json_loads value_json of None \<Rightarrow> dflt | Some v \<Rightarrow> v))"

section \<open>What a new document version changes\<close>

definition stable_device :: "json \<Rightarrow> json" where
  "stable_device item =
     (case item of
        JObj d \<Rightarrow> JObj (filter (\<lambda>(key, v). key \<notin> set VOLATILE_DEVICE_KEYS
            \<and> \<not> endswith (lower key) ''bytes'' \<and> \<not> startswith (lower key) ''flow'') d)
      | _ \<Rightarrow> item)"

definition blocked_payload_keys :: "string list" where
  "blocked_payload_keys = [''raw'', ''rawData'', ''debug'', ''debugInfo'', ''ipv6Candidates'',
     ''ipv6Records'', ''packetSamples'', ''history'', ''samples'', ''scanResults'']"

definition revision_device_payload :: "json \<Rightarrow> json" where
  "revision_device_payload item =
     (case item of
        JObj d \<Rightarrow> JObj (filter (\<lambda>(key, v). key \<notin> set blocked_payload_keys
            \<and> \<not> (case v of JStr s \<Rightarrow> 4096 < length s | _ \<Rightarrow> False)) d)
      | _ \<Rightarrow> item)"

definition volatile_status_key :: "string \<Rightarrow> bool" where
  "volatile_status_key key = (key \<in> set VOLATILE_STATUS_KEYS
     \<or> endswith key ''UpdatedAt'' \<or> endswith key ''RefreshedAt'')"

fun stable_status :: "bool \<Rightarrow> json \<Rightarrow> json" where
  "stable_status root (JList xs) = JList (map (stable_status False) xs)"
| "stable_status root (JObj d) = JObj (map (\<lambda>(key, child). (key, stable_status False child))
     (filter (\<lambda>(key, child). \<not> (root \<and> key = ''devices'') \<and> \<not> volatile_status_key key) d))"
| "stable_status root v = v"

definition row_key_of :: "(string \<times> json) list \<Rightarrow> string \<Rightarrow> string" where
  "row_key_of item fallback = lower (strip (py_str
     (por (dget item ''mac'') (por (dget item ''id'') (por (dget item ''date'') (JStr fallback))))))"

text \<open>\<open>{_row_key(x, str(i)): x for i, x in enumerate(v or []) if isinstance(x, dict)}\<close>\<close>

definition row_map :: "json \<Rightarrow> py_error + (string \<times> json) list" where
  "row_map v = ebind (py_iter (por v (JList []))) (\<lambda>xs. Inr (dict_of
     (map (\<lambda>(i, x). (row_key_of (items x) (nat_str i), x))
       (filter (\<lambda>(i, x). is_dict x) (enumerate 0 xs)))))"

text \<open>
  The two diffs differ in how a row is compared and in what its payload keeps. The set
  difference of the keys has no order in Python; the rows are listed in the order of the old map.
\<close>

definition diff_rows :: "(json \<Rightarrow> json) \<Rightarrow> (json \<Rightarrow> json) \<Rightarrow> string
    \<Rightarrow> (string \<times> json) list \<Rightarrow> (string \<times> json) list \<Rightarrow> change list" where
  "diff_rows norm clean entity old_map new_map =
     concat (map (\<lambda>(key, v).
        if (case map_of old_map key of None \<Rightarrow> True | Some previous \<Rightarrow> \<not> py_eq (norm previous) (norm v))
        then [if truthy (dget (items v) ''deleted'') then (entity, ''delete'', key, JNull)
              else (entity, ''upsert'', key, clean v)]
        else []) new_map)
     @ map (\<lambda>(key, v). (entity, ''delete'', key, JNull))
        (filter (\<lambda>(key, v). map_of new_map key = None) old_map)"

definition list_diff :: "string \<Rightarrow> json \<Rightarrow> json \<Rightarrow> py_error + change list" where
  "list_diff entity old new = ebind (row_map old) (\<lambda>old_map. ebind (row_map new) (\<lambda>new_map.
     Inr (diff_rows id id entity old_map new_map)))"

definition list_diff_stable :: "string \<Rightarrow> json \<Rightarrow> json \<Rightarrow> py_error + change list" where
  "list_diff_stable entity old new = ebind (row_map old) (\<lambda>old_map. ebind (row_map new) (\<lambda>new_map.
     Inr (diff_rows stable_device revision_device_payload entity old_map new_map)))"

definition device_meta :: "(string \<times> json) list \<Rightarrow> py_error + json" where
  "device_meta obj = ebind (py_len (por (dget_or obj ''online'' (JList [])) (JList []))) (\<lambda>n.
     Inr (JObj [(''onlineDeviceCount'', dget_or obj ''onlineDeviceCount'' (JInt n)),
                (''total'', dget_or obj ''total'' (JInt 0))]))"

definition as_list :: "json \<Rightarrow> json" where
  "as_list v = (if is_list v then v else JList [])"

definition changes_for_document :: "string \<Rightarrow> json \<Rightarrow> json \<Rightarrow> py_error + change list" where
  "changes_for_document key old new =
     (if key \<in> set NON_REVISION_DOCUMENTS then Inr []
      else if key = ''devices.json'' then
        ebind (device_meta (items old)) (\<lambda>old_meta.
        ebind (device_meta (items new)) (\<lambda>new_meta.
        ebind (list_diff_stable ''device'' (dget_or (items old) ''watched'' (JList []))
                 (dget_or (items new) ''watched'' (JList []))) (\<lambda>watched.
        ebind (list_diff_stable ''online_device'' (dget_or (items old) ''online'' (JList []))
                 (dget_or (items new) ''online'' (JList []))) (\<lambda>online.
        Inr (watched @ online @
          (if py_eq old_meta new_meta then [] else [(''device_meta'', ''replace'', ''devices'', new_meta)]))))))
      else if key = ''events.json'' then list_diff ''event'' (as_list old) (as_list new)
      else if key = ''state.json'' then
        (if py_eq (stable_status True old) (stable_status True new) then Inr []
         else Inr [(''status'', ''replace'', ''status'', stable_status True new)])
      else Inr [(''document'', ''replace'', key, new)])"

section \<open>The revision log\<close>

definition insert_revision :: "string \<Rightarrow> store \<Rightarrow> change \<Rightarrow> store" where
  "insert_revision now st ch = (case ch of (entity, operation, entity_key, payload) \<Rightarrow>
     st\<lparr>sequence := sequence st + 1,
        revisions := revisions st @ [\<lparr>row_revision = sequence st + 1, row_entity = entity,
          row_operation = operation, row_key = entity_key,
          row_payload = (if payload = JNull then None else Some (json_text payload)),
          row_created = now\<rparr>]\<rparr>)"

definition min_revision :: "revision_row list \<Rightarrow> int" where
  "min_revision rows = (case rows of [] \<Rightarrow> 0
     | r # rs \<Rightarrow> fold (\<lambda>x m. min (row_revision x) m) rs (row_revision r))"

definition max_revision :: "revision_row list \<Rightarrow> int" where
  "max_revision rows = (case rows of [] \<Rightarrow> 0
     | r # rs \<Rightarrow> fold (\<lambda>x m. max (row_revision x) m) rs (row_revision r))"

definition current_revision :: "store \<Rightarrow> int" where
  "current_revision st = max_revision (revisions st)"

definition prune_rows :: "retention \<Rightarrow> string \<Rightarrow> revision_row list \<Rightarrow> revision_row list" where
  "prune_rows cfg cutoff rows =
     (let recent = filter (\<lambda>r. \<not> row_created r < cutoff) rows
      in if length recent < max_rows cfg then recent
         else let oldest = row_revision (rev recent ! (max_rows cfg - 1))
              in filter (\<lambda>r. \<not> row_revision r < oldest) recent)"

definition prune_revisions :: "retention \<Rightarrow> clock \<Rightarrow> bool \<Rightarrow> store \<Rightarrow> store" where
  "prune_revisions cfg clk force st =
     (if \<not> force \<and> monotonic clk - last_revision_prune_at st < prune_interval cfg then st
      else st\<lparr>revisions := prune_rows cfg (age_cutoff clk) (revisions st),
              last_revision_prune_at := monotonic clk\<rparr>)"

definition put_document :: "string \<Rightarrow> string \<Rightarrow> string \<Rightarrow> store \<Rightarrow> store" where
  "put_document key encoded now st = st\<lparr>documents := dset key (encoded, now) (documents st)\<rparr>"

definition checkpoint :: "retention \<Rightarrow> clock \<Rightarrow> store \<Rightarrow> store" where
  "checkpoint cfg clk st =
     (if monotonic clk - last_checkpoint_at st \<ge> checkpoint_interval cfg
      then st\<lparr>last_checkpoint_at := monotonic clk\<rparr> else st)"

definition save :: "retention \<Rightarrow> clock \<Rightarrow> store \<Rightarrow> string \<Rightarrow> json \<Rightarrow> py_error + (store \<times> int)" where
  "save cfg clk st key v =
     ebind (case map_of (documents st) key of
              None \<Rightarrow> Inr JNull
            | Some (value_json, _) \<Rightarrow> (case json_loads value_json of None \<Rightarrow> Inl ValueError | Some x \<Rightarrow> Inr x)) (\<lambda>old.
     let encoded = json_text v in
     if map_option fst (map_of (documents st) key) = Some encoded then Inr (st, current_revision st)
     else ebind (changes_for_document key old v) (\<lambda>changes.
       let st1 = put_document key encoded (now_text clk) st;
           st2 = foldl (insert_revision (now_text clk)) st1 changes;
           st3 = checkpoint cfg clk (prune_revisions cfg clk False st2)
       in Inr (st3, current_revision st3)))"

section \<open>Opening the database\<close>

definition migrate_documents :: "string \<Rightarrow> (string \<times> json) list \<Rightarrow> store \<Rightarrow> store" where
  "migrate_documents now parsed st = foldl (\<lambda>s (key, v). put_document key (json_text v) now s) st parsed"

text \<open>
  \<open>initialize\<close>: a new database is filled from the JSON files (their paths and parsed contents,
  \<open>None\<close> for a file that does not parse), an empty log gets its baseline row, and the log is
  pruned. A failed first migration raises and the database file is removed.
\<close>

definition migrate_json_once :: "string \<Rightarrow> (string \<times> json option) list \<Rightarrow> store \<Rightarrow> py_error + store" where
  "migrate_json_once now files st =
     ebind (emap (\<lambda>(key, v). case v of None \<Rightarrow> Inl (RuntimeError ''cannot migrate invalid JSON'')
                                      | Some x \<Rightarrow> Inr (key, x)) files) (\<lambda>parsed.
     let st' = migrate_documents now parsed st in
     if length (documents st') \<noteq> length parsed
     then Inl (RuntimeError ''JSON migration verification failed'') else Inr st')"

text \<open>
  Opening the store with a new object, whose time of the last checkpoint is zero; the time of the last
  pruning is that of the pruning done here.
\<close>

definition initialize :: "retention \<Rightarrow> clock \<Rightarrow> (string \<times> json option) list \<Rightarrow> store option \<Rightarrow> py_error + store" where
  "initialize cfg clk files existing =
     ebind (case existing of Some st \<Rightarrow> Inr st
                           | None \<Rightarrow> migrate_json_once (now_text clk) files empty_store) (\<lambda>st.
     let st1 = (if current_revision st = 0
                then insert_revision (now_text clk) st (''system'', ''baseline'', ''database'', JNull) else st)
     in Inr ((prune_revisions cfg clk True st1)\<lparr>last_checkpoint_at := 0\<rparr>))"

section \<open>Incremental synchronisation\<close>

record sync_change =
  sc_revision :: int
  sc_entity :: string
  sc_operation :: string
  sc_key :: string
  sc_payload :: json
  sc_created :: string

record sync_result =
  oldest_revision :: int
  revision :: int
  from_revision :: int
  next_revision :: "int option"
  full_required :: bool
  has_more :: bool
  changes :: "sync_change list"

definition decode_row :: "revision_row \<Rightarrow> py_error + sync_change" where
  "decode_row r =
     ebind (case row_payload r of
              None \<Rightarrow> Inr JNull
            | Some t \<Rightarrow> (if t = [] then Inr JNull
                        else case json_loads t of None \<Rightarrow> Inl ValueError | Some v \<Rightarrow> Inr v)) (\<lambda>payload.
     Inr \<lparr>sc_revision = row_revision r, sc_entity = row_entity r, sc_operation = row_operation r,
          sc_key = row_key r, sc_payload = payload, sc_created = row_created r\<rparr>)"

definition changes_since :: "store \<Rightarrow> int \<Rightarrow> int \<Rightarrow> py_error + sync_result" where
  "changes_since st since lim =
     (let limit = nat (max 1 (min lim 1000));
          oldest = min_revision (revisions st);
          current = max_revision (revisions st)
      in if since < 0 \<or> (oldest > 0 \<and> since < oldest - 1) \<or> since > current
         then Inr \<lparr>oldest_revision = oldest, revision = current, from_revision = since,
                   next_revision = None, full_required = True, has_more = False, changes = []\<rparr>
         else
           let selected = take (limit + 1) (filter (\<lambda>r. row_revision r > since) (revisions st));
               rows = take limit selected
           in ebind (emap decode_row rows) (\<lambda>cs.
              Inr \<lparr>oldest_revision = oldest, revision = current, from_revision = since,
                   next_revision = Some (if rows = [] then since else row_revision (last rows)),
                   full_required = False, has_more = (length selected > limit), changes = cs\<rparr>))"

definition revision_info :: "store \<Rightarrow> int \<times> int" where
  "revision_info st = (min_revision (revisions st), max_revision (revisions st))"

section \<open>Invariants\<close>

abbreviation revs :: "revision_row list \<Rightarrow> int list" where
  "revs rows \<equiv> map row_revision rows"

definition row_ok :: "revision_row \<Rightarrow> bool" where
  "row_ok r = (case row_payload r of None \<Rightarrow> True | Some t \<Rightarrow> t \<noteq> [] \<and> json_loads t \<noteq> None)"

definition log_ok :: "store \<Rightarrow> bool" where
  "log_ok st = (sorted_wrt (<) (revs (revisions st))
     \<and> (\<forall>r\<in>set (revisions st). 0 < row_revision r \<and> row_revision r \<le> sequence st \<and> row_ok r)
     \<and> 0 \<le> sequence st)"

definition docs_ok :: "store \<Rightarrow> bool" where
  "docs_ok st = (dict_ok (documents st)
     \<and> (\<forall>(key, t, u)\<in>set (documents st). \<exists>v. json_ok v \<and> t = json_text v))"

definition store_ok :: "store \<Rightarrow> bool" where
  "store_ok st = (docs_ok st \<and> log_ok st)"

text \<open>
  The log holds exactly the newest revisions, without a gap, and its timestamps do not go back.
\<close>

definition log_dense :: "store \<Rightarrow> bool" where
  "log_dense st = (revs (revisions st) = [sequence st - int (length (revisions st)) + 1 .. sequence st]
     \<and> sorted (map row_created (revisions st)))"

lemma json_text_ne [simp]: "json_text v \<noteq> []"
  using json_enc_start [of "sort_keys v"] by (auto simp: json_text_def json_dumps_enc)

lemma store_ok_empty [simp]: "store_ok empty_store"
  by (simp add: store_ok_def docs_ok_def log_ok_def empty_store_def)

lemma log_dense_empty [simp]: "log_dense empty_store"
  by (simp add: log_dense_def empty_store_def)

subsection \<open>Shape of the log\<close>

lemma fold_max_last:
  "sorted_wrt (<) (revs (r # rs)) \<Longrightarrow> fold (\<lambda>x m. max (row_revision x) m) rs (row_revision r)
     = row_revision (last (r # rs))"
proof (induction rs arbitrary: r)
  case Nil
  then show ?case by simp
next
  case (Cons x xs)
  then have "max (row_revision x) (row_revision r) = row_revision x" by auto
  with Cons show ?case by simp
qed

lemma fold_min_head:
  "\<forall>x\<in>set rs. m \<le> row_revision x \<Longrightarrow> fold (\<lambda>x m. min (row_revision x) m) rs m = m"
  by (induction rs) auto

lemma max_revision_last:
  "sorted_wrt (<) (revs rows) \<Longrightarrow> max_revision rows = (if rows = [] then 0 else row_revision (last rows))"
  using fold_max_last by (cases rows) (auto simp: max_revision_def)

lemma min_revision_hd:
  "sorted_wrt (<) (revs rows) \<Longrightarrow> min_revision rows = (if rows = [] then 0 else row_revision (hd rows))"
  by (cases rows) (auto simp: min_revision_def intro!: fold_min_head)

lemma sorted_last_max:
  assumes "sorted_wrt (<) (revs rows)" and "r \<in> set rows"
  shows "row_revision r \<le> row_revision (last rows)"
  using assms by (induction rows) (auto intro: less_imp_le)

lemma insert_revision_log_ok:
  assumes "log_ok st" and "case ch of (e, oper, k, p) \<Rightarrow> json_ok p"
  shows "log_ok (insert_revision now st ch)"
  using assms
  by (cases ch) (force simp: log_ok_def insert_revision_def sorted_wrt_append row_ok_def json_text_def
      json_loads_dumps json_text_ne [unfolded json_text_def])

lemma insert_revision_documents [simp]: "documents (insert_revision now st ch) = documents st"
  by (cases ch) (simp add: insert_revision_def)

lemma insert_revisions_documents [simp]: "documents (foldl (insert_revision now) st chs) = documents st"
  by (induction chs arbitrary: st) simp_all

subsection \<open>Pruning\<close>

lemma filter_sorted_dropWhile:
  "sorted (map f xs) \<Longrightarrow> filter (\<lambda>x. \<not> f x < (c :: 'b :: linorder)) xs = dropWhile (\<lambda>x. f x < c) xs"
proof (induction xs)
  case Nil
  then show ?case by simp
next
  case (Cons x xs)
  show ?case
  proof (cases "f x < c")
    case True
    with Cons show ?thesis by simp
  next
    case False
    with Cons.prems have "\<forall>y\<in>set xs. \<not> f y < c" by auto
    with False show ?thesis by simp
  qed
qed

lemma dropWhile_drop: "\<exists>n. dropWhile P xs = drop n xs"
  by (metis dropWhile_eq_drop)

lemma filter_sorted_cap:
  assumes "sorted_wrt (<) (revs rows)" and "n < length rows"
  shows "filter (\<lambda>r. \<not> row_revision r < row_revision (rows ! n)) rows = drop n rows"
proof -
  have "\<forall>r\<in>set (take n rows). row_revision r < row_revision (rows ! n)"
    using assms by (auto simp: in_set_conv_nth sorted_wrt_iff_nth_less)
  moreover have "\<forall>r\<in>set (drop n rows). \<not> row_revision r < row_revision (rows ! n)"
  proof
    fix r assume "r \<in> set (drop n rows)"
    then obtain i where "i < length rows - n" "r = rows ! (n + i)"
      by (auto simp: in_set_conv_nth)
    then show "\<not> row_revision r < row_revision (rows ! n)"
      using assms by (cases i) (auto simp: sorted_wrt_iff_nth_less not_less intro!: less_imp_le)
  qed
  ultimately have "filter (\<lambda>r. \<not> row_revision r < row_revision (rows ! n)) (take n rows) = []"
      and "filter (\<lambda>r. \<not> row_revision r < row_revision (rows ! n)) (drop n rows) = drop n rows"
    by (simp_all add: filter_empty_conv filter_id_conv)
  then show ?thesis by (metis append_take_drop_id filter_append append_Nil)
qed

lemma sorted_wrt_filter_revs: "sorted_wrt (<) (revs rows) \<Longrightarrow> sorted_wrt (<) (revs (filter P rows))"
  by (simp add: sorted_wrt_map sorted_wrt_filter)

lemma prune_rows_cap:
  fixes cutoff :: string
  assumes "sorted_wrt (<) (revs rows)" and "0 < max_rows cfg"
  defines "recent \<equiv> filter (\<lambda>r. \<not> row_created r < cutoff) rows"
  shows "prune_rows cfg cutoff rows = take_last (max_rows cfg) recent"
proof (cases "length recent < max_rows cfg")
  case True
  then show ?thesis by (simp add: prune_rows_def recent_def)
next
  case False
  let ?n = "length recent - max_rows cfg"
  have idx: "rev recent ! (max_rows cfg - 1) = recent ! ?n"
    using False assms(2) by (simp add: rev_nth)
  have "sorted_wrt (<) (revs recent)"
    unfolding recent_def by (rule sorted_wrt_filter_revs [OF assms(1)])
  then have "filter (\<lambda>r. \<not> row_revision r < row_revision (recent ! ?n)) recent = drop ?n recent"
    using False assms(2) by (intro filter_sorted_cap) auto
  with False idx show ?thesis
    by (simp add: prune_rows_def recent_def [symmetric] take_last_def Let_def)
qed

lemma prune_rows_bounded:
  "sorted_wrt (<) (revs rows) \<Longrightarrow> 0 < max_rows cfg \<Longrightarrow> length (prune_rows cfg cutoff rows) \<le> max_rows cfg"
  by (simp add: prune_rows_cap)

lemma prune_rows_drop:
  assumes "sorted_wrt (<) (revs rows)" and "0 < max_rows cfg" and "sorted (map row_created rows)"
  shows "\<exists>n. prune_rows cfg cutoff rows = drop n rows"
proof -
  obtain m where "filter (\<lambda>r. \<not> row_created r < cutoff) rows = drop m rows"
    using filter_sorted_dropWhile [OF assms(3)] dropWhile_drop by metis
  then show ?thesis
    by (auto simp: prune_rows_cap [OF assms(1,2)] take_last_def drop_drop)
qed

lemma set_prune_rows: "set (prune_rows cfg cutoff rows) \<subseteq> set rows"
  by (auto simp: prune_rows_def Let_def)

lemma sorted_prune_rows: "sorted_wrt (<) (revs rows) \<Longrightarrow> sorted_wrt (<) (revs (prune_rows cfg cutoff rows))"
  by (simp add: prune_rows_def Let_def sorted_wrt_filter_revs)

lemma prune_revisions_frame [simp]:
  "documents (prune_revisions cfg clk f st) = documents st"
  "sequence (prune_revisions cfg clk f st) = sequence st"
  by (simp_all add: prune_revisions_def)

lemma prune_revisions_log_ok: "log_ok st \<Longrightarrow> log_ok (prune_revisions cfg clk f st)"
  using set_prune_rows [of cfg "age_cutoff clk" "revisions st"]
  by (auto simp: log_ok_def prune_revisions_def sorted_prune_rows)

lemma checkpoint_frame [simp]:
  "documents (checkpoint cfg clk st) = documents st" "sequence (checkpoint cfg clk st) = sequence st"
  "revisions (checkpoint cfg clk st) = revisions st"
  by (simp_all add: checkpoint_def)

lemma drop_upto_int: "drop n [i..j] = [i + int n..j]"
proof (induction n arbitrary: i)
  case (Suc n)
  show ?case
  proof (cases "i \<le> j")
    case True
    then show ?thesis using Suc [of "i + 1"] by (simp add: upto_rec1 algebra_simps)
  qed simp
qed simp

lemma log_dense_drop:
  assumes "log_dense st" and "revisions st' = drop n (revisions st)" and "sequence st' = sequence st"
  shows "log_dense st'"
proof (cases "n \<le> length (revisions st)")
  case True
  then show ?thesis using assms
    by (auto simp: log_dense_def drop_map [symmetric] drop_upto_int sorted_wrt_drop of_nat_diff algebra_simps)
next
  case False
  then show ?thesis using assms by (simp add: log_dense_def)
qed

lemma log_dense_insert:
  assumes "log_dense st" and "\<forall>r\<in>set (revisions st). row_created r \<le> now"
  shows "log_dense (insert_revision now st ch)
    \<and> (\<forall>r\<in>set (revisions (insert_revision now st ch)). row_created r \<le> now)"
  using assms
  by (cases ch) (auto simp: log_dense_def insert_revision_def sorted_append upto_rec2)

lemma log_dense_inserts:
  assumes "log_dense st" and "\<forall>r\<in>set (revisions st). row_created r \<le> now"
  shows "log_dense (foldl (insert_revision now) st chs)"
  using assms
proof (induction chs arbitrary: st)
  case (Cons ch chs)
  with log_dense_insert [OF Cons.prems] show ?case by simp
qed simp

lemma insert_revisions_created:
  assumes "\<forall>r\<in>set (revisions st). row_created r \<le> now"
  shows "\<forall>r\<in>set (revisions (foldl (insert_revision now) st chs)). row_created r \<le> now"
  using assms
proof (induction chs arbitrary: st)
  case (Cons ch chs)
  then have "\<forall>r\<in>set (revisions (insert_revision now st ch)). row_created r \<le> now"
    by (cases ch) (auto simp: insert_revision_def)
  then show ?case using Cons.IH by simp
qed simp

lemma log_dense_prune:
  assumes "log_ok st" and "log_dense st" and "0 < max_rows cfg"
  shows "log_dense (prune_revisions cfg clk f st)"
proof (cases "\<not> f \<and> monotonic clk - last_revision_prune_at st < prune_interval cfg")
  case True
  with assms(2) show ?thesis by (auto simp: prune_revisions_def)
next
  case False
  from assms obtain n where "prune_rows cfg (age_cutoff clk) (revisions st) = drop n (revisions st)"
    using prune_rows_drop [of "revisions st" cfg "age_cutoff clk"] by (auto simp: log_ok_def log_dense_def)
  with False have "revisions (prune_revisions cfg clk f st) = drop n (revisions st)"
    by (auto simp: prune_revisions_def)
  then show ?thesis using log_dense_drop [OF assms(2)] by simp
qed

subsection \<open>Payloads are well-formed\<close>

lemma stable_status_ok: "json_ok v \<Longrightarrow> json_ok (stable_status root v)"
proof (induction root v rule: stable_status.induct)
  case (2 root d)
  let ?f = "filter (\<lambda>(key, child). \<not> (root \<and> key = ''devices'') \<and> \<not> volatile_status_key key) d"
  have "dict_ok (map (\<lambda>(key, child). (key, stable_status False child)) ?f)"
    using 2(2) dict_ok_map_values [of "\<lambda>_. stable_status False" ?f] by (simp add: dict_filter_ok del: map_map)
  moreover have "json_ok (stable_status False b)" if "(a, b) \<in> set ?f" for a b
    using 2(1) [of "(a, b)" a b] 2(2) that by (auto simp: list_all_iff)
  ultimately show ?case unfolding stable_status.simps json_ok.simps by (force simp: list_all_iff)
qed (auto simp: list_all_iff)

lemma revision_device_payload_ok: "json_ok v \<Longrightarrow> json_ok (revision_device_payload v)"
  by (cases v) (auto simp: revision_device_payload_def list_all_iff intro!: dict_filter_ok)

lemma stable_device_ok: "json_ok v \<Longrightarrow> json_ok (stable_device v)"
  by (cases v) (auto simp: stable_device_def list_all_iff intro!: dict_filter_ok)

lemma row_map_ok:
  assumes "row_map v = Inr m" and "json_ok v"
  shows "dict_ok m" and "(k, x) \<in> set m \<Longrightarrow> json_ok x \<and> is_dict x"
proof -
  from assms(1) obtain xs where xs: "py_iter (por v (JList [])) = Inr xs"
    and m: "m = dict_of (map (\<lambda>(i, x). (row_key_of (items x) (nat_str i), x))
       (filter (\<lambda>(i, x). is_dict x) (enumerate 0 xs)))"
    by (auto simp: row_map_def err_simps)
  show "dict_ok m" unfolding m by (rule dict_of_ok)
  assume "(k, x) \<in> set m"
  with m set_dict_of obtain i where "(i, x) \<in> set (enumerate 0 xs)" "is_dict x" by fastforce
  then have "x \<in> set xs" by (auto simp: in_set_enumerate_eq)
  then show "json_ok x \<and> is_dict x"
    using py_iter_ok [OF _ xs] json_ok_por [of v "JList []"] assms(2) \<open>is_dict x\<close> by simp
qed

definition changes_wf :: "change list \<Rightarrow> bool" where
  "changes_wf chs = list_all (\<lambda>(e, oper, k, p). json_ok p) chs"

lemma changes_wf_simps [simp]: "changes_wf []" "changes_wf (a @ b) \<longleftrightarrow> changes_wf a \<and> changes_wf b"
    "changes_wf [(e, oper, k, p)] \<longleftrightarrow> json_ok p"
  by (simp_all add: changes_wf_def)

lemma insert_revisions_log_ok:
  assumes "log_ok st" and "changes_wf chs"
  shows "log_ok (foldl (insert_revision now) st chs)"
  using assms
proof (induction chs arbitrary: st)
  case (Cons ch chs)
  then have "log_ok (insert_revision now st ch)" by (intro insert_revision_log_ok) (auto simp: changes_wf_def)
  with Cons show ?case by (simp add: changes_wf_def)
qed simp

lemma diff_rows_ok:
  "(\<And>k x. (k, x) \<in> set m \<Longrightarrow> json_ok (clean x)) \<Longrightarrow> changes_wf (diff_rows norm clean entity old m)"
  by (auto simp: changes_wf_def list_all_iff diff_rows_def split: if_splits)

lemma list_diff_ok:
  "list_diff entity old new = Inr chs \<Longrightarrow> json_ok new \<Longrightarrow> changes_wf chs"
  "list_diff_stable entity old new = Inr chs \<Longrightarrow> json_ok new \<Longrightarrow> changes_wf chs"
  by (auto simp: list_diff_def list_diff_stable_def err_simps
      intro!: diff_rows_ok revision_device_payload_ok dest: row_map_ok(2))

lemma device_meta_ok:
  "device_meta obj = Inr v \<Longrightarrow> list_all (\<lambda>(k, v). json_ok v) obj \<Longrightarrow> json_ok v"
  by (auto simp: device_meta_def err_simps intro!: json_ok_dget_or)

lemma changes_ok:
  assumes "changes_for_document key old new = Inr chs" and "json_ok new"
  shows "changes_wf chs"
proof -
  have it: "list_all (\<lambda>(k, v). json_ok v) (items new)" using assms(2) by (rule json_ok_items)
  have w: "json_ok (dget_or (items new) f (JList []))" for f using it by (simp add: json_ok_dget_or)
  show ?thesis
    using assms it
    by (auto simp: changes_for_document_def err_simps as_list_def
        split: if_splits dest: list_diff_ok(2) [OF _ w] intro: list_diff_ok(1) stable_status_ok device_meta_ok)
qed

section \<open>Saving and loading\<close>

lemma docs_ok_load:
  assumes "docs_ok st" and "map_of (documents st) key = Some (t, u)"
  obtains v where "json_ok v" "t = json_text v" "json_loads t = Some (sort_keys v)"
  using assms by (auto simp: docs_ok_def json_text_def json_loads_dumps dest!: map_of_SomeD bspec)

lemma put_document_ok: "docs_ok st \<Longrightarrow> json_ok v \<Longrightarrow> docs_ok (put_document key (json_text v) now st)"
  using set_dset [of key "(json_text v, now)" "documents st"]
  by (auto simp: docs_ok_def put_document_def)

lemma put_document_log [simp]:
  "revisions (put_document k e n st) = revisions st" "sequence (put_document k e n st) = sequence st"
  "log_ok (put_document k e n st) = log_ok st" "log_dense (put_document k e n st) = log_dense st"
  by (simp_all add: put_document_def log_ok_def log_dense_def)

lemma log_ok_checkpoint [simp]: "log_ok (checkpoint cfg clk st) = log_ok st"
  "log_dense (checkpoint cfg clk st) = log_dense st"
  by (simp_all add: log_ok_def log_dense_def)

text \<open>The stages of a save that writes.\<close>

definition stored :: "retention \<Rightarrow> clock \<Rightarrow> store \<Rightarrow> string \<Rightarrow> json \<Rightarrow> change list \<Rightarrow> store" where
  "stored cfg clk st key v chs = checkpoint cfg clk (prune_revisions cfg clk False
     (foldl (insert_revision (now_text clk)) (put_document key (json_text v) (now_text clk) st) chs))"

lemma save_cases:
  assumes "save cfg clk st key v = Inr (st', r)"
  obtains
    (same) u where "map_of (documents st) key = Some (json_text v, u)" "st' = st" "r = current_revision st"
  | (written) old chs where "changes_for_document key old v = Inr chs"
      "st' = stored cfg clk st key v chs" "r = current_revision st'"
  using assms by (auto simp: save_def stored_def Let_def err_simps split: if_splits option.splits)

lemma stored_documents [simp]:
  "documents (stored cfg clk st key v chs) = dset key (json_text v, now_text clk) (documents st)"
  by (simp add: stored_def put_document_def)

lemma save_store_ok:
  assumes "store_ok st" and "json_ok v" and "save cfg clk st key v = Inr (st', r)"
  shows "store_ok st'"
  using assms(3)
proof (cases rule: save_cases)
  case same
  with assms(1) show ?thesis by simp
next
  case (written old chs)
  have "docs_ok st'"
    using assms(1,2) put_document_ok [of st v key "now_text clk"] written(2)
    by (simp add: store_ok_def docs_ok_def put_document_def)
  moreover have "log_ok st'"
    unfolding written(2) stored_def using assms(1) changes_ok [OF written(1) assms(2)]
    by (simp add: store_ok_def prune_revisions_log_ok insert_revisions_log_ok)
  ultimately show ?thesis by (simp add: store_ok_def)
qed

lemma save_log_dense:
  assumes "store_ok st" and "json_ok v" and "log_dense st" and "0 < max_rows cfg"
    and "\<forall>r\<in>set (revisions st). row_created r \<le> now_text clk"
    and "save cfg clk st key v = Inr (st', r)"
  shows "log_dense st' \<and> (\<forall>r\<in>set (revisions st'). row_created r \<le> now_text clk)"
  using assms(6)
proof (cases rule: save_cases)
  case same
  with assms(3,5) show ?thesis by simp
next
  case (written old chs)
  let ?s = "foldl (insert_revision (now_text clk)) (put_document key (json_text v) (now_text clk) st) chs"
  have d: "log_dense ?s" using assms(3,5) by (intro log_dense_inserts) auto
  have ok: "log_ok ?s" using assms(1) changes_ok [OF written(1) assms(2)]
    by (simp add: store_ok_def insert_revisions_log_ok)
  have "\<forall>r\<in>set (revisions ?s). row_created r \<le> now_text clk"
    using assms(5) by (intro insert_revisions_created) simp
  moreover have "set (revisions st') \<subseteq> set (revisions ?s)"
    using written(2) set_prune_rows by (auto simp: stored_def prune_revisions_def)
  ultimately show ?thesis
    using log_dense_prune [OF ok d assms(4)] written(2) by (auto simp: stored_def)
qed

lemma load_after_save:
  assumes "store_ok st" and "json_ok v" and "save cfg clk st key v = Inr (st', r)"
  shows "load st' key d = sort_keys v" and "key' \<noteq> key \<Longrightarrow> load st' key' d = load st key' d"
  using assms(3)
  by (cases rule: save_cases; simp add: load_def json_text_def json_loads_dumps [OF assms(2)])+

lemma row_map_list: "\<exists>m. row_map (JList xs) = Inr m"
  by (auto simp: row_map_def por_def)

lemma save_succeeds:
  assumes "store_ok st" and "key \<noteq> ''devices.json''"
  shows "\<exists>st' r. save cfg clk st key v = Inr (st', r)"
proof -
  obtain x where x: "(case map_of (documents st) key of None \<Rightarrow> Inr JNull
       | Some (t, _) \<Rightarrow> (case json_loads t of None \<Rightarrow> Inl ValueError | Some x \<Rightarrow> Inr x)) = Inr x"
  proof (cases "map_of (documents st) key")
    case (Some tu)
    then obtain t u where "map_of (documents st) key = Some (t, u)" by (cases tu) auto
    with assms(1) that show ?thesis by (auto simp: store_ok_def elim: docs_ok_load)
  qed (simp add: that)
  have "\<exists>chs. changes_for_document key x v = Inr chs"
  proof -
    obtain m m' where "row_map (as_list x) = Inr m" "row_map (as_list v) = Inr m'"
      using row_map_list by (cases x; cases v; simp add: as_list_def) metis+
    with assms(2) show ?thesis by (auto simp: changes_for_document_def list_diff_def)
  qed
  then show ?thesis using x by (auto simp: save_def Let_def)
qed

section \<open>The document interface\<close>

text \<open>
  What the services above rely on: a saved document is read back with its keys sorted and no
  other document changes.
\<close>

locale document_store =
  fixes ld :: "'s \<Rightarrow> string \<Rightarrow> json \<Rightarrow> json"
    and sv :: "'s \<Rightarrow> string \<Rightarrow> json \<Rightarrow> 's \<Rightarrow> bool"
    and invar :: "'s \<Rightarrow> bool"
  assumes load_saved: "invar s \<Longrightarrow> json_ok v \<Longrightarrow> sv s k v s' \<Longrightarrow> ld s' k d = sort_keys v"
    and load_other: "invar s \<Longrightarrow> json_ok v \<Longrightarrow> sv s k v s' \<Longrightarrow> k' \<noteq> k \<Longrightarrow> ld s' k' d = ld s k' d"
    and invar_saved: "invar s \<Longrightarrow> json_ok v \<Longrightarrow> sv s k v s' \<Longrightarrow> invar s'"
begin

inductive saves :: "'s \<Rightarrow> (string \<times> json) list \<Rightarrow> 's \<Rightarrow> bool" where
  saves_Nil: "saves s [] s"
| saves_snoc: "saves s ws t \<Longrightarrow> json_ok v \<Longrightarrow> sv t k v u \<Longrightarrow> saves s (ws @ [(k, v)]) u"

lemma saves_invar: "saves s ws t \<Longrightarrow> invar s \<Longrightarrow> invar t"
  by (induction rule: saves.induct) (auto intro: invar_saved)

lemma last_write_wins:
  "saves s ws t \<Longrightarrow> invar s \<Longrightarrow>
     ld t k d = (case map_of (rev ws) k of None \<Rightarrow> ld s k d | Some v \<Rightarrow> sort_keys v)"
proof (induction rule: saves.induct)
  case (saves_snoc s ws t v k' u)
  then show ?case
    using saves_invar [OF saves_snoc.hyps(1)] load_saved load_other
    by (cases "k = k'") auto
qed simp

end

interpretation hub_store: document_store load
  "\<lambda>st key v st'. \<exists>cfg clk r. save cfg clk st key v = Inr (st', r)" store_ok
  by unfold_locales (auto simp: load_after_save intro: save_store_ok)

text \<open>
  A sequence of saves, each with its own reading of the clocks.
\<close>

fun run_saves :: "retention \<Rightarrow> store \<Rightarrow> (clock \<times> string \<times> json) list \<Rightarrow> py_error + store" where
  "run_saves cfg st [] = Inr st"
| "run_saves cfg st ((clk, key, v) # ws) =
     ebind (save cfg clk st key v) (\<lambda>(st', r). run_saves cfg st' ws)"

lemma run_saves_append:
  "run_saves cfg st (ws @ [(clk, key, v)]) =
     ebind (run_saves cfg st ws) (\<lambda>st'. ebind (save cfg clk st' key v) (\<lambda>(st'', r). Inr st''))"
  by (induction cfg st ws rule: run_saves.induct)
    (auto simp: ebind_def split: sum.splits)

lemma run_saves_saves:
  assumes "run_saves cfg st ws = Inr st'" and "\<forall>(clk, key, v)\<in>set ws. json_ok v"
  shows "hub_store.saves st (map snd ws) st'"
  using assms
proof (induction ws arbitrary: st' rule: rev_induct)
  case Nil
  then show ?case by (simp add: hub_store.saves_Nil)
next
  case (snoc w ws)
  obtain clk key v where w: "w = (clk, key, v)" by (cases w)
  with snoc.prems obtain t r where "run_saves cfg st ws = Inr t" "save cfg clk t key v = Inr (st', r)"
    by (auto simp: run_saves_append err_simps)
  with snoc w show ?case
    by (auto intro: hub_store.saves_snoc)
qed

section \<open>Reachable stores\<close>

text \<open>
  The stores a hub can be in, with the newest timestamp written so far, as long as the wall clock does
  not go back: opening a new or an existing database, and saving documents.
\<close>

inductive reachable :: "retention \<Rightarrow> store \<Rightarrow> string \<Rightarrow> bool" for cfg where
  opened: "initialize cfg clk files None = Inr st \<Longrightarrow>
     \<forall>(key, c)\<in>set files. \<forall>v. c = Some v \<longrightarrow> json_ok v \<Longrightarrow> reachable cfg st (now_text clk)"
| reopened: "reachable cfg st t \<Longrightarrow> t \<le> now_text clk \<Longrightarrow>
     initialize cfg clk files (Some st) = Inr st' \<Longrightarrow> reachable cfg st' (now_text clk)"
| saved: "reachable cfg st t \<Longrightarrow> t \<le> now_text clk \<Longrightarrow> json_ok v \<Longrightarrow>
     save cfg clk st key v = Inr (st', r) \<Longrightarrow> reachable cfg st' (now_text clk)"

definition reach_inv :: "store \<Rightarrow> string \<Rightarrow> bool" where
  "reach_inv st t = (store_ok st \<and> log_dense st \<and> (\<forall>r\<in>set (revisions st). row_created r \<le> t))"

lemma reach_inv_mono: "reach_inv st t \<Longrightarrow> t \<le> t' \<Longrightarrow> reach_inv st t'"
  by (auto simp: reach_inv_def)

lemma migrate_ok:
  assumes "docs_ok st" and "\<forall>(key, v)\<in>set parsed. json_ok v"
  shows "docs_ok (migrate_documents now parsed st)
    \<and> revisions (migrate_documents now parsed st) = revisions st
    \<and> sequence (migrate_documents now parsed st) = sequence st"
  using assms
proof (induction parsed arbitrary: st)
  case (Cons kv parsed)
  obtain k v where kv: "kv = (k, v)" by (cases kv)
  with Cons.prems have "docs_ok (put_document k (json_text v) now st)" by (intro put_document_ok) auto
  with Cons kv show ?case by (simp add: migrate_documents_def)
qed (simp add: migrate_documents_def)

lemma emap_migrate_ok:
  assumes "emap (\<lambda>(key, v). case v of None \<Rightarrow> Inl e | Some x \<Rightarrow> Inr (key, x)) files = Inr parsed"
    and "\<forall>(key, c)\<in>set files. \<forall>v. c = Some v \<longrightarrow> json_ok v"
  shows "\<forall>(key, v)\<in>set parsed. json_ok v"
  using assms by (induction files arbitrary: parsed) (auto simp: err_simps split: option.splits)

lemma migrate_json_once_ok:
  assumes "migrate_json_once now files empty_store = Inr st"
    and "\<forall>(key, c)\<in>set files. \<forall>v. c = Some v \<longrightarrow> json_ok v"
  shows "reach_inv st now"
proof -
  from assms(1) obtain parsed where p:
      "emap (\<lambda>(key, v). case v of None \<Rightarrow> Inl (RuntimeError ''cannot migrate invalid JSON'')
                                | Some x \<Rightarrow> Inr (key, x)) files = Inr parsed"
      and st: "st = migrate_documents now parsed empty_store"
    by (auto simp: migrate_json_once_def err_simps Let_def split: if_splits)
  from p assms(2) have "\<forall>(key, v)\<in>set parsed. json_ok v" by (rule emap_migrate_ok)
  then show ?thesis using migrate_ok [of empty_store parsed now] store_ok_empty
    by (simp add: st reach_inv_def store_ok_def log_ok_def log_dense_def empty_store_def)
qed

lemma initialize_inv:
  assumes "reach_inv st (now_text clk)" and "0 < max_rows cfg"
    and "initialize cfg clk files (Some st) = Inr st'"
  shows "reach_inv st' (now_text clk) \<and> length (revisions st') \<le> max_rows cfg"
proof -
  define s where "s = (if current_revision st = 0
     then insert_revision (now_text clk) st (''system'', ''baseline'', ''database'', JNull) else st)"
  have s1: "docs_ok s" using assms(1) by (simp add: s_def reach_inv_def store_ok_def docs_ok_def)
  have s2: "log_ok s" using assms(1) by (simp add: s_def reach_inv_def store_ok_def insert_revision_log_ok)
  have "log_dense s \<and> (\<forall>r\<in>set (revisions s). row_created r \<le> now_text clk)"
    using assms(1) log_dense_insert [of st "now_text clk"] by (simp add: s_def reach_inv_def)
  note s = s1 s2 this [THEN conjunct1] this [THEN conjunct2]
  have st': "st' = (prune_revisions cfg clk True s)\<lparr>last_checkpoint_at := 0\<rparr>"
    using assms(3) by (simp add: initialize_def s_def Let_def)
  have "docs_ok st'" using s(1) by (simp add: st' docs_ok_def)
  moreover have "\<forall>r\<in>set (revisions st'). row_created r \<le> now_text clk"
    using s(4) set_prune_rows by (fastforce simp: st' prune_revisions_def)
  moreover have "length (revisions st') \<le> max_rows cfg"
    using s(2) assms(2) by (simp add: st' prune_revisions_def prune_rows_bounded log_ok_def)
  ultimately show ?thesis
    using prune_revisions_log_ok [OF s(2)] log_dense_prune [OF s(2,3) assms(2)]
    by (simp add: reach_inv_def store_ok_def st' log_ok_def log_dense_def)
qed

lemma initialize_new:
  "initialize cfg clk files None = Inr st' \<longleftrightarrow>
     (\<exists>st. migrate_json_once (now_text clk) files empty_store = Inr st \<and> initialize cfg clk files (Some st) = Inr st')"
  by (auto simp: initialize_def err_simps)

lemma reachable_inv:
  assumes "0 < max_rows cfg"
  shows "reachable cfg st t \<Longrightarrow> reach_inv st t"
proof (induction rule: reachable.induct)
  case (opened clk files st)
  then show ?case
    using initialize_inv [OF migrate_json_once_ok assms] by (auto simp: initialize_new)
next
  case (reopened st t clk files st')
  then show ?case using initialize_inv [OF reach_inv_mono assms] by blast
next
  case (saved st t clk v key st' r)
  then have inv: "reach_inv st (now_text clk)" using reach_inv_mono by blast
  with saved show ?case
    using save_store_ok save_log_dense [OF _ saved.hyps(3) _ assms _ saved.hyps(4)]
    by (auto simp: reach_inv_def)
qed

section \<open>Reading the log\<close>

lemma filter_upto_greater: "filter (\<lambda>x. s < x) [a..b] = [max a (s + 1)..b]"
proof (induction a b rule: upto.induct)
  case (1 i j)
  show ?case
  proof (cases "i \<le> j")
    case True
    with 1 have "filter (\<lambda>x. s < x) [i + 1..j] = [max (i + 1) (s + 1)..j]" by simp
    with True show ?thesis
      by (cases "s < i"; cases "i = s + 1") (auto simp: upto_rec1 [of i j] upto_rec1 [of "s + 1" j] max_def)
  next
    case False
    then show ?thesis by simp
  qed
qed

lemma take_upto_int: "take n [i..j] = [i..min j (i + int n - 1)]"
proof (induction n arbitrary: i)
  case (Suc n)
  show ?case
  proof (cases "i \<le> j")
    case True
    with Suc [of "i + 1"] show ?thesis by (simp add: upto_rec1 [of i] algebra_simps)
  qed simp
qed simp

lemma last_upto: "i \<le> j \<Longrightarrow> last [i..j] = (j :: int)"
  by (simp add: upto_rec2)

lemma decode_rows:
  assumes "\<forall>r\<in>set rows. row_ok r"
  shows "\<exists>cs. emap decode_row rows = Inr cs \<and> map sc_revision cs = revs rows"
  using assms
proof (induction rows)
  case (Cons r rows)
  then have "\<exists>c. decode_row r = Inr c \<and> sc_revision c = row_revision r"
    by (auto simp: decode_row_def row_ok_def split: option.splits)
  with Cons show ?case by auto
qed simp

lemma dense_bounds:
  assumes "reach_inv st t" and "revisions st \<noteq> []"
  shows "max_revision (revisions st) = sequence st"
    and "min_revision (revisions st) = sequence st - int (length (revisions st)) + 1"
    and "0 < min_revision (revisions st)"
proof -
  let ?lo = "sequence st - int (length (revisions st)) + 1"
  have r: "revs (revisions st) = [?lo..sequence st]" and s: "sorted_wrt (<) (revs (revisions st))"
    using assms(1) by (auto simp: reach_inv_def store_ok_def log_ok_def log_dense_def)
  have le: "?lo \<le> sequence st" using assms(2) by (cases "revisions st") auto
  have "last (revs (revisions st)) = sequence st" using r le by (simp add: upto_rec2)
  then show m: "max_revision (revisions st) = sequence st"
    using max_revision_last [OF s] assms(2) by (simp add: last_map)
  have "hd (revs (revisions st)) = ?lo" using r le by (simp add: upto_rec1)
  then show h: "min_revision (revisions st) = ?lo"
    using min_revision_hd [OF s] assms(2) by (simp add: hd_map)
  show "0 < min_revision (revisions st)"
    using min_revision_hd [OF s] assms by (auto simp: reach_inv_def store_ok_def log_ok_def)
qed

lemma changes_since_spec:
  fixes lim :: int
  assumes inv: "reach_inv st t" and ne: "revisions st \<noteq> []"
    and s: "min_revision (revisions st) - 1 \<le> since" "since \<le> sequence st"
  defines "limit \<equiv> max 1 (min lim 1000)"
  shows "\<exists>res. changes_since st since lim = Inr res \<and> \<not> full_required res
    \<and> next_revision res = Some (min (sequence st) (since + limit))
    \<and> map sc_revision (changes res) = [since + 1..min (sequence st) (since + limit)]
    \<and> (has_more res \<longleftrightarrow> since + limit < sequence st)"
proof -
  let ?sel = "filter (\<lambda>r. row_revision r > since) (revisions st)"
  have b: "0 \<le> since" "\<not> since > max_revision (revisions st)"
    using dense_bounds [OF inv ne] s by auto
  have lim: "1 \<le> limit" by (simp add: limit_def)
  have "revs ?sel = filter (\<lambda>x. since < x) (revs (revisions st))"
    by (simp add: filter_map comp_def)
  also have "\<dots> = [since + 1..sequence st]"
    using inv s dense_bounds [OF inv ne]
    by (auto simp: reach_inv_def log_dense_def filter_upto_greater max_def)
  finally have sel: "revs ?sel = [since + 1..sequence st]" .
  have len: "length ?sel = nat (sequence st - since)"
    using arg_cong [OF sel, of length] by simp
  let ?rows = "take (nat limit) ?sel"
  have rows: "revs ?rows = [since + 1..min (sequence st) (since + limit)]"
    using lim by (simp add: take_map [symmetric] sel take_upto_int)
  have "\<forall>r\<in>set ?rows. row_ok r"
    using inv by (auto simp: reach_inv_def store_ok_def log_ok_def dest!: in_set_takeD)
  then obtain cs where cs: "emap decode_row ?rows = Inr cs" "map sc_revision cs = revs ?rows"
    using decode_rows by blast
  have nxt: "(if ?rows = [] then since else row_revision (last ?rows)) = min (sequence st) (since + limit)"
  proof (cases "?rows = []")
    case True
    then have "[since + 1..min (sequence st) (since + limit)] = []" by (metis Nil_is_map_conv rows)
    then have "min (sequence st) (since + limit) < since + 1" by (simp only: upto_Nil)
    with True s lim show ?thesis by auto
  next
    case False
    then have "[since + 1..min (sequence st) (since + limit)] \<noteq> []" using rows by (metis Nil_is_map_conv)
    then have "last [since + 1..min (sequence st) (since + limit)] = min (sequence st) (since + limit)"
      by (intro last_upto) (simp only: upto_Nil not_less)
    then have "last (revs ?rows) = min (sequence st) (since + limit)" using rows by simp
    with False show ?thesis by (simp add: last_map)
  qed
  show ?thesis
    using b s nxt cs rows lim len dense_bounds(3) [OF inv ne]
    unfolding changes_since_def Let_def limit_def [symmetric]
    by (auto simp: min.absorb1 min.absorb2)
qed

text \<open>
  A client that follows \<open>nextRevision\<close> while \<open>hasMore\<close> is set; \<open>None\<close> when it is told to fetch
  the full snapshot instead.
\<close>

fun sync_pull :: "nat \<Rightarrow> store \<Rightarrow> int \<Rightarrow> int \<Rightarrow> sync_change list option" where
  "sync_pull 0 st since lim = None"
| "sync_pull (Suc n) st since lim =
     (case changes_since st since lim of
        Inl e \<Rightarrow> None
      | Inr res \<Rightarrow>
          if full_required res then None
          else if has_more res
          then map_option (\<lambda>cs. changes res @ cs) (sync_pull n st (the (next_revision res)) lim)
          else Some (changes res))"

lemma upto_append:
  assumes "a \<le> b + 1" and "b \<le> c"
  shows "[a..b] @ [b + 1..c] = [a..c]"
proof (cases "a = b + 1")
  case False
  with assms have "a \<le> b" by simp
  then show ?thesis using assms(2) upto_split2 [of a b c] by simp
qed simp

lemma sync_pull_spec:
  assumes inv: "reach_inv st t" and ne: "revisions st \<noteq> []"
    and "min_revision (revisions st) - 1 \<le> since" "since \<le> sequence st"
    and "nat (sequence st - since) < n"
  shows "\<exists>cs. sync_pull n st since lim = Some cs \<and> map sc_revision cs = [since + 1..sequence st]"
  using assms(3-5)
proof (induction n arbitrary: since)
  case (Suc n)
  define L where "L = max 1 (min lim 1000)"
  have L: "1 \<le> L" by (simp add: L_def)
  obtain res where res: "changes_since st since lim = Inr res" "\<not> full_required res"
      "next_revision res = Some (min (sequence st) (since + L))"
      "map sc_revision (changes res) = [since + 1..min (sequence st) (since + L)]"
      "has_more res \<longleftrightarrow> since + L < sequence st"
    using changes_since_spec [OF inv ne Suc.prems(1,2), of lim] unfolding L_def by blast
  show ?case
  proof (cases "has_more res")
    case True
    with res have lt: "since + L < sequence st" by simp
    with Suc.prems L have pre: "min_revision (revisions st) - 1 \<le> since + L" "since + L \<le> sequence st"
        "nat (sequence st - (since + L)) < n"
      by linarith+
    then obtain cs where cs: "sync_pull n st (since + L) lim = Some cs"
        "map sc_revision cs = [since + L + 1..sequence st]"
      using Suc.IH by blast
    have "[since + 1..since + L] @ [since + L + 1..sequence st] = [since + 1..sequence st]"
      using lt L by (intro upto_append) auto
    with True res cs lt show ?thesis by simp
  next
    case False
    with res Suc.prems show ?thesis by (simp add: min.absorb1)
  qed
qed simp

section \<open>Replaying a diff\<close>

text \<open>
  The meaning of a change for a reader that keeps a table of rows by key, and the rows of a document
  such a reader shows: a row marked as deleted is not shown.
\<close>

definition client_apply :: "(string \<Rightarrow> json option) \<Rightarrow> change \<Rightarrow> (string \<Rightarrow> json option)" where
  "client_apply tbl ch = (case ch of (entity, operation, key, payload) \<Rightarrow>
     if operation = ''delete'' then tbl(key := None) else tbl(key := Some payload))"

definition shown_rows :: "(string \<times> json) list \<Rightarrow> string \<Rightarrow> json option" where
  "shown_rows m key = (case map_of m key of None \<Rightarrow> None
     | Some v \<Rightarrow> if truthy (dget (items v) ''deleted'') then None else Some v)"

definition effect :: "change \<Rightarrow> string \<times> json option" where
  "effect ch = (case ch of (entity, operation, key, payload) \<Rightarrow>
     (key, if operation = ''delete'' then None else Some payload))"

lemma client_apply_foldl:
  "foldl client_apply tbl chs k = (case map_of (rev (map effect chs)) k of None \<Rightarrow> tbl k | Some x \<Rightarrow> x)"
  by (induction chs arbitrary: tbl)
    (auto simp: client_apply_def effect_def map_add_def split: option.splits)

lemma map_of_concat_if:
  assumes "dict_ok m"
  shows "map_of (concat (map (\<lambda>(k, v). if P k v then [(k, f k v)] else []) m)) k
    = (case map_of m k of None \<Rightarrow> None | Some v \<Rightarrow> if P k v then Some (f k v) else None)"
  using assms
proof (induction m)
  case (Cons kv m)
  obtain k' v where kv: "kv = (k', v)" by (cases kv)
  have "map_of m k' = None" using Cons.prems kv by (simp add: map_of_eq_None_iff)
  with Cons kv show ?case by auto
qed simp

lemma dict_ok_concat_if:
  assumes "dict_ok m"
  shows "dict_ok (concat (map (\<lambda>(k, v). if P k v then [(k, f k v)] else []) m))"
  using assms
proof (induction m)
  case (Cons kv m)
  obtain k v where kv: "kv = (k, v)" by (cases kv)
  let ?c = "concat (map (\<lambda>(k, v). if P k v then [(k, f k v)] else []) m)"
  have "map_of ?c k = None" using Cons.prems kv
    by (simp add: map_of_concat_if map_of_eq_None_iff [THEN iffD2])
  then have "k \<notin> fst ` set ?c" using map_of_eq_None_iff [of ?c k] by blast
  with Cons kv show ?case by simp
qed simp

lemma effects_of_diff:
  "map effect (diff_rows norm clean e om nm) =
     concat (map (\<lambda>(k, v).
        if (case map_of om k of None \<Rightarrow> True | Some p \<Rightarrow> \<not> py_eq (norm p) (norm v))
        then [(k, if truthy (dget (items v) ''deleted'') then None else Some (clean v))] else []) nm)
     @ map (\<lambda>(k, v). (k, None)) (filter (\<lambda>(k, v). map_of nm k = None) om)"
proof -
  have "map effect (concat (map (\<lambda>(k, v). if P k v
          then [if truthy (dget (items v) ''deleted'') then (e, ''delete'', k, JNull)
                else (e, ''upsert'', k, clean v)] else []) m)) =
      concat (map (\<lambda>(k, v). if P k v
          then [(k, if truthy (dget (items v) ''deleted'') then None else Some (clean v))] else []) m)"
    for P and m :: "(string \<times> json) list"
    by (induction m) (auto simp: effect_def)
  then show ?thesis by (simp add: diff_rows_def effect_def comp_def case_prod_unfold)
qed

lemma diff_effect:
  assumes "dict_ok om" and "dict_ok nm"
  shows "foldl client_apply tbl (diff_rows norm clean e om nm) k =
    (case map_of nm k of
       None \<Rightarrow> (case map_of om k of None \<Rightarrow> tbl k | Some _ \<Rightarrow> None)
     | Some v \<Rightarrow>
         if (case map_of om k of None \<Rightarrow> True | Some p \<Rightarrow> \<not> py_eq (norm p) (norm v))
         then (if truthy (dget (items v) ''deleted'') then None else Some (clean v))
         else tbl k)"
proof -
  let ?A = "concat (map (\<lambda>(k, v).
        if (case map_of om k of None \<Rightarrow> True | Some p \<Rightarrow> \<not> py_eq (norm p) (norm v))
        then [(k, if truthy (dget (items v) ''deleted'') then None else Some (clean v))] else []) nm)"
  let ?B = "map (\<lambda>(k, v). (k, None :: json option)) (filter (\<lambda>(k, v). map_of nm k = None) om)"
  have "dict_ok ?A" using assms(2) by (rule dict_ok_concat_if)
  then have A: "map_of (rev ?A) k = map_of ?A k" by (simp add: map_of_rev_distinct)
  have "dict_ok (filter (\<lambda>(k, v). map_of nm k = None) om)" using assms(1) by (rule dict_filter_ok)
  then have "dict_ok ?B" using dict_ok_map_values [of "\<lambda>_ _. None :: json option"] by metis
  then have "map_of (rev ?B) k = map_of ?B k" by (simp only: map_of_rev_distinct)
  also have "\<dots> = (if map_of nm k = None then map_option (\<lambda>_. None) (map_of om k) else None)"
    using dget_map_values [of "\<lambda>_ _. None :: json option" "filter (\<lambda>(k, v). map_of nm k = None) om" k]
      dget_filter_key [of "\<lambda>k. map_of nm k = None" om k] by simp
  finally have B: "map_of (rev ?B) k = (if map_of nm k = None then map_option (\<lambda>_. None) (map_of om k) else None)" .
  show ?thesis
    unfolding client_apply_foldl effects_of_diff rev_append map_of_append map_add_def A B map_of_concat_if [OF assms(2)]
    by (auto split: option.splits)
qed

lemma deleted_stable:
  assumes "py_eq v w" and "json_ok v" "json_ok w"
  shows "truthy (dget (items v) ''deleted'') = truthy (dget (items w) ''deleted'')"
proof (cases "is_dict v \<and> is_dict w")
  case True
  then have vw: "v = JObj (items v)" "w = JObj (items w)" by (simp_all add: is_dict_items [symmetric])
  then have "py_eq (dget (items v) ''deleted'') (dget (items w) ''deleted'')"
    using assms by (metis py_eq_dget json_ok.simps(2))
  then show ?thesis by (rule py_eq_truthy)
next
  case False
  with assms(1) show ?thesis
    using py_eq.simps [of v w] by (cases v; cases w) auto
qed

lemma list_diff_replay:
  assumes "row_map old = Inr om" "row_map new = Inr nm" "json_ok old" "json_ok new"
  shows "rel_option py_eq (foldl client_apply (shown_rows om) (diff_rows id id e om nm) k) (shown_rows nm k)"
proof -
  have om: "dict_ok om" "\<And>v. map_of om k = Some v \<Longrightarrow> json_ok v"
    using row_map_ok [OF assms(1,3)] by (auto dest: map_of_SomeD)
  have nm: "dict_ok nm" "\<And>v. map_of nm k = Some v \<Longrightarrow> json_ok v"
    using row_map_ok [OF assms(2,4)] by (auto dest: map_of_SomeD)
  show ?thesis
    unfolding diff_effect [OF om(1) nm(1)] shown_rows_def
    using om(2) nm(2) deleted_stable
    by (auto split: option.splits intro: py_eq_refl)
qed

section \<open>Properties\<close>

definition demo_clock :: "string \<Rightarrow> string \<Rightarrow> int \<Rightarrow> clock" where
  "demo_clock now cutoff m = \<lparr>now_text = now, age_cutoff = cutoff, monotonic = m\<rparr>"

definition demo_store :: store where
  "demo_store = (case initialize default_retention (demo_clock ''1'' ''0'' 10) [] None of
     Inr st \<Rightarrow> st | Inl e \<Rightarrow> empty_store)"

lemma default_retention_simps [simp]: "max_rows default_retention = 1500"
    "prune_interval default_retention = 300" "checkpoint_interval default_retention = 900"
  by (simp_all add: default_retention_def env_int_def)

lemma demo_store_eq: "demo_store = \<lparr>documents = [], revisions = [\<lparr>row_revision = 1, row_entity = ''system'',
     row_operation = ''baseline'', row_key = ''database'', row_payload = None, row_created = ''1''\<rparr>],
     sequence = 1, last_revision_prune_at = 10, last_checkpoint_at = 0\<rparr>"
  by code_simp

lemma demo_reachable: "reachable default_retention demo_store ''1''"
proof -
  let ?clk = "demo_clock ''1'' ''0'' 10"
  have "initialize default_retention ?clk [] None = Inr demo_store"
    by code_simp
  then have "reachable default_retention demo_store (now_text ?clk)" by (rule reachable.opened) simp
  then show ?thesis by (simp add: demo_clock_def)
qed

text \<open>C1: Every store the hub can reach while its wall clock does not go back is well-formed: every
  document decodes, and the revision log holds exactly the newest revision numbers in order, without a
  gap, up to the counter.\<close>

theorem reachable_store_ok:
  assumes "reachable cfg st t" and "0 < max_rows cfg"
  shows "store_ok st \<and> revs (revisions st) = [sequence st - int (length (revisions st)) + 1 .. sequence st]"
  using reachable_inv [OF assms(2,1)] by (simp add: reach_inv_def log_dense_def)

theorem reachable_store_ok_witness:
  "store_ok demo_store \<and> revs (revisions demo_store) = [1]"
  using reachable_store_ok [OF demo_reachable] by (simp add: demo_store_eq)

text \<open>C2: A client that follows the paging of the change feed from any revision the log still covers gets
  every revision up to the newest exactly once and in order, whatever page size it asks for, in at most one
  request more than there are revisions to fetch.\<close>

theorem sync_pull_complete:
  assumes "reachable cfg st t" and "0 < max_rows cfg" and "revisions st \<noteq> []"
    and "min_revision (revisions st) - 1 \<le> since" and "since \<le> sequence st"
  shows "\<exists>cs. sync_pull (nat (sequence st - since) + 1) st since lim = Some cs
    \<and> map sc_revision cs = [since + 1 .. sequence st]"
  using sync_pull_spec [OF reachable_inv [OF assms(2,1)] assms(3-5), of "nat (sequence st - since) + 1"] by simp

theorem sync_pull_complete_witness:
  "\<exists>cs. sync_pull (nat (sequence demo_store - 0) + 1) demo_store 0 500 = Some cs
    \<and> map sc_revision cs = [0 + 1 .. sequence demo_store]"
  by (rule sync_pull_complete [OF demo_reachable]) (simp_all add: demo_store_eq min_revision_def)

text \<open>C3: Loading a document right after it was saved gives the saved value back (equal in Python's
  sense, its keys sorted), whatever default is passed, and every other document reads as before.\<close>

theorem save_load_roundtrip:
  assumes "store_ok st" and "json_ok v" and "save cfg clk st key v = Inr (st', r)"
  shows "py_eq v (load st' key d) \<and> load st' key d = sort_keys v
    \<and> (\<forall>key'. key' = key \<or> load st' key' d = load st key' d)"
  using load_after_save [OF assms] py_eq_sort_keys [OF assms(2)] by auto

definition demo_doc :: json where
  "demo_doc = JObj [(''b'', JStr ''r''), (''a'', JInt 2)]"

definition demo_saved :: "store \<times> int" where
  "demo_saved = (case save default_retention (demo_clock ''2'' ''0'' 70)
     demo_store ''x'' demo_doc of Inr x \<Rightarrow> x | Inl e \<Rightarrow> (empty_store, 0))"

lemma demo_saved_eq:
  "save default_retention (demo_clock ''2'' ''0'' 70)
     demo_store ''x'' demo_doc = Inr (fst demo_saved, snd demo_saved)"
  by code_simp

theorem save_load_roundtrip_witness:
  "py_eq demo_doc (load (fst demo_saved) ''x'' JNull)
    \<and> load (fst demo_saved) ''x'' JNull = sort_keys demo_doc
    \<and> (\<forall>key'. key' = ''x'' \<or> load (fst demo_saved) key' JNull = load demo_store key' JNull)"
proof (rule save_load_roundtrip [OF _ _ demo_saved_eq])
  show "store_ok demo_store"
    using reachable_inv [OF _ demo_reachable] by (simp add: reach_inv_def)
  show "json_ok demo_doc" by (simp add: demo_doc_def)
qed

text \<open>Over any sequence of successful saves the last write to a document wins: it is what a load
  returns, and a document that was not written reads as before the sequence.\<close>

theorem last_save_wins:
  assumes "store_ok st" and "run_saves cfg st ws = Inr st'" and "\<forall>(clk, key, v)\<in>set ws. json_ok v"
  shows "load st' key d = (case map_of (rev (map snd ws)) key of None \<Rightarrow> load st key d | Some v \<Rightarrow> sort_keys v)"
  by (rule hub_store.last_write_wins [OF run_saves_saves [OF assms(2,3)] assms(1)])

theorem last_save_wins_witness:
  "load (fst demo_saved) ''x'' JNull = (case map_of (rev (map snd
      [(demo_clock ''2'' ''0'' 70, ''x'', demo_doc)])) ''x'' of
        None \<Rightarrow> load demo_store ''x'' JNull | Some v \<Rightarrow> sort_keys v)"
proof (rule last_save_wins)
  show "store_ok demo_store" using reachable_inv [OF _ demo_reachable] by (simp add: reach_inv_def)
  show "run_saves default_retention demo_store
      [(demo_clock ''2'' ''0'' 70, ''x'', demo_doc)] = Inr (fst demo_saved)"
    using demo_saved_eq by (simp add: case_prod_unfold)
qed (simp add: demo_doc_def)

text \<open>A save of any document but \<open>devices.json\<close> succeeds on a well-formed store and keeps it
  well-formed; saving the same value again changes nothing and logs nothing.\<close>

theorem save_total_idempotent:
  assumes "store_ok st" and "json_ok v" and "key \<noteq> ''devices.json''"
  shows "\<exists>st' r. save cfg clk st key v = Inr (st', r) \<and> store_ok st'
    \<and> save cfg clk' st' key v = Inr (st', current_revision st')"
proof -
  obtain st' r where s: "save cfg clk st key v = Inr (st', r)" using save_succeeds [OF assms(1,3)] by blast
  have ok: "store_ok st'" by (rule save_store_ok [OF assms(1,2) s])
  have "\<exists>u. map_of (documents st') key = Some (json_text v, u)"
    using s by (cases rule: save_cases) auto
  then have "save cfg clk' st' key v = Inr (st', current_revision st')"
    by (auto simp: save_def json_text_def json_loads_dumps [OF assms(2)])
  with s ok show ?thesis by blast
qed

theorem save_total_idempotent_witness:
  "\<exists>st' r. save default_retention (demo_clock ''b'' ''a'' 5) empty_store ''x'' demo_doc = Inr (st', r)
    \<and> store_ok st' \<and> save default_retention (demo_clock ''c'' ''a'' 9) st' ''x'' demo_doc = Inr (st', current_revision st')"
  by (rule save_total_idempotent) (simp_all add: demo_doc_def)

text \<open>C4: The change rows logged for a new version of the event list are exactly what a reader has to
  replay: applying them to the rows shown before gives the rows shown now, key by key, for any two
  well-formed versions.\<close>

theorem events_diff_replay:
  assumes "json_ok (JList old)" and "json_ok (JList new)"
  shows "\<exists>chs om nm. changes_for_document ''events.json'' (JList old) (JList new) = Inr chs
    \<and> row_map (JList old) = Inr om \<and> row_map (JList new) = Inr nm
    \<and> (\<forall>k. rel_option py_eq (foldl client_apply (shown_rows om) chs k) (shown_rows nm k))"
proof -
  obtain om nm where m: "row_map (JList old) = Inr om" "row_map (JList new) = Inr nm"
    using row_map_list by metis
  then have "changes_for_document ''events.json'' (JList old) (JList new) = Inr (diff_rows id id ''event'' om nm)"
    by (simp add: changes_for_document_def list_diff_def as_list_def NON_REVISION_DOCUMENTS_def)
  with m list_diff_replay [OF m assms] show ?thesis by blast
qed

theorem events_diff_replay_witness:
  "\<exists>chs om nm. changes_for_document ''events.json'' (JList [JObj [(''id'', JInt 1)], JObj [(''id'', JInt 2)]])
        (JList [JObj [(''id'', JInt 2), (''deleted'', JBool True)], JObj [(''id'', JInt 3)]]) = Inr chs
    \<and> row_map (JList [JObj [(''id'', JInt 1)], JObj [(''id'', JInt 2)]]) = Inr om
    \<and> row_map (JList [JObj [(''id'', JInt 2), (''deleted'', JBool True)], JObj [(''id'', JInt 3)]]) = Inr nm
    \<and> (\<forall>k. rel_option py_eq (foldl client_apply (shown_rows om) chs k) (shown_rows nm k))"
  by (rule events_diff_replay) simp_all

text \<open>Opening a database bounds its revision log: it never holds more than the configured number of
  rows afterwards, and none older than the age limit.\<close>

theorem initialize_bounds_log:
  assumes "reachable cfg st t" and "0 < max_rows cfg" and "t \<le> now_text clk"
    and "initialize cfg clk files (Some st) = Inr st'"
  shows "length (revisions st') \<le> max_rows cfg \<and> list_all (\<lambda>r. \<not> row_created r < age_cutoff clk) (revisions st')"
proof -
  have "length (revisions st') \<le> max_rows cfg"
    using initialize_inv [OF reach_inv_mono [OF reachable_inv [OF assms(2,1)] assms(3)] assms(2,4)] by simp
  moreover have "\<forall>r\<in>set (prune_rows cfg c rows). \<not> row_created r < c" for c rows
    by (auto simp: prune_rows_def Let_def)
  ultimately show ?thesis using assms(4)
    by (auto simp: initialize_def Let_def prune_revisions_def list_all_iff)
qed

theorem initialize_bounds_log_witness:
  "length (revisions (demo_store\<lparr>last_revision_prune_at := 99\<rparr>)) \<le> max_rows default_retention
    \<and> list_all (\<lambda>r. \<not> row_created r < age_cutoff (demo_clock ''2'' ''1'' 99))
         (revisions (demo_store\<lparr>last_revision_prune_at := 99\<rparr>))"
  by (rule initialize_bounds_log [OF demo_reachable, where files = "[]"]) (simp add: demo_clock_def | code_simp)+

text \<open>The guarantee of C2 needs a log that is not empty. When every row has aged out, the feed reports
  revision 0, and a client that took its snapshot in such a state is later told it is up to date although a
  document changed in between: no full synchronisation is requested and no change is sent.\<close>

theorem emptied_log_misses_change:
  "\<exists>st1 st3 t1 t3 res. reachable default_retention st1 t1 \<and> current_revision st1 = 0
     \<and> reachable default_retention st3 t3
     \<and> run_saves default_retention st1
         [(demo_clock ''6'' ''4'' 800, ''x'', JInt 7), (demo_clock ''9'' ''8'' 1200, ''geo_cache.json'', JInt 2)] = Inr st3
     \<and> load st1 ''x'' JNull = JNull \<and> load st3 ''x'' JNull = JInt 7
     \<and> changes_since st3 (current_revision st1) 500 = Inr res
     \<and> \<not> full_required res \<and> changes res = []"
proof -
  let ?cfg = default_retention
  let ?c1 = "demo_clock ''5'' ''3'' 400" and ?c2 = "demo_clock ''6'' ''4'' 800" and ?c3 = "demo_clock ''9'' ''8'' 1200"
  define st1 where "st1 = \<lparr>documents = [(''geo_cache.json'', ''1'', ''5'')], revisions = [], sequence = 1,
     last_revision_prune_at = 400, last_checkpoint_at = 0\<rparr>"
  define st2 where "st2 = \<lparr>documents = [(''geo_cache.json'', ''1'', ''5''), (''x'', ''7'', ''6'')],
     revisions = [\<lparr>row_revision = 2, row_entity = ''document'', row_operation = ''replace'', row_key = ''x'',
       row_payload = Some ''7'', row_created = ''6''\<rparr>], sequence = 2,
     last_revision_prune_at = 800, last_checkpoint_at = 0\<rparr>"
  define st3 where "st3 = \<lparr>documents = [(''geo_cache.json'', ''2'', ''9''), (''x'', ''7'', ''6'')],
     revisions = [], sequence = 2, last_revision_prune_at = 1200, last_checkpoint_at = 1200\<rparr>"
  have s1: "save ?cfg ?c1 demo_store ''geo_cache.json'' (JInt 1) = Inr (st1, 0)"
    unfolding st1_def demo_store_eq by code_simp
  have s2: "save ?cfg ?c2 st1 ''x'' (JInt 7) = Inr (st2, 2)"
    unfolding st1_def st2_def by code_simp
  have s3: "save ?cfg ?c3 st2 ''geo_cache.json'' (JInt 2) = Inr (st3, 0)"
    unfolding st2_def st3_def by code_simp
  have r1: "reachable ?cfg st1 (now_text ?c1)"
    by (rule reachable.saved [OF demo_reachable _ _ s1]) (simp_all add: demo_clock_def)
  have r2: "reachable ?cfg st2 (now_text ?c2)"
    by (rule reachable.saved [OF r1 _ _ s2]) (simp_all add: demo_clock_def)
  have r3: "reachable ?cfg st3 (now_text ?c3)"
    by (rule reachable.saved [OF r2 _ _ s3]) (simp_all add: demo_clock_def)
  have "run_saves ?cfg st1 [(?c2, ''x'', JInt 7), (?c3, ''geo_cache.json'', JInt 2)] = Inr st3"
    using s2 s3 by simp
  moreover have "load st1 ''x'' JNull = JNull \<and> load st3 ''x'' JNull = JInt 7"
    unfolding st1_def st3_def by code_simp
  moreover have "current_revision st1 = 0" by (simp add: st1_def current_revision_def max_revision_def)
  moreover have "\<exists>res. changes_since st3 0 500 = Inr res \<and> \<not> full_required res \<and> changes res = []"
    by (simp add: st3_def changes_since_def min_revision_def max_revision_def Let_def)
  ultimately show ?thesis using r1 r3 by metis
qed

end
