(* ===== verification/Ipaddr.thy ===== *)
theory Ipaddr
  imports Json
begin

text \<open>
  The parts of Python's \<open>ipaddress\<close> module that the services use: parsing and printing of IPv4 and
  IPv6 addresses and the address classes they test. Networks are given by a base address and
  a prefix length.
\<close>

section \<open>Addresses\<close>

datatype ip = V4 nat | V6 nat "string option"

fun ip_value :: "ip \<Rightarrow> nat" where
  "ip_value (V4 n) = n"
| "ip_value (V6 n s) = n"

fun ip_version :: "ip \<Rightarrow> int" where
  "ip_version (V4 n) = 4"
| "ip_version (V6 n s) = 6"

definition parse_octet :: "string \<Rightarrow> nat option" where
  "parse_octet s = (if s = [] \<or> \<not> list_all is_dec s \<or> 3 < length s \<or> (s \<noteq> ''0'' \<and> hd s = CHR ''0'')
     \<or> 255 < dec_value s then None else Some (dec_value s))"

definition parse_ipv4 :: "string \<Rightarrow> nat option" where
  "parse_ipv4 s = (case map parse_octet (split_on (CHR ''.'') s) of
     [Some a, Some b, Some c, Some d] \<Rightarrow> Some (((a * 256 + b) * 256 + c) * 256 + d)
   | _ \<Rightarrow> None)"

definition hex_value :: "string \<Rightarrow> nat" where
  "hex_value s = foldl (\<lambda>n c. 16 * n + (case hex_val c of None \<Rightarrow> 0 | Some d \<Rightarrow> d)) 0 s"

fun hex_str :: "nat \<Rightarrow> string" where
  "hex_str n = (if n < 16 then [hex_digit n] else hex_str (n div 16) @ [hex_digit (n mod 16)])"

declare hex_str.simps [simp del]

definition parse_hextet :: "string \<Rightarrow> nat option" where
  "parse_hextet s = (if s = [] \<or> \<not> list_all (\<lambda>c. hex_val c \<noteq> None) s \<or> 4 < length s then None
     else Some (hex_value s))"

fun hextets_value :: "nat option list \<Rightarrow> nat \<Rightarrow> nat option" where
  "hextets_value [] n = Some n"
| "hextets_value (None # r) n = None"
| "hextets_value (Some h # r) n = hextets_value r (n * 65536 + h)"

text \<open>An IPv4 tail is rewritten as two hextets before the groups are counted.\<close>

definition expand_v4_tail :: "string list \<Rightarrow> string list option" where
  "expand_v4_tail parts =
     (if CHR ''.'' \<in> set (last parts)
      then (case parse_ipv4 (last parts) of
              None \<Rightarrow> None
            | Some n \<Rightarrow> Some (butlast parts @ [hex_str (n div 65536 mod 65536), hex_str (n mod 65536)]))
      else Some parts)"

definition parse_groups :: "string list \<Rightarrow> nat option" where
  "parse_groups parts =
     (if 9 < length parts then None
      else case filter (\<lambda>i. parts ! i = []) [1..<length parts - 1] of
        [] \<Rightarrow> (if length parts \<noteq> 8 \<or> hd parts = [] \<or> last parts = [] then None
               else hextets_value (map parse_hextet parts) 0)
      | [i] \<Rightarrow>
          (let hi = (if hd parts = [] then i - 1 else i);
               lo0 = length parts - i - 1;
               lo = (if last parts = [] then lo0 - 1 else lo0)
           in if (hd parts = [] \<and> hi \<noteq> 0) \<or> (last parts = [] \<and> lo \<noteq> 0) \<or> 7 < hi + lo then None
              else (case hextets_value (map parse_hextet (take hi parts)) 0 of
                      None \<Rightarrow> None
                    | Some n \<Rightarrow> hextets_value (map parse_hextet (drop (length parts - lo) parts))
                                 (n * 65536 ^ (8 - (hi + lo)))))
      | _ \<Rightarrow> None)"

definition parse_ipv6 :: "string \<Rightarrow> nat option" where
  "parse_ipv6 s = (let parts = split_on (CHR '':'') s in
     if length parts < 3 then None
     else case expand_v4_tail parts of None \<Rightarrow> None | Some ps \<Rightarrow> parse_groups ps)"

definition split_scope_id :: "string \<Rightarrow> (string \<times> string option) option" where
  "split_scope_id s = (if CHR 0x25 \<in> set s
     then let scope = after (CHR 0x25) s in
          if scope = [] \<or> CHR 0x25 \<in> set scope then None else Some (before (CHR 0x25) s, Some scope)
     else Some (s, None))"

definition IPv6Address :: "string \<Rightarrow> ip option" where
  "IPv6Address s = (if CHR ''/'' \<in> set s then None
     else case split_scope_id s of None \<Rightarrow> None
     | Some (a, scope) \<Rightarrow> (case parse_ipv6 a of None \<Rightarrow> None | Some n \<Rightarrow> Some (V6 n scope)))"

definition ip_address :: "string \<Rightarrow> ip option" where
  "ip_address s = (case parse_ipv4 s of Some n \<Rightarrow> Some (V4 n) | None \<Rightarrow> IPv6Address s)"

section \<open>Printing\<close>

definition ipv4_octets :: "nat \<Rightarrow> nat list" where
  "ipv4_octets n = [n div 16777216 mod 256, n div 65536 mod 256, n div 256 mod 256, n mod 256]"

definition ipv4_str :: "nat \<Rightarrow> string" where
  "ipv4_str n = join ''.'' (map nat_str (ipv4_octets n))"

definition ipv6_hextets :: "nat \<Rightarrow> nat list" where
  "ipv6_hextets n = map (\<lambda>i. n div 65536 ^ (7 - i) mod 65536) [0..<8]"

text \<open>
  The scan of \<open>_compress_hextets\<close> for the first longest run of zero groups: the index, the current
  run and the best run so far, a run being its start and its length.
\<close>

fun best_zero_run :: "nat list \<Rightarrow> nat \<Rightarrow> nat \<times> nat \<Rightarrow> nat \<times> nat \<Rightarrow> nat \<times> nat" where
  "best_zero_run [] i cur best = best"
| "best_zero_run (h # hs) i (cs, cl) (bs, bl) =
     (if h = 0 then
        (let cs' = (if cl = 0 then i else cs); cl' = cl + 1 in
         best_zero_run hs (i + 1) (cs', cl') (if bl < cl' then (cs', cl') else (bs, bl)))
      else best_zero_run hs (i + 1) (0, 0) (bs, bl))"

definition compress_hextets :: "nat list \<Rightarrow> string list" where
  "compress_hextets hs = (case best_zero_run hs 0 (0, 0) (0, 0) of (s, l) \<Rightarrow>
     if 1 < l then
       (if s = 0 then [[]] else []) @ map hex_str (take s hs) @ [[]] @ map hex_str (drop (s + l) hs)
         @ (if s + l = length hs then [[]] else [])
     else map hex_str hs)"

definition ipv6_str :: "nat \<Rightarrow> string" where
  "ipv6_str n = join '':'' (compress_hextets (ipv6_hextets n))"

fun ip_str :: "ip \<Rightarrow> string" where
  "ip_str (V4 n) = ipv4_str n"
| "ip_str (V6 n None) = ipv6_str n"
| "ip_str (V6 n (Some s)) = ipv6_str n @ [CHR 0x25] @ s"

section \<open>Address classes\<close>

definition in_net :: "nat \<Rightarrow> nat \<Rightarrow> nat \<Rightarrow> nat \<Rightarrow> bool" where
  "in_net width base plen n = (n div 2 ^ (width - plen) = base div 2 ^ (width - plen))"

definition v4 :: "nat \<Rightarrow> nat \<Rightarrow> nat \<Rightarrow> nat \<Rightarrow> nat" where
  "v4 a b c d = ((a * 256 + b) * 256 + c) * 256 + d"

definition ipv4_private_networks :: "(nat \<times> nat) list" where
  "ipv4_private_networks = [(v4 0 0 0 0, 8), (v4 10 0 0 0, 8), (v4 127 0 0 0, 8), (v4 169 254 0 0, 16),
     (v4 172 16 0 0, 12), (v4 192 0 0 0, 24), (v4 192 0 0 170, 31), (v4 192 0 2 0, 24), (v4 192 168 0 0, 16),
     (v4 198 18 0 0, 15), (v4 198 51 100 0, 24), (v4 203 0 113 0, 24), (v4 240 0 0 0, 4), (v4 255 255 255 255, 32)]"

definition ipv4_is_private :: "nat \<Rightarrow> bool" where
  "ipv4_is_private n = (list_ex (\<lambda>(b, p). in_net 32 b p n) ipv4_private_networks
     \<and> n \<noteq> v4 192 0 0 9 \<and> n \<noteq> v4 192 0 0 10)"

fun is_loopback :: "ip \<Rightarrow> bool" where
  "is_loopback (V4 n) = in_net 32 (v4 127 0 0 0) 8 n"
| "is_loopback (V6 n s) = (n = 1)"

fun is_link_local :: "ip \<Rightarrow> bool" where
  "is_link_local (V4 n) = in_net 32 (v4 169 254 0 0) 16 n"
| "is_link_local (V6 n s) = in_net 128 (65152 * 2 ^ 112) 10 n"

fun is_multicast :: "ip \<Rightarrow> bool" where
  "is_multicast (V4 n) = in_net 32 (v4 224 0 0 0) 4 n"
| "is_multicast (V6 n s) = in_net 128 (65280 * 2 ^ 112) 8 n"

fun is_unspecified :: "ip \<Rightarrow> bool" where
  "is_unspecified a = (ip_value a = 0)"

section \<open>Laws\<close>

lemma split_on_ne [simp]: "split_on c s \<noteq> []"
  by (induction s) (auto split: list.splits)

lemma split_on_no: "c \<notin> set s \<Longrightarrow> split_on c s = [s]"
  by (induction s) auto

lemma split_on_append: "c \<notin> set s \<Longrightarrow> split_on c (s @ c # t) = s # split_on c t"
  by (induction s) (auto split: list.splits)

lemma split_on_join:
  "ps \<noteq> [] \<Longrightarrow> \<forall>p\<in>set ps. c \<notin> set p \<Longrightarrow> split_on c (join [c] ps) = ps"
proof (induction "[c]" ps rule: join.induct)
  case (3 s t r)
  then show ?case by (simp add: split_on_append)
qed (simp_all add: split_on_no)

lemma nat_str_small: "n < 256 \<Longrightarrow> length (nat_str n) \<le> 3"
  by (simp add: nat_str.simps [of n] nat_str.simps [of "n div 10"] nat_str.simps [of "n div 10 div 10"])

lemma nat_str_hd_zero: "hd (nat_str n) = CHR ''0'' \<Longrightarrow> nat_str n = ''0''"
  using nat_str_zero [of n] by auto

lemma parse_octet_nat_str: "n < 256 \<Longrightarrow> parse_octet (nat_str n) = Some n"
  using nat_str_small [of n] nat_str_dec [of n] nat_str_hd_zero [of n]
  by (auto simp: parse_octet_def)

lemma dot_not_dec: "list_all is_dec s \<Longrightarrow> CHR ''.'' \<notin> set s \<and> CHR '':'' \<notin> set s \<and> CHR 0x25 \<notin> set s \<and> CHR ''/'' \<notin> set s"
  by (auto simp: list_all_iff is_dec_def code_def)

lemma ipv4_octets_value:
  fixes n :: nat
  assumes "n < 4294967296"
  shows "((n div 16777216 mod 256 * 256 + n div 65536 mod 256) * 256 + n div 256 mod 256) * 256 + n mod 256 = n"
proof -
  have "n div 65536 = n div 256 div 256" "n div 16777216 = n div 256 div 256 div 256"
    by (simp_all add: div_mult2_eq [symmetric])
  moreover have "n div 256 div 256 div 256 < 256"
    using assms by (simp add: div_mult2_eq [symmetric] less_mult_imp_div_less)
  ultimately show ?thesis by simp
qed

lemma parse_ipv4_str: "n < 2 ^ 32 \<Longrightarrow> parse_ipv4 (ipv4_str n) = Some n"
proof -
  assume n: "n < 2 ^ 32"
  let ?ps = "map nat_str (ipv4_octets n)"
  have "\<forall>p\<in>set ?ps. CHR ''.'' \<notin> set p"
    using nat_str_dec dot_not_dec by (auto simp: ipv4_octets_def)
  then have "split_on (CHR ''.'') (ipv4_str n) = ?ps"
    unfolding ipv4_str_def by (intro split_on_join) (simp_all add: ipv4_octets_def)
  then show ?thesis
    using n ipv4_octets_value [of n] by (simp add: parse_ipv4_def ipv4_octets_def parse_octet_nat_str)
qed

text \<open>Parsing the printed form of an IPv4 address gives the address back.\<close>

lemma ip_address_ipv4_str: "n < 2 ^ 32 \<Longrightarrow> ip_address (ip_str (V4 n)) = Some (V4 n)"
  by (simp add: ip_address_def parse_ipv4_str)

lemma parse_octet_bound: "parse_octet s = Some n \<Longrightarrow> n < 256"
  by (auto simp: parse_octet_def split: if_splits)

lemma parse_ipv4_bound: "parse_ipv4 s = Some n \<Longrightarrow> n < 2 ^ 32"
proof -
  assume "parse_ipv4 s = Some n"
  then obtain a b c d where "map parse_octet (split_on (CHR ''.'') s) = [Some a, Some b, Some c, Some d]"
      and n: "n = ((a * 256 + b) * 256 + c) * 256 + d"
    by (auto simp: parse_ipv4_def split: list.splits option.splits)
  then have "a < 256" "b < 256" "c < 256" "d < 256"
    by (auto simp: map_eq_Cons_conv dest: parse_octet_bound)
  then show ?thesis using n by simp
qed

end
