(* ===== verification/Ddns.thy ===== *)
theory Ddns
  imports Ipaddr
begin

text \<open>
  The DDNS component, \<open>src/lab_ddns.py\<close>: provider table, normalisation and validation of records,
  the credential store, the two-sample stability gate of \<open>accept_address\<close>, the publication path
  \<open>run_update\<close> with its two critical sections, retry backoff, the automatic worker's due list and
  the request handlers. The clock, the random identifiers and the answers of the DNS providers are
  arguments. The user messages are given as ASCII glosses.
\<close>

section \<open>Record types, states and providers\<close>

datatype rtype = TA | TAAAA | TCNAME | TTXT

definition RECORD_TYPES :: "rtype list" where
  "RECORD_TYPES = [TA, TAAAA, TCNAME, TTXT]"

fun rtype_str :: "rtype \<Rightarrow> string" where
  "rtype_str TA = ''A''"
| "rtype_str TAAAA = ''AAAA''"
| "rtype_str TCNAME = ''CNAME''"
| "rtype_str TTXT = ''TXT''"

definition rtype_of :: "string \<Rightarrow> rtype option" where
  "rtype_of s = List.find (\<lambda>t. rtype_str t = s) RECORD_TYPES"

datatype flow_status = Disabled | Waiting | Detected | Updating | Published | Failed

fun status_str :: "flow_status \<Rightarrow> string" where
  "status_str Disabled = ''disabled''"
| "status_str Waiting = ''waiting''"
| "status_str Detected = ''detected''"
| "status_str Updating = ''updating''"
| "status_str Published = ''published''"
| "status_str Failed = ''error''"

definition FLOW_STATUSES :: "flow_status list" where
  "FLOW_STATUSES = [Disabled, Waiting, Detected, Updating, Published, Failed]"

definition status_of :: "string \<Rightarrow> flow_status option" where
  "status_of s = List.find (\<lambda>t. status_str t = s) FLOW_STATUSES"

datatype addr_state = Public | Cgnat | Unavailable | Ambiguous

fun state_str :: "addr_state \<Rightarrow> string" where
  "state_str Public = ''public''"
| "state_str Cgnat = ''cgnat''"
| "state_str Unavailable = ''unavailable''"
| "state_str Ambiguous = ''ambiguous''"

definition IPV4_STATES :: "addr_state list" where
  "IPV4_STATES = [Public, Cgnat, Unavailable, Ambiguous]"

definition IPV6_STATES :: "addr_state list" where
  "IPV6_STATES = [Public, Unavailable, Ambiguous]"

definition state_in :: "addr_state list \<Rightarrow> string \<Rightarrow> addr_state" where
  "state_in states s = (case List.find (\<lambda>t. state_str t = s) states of None \<Rightarrow> Unavailable | Some t \<Rightarrow> t)"

definition RETRY_DELAYS :: "int list" where
  "RETRY_DELAYS = [30, 120, 600, 1800]"

definition ADDRESS_STALE_SECONDS :: int where
  "ADDRESS_STALE_SECONDS = 180"

record provider_spec =
  spec_id :: string
  credential_schema :: "string list"
  supports_a :: bool
  supports_aaaa :: bool
  supports_cname :: bool
  supports_txt :: bool

definition record_types :: "provider_spec \<Rightarrow> rtype list" where
  "record_types s = map fst (filter snd
     [(TA, supports_a s), (TAAAA, supports_aaaa s), (TCNAME, supports_cname s), (TTXT, supports_txt s)])"

definition spec :: "string \<Rightarrow> string list \<Rightarrow> bool \<Rightarrow> bool \<Rightarrow> provider_spec" where
  "spec i schema cname txt = \<lparr>spec_id = i, credential_schema = schema, supports_a = True,
     supports_aaaa = True, supports_cname = cname, supports_txt = txt\<rparr>"

text \<open>The table after \<open>_install_provider_adapters\<close>; the adapters' constructors give the specs.\<close>

definition PROVIDERS :: "(string \<times> provider_spec) list" where
  "PROVIDERS = map (\<lambda>s. (spec_id s, s))
    [spec ''alidns'' [''AccessKeyId'', ''AccessKeySecret'', ''zone''] True True,
     spec ''dnspod'' [''SecretId'', ''SecretKey'', ''zone''] True True,
     spec ''cloudflare'' [''apiToken'', ''zoneId''] True True,
     spec ''dynv6'' [''token''] False False,
     spec ''duckdns'' [''token''] False True,
     spec ''desec'' [''token''] False False,
     spec ''dynu'' [''username'', ''password''] False False,
     spec ''ipv64'' [''token''] False False]"

definition supports_record_type :: "provider_spec \<Rightarrow> rtype \<Rightarrow> bool" where
  "supports_record_type p t = (t \<in> set (record_types p))"

definition provider_specs :: "(string \<times> bool \<times> bool \<times> rtype list) list" where
  "provider_specs = map (\<lambda>(_, s). (spec_id s, supports_a s, supports_aaaa s, record_types s)) PROVIDERS"

record provider_result =
  pr_ok :: bool
  pr_error :: string
  pr_provider :: string
  pr_record_id :: string
  pr_changed :: bool
  pr_error_code :: string
  pr_error_message :: string

section \<open>Normalised state\<close>

record tracker =
  candidate :: string
  stableCount :: int
  retryAttempt :: int
  nextRetryAt :: int
  authError :: bool

record result =
  success :: bool
  res_status :: string
  res_provider :: string
  res_type :: rtype
  res_id :: string
  changed :: bool
  errorCode :: string
  errorMessage :: string

record address =
  addr_ipv4 :: string
  addr_ipv6 :: string
  addr_ipv4State :: addr_state
  addr_ipv6State :: addr_state
  ipv4Source :: string
  ipv6Source :: string
  detectedAt :: int

record ddns_record =
  rec_id :: string
  provider :: string
  hostname :: string
  recordTypes :: "rtype list"
  ttl :: int
  enabled :: bool
  detectedIpv4 :: string
  detectedIpv6 :: string
  ipv4State :: addr_state
  ipv6State :: addr_state
  publishedIpv4 :: "string option"
  publishedIpv6 :: "string option"
  recordValues :: "(rtype \<times> string) list"
  publishedValues :: "(rtype \<times> string) list"
  source :: string
  status :: flow_status
  lastDetectedAt :: int
  lastUpdatedAt :: "int option"
  lastError :: "string option"
  stability :: "rtype \<Rightarrow> tracker"
  lastRecordResults :: "(rtype \<times> result) list"

type_synonym creds = "(string \<times> string) list"

record ddns_root =
  address :: "address option"
  records :: "ddns_record list"

record ddns_store =
  root :: ddns_root
  disk :: "ddns_root option"
  secrets :: "(string \<times> creds) list"
  auto_event :: bool

datatype ddns_error = EValue string | EKey | EStop

section \<open>Helpers\<close>

definition safe_int_or :: "json \<Rightarrow> int \<Rightarrow> int" where
  "safe_int_or v d = (case py_int_of v of Some i \<Rightarrow> max 0 i | None \<Rightarrow> d)"

definition safe_int :: "json \<Rightarrow> int" where
  "safe_int v = safe_int_or v 0"

definition optional_int :: "json \<Rightarrow> int option" where
  "optional_int v = (let i = safe_int v in if i = 0 then None else Some i)"

definition bool_or :: "json \<Rightarrow> bool \<Rightarrow> bool" where
  "bool_or v d = (case v of JBool b \<Rightarrow> b
     | JStr s \<Rightarrow> (let l = lower (strip s) in
         if l \<in> {''false'', ''0'', ''no'', ''off''} then False
         else if l \<in> {''true'', ''1'', ''yes'', ''on''} then True else d)
     | _ \<Rightarrow> d)"

definition address_is_fresh :: "ddns_record \<Rightarrow> int \<Rightarrow> bool" where
  "address_is_fresh r now = (let d = max 0 (lastDetectedAt r) in
     if 0 < d \<and> d < 1000000000 then True
     else 0 < d \<and> d \<le> now + 30 \<and> now - d \<le> ADDRESS_STALE_SECONDS)"

definition redact_error :: "string \<Rightarrow> creds \<Rightarrow> string" where
  "redact_error value credentials = take 240 (fold (\<lambda>(_, secret) text.
     if 3 \<le> length (strip secret) then replace_all (strip secret) ''[REDACTED]'' text else text)
     credentials (strip value))"

definition ip_text :: "json \<Rightarrow> int \<Rightarrow> string" where
  "ip_text v version = (let text = text_of v in
     if text = [] then [] else
     case ip_address text of None \<Rightarrow> [] | Some p \<Rightarrow> if ip_version p = version then text else [])"

definition record_values :: "json \<Rightarrow> (rtype \<times> string) list" where
  "record_values v = (if is_dict v then concat (map (\<lambda>t.
       let raw = dget (items v) (rtype_str t);
           text = (if t = TCNAME then strip (py_str raw) else py_str raw)
       in if raw = JNull \<or> strip text = [] then [] else [(t, text)]) [TCNAME, TTXT])
     else [])"

definition domain_value :: "string \<Rightarrow> string" where
  "domain_value s = rstrip_of (\<lambda>c. c = CHR ''.'') (strip s)"

definition label_ok :: "string \<Rightarrow> bool" where
  "label_ok l = (l \<noteq> [] \<and> length l \<le> 63 \<and> char_isalnum (hd l) \<and> char_isalnum (last l)
     \<and> list_all (\<lambda>c. char_isalnum c \<or> c = CHR ''-'') l)"

definition valid_cname :: "string \<Rightarrow> string \<Rightarrow> bool" where
  "valid_cname value host = (let target = lower (domain_value value); owner = lower (domain_value host) in
     if target = [] \<or> owner = [] \<or> target = owner \<or> contains target ''://'' \<or> contains target ''/''
        \<or> list_ex is_space target then False
     else let labels = split_on (CHR ''.'') target in 2 \<le> length labels \<and> list_all label_ok labels)"

definition value_of :: "(rtype \<times> string) list \<Rightarrow> rtype \<Rightarrow> string" where
  "value_of d t = (case map_of d t of None \<Rightarrow> [] | Some s \<Rightarrow> s)"

definition type_list :: "json \<Rightarrow> json list option" where
  "type_list v = (case v of JStr s \<Rightarrow> Some [JStr s] | JList xs \<Rightarrow> Some xs | _ \<Rightarrow> None)"

definition validate_record_input :: "(string \<times> json) list \<Rightarrow> ddns_record \<Rightarrow> ddns_error + unit" where
  "validate_record_input value r =
    (let requested = (case type_list (dget value ''recordTypes'') of None \<Rightarrow> []
           | Some xs \<Rightarrow> remdups (filter (\<lambda>s. s \<noteq> []) (map (\<lambda>x. upper (text_of x)) xs))) in
     if ''CNAME'' \<in> set requested \<and> 1 < length requested
     then Inl (EValue ''CNAME cannot be combined with another record type'')
     else case map_of PROVIDERS (provider r) of
       None \<Rightarrow> Inl (EValue ''unknown provider'')
     | Some p \<Rightarrow>
        (case filter (\<lambda>t. \<not> supports_record_type p t) (recordTypes r) of
           t # _ \<Rightarrow> Inl (EValue (''provider does not support record type: '' @ rtype_str t))
         | [] \<Rightarrow>
           if TCNAME \<in> set (recordTypes r) \<and> \<not> valid_cname (value_of (recordValues r) TCNAME) (hostname r)
           then Inl (EValue ''CNAME target must be a different domain name'')
           else if TTXT \<in> set (recordTypes r) \<and> strip (value_of (recordValues r) TTXT) = []
           then Inl (EValue ''TXT value is required'')
           else Inr ()))"

section \<open>Normalisation\<close>

definition empty_tracker :: tracker where
  "empty_tracker = \<lparr>candidate = [], stableCount = 0, retryAttempt = 0, nextRetryAt = 0, authError = False\<rparr>"

definition normal_tracker :: "json \<Rightarrow> rtype \<Rightarrow> tracker" where
  "normal_tracker v t =
    (if \<not> is_dict v then empty_tracker else
     let item = dget (items v) (rtype_str t) in
     if \<not> is_dict item then empty_tracker else
     \<lparr>candidate = (if t = TA then ip_text (dget (items item) ''candidate'') 4
                   else if t = TAAAA then ip_text (dget (items item) ''candidate'') 6 else []),
      stableCount = min 2 (safe_int (dget (items item) ''stableCount'')),
      retryAttempt = min (int (length RETRY_DELAYS)) (safe_int (dget (items item) ''retryAttempt'')),
      nextRetryAt = safe_int (dget (items item) ''nextRetryAt''),
      authError = bool_or (dget (items item) ''authError'') False\<rparr>)"

definition normal_result :: "rtype \<Rightarrow> (string \<times> json) list \<Rightarrow> result" where
  "normal_result t item =
     \<lparr>success = truthy (dget item ''success''), res_status = text_of (dget item ''status''),
      res_provider = text_of (dget item ''provider''), res_type = t, res_id = text_of (dget item ''recordId''),
      changed = truthy (dget item ''changed''), errorCode = text_of (dget item ''errorCode''),
      errorMessage = take 240 (text_of (dget item ''errorMessage''))\<rparr>"

definition normal_results :: "json \<Rightarrow> (rtype \<times> result) list" where
  "normal_results v = concat (map (\<lambda>t. let item = dget (items v) (rtype_str t) in
     if is_dict item then [(t, normal_result t (items item))] else []) RECORD_TYPES)"

definition normal_address :: "json \<Rightarrow> address option" where
  "normal_address v = (if \<not> is_dict v then None else
    (let g = dget (items v);
         ip4 = ip_text (g ''detectedIpv4'') 4;
         ip6 = ip_text (g ''detectedIpv6'') 6;
         s4 = text_of (g ''ipv4State''); s6 = text_of (g ''ipv6State'');
         s4' = (if s4 = ''public'' \<and> ip4 = [] then ''unavailable'' else s4);
         s6' = (if s6 = ''public'' \<and> ip6 = [] then ''unavailable'' else s6)
     in Some \<lparr>addr_ipv4 = ip4, addr_ipv6 = ip6,
        addr_ipv4State = state_in IPV4_STATES s4', addr_ipv6State = state_in IPV6_STATES s6',
        ipv4Source = text_of (g ''ipv4Source''), ipv6Source = text_of (g ''ipv6Source''),
        detectedAt = safe_int (g ''detectedAt'')\<rparr>))"

definition normal_types :: "json \<Rightarrow> rtype list" where
  "normal_types v = (let raw = (case type_list v of None \<Rightarrow> [TA, TAAAA]
         | Some xs \<Rightarrow> List.map_filter (\<lambda>x. rtype_of (upper (text_of x))) xs);
       types = (if raw = [] then [TA, TAAAA] else raw)
     in if TCNAME \<in> set types then [TCNAME] else types)"

definition trim_cname :: "(rtype \<times> string) list \<Rightarrow> (rtype \<times> string) list" where
  "trim_cname d = map (\<lambda>(t, s). (t, if t = TCNAME then domain_value s else s)) d"

definition none_if_empty :: "string \<Rightarrow> string option" where
  "none_if_empty s = (if s = [] then None else Some s)"

definition normal_record :: "string \<Rightarrow> json \<Rightarrow> ddns_record option" where
  "normal_record uuid v =
    (if \<not> is_dict v then None else
     let g = dget (items v); prov = lower (text_of (g ''provider'')) in
     if map_of PROVIDERS prov = None then None else
     let types = normal_types (g ''recordTypes'');
         values = trim_cname (record_values (g ''recordValues''));
         published = trim_cname (record_values (g ''publishedValues''));
         en = bool_or (dget_or (items v) ''enabled'' (JBool True)) True
     in Some
     \<lparr>rec_id = (let i = text_of (g ''id'') in if i = [] then uuid else i),
      provider = prov,
      hostname = text_of (g ''hostname''),
      recordTypes = uniq types,
      ttl = min 86400 (max 60 (safe_int_or (g ''ttl'') 600)),
      enabled = en,
      detectedIpv4 = ip_text (g ''detectedIpv4'') 4,
      detectedIpv6 = ip_text (g ''detectedIpv6'') 6,
      ipv4State = state_in IPV4_STATES (text_of (g ''ipv4State'')),
      ipv6State = state_in IPV6_STATES (text_of (g ''ipv6State'')),
      publishedIpv4 = none_if_empty (ip_text (g ''publishedIpv4'') 4),
      publishedIpv6 = none_if_empty (ip_text (g ''publishedIpv6'') 6),
      recordValues = filter (\<lambda>(t, _). t \<in> set types) values,
      publishedValues = filter (\<lambda>(t, _). t \<in> set types) published,
      source = text_of (g ''source''),
      status = (if \<not> en then Disabled
                else case status_of (text_of (g ''status'')) of None \<Rightarrow> Waiting | Some s \<Rightarrow> s),
      lastDetectedAt = safe_int (g ''lastDetectedAt''),
      lastUpdatedAt = optional_int (g ''lastUpdatedAt''),
      lastError = none_if_empty (text_of (g ''lastError'')),
      stability = normal_tracker (g ''stability''),
      lastRecordResults = normal_results (g ''lastRecordResults'')\<rparr>)"

section \<open>Credentials\<close>

definition clean_creds :: "(string \<times> json) list \<Rightarrow> creds" where
  "clean_creds d = map (\<lambda>(k, v). (k, text_of v)) (filter (\<lambda>(k, v). text_of v \<noteq> []) d)"

definition secrets_load :: "json option \<Rightarrow> (string \<times> creds) list" where
  "secrets_load file = (case file of
     Some (JObj raw) \<Rightarrow> map (\<lambda>(i, values). (i, clean_creds (items values)))
       (filter (\<lambda>(i, values). is_dict values) (items (dget raw ''records'')))
   | _ \<Rightarrow> [])"

definition secrets_save :: "string \<Rightarrow> (string \<times> json) list \<Rightarrow> (string \<times> creds) list \<Rightarrow> bool \<times> (string \<times> creds) list" where
  "secrets_save i credentials s = (let safe = clean_creds credentials in
     if safe = [] then (False, s) else (True, dset i safe s))"

definition secrets_get :: "string \<Rightarrow> (string \<times> creds) list \<Rightarrow> creds" where
  "secrets_get i s = (case map_of s i of None \<Rightarrow> [] | Some c \<Rightarrow> c)"

definition secrets_configured :: "string \<Rightarrow> (string \<times> creds) list \<Rightarrow> bool" where
  "secrets_configured i s = (secrets_get i s \<noteq> [])"

definition secrets_delete :: "string \<Rightarrow> (string \<times> creds) list \<Rightarrow> (string \<times> creds) list" where
  "secrets_delete i s = (if i \<in> fst ` set s then dpop i s else s)"

section \<open>The record store\<close>

definition save_locked :: "ddns_store \<Rightarrow> ddns_store" where
  "save_locked st = st\<lparr>disk := Some (root st)\<rparr>"

definition forget_candidate :: "tracker \<Rightarrow> tracker" where
  "forget_candidate t = t\<lparr>candidate := [], stableCount := 0\<rparr>"

definition clear_retry :: "tracker \<Rightarrow> tracker" where
  "clear_retry t = t\<lparr>retryAttempt := 0, nextRetryAt := 0, authError := False\<rparr>"

definition empty_root :: ddns_root where
  "empty_root = \<lparr>address = None, records = []\<rparr>"

text \<open>
  \<open>_load\<close>: the file's content, if it can be read and parsed; a failure half-way keeps
  what was assigned before it.
\<close>

definition load_root :: "(nat \<Rightarrow> string) \<Rightarrow> json option \<Rightarrow> ddns_root" where
  "load_root uuid file = (case file of
     Some (JObj raw) \<Rightarrow>
       (let addr = normal_address (dget raw ''address'') in
        case py_iter (dget_or raw ''records'' (JList [])) of
          Inl _ \<Rightarrow> empty_root\<lparr>address := addr\<rparr>
        | Inr xs \<Rightarrow> \<lparr>address = addr,
            records = map (\<lambda>r. r\<lparr>stability := forget_candidate \<circ> stability r\<rparr>)
              (List.map_filter (\<lambda>(n, x). normal_record (uuid n) x) (enumerate 0 xs))\<rparr>)
   | _ \<Rightarrow> empty_root)"

definition open_store :: "(nat \<Rightarrow> string) \<Rightarrow> json option \<Rightarrow> json option \<Rightarrow> ddns_store" where
  "open_store uuid file secret_file =
     \<lparr>root = load_root uuid file, disk = None, secrets = secrets_load secret_file, auto_event = False\<rparr>"

fun state_of :: "rtype \<Rightarrow> ddns_record \<Rightarrow> addr_state" where
  "state_of TA r = ipv4State r"
| "state_of _ r = ipv6State r"

fun detected_of :: "rtype \<Rightarrow> ddns_record \<Rightarrow> string" where
  "detected_of TA r = detectedIpv4 r"
| "detected_of _ r = detectedIpv6 r"

fun published_of :: "rtype \<Rightarrow> ddns_record \<Rightarrow> string option" where
  "published_of TA r = publishedIpv4 r"
| "published_of _ r = publishedIpv6 r"

fun set_published :: "rtype \<Rightarrow> string option \<Rightarrow> ddns_record \<Rightarrow> ddns_record" where
  "set_published TA v r = r\<lparr>publishedIpv4 := v\<rparr>"
| "set_published _ v r = r\<lparr>publishedIpv6 := v\<rparr>"

fun addr_state_of :: "rtype \<Rightarrow> address \<Rightarrow> addr_state" where
  "addr_state_of TA a = addr_ipv4State a"
| "addr_state_of _ a = addr_ipv6State a"

fun addr_detected_of :: "rtype \<Rightarrow> address \<Rightarrow> string" where
  "addr_detected_of TA a = addr_ipv4 a"
| "addr_detected_of _ a = addr_ipv6 a"

definition or_empty :: "string option \<Rightarrow> string" where
  "or_empty v = (case v of None \<Rightarrow> [] | Some s \<Rightarrow> s)"

definition set_tracker :: "rtype \<Rightarrow> tracker \<Rightarrow> ddns_record \<Rightarrow> ddns_record" where
  "set_tracker t k r = r\<lparr>stability := (stability r)(t := k)\<rparr>"

subsection \<open>The automatic worker\<close>

definition type_ready :: "int \<Rightarrow> ddns_record \<Rightarrow> rtype \<Rightarrow> bool" where
  "type_ready now r t = (let k = stability r t in
     t \<in> set (recordTypes r) \<and> state_of t r = Public \<and> strip (detected_of t r) \<noteq> []
     \<and> strip (detected_of t r) \<noteq> strip (or_empty (published_of t r))
     \<and> 2 \<le> max 0 (stableCount k) \<and> \<not> authError k \<and> address_is_fresh r now)"

definition due_types :: "int \<Rightarrow> ddns_record \<Rightarrow> rtype list" where
  "due_types now r = filter (\<lambda>t. type_ready now r t \<and> max 0 (nextRetryAt (stability r t)) \<le> now) [TA, TAAAA]"

definition next_retries :: "int \<Rightarrow> ddns_record \<Rightarrow> int list" where
  "next_retries now r = map (\<lambda>t. max 0 (nextRetryAt (stability r t)))
     (filter (\<lambda>t. type_ready now r t \<and> now < max 0 (nextRetryAt (stability r t))) [TA, TAAAA])"

definition auto_due :: "int \<Rightarrow> ddns_store \<Rightarrow> string list \<times> int option" where
  "auto_due now st = (let live = filter enabled (records (root st)) in
     (filter (\<lambda>i. i \<noteq> []) (map (\<lambda>r. strip (rec_id r)) (filter (\<lambda>r. due_types now r \<noteq> []) live)),
      (case concat (map (next_retries now) live) of [] \<Rightarrow> None | x # xs \<Rightarrow> Some (foldl min x xs))))"

text \<open>The wait of the worker's loop, in seconds.\<close>

definition auto_timeout :: "int \<Rightarrow> int option \<Rightarrow> int" where
  "auto_timeout now next_retry = (case next_retry of None \<Rightarrow> 300 | Some n \<Rightarrow> max 1 (min 300 (n - now)))"

subsection \<open>Samples\<close>

definition track_sample :: "address \<Rightarrow> bool \<Rightarrow> ddns_record \<Rightarrow> rtype \<Rightarrow> tracker" where
  "track_sample a sample_changed r t =
    (let k = stability r t; detected = addr_detected_of t a; published = or_empty (published_of t r) in
     if \<not> sample_changed then k
     else if t \<notin> set (recordTypes r) then forget_candidate k
     else if addr_state_of t a = Public \<and> detected \<noteq> [] \<and> detected \<noteq> published then
       (if candidate k = detected then k\<lparr>stableCount := min 2 (max 0 (stableCount k) + 1)\<rparr>
        else clear_retry (k\<lparr>candidate := detected, stableCount := 1\<rparr>))
     else let k' = forget_candidate k in if detected = published then clear_retry k' else k')"

text \<open>Whether the bookkeeping of one sample has to be written to disk.\<close>

definition track_changed :: "address \<Rightarrow> bool \<Rightarrow> ddns_record \<Rightarrow> rtype \<Rightarrow> bool" where
  "track_changed a sample_changed r t =
    (let k = stability r t; detected = addr_detected_of t a in
     sample_changed \<and> t \<in> set (recordTypes r)
     \<and> \<not> (addr_state_of t a = Public \<and> detected \<noteq> [] \<and> detected \<noteq> or_empty (published_of t r))
     \<and> (candidate k \<noteq> [] \<or> stableCount k \<noteq> 0))"

definition sample_source :: "address \<Rightarrow> string" where
  "sample_source a = join '','' (filter (\<lambda>s. s \<noteq> []) [ipv4Source a, ipv6Source a])"

definition copy_sample :: "address \<Rightarrow> ddns_record \<Rightarrow> ddns_record" where
  "copy_sample a r = r\<lparr>detectedIpv4 := addr_ipv4 a, detectedIpv6 := addr_ipv6 a, ipv4State := addr_ipv4State a,
     ipv6State := addr_ipv6State a, source := sample_source a, lastDetectedAt := detectedAt a\<rparr>"

definition type_pending :: "address \<Rightarrow> ddns_record \<Rightarrow> rtype \<Rightarrow> bool" where
  "type_pending a r t = (t \<in> set (recordTypes r) \<and> addr_state_of t a = Public \<and> addr_detected_of t a \<noteq> []
     \<and> addr_detected_of t a \<noteq> or_empty (published_of t r))"

definition has_published :: "ddns_record \<Rightarrow> bool" where
  "has_published r = (or_empty (publishedIpv4 r) \<noteq> [] \<or> or_empty (publishedIpv6 r) \<noteq> [] \<or> publishedValues r \<noteq> [])"

definition has_direct_values :: "ddns_record \<Rightarrow> bool" where
  "has_direct_values r = list_ex (\<lambda>t. t \<in> set (recordTypes r) \<and> strip (value_of (recordValues r) t) \<noteq> []) [TCNAME, TTXT]"

definition sample_status :: "address \<Rightarrow> ddns_record \<Rightarrow> flow_status \<times> string option" where
  "sample_status a r =
    (if \<not> enabled r then (Disabled, lastError r)
     else if status r = Failed \<or> status r = Updating then (status r, lastError r)
     else if list_ex (type_pending a r) [TA, TAAAA] then (Detected, None)
     else if has_published r then (Published, None)
     else if has_direct_values r then (Detected, None)
     else (Waiting, None))"

definition observe_record :: "address \<Rightarrow> bool \<Rightarrow> ddns_record \<Rightarrow> ddns_record" where
  "observe_record a sample_changed r =
    (let r1 = copy_sample a r;
         r2 = r1\<lparr>stability := (stability r1)(TA := track_sample a sample_changed r1 TA,
                                            TAAAA := track_sample a sample_changed r1 TAAAA)\<rparr>;
         (s, e) = sample_status a r2
     in r2\<lparr>status := s, lastError := e\<rparr>)"

definition record_changed :: "address \<Rightarrow> bool \<Rightarrow> ddns_record \<Rightarrow> bool" where
  "record_changed a sample_changed r =
    (detectedIpv4 r \<noteq> addr_ipv4 a \<or> detectedIpv6 r \<noteq> addr_ipv6 a \<or> ipv4State r \<noteq> addr_ipv4State a
     \<or> ipv6State r \<noteq> addr_ipv6State a \<or> source r \<noteq> sample_source a
     \<or> list_ex (track_changed a sample_changed r) [TA, TAAAA]
     \<or> (let r' = observe_record a sample_changed r in status r \<noteq> status r' \<or> lastError r \<noteq> lastError r'))"

definition record_ready :: "address \<Rightarrow> ddns_record \<Rightarrow> bool" where
  "record_ready a r' = list_ex (\<lambda>t. 2 \<le> max 0 (stableCount (stability r' t)) \<and> addr_detected_of t a \<noteq> []
     \<and> addr_detected_of t a \<noteq> or_empty (published_of t r')) [TA, TAAAA]"

definition address_changed :: "address option \<Rightarrow> address \<Rightarrow> bool" where
  "address_changed previous a = (case previous of None \<Rightarrow> True
     | Some p \<Rightarrow> addr_ipv4 p \<noteq> addr_ipv4 a \<or> addr_ipv6 p \<noteq> addr_ipv6 a \<or> addr_ipv4State p \<noteq> addr_ipv4State a
         \<or> addr_ipv6State p \<noteq> addr_ipv6State a \<or> ipv4Source p \<noteq> ipv4Source a \<or> ipv6Source p \<noteq> ipv6Source a)"

definition stamp_address :: "int \<Rightarrow> address option \<Rightarrow> address \<Rightarrow> address" where
  "stamp_address now previous a = (if detectedAt a \<noteq> 0 then a
     else let old = (case previous of None \<Rightarrow> 0 | Some p \<Rightarrow> max 0 (detectedAt p))
          in a\<lparr>detectedAt := (if old \<noteq> 0 then old else now)\<rparr>)"

definition accept_address :: "int \<Rightarrow> json \<Rightarrow> ddns_store \<Rightarrow> bool \<times> ddns_store" where
  "accept_address now v st = (case normal_address v of
     None \<Rightarrow> (False, st)
   | Some a0 \<Rightarrow>
      (let previous = address (root st);
           a = stamp_address now previous a0;
           sample_changed = (map_option detectedAt previous \<noteq> Some (detectedAt a));
           rs = map (observe_record a sample_changed) (records (root st));
           dirty = (address_changed previous a \<or> list_ex (record_changed a sample_changed) (records (root st)));
           st1 = st\<lparr>root := \<lparr>address = Some a, records = rs\<rparr>\<rparr>;
           st2 = (if dirty then save_locked st1 else st1)
       in (True, if list_ex (record_ready a) rs then st2\<lparr>auto_event := True\<rparr> else st2)))"

subsection \<open>Editing records\<close>

definition idle_status :: "ddns_record \<Rightarrow> flow_status" where
  "idle_status r = (if detectedIpv4 r \<noteq> [] \<or> detectedIpv6 r \<noteq> [] \<or> recordValues r \<noteq> [] then Detected else Waiting)"

definition merge_edit :: "(string \<times> json) list \<Rightarrow> string \<Rightarrow> ddns_record \<Rightarrow> ddns_record \<Rightarrow> ddns_record" where
  "merge_edit value record_id old r =
    (let keep = filter (\<lambda>(t, _). t \<in> set (recordTypes r));
         en = bool_or (dget_or value ''enabled'' (JBool (enabled old))) True;
         r1 = old\<lparr>rec_id := record_id, provider := provider r, hostname := hostname r, recordTypes := recordTypes r,
                  recordValues := (if map_of value ''recordValues'' = None then keep (recordValues old) else recordValues r),
                  publishedValues := keep (publishedValues old),
                  ttl := (if map_of value ''ttl'' = None then ttl old else ttl r),
                  enabled := en\<rparr>
     in if \<not> en then r1\<lparr>status := Disabled\<rparr>
        else if recordTypes old \<noteq> recordTypes r \<or> \<not> dict_eq (recordValues old) (recordValues r)
             \<or> status old = Disabled
        then r1\<lparr>status := idle_status r1\<rparr> else r1)"

definition new_record :: "address option \<Rightarrow> ddns_record \<Rightarrow> ddns_record" where
  "new_record addr r =
    (let r1 = (case addr of
           None \<Rightarrow> r\<lparr>detectedIpv4 := [], detectedIpv6 := [], ipv4State := Unavailable, ipv6State := Unavailable,
                      lastDetectedAt := 0, source := []\<rparr>
         | Some a \<Rightarrow> copy_sample (a\<lparr>detectedAt := max 0 (detectedAt a)\<rparr>) r)
     in r1\<lparr>status := (if \<not> enabled r1 then Disabled else idle_status r1)\<rparr>)"

fun replace_first :: "('a \<Rightarrow> bool) \<Rightarrow> ('a \<Rightarrow> 'a) \<Rightarrow> 'a list \<Rightarrow> 'a list" where
  "replace_first P f [] = []"
| "replace_first P f (x # xs) = (if P x then f x # xs else x # replace_first P f xs)"

definition save_record :: "string \<Rightarrow> (string \<times> json) list \<Rightarrow> string \<Rightarrow> ddns_store \<Rightarrow> ddns_error + (ddns_record \<times> ddns_store)" where
  "save_record uuid value record_id st =
    (case normal_record uuid (JObj value) of
       None \<Rightarrow> Inl (EValue ''provider and hostname are required'')
     | Some r \<Rightarrow>
        if hostname r = [] then Inl (EValue ''provider and hostname are required'') else
        ebind (validate_record_input value r) (\<lambda>_.
          if record_id \<noteq> [] then
            (case List.find (\<lambda>old. rec_id old = record_id) (records (root st)) of
               None \<Rightarrow> Inl EKey
             | Some old \<Rightarrow>
                (let r' = merge_edit value record_id old r;
                     rs = replace_first (\<lambda>x. rec_id x = record_id) (\<lambda>_. r') (records (root st))
                 in Inr (r', (save_locked (st\<lparr>root := (root st)\<lparr>records := rs\<rparr>\<rparr>))\<lparr>auto_event := True\<rparr>)))
          else
            (let r' = new_record (address (root st)) r
             in Inr (r', (save_locked (st\<lparr>root := (root st)\<lparr>records := records (root st) @ [r']\<rparr>\<rparr>))\<lparr>auto_event := True\<rparr>))))"

definition save_credentials :: "string \<Rightarrow> (string \<times> json) list \<Rightarrow> ddns_store \<Rightarrow> bool \<times> ddns_store" where
  "save_credentials i credentials st = (case secrets_save i credentials (secrets st) of
     (saved, s) \<Rightarrow> (saved, if saved then st\<lparr>secrets := s, auto_event := True\<rparr> else st))"

definition delete_record :: "string \<Rightarrow> ddns_store \<Rightarrow> bool \<times> ddns_store" where
  "delete_record i st =
    (let rs = filter (\<lambda>r. rec_id r \<noteq> i) (records (root st)) in
     if length rs = length (records (root st)) then (False, st)
     else (True, save_locked (st\<lparr>root := (root st)\<lparr>records := rs\<rparr>\<rparr>)))"

subsection \<open>Publishing\<close>

definition mk_result :: "bool \<Rightarrow> string \<Rightarrow> string \<Rightarrow> rtype \<Rightarrow> string \<Rightarrow> string \<Rightarrow> result" where
  "mk_result ok s p t ec msg = \<lparr>success = ok, res_status = s, res_provider = p, res_type = t, res_id = [],
     changed = False, errorCode = ec, errorMessage = msg\<rparr>"

text \<open>Whether a type is published now (\<open>Inr\<close> the value to send) or why not.\<close>

definition plan_address :: "int \<Rightarrow> bool \<Rightarrow> string \<Rightarrow> ddns_record \<Rightarrow> rtype \<Rightarrow> result + string" where
  "plan_address now force p r t =
    (let detected = detected_of t r; published = or_empty (published_of t r); k = stability r t in
     if state_of t r = Public \<and> detected \<noteq> [] \<and> detected \<noteq> published then
       (if \<not> address_is_fresh r now then
          Inl (mk_result False ''stale_address'' p t ''stale_address'' ''detected address has expired, refresh it first'')
        else if max 0 (stableCount k) < 2 then Inl (mk_result False ''waiting_for_stability'' p t [] [])
        else if authError k \<and> \<not> force then
          Inl (mk_result False ''credential_error'' p t ''credential_error'' ''credentials require correction'')
        else if now < max 0 (nextRetryAt k) \<and> \<not> force then
          Inl (mk_result False ''retry_backoff'' p t ''retry_backoff'' ''retry is deferred'')
        else Inr detected)
     else Inl (mk_result True ''noop'' p t [] []))"

definition plan_value :: "int \<Rightarrow> bool \<Rightarrow> provider_spec \<Rightarrow> ddns_record \<Rightarrow> rtype \<Rightarrow> result + string" where
  "plan_value now force ps r t =
    (let value = value_of (recordValues r) t; published = value_of (publishedValues r) t; k = stability r t;
         p = spec_id ps in
     if \<not> supports_record_type ps t then
       Inl (mk_result False ''error'' p t ''unsupported_record_type'' ''provider does not support this record type'')
     else if value = [] then Inl (mk_result False ''error'' p t ''value_required'' ''record value is required'')
     else if value = published then Inl (mk_result True ''noop'' p t [] [])
     else if authError k \<and> \<not> force then
       Inl (mk_result False ''credential_error'' p t ''credential_error'' ''credentials require correction'')
     else if now < max 0 (nextRetryAt k) \<and> \<not> force then
       Inl (mk_result False ''retry_backoff'' p t ''retry_backoff'' ''retry is deferred'')
     else Inr value)"

definition plan_of :: "int \<Rightarrow> bool \<Rightarrow> provider_spec \<Rightarrow> ddns_record \<Rightarrow> rtype \<Rightarrow> result + string" where
  "plan_of now force ps r t = (if t = TA \<or> t = TAAAA then plan_address now force (spec_id ps) r t
     else plan_value now force ps r t)"

definition planned :: "ddns_record \<Rightarrow> rtype list" where
  "planned r = filter (\<lambda>t. t \<in> set (recordTypes r)) RECORD_TYPES"

definition plan_results :: "int \<Rightarrow> bool \<Rightarrow> provider_spec \<Rightarrow> ddns_record \<Rightarrow> (rtype \<times> result) list" where
  "plan_results now force ps r = concat (map (\<lambda>t. case plan_of now force ps r t of Inl x \<Rightarrow> [(t, x)] | Inr _ \<Rightarrow> []) (planned r))"

definition plan_work :: "int \<Rightarrow> bool \<Rightarrow> provider_spec \<Rightarrow> ddns_record \<Rightarrow> (rtype \<times> string) list" where
  "plan_work now force ps r = concat (map (\<lambda>t. case plan_of now force ps r t of Inl _ \<Rightarrow> [] | Inr v \<Rightarrow> [(t, v)]) (planned r))"

record update_reply =
  reply_ok :: bool
  reply_status :: flow_status
  reply_results :: "(rtype \<times> result) list"

record update_job =
  job_id :: string
  job_provider :: string
  job_hostname :: string
  job_ttl :: int
  job_creds :: creds
  job_work :: "(rtype \<times> string) list"
  job_results :: "(rtype \<times> result) list"

datatype begun = Finished update_reply | Pending update_job

definition any_status :: "string list \<Rightarrow> (rtype \<times> result) list \<Rightarrow> bool" where
  "any_status ss results = list_ex (\<lambda>(_, x). res_status x \<in> set ss) results"

definition settle_idle :: "(rtype \<times> result) list \<Rightarrow> ddns_record \<Rightarrow> ddns_record" where
  "settle_idle results r =
    (let r1 = r\<lparr>lastRecordResults := results\<rparr> in
     if any_status [''waiting_for_stability'', ''retry_backoff'', ''credential_error'', ''stale_address''] results then
       (let r2 = r1\<lparr>status := (if status r1 \<noteq> Failed then Detected else Failed)\<rparr> in
        case List.find (\<lambda>(_, x). res_status x = ''stale_address'') results of
          None \<Rightarrow> r2
        | Some (_, x) \<Rightarrow> if errorMessage x = [] then r2 else r2\<lparr>lastError := Some (errorMessage x)\<rparr>)
     else if any_status [''error''] results then r1\<lparr>status := Failed\<rparr>
     else if has_published r1 then r1\<lparr>status := Published, lastError := None\<rparr>
     else r1)"

definition update_first :: "string \<Rightarrow> (ddns_record \<Rightarrow> ddns_record) \<Rightarrow> ddns_store \<Rightarrow> ddns_store" where
  "update_first i f st = st\<lparr>root := (root st)\<lparr>records := replace_first (\<lambda>r. rec_id r = i) f (records (root st))\<rparr>\<rparr>"

text \<open>The first critical section of \<open>run_update\<close>.\<close>

definition begin_update :: "int \<Rightarrow> string \<Rightarrow> bool \<Rightarrow> ddns_store \<Rightarrow> ddns_error + (begun \<times> ddns_store)" where
  "begin_update now i force st =
    (case List.find (\<lambda>r. rec_id r = i) (records (root st)) of
       None \<Rightarrow> Inl EKey
     | Some r \<Rightarrow>
        if \<not> enabled r then
          Inr (Finished \<lparr>reply_ok = True, reply_status = Disabled, reply_results = []\<rparr>,
               save_locked (update_first i (\<lambda>r. r\<lparr>status := Disabled\<rparr>) st))
        else (case map_of PROVIDERS (provider r) of
          None \<Rightarrow> Inl (EValue ''unknown provider'')
        | Some ps \<Rightarrow>
           (let results = plan_results now force ps r; work = plan_work now force ps r in
            if work = [] then
              (let r' = settle_idle results r in
               Inr (Finished \<lparr>reply_ok = (\<not> any_status [''error'', ''stale_address''] results),
                              reply_status = status r', reply_results = results\<rparr>,
                    save_locked (update_first i (settle_idle results) st)))
            else
              Inr (Pending \<lparr>job_id = i, job_provider = spec_id ps, job_hostname = hostname r, job_ttl = ttl r,
                            job_creds = secrets_get i (secrets st), job_work = work, job_results = results\<rparr>,
                   save_locked (update_first i (\<lambda>r. r\<lparr>status := Updating\<rparr>) st)))))"

type_synonym sync = "string \<Rightarrow> string \<Rightarrow> rtype \<Rightarrow> string \<Rightarrow> int \<Rightarrow> creds \<Rightarrow> provider_result option"

text \<open>One provider call; \<open>None\<close> is an exception of the adapter.\<close>

definition call_provider :: "sync \<Rightarrow> update_job \<Rightarrow> rtype \<times> string \<Rightarrow> rtype \<times> result" where
  "call_provider sync job w = (case w of (t, v) \<Rightarrow>
    (let res = (case sync (job_provider job) (job_hostname job) t v (job_ttl job) (job_creds job) of
           Some x \<Rightarrow> x
         | None \<Rightarrow> \<lparr>pr_ok = False, pr_error = ''provider request failed'', pr_provider = job_provider job,
                    pr_record_id = [], pr_changed = False, pr_error_code = ''provider_error'',
                    pr_error_message = ''provider request failed''\<rparr>)
     in (t, \<lparr>success = pr_ok res, res_status = (if pr_ok res then ''published'' else ''error''),
          res_provider = (if pr_provider res = [] then job_provider job else pr_provider res), res_type = t,
          res_id = pr_record_id res, changed = pr_changed res, errorCode = pr_error_code res,
          errorMessage = redact_error (if pr_error_message res = [] then pr_error res else pr_error_message res)
            (job_creds job)\<rparr>)))"

definition run_work :: "sync \<Rightarrow> update_job \<Rightarrow> (rtype \<times> result) list" where
  "run_work sync job = job_results job @ map (call_provider sync job) (job_work job)"

definition AUTH_CODES :: "string list" where
  "AUTH_CODES = [''401'', ''403'', ''http_401'', ''http_403'', ''InvalidAccessKey'', ''InvalidAccessKeyId'',
     ''AuthFailure'', ''credential_error'', ''authentication_failed'']"

definition fail_tracker :: "int \<Rightarrow> string \<Rightarrow> tracker \<Rightarrow> tracker" where
  "fail_tracker now ec k =
    (let auth = (ec \<in> set AUTH_CODES);
         attempt = min (int (length RETRY_DELAYS)) (max 0 (retryAttempt k) + 1)
     in k\<lparr>retryAttempt := attempt, authError := auth,
          nextRetryAt := (if auth then 0
            else now + RETRY_DELAYS ! nat (min (attempt - 1) (int (length RETRY_DELAYS) - 1)))\<rparr>)"

definition is_pending_status :: "string \<Rightarrow> bool" where
  "is_pending_status s = (s = ''waiting_for_stability'' \<or> s = ''retry_backoff'' \<or> s = ''stale_address'')"

definition apply_result :: "int \<Rightarrow> creds \<Rightarrow> rtype \<times> result \<Rightarrow> ddns_record \<Rightarrow> ddns_record" where
  "apply_result now credentials tr r = (case tr of (t, x) \<Rightarrow>
     if success x then
       (let r1 = (if t = TA \<or> t = TAAAA then set_published t (none_if_empty (detected_of t r)) r
                  else r\<lparr>publishedValues := dset t (value_of (recordValues r) t) (publishedValues r)\<rparr>)
        in set_tracker t empty_tracker (r1\<lparr>lastUpdatedAt := Some now\<rparr>))
     else if is_pending_status (res_status x) then
       (if res_status x = ''stale_address'' then r\<lparr>lastError := Some (strip (errorMessage x))\<rparr> else r)
     else
       (let ec = strip (errorCode x); msg = redact_error (errorMessage x) credentials in
        set_tracker t (fail_tracker now ec (stability r t))
          (r\<lparr>lastError := Some (if msg \<noteq> [] then msg else if ec \<noteq> [] then ec else ''provider update failed'')\<rparr>)))"

definition any_error :: "(rtype \<times> result) list \<Rightarrow> bool" where
  "any_error results = list_ex (\<lambda>(_, x). \<not> success x \<and> \<not> is_pending_status (res_status x)) results"

definition any_pending :: "(rtype \<times> result) list \<Rightarrow> bool" where
  "any_pending results = list_ex (\<lambda>(_, x). \<not> success x \<and> is_pending_status (res_status x)) results"

definition any_stale :: "(rtype \<times> result) list \<Rightarrow> bool" where
  "any_stale results = list_ex (\<lambda>(_, x). \<not> success x \<and> res_status x = ''stale_address'') results"

definition settle :: "int \<Rightarrow> creds \<Rightarrow> (rtype \<times> result) list \<Rightarrow> ddns_record \<Rightarrow> ddns_record" where
  "settle now credentials results r =
    (let r1 = fold (apply_result now credentials) results r;
         r2 = r1\<lparr>lastRecordResults := results,
                 status := (if any_error results then Failed else if any_pending results then Detected else Published)\<rparr>
     in if \<not> any_error results \<and> \<not> any_pending results then r2\<lparr>lastError := None\<rparr> else r2)"

text \<open>The second critical section, after the provider calls.\<close>

definition finish_update :: "int \<Rightarrow> update_job \<Rightarrow> (rtype \<times> result) list \<Rightarrow> ddns_store \<Rightarrow> ddns_error + (update_reply \<times> ddns_store)" where
  "finish_update now job results st =
    (case List.find (\<lambda>r. rec_id r = job_id job) (records (root st)) of
       None \<Rightarrow> Inl EStop
     | Some r \<Rightarrow>
        Inr (\<lparr>reply_ok = (\<not> any_error results \<and> \<not> any_stale results),
              reply_status = status (settle now (job_creds job) results r), reply_results = results\<rparr>,
             save_locked (update_first (job_id job) (settle now (job_creds job) results) st)))"

definition run_update :: "sync \<Rightarrow> int \<Rightarrow> int \<Rightarrow> string \<Rightarrow> bool \<Rightarrow> ddns_store \<Rightarrow> ddns_error + (update_reply \<times> ddns_store)" where
  "run_update sync now now' i force st = ebind (begin_update now i force st) (\<lambda>(b, st1).
     case b of Finished reply \<Rightarrow> Inr (reply, st1)
     | Pending job \<Rightarrow> finish_update now' job (run_work sync job) st1)"

text \<open>The worker's round over the due records; a failing update is logged and skipped.\<close>

definition run_pending_updates :: "sync \<Rightarrow> int \<Rightarrow> ddns_store \<Rightarrow> nat \<times> ddns_store" where
  "run_pending_updates sync now st = (let ids = fst (auto_due now st) in
     (length ids, fold (\<lambda>i s. case run_update sync now now i False s of Inl _ \<Rightarrow> s | Inr (_, s') \<Rightarrow> s') ids st))"

section \<open>Request handlers\<close>

datatype ddns_reply = Unauthorized | NotFound | InvalidRecord string | RecordReply ddns_record bool
  | UpdateReply update_reply | DeletedReply | SnapshotReply "address option" "(ddns_record \<times> bool) list"

fun reply_code :: "ddns_reply \<Rightarrow> int" where
  "reply_code Unauthorized = 401"
| "reply_code NotFound = 404"
| "reply_code (InvalidRecord m) = 400"
| "reply_code _ = 200"

definition public_snapshot :: "ddns_store \<Rightarrow> address option \<times> (ddns_record \<times> bool) list" where
  "public_snapshot st = (address (root st), map (\<lambda>r. (r, secrets_configured (rec_id r) (secrets st))) (records (root st)))"

definition get_ddns :: "bool \<Rightarrow> ddns_store \<Rightarrow> ddns_reply" where
  "get_ddns authorized st = (if \<not> authorized then Unauthorized
     else case public_snapshot st of (a, rs) \<Rightarrow> SnapshotReply a rs)"

definition sync_direct_values :: "sync \<Rightarrow> int \<Rightarrow> int \<Rightarrow> ddns_record \<Rightarrow> ddns_store \<Rightarrow> ddns_error + (ddns_record \<times> ddns_store)" where
  "sync_direct_values sync now now' r st =
    (if TCNAME \<notin> set (recordTypes r) \<and> TTXT \<notin> set (recordTypes r) then Inr (r, st)
     else ebind (run_update sync now now' (rec_id r) False st) (\<lambda>(_, st').
       Inr (case List.find (\<lambda>x. rec_id x = rec_id r) (records (root st')) of None \<Rightarrow> r | Some x \<Rightarrow> x, st')))"

definition store_credentials :: "string \<Rightarrow> json \<Rightarrow> ddns_store \<Rightarrow> ddns_store" where
  "store_credentials i credentials st =
     (if is_dict credentials then snd (save_credentials i (items credentials) st) else st)"

text \<open>\<open>add_ddns\<close> is \<open>put_ddns\<close> with an empty identifier; an uncaught exception is \<open>Inl\<close>.\<close>

definition put_ddns :: "sync \<Rightarrow> int \<Rightarrow> int \<Rightarrow> string \<Rightarrow> bool \<Rightarrow> string \<Rightarrow> json \<Rightarrow> ddns_store \<Rightarrow> ddns_error + (ddns_reply \<times> ddns_store)" where
  "put_ddns sync now now' uuid authorized record_id body st =
    (if \<not> authorized then Inr (Unauthorized, st) else
     let b = items body; credentials = dget_or b ''credentials'' (JObj []) in
     case save_record uuid (filter (\<lambda>(k, _). k \<noteq> ''credentials'') b) record_id st of
       Inl (EValue m) \<Rightarrow> Inr (InvalidRecord m, st)
     | Inl EKey \<Rightarrow> Inr (NotFound, st)
     | Inl e \<Rightarrow> Inl e
     | Inr (r, st1) \<Rightarrow>
        ebind (sync_direct_values sync now now' r (store_credentials (rec_id r) credentials st1)) (\<lambda>(r', st3).
          Inr (RecordReply r' (secrets_configured (rec_id r) (secrets st3)), st3)))"

definition add_ddns :: "sync \<Rightarrow> int \<Rightarrow> int \<Rightarrow> string \<Rightarrow> bool \<Rightarrow> json \<Rightarrow> ddns_store \<Rightarrow> ddns_error + (ddns_reply \<times> ddns_store)" where
  "add_ddns sync now now' uuid authorized body st = put_ddns sync now now' uuid authorized [] body st"

definition update_now :: "sync \<Rightarrow> int \<Rightarrow> int \<Rightarrow> bool \<Rightarrow> string \<Rightarrow> json \<Rightarrow> ddns_store \<Rightarrow> ddns_error + (ddns_reply \<times> ddns_store)" where
  "update_now sync now now' authorized i body st =
    (if \<not> authorized then Inr (Unauthorized, st) else
     case run_update sync now now' i (bool_or (dget (items body) ''force'') False) st of
       Inl EKey \<Rightarrow> Inr (NotFound, st)
     | Inl (EValue m) \<Rightarrow> Inr (InvalidRecord m, st)
     | Inl e \<Rightarrow> Inl e
     | Inr (reply, st') \<Rightarrow> Inr (UpdateReply reply, st'))"

definition delete_ddns :: "bool \<Rightarrow> string \<Rightarrow> ddns_store \<Rightarrow> ddns_reply \<times> ddns_store" where
  "delete_ddns authorized i st = (if \<not> authorized then (Unauthorized, st) else
     case delete_record i st of
       (False, st') \<Rightarrow> (NotFound, st')
     | (True, st') \<Rightarrow> (DeletedReply, st'\<lparr>secrets := secrets_delete i (secrets st')\<rparr>))"

section \<open>Runs of the store\<close>

text \<open>
  What happens to the store, as a sequence of events: samples of the relay, requests, the worker and
  the two critical sections of updates, which may interleave with everything else. An update between
  its two sections is a job that waits in the list of the configuration.
\<close>

datatype ddns_event =
    Sample int json
  | Edit string "(string \<times> json) list" string
  | Credentials string "(string \<times> json) list"
  | Remove string
  | Begin int string bool
  | Finish int sync nat

type_synonym ddns_config = "ddns_store \<times> update_job list"

fun exec :: "ddns_event \<Rightarrow> ddns_config \<Rightarrow> ddns_config" where
  "exec (Sample now v) (st, jobs) = (snd (accept_address now v st), jobs)"
| "exec (Edit uuid value i) (st, jobs) =
     (case save_record uuid value i st of Inl _ \<Rightarrow> (st, jobs) | Inr (_, st') \<Rightarrow> (st', jobs))"
| "exec (Credentials i d) (st, jobs) = (snd (save_credentials i d st), jobs)"
| "exec (Remove i) (st, jobs) = (snd (delete_ddns True i st), jobs)"
| "exec (Begin now i force) (st, jobs) =
     (case begin_update now i force st of
        Inl _ \<Rightarrow> (st, jobs)
      | Inr (Finished _, st') \<Rightarrow> (st', jobs)
      | Inr (Pending job, st') \<Rightarrow> (st', jobs @ [job]))"
| "exec (Finish now sync n) (st, jobs) =
     (if n < length jobs then
        (case finish_update now (jobs ! n) (run_work sync (jobs ! n)) st of
           Inl _ \<Rightarrow> (st, take n jobs @ drop (Suc n) jobs)
         | Inr (_, st') \<Rightarrow> (st', take n jobs @ drop (Suc n) jobs))
      else (st, jobs))"

definition run_events :: "ddns_event list \<Rightarrow> ddns_config \<Rightarrow> ddns_config" where
  "run_events evs c = fold exec evs c"

lemma run_events_induct:
  assumes "P c" and "\<And>ev c. ev \<in> set evs \<Longrightarrow> P c \<Longrightarrow> P (exec ev c)"
  shows "P (run_events evs c)"
  using assms unfolding run_events_def by (induction evs arbitrary: c) auto

section \<open>Well-formed records\<close>

definition ip_field_ok :: "int \<Rightarrow> string \<Rightarrow> bool" where
  "ip_field_ok version s = (ip_text (JStr s) version = s)"

definition tracker_ok :: "rtype \<Rightarrow> tracker \<Rightarrow> bool" where
  "tracker_ok t k = (0 \<le> stableCount k \<and> stableCount k \<le> 2 \<and> 0 \<le> retryAttempt k \<and> retryAttempt k \<le> 4
     \<and> (case t of TA \<Rightarrow> ip_field_ok 4 (candidate k) | TAAAA \<Rightarrow> ip_field_ok 6 (candidate k) | _ \<Rightarrow> candidate k = []))"

definition types_ok :: "rtype list \<Rightarrow> bool" where
  "types_ok ts = (ts \<noteq> [] \<and> distinct ts \<and> (TCNAME \<in> set ts \<longrightarrow> ts = [TCNAME]))"

definition record_ok :: "ddns_record \<Rightarrow> bool" where
  "record_ok r = (map_of PROVIDERS (provider r) \<noteq> None \<and> types_ok (recordTypes r)
     \<and> 60 \<le> ttl r \<and> ttl r \<le> 86400
     \<and> ip_field_ok 4 (detectedIpv4 r) \<and> ip_field_ok 6 (detectedIpv6 r)
     \<and> ip_field_ok 4 (or_empty (publishedIpv4 r)) \<and> ip_field_ok 6 (or_empty (publishedIpv6 r))
     \<and> ipv6State r \<noteq> Cgnat
     \<and> fst ` set (recordValues r) \<subseteq> set (recordTypes r)
     \<and> list_all (\<lambda>t. tracker_ok t (stability r t)) RECORD_TYPES)"

definition address_ok :: "address \<Rightarrow> bool" where
  "address_ok a = (ip_field_ok 4 (addr_ipv4 a) \<and> ip_field_ok 6 (addr_ipv6 a) \<and> addr_ipv6State a \<noteq> Cgnat)"

definition root_ok :: "ddns_root \<Rightarrow> bool" where
  "root_ok rt = ((case address rt of None \<Rightarrow> True | Some a \<Rightarrow> address_ok a) \<and> list_all record_ok (records rt))"

named_theorems ddns_ok_defs \<open>the parts of the record invariant\<close>

lemmas [ddns_ok_defs] = record_ok_def tracker_ok_def types_ok_def RECORD_TYPES_def

lemma text_of_text_of [simp]: "text_of (JStr (text_of v)) = text_of v"
  by (simp add: text_of_def por_def)

lemma text_of_JStr: "text_of (JStr s) = strip s"
  by (simp add: text_of_def por_def)

lemma ip_field_ok_Nil [simp]: "ip_field_ok version []"
  by (simp add: ip_field_ok_def ip_text_def text_of_JStr)

lemma ip_field_ok_ip_text [simp]: "ip_field_ok version (ip_text v version)"
  by (auto simp: ip_field_ok_def ip_text_def Let_def text_of_JStr text_of_text_of [unfolded text_of_JStr]
      split: option.splits)

lemma or_empty_simps [simp]: "or_empty None = []" "or_empty (Some s) = s" "or_empty (none_if_empty s) = s"
  by (auto simp: or_empty_def none_if_empty_def)

lemma ipv6_state_not_cgnat [simp]: "state_in IPV6_STATES s \<noteq> Cgnat"
  by (auto simp: state_in_def IPV6_STATES_def split: option.splits)

lemma safe_int_nonneg [simp]: "0 \<le> safe_int v"
  by (simp add: safe_int_def safe_int_or_def split: option.split)

lemma empty_tracker_ok [simp]: "tracker_ok t empty_tracker"
  by (simp add: tracker_ok_def empty_tracker_def split: rtype.split)

lemma normal_tracker_ok [simp]: "tracker_ok t (normal_tracker v t)"
proof (cases "is_dict v \<and> is_dict (dget (items v) (rtype_str t))")
  case True
  then show ?thesis
    by (cases t) (simp_all add: normal_tracker_def tracker_ok_def Let_def RETRY_DELAYS_def)
next
  case False
  then show ?thesis by (auto simp: normal_tracker_def Let_def)
qed

lemma forget_candidate_ok [simp]: "tracker_ok t k \<Longrightarrow> tracker_ok t (forget_candidate k)"
  by (cases t) (auto simp: tracker_ok_def forget_candidate_def)

lemma clear_retry_ok [simp]: "tracker_ok t k \<Longrightarrow> tracker_ok t (clear_retry k)"
  by (cases t) (auto simp: tracker_ok_def clear_retry_def)

lemma fail_tracker_ok [simp]: "tracker_ok t k \<Longrightarrow> tracker_ok t (fail_tracker now ec k)"
  by (cases t) (auto simp: tracker_ok_def fail_tracker_def RETRY_DELAYS_def Let_def)

lemma normal_types_ok: "types_ok (uniq (normal_types v))"
proof -
  have "normal_types v \<noteq> []" "TCNAME \<in> set (normal_types v) \<Longrightarrow> normal_types v = [TCNAME]"
    by (auto simp: normal_types_def Let_def)
  then show ?thesis by (auto simp: types_ok_def uniq_def)
qed

lemma normal_record_SomeD:
  assumes "normal_record uuid v = Some r"
  shows "map_of PROVIDERS (provider r) \<noteq> None" "recordTypes r = uniq (normal_types (dget (items v) ''recordTypes''))"
    "60 \<le> ttl r" "ttl r \<le> 86400" "ip_field_ok 4 (detectedIpv4 r)" "ip_field_ok 6 (detectedIpv6 r)"
    "ip_field_ok 4 (or_empty (publishedIpv4 r))" "ip_field_ok 6 (or_empty (publishedIpv6 r))"
    "ipv6State r \<noteq> Cgnat" "fst ` set (recordValues r) \<subseteq> set (normal_types (dget (items v) ''recordTypes''))"
    "stability r = normal_tracker (dget (items v) ''stability'')"
  using assms by (auto simp: normal_record_def Let_def split: if_splits)

lemma normal_record_ok: "normal_record uuid v = Some r \<Longrightarrow> record_ok r"
  using normal_record_SomeD [of uuid v r] normal_types_ok by (simp add: record_ok_def RECORD_TYPES_def)

lemma normal_address_ok: "normal_address v = Some a \<Longrightarrow> address_ok a"
  by (auto simp: normal_address_def address_ok_def Let_def split: if_splits)

lemma stamp_address_ok [simp]: "address_ok (stamp_address now p a) = address_ok a"
  by (simp add: stamp_address_def address_ok_def Let_def)

lemma addr_detected_ok:
  "address_ok a \<Longrightarrow> ip_field_ok 4 (addr_detected_of TA a)" "address_ok a \<Longrightarrow> ip_field_ok 6 (addr_detected_of TAAAA a)"
  by (auto simp: address_ok_def)

lemma track_sample_ok:
  assumes "tracker_ok t (stability r t)" "address_ok a" "t = TA \<or> t = TAAAA"
  shows "tracker_ok t (track_sample a sc r t)"
proof -
  let ?k = "stability r t" and ?d = "addr_detected_of t a"
  have "tracker_ok t (?k\<lparr>stableCount := min 2 (max 0 (stableCount ?k) + 1)\<rparr>)"
    using assms(1,3) by (auto simp: tracker_ok_def)
  moreover have "tracker_ok t (?k\<lparr>candidate := ?d, stableCount := 1\<rparr>)"
    using assms addr_detected_ok [OF assms(2)] by (auto simp: tracker_ok_def)
  ultimately show ?thesis
    using assms(1) by (simp add: track_sample_def Let_def)
qed

lemma copy_sample_ok: "record_ok r \<Longrightarrow> address_ok a \<Longrightarrow> record_ok (copy_sample a r)"
  by (simp add: record_ok_def copy_sample_def address_ok_def)

lemma observe_record_ok:
  assumes "record_ok r" "address_ok a"
  shows "record_ok (observe_record a sc r)"
proof -
  have k: "record_ok (copy_sample a r)" using assms by (rule copy_sample_ok)
  then have "tracker_ok TA (track_sample a sc (copy_sample a r) TA)"
    "tracker_ok TAAAA (track_sample a sc (copy_sample a r) TAAAA)"
    using assms(2) by (auto intro!: track_sample_ok simp: record_ok_def RECORD_TYPES_def)
  with k show ?thesis
    by (simp add: observe_record_def Let_def record_ok_def RECORD_TYPES_def split: prod.split)
qed

lemma merge_edit_ok: "record_ok old \<Longrightarrow> record_ok r \<Longrightarrow> record_ok (merge_edit value i old r)"
  by (auto simp: merge_edit_def Let_def record_ok_def)

lemma new_record_ok:
  assumes "record_ok r" "case addr of None \<Rightarrow> True | Some a \<Rightarrow> address_ok a"
  shows "record_ok (new_record addr r)"
  using assms by (auto simp: new_record_def Let_def record_ok_def copy_sample_def address_ok_def split: option.splits)

lemma settle_idle_ok: "record_ok (settle_idle results r) = record_ok r"
  by (auto simp: settle_idle_def Let_def record_ok_def split: option.split)

lemma set_tracker_ok: "record_ok r \<Longrightarrow> tracker_ok t k \<Longrightarrow> record_ok (set_tracker t k r)"
  by (auto simp: record_ok_def set_tracker_def RECORD_TYPES_def)

lemma record_ok_fields [simp]:
  "record_ok (r\<lparr>status := s\<rparr>) = record_ok r" "record_ok (r\<lparr>lastError := e\<rparr>) = record_ok r"
  "record_ok (r\<lparr>lastUpdatedAt := u\<rparr>) = record_ok r" "record_ok (r\<lparr>publishedValues := d\<rparr>) = record_ok r"
  "record_ok (r\<lparr>lastRecordResults := x\<rparr>) = record_ok r"
  by (simp_all add: record_ok_def)

lemma record_ok_tracker: "record_ok r \<Longrightarrow> tracker_ok t (stability r t)"
  by (cases t) (simp_all add: record_ok_def RECORD_TYPES_def)

lemma set_published_ok:
  "record_ok r \<Longrightarrow> t = TA \<or> t = TAAAA \<Longrightarrow> record_ok (set_published t (none_if_empty (detected_of t r)) r)"
  by (elim disjE) (simp_all add: record_ok_def)

lemma stability_set_published [simp]: "stability (set_published t v r) = stability r"
  by (cases t) simp_all

lemma apply_result_ok: "record_ok r \<Longrightarrow> record_ok (apply_result now c tr r)"
  using set_published_ok [of r "fst tr"]
  by (cases tr) (simp add: apply_result_def Let_def record_ok_tracker set_tracker_ok)

lemma settle_ok: "record_ok r \<Longrightarrow> record_ok (settle now c results r)"
proof -
  assume "record_ok r"
  then have "record_ok (fold (apply_result now c) results r)"
    by (induction results arbitrary: r) (auto intro: apply_result_ok)
  then show ?thesis by (simp add: settle_def Let_def)
qed

lemma list_all_replace_first: "list_all P xs \<Longrightarrow> (\<And>x. P x \<Longrightarrow> P (f x)) \<Longrightarrow> list_all P (replace_first Q f xs)"
  by (induction xs) auto

lemma update_first_ok:
  "root_ok (root st) \<Longrightarrow> (\<And>r. record_ok r \<Longrightarrow> record_ok (f r)) \<Longrightarrow> root_ok (root (update_first i f st))"
  by (simp add: update_first_def root_ok_def list_all_replace_first)

lemma root_save_locked [simp]: "root (save_locked st) = root st" "secrets (save_locked st) = secrets st"
  by (simp_all add: save_locked_def)

lemma load_root_ok: "root_ok (load_root uuid file)"
proof -
  have "record_ok (r\<lparr>stability := forget_candidate \<circ> stability r\<rparr>)" if "record_ok r" for r
    using that by (simp add: record_ok_def RECORD_TYPES_def)
  then have "record_ok (r\<lparr>stability := forget_candidate \<circ> stability r\<rparr>)" if "normal_record u x = Some r" for u x r
    using that normal_record_ok by blast
  then show ?thesis
    by (auto simp: load_root_def root_ok_def empty_root_def Let_def list_all_iff map_filter_def
        dest: normal_address_ok split: option.splits json.splits sum.splits)
qed

lemma find_record_ok: "root_ok rt \<Longrightarrow> List.find P (records rt) = Some r \<Longrightarrow> record_ok r"
  by (auto simp: root_ok_def list_all_iff dest: find_SomeD)

lemma save_record_ok:
  assumes "root_ok (root st)" "save_record uuid value i st = Inr (r, st')"
  shows "root_ok (root st')"
proof -
  have *: "list_all record_ok (replace_first P (\<lambda>_. x) rs)" if "record_ok x" "list_all record_ok rs" for P x rs
    using that by (auto intro: list_all_replace_first)
  from assms(2) obtain r0 where r0: "record_ok r0"
    and c: "(\<exists>old. i \<noteq> [] \<and> List.find (\<lambda>o'. rec_id o' = i) (records (root st)) = Some old
          \<and> root st' = (root st)\<lparr>records := replace_first (\<lambda>x. rec_id x = i) (\<lambda>_. merge_edit value i old r0) (records (root st))\<rparr>)
      \<or> root st' = (root st)\<lparr>records := records (root st) @ [new_record (address (root st)) r0]\<rparr>"
    by (auto simp: save_record_def err_simps Let_def dest!: normal_record_ok split: option.splits if_splits)
  from c assms(1) r0 show ?thesis
    by (auto simp: root_ok_def intro!: * merge_edit_ok new_record_ok dest: find_record_ok [OF assms(1)])
qed

lemma accept_address_ok: "root_ok (root st) \<Longrightarrow> root_ok (root (snd (accept_address now v st)))"
  by (auto simp: accept_address_def Let_def root_ok_def list_all_iff dest!: normal_address_ok
      intro: observe_record_ok split: option.split)

lemma begin_update_ok:
  "root_ok (root st) \<Longrightarrow> begin_update now i force st = Inr (b, st') \<Longrightarrow> root_ok (root st')"
  by (auto simp: begin_update_def Let_def settle_idle_ok intro!: update_first_ok split: option.splits if_splits)

lemma finish_update_ok:
  "root_ok (root st) \<Longrightarrow> finish_update now job results st = Inr (b, st') \<Longrightarrow> root_ok (root st')"
  by (auto simp: finish_update_def settle_ok intro!: update_first_ok split: option.splits)

lemma exec_ok: "root_ok (root (fst c)) \<Longrightarrow> root_ok (root (fst (exec ev c)))"
proof (induction ev c rule: exec.induct)
  case (2 uuid val i st jobs)
  then show ?case by (auto intro: save_record_ok split: sum.splits)
next
  case (4 i st jobs)
  then show ?case by (auto simp: delete_ddns_def delete_record_def root_ok_def list_all_iff Let_def split: prod.split)
next
  case (5 now i force st jobs)
  then show ?case by (auto intro: begin_update_ok split: sum.splits begun.splits)
next
  case (6 now sync n st jobs)
  then show ?case by (auto intro: finish_update_ok split: sum.splits)
qed (auto simp: accept_address_ok save_credentials_def split: prod.split)

lemma run_records_ok:
  "list_all record_ok (records (root (fst (run_events evs (open_store uuid state_file secret_file, [])))))"
proof -
  have "root_ok (root (fst (run_events evs (open_store uuid state_file secret_file, []))))"
    by (rule run_events_induct) (auto simp: open_store_def load_root_ok intro: exec_ok)
  then show ?thesis by (simp add: root_ok_def)
qed

text \<open>C5: Whatever sequence of samples, edits, deletions and interleaved updates the store has gone
  through since it was opened on any file at all, every record in it has a known provider, a
  non-empty duplicate-free list of record types in which CNAME stands alone, a TTL of 60..86400
  seconds, address fields that are empty or parse as addresses of the right family, values only for
  its own types, and stability trackers with at most two counted samples and four retry attempts.\<close>

theorem ddns_records_ok:
  "list_all record_ok (records (root (fst (run_events evs (open_store uuid state_file secret_file, [])))))"
  by (rule run_records_ok)

end
