(* ===== verification/DdnsRuns.thy ===== *)
theory DdnsRuns
  imports Ddns
begin

text \<open>
  Properties of the DDNS component over sequences of events: the two-sample stability gate and how it
  can be bypassed, the exactness of publication and the race that breaks it, retry backoff, redaction of
  credentials, durability of the state file and the effect of the request handlers.
\<close>

section \<open>The stability gate\<close>

fun sample_of :: "ddns_event \<Rightarrow> address option" where
  "sample_of (Sample now v) = normal_address v"
| "sample_of _ = None"

definition samples :: "ddns_event list \<Rightarrow> address list" where
  "samples evs = List.map_filter sample_of evs"

text \<open>Every sample has a time stamp of its own, different from that of the sample before.\<close>

fun stamped :: "address list \<Rightarrow> bool" where
  "stamped [] = True"
| "stamped [a] = (detectedAt a \<noteq> 0)"
| "stamped (a # b # as) = (detectedAt a \<noteq> 0 \<and> detectedAt a \<noteq> detectedAt b \<and> stamped (b # as))"

text \<open>A request that creates a record leaves the trackers to the hub.\<close>

fun plain_edit :: "ddns_event \<Rightarrow> bool" where
  "plain_edit (Edit uuid value i) = (i \<noteq> [] \<or> map_of value ''stability'' = None)"
| "plain_edit _ = True"

text \<open>
  The tracker of a type against the samples, newest first: a count of one or two is a count of
  trailing samples that all saw the candidate as a public address.
\<close>

definition saw :: "rtype \<Rightarrow> string \<Rightarrow> address \<Rightarrow> bool" where
  "saw t v a = (addr_state_of t a = Public \<and> addr_detected_of t a = v)"

definition counted :: "address list \<Rightarrow> rtype \<Rightarrow> tracker \<Rightarrow> bool" where
  "counted hist t k = (0 \<le> stableCount k \<and> (stableCount k = 0 \<longrightarrow> candidate k = [])
     \<and> nat (stableCount k) \<le> length hist
     \<and> list_all (saw t (candidate k)) (take (nat (stableCount k)) hist))"

definition gate_record :: "address list \<Rightarrow> ddns_record \<Rightarrow> bool" where
  "gate_record hist r = (counted hist TA (stability r TA) \<and> counted hist TAAAA (stability r TAAAA)
     \<and> (\<forall>a as. hist = a # as \<longrightarrow> (\<forall>t \<in> {TA, TAAAA}. state_of t r = addr_state_of t a \<and> detected_of t r = addr_detected_of t a)))"

definition gate :: "address list \<Rightarrow> ddns_store \<Rightarrow> bool" where
  "gate hist st = (list_all (gate_record hist) (records (root st))
     \<and> (\<forall>a as. hist = a # as \<longrightarrow> address (root st) = Some a))"

lemma counted_empty [simp]: "counted hist t empty_tracker"
  by (simp add: counted_def empty_tracker_def)

lemma counted_forget [simp]: "counted hist t (forget_candidate k)"
  by (simp add: counted_def forget_candidate_def)

lemma counted_clear_retry [simp]: "counted hist t (clear_retry k) = counted hist t k"
  by (simp add: counted_def clear_retry_def)

lemma counted_fail [simp]: "counted hist t (fail_tracker now ec k) = counted hist t k"
  by (simp add: counted_def fail_tracker_def Let_def)

lemma counted_no_hist: "counted [] t k \<Longrightarrow> stableCount k = 0"
  by (simp add: counted_def)

lemma counted_track:
  assumes "counted hist t (stability r t)"
  shows "counted (a # hist) t (track_sample a True r t)"
proof -
  let ?k = "stability r t" and ?d = "addr_detected_of t a"
  let ?n = "nat (stableCount ?k)"
  have k: "0 \<le> stableCount ?k" "?n \<le> length hist" "list_all (saw t (candidate ?k)) (take ?n hist)"
    "stableCount ?k = 0 \<Longrightarrow> candidate ?k = []"
    using assms by (auto simp: counted_def)
  have "counted (a # hist) t (?k\<lparr>stableCount := min 2 (max 0 (stableCount ?k) + 1)\<rparr>)"
    if "addr_state_of t a = Public" "?d \<noteq> []" "candidate ?k = ?d"
  proof -
    have n: "nat (min 2 (max 0 (stableCount ?k) + 1)) = Suc (min 1 ?n)" using k(1) by linarith
    have "list_all (saw t ?d) (take (min 1 ?n) hist)"
      using k(3) that(3) by (metis append_take_drop_id list_all_append min.commute take_take)
    with n k that show ?thesis by (simp add: counted_def saw_def min_def)
  qed
  moreover have "counted (a # hist) t (?k\<lparr>candidate := ?d, stableCount := 1\<rparr>)"
    if "addr_state_of t a = Public"
    using that by (simp add: counted_def saw_def)
  ultimately show ?thesis by (simp add: track_sample_def Let_def)
qed

lemma track_unchanged: "track_sample a False r t = stability r t"
  by (simp add: track_sample_def)

lemma observe_fields:
  "stability (observe_record a sc r) TA = track_sample a sc (copy_sample a r) TA"
  "stability (observe_record a sc r) TAAAA = track_sample a sc (copy_sample a r) TAAAA"
  "state_of t (observe_record a sc r) = addr_state_of t a"
  "detected_of t (observe_record a sc r) = addr_detected_of t a"
  by (cases t; simp add: observe_record_def copy_sample_def Let_def split: prod.split)+

lemma stability_copy [simp]: "stability (copy_sample a r) = stability r"
  by (simp add: copy_sample_def)

lemma gate_observe:
  assumes "gate_record hist r" and "sc \<or> hist = []"
  shows "gate_record (a # hist) (observe_record a sc r)"
proof (cases sc)
  case True
  with assms show ?thesis
    by (auto simp: gate_record_def observe_fields intro: counted_track [of _ _ "copy_sample a r", simplified])
next
  case False
  with assms have "counted [] t (stability r t)" if "t \<in> {TA, TAAAA}" for t
    using that by (auto simp: gate_record_def)
  then have "counted [a] t (stability r t)" if "t \<in> {TA, TAAAA}" for t
    using that by (fastforce simp: counted_def)
  with False assms show ?thesis by (auto simp: gate_record_def observe_fields track_unchanged)
qed

lemma stamp_nonzero [simp]: "detectedAt a \<noteq> 0 \<Longrightarrow> stamp_address now p a = a"
  by (simp add: stamp_address_def)

lemma gate_accept:
  assumes g: "gate hist st" and a: "normal_address v = Some a" "detectedAt a \<noteq> 0"
    and d: "\<And>b as. hist = b # as \<Longrightarrow> detectedAt b \<noteq> detectedAt a"
  shows "gate (a # hist) (snd (accept_address now v st))"
proof -
  let ?sc = "map_option detectedAt (address (root st)) \<noteq> Some (detectedAt a)"
  have "?sc \<or> hist = []"
    using g d by (cases hist) (auto simp: gate_def)
  then have "list_all (gate_record (a # hist)) (map (observe_record a ?sc) (records (root st)))"
    using g by (auto simp: gate_def list_all_iff intro: gate_observe)
  then show ?thesis
    using a by (simp add: accept_address_def Let_def gate_def)
qed

lemma gate_record_cong:
  assumes "gate_record hist r" "stability r' = stability r" "ipv4State r' = ipv4State r" "ipv6State r' = ipv6State r"
    "detectedIpv4 r' = detectedIpv4 r" "detectedIpv6 r' = detectedIpv6 r"
  shows "gate_record hist r'"
  using assms by (simp add: gate_record_def)

lemma gate_merge: "gate_record hist old \<Longrightarrow> gate_record hist (merge_edit value i old r)"
  by (erule gate_record_cong) (simp_all add: merge_edit_def Let_def)

lemma gate_new:
  assumes "\<And>t. stability r t = empty_tracker" "\<forall>a as. hist = a # as \<longrightarrow> addr = Some a"
  shows "gate_record hist (new_record addr r)"
  using assms by (auto simp: gate_record_def new_record_def Let_def copy_sample_def split: option.split)

lemma normal_record_fresh: "normal_record uuid (JObj value) = Some r \<Longrightarrow> map_of value ''stability'' = None
    \<Longrightarrow> stability r t = empty_tracker"
  using normal_record_SomeD(11) [of uuid "JObj value" r]
  by (simp add: dget_def dget_or_def normal_tracker_def)

lemma gate_settle_idle: "gate_record hist r \<Longrightarrow> gate_record hist (settle_idle results r)"
  by (erule gate_record_cong) (auto simp: settle_idle_def Let_def split: option.split)

lemma gate_record_fields [simp]:
  "gate_record hist (r\<lparr>status := s\<rparr>) = gate_record hist r" "gate_record hist (r\<lparr>lastError := e\<rparr>) = gate_record hist r"
  "gate_record hist (r\<lparr>lastUpdatedAt := u\<rparr>) = gate_record hist r"
  "gate_record hist (r\<lparr>publishedValues := d\<rparr>) = gate_record hist r"
  "gate_record hist (r\<lparr>publishedIpv4 := p\<rparr>) = gate_record hist r"
  "gate_record hist (r\<lparr>publishedIpv6 := p\<rparr>) = gate_record hist r"
  "gate_record hist (r\<lparr>lastRecordResults := x\<rparr>) = gate_record hist r"
  by (simp_all add: gate_record_def)

lemma gate_set_tracker:
  "gate_record hist r \<Longrightarrow> t \<in> {TA, TAAAA} \<longrightarrow> counted hist t k \<Longrightarrow> gate_record hist (set_tracker t k r)"
  by (cases t) (auto simp: gate_record_def set_tracker_def)

lemma gate_apply: "gate_record hist r \<Longrightarrow> gate_record hist (apply_result now c tr r)"
proof -
  assume g: "gate_record hist r"
  then have "t \<in> {TA, TAAAA} \<longrightarrow> counted hist t (stability r t)" for t
    by (auto simp: gate_record_def)
  with g show ?thesis
    by (cases "fst tr"; cases tr) (simp_all add: apply_result_def Let_def gate_set_tracker)
qed

lemma gate_settle: "gate_record hist r \<Longrightarrow> gate_record hist (settle now c results r)"
proof -
  assume "gate_record hist r"
  then have "gate_record hist (fold (apply_result now c) results r)"
    by (induction results arbitrary: r) (auto intro: gate_apply)
  then show ?thesis by (simp add: settle_def Let_def)
qed

lemma gate_update_first:
  "gate hist st \<Longrightarrow> (\<And>r. gate_record hist r \<Longrightarrow> gate_record hist (f r)) \<Longrightarrow> gate hist (update_first i f st)"
  by (simp add: update_first_def gate_def list_all_replace_first)

lemma gate_root_cong: "root st = root st' \<Longrightarrow> gate hist st = gate hist st'"
  by (simp add: gate_def)

lemma gate_save_locked [simp]: "gate hist (save_locked st) = gate hist st"
  by (rule gate_root_cong) simp

lemma gate_save_record:
  assumes g: "gate hist st" and s: "save_record uuid value i st = Inr (r, st')"
    and p: "i \<noteq> [] \<or> map_of value ''stability'' = None"
  shows "gate hist st'"
proof -
  from s obtain r0 where r0: "normal_record uuid (JObj value) = Some r0"
    and c: "(\<exists>old. List.find (\<lambda>x. rec_id x = i) (records (root st)) = Some old
          \<and> root st' = (root st)\<lparr>records := replace_first (\<lambda>x. rec_id x = i) (\<lambda>_. merge_edit value i old r0) (records (root st))\<rparr>)
      \<or> i = [] \<and> root st' = (root st)\<lparr>records := records (root st) @ [new_record (address (root st)) r0]\<rparr>"
    by (auto simp: save_record_def err_simps Let_def split: option.splits if_splits)
  show ?thesis
  proof (cases "i = [] \<and> root st' = (root st)\<lparr>records := records (root st) @ [new_record (address (root st)) r0]\<rparr>")
    case True
    then show ?thesis
      using g p normal_record_fresh [OF r0] by (auto simp: gate_def intro!: gate_new)
  next
    case False
    with c obtain old where old: "List.find (\<lambda>x. rec_id x = i) (records (root st)) = Some old"
      and st': "root st' = (root st)\<lparr>records := replace_first (\<lambda>x. rec_id x = i) (\<lambda>_. merge_edit value i old r0) (records (root st))\<rparr>"
      by blast
    have "gate_record hist (merge_edit value i old r0)"
      using g find_SomeD [OF old] by (auto simp: gate_def list_all_iff intro: gate_merge)
    with g st' show ?thesis by (auto simp: gate_def intro: list_all_replace_first)
  qed
qed

lemma gate_begin: "gate hist st \<Longrightarrow> begin_update now i force st = Inr (b, st') \<Longrightarrow> gate hist st'"
  by (auto simp: begin_update_def Let_def intro!: gate_update_first gate_settle_idle split: option.splits if_splits)

lemma gate_finish: "gate hist st \<Longrightarrow> finish_update now job results st = Inr (b, st') \<Longrightarrow> gate hist st'"
  by (auto simp: finish_update_def intro!: gate_update_first gate_settle split: option.splits)

lemma gate_other:
  assumes "gate hist (fst c)" "plain_edit ev" "sample_of ev = None"
  shows "gate hist (fst (exec ev c))"
  using assms
proof (induction ev c rule: exec.induct)
  case (1 now v st jobs)
  then show ?case by (simp add: accept_address_def)
next
  case (2 uuid val i st jobs)
  then show ?case by (auto intro: gate_save_record split: sum.splits)
next
  case (3 i d st jobs)
  then show ?case by (auto simp: save_credentials_def gate_def split: prod.split)
next
  case (4 i st jobs)
  then show ?case by (auto simp: delete_ddns_def delete_record_def gate_def list_all_iff Let_def split: prod.split)
next
  case (5 now i force st jobs)
  then show ?case by (auto intro: gate_begin split: sum.splits begun.splits)
next
  case (6 now sync n st jobs)
  then show ?case by (auto intro: gate_finish split: sum.splits)
qed

lemma samples_snoc: "samples (evs @ [ev]) = samples evs @ (case sample_of ev of None \<Rightarrow> [] | Some a \<Rightarrow> [a])"
  by (simp add: samples_def map_filter_def split: option.split)

lemma stamped_snoc:
  "stamped (as @ [a]) \<Longrightarrow> stamped as \<and> detectedAt a \<noteq> 0 \<and> (\<forall>b bs. rev as = b # bs \<longrightarrow> detectedAt b \<noteq> detectedAt a)"
proof (induction as rule: stamped.induct)
  case (3 x y zs)
  then show ?case by (cases zs rule: rev_cases) auto
qed auto

lemma gate_initial: "gate [] (open_store uuid state_file secret_file)"
proof -
  have "gate_record [] (r\<lparr>stability := forget_candidate \<circ> stability r\<rparr>)" for r
    by (simp add: gate_record_def)
  then show ?thesis
    by (auto simp: gate_def open_store_def load_root_def empty_root_def Let_def list_all_iff
        split: option.split json.split sum.split)
qed

lemma gate_run:
  assumes "stamped (samples evs)" "list_all plain_edit evs"
  shows "gate (rev (samples evs)) (fst (run_events evs (open_store uuid state_file secret_file, [])))"
  using assms
proof (induction evs rule: rev_induct)
  case Nil
  then show ?case by (simp add: samples_def run_events_def gate_initial map_filter_def)
next
  case (snoc ev evs)
  let ?c = "run_events evs (open_store uuid state_file secret_file, [])"
  have run: "run_events (evs @ [ev]) (open_store uuid state_file secret_file, []) = exec ev ?c"
    by (simp add: run_events_def)
  show ?case
  proof (cases "sample_of ev")
    case None
    with snoc show ?thesis by (simp add: run samples_snoc gate_other)
  next
    case (Some a)
    then obtain now v where ev: "ev = Sample now v" and v: "normal_address v = Some a"
      by (cases ev) auto
    from snoc.prems Some have "stamped (samples evs @ [a])" by (simp add: samples_snoc)
    note st = stamped_snoc [OF this]
    then have "gate (rev (samples evs)) (fst ?c)" using snoc by simp
    then have "gate (a # rev (samples evs)) (snd (accept_address now v (fst ?c)))"
      using st v by (intro gate_accept) auto
    then show ?thesis using ev Some unfolding run by (cases ?c) (simp add: samples_snoc)
  qed
qed

lemma plan_work_addressD:
  assumes "(t, v) \<in> set (plan_work now force ps r)" "t = TA \<or> t = TAAAA"
  shows "v = detected_of t r" "state_of t r = Public" "2 \<le> stableCount (stability r t)"
  using assms by (auto simp: plan_work_def plan_of_def plan_address_def Let_def split: sum.splits if_splits)

text \<open>C6: Two-sample gate. When every sample of the relay carries its own time stamp and clients
  do not submit tracker state, an address is handed to a DNS provider, forced or not, only if the two latest
  samples both saw exactly this address as public, whatever edits, deletions and concurrent updates
  happened in between and whatever the state file held at start-up.\<close>

theorem stability_gate:
  assumes "stamped (samples evs)" and "list_all plain_edit evs"
    and "r \<in> set (records (root (fst (run_events evs (open_store uuid state_file secret_file, [])))))"
    and "(t, v) \<in> set (plan_work now force ps r)" and "t = TA \<or> t = TAAAA"
  shows "\<exists>a b older. rev (samples evs) = a # b # older \<and> saw t v a \<and> saw t v b"
proof -
  let ?h = "rev (samples evs)"
  have g: "gate_record ?h r" using gate_run [OF assms(1,2)] assms(3) by (auto simp: gate_def list_all_iff)
  let ?k = "stability r t"
  have w: "v = detected_of t r" "2 \<le> stableCount ?k" using plan_work_addressD [OF assms(4,5)] by auto
  have c: "counted ?h t ?k" using g assms(5) by (auto simp: gate_record_def)
  have "2 \<le> nat (stableCount ?k)" using w by linarith
  then obtain m where n: "nat (stableCount ?k) = Suc (Suc m)" by (metis add_2_eq_Suc le_Suc_ex)
  with c have "Suc (Suc 0) \<le> length ?h" by (simp add: counted_def)
  then obtain a b older where h: "?h = a # b # older" by (metis Suc_le_length_iff)
  from c h n have "saw t (candidate ?k) a" "saw t (candidate ?k) b" by (simp_all add: counted_def)
  moreover have "detected_of t r = addr_detected_of t a" using g h assms(5) by (auto simp: gate_record_def)
  ultimately show ?thesis using h w by (auto simp: saw_def)
qed

definition demo_obs :: "int \<Rightarrow> string \<Rightarrow> json" where
  "demo_obs d ip = JObj [(''detectedIpv4'', JStr ip), (''ipv4State'', JStr ''public''), (''detectedAt'', JInt d)]"

definition demo_new :: ddns_event where
  "demo_new = Edit ''u'' [(''provider'', JStr ''dynv6''), (''hostname'', JStr ''h.x'')] []"

definition demo_run :: "ddns_event list \<Rightarrow> ddns_config" where
  "demo_run evs = run_events evs (open_store (\<lambda>_. ''u'') None None, [])"

definition demo_rec :: "ddns_event list \<Rightarrow> ddns_record" where
  "demo_rec evs = hd (records (root (fst (demo_run evs))))"

definition demo_two :: "ddns_event list" where
  "demo_two = [demo_new, Sample 7 (demo_obs 7 ''1.2.3.4''), Sample 8 (demo_obs 8 ''1.2.3.4'')]"

lemma demo_rec_in: "records (root (fst (demo_run evs))) \<noteq> [] \<Longrightarrow> demo_rec evs \<in> set (records (root (fst (demo_run evs))))"
  by (simp add: demo_rec_def)

theorem stability_gate_witness:
  "\<exists>a b older. rev (samples demo_two) = a # b # older \<and> saw TA ''1.2.3.4'' a \<and> saw TA ''1.2.3.4'' b"
proof (rule stability_gate [where r = "demo_rec demo_two" and now = 9 and force = False
      and ps = "spec ''dynv6'' [''token''] False False" and uuid = "\<lambda>_. ''u''" and state_file = None and secret_file = None])
  show "stamped (samples demo_two)" by code_simp
  show "list_all plain_edit demo_two" by code_simp
  show "demo_rec demo_two \<in> set (records (root (fst (run_events demo_two (open_store (\<lambda>_. ''u'') None None, [])))))"
    by (rule demo_rec_in [of demo_two, unfolded demo_run_def]) code_simp
  show "(TA, ''1.2.3.4'') \<in> set (plan_work 9 False (spec ''dynv6'' [''token''] False False) (demo_rec demo_two))"
    by code_simp
qed simp

text \<open>The gate does not hold for samples without a time stamp of their own. A relay that saw
  1.2.3.4 twice and then reports 5.6.7.8 once without \<open>detectedAt\<close> (it inherits the previous
  stamp, so the sample does not count as new) gets 5.6.7.8 published after this single observation.\<close>

theorem unstamped_sample_bypasses_gate:
  "plan_work 9 False (spec ''dynv6'' [''token''] False False)
     (demo_rec (demo_two @ [Sample 9 (demo_obs 0 ''5.6.7.8'')])) = [(TA, ''5.6.7.8'')]"
  by code_simp

section \<open>Publication\<close>

text \<open>What a record says is published for a type, and what it wants published.\<close>

definition published_text :: "rtype \<Rightarrow> ddns_record \<Rightarrow> string" where
  "published_text t r = (if t = TA \<or> t = TAAAA then or_empty (published_of t r) else value_of (publishedValues r) t)"

definition wanted_text :: "rtype \<Rightarrow> ddns_record \<Rightarrow> string" where
  "wanted_text t r = (if t = TA \<or> t = TAAAA then detected_of t r else value_of (recordValues r) t)"

lemma wanted_simps [simp]:
  "wanted_text t (set_tracker t' k r) = wanted_text t r" "wanted_text t (r\<lparr>lastError := e\<rparr>) = wanted_text t r"
  "wanted_text t (r\<lparr>lastUpdatedAt := u\<rparr>) = wanted_text t r" "wanted_text t (r\<lparr>publishedValues := d\<rparr>) = wanted_text t r"
  "wanted_text t (set_published t' p r) = wanted_text t r"
  by (cases t; cases t'; simp add: wanted_text_def set_tracker_def)+

lemma published_simps [simp]:
  "published_text t (set_tracker t' k r) = published_text t r" "published_text t (r\<lparr>lastError := e\<rparr>) = published_text t r"
  "published_text t (r\<lparr>lastUpdatedAt := u\<rparr>) = published_text t r"
  "published_text t (r\<lparr>status := s\<rparr>) = published_text t r"
  "published_text t (r\<lparr>lastRecordResults := x\<rparr>) = published_text t r"
  by (cases t; simp add: published_text_def set_tracker_def)+

lemma apply_result_wanted [simp]: "wanted_text t (apply_result now c tr r) = wanted_text t r"
  by (cases tr) (simp add: apply_result_def Let_def)

lemma apply_result_other:
  assumes "t \<noteq> fst tr"
  shows "published_text t (apply_result now c tr r) = published_text t r"
    and "stability (apply_result now c tr r) t = stability r t"
proof -
  have "published_text t (set_published t' p r) = published_text t r" if "t' = TA \<or> t' = TAAAA" "t \<noteq> t'" for t' p
    using that by (cases t) (auto simp: published_text_def)
  moreover have "published_text t (r\<lparr>publishedValues := dset t' p (publishedValues r)\<rparr>) = published_text t r"
    if "t \<noteq> t'" for t' p
    using that by (cases t) (auto simp: published_text_def value_of_def)
  ultimately show "published_text t (apply_result now c tr r) = published_text t r"
    using assms by (cases tr) (auto simp: apply_result_def Let_def)
  show "stability (apply_result now c tr r) t = stability r t"
    using assms by (cases tr) (auto simp: apply_result_def Let_def set_tracker_def)
qed

lemma apply_result_same:
  "published_text t (apply_result now c (t, x) r) = (if success x then wanted_text t r else published_text t r)"
  by (cases t) (auto simp: apply_result_def Let_def published_text_def wanted_text_def value_of_def set_tracker_def)

lemma fold_apply_other:
  assumes "t \<notin> fst ` set results"
  shows "published_text t (fold (apply_result now c) results r) = published_text t r"
    and "stability (fold (apply_result now c) results r) t = stability r t"
  using assms by (induction results arbitrary: r) (auto simp: apply_result_other)

lemma fold_apply_wanted: "wanted_text t (fold (apply_result now c) results r) = wanted_text t r"
  by (induction results arbitrary: r) auto

text \<open>Each type is settled by its own result alone.\<close>

lemma fold_apply_split:
  assumes "(t, x) \<in> set results" "distinct (map fst results)"
  obtains pre post where "results = pre @ (t, x) # post" "t \<notin> fst ` set pre" "t \<notin> fst ` set post"
  using assms by (auto dest!: split_list)

lemma settle_published:
  assumes "(t, x) \<in> set results" "distinct (map fst results)"
  shows "published_text t (settle now c results r) = (if success x then wanted_text t r else published_text t r)"
proof -
  obtain pre post where p: "results = pre @ (t, x) # post" "t \<notin> fst ` set pre" "t \<notin> fst ` set post"
    using fold_apply_split [OF assms] .
  have "published_text t (settle now c results r) = published_text t (fold (apply_result now c) results r)"
    by (simp add: settle_def Let_def)
  then show ?thesis
    using p by (simp add: fold_apply_other apply_result_same fold_apply_wanted)
qed

lemma settle_tracker:
  assumes "(t, x) \<in> set results" "distinct (map fst results)" "\<not> success x" "\<not> is_pending_status (res_status x)"
  shows "stability (settle now c results r) t = fail_tracker now (strip (errorCode x)) (stability r t)"
proof -
  obtain pre post where p: "results = pre @ (t, x) # post" "t \<notin> fst ` set pre" "t \<notin> fst ` set post"
    using fold_apply_split [OF assms(1,2)] .
  have "stability (apply_result now c (t, x) r') t = fail_tracker now (strip (errorCode x)) (stability r' t)" for r'
    using assms(3,4) by (simp add: apply_result_def Let_def set_tracker_def)
  moreover have "stability (settle now c results r) t = stability (fold (apply_result now c) results r) t"
    by (simp add: settle_def Let_def)
  ultimately show ?thesis using p by (simp add: fold_apply_other)
qed

lemma plan_keys:
  "map fst (plan_results now force ps r) = filter (\<lambda>t. isl (plan_of now force ps r t)) (planned r)"
  "map fst (plan_work now force ps r) = filter (\<lambda>t. \<not> isl (plan_of now force ps r t)) (planned r)"
proof -
  have "map fst (concat (map (\<lambda>t. case p t of Inl x \<Rightarrow> [(t, x)] | Inr _ \<Rightarrow> []) ts)) = filter (\<lambda>t. isl (p t)) ts"
    for p :: "rtype \<Rightarrow> result + string" and ts
    by (induction ts) (auto split: sum.split)
  moreover have "map fst (concat (map (\<lambda>t. case p t of Inl _ \<Rightarrow> [] | Inr v \<Rightarrow> [(t, v)]) ts)) = filter (\<lambda>t. \<not> isl (p t)) ts"
    for p :: "rtype \<Rightarrow> result + string" and ts
    by (induction ts) (auto split: sum.split)
  ultimately show "map fst (plan_results now force ps r) = filter (\<lambda>t. isl (plan_of now force ps r t)) (planned r)"
    "map fst (plan_work now force ps r) = filter (\<lambda>t. \<not> isl (plan_of now force ps r t)) (planned r)"
    by (simp_all add: plan_results_def plan_work_def)
qed

lemma plan_keys_distinct: "distinct (map fst (plan_results now force ps r) @ map fst (plan_work now force ps r))"
  by (auto simp: plan_keys planned_def RECORD_TYPES_def)

lemma map_fst_call: "map fst (map (call_provider sync job) w) = map fst w"
  by (auto simp: call_provider_def Let_def split: prod.split)

lemma find_replace_first:
  "List.find P xs = Some x \<Longrightarrow> P (f x) \<Longrightarrow> List.find P (replace_first P f xs) = Some (f x)"
  by (induction xs) (auto split: if_splits)

lemma find_update_first:
  "List.find (\<lambda>r. rec_id r = i) (records (root st)) = Some r \<Longrightarrow> rec_id (f r) = i
    \<Longrightarrow> List.find (\<lambda>r. rec_id r = i) (records (root (update_first i f st))) = Some (f r)"
  by (simp add: update_first_def find_replace_first)

lemma rec_id_settle [simp]: "rec_id (settle now c results r) = rec_id r"
proof -
  have "rec_id (apply_result now c tr r) = rec_id r" for tr r
    by (cases tr; cases "fst tr") (auto simp: apply_result_def Let_def set_tracker_def)
  then have "rec_id (fold (apply_result now c) results r) = rec_id r"
    by (induction results arbitrary: r) auto
  then show ?thesis by (simp add: settle_def Let_def)
qed

definition accepted :: "sync \<Rightarrow> provider_spec \<Rightarrow> ddns_record \<Rightarrow> creds \<Rightarrow> rtype \<Rightarrow> string \<Rightarrow> bool" where
  "accepted sync ps r c t v = (case sync (spec_id ps) (hostname r) t v (ttl r) c of None \<Rightarrow> False | Some x \<Rightarrow> pr_ok x)"

lemma plan_work_wanted: "(t, v) \<in> set (plan_work now force ps r) \<Longrightarrow> v = wanted_text t r"
  by (auto simp: plan_work_def plan_of_def plan_address_def plan_value_def Let_def wanted_text_def
      split: sum.splits if_splits)

text \<open>An update that runs to completion without interference records exactly what the provider
  accepted: for each type that was due, the published value becomes the value sent when the provider
  answers with success, and stays what it was when the provider refuses or fails.\<close>

theorem run_update_publishes:
  assumes "List.find (\<lambda>r. rec_id r = i) (records (root st)) = Some r" and "enabled r"
    and "map_of PROVIDERS (provider r) = Some ps" and "(t, v) \<in> set (plan_work now force ps r)"
  shows "\<exists>reply st' r'. run_update sync now now' i force st = Inr (reply, st')
    \<and> List.find (\<lambda>r. rec_id r = i) (records (root st')) = Some r'
    \<and> published_text t r' = (if accepted sync ps r (secrets_get i (secrets st)) t v then v else published_text t r)"
proof -
  let ?c = "secrets_get i (secrets st)"
  let ?job = "\<lparr>job_id = i, job_provider = spec_id ps, job_hostname = hostname r, job_ttl = ttl r,
    job_creds = ?c, job_work = plan_work now force ps r, job_results = plan_results now force ps r\<rparr>"
  let ?r1 = "r\<lparr>status := Updating\<rparr>" and ?st1 = "save_locked (update_first i (\<lambda>r. r\<lparr>status := Updating\<rparr>) st)"
  let ?res = "run_work sync ?job"
  have id: "rec_id r = i" using find_SomeD [OF assms(1)] by simp
  have b: "begin_update now i force st = Inr (Pending ?job, ?st1)"
    using assms by (auto simp: begin_update_def Let_def)
  have f1: "List.find (\<lambda>r. rec_id r = i) (records (root ?st1)) = Some ?r1"
    using find_update_first [OF assms(1), of "\<lambda>r. r\<lparr>status := Updating\<rparr>"] id by simp
  let ?x = "snd (call_provider sync ?job (t, v))"
  have "call_provider sync ?job (t, v) \<in> set ?res" using assms(4) by (simp add: run_work_def)
  then have x: "(t, ?x) \<in> set ?res" by (simp add: call_provider_def Let_def)
  have ok: "success ?x = accepted sync ps r ?c t v"
    by (simp add: call_provider_def accepted_def Let_def split: option.split)
  have d: "distinct (map fst ?res)"
    by (simp only: run_work_def map_append map_fst_call update_job.simps plan_keys_distinct)
  let ?r2 = "settle now' ?c ?res ?r1"
  have f2: "List.find (\<lambda>r. rec_id r = i) (records (root (save_locked (update_first i (settle now' ?c ?res) ?st1)))) = Some ?r2"
    using find_update_first [OF f1, of "settle now' ?c ?res"] id by simp
  have "wanted_text t ?r1 = v"
    using plan_work_wanted [OF assms(4)] by (cases t) (simp_all add: wanted_text_def)
  then have "published_text t ?r2 = (if accepted sync ps r ?c t v then v else published_text t r)"
    using settle_published [OF x d, of now' ?c ?r1] ok by simp
  with b f1 f2 show ?thesis by (simp add: run_update_def finish_update_def)
qed

theorem run_update_publishes_witness:
  "\<exists>reply st' r'. run_update (\<lambda>_ _ _ _ _ _. None) 9 9 ''u'' False (fst (demo_run demo_two)) = Inr (reply, st')
    \<and> List.find (\<lambda>r. rec_id r = ''u'') (records (root st')) = Some r'
    \<and> published_text TA r' = (if accepted (\<lambda>_ _ _ _ _ _. None) (spec ''dynv6'' [''token''] False False) (demo_rec demo_two)
          (secrets_get ''u'' (secrets (fst (demo_run demo_two)))) TA ''1.2.3.4'' then ''1.2.3.4''
        else published_text TA (demo_rec demo_two))"
proof (rule run_update_publishes)
  show "List.find (\<lambda>r. rec_id r = ''u'') (records (root (fst (demo_run demo_two)))) = Some (demo_rec demo_two)"
  proof -
    have "records (root (fst (demo_run demo_two))) \<noteq> []" "rec_id (demo_rec demo_two) = ''u''" by code_simp+
    then show ?thesis by (cases "records (root (fst (demo_run demo_two)))") (simp_all add: demo_rec_def)
  qed
  show "enabled (demo_rec demo_two)" by code_simp
  show "map_of PROVIDERS (provider (demo_rec demo_two)) = Some (spec ''dynv6'' [''token''] False False)" by code_simp
  show "(TA, ''1.2.3.4'') \<in> set (plan_work 9 False (spec ''dynv6'' [''token''] False False) (demo_rec demo_two))" by code_simp
qed

definition accept_all :: sync where
  "accept_all p h t v l c = Some \<lparr>pr_ok = True, pr_error = [], pr_provider = [], pr_record_id = [], pr_changed = True,
     pr_error_code = [], pr_error_message = []\<rparr>"

definition demo_race :: "ddns_event list" where
  "demo_race = demo_two @ [Begin 9 ''u'' False, Sample 9 (demo_obs 9 ''5.6.7.8''), Finish 9 accept_all 0]"

text \<open>With a sample between the two critical sections the bookkeeping goes wrong. An update sends
  1.2.3.4 to the provider; before it finishes, a sample brings 5.6.7.8; the finished update then
  records 5.6.7.8 as published although it was never sent, and later samples of 5.6.7.8 are not
  published any more.\<close>

theorem sample_during_update_misreported:
  "map job_work (snd (demo_run (take 4 demo_race))) = [[(TA, ''1.2.3.4'')]]
   \<and> publishedIpv4 (demo_rec demo_race) = Some ''5.6.7.8''
   \<and> plan_work 12 False (spec ''dynv6'' [''token''] False False)
       (demo_rec (demo_race @ [Sample 10 (demo_obs 10 ''5.6.7.8''), Sample 11 (demo_obs 11 ''5.6.7.8'')])) = []"
proof (intro conjI)
  show "map job_work (snd (demo_run (take 4 demo_race))) = [[(TA, ''1.2.3.4'')]]" by code_simp
  show "publishedIpv4 (demo_rec demo_race) = Some ''5.6.7.8''" by code_simp
  show "plan_work 12 False (spec ''dynv6'' [''token''] False False)
       (demo_rec (demo_race @ [Sample 10 (demo_obs 10 ''5.6.7.8''), Sample 11 (demo_obs 11 ''5.6.7.8'')])) = []" by code_simp
qed

section \<open>Retries\<close>

lemma fail_tracker_schedule:
  assumes "0 \<le> retryAttempt k" "retryAttempt k \<le> 4" "ec \<notin> set AUTH_CODES"
  shows "nextRetryAt (fail_tracker now ec k) = now + RETRY_DELAYS ! nat (min (retryAttempt k) 3)"
  using assms by (simp add: fail_tracker_def RETRY_DELAYS_def Let_def min_def)

text \<open>
  A later sample tells the tracker of a type nothing new: it is no new sample, or it sees the address
  the tracker already counts, in public and still unpublished.
\<close>

definition nothing_new :: "rtype \<Rightarrow> ddns_record \<Rightarrow> address \<times> bool \<Rightarrow> bool" where
  "nothing_new t r = (\<lambda>(a, fresh). \<not> fresh
     \<or> saw t (candidate (stability r t)) a \<and> candidate (stability r t) \<noteq> []
       \<and> candidate (stability r t) \<noteq> or_empty (published_of t r))"

definition observe_all :: "(address \<times> bool) list \<Rightarrow> ddns_record \<Rightarrow> ddns_record" where
  "observe_all sc r = fold (\<lambda>(a, fresh). observe_record a fresh) sc r"

definition held_back :: "int \<Rightarrow> rtype \<Rightarrow> ddns_record \<Rightarrow> ddns_record \<Rightarrow> bool" where
  "held_back later t r r' = (candidate (stability r' t) = candidate (stability r t)
     \<and> or_empty (published_of t r') = or_empty (published_of t r)
     \<and> (authError (stability r' t) \<or> later < nextRetryAt (stability r' t)))"

lemma held_back_not_due: "held_back later t r r' \<Longrightarrow> t \<notin> set (due_types later r')"
  by (auto simp: held_back_def due_types_def type_ready_def Let_def)

lemma published_observe: "published_of t (observe_record a fresh r) = published_of t r"
  by (cases t) (simp_all add: observe_record_def copy_sample_def Let_def split: prod.split)

lemma published_copy: "published_of t (copy_sample a r) = published_of t r" "recordTypes (copy_sample a r) = recordTypes r"
  by (cases t) (simp_all add: copy_sample_def)

lemma track_nothing_new:
  assumes "nothing_new t r (a, fresh)" "candidate (stability r' t) = candidate (stability r t)"
    "or_empty (published_of t r') = or_empty (published_of t r)" "t \<in> set (recordTypes r')"
  shows "\<exists>n. track_sample a fresh r' t = stability r' t\<lparr>stableCount := n\<rparr>"
proof (cases fresh)
  case True
  with assms show ?thesis by (auto simp: nothing_new_def saw_def track_sample_def Let_def)
next
  case False
  have "stability r' t = stability r' t\<lparr>stableCount := stableCount (stability r' t)\<rparr>" by simp
  with False show ?thesis unfolding track_unchanged [symmetric] by (metis track_unchanged)
qed

lemma held_back_observe:
  assumes "held_back later t r r'" "nothing_new t r (a, fresh)" "t = TA \<or> t = TAAAA" "t \<in> set (recordTypes r')"
  shows "held_back later t r (observe_record a fresh r')"
proof -
  have "stability (observe_record a fresh r') t = track_sample a fresh (copy_sample a r') t"
    using assms(3) by (auto simp: observe_fields)
  moreover have "\<exists>n. track_sample a fresh (copy_sample a r') t = stability r' t\<lparr>stableCount := n\<rparr>"
    using track_nothing_new [of t r a fresh "copy_sample a r'"] assms
    by (simp add: held_back_def published_copy)
  ultimately show ?thesis using assms(1) by (auto simp: held_back_def published_observe)
qed

lemma types_observe: "recordTypes (observe_record a fresh r) = recordTypes r"
  by (simp add: observe_record_def copy_sample_def Let_def split: prod.split)

lemma held_back_all:
  assumes "held_back later t r r'" "list_all (nothing_new t r) sc" "t = TA \<or> t = TAAAA" "t \<in> set (recordTypes r')"
  shows "held_back later t r (observe_all sc r')"
  using assms
proof (induction sc arbitrary: r')
  case (Cons s sc)
  obtain a fresh where s: "s = (a, fresh)" by (cases s)
  then have "held_back later t r (observe_record a fresh r')"
    using Cons.prems by (intro held_back_observe) simp_all
  with s Cons show ?case by (simp add: observe_all_def types_observe)
qed (simp add: observe_all_def)

lemma types_observe_all: "recordTypes (observe_all sc r) = recordTypes r"
  unfolding observe_all_def by (induction sc arbitrary: r) (auto simp: types_observe)

lemma due_is_address: "t \<in> set (due_types later r) \<Longrightarrow> (t = TA \<or> t = TAAAA) \<and> t \<in> set (recordTypes r)"
  unfolding due_types_def type_ready_def Let_def set_filter by auto

lemma settle_held_back:
  assumes "(t, x) \<in> set results" "distinct (map fst results)" "\<not> success x" "\<not> is_pending_status (res_status x)"
    and "record_ok r" "t = TA \<or> t = TAAAA"
    and "strip (errorCode x) \<in> set AUTH_CODES \<or> later < now + RETRY_DELAYS ! nat (min (retryAttempt (stability r t)) 3)"
  shows "held_back later t r (settle now c results r)"
proof -
  let ?k = "stability (settle now c results r) t"
  have k: "?k = fail_tracker now (strip (errorCode x)) (stability r t)" by (rule settle_tracker [OF assms(1-4)])
  have "0 \<le> retryAttempt (stability r t)" "retryAttempt (stability r t) \<le> 4"
    using record_ok_tracker [OF assms(5), of t] by (auto simp: tracker_ok_def)
  note n = fail_tracker_schedule [OF this, of "strip (errorCode x)" now]
  have "candidate ?k = candidate (stability r t)" "authError ?k = (strip (errorCode x) \<in> set AUTH_CODES)"
    by (simp_all add: k fail_tracker_def Let_def)
  moreover have "or_empty (published_of t (settle now c results r)) = or_empty (published_of t r)"
    using settle_published [OF assms(1,2), of now c r] assms(3,6) by (auto simp: published_text_def)
  ultimately show ?thesis using n k assms(7) by (auto simp: held_back_def)
qed

text \<open>C7: A failed type waits. After an update in which the provider failed for a type, an authentication
  failure takes the type off the worker's due list, and any other failure keeps it off the list until
  the next delay of 30, 120, 600, 1800 seconds, by the number of failures so far, has passed. This lasts
  over all later samples that show the same address. It ends otherwise: a counted sample with another
  address, or with the same one after it was not seen, clears the failure, as do the published address
  and a success; an edit keeps it.\<close>

theorem failed_update_backs_off:
  assumes "(t, x) \<in> set results" "distinct (map fst results)" "\<not> success x" "\<not> is_pending_status (res_status x)"
    and "record_ok r" "list_all (nothing_new t r) sc"
    and "strip (errorCode x) \<in> set AUTH_CODES \<or> later < now + RETRY_DELAYS ! nat (min (retryAttempt (stability r t)) 3)"
  shows "t \<notin> set (due_types later (observe_all sc (settle now c results r)))"
proof
  assume due: "t \<in> set (due_types later (observe_all sc (settle now c results r)))"
  have t: "t = TA \<or> t = TAAAA" "t \<in> set (recordTypes (settle now c results r))"
    using due_is_address [OF due] by (simp_all add: types_observe_all)
  have "held_back later t r (observe_all sc (settle now c results r))"
    by (rule held_back_all [OF settle_held_back [OF assms(1-5) t(1) assms(7)] assms(6) t])
  with due show False by (simp add: held_back_not_due)
qed

definition demo_fail :: result where
  "demo_fail = mk_result False ''error'' ''dynv6'' TA ''timeout'' []"

lemma demo_two_ok: "record_ok (demo_rec demo_two)"
proof -
  have "demo_rec demo_two \<in> set (records (root (fst (demo_run demo_two))))" by (rule demo_rec_in) code_simp
  moreover have "list_all record_ok (records (root (fst (demo_run demo_two))))"
    unfolding demo_run_def by (rule run_records_ok)
  ultimately show ?thesis by (simp add: list_all_iff)
qed

definition demo_later :: "(address \<times> bool) list" where
  "demo_later = [(the (normal_address (demo_obs 20 ''1.2.3.4'')), True), (the (normal_address (demo_obs 20 ''5.6.7.8'')), False)]"

theorem failed_update_backs_off_witness:
  "TA \<notin> set (due_types 38 (observe_all demo_later (settle 9 [] [(TA, demo_fail)] (demo_rec demo_two))))"
proof (rule failed_update_backs_off [where x = demo_fail])
  show "(TA, demo_fail) \<in> set [(TA, demo_fail)]" "distinct (map fst [(TA, demo_fail)])" by simp_all
  show "\<not> success demo_fail" "\<not> is_pending_status (res_status demo_fail)" by code_simp+
  show "record_ok (demo_rec demo_two)" by (rule demo_two_ok)
  show "list_all (nothing_new TA (demo_rec demo_two)) demo_later" by code_simp
  show "strip (errorCode demo_fail) \<in> set AUTH_CODES \<or>
      38 < 9 + RETRY_DELAYS ! nat (min (retryAttempt (stability (demo_rec demo_two) TA)) 3)" by code_simp
qed

section \<open>Credentials stay out of messages\<close>

lemma contains_marker:
  assumes "contains (x @ ''[REDACTED]'' @ y) p" "CHR ''['' \<notin> set p" "CHR '']'' \<notin> set p" "\<not> contains ''REDACTED'' p"
  shows "contains x p \<or> contains y p"
proof -
  have "contains x p \<or> contains (''REDACTED'' @ CHR '']'' # y) p"
    using assms by (intro contains_split) simp_all
  then show ?thesis using contains_split assms by blast
qed

lemma redact_keeps_out:
  assumes p: "CHR ''['' \<notin> set p" "CHR '']'' \<notin> set p" "\<not> contains ''REDACTED'' p" "old \<noteq> []"
    and "\<not> contains s p \<or> old = p"
  shows "\<not> contains (replace_all old ''[REDACTED]'' s) p"
  using assms(5)
proof (induction s rule: length_induct)
  case (1 s)
  from replace_all_cases [OF p(4), of "''[REDACTED]''" s] show ?case
  proof (elim disjE exE conjE)
    fix u w assume s: "s = u @ old @ w" "replace_all old ''[REDACTED]'' s = u @ ''[REDACTED]'' @ replace_all old ''[REDACTED]'' w"
      "\<not> contains u old"
    have sub: "contains s p" if "contains u p \<or> contains w p"
      using that contains_infix [of u p "[]" "old @ w"] contains_infix [of w p "u @ old" "[]"] s(1) by auto
    then have "\<not> contains (replace_all old ''[REDACTED]'' w) p" using 1 s(1) p(4) by auto
    moreover have "\<not> contains u p" using sub s(3) 1(2) by blast
    ultimately show ?thesis using contains_marker p s(2) by metis
  qed (use 1 in auto)
qed

lemma redact_fold_keeps_out:
  assumes "CHR ''['' \<notin> set p" "CHR '']'' \<notin> set p" "\<not> contains ''REDACTED'' p" "\<not> contains msg p"
  shows "\<not> contains (fold (\<lambda>(_, secret) text.
     if 3 \<le> length (strip secret) then replace_all (strip secret) ''[REDACTED]'' text else text) c msg) p"
  using assms(4)
proof (induction c arbitrary: msg)
  case (Cons ks c)
  have "\<not> contains (replace_all (strip (snd ks)) ''[REDACTED]'' msg) p" if "3 \<le> length (strip (snd ks))"
    using Cons.prems that by (intro redact_keeps_out assms(1-3)) auto
  with Cons show ?case by (simp add: case_prod_unfold)
qed simp

lemma redact_error_hides:
  assumes "(k, secret) \<in> set c" "3 \<le> length (strip secret)"
    and "CHR ''['' \<notin> set (strip secret)" "CHR '']'' \<notin> set (strip secret)" "\<not> contains ''REDACTED'' (strip secret)"
  shows "\<not> contains (redact_error v c) (strip secret)"
proof -
  let ?f = "\<lambda>(_, secret) text. if 3 \<le> length (strip secret) then replace_all (strip secret) ''[REDACTED]'' text else text"
  obtain pre post where c: "c = pre @ (k, secret) # post" using split_list [OF assms(1)] by blast
  have "strip secret \<noteq> []" using assms(2) by auto
  then have "\<not> contains (?f (k, secret) (fold ?f pre (strip v))) (strip secret)"
    using redact_keeps_out [OF assms(3-5)] assms(2) by simp
  then have "\<not> contains (fold ?f post (?f (k, secret) (fold ?f pre (strip v)))) (strip secret)"
    using redact_fold_keeps_out [OF assms(3-5)] by blast
  then show ?thesis by (auto simp: redact_error_def c dest: contains_take)
qed

text \<open>No credential of at least three characters appears in the error message that an update
  reports or stores, whatever text the provider adapter returned; credentials that contain square
  brackets or are part of the word REDACTED itself are outside the claim.\<close>

theorem provider_error_redacted:
  assumes "(k, secret) \<in> set (job_creds job)" "3 \<le> length (strip secret)"
    and "CHR ''['' \<notin> set (strip secret)" "CHR '']'' \<notin> set (strip secret)" "\<not> contains ''REDACTED'' (strip secret)"
  shows "\<not> contains (errorMessage (snd (call_provider sync job w))) (strip secret)"
  using redact_error_hides [OF assms] by (simp add: call_provider_def Let_def split: prod.split)

definition demo_leak :: sync where
  "demo_leak p h t v l c = Some \<lparr>pr_ok = False, pr_error = ''bad tok1 tok1'', pr_provider = [], pr_record_id = [],
     pr_changed = False, pr_error_code = [], pr_error_message = []\<rparr>"

definition demo_job :: update_job where
  "demo_job = \<lparr>job_id = ''u'', job_provider = ''dynv6'', job_hostname = ''h.x'', job_ttl = 60,
     job_creds = [(''token'', ''tok1'')], job_work = [], job_results = []\<rparr>"

theorem provider_error_redacted_witness:
  "\<not> contains (errorMessage (snd (call_provider demo_leak demo_job (TA, ''1.2.3.4'')))) (strip ''tok1'')"
proof (rule provider_error_redacted [where k = "''token''"])
  show "(''token'', ''tok1'') \<in> set (job_creds demo_job)" by (simp add: demo_job_def)
qed code_simp+

section \<open>Durability\<close>

text \<open>
  What the state file does not have to follow sample by sample: time stamps and trackers. The last
  written root is the loaded one until the first write.
\<close>

definition durable_record :: "ddns_record \<Rightarrow> ddns_record" where
  "durable_record r = r\<lparr>lastDetectedAt := 0, stability := (\<lambda>_. empty_tracker)\<rparr>"

definition durable :: "ddns_root \<Rightarrow> ddns_root" where
  "durable rt = \<lparr>address = map_option (\<lambda>a. a\<lparr>detectedAt := 0\<rparr>) (address rt), records = map durable_record (records rt)\<rparr>"

definition on_disk :: "ddns_root \<Rightarrow> ddns_store \<Rightarrow> ddns_root" where
  "on_disk loaded st = (case disk st of None \<Rightarrow> loaded | Some rt \<Rightarrow> rt)"

definition in_step :: "ddns_root \<Rightarrow> ddns_store \<Rightarrow> bool" where
  "in_step loaded st = (durable (on_disk loaded st) = durable (root st))"

lemma in_step_saved [simp]: "in_step loaded (save_locked st)"
  by (simp add: in_step_def on_disk_def save_locked_def)

lemma in_step_fields [simp]: "in_step loaded (st\<lparr>auto_event := b\<rparr>) = in_step loaded st"
  "in_step loaded (st\<lparr>secrets := s\<rparr>) = in_step loaded st"
  by (simp_all add: in_step_def on_disk_def)

lemma durable_observe: "\<not> record_changed a sc r \<Longrightarrow> durable_record (observe_record a sc r) = durable_record r"
  by (simp add: record_changed_def durable_record_def observe_record_def copy_sample_def Let_def case_prod_unfold)

lemma durable_address: "\<not> address_changed p a \<Longrightarrow> map_option (\<lambda>a. a\<lparr>detectedAt := 0\<rparr>) p = Some (a\<lparr>detectedAt := 0\<rparr>)"
  by (cases p) (auto simp: address_changed_def)

lemma in_step_accept:
  assumes "in_step loaded st"
  shows "in_step loaded (snd (accept_address now v st))"
proof (cases "normal_address v")
  case (Some a0)
  let ?p = "address (root st)"
  let ?a = "stamp_address now ?p a0"
  let ?sc = "map_option detectedAt ?p \<noteq> Some (detectedAt ?a)"
  let ?rt = "\<lparr>address = Some ?a, records = map (observe_record ?a ?sc) (records (root st))\<rparr>"
  have "in_step loaded (st\<lparr>root := ?rt\<rparr>)"
    if "\<not> address_changed ?p ?a" "\<not> list_ex (record_changed ?a ?sc) (records (root st))"
  proof -
    have "map (durable_record \<circ> observe_record ?a ?sc) (records (root st)) = map durable_record (records (root st))"
      using that(2) by (auto simp: list_ex_iff durable_observe)
    then have "durable ?rt = durable (root st)"
      using durable_address [OF that(1)] by (auto simp: durable_def)
    with assms show ?thesis by (simp add: in_step_def on_disk_def)
  qed
  then show ?thesis using Some by (simp add: accept_address_def Let_def)
qed (simp add: accept_address_def assms)

lemma in_step_exec: "in_step loaded (fst c) \<Longrightarrow> in_step loaded (fst (exec ev c))"
proof (induction ev c rule: exec.induct)
  case (2 uuid val i st jobs)
  then show ?case by (auto simp: save_record_def err_simps Let_def split: sum.splits option.splits if_splits)
next
  case (4 i st jobs)
  then show ?case by (auto simp: delete_ddns_def delete_record_def Let_def split: prod.split)
next
  case (5 now i force st jobs)
  then show ?case by (auto simp: begin_update_def Let_def split: sum.splits begun.splits option.splits if_splits)
next
  case (6 now sync n st jobs)
  then show ?case by (auto simp: finish_update_def split: sum.splits option.splits)
qed (auto simp: in_step_accept save_credentials_def split: prod.split)

text \<open>The state file is never behind in anything but sample time stamps and trackers: after
  any sequence of events, the state in memory and the state last written (or loaded) agree on every
  other field, although most samples are not written at all.\<close>

theorem state_file_current:
  "durable (on_disk (load_root uuid state_file) (fst (run_events evs (open_store uuid state_file secret_file, []))))
   = durable (root (fst (run_events evs (open_store uuid state_file secret_file, []))))"
proof -
  let ?l = "load_root uuid state_file"
  have "in_step ?l (fst (run_events evs (open_store uuid state_file secret_file, [])))"
  proof (rule run_events_induct)
    show "in_step ?l (fst (open_store uuid state_file secret_file, []))"
      by (simp add: in_step_def on_disk_def open_store_def)
  qed (rule in_step_exec)
  then show ?thesis by (simp add: in_step_def)
qed

section \<open>Requests\<close>

lemma validate_ok:
  assumes "validate_record_input value r = Inr ()"
  shows "\<exists>ps. map_of PROVIDERS (provider r) = Some ps \<and> list_all (supports_record_type ps) (recordTypes r)"
    and "TCNAME \<in> set (recordTypes r) \<Longrightarrow> valid_cname (value_of (recordValues r) TCNAME) (hostname r)"
    and "TTXT \<in> set (recordTypes r) \<Longrightarrow> strip (value_of (recordValues r) TTXT) \<noteq> []"
  using assms by (auto simp: validate_record_input_def Let_def list_all_iff filter_empty_conv
      split: if_splits option.splits list.splits)

definition stored_valid :: "ddns_record \<Rightarrow> bool" where
  "stored_valid r = (hostname r \<noteq> [] \<and> list_all (supports_record_type (the (map_of PROVIDERS (provider r)))) (recordTypes r)
    \<and> (TCNAME \<in> set (recordTypes r) \<longrightarrow> valid_cname (value_of (recordValues r) TCNAME) (hostname r))
    \<and> (TTXT \<in> set (recordTypes r) \<longrightarrow> strip (value_of (recordValues r) TTXT) \<noteq> []))"

text \<open>A record that a request stores has a hostname, a provider that supports all of its types
  and, for a new record or an edit that sends its values, a valid CNAME target and a non-blank TXT value;
  the request changes no other record and no credential.\<close>

theorem save_record_valid:
  assumes "save_record uuid value i st = Inr (r, st')" "i = [] \<or> map_of value ''recordValues'' \<noteq> None"
  shows "stored_valid r \<and> r \<in> set (records (root st'))
    \<and> filter (\<lambda>x. rec_id x \<noteq> rec_id r) (records (root st')) = filter (\<lambda>x. rec_id x \<noteq> rec_id r) (records (root st))
    \<and> secrets st' = secrets st"
proof -
  have mem: "y \<in> set (replace_first P (\<lambda>_. y) xs)" if "List.find P xs = Some x" for P x xs and y :: ddns_record
    using that by (induction xs) (auto split: if_splits)
  have other: "filter (\<lambda>x. rec_id x \<noteq> j) (replace_first (\<lambda>x. rec_id x = j) (\<lambda>_. y) xs) = filter (\<lambda>x. rec_id x \<noteq> j) xs"
    if "rec_id y = j" for y :: ddns_record and j xs
    using that by (induction xs) auto
  from assms(1) obtain r0 where r0: "hostname r0 \<noteq> []" "validate_record_input value r0 = Inr ()"
    and c: "(\<exists>old. i \<noteq> [] \<and> List.find (\<lambda>x. rec_id x = i) (records (root st)) = Some old \<and> r = merge_edit value i old r0
          \<and> root st' = (root st)\<lparr>records := replace_first (\<lambda>x. rec_id x = i) (\<lambda>_. r) (records (root st))\<rparr>)
      \<or> i = [] \<and> r = new_record (address (root st)) r0 \<and> root st' = (root st)\<lparr>records := records (root st) @ [r]\<rparr>"
    and s: "secrets st' = secrets st"
    by (auto simp: save_record_def err_simps Let_def split: option.splits if_splits)
  have f: "hostname r = hostname r0 \<and> provider r = provider r0 \<and> recordTypes r = recordTypes r0 \<and> recordValues r = recordValues r0"
    using c assms(2) by (auto simp: merge_edit_def new_record_def copy_sample_def Let_def split: option.splits)
  have "r \<in> set (records (root st'))
    \<and> filter (\<lambda>x. rec_id x \<noteq> rec_id r) (records (root st')) = filter (\<lambda>x. rec_id x \<noteq> rec_id r) (records (root st))"
  proof (cases "i = []")
    case True
    with c show ?thesis by auto
  next
    case False
    with c obtain old where "r = merge_edit value i old r0" by blast
    then have "rec_id r = i" by (simp add: merge_edit_def Let_def)
    with c False show ?thesis by (auto simp: other intro: mem)
  qed
  moreover have "list_all (supports_record_type (the (map_of PROVIDERS (provider r)))) (recordTypes r)"
    using validate_ok(1) [OF r0(2)] f by auto
  ultimately show ?thesis using validate_ok(2,3) [OF r0(2)] r0(1) f s by (simp add: stored_valid_def)
qed

definition demo_txt :: "(string \<times> json) list" where
  "demo_txt = [(''provider'', JStr ''duckdns''), (''hostname'', JStr ''h.x''), (''recordTypes'', JStr ''txt''),
     (''recordValues'', JObj [(''TXT'', JStr ''v'')])]"

definition demo_empty :: ddns_store where
  "demo_empty = open_store (\<lambda>_. ''u'') None None"

theorem save_record_valid_witness:
  "stored_valid (fst (projr (save_record ''u'' demo_txt [] demo_empty)))
    \<and> fst (projr (save_record ''u'' demo_txt [] demo_empty)) \<in> set (records (root (snd (projr (save_record ''u'' demo_txt [] demo_empty)))))
    \<and> filter (\<lambda>x. rec_id x \<noteq> rec_id (fst (projr (save_record ''u'' demo_txt [] demo_empty))))
        (records (root (snd (projr (save_record ''u'' demo_txt [] demo_empty)))))
      = filter (\<lambda>x. rec_id x \<noteq> rec_id (fst (projr (save_record ''u'' demo_txt [] demo_empty)))) (records (root demo_empty))
    \<and> secrets (snd (projr (save_record ''u'' demo_txt [] demo_empty))) = secrets demo_empty"
proof (rule save_record_valid)
  have "isl (save_record ''u'' demo_txt [] demo_empty) = False" by code_simp
  then show "save_record ''u'' demo_txt [] demo_empty = Inr (fst (projr (save_record ''u'' demo_txt [] demo_empty)),
      snd (projr (save_record ''u'' demo_txt [] demo_empty)))"
    by (cases "save_record ''u'' demo_txt [] demo_empty") simp_all
qed simp

lemma filter_shorter: "length (filter P xs) = length xs \<longleftrightarrow> list_all P xs"
proof (induction xs)
  case (Cons x xs)
  have "length (filter P xs) \<noteq> Suc (length xs)" using length_filter_le [of P xs] by linarith
  with Cons show ?case by simp
qed simp

lemma update_now_unknown:
  "List.find (\<lambda>r. rec_id r = i) (records (root st)) = None \<Longrightarrow> update_now sync now now' True i body st = Inr (NotFound, st)"
  by (simp add: update_now_def run_update_def begin_update_def)

lemma secrets_delete_lookup: "map_of (secrets_delete i s) = (map_of s)(i := None)"
  by (auto simp: secrets_delete_def fun_eq_iff map_of_eq_None_iff)

text \<open>An authorised deletion of a known record removes every record with the identifier
  together with its credentials, and nothing else, writes the result to the state file, and makes further updates of the
  identifier fail as not found.\<close>

theorem delete_ddns_exact:
  assumes "r \<in> set (records (root st))" and "rec_id r = i"
  shows "\<exists>st'. delete_ddns True i st = (DeletedReply, st')
    \<and> records (root st') = filter (\<lambda>r. rec_id r \<noteq> i) (records (root st))
    \<and> map_of (secrets st') = (map_of (secrets st))(i := None)
    \<and> disk st' = Some (root st')
    \<and> update_now sync now now' True i body st' = Inr (NotFound, st')"
proof -
  let ?rs = "filter (\<lambda>r. rec_id r \<noteq> i) (records (root st))"
  have len: "length ?rs \<noteq> length (records (root st))" using assms by (auto simp: filter_shorter list_all_iff)
  have "List.find (\<lambda>r. rec_id r = i) ?rs = None" by (auto simp: find_None_iff)
  then show ?thesis using len
    by (simp add: delete_ddns_def delete_record_def save_locked_def secrets_delete_lookup update_now_unknown Let_def)
qed

theorem delete_ddns_exact_witness:
  "\<exists>st'. delete_ddns True ''u'' (fst (demo_run demo_two)) = (DeletedReply, st')
    \<and> records (root st') = filter (\<lambda>r. rec_id r \<noteq> ''u'') (records (root (fst (demo_run demo_two))))
    \<and> map_of (secrets st') = (map_of (secrets (fst (demo_run demo_two))))(''u'' := None)
    \<and> disk st' = Some (root st')
    \<and> update_now accept_all 9 9 True ''u'' JNull st' = Inr (NotFound, st')"
proof (rule delete_ddns_exact)
  show "demo_rec demo_two \<in> set (records (root (fst (demo_run demo_two))))" by (rule demo_rec_in) code_simp
  show "rec_id (demo_rec demo_two) = ''u''" by code_simp
qed

end
