(* ===== verification/HubCore.thy ===== *)
theory HubCore
  imports Ipaddr Storage
begin

text \<open>
  What the services share from \<open>src/hub.py\<close>: reading and writing documents by name, the value
  helpers, the event list and request authentication; and the loop by which an agent polls a command
  queue, which three services repeat. The documents are a map from names to
  values; the theory shows that the SQLite store of \<open>Storage\<close> implements it. The order of the keys of
  a dictionary, which the store sorts, is not observable by the services.
\<close>

section \<open>Documents\<close>

type_synonym docs = "string \<Rightarrow> json option"

type_synonym row = "(string \<times> json) list"

definition load_json :: "docs \<Rightarrow> string \<Rightarrow> json \<Rightarrow> json" where
  "load_json d key dflt = (case d key of None \<Rightarrow> dflt | Some v \<Rightarrow> v)"

definition BLOCKED_KEYS :: "string list" where
  "BLOCKED_KEYS = [''raw'', ''rawData'', ''debug'', ''debugInfo'', ''packetSamples'', ''scanResults'', ''samples'']"

fun compact_runtime_document :: "json \<Rightarrow> json" where
  "compact_runtime_document (JList xs) = JList (map compact_runtime_document xs)"
| "compact_runtime_document (JObj d) =
     JObj (map (\<lambda>(k, v). (k, compact_runtime_document v)) (filter (\<lambda>(k, v). k \<notin> set BLOCKED_KEYS) d))"
| "compact_runtime_document (JStr s) = JStr (take 65536 s)"
| "compact_runtime_document v = v"

definition prepare :: "string \<Rightarrow> json \<Rightarrow> json" where
  "prepare key v = (if key = ''state.json'' \<or> key = ''devices.json'' then compact_runtime_document v else v)"

definition save_json :: "docs \<Rightarrow> string \<Rightarrow> json \<Rightarrow> docs" where
  "save_json d key v = d(key \<mapsto> prepare key v)"

lemma load_save_json [simp]:
  "load_json (save_json d key v) key' dflt = (if key' = key then prepare key v else load_json d key' dflt)"
  by (simp add: load_json_def save_json_def)

lemma save_json_apply [simp]: "save_json d key v key' = (if key' = key then Some (prepare key v) else d key')"
  by (simp add: save_json_def)

lemma prepare_id [simp]: "key \<noteq> ''state.json'' \<Longrightarrow> key \<noteq> ''devices.json'' \<Longrightarrow> prepare key v = v"
  by (simp add: prepare_def)

subsection \<open>The store implements the documents\<close>

text \<open>A store represents documents if it has a text for exactly the known names and decodes each to
  the known value, its keys sorted.\<close>

definition represents :: "store \<Rightarrow> docs \<Rightarrow> bool" where
  "represents st d = (store_ok st \<and> (\<forall>key v. load st key v = (case d key of None \<Rightarrow> v | Some w \<Rightarrow> sort_keys w)))"

text \<open>\<open>save_json\<close> on the store: the value is compacted, then saved.\<close>

definition store_save_json :: "retention \<Rightarrow> clock \<Rightarrow> store \<Rightarrow> string \<Rightarrow> json \<Rightarrow> py_error + (store \<times> int)" where
  "store_save_json cfg clk st key v = save cfg clk st key (prepare key v)"

lemma compact_ok: "json_ok v \<Longrightarrow> json_ok (compact_runtime_document v)"
proof (induction v)
  case (JObj d)
  have "dict_ok (map (\<lambda>(k, v). (k, compact_runtime_document v)) (filter (\<lambda>(k, v). k \<notin> set BLOCKED_KEYS) d))"
    using JObj.prems by (simp add: comp_def case_prod_unfold distinct_map_filter)
  moreover have "json_ok (compact_runtime_document v)" if "(k, v) \<in> set d" for k v
    using JObj.IH [OF that] JObj.prems that by (auto simp: list_all_iff)
  ultimately show ?case by (auto simp: list_all_iff)
qed (auto simp: list_all_iff)

lemma prepare_ok: "json_ok v \<Longrightarrow> json_ok (prepare key v)"
  by (simp add: prepare_def compact_ok)

lemma represents_save:
  assumes "represents st d" "json_ok v" "store_save_json cfg clk st key v = Inr (st', r)"
  shows "represents st' (save_json d key v)"
proof -
  have s: "save cfg clk st key (prepare key v) = Inr (st', r)" using assms(3) by (simp add: store_save_json_def)
  have st: "store_ok st" using assms(1) by (simp add: represents_def)
  note pv = prepare_ok [OF assms(2), of key]
  show ?thesis
    using assms(1) load_after_save [OF st pv s] save_store_ok [OF st pv s]
    by (auto simp: represents_def)
qed

interpretation hub_docs: document_store
  "\<lambda>d key v. (case d key of None \<Rightarrow> v | Some w \<Rightarrow> sort_keys w)"
  "\<lambda>d key v d'. key \<noteq> ''state.json'' \<and> key \<noteq> ''devices.json'' \<and> d' = save_json d key v" "\<lambda>_. True"
  by unfold_locales auto

section \<open>Values\<close>

definition clean_saved_value :: "json \<Rightarrow> string" where
  "clean_saved_value v = (if v = JNull then [] else
     let t = strip (py_str v) in
     if lower t \<in> {[], ''null'', ''none'', ''nan''} \<or> t = ''-'' then [] else t)"

lemma clean_saved_value_idem [simp]: "clean_saved_value (JStr (clean_saved_value v)) = clean_saved_value v"
  by (simp add: clean_saved_value_def Let_def)

definition to_int :: "json \<Rightarrow> int \<Rightarrow> int" where
  "to_int v d = (case py_int (py_str v) of None \<Rightarrow> d | Some i \<Rightarrow> i)"

fun pairs_of :: "string \<Rightarrow> string list" where
  "pairs_of (a # b # r) = [a, b] # pairs_of r"
| "pairs_of _ = []"

definition norm_mac :: "json \<Rightarrow> string" where
  "norm_mac mac = (if \<not> truthy mac then [] else
     let m = strip (filter (\<lambda>c. c \<noteq> CHR ''.'') (replace_char (CHR ''-'') (CHR '':'') (lower (py_str mac)))) in
     if CHR '':'' \<notin> set m \<and> length m = 12 then join '':'' (pairs_of m) else m)"

definition dict_rows :: "json \<Rightarrow> row list" where
  "dict_rows v = map items (filter is_dict (elems v))"

definition sub_dict :: "row \<Rightarrow> string \<Rightarrow> row" where
  "sub_dict d k = items (dget d k)"

lemma dict_rows_JList [simp]: "dict_rows (JList (map JObj rows)) = rows"
  by (induction rows) (auto simp: dict_rows_def)

text \<open>
  What an operation reads from its surroundings: the clock in seconds, as local and as UTC text, random
  identifiers, the name of the primary router, and the reading of a local time as epoch seconds, which
  depends on the time zone.
\<close>

record env =
  env_now :: int
  env_now_str :: string
  env_now_text :: string
  env_fresh :: "nat \<Rightarrow> string"
  env_router :: string
  env_local_epoch :: "string \<Rightarrow> int option"

section \<open>Events\<close>

definition add_event :: "string \<Rightarrow> row \<Rightarrow> docs \<Rightarrow> docs" where
  "add_event now event d =
    (let events = dict_rows (load_json d ''events.json'' (JList []));
         next_id = (if events = [] then 1 else int_or (dget_or (last events) ''id'' (JInt 0)) 0 + 1);
         e1 = dset ''id'' (JInt next_id) event;
         e2 = (if map_of e1 ''createdAt'' = None then dset ''createdAt'' (JStr now) e1 else e1);
         e3 = (if map_of e2 ''level'' = None then dset ''level'' (JStr ''normal'') e2 else e2)
     in save_json d ''events.json'' (JList (map JObj (take_last 1000 (events @ [e3])))))"

lemma add_event_other [simp]: "key \<noteq> ''events.json'' \<Longrightarrow> add_event now e d key = d key"
  by (simp add: add_event_def Let_def)

section \<open>Authentication\<close>

record http_request =
  headers :: "string \<Rightarrow> string option"
  args :: "string \<Rightarrow> string option"

definition arg_text :: "(string \<Rightarrow> string option) \<Rightarrow> string \<Rightarrow> string" where
  "arg_text f k = (case f k of None \<Rightarrow> [] | Some v \<Rightarrow> strip v)"

definition auth_tokens_from_request :: "http_request \<Rightarrow> string list" where
  "auth_tokens_from_request rq =
    (let auth = arg_text (headers rq) ''Authorization'';
         bearer = (if startswith (lower auth) ''bearer '' then [strip (drop 7 auth)]
                   else if auth \<noteq> [] then [auth] else []);
         hs = map (arg_text (headers rq)) [''X-LabProbe-Token'', ''X-Labprobe-Token'', ''X-Hook-Token'',
                ''X-Api-Token'', ''X-API-Key'', ''X-LabProbe-Hook-Token''];
         as = map (arg_text (args rq)) [''token'', ''app_token'', ''appToken'', ''hook_token'', ''hookToken'', ''key'']
     in filter (\<lambda>t. t \<noteq> []) (bearer @ hs @ as))"

text \<open>\<open>hmac.compare_digest\<close> of the UTF-8 encodings decides equality.\<close>

definition token_matches :: "string \<Rightarrow> string \<Rightarrow> bool" where
  "token_matches candidate expected = (candidate = expected)"

definition check_token :: "string \<Rightarrow> http_request \<Rightarrow> bool" where
  "check_token tok rq = list_ex (\<lambda>t. token_matches t tok) (auth_tokens_from_request rq)"

definition check_read_token :: "string \<Rightarrow> string \<Rightarrow> http_request \<Rightarrow> bool" where
  "check_read_token app hook rq = list_ex (\<lambda>t. token_matches t app \<or> token_matches t hook) (auth_tokens_from_request rq)"

lemma auth_tokens_ne: "t \<in> set (auth_tokens_from_request rq) \<Longrightarrow> t \<noteq> []"
  unfolding auth_tokens_from_request_def Let_def set_filter by blast

lemma check_token_fail_closed: "\<not> check_token [] rq"
  using auth_tokens_ne [of "[]" rq] by (auto simp: check_token_def token_matches_def list_ex_iff)

lemma check_token_read: "check_token app rq \<or> check_token hook rq \<longleftrightarrow> check_read_token app hook rq"
  by (auto simp: check_token_def check_read_token_def list_ex_iff)

end
