(* ===== verification/Commands.thy ===== *)
theory Commands
  imports HubCore
begin

text \<open>
  The command queues between the hub and the router agent. The port-map, STUN and WireGuard services keep
  their commands as rows of a document and share one protocol: a poll hands out pending rows and rows
  delivered at least 15 seconds ago with fewer than five attempts, up to a limit, and marks them; an acknowledgement
  closes a row. The locales state what a client can rely on; each service interprets
  them on its own operations.
\<close>

section \<open>Handing out commands\<close>

definition is_status :: "row \<Rightarrow> string \<Rightarrow> bool" where
  "is_status r s = (dget r ''status'' = JStr s)"

definition outstanding :: "row \<Rightarrow> bool" where
  "outstanding r = (is_status r ''pending'' \<or> is_status r ''delivered'')"

text \<open>\<open>num\<close> is the service's reading of a number: \<open>to_int\<close> in the hub, \<open>_int\<close> in the services.\<close>

definition command_due :: "(json \<Rightarrow> int) \<Rightarrow> string \<Rightarrow> int \<Rightarrow> row \<Rightarrow> bool" where
  "command_due num router now r = (dget r ''router'' = JStr router \<and>
     (is_status r ''pending'' \<or>
      (is_status r ''delivered'' \<and> 15 \<le> now - num (dget r ''deliveredEpoch'') \<and> num (dget r ''attempts'') < 5)))"

definition command_mark :: "(json \<Rightarrow> int) \<Rightarrow> int \<Rightarrow> string \<Rightarrow> row \<Rightarrow> row" where
  "command_mark num now nowt r =
     dset ''attempts'' (JInt (num (dget r ''attempts'') + 1))
       (dset ''deliveredEpoch'' (JInt now) (dset ''deliveredAt'' (JStr nowt) (dset ''status'' (JStr ''delivered'') r)))"

definition command_view :: "string list \<Rightarrow> row \<Rightarrow> json" where
  "command_view keys r = JObj (map (\<lambda>k. (k, dget r k)) keys)"

text \<open>The loop with its \<open>break\<close>: \<open>n\<close> is the number of rows that may still be selected.\<close>

fun deliver_loop :: "('r \<Rightarrow> bool) \<Rightarrow> ('r \<Rightarrow> 'r) \<Rightarrow> nat \<Rightarrow> 'r list \<Rightarrow> 'r list \<times> 'r list" where
  "deliver_loop due mark n [] = ([], [])"
| "deliver_loop due mark n (r # rs) =
     (if due r then
        (if n \<le> 1 then (mark r # rs, [r])
         else case deliver_loop due mark (n - 1) rs of (rs', sel) \<Rightarrow> (mark r # rs', r # sel))
      else case deliver_loop due mark n rs of (rs', sel) \<Rightarrow> (r # rs', sel))"

definition deliver_commands :: "(json \<Rightarrow> int) \<Rightarrow> string \<Rightarrow> nat \<Rightarrow> int \<Rightarrow> string \<Rightarrow> row list \<Rightarrow> row list \<times> row list" where
  "deliver_commands num router limit now nowt rows =
     deliver_loop (command_due num router now) (command_mark num now nowt) limit rows"

lemma deliver_loop_length: "length (fst (deliver_loop due mark n rows)) = length rows"
  by (induction due mark n rows rule: deliver_loop.induct) (auto split: prod.splits)

lemma deliver_loop_limit: "1 \<le> n \<Longrightarrow> length (snd (deliver_loop due mark n rows)) \<le> n"
proof (induction due mark n rows rule: deliver_loop.induct)
  case (2 due mark n r rs)
  show ?case
  proof (cases "due r \<and> \<not> n \<le> 1")
    case True
    then have "length (snd (deliver_loop due mark (n - 1) rs)) \<le> n - 1" using 2(1) by (cases n) auto
    with True show ?thesis by (auto split: prod.split)
  next
    case False
    with 2 show ?thesis by (auto split: prod.split)
  qed
qed simp

lemma deliver_loop_due: "r \<in> set (snd (deliver_loop due mark n rows)) \<Longrightarrow> due r \<and> r \<in> set rows"
  by (induction due mark n rows rule: deliver_loop.induct) (auto split: prod.splits if_splits)

text \<open>A row is either left alone or was due and is marked.\<close>

lemma deliver_loop_rows:
  "list_all2 (\<lambda>r r'. r' = r \<or> due r \<and> r' = mark r) rows (fst (deliver_loop due mark n rows))"
  by (induction due mark n rows rule: deliver_loop.induct) (auto split: prod.splits simp: list_all2_refl)

lemma deliver_loop_all:
  "length (filter due rows) \<le> n \<Longrightarrow>
     deliver_loop due mark n rows = (map (\<lambda>r. if due r then mark r else r) rows, filter due rows)"
proof (induction due mark n rows rule: deliver_loop.induct)
  case (2 due mark n r rs)
  show ?case
  proof (cases "due r \<and> n \<le> 1")
    case True
    with 2(3) have "Suc (length (filter due rs)) \<le> n" "n \<le> 1" by simp_all
    then have "length (filter due rs) = 0" by linarith
    then have "filter due rs = []" by simp
    then have "map (\<lambda>r. if due r then mark r else r) rs = rs" by (intro map_idI) (auto simp: filter_empty_conv)
    with True \<open>filter due rs = []\<close> show ?thesis by simp
  next
    case False
    with 2 show ?thesis by (auto split: prod.splits)
  qed
qed simp

section \<open>Closing commands\<close>

text \<open>\<open>text\<close> is the service's reading of an identifier; an empty acknowledgement counts as none.\<close>

definition ack_rows :: "(json \<Rightarrow> string) \<Rightarrow> (row \<Rightarrow> row \<Rightarrow> row) \<Rightarrow> json \<Rightarrow> row list \<Rightarrow> row list \<times> nat" where
  "ack_rows ident close acks rows =
    (let values = dict_of (map (\<lambda>a. (ident (dget a ''id''), a)) (dict_rows acks));
         hit = (\<lambda>r. case map_of values (ident (dget r ''id'')) of None \<Rightarrow> None
                    | Some a \<Rightarrow> if a = [] then None else Some a)
     in (map (\<lambda>r. case hit r of None \<Rightarrow> r | Some a \<Rightarrow> close a r) rows,
         length (filter (\<lambda>r. hit r \<noteq> None) rows)))"

definition close_command :: "row \<Rightarrow> row \<Rightarrow> row" where
  "close_command a r = dset ''result'' (dget a ''result'')
     (dset ''status'' (JStr (if truthy (dget a ''ok'') then ''done'' else ''failed'')) r)"

section \<open>What the agent can rely on\<close>

text \<open>
  The delivery contract. \<open>attempts\<close> counts the deliveries of a row; marking counts one, and a
  marked row is not due again before 15 seconds have passed nor once it has five attempts.
\<close>

locale delivery =
  fixes due :: "'e \<Rightarrow> int \<Rightarrow> 'r \<Rightarrow> bool"
    and mark :: "'e \<Rightarrow> int \<Rightarrow> 'r \<Rightarrow> 'r"
    and attempts :: "'r \<Rightarrow> int"
    and fresh :: "'r \<Rightarrow> bool"
  assumes attempts_mark: "attempts (mark e now r) = attempts r + 1"
    and mark_not_fresh: "\<not> fresh (mark e now r)"
    and due_bound: "due e now r \<Longrightarrow> fresh r \<or> attempts r < 5"
    and not_due_again: "later < now + 15 \<Longrightarrow> \<not> due e' later (mark e now r)"
begin

definition poll :: "'e \<Rightarrow> nat \<Rightarrow> int \<Rightarrow> 'r list \<Rightarrow> 'r list" where
  "poll e n now rows = fst (deliver_loop (due e now) (mark e now) n rows)"

fun polls :: "('e \<times> nat \<times> int) list \<Rightarrow> 'r list \<Rightarrow> 'r list" where
  "polls [] rows = rows"
| "polls ((e, n, now) # ps) rows = polls ps (poll e n now rows)"

text \<open>Bounded redelivery: over any number of polls a row that starts with no attempts is
  handed out at most five times.\<close>

definition capped :: "'r \<Rightarrow> bool" where
  "capped r = (attempts r \<le> 5 \<and> (fresh r \<longrightarrow> attempts r \<le> 0))"

lemma poll_capped: "list_all capped rows \<Longrightarrow> list_all capped (poll e n now rows)"
proof -
  assume c: "list_all capped rows"
  have "capped (mark e now r)" if "capped r" "due e now r" for r
    using that due_bound [of e now r] by (auto simp: capped_def attempts_mark mark_not_fresh)
  with c deliver_loop_rows [of "due e now" "mark e now" rows n] show ?thesis
    unfolding poll_def list_all_length list_all2_conv_all_nth by metis
qed

lemma polls_capped: "list_all capped rows \<Longrightarrow> list_all capped (polls ps rows)"
  by (induction ps rows rule: polls.induct) (auto intro: poll_capped)

text \<open>A row that was just handed out is not handed out again within 15 seconds.\<close>

lemma no_duplicate_delivery:
  "later < now + 15 \<Longrightarrow> mark e now r \<notin> set (snd (deliver_loop (due e' later) (mark e' later) n rows))"
  using not_due_again by (blast dest: deliver_loop_due)

end

text \<open>
  The slot contract: an outstanding row occupies a slot (router, action and subject); queueing
  occupies the slot of the new command and never leaves two rows in one slot, delivery does not move
  rows between slots, and an acknowledgement can only free them.
\<close>

fun single_slots :: "('r \<Rightarrow> 'k option) \<Rightarrow> 'r list \<Rightarrow> bool" where
  "single_slots slot [] = True"
| "single_slots slot (r # rs) = ((slot r = None \<or> slot r \<notin> slot ` set rs) \<and> single_slots slot rs)"

definition slots_kept :: "('r \<Rightarrow> 'k option) \<Rightarrow> 'r list \<Rightarrow> 'r list \<Rightarrow> bool" where
  "slots_kept slot rows rows' = list_all2 (\<lambda>r r'. slot r' = slot r \<or> slot r' = None) rows rows'"

lemma slots_kept_sub: "slots_kept slot rows rows' \<Longrightarrow> slot ` set rows' \<subseteq> insert None (slot ` set rows)"
  unfolding slots_kept_def by (induction rule: list_all2_induct) auto

lemma single_slots_mono: "slots_kept slot rows rows' \<Longrightarrow> single_slots slot rows \<Longrightarrow> single_slots slot rows'"
proof (induction rows arbitrary: rows')
  case (Cons r rs)
  then obtain r' rs' where r: "rows' = r' # rs'" "slot r' = slot r \<or> slot r' = None" "slots_kept slot rs rs'"
    by (auto simp: slots_kept_def list_all2_Cons1)
  with Cons slots_kept_sub [OF r(3)] show ?case by auto
qed (simp add: slots_kept_def)

lemma single_slots_filter: "single_slots slot rows \<Longrightarrow> single_slots slot (filter P rows)"
  by (induction rows) auto

lemma single_slots_append:
  "single_slots slot (xs @ ys) \<longleftrightarrow> single_slots slot xs \<and> single_slots slot ys
     \<and> slot ` set xs \<inter> slot ` set ys \<subseteq> {None}"
proof (induction xs)
  case (Cons x xs)
  define S T where "S = slot ` set xs" and "T = slot ` set ys"
  have "slot ` set (xs @ ys) = S \<union> T" by (simp add: S_def T_def image_Un)
  then have "single_slots slot ((x # xs) @ ys) \<longleftrightarrow> (slot x = None \<or> slot x \<notin> S \<union> T) \<and> single_slots slot (xs @ ys)"
    by simp
  moreover have "slot ` set (x # xs) \<inter> slot ` set ys = insert (slot x) S \<inter> T" by (simp add: S_def T_def)
  moreover have "single_slots slot (x # xs) \<longleftrightarrow> (slot x = None \<or> slot x \<notin> S) \<and> single_slots slot xs"
    by (simp add: S_def)
  moreover have "single_slots slot (xs @ ys) \<longleftrightarrow> single_slots slot xs \<and> single_slots slot ys \<and> S \<inter> T \<subseteq> {None}"
    using Cons by (simp add: S_def T_def)
  ultimately show ?case by auto
qed simp

lemma single_slots_take_last: "single_slots slot rows \<Longrightarrow> single_slots slot (take_last n rows)"
  by (metis append_take_drop_id single_slots_append take_last_def)

lemma single_slots_snoc:
  "single_slots slot rows \<Longrightarrow> slot r \<notin> slot ` set rows \<Longrightarrow> single_slots slot (rows @ [r])"
  by (auto simp: single_slots_append)

locale slot_queue =
  fixes slot :: "'r \<Rightarrow> 'k option"
    and enq :: "'a \<Rightarrow> 'r list \<Rightarrow> 'r list"
    and key :: "'a \<Rightarrow> 'k"
    and pass :: "'p \<Rightarrow> 'r list \<Rightarrow> 'r list"
  assumes enq_single: "single_slots slot rows \<Longrightarrow> single_slots slot (enq a rows)"
    and enq_occupies: "Some (key a) \<in> slot ` set (enq a rows)"
    and pass_slots: "slots_kept slot rows (pass p rows)"
begin

text \<open>\<open>pass\<close> is any operation of the agent (poll or acknowledgement).\<close>

fun steps :: "('a + 'p) list \<Rightarrow> 'r list \<Rightarrow> 'r list" where
  "steps [] rows = rows"
| "steps (Inl a # ops) rows = steps ops (enq a rows)"
| "steps (Inr p # ops) rows = steps ops (pass p rows)"

lemma steps_single: "single_slots slot rows \<Longrightarrow> single_slots slot (steps ops rows)"
  by (induction ops rows rule: steps.induct) (auto intro: enq_single single_slots_mono [OF pass_slots])

lemma steps_append: "steps (xs @ ys) rows = steps ys (steps xs rows)"
  by (induction xs rows rule: steps.induct) auto

lemma last_enq_outstanding: "Some (key a) \<in> slot ` set (steps (ops @ [Inl a]) rows)"
  by (simp add: steps_append enq_occupies)

end

section \<open>The shared loop meets the delivery contract\<close>

definition attempts_of :: "row \<Rightarrow> int" where
  "attempts_of r = to_int (dget r ''attempts'') 0"

definition hub_num :: "json \<Rightarrow> int" where
  "hub_num v = to_int v 0"

definition service_num :: "json \<Rightarrow> int" where
  "service_num v = int_or v 0"

lemma to_int_JInt [simp]: "to_int (JInt i) d = i"
  by (simp add: to_int_def)

lemma int_or_JInt [simp]: "int_or (JInt i) d = i"
  by (simp add: int_or_def)

lemma command_mark_fields [simp]:
  "dget (command_mark num now t r) k = (if k = ''attempts'' then JInt (num (dget r ''attempts'') + 1)
     else if k = ''deliveredEpoch'' then JInt now else if k = ''deliveredAt'' then JStr t
     else if k = ''status'' then JStr ''delivered'' else dget r k)"
  by (simp add: command_mark_def)

text \<open>The router and the clock text of a poll are its environment.\<close>

interpretation hub_delivery: delivery
  "\<lambda>(router, _) now. command_due hub_num router now" "\<lambda>(_, t) now. command_mark hub_num now t"
  "\<lambda>r. hub_num (dget r ''attempts'')" "\<lambda>r. is_status r ''pending''"
  by unfold_locales (auto simp: command_due_def is_status_def hub_num_def)

interpretation service_delivery: delivery
  "\<lambda>(router, _) now. command_due service_num router now" "\<lambda>(_, t) now. command_mark service_num now t"
  "\<lambda>r. service_num (dget r ''attempts'')" "\<lambda>r. is_status r ''pending''"
  by unfold_locales (auto simp: command_due_def is_status_def service_num_def)

text \<open>A row as the services queue it: pending, not yet handed out.\<close>

definition never_delivered :: "(json \<Rightarrow> int) \<Rightarrow> row \<Rightarrow> bool" where
  "never_delivered num r = (is_status r ''pending'' \<and> num (dget r ''attempts'') = 0)"

lemma delivered_slots:
  assumes "\<And>r. outstanding r \<Longrightarrow> slot (command_mark num now t r) = slot r"
  shows "slots_kept slot rows (fst (deliver_commands num router n now t rows))"
proof -
  have "outstanding r" if "command_due num router now r" for r
    using that by (auto simp: command_due_def outstanding_def)
  with assms show ?thesis
    unfolding slots_kept_def deliver_commands_def
    by (intro list_all2_mono [OF deliver_loop_rows]) auto
qed

lemma close_not_outstanding: "dget r ''status'' = dget (close_command a r0) ''status'' \<Longrightarrow> \<not> outstanding r"
  by (auto simp: outstanding_def is_status_def close_command_def split: if_splits)

lemma ack_slots:
  assumes "\<And>r. \<not> outstanding r \<Longrightarrow> slot r = None" and "\<And>a r. \<not> outstanding (close a r)"
  shows "slots_kept slot rows (fst (ack_rows ident close acks rows))"
  using assms unfolding slots_kept_def ack_rows_def Let_def
  by (auto simp: list_all2_map2 split: option.split intro!: list_all2_refl)

end
