(* ===== verification/Portmap.thy ===== *)
theory Portmap
  imports Commands "HOL-Library.Product_Lexorder"
begin

text \<open>
  Port maps of the hub, \<open>src/hub.py\<close> from \<open>_portmap_rule_id\<close> to \<open>api_router_portmap_status\<close>: cleaning of
  rules, the rules document, the command queue, the request handlers and the reconciliation of the
  router's own rules with the desired ones. The stored documents are the hub's own: command
  rows are dictionaries with a dictionary as payload.
\<close>

section \<open>Identifiers and times\<close>

fun sub_runs :: "(char \<Rightarrow> bool) \<Rightarrow> char \<Rightarrow> bool \<Rightarrow> string \<Rightarrow> string" where
  "sub_runs P c in_run [] = []"
| "sub_runs P c in_run (x # xs) =
     (if P x then (if in_run then sub_runs P c True xs else c # sub_runs P c True xs) else x # sub_runs P c False xs)"

definition rule_id_text :: "string \<Rightarrow> string" where
  "rule_id_text s = take 48 (lower (strip_of (\<lambda>c. c = CHR ''-'')
     (sub_runs (\<lambda>c. \<not> is_word_char c) (CHR ''-'') False (strip s))))"

definition portmap_rule_id :: "env \<Rightarrow> json \<Rightarrow> string" where
  "portmap_rule_id e v = (let raw = rule_id_text (py_str (por v (JStr []))) in if raw = [] then env_fresh e 0 else raw)"

definition strip_brackets :: "string \<Rightarrow> string" where
  "strip_brackets s = strip_of (\<lambda>c. c = CHR ''['' \<or> c = CHR '']'') s"

definition normalize_ipv6_suffix :: "string \<Rightarrow> string + string" where
  "normalize_ipv6_suffix v = (let t = strip_brackets (lower v) in
     if t = [] then Inr [] else
     let candidate = (if contains t ''::'' then t else ''::'' @ dropWhile (\<lambda>c. c = CHR '':'') t) in
     case ip_address candidate of
       None \<Rightarrow> Inl ''invalid address''
     | Some a \<Rightarrow> if ip_version a \<noteq> 6 then Inl ''IPv6 suffix is invalid''
                 else let iid = ip_value a mod 2 ^ 64 in
                   if iid = 0 then Inl ''IPv6 suffix must not be all zero'' else Inr (ipv6_str iid))"

text \<open>
  \<open>int(float(s))\<close> for a decimal numeral with an optional fraction; exponents, infinities and the rounding of
  numerals of more than 15 digits are outside the model.
\<close>

definition float_int :: "string \<Rightarrow> int option" where
  "float_int s = (let t = strip s in
     if CHR ''.'' \<notin> set t then py_int t
     else let a = before (CHR ''.'') t; b = after (CHR ''.'') t in
       if \<not> list_all is_dec b then None
       else if a \<in> {[], ''+'', ''-''} then (if b = [] then None else Some 0)
       else py_int a)"

definition portmap_epoch :: "json \<Rightarrow> int option" where
  "portmap_epoch v =
    (if v \<in> {JNull, JStr [], JInt 0, JBool False, JStr ''0''} then None else
     case float_int (py_str v) of None \<Rightarrow> None
     | Some n \<Rightarrow> (let m = (if 10000000000 < n then n div 1000 else n) in if 0 < m then Some m else None))"

definition portmap_time_epoch :: "env \<Rightarrow> json \<Rightarrow> int option" where
  "portmap_time_epoch e v = (let raw = clean_saved_value v in if raw = [] then None else env_local_epoch e raw)"

definition clamp :: "int \<Rightarrow> int \<Rightarrow> int \<Rightarrow> int" where
  "clamp lo hi i = max lo (min hi i)"

definition portmap_lease_seconds :: "env \<Rightarrow> row \<Rightarrow> row \<Rightarrow> int option \<Rightarrow> int" where
  "portmap_lease_seconds e src old expires =
    (let lease = clamp 0 604800 (to_int (dget_or src ''leaseSeconds'' (dget old ''leaseSeconds'')) 0) in
     if 0 < lease then lease else
     case expires of None \<Rightarrow> lease
     | Some x \<Rightarrow>
       (let base = portmap_time_epoch e (por (dget old ''createdAt'') (dget src ''createdAt''));
            updated = portmap_time_epoch e (por (dget old ''updatedAt'') (dget src ''updatedAt''));
            usable = (\<lambda>t. case t of None \<Rightarrow> False | Some b \<Rightarrow> b \<noteq> 0 \<and> b < x)
        in if usable base then clamp 60 604800 (x - the base)
           else if usable updated then clamp 60 604800 (x - the updated) else 0))"

section \<open>Rules\<close>

definition mac_ok :: "string \<Rightarrow> bool" where
  "mac_ok m = (let parts = split_on (CHR '':'') m in
     length parts = 6 \<and> list_all (\<lambda>p. length p = 2
       \<and> list_all (\<lambda>c. is_dec c \<or> (97 \<le> code c \<and> code c \<le> 102)) p) parts)"

fun private_ipv4 :: "ip \<Rightarrow> bool" where
  "private_ipv4 (V4 n) = (ipv4_is_private n \<or> is_loopback (V4 n) \<or> is_link_local (V4 n))"
| "private_ipv4 (V6 n s) = False"

definition routable_ipv6 :: "ip \<Rightarrow> bool" where
  "routable_ipv6 a = (ip_version a = 6 \<and> \<not> is_link_local a \<and> \<not> is_multicast a \<and> \<not> is_loopback a \<and> \<not> is_unspecified a)"

definition or_default :: "int \<Rightarrow> int \<Rightarrow> int" where
  "or_default i d = (if i = 0 then d else i)"

text \<open>The target of a rule: \<open>targetMode\<close>, \<open>targetIpv4\<close>, \<open>targetIpv6\<close>, snapshot and suffix.\<close>

definition clean_target :: "string \<Rightarrow> row \<Rightarrow> string + (string \<times> string \<times> string \<times> string \<times> string)" where
  "clean_target mode src =
    (let tmode = lower (clean_saved_value (dget src ''targetMode''));
         ipv4 = clean_saved_value (dget src ''targetIpv4'');
         ipv6 = strip_brackets (clean_saved_value (dget src ''targetIpv6''));
         snapshot = strip_brackets (clean_saved_value (dget src ''targetIpv6Snapshot''));
         suffix = lower (clean_saved_value (dget src ''targetIpv6Suffix''))
     in if mode = ''6to4'' then
          (case ip_address ipv4 of
             None \<Rightarrow> Inl ''invalid address''
           | Some a \<Rightarrow> if private_ipv4 a then Inr (''ipv4'', ipv4, [], [], []) else Inl ''6to4 target must be a private IPv4'')
        else if tmode = ''ipv6_full'' then
          (case ip_address ipv6 of
             None \<Rightarrow> Inl ''invalid address''
           | Some a \<Rightarrow> if routable_ipv6 a then Inr (''ipv6_full'', [], ip_str a, ip_str a, []) else Inl ''target IPv6 is invalid'')
        else
          ebind (normalize_ipv6_suffix (clean_saved_value (JStr suffix))) (\<lambda>sfx.
            if sfx = [] then Inl ''target IPv6 suffix is required''
            else if snapshot = [] then Inr (''ipv6_suffix'', [], [], [], sfx)
            else (case ip_address snapshot of
                    None \<Rightarrow> Inl ''invalid address''
                  | Some a \<Rightarrow> if routable_ipv6 a then Inr (''ipv6_suffix'', [], [], ip_str a, sfx)
                              else Inl ''target IPv6 snapshot is invalid'')))"

definition rule_mode :: "row \<Rightarrow> string" where
  "rule_mode src = lower (clean_saved_value (por (dget src ''mode'') (JStr ''6to4'')))"

definition rule_name :: "row \<Rightarrow> string" where
  "rule_name src = take 64 (clean_saved_value (dget src ''name''))"

definition rule_proto :: "row \<Rightarrow> string" where
  "rule_proto src = upper (clean_saved_value (por (dget src ''transportProtocol'') (JStr ''TCP'')))"

definition rule_lease :: "env \<Rightarrow> row \<Rightarrow> row \<Rightarrow> int" where
  "rule_lease e src old = (let expires = portmap_epoch (dget src ''expiresAt'') in
     if expires = None then 0 else portmap_lease_seconds e src old expires)"

text \<open>The returned rule, given the merged input, the old rule and the cleaned target.\<close>

definition portmap_rule_row :: "env \<Rightarrow> row \<Rightarrow> row \<Rightarrow> string \<times> string \<times> string \<times> string \<times> string \<Rightarrow> row" where
  "portmap_rule_row e src old tgt = (case tgt of (tmode, ipv4, ipv6, snapshot, suffix) \<Rightarrow>
    [(''id'', JStr (portmap_rule_id e (por (dget src ''id'') (dget old ''id'')))), (''name'', JStr (rule_name src)),
     (''enabled'', JBool (truthy (dget_or src ''enabled'' (JBool False)))), (''mode'', JStr (rule_mode src)),
     (''listenPort'', JInt (to_int (dget src ''listenPort'') 0)), (''targetMode'', JStr tmode), (''targetIpv4'', JStr ipv4),
     (''targetIpv6'', JStr ipv6), (''targetIpv6Snapshot'', JStr snapshot), (''targetIpv6Suffix'', JStr suffix),
     (''targetMac'', JStr (norm_mac (dget src ''targetMac''))), (''targetPort'', JInt (to_int (dget src ''targetPort'') 0)),
     (''serviceType'', JStr (take 24 (clean_saved_value (dget src ''serviceType'')))),
     (''transportProtocol'', JStr (rule_proto src)),
     (''preferCurrentPrefix'', JBool (truthy (dget_or src ''preferCurrentPrefix'' (JBool True)))),
     (''expiresAt'', (case portmap_epoch (dget src ''expiresAt'') of None \<Rightarrow> JNull | Some x \<Rightarrow> JInt x)),
     (''leaseSeconds'', JInt (rule_lease e src old)),
     (''maxConnections'', JInt (clamp 1 256 (or_default (to_int (dget src ''maxConnections'') 32) 32))),
     (''idleTimeoutSec'', JInt (clamp 30 3600 (or_default (to_int (dget src ''idleTimeoutSec'') 300) 300))),
     (''createdAt'', por (dget old ''createdAt'') (JStr (env_now_str e))), (''updatedAt'', JStr (env_now_str e))])"

definition clean_portmap_rule :: "env \<Rightarrow> row \<Rightarrow> row \<Rightarrow> string + row" where
  "clean_portmap_rule e payload old =
    (let src = dmerge old payload;
         mode = rule_mode src;
         listen = to_int (dget src ''listenPort'') 0;
         tport = to_int (dget src ''targetPort'') 0;
         mac = norm_mac (dget src ''targetMac'')
     in if mode \<noteq> ''6to4'' \<and> mode \<noteq> ''6to6'' then Inl ''mode must be 6to4 or 6to6''
        else if \<not> (20000 \<le> listen \<and> listen \<le> 20020) then Inl ''listen port must be 20000-20020''
        else if \<not> (1 \<le> tport \<and> tport \<le> 65535) then Inl ''target port is invalid''
        else if rule_name src = [] then Inl ''rule name must not be empty''
        else if rule_proto src \<noteq> ''TCP'' \<and> rule_proto src \<noteq> ''UDP'' then Inl ''protocol must be TCP or UDP''
        else if mac \<noteq> [] \<and> \<not> mac_ok mac then Inl ''target MAC is invalid''
        else ebind (clean_target mode src) (\<lambda>tgt. Inr (portmap_rule_row e src old tgt)))"

section \<open>The rules document\<close>

record portmap_doc =
  pd_version :: int
  pd_revision :: int
  pd_updatedAt :: string
  pd_rules :: "row list"

definition identified :: "json \<Rightarrow> row list" where
  "identified v = filter (\<lambda>x. clean_saved_value (dget x ''id'') \<noteq> []) (dict_rows v)"

definition load_portmap_rules_document :: "docs \<Rightarrow> portmap_doc \<times> bool" where
  "load_portmap_rules_document d =
    (let unreadable = (\<lparr>pd_version = 1, pd_revision = 0, pd_updatedAt = [], pd_rules = []\<rparr>, False) in
     case d ''portmaps.json'' of
       None \<Rightarrow> unreadable
     | Some (JObj raw) \<Rightarrow>
         (case dget raw ''rules'' of
            JList rows \<Rightarrow> (\<lparr>pd_version = max 1 (to_int (dget raw ''version'') 1), pd_revision = max 1 (to_int (dget raw ''revision'') 1),
               pd_updatedAt = clean_saved_value (dget raw ''updatedAt''), pd_rules = identified (JList rows)\<rparr>, True)
          | _ \<Rightarrow> unreadable)
     | Some (JList rows) \<Rightarrow> (\<lparr>pd_version = 1, pd_revision = 1, pd_updatedAt = [], pd_rules = identified (JList rows)\<rparr>, True)
     | Some _ \<Rightarrow> unreadable)"

definition load_portmap_rules :: "docs \<Rightarrow> row list" where
  "load_portmap_rules d = pd_rules (fst (load_portmap_rules_document d))"

definition rule_order :: "row \<Rightarrow> int \<times> string \<times> string" where
  "rule_order x = (to_int (dget x ''listenPort'') 0,
     clean_saved_value (por (dget x ''transportProtocol'') (JStr ''TCP'')), clean_saved_value (dget x ''name''))"

definition save_portmap_rules :: "env \<Rightarrow> row list \<Rightarrow> docs \<Rightarrow> docs" where
  "save_portmap_rules e rows d =
    (let sorted_rows = sort_key rule_order (take_last 100 rows);
         previous = fst (load_portmap_rules_document d)
     in save_json d ''portmaps.json'' (JObj [(''version'', JInt 1), (''revision'', JInt (max 0 (pd_revision previous) + 1)),
          (''updatedAt'', JStr (env_now_str e)), (''rules'', JList (map JObj sorted_rows))]))"

definition rule_port :: "row \<Rightarrow> int \<times> string" where
  "rule_port r = (to_int (dget r ''listenPort'') 0,
     upper (clean_saved_value (por (dget r ''transportProtocol'') (JStr ''TCP''))))"

definition portmap_check_conflict :: "row list \<Rightarrow> row \<Rightarrow> string + unit" where
  "portmap_check_conflict rows rule =
     (if list_ex (\<lambda>x. \<not> py_eq (dget x ''id'') (dget rule ''id'') \<and> rule_port x = rule_port rule) rows
      then Inl ''listen port is in use'' else Inr ())"

section \<open>The command queue\<close>

definition portmap_command_rule_id :: "string \<Rightarrow> row \<Rightarrow> string" where
  "portmap_command_rule_id action payload =
     (if action = ''upsert'' \<and> is_dict (dget payload ''rule'') then clean_saved_value (dget (sub_dict payload ''rule'') ''id'')
      else clean_saved_value (dget payload ''id''))"

definition commands_of :: "string \<Rightarrow> docs \<Rightarrow> row list" where
  "commands_of key d = dict_rows (dget (items (load_json d key (JObj [(''commands'', JList [])]))) ''commands'')"

definition save_commands :: "string \<Rightarrow> row list \<Rightarrow> docs \<Rightarrow> docs" where
  "save_commands key rows d = save_json d key (JObj [(''commands'', JList (map JObj rows))])"

definition same_command :: "string \<Rightarrow> string \<Rightarrow> string \<Rightarrow> row \<Rightarrow> bool" where
  "same_command router action rule_id c =
     (dget c ''router'' = JStr router \<and> outstanding c \<and> dget c ''action'' = JStr action
      \<and> portmap_command_rule_id action (sub_dict c ''payload'') = rule_id)"

definition expired_command :: "int \<Rightarrow> row \<Rightarrow> bool" where
  "expired_command now c = ((is_status c ''done'' \<or> is_status c ''failed'') \<and> 86400 < now - to_int (dget c ''finishedEpoch'') now)"

fun update_last :: "('a \<Rightarrow> bool) \<Rightarrow> ('a \<Rightarrow> 'a) \<Rightarrow> 'a list \<Rightarrow> 'a list" where
  "update_last P f [] = []"
| "update_last P f (x # xs) = (if list_ex P xs \<or> \<not> P x then x # update_last P f xs else f x # xs)"

definition queue_portmap_rows :: "env \<Rightarrow> string \<Rightarrow> string \<Rightarrow> string \<Rightarrow> row \<Rightarrow> row list \<Rightarrow> row list" where
  "queue_portmap_rows e cmd_id router action payload rows =
    (let kept = take_last 500 (filter (\<lambda>c. \<not> expired_command (env_now e) c) rows);
         same = same_command router action (portmap_command_rule_id action payload)
     in if list_ex same kept then
          update_last same (\<lambda>c. dset ''updatedAt'' (JStr (env_now_str e)) (dset ''status'' (JStr ''pending'')
            (dset ''payload'' (JObj payload) c))) kept
        else kept @ [[(''id'', JStr cmd_id), (''router'', JStr router), (''action'', JStr action), (''payload'', JObj payload),
               (''status'', JStr ''pending''), (''attempts'', JInt 0), (''createdAt'', JStr (env_now_str e)),
               (''createdEpoch'', JInt (env_now e))]])"

definition queue_portmap_command :: "env \<Rightarrow> string \<Rightarrow> string \<Rightarrow> row \<Rightarrow> string \<Rightarrow> docs \<Rightarrow> docs" where
  "queue_portmap_command e cmd_id action payload router d =
     save_commands ''portmap_commands.json''
       (queue_portmap_rows e cmd_id (if router = [] then env_router e else router) action payload
         (commands_of ''portmap_commands.json'' d)) d"

definition portmap_command_sync_states :: "string \<Rightarrow> docs \<Rightarrow> (string \<times> string) list" where
  "portmap_command_sync_states router d =
    foldr (\<lambda>c states.
      let rid = portmap_command_rule_id (clean_saved_value (dget c ''action'')) (sub_dict c ''payload'');
          s = clean_saved_value (dget c ''status'')
      in if dget c ''router'' \<noteq> JStr router \<or> rid = [] \<or> map_of states rid \<noteq> None then states
         else if s = ''pending'' \<or> s = ''delivered'' then dset rid ''syncing'' states
         else if s = ''failed'' then dset rid ''error'' states
         else if s = ''done'' then dset rid ''synced'' states else states)
      (commands_of ''portmap_commands.json'' d) []"

section \<open>Runtime and history\<close>

definition status_rows :: "row \<Rightarrow> row list" where
  "status_rows rs = (let status = (if is_dict (dget rs ''status'') then sub_dict rs ''status'' else rs)
     in dict_rows (dget status ''rules''))"

definition runtime_id :: "row \<Rightarrow> string" where
  "runtime_id r = clean_saved_value (por (dget (sub_dict r ''runtime'') ''id'') (dget (sub_dict r ''rule'') ''id''))"

definition normal_runtime :: "row \<Rightarrow> row" where
  "normal_runtime rt = fold (\<lambda>k r. case portmap_epoch (dget r k) of None \<Rightarrow> r | Some n \<Rightarrow> dset k (JInt n) r)
     [''startedAt'', ''expiresAt'', ''lastResolvedAt''] rt"

definition portmap_runtime_map :: "row \<Rightarrow> (string \<times> row) list" where
  "portmap_runtime_map router_status = dict_of (concat (map (\<lambda>r.
     if runtime_id r = [] then [] else [(runtime_id r, normal_runtime (sub_dict r ''runtime''))]) (status_rows router_status)))"

definition history_sample :: "env \<Rightarrow> row \<Rightarrow> json" where
  "history_sample e rt = JObj [(''time'', JInt (env_now e)), (''activeConnections'', JInt (to_int (dget rt ''activeConnections'') 0)),
     (''activePeers'', JInt (to_int (dget rt ''activePeers'') 0)), (''uploadBytes'', JInt (to_int (dget rt ''totalUploadBytes'') 0)),
     (''downloadBytes'', JInt (to_int (dget rt ''totalDownloadBytes'') 0)),
     (''uploadPackets'', JInt (to_int (dget rt ''totalUploadPackets'') 0)),
     (''downloadPackets'', JInt (to_int (dget rt ''totalDownloadPackets'') 0)), (''state'', JStr (clean_saved_value (dget rt ''state'')))]"

definition append_sample :: "env \<Rightarrow> row \<Rightarrow> row \<times> bool \<Rightarrow> row \<times> bool" where
  "append_sample e r hc = (case hc of (history, dirty) \<Rightarrow>
     let rid = runtime_id r; samples = elems (dget history rid) in
     if rid = [] then hc
     else if samples \<noteq> [] \<and> env_now e - to_int (dget (items (last samples)) ''time'') 0 < 60 then hc
     else (dset rid (JList (take_last 1440 (samples @ [history_sample e (sub_dict r ''runtime'')]))) history, True))"

definition append_portmap_history :: "env \<Rightarrow> row \<Rightarrow> docs \<Rightarrow> docs" where
  "append_portmap_history e status_payload d =
    (let history = items (load_json d ''portmap_history.json'' (JObj [])) in
     case fold (append_sample e) (status_rows status_payload) (history, False) of
       (history', dirty) \<Rightarrow> if dirty then save_json d ''portmap_history.json'' (JObj history') else d)"

definition api_portmap_history :: "env \<Rightarrow> string \<Rightarrow> json \<Rightarrow> docs \<Rightarrow> int \<times> json list" where
  "api_portmap_history e rule_id minutes d =
    (let m = clamp 5 1440 (or_default (to_int minutes 60) 60);
         cutoff = env_now e - m * 60
     in (m, filter (\<lambda>x. cutoff \<le> to_int (dget (items x) ''time'') 0)
          (elems (dget (items (load_json d ''portmap_history.json'' (JObj []))) rule_id))))"

section \<open>Request handlers\<close>

datatype pm_reply = PmUnauthorized | PmNotFound | PmError string | PmRule row | PmDeleted string

fun pm_code :: "pm_reply \<Rightarrow> int" where
  "pm_code PmUnauthorized = 401"
| "pm_code PmNotFound = 404"
| "pm_code (PmError m) = 400"
| "pm_code _ = 200"

definition api_portmaps_rows :: "env \<Rightarrow> docs \<Rightarrow> row list" where
  "api_portmaps_rows e d =
    (let status = items (load_json d ''portmap_router_status.json'' (JObj []));
         runtime = portmap_runtime_map status;
         router = py_str (dget_or status ''router'' (JStr (env_router e)));
         states = portmap_command_sync_states router d
     in map (\<lambda>r. let rid = py_str (dget r ''id'') in
          dmerge r [(''runtime'', JObj (case map_of runtime rid of None \<Rightarrow> [] | Some x \<Rightarrow> x)),
                    (''syncState'', JStr (case map_of states rid of None \<Rightarrow> ''synced'' | Some s \<Rightarrow> s))])
        (load_portmap_rules d))"

definition api_portmaps_post :: "env \<Rightarrow> bool \<Rightarrow> row \<Rightarrow> docs \<Rightarrow> pm_reply \<times> docs" where
  "api_portmaps_post e authorized payload d =
    (if \<not> authorized then (PmUnauthorized, d) else
     case clean_portmap_rule e payload [] of
       Inl m \<Rightarrow> (PmError m, d)
     | Inr rule \<Rightarrow>
        let rows = load_portmap_rules d in
        (case portmap_check_conflict rows rule of
           Inl m \<Rightarrow> (PmError m, d)
         | Inr _ \<Rightarrow>
            (let d1 = save_portmap_rules e (rows @ [rule]) d;
                 d2 = queue_portmap_command e (env_fresh e 1) ''upsert'' [(''rule'', JObj rule)] [] d1
             in (PmRule rule, add_event (env_now_str e) [(''type'', JStr ''portmap_created''),
                   (''title'', JStr (''port map created: '' @ py_str (dget rule ''name''))), (''name'', dget rule ''name''),
                   (''newValue'', JStr (''IPv6:'' @ py_str (dget rule ''listenPort'')))] d2))))"

definition with_id :: "string \<Rightarrow> row \<Rightarrow> bool" where
  "with_id i x = (dget x ''id'' = JStr i)"

definition api_portmap_delete :: "env \<Rightarrow> bool \<Rightarrow> string \<Rightarrow> docs \<Rightarrow> pm_reply \<times> docs" where
  "api_portmap_delete e authorized rule_id d =
    (if \<not> authorized then (PmUnauthorized, d) else
     let rows = load_portmap_rules d in
     case List.find (with_id rule_id) rows of
       None \<Rightarrow> (PmNotFound, d)
     | Some old \<Rightarrow>
        (let d1 = save_portmap_rules e (filter (\<lambda>x. \<not> with_id rule_id x) rows) d;
             d2 = queue_portmap_command e (env_fresh e 1) ''delete'' [(''id'', JStr rule_id)] [] d1
         in (PmDeleted rule_id, add_event (env_now_str e) [(''type'', JStr ''portmap_deleted''),
               (''title'', JStr (''port map deleted: '' @ py_str (dget old ''name''))), (''name'', dget old ''name''),
               (''oldValue'', JStr (py_str (dget old ''listenPort'')))] d2)))"

definition api_portmap_put :: "env \<Rightarrow> bool \<Rightarrow> string \<Rightarrow> row \<Rightarrow> docs \<Rightarrow> pm_reply \<times> docs" where
  "api_portmap_put e authorized rule_id payload d =
    (if \<not> authorized then (PmUnauthorized, d) else
     let rows = load_portmap_rules d in
     case List.find (with_id rule_id) rows of
       None \<Rightarrow> (PmNotFound, d)
     | Some old \<Rightarrow>
        (case ebind (clean_portmap_rule e (dset ''id'' (JStr rule_id) payload) old) (\<lambda>rule.
                ebind (portmap_check_conflict rows rule) (\<lambda>_. Inr rule)) of
           Inl m \<Rightarrow> (PmError m, d)
         | Inr rule \<Rightarrow>
            (let d1 = save_portmap_rules e (map (\<lambda>x. if with_id rule_id x then rule else x) rows) d
             in (PmRule rule, queue_portmap_command e (env_fresh e 1) ''upsert'' [(''rule'', JObj rule)] [] d1))))"

definition restart_lease :: "env \<Rightarrow> row \<Rightarrow> string + row" where
  "restart_lease e rule = (case portmap_epoch (dget rule ''expiresAt'') of
     None \<Rightarrow> Inr rule
   | Some x \<Rightarrow>
      let lease = max 0 (to_int (dget rule ''leaseSeconds'') 0) in
      if env_now e < x then Inr rule
      else if lease \<le> 0 then Inl ''rule has no lease duration''
      else Inr (dset ''expiresAt'' (JInt (env_now e + lease)) rule))"

definition api_portmap_action :: "env \<Rightarrow> bool \<Rightarrow> string \<Rightarrow> string \<Rightarrow> docs \<Rightarrow> pm_reply \<times> docs" where
  "api_portmap_action e authorized rule_id action d =
    (if \<not> authorized then (PmUnauthorized, d)
     else if action \<noteq> ''start'' \<and> action \<noteq> ''stop'' then (PmError ''invalid action'', d) else
     let rows = load_portmap_rules d; start = (action = ''start'') in
     case List.find (with_id rule_id) rows of
       None \<Rightarrow> (PmNotFound, d)
     | Some r \<Rightarrow>
        (let r1 = dset ''enabled'' (JBool start) r in
         case (if start then restart_lease e r1 else Inr r1) of
           Inl m \<Rightarrow> (PmError m, d)
         | Inr r2 \<Rightarrow>
            (let rule = dset ''updatedAt'' (JStr (env_now_str e)) r2;
                 d1 = save_portmap_rules e (map (\<lambda>x. if with_id rule_id x then rule else x) rows) d
             in (PmRule rule,
                 if start then queue_portmap_command e (env_fresh e 1) ''upsert'' [(''rule'', JObj rule)] [] d1
                 else queue_portmap_command e (env_fresh e 1) ''stop'' [(''id'', JStr rule_id)] [] d1))))"

section \<open>The agent\<close>

definition api_router_portmap_commands :: "env \<Rightarrow> bool \<Rightarrow> json \<Rightarrow> json \<Rightarrow> docs \<Rightarrow> json list option \<times> docs" where
  "api_router_portmap_commands e authorized router_arg limit_arg d =
    (if \<not> authorized then (None, d) else
     let router = (let r = clean_saved_value router_arg in if r = [] then env_router e else r);
         limit = nat (clamp 1 50 (or_default (to_int limit_arg 20) 20));
         (rows, sel) = deliver_commands hub_num router limit (env_now e) (env_now_str e) (commands_of ''portmap_commands.json'' d)
     in (Some (map (command_view [''id'', ''action'', ''payload'', ''createdAt'']) sel),
         if sel = [] then d else save_commands ''portmap_commands.json'' rows d))"

definition close_portmap :: "env \<Rightarrow> row \<Rightarrow> row \<Rightarrow> row" where
  "close_portmap e a r = dset ''finishedEpoch'' (JInt (env_now e)) (dset ''finishedAt'' (JStr (env_now_str e)) (close_command a r))"

definition api_router_portmap_ack :: "env \<Rightarrow> bool \<Rightarrow> row \<Rightarrow> docs \<Rightarrow> nat option \<times> docs" where
  "api_router_portmap_ack e authorized payload d =
    (if \<not> authorized then (None, d) else
     case ack_rows clean_saved_value (close_portmap e) (dget payload ''acks'') (commands_of ''portmap_commands.json'' d) of
       (rows, n) \<Rightarrow> (Some n, if n = 0 then d else save_commands ''portmap_commands.json'' rows d))"

definition COMPARE_KEYS :: "string list" where
  "COMPARE_KEYS = [''enabled'', ''mode'', ''listenPort'', ''targetMode'', ''targetIpv4'', ''targetIpv6'', ''targetIpv6Suffix'',
     ''targetMac'', ''targetPort'', ''transportProtocol'', ''expiresAt'', ''leaseSeconds'', ''maxConnections'', ''idleTimeoutSec'']"

definition desired_rules :: "docs \<Rightarrow> (string \<times> row) list" where
  "desired_rules d = dict_of (map (\<lambda>x. (clean_saved_value (dget x ''id''), x)) (load_portmap_rules d))"

definition local_rules :: "row \<Rightarrow> (string \<times> row) list" where
  "local_rules payload = dict_of (concat (map (\<lambda>r.
     let rule = sub_dict r ''rule'';
         rid = clean_saved_value (por (dget rule ''id'') (dget (sub_dict r ''runtime'') ''id''))
     in if rid = [] then [] else [(rid, rule)]) (dict_rows (dget payload ''rules''))))"

definition out_of_date :: "(string \<times> row) list \<Rightarrow> string \<Rightarrow> row \<Rightarrow> bool" where
  "out_of_date locals rid rule = (case map_of locals rid of
     None \<Rightarrow> True
   | Some l \<Rightarrow> l = [] \<or> list_ex (\<lambda>k. \<not> py_eq (dget l k) (dget rule k)) COMPARE_KEYS)"

text \<open>The commands that a status report gives rise to, in the order in which they are queued.\<close>

definition reconcile_commands :: "row \<Rightarrow> docs \<Rightarrow> (string \<times> row) list" where
  "reconcile_commands payload d =
    (let desired = desired_rules d; locals = local_rules payload in
     map (\<lambda>(rid, rule). (''upsert'', [(''rule'', JObj rule)])) (filter (\<lambda>(rid, rule). out_of_date locals rid rule) desired)
     @ (if snd (load_portmap_rules_document d)
        then map (\<lambda>(rid, _). (''delete'', [(''id'', JStr rid)])) (filter (\<lambda>(rid, _). map_of desired rid = None) locals)
        else []))"

fun queue_all :: "env \<Rightarrow> string \<Rightarrow> nat \<Rightarrow> (string \<times> row) list \<Rightarrow> docs \<Rightarrow> docs" where
  "queue_all e router n [] d = d"
| "queue_all e router n ((action, payload) # cs) d =
     queue_all e router (Suc n) cs (queue_portmap_command e (env_fresh e n) action payload router d)"

definition api_router_portmap_status :: "env \<Rightarrow> bool \<Rightarrow> json \<Rightarrow> row \<Rightarrow> docs \<Rightarrow> bool \<times> docs" where
  "api_router_portmap_status e authorized router_arg payload d =
    (if \<not> authorized then (False, d) else
     let router = (let r = clean_saved_value router_arg in if r = [] then env_router e else r);
         rec = [(''router'', JStr router), (''receivedAt'', JStr (env_now_str e)), (''receivedEpoch'', JInt (env_now e)),
                (''status'', JObj payload)];
         d1 = append_portmap_history e rec (save_json d ''portmap_router_status.json'' (JObj rec))
     in (True, queue_all e router 1 (reconcile_commands payload d1) d1))"

end
