(* ===== verification/PortmapRuns.thy ===== *)
theory PortmapRuns
  imports Portmap
begin

text \<open>
  Properties of the port maps: one outstanding command per slot and bounded delivery (interpretations of
  the queue interfaces), unique listening ports and the request that breaks them, reconciliation with
  the rules that run on the router, and the limits of a cleaned rule.
\<close>

section \<open>The queue holds one outstanding command per slot\<close>

definition pm_slot :: "row \<Rightarrow> (json \<times> string \<times> string) option" where
  "pm_slot c = (if outstanding c then (case dget c ''action'' of
       JStr a \<Rightarrow> Some (dget c ''router'', a, portmap_command_rule_id a (sub_dict c ''payload'')) | _ \<Rightarrow> None)
     else None)"

lemma same_command_slot: "same_command router action rid c \<longleftrightarrow> pm_slot c = Some (JStr router, action, rid)"
  by (auto simp: same_command_def pm_slot_def split: json.splits)

lemma pm_slot_closed: "\<not> outstanding r \<Longrightarrow> pm_slot r = None"
  by (simp add: pm_slot_def)

lemma pm_slot_mark: "outstanding r \<Longrightarrow> pm_slot (command_mark num now t r) = pm_slot r"
  by (simp add: pm_slot_def outstanding_def is_status_def sub_dict_def split: json.split)

lemma update_last_all2: "list_all2 (\<lambda>x y. y = x \<or> P x \<and> y = f x) xs (update_last P f xs)"
  by (induction xs) (auto simp: list_all2_refl)

lemma update_last_in: "list_ex P xs \<Longrightarrow> \<exists>x\<in>set xs. P x \<and> f x \<in> set (update_last P f xs)"
  by (induction xs) (auto simp: list_ex_iff)

lemma update_last_keeps: "x \<in> set xs \<Longrightarrow> \<not> P x \<Longrightarrow> x \<in> set (update_last P f xs)"
  by (induction xs) auto

lemma update_last_length [simp]: "length (update_last P f xs) = length xs"
  by (induction xs) auto

abbreviation requeued :: "env \<Rightarrow> row \<Rightarrow> row \<Rightarrow> row" where
  "requeued e payload c \<equiv> dset ''updatedAt'' (JStr (env_now_str e)) (dset ''status'' (JStr ''pending'') (dset ''payload'' (JObj payload) c))"

lemma requeued_slot:
  "pm_slot c = Some (JStr router, action, rid) \<Longrightarrow> rid = portmap_command_rule_id action payload
    \<Longrightarrow> pm_slot (requeued e payload c) = Some (JStr router, action, rid)"
  by (auto simp: pm_slot_def outstanding_def is_status_def sub_dict_def split: json.splits if_splits)

abbreviation new_command :: "env \<Rightarrow> string \<Rightarrow> string \<Rightarrow> string \<Rightarrow> row \<Rightarrow> row" where
  "new_command e cmd_id router action payload \<equiv> [(''id'', JStr cmd_id), (''router'', JStr router), (''action'', JStr action),
     (''payload'', JObj payload), (''status'', JStr ''pending''), (''attempts'', JInt 0), (''createdAt'', JStr (env_now_str e)),
     (''createdEpoch'', JInt (env_now e))]"

lemma new_command_slot:
  "pm_slot (new_command e cmd_id router action payload) = Some (JStr router, action, portmap_command_rule_id action payload)"
  by (simp add: pm_slot_def outstanding_def is_status_def sub_dict_def)

lemma queue_single:
  assumes "single_slots pm_slot rows"
  shows "single_slots pm_slot (queue_portmap_rows e cmd_id router action payload rows)"
proof -
  let ?k = "Some (JStr router, action, portmap_command_rule_id action payload)"
  let ?kept = "take_last 500 (filter (\<lambda>c. \<not> expired_command (env_now e) c) rows)"
  let ?same = "same_command router action (portmap_command_rule_id action payload)"
  have k: "single_slots pm_slot ?kept" by (intro single_slots_take_last single_slots_filter assms)
  show ?thesis
  proof (cases "list_ex ?same ?kept")
    case True
    have "slots_kept pm_slot ?kept (update_last ?same (requeued e payload) ?kept)"
      unfolding slots_kept_def using update_last_all2
      by (rule list_all2_mono) (auto simp: same_command_slot requeued_slot)
    with k True show ?thesis by (simp add: queue_portmap_rows_def Let_def single_slots_mono)
  next
    case False
    then have "?k \<notin> pm_slot ` set ?kept" by (auto simp: list_ex_iff same_command_slot image_iff)
    with k have "single_slots pm_slot (?kept @ [new_command e cmd_id router action payload])"
      by (intro single_slots_snoc) (simp_all add: new_command_slot)
    with False show ?thesis by (simp add: queue_portmap_rows_def Let_def)
  qed
qed

lemma queue_occupies:
  "\<exists>c\<in>set (queue_portmap_rows e cmd_id router action payload rows).
     pm_slot c = Some (JStr router, action, portmap_command_rule_id action payload) \<and> dget c ''payload'' = JObj payload"
proof -
  let ?kept = "take_last 500 (filter (\<lambda>c. \<not> expired_command (env_now e) c) rows)"
  let ?same = "same_command router action (portmap_command_rule_id action payload)"
  show ?thesis
  proof (cases "list_ex ?same ?kept")
    case True
    from update_last_in [OF this, of "requeued e payload"] obtain x where
      "?same x" "requeued e payload x \<in> set (update_last ?same (requeued e payload) ?kept)" by auto
    then have "requeued e payload x \<in> set (queue_portmap_rows e cmd_id router action payload rows)"
      "pm_slot (requeued e payload x) = Some (JStr router, action, portmap_command_rule_id action payload)"
      using True by (auto simp: queue_portmap_rows_def Let_def same_command_slot requeued_slot)
    then show ?thesis by (intro bexI) auto
  next
    case False
    then have "new_command e cmd_id router action payload \<in> set (queue_portmap_rows e cmd_id router action payload rows)"
      by (simp add: queue_portmap_rows_def Let_def)
    then show ?thesis using new_command_slot by (intro bexI) auto
  qed
qed

text \<open>The agent's side of the queue: a poll or an acknowledgement.\<close>

type_synonym pm_agent = "(string \<times> nat \<times> int \<times> string) + (env \<times> json)"

fun pm_pass :: "pm_agent \<Rightarrow> row list \<Rightarrow> row list" where
  "pm_pass (Inl (router, n, now, t)) rows = fst (deliver_commands hub_num router n now t rows)"
| "pm_pass (Inr (e, acks)) rows = fst (ack_rows clean_saved_value (close_portmap e) acks rows)"

lemma close_portmap_closed: "\<not> outstanding (close_portmap e a r)"
  by (rule close_not_outstanding [of _ a r]) (simp add: close_portmap_def)

lemma pm_pass_slots: "slots_kept pm_slot rows (pm_pass p rows)"
proof (cases p)
  case (Inl q)
  obtain router n now t where q: "q = (router, n, now, t)" by (cases q) auto
  have "slots_kept pm_slot rows (fst (deliver_commands hub_num router n now t rows))"
    by (rule delivered_slots) (rule pm_slot_mark)
  then show ?thesis using Inl q by simp
next
  case (Inr q)
  obtain e acks where "q = (e, acks)" by (cases q)
  with Inr show ?thesis by (simp add: ack_slots pm_slot_closed close_portmap_closed)
qed

interpretation pm_queue: slot_queue pm_slot
  "\<lambda>(e, cmd_id, router, action, payload). queue_portmap_rows e cmd_id router action payload"
  "\<lambda>(e, cmd_id, router, action, payload). (JStr router, action, portmap_command_rule_id action payload)" pm_pass
proof
  show "Some (case a of (e, cmd_id, router, action, payload) \<Rightarrow> (JStr router, action, portmap_command_rule_id action payload))
      \<in> pm_slot ` set ((case a of (e, cmd_id, router, action, payload) \<Rightarrow> queue_portmap_rows e cmd_id router action payload) rows)" for a rows
    using queue_occupies by (cases a) (auto simp: image_iff, metis)
qed (auto simp: queue_single pm_pass_slots)

datatype pm_op = Queue env string string string row | Agent pm_agent

fun pm_step :: "pm_op \<Rightarrow> row list \<Rightarrow> row list" where
  "pm_step (Queue e cmd_id router action payload) rows = queue_portmap_rows e cmd_id router action payload rows"
| "pm_step (Agent p) rows = pm_pass p rows"

fun pm_op_of :: "pm_op \<Rightarrow> (env \<times> string \<times> string \<times> string \<times> row) + pm_agent" where
  "pm_op_of (Queue e cmd_id router action payload) = Inl (e, cmd_id, router, action, payload)"
| "pm_op_of (Agent p) = Inr p"

lemma pm_steps: "fold pm_step ops rows = pm_queue.steps (map pm_op_of ops) rows"
proof (induction ops arbitrary: rows)
  case (Cons op ops)
  then show ?case by (cases op) simp_all
qed simp

text \<open>C8: However requests, polls and acknowledgements interleave, the port-map queue never holds two
  outstanding commands for the same router, action and rule: a repeated request replaces the payload
  of the waiting command.\<close>

theorem portmap_single_outstanding: "single_slots pm_slot (fold pm_step ops [])"
  unfolding pm_steps by (rule pm_queue.steps_single) simp

section \<open>Deliveries\<close>

fun pm_polls :: "(string \<times> nat \<times> int \<times> string) list \<Rightarrow> row list \<Rightarrow> row list" where
  "pm_polls [] rows = rows"
| "pm_polls ((router, n, now, t) # ps) rows = pm_polls ps (fst (deliver_commands hub_num router n now t rows))"

lemma pm_polls_eq: "pm_polls ps rows = hub_delivery.polls (map (\<lambda>(router, n, now, t). ((router, t), n, now)) ps) rows"
  by (induction ps rows rule: pm_polls.induct) (simp_all add: hub_delivery.poll_def deliver_commands_def)

text \<open>Over any number of polls, by any routers at any times, a queued command is handed out at most
  five times, and a poll within 15 seconds of another one hands out no command that the other
  one handed out.\<close>

theorem portmap_delivery_bounded:
  assumes "list_all (never_delivered hub_num) rows" and "later < now + 15"
    and "deliver_commands hub_num router n now t (pm_polls ps rows) = (rows1, sel1)" and "c \<in> set sel1"
    and "deliver_commands hub_num router' n' later t' rows1 = (rows2, sel2)"
  shows "list_all (\<lambda>r. hub_num (dget r ''attempts'') \<le> 5) (pm_polls ps rows)
    \<and> c \<in> set (pm_polls ps rows) \<and> command_mark hub_num now t c \<notin> set sel2"
proof (intro conjI)
  have "list_all hub_delivery.capped rows"
    using assms(1) by (auto simp: list_all_iff never_delivered_def hub_delivery.capped_def)
  from hub_delivery.polls_capped [OF this] show "list_all (\<lambda>r. hub_num (dget r ''attempts'') \<le> 5) (pm_polls ps rows)"
    by (auto simp: pm_polls_eq list_all_iff hub_delivery.capped_def)
  show "c \<in> set (pm_polls ps rows)"
    using assms(3,4) deliver_loop_due unfolding deliver_commands_def by (metis snd_conv)
  show "command_mark hub_num now t c \<notin> set sel2"
    using hub_delivery.no_duplicate_delivery [OF assms(2), of "(router, t)" c "(router', t')" n' rows1] assms(5)
    by (simp add: deliver_commands_def)
qed

definition demo_env :: env where
  "demo_env = \<lparr>env_now = 100, env_now_str = ''t'', env_now_text = ''t'', env_fresh = (\<lambda>n. CHR ''f'' # nat_str n),
     env_router = ''r'', env_local_epoch = (\<lambda>_. None)\<rparr>"

definition demo_rows :: "row list" where
  "demo_rows = queue_portmap_rows demo_env ''c'' ''r'' ''stop'' [(''id'', JStr ''a'')] []"

theorem portmap_delivery_bounded_witness:
  "list_all (\<lambda>r. hub_num (dget r ''attempts'') \<le> 5) (pm_polls [] demo_rows)
    \<and> hd demo_rows \<in> set (pm_polls [] demo_rows)
    \<and> command_mark hub_num 0 ''t'' (hd demo_rows)
        \<notin> set (snd (deliver_commands hub_num ''r'' 5 9 ''u'' (fst (deliver_commands hub_num ''r'' 5 0 ''t'' demo_rows))))"
proof (rule portmap_delivery_bounded [where later = 9 and router' = "''r''" and n' = 5 and t' = "''u''"])
  show "list_all (never_delivered hub_num) demo_rows" by code_simp
  show "deliver_commands hub_num ''r'' 5 0 ''t'' (pm_polls [] demo_rows)
      = (fst (deliver_commands hub_num ''r'' 5 0 ''t'' demo_rows), snd (deliver_commands hub_num ''r'' 5 0 ''t'' demo_rows))"
    by simp
  show "hd demo_rows \<in> set (snd (deliver_commands hub_num ''r'' 5 0 ''t'' demo_rows))" by code_simp
qed (simp, rule prod.collapse [symmetric])

text \<open>What a poll is meant to do, without its loop: of the due rows the first \<open>n\<close> are marked.\<close>

definition mark_first :: "nat \<Rightarrow> ('r \<Rightarrow> bool) \<Rightarrow> ('r \<Rightarrow> 'r) \<Rightarrow> 'r list \<Rightarrow> 'r list" where
  "mark_first n due mark rows =
     map (\<lambda>i. if due (rows ! i) \<and> length (filter due (take i rows)) < n then mark (rows ! i) else rows ! i) [0..<length rows]"

lemma mark_first_Nil: "mark_first n due mark [] = []"
  by (simp add: mark_first_def)

lemma mark_first_0: "mark_first 0 due mark rows = rows"
  by (simp add: mark_first_def map_nth)

lemma mark_first_Cons:
  "mark_first n due mark (r # rows) =
     (if due r \<and> 0 < n then mark r else r) # mark_first (if due r then n - 1 else n) due mark rows"
proof -
  have "[0..<length (r # rows)] = 0 # map Suc [0..<length rows]" by (simp add: upt_conv_Cons map_Suc_upt del: upt_Suc)
  then show ?thesis by (auto simp: mark_first_def)
qed

lemma deliver_loop_reference:
  "deliver_loop due mark (Suc n) rows = (mark_first (Suc n) due mark rows, take (Suc n) (filter due rows))"
proof (induction rows arbitrary: n)
  case (Cons r rows)
  then show ?case by (cases n) (simp_all add: mark_first_Cons mark_first_0)
qed (simp add: mark_first_Nil)

text \<open>C16: The polling loop with its early exit, which the port-map, STUN and WireGuard queues share, does what the
  reference says: it hands out the first due commands in queue order, at most as many as the limit, marks exactly
  these as delivered and leaves every other command as it was.\<close>

theorem deliver_commands_reference:
  "deliver_commands num router (Suc limit) now t rows =
    (mark_first (Suc limit) (command_due num router now) (command_mark num now t) rows,
     take (Suc limit) (filter (command_due num router now) rows))"
  unfolding deliver_commands_def by (rule deliver_loop_reference)

text \<open>Each delivery uses up one of the five attempts.\<close>

lemma deliver_loop_budget:
  assumes "\<And>r. r \<in> set rows \<Longrightarrow> due r \<Longrightarrow> b (mark r) + 1 \<le> (b r :: nat)"
  shows "sum_list (map b (fst (deliver_loop due mark n rows))) + length (snd (deliver_loop due mark n rows)) \<le> sum_list (map b rows)"
  using assms
proof (induction due mark n rows rule: deliver_loop.induct)
  case (2 due mark n r rs)
  have "b (mark r) + 1 \<le> b r" if "due r" using 2(3) that by simp
  moreover have "sum_list (map b (fst (deliver_loop due mark (n - 1) rs))) + length (snd (deliver_loop due mark (n - 1) rs)) \<le> sum_list (map b rs)"
    if "due r" "\<not> n \<le> 1" using 2(1) [OF that] 2(3) by simp
  moreover have "sum_list (map b (fst (deliver_loop due mark n rs))) + length (snd (deliver_loop due mark n rs)) \<le> sum_list (map b rs)"
    if "\<not> due r" using 2(2) [OF that] 2(3) by simp
  ultimately show ?case by (force split: prod.split)
qed simp

context delivery
begin

definition budget :: "'r \<Rightarrow> nat" where
  "budget r = nat (5 - attempts r)"

lemma poll_budget:
  assumes "list_all capped rows"
  shows "sum_list (map budget (poll e n now rows)) + length (snd (deliver_loop (due e now) (mark e now) n rows)) \<le> sum_list (map budget rows)"
  unfolding poll_def
proof (rule deliver_loop_budget)
  fix r assume "r \<in> set rows" "due e now r"
  with assms due_bound [of e now r] have "attempts r < 5" by (auto simp: list_all_iff capped_def)
  then show "budget (mark e now r) + 1 \<le> budget r" by (simp add: budget_def attempts_mark)
qed

end

fun pm_handed :: "(string \<times> nat \<times> int \<times> string) list \<Rightarrow> row list \<Rightarrow> row list list" where
  "pm_handed [] rows = []"
| "pm_handed ((router, n, now, t) # ps) rows =
     (case deliver_commands hub_num router n now t rows of (rows', sel) \<Rightarrow> sel # pm_handed ps rows')"

lemma handed_budget:
  "list_all hub_delivery.capped rows \<Longrightarrow> sum_list (map length (pm_handed ps rows)) \<le> sum_list (map hub_delivery.budget rows)"
proof (induction ps arbitrary: rows)
  case (Cons p ps)
  obtain router n now t where p: "p = (router, n, now, t)" by (cases p)
  let ?rows' = "hub_delivery.poll (router, t) n now rows"
  have d: "deliver_commands hub_num router n now t rows
      = (?rows', snd (deliver_loop (command_due hub_num router now) (command_mark hub_num now t) n rows))"
    by (simp add: deliver_commands_def hub_delivery.poll_def)
  show ?case
    using Cons.IH [OF hub_delivery.poll_capped [OF Cons.prems], of "(router, t)" n now]
      hub_delivery.poll_budget [OF Cons.prems, of "(router, t)" n now] by (simp add: p d)
qed simp

lemma budget_bound: "list_all (never_delivered hub_num) rows \<Longrightarrow> sum_list (map hub_delivery.budget rows) = 5 * length rows"
  by (induction rows) (auto simp: never_delivered_def hub_delivery.budget_def)

lemma nonempty_length: "length (filter (\<lambda>sel. sel \<noteq> []) xs) \<le> sum_list (map length xs)"
proof (induction xs)
  case (Cons x xs)
  then show ?case by (cases x) simp_all
qed simp

text \<open>Polling dies out. An agent that never acknowledges anything gets, over any sequence of polls at any times, at
  most five hand-outs per queued command; polls that find work are finitely many, so polling until there is none ends.\<close>

theorem portmap_polling_ends:
  assumes "list_all (never_delivered hub_num) rows"
  shows "sum_list (map length (pm_handed ps rows)) \<le> 5 * length rows
    \<and> length (filter (\<lambda>sel. sel \<noteq> []) (pm_handed ps rows)) \<le> 5 * length rows"
proof -
  have "list_all hub_delivery.capped rows"
    using assms by (auto simp: list_all_iff never_delivered_def hub_delivery.capped_def)
  from handed_budget [OF this, of ps] budget_bound [OF assms] nonempty_length [of "pm_handed ps rows"] show ?thesis by simp
qed

theorem portmap_polling_ends_witness:
  "sum_list (map length (pm_handed [(''r'', 5, 0, ''t''), (''r'', 5, 20, ''t''), (''r'', 5, 40, ''t'')] demo_rows)) \<le> 5 * length demo_rows
    \<and> length (filter (\<lambda>sel. sel \<noteq> []) (pm_handed [(''r'', 5, 0, ''t''), (''r'', 5, 20, ''t''), (''r'', 5, 40, ''t'')] demo_rows)) \<le> 5 * length demo_rows"
proof (rule portmap_polling_ends)
  show "list_all (never_delivered hub_num) demo_rows" by code_simp
qed

section \<open>Listening ports are unique\<close>

definition rows_unique :: "row list \<Rightarrow> bool" where
  "rows_unique rows = (distinct (map (\<lambda>r. dget r ''id'') rows) \<and> distinct (map rule_port rows))"

definition rules_unique :: "docs \<Rightarrow> bool" where
  "rules_unique d = rows_unique (load_portmap_rules d)"

lemma rows_unique_filter: "rows_unique rows \<Longrightarrow> rows_unique (filter P rows)"
  by (simp add: rows_unique_def distinct_map_filter)

lemma rows_unique_saved: "rows_unique rows \<Longrightarrow> rows_unique (sort_key rule_order (take_last n rows))"
  by (auto simp: rows_unique_def take_last_def distinct_map dest: inj_on_subset [OF _ set_drop_subset])

lemma load_saved_rules:
  "load_portmap_rules (save_portmap_rules e rows d) =
     filter (\<lambda>x. clean_saved_value (dget x ''id'') \<noteq> []) (sort_key rule_order (take_last 100 rows))"
  by (simp add: load_portmap_rules_def load_portmap_rules_document_def save_portmap_rules_def Let_def identified_def)

lemma load_rules_cong: "d ''portmaps.json'' = d' ''portmaps.json'' \<Longrightarrow> load_portmap_rules_document d = load_portmap_rules_document d'"
  by (simp add: load_portmap_rules_document_def)

lemma load_after_queue [simp]: "load_portmap_rules (queue_portmap_command e i a p r d) = load_portmap_rules d"
  unfolding load_portmap_rules_def
  by (rule arg_cong [OF load_rules_cong]) (simp add: queue_portmap_command_def save_commands_def)

lemma load_after_event [simp]: "load_portmap_rules (add_event t ev d) = load_portmap_rules d"
  unfolding load_portmap_rules_def by (rule arg_cong [OF load_rules_cong]) simp

lemma rules_unique_saved: "rows_unique rows \<Longrightarrow> rules_unique (save_portmap_rules e rows d)"
  by (simp add: rules_unique_def load_saved_rules rows_unique_filter rows_unique_saved)

lemma replace_distinct:
  assumes "distinct (map h rows)" "distinct (map g rows)" "\<forall>x\<in>set rows. h x \<noteq> k \<longrightarrow> g x \<noteq> v"
  shows "distinct (map (\<lambda>x. if h x = k then v else g x) rows)"
  using assms by (induction rows) (auto simp: image_iff)

lemma conflict_free:
  assumes "portmap_check_conflict rows rule = Inr ()" "dget rule ''id'' = JStr i" "x \<in> set rows" "dget x ''id'' \<noteq> JStr i"
  shows "rule_port x \<noteq> rule_port rule"
  using assms by (auto simp: portmap_check_conflict_def list_ex_iff split: if_splits)

lemma rows_unique_replace:
  assumes "rows_unique rows" "portmap_check_conflict rows rule = Inr ()" "dget rule ''id'' = JStr i"
  shows "rows_unique (map (\<lambda>x. if with_id i x then rule else x) rows)"
proof -
  have "map (\<lambda>r. dget r ''id'') (map (\<lambda>x. if with_id i x then rule else x) rows) = map (\<lambda>r. dget r ''id'') rows"
    using assms(3) by (simp add: with_id_def)
  moreover have "distinct (map (\<lambda>x. if dget x ''id'' = JStr i then rule_port rule else rule_port x) rows)"
    using assms conflict_free [OF assms(2,3)] by (intro replace_distinct) (auto simp: rows_unique_def)
  moreover have "map rule_port (map (\<lambda>x. if with_id i x then rule else x) rows)
      = map (\<lambda>x. if dget x ''id'' = JStr i then rule_port rule else rule_port x) rows"
    by (simp add: with_id_def)
  ultimately show ?thesis using assms(1) unfolding rows_unique_def by metis
qed

lemma clean_rule_id: "clean_portmap_rule e payload old = Inr rule \<Longrightarrow>
    dget rule ''id'' = JStr (portmap_rule_id e (por (dget (dmerge old payload) ''id'') (dget old ''id'')))"
  by (auto simp: clean_portmap_rule_def portmap_rule_row_def Let_def err_simps split: if_splits prod.splits)

lemma dget_dmerge_json: "dict_ok p \<Longrightarrow> map_of p k = Some v \<Longrightarrow> dget (dmerge old p) k = v"
  by (simp add: dget_def dget_or_def dget_dmerge map_of_rev_distinct)

datatype pm_request = Post row | Put string row | Delete string | Act string string

fun handle_request :: "env \<Rightarrow> pm_request \<Rightarrow> docs \<Rightarrow> docs" where
  "handle_request e (Post payload) d = snd (api_portmaps_post e True payload d)"
| "handle_request e (Put i payload) d = snd (api_portmap_put e True i payload d)"
| "handle_request e (Delete i) d = snd (api_portmap_delete e True i d)"
| "handle_request e (Act i action) d = snd (api_portmap_action e True i action d)"

text \<open>A new rule gets an identifier that is not in use; an edited rule has a canonical one.\<close>

fun admissible :: "env \<Rightarrow> docs \<Rightarrow> pm_request \<Rightarrow> bool" where
  "admissible e d (Post payload) = (case clean_portmap_rule e payload [] of Inl _ \<Rightarrow> True
     | Inr rule \<Rightarrow> list_all (\<lambda>x. dget x ''id'' \<noteq> dget rule ''id'') (load_portmap_rules d))"
| "admissible e d (Put i payload) = (dict_ok payload \<and> i \<noteq> [] \<and> portmap_rule_id e (JStr i) = i)"
| "admissible e d _ = True"

lemma post_unique:
  assumes "rules_unique d" "admissible e d (Post payload)"
  shows "rules_unique (snd (api_portmaps_post e True payload d))"
proof (cases "clean_portmap_rule e payload []")
  case (Inr rule)
  let ?rows = "load_portmap_rules d"
  have id: "\<exists>i. dget rule ''id'' = JStr i" using clean_rule_id [OF Inr] by simp
  show ?thesis
  proof (cases "portmap_check_conflict ?rows rule")
    case (Inr u)
    then have c: "portmap_check_conflict ?rows rule = Inr ()" by simp
    have "rows_unique (?rows @ [rule])"
      using assms conflict_free [OF c] id \<open>clean_portmap_rule e payload [] = Inr rule\<close>
      by (force simp: rules_unique_def rows_unique_def list_all_iff)
    then show ?thesis
      using Inr \<open>clean_portmap_rule e payload [] = Inr rule\<close> rules_unique_saved [of "?rows @ [rule]" e d]
      by (simp add: api_portmaps_post_def Let_def rules_unique_def)
  qed (use assms Inr in \<open>simp add: api_portmaps_post_def Let_def\<close>)
qed (use assms in \<open>simp add: api_portmaps_post_def\<close>)

lemma put_unique:
  assumes "rules_unique d" "admissible e d (Put i payload)"
  shows "rules_unique (snd (api_portmap_put e True i payload d))"
proof (cases "List.find (with_id i) (load_portmap_rules d)")
  case (Some old)
  let ?p = "dset ''id'' (JStr i) payload" and ?rows = "load_portmap_rules d"
  show ?thesis
  proof (cases "ebind (clean_portmap_rule e ?p old) (\<lambda>rule. ebind (portmap_check_conflict ?rows rule) (\<lambda>_. Inr rule))")
    case (Inr rule)
    then have c: "clean_portmap_rule e ?p old = Inr rule" "portmap_check_conflict ?rows rule = Inr ()"
      by (auto simp: err_simps)
    have "dget (dmerge old ?p) ''id'' = JStr i" using assms(2) by (intro dget_dmerge_json) auto
    then have "dget rule ''id'' = JStr i" using clean_rule_id [OF c(1)] assms(2) by (simp add: por_def)
    then have "rows_unique (map (\<lambda>x. if with_id i x then rule else x) ?rows)"
      using assms(1) c(2) by (intro rows_unique_replace) (simp_all add: rules_unique_def)
    then show ?thesis
      using Some Inr rules_unique_saved [of _ e d] by (simp add: api_portmap_put_def Let_def rules_unique_def)
  qed (use assms Some in \<open>simp add: api_portmap_put_def Let_def\<close>)
qed (use assms in \<open>simp add: api_portmap_put_def Let_def\<close>)

lemma act_unique:
  assumes "rules_unique d"
  shows "rules_unique (snd (api_portmap_action e True i action d))"
proof (cases "List.find (with_id i) (load_portmap_rules d)")
  case (Some r)
  let ?rows = "load_portmap_rules d"
  have r: "r \<in> set ?rows" "dget r ''id'' = JStr i" using find_SomeD [OF Some] by (auto simp: with_id_def)
  have same: "rows_unique (map (\<lambda>x. if with_id i x then rule else x) ?rows)"
    if "rule_port rule = rule_port r" "dget rule ''id'' = JStr i" for rule
  proof (rule rows_unique_replace)
    have "rule_port x \<noteq> rule_port r" if "x \<in> set ?rows" "dget x ''id'' \<noteq> JStr i" for x
      using assms that r unfolding rules_unique_def rows_unique_def by (metis distinct_map inj_on_def)
    then show "portmap_check_conflict ?rows rule = Inr ()"
      using that by (auto simp: portmap_check_conflict_def list_ex_iff)
  qed (use assms that in \<open>simp_all add: rules_unique_def\<close>)
  have "rules_unique (save_portmap_rules e (map (\<lambda>x. if with_id i x then dset ''updatedAt'' u (dset ''enabled'' b r) else x) ?rows) d)"
    "rules_unique (save_portmap_rules e (map (\<lambda>x. if with_id i x then dset ''updatedAt'' u (dset ''expiresAt'' y (dset ''enabled'' b r)) else x) ?rows) d)"
    for u b y using r by (auto intro!: rules_unique_saved same simp: rule_port_def)
  with Some assms show ?thesis
    by (auto simp: api_portmap_action_def restart_lease_def Let_def rules_unique_def split: option.split)
qed (use assms in \<open>simp add: api_portmap_action_def Let_def\<close>)

lemma delete_unique: "rules_unique d \<Longrightarrow> rules_unique (snd (api_portmap_delete e True i d))"
  using rules_unique_saved [of "filter (\<lambda>x. \<not> with_id i x) (load_portmap_rules d)" e d]
  by (auto simp: api_portmap_delete_def Let_def rules_unique_def rows_unique_filter split: option.split)

text \<open>C9: Creating a rule under an identifier that is not in use, editing one under an identifier that the
  cleaning leaves as it is, starting, stopping and deleting keep the identifiers and the pairs of listening
  port and protocol of the stored rules unique. (A creation under an identifier that is in use breaks
  this, see \<open>portmap_duplicate_post\<close>.)\<close>

theorem portmap_ports_unique:
  assumes "rules_unique d" and "admissible e d req"
  shows "rules_unique (handle_request e req d)"
  using assms by (cases req) (simp_all only: handle_request.simps post_unique put_unique act_unique delete_unique)

definition demo_payload :: "string \<Rightarrow> int \<Rightarrow> row" where
  "demo_payload i port = [(''id'', JStr i), (''name'', JStr ''n''), (''listenPort'', JInt port), (''targetPort'', JInt 80),
     (''targetIpv4'', JStr ''10.0.0.2'')]"

definition no_docs :: docs where
  "no_docs = (\<lambda>_. None)"

theorem portmap_ports_unique_witness:
  "rules_unique (handle_request demo_env (Post (demo_payload ''b'' 20001)) (handle_request demo_env (Post (demo_payload ''a'' 20000)) no_docs))"
proof (rule portmap_ports_unique)
  show "rules_unique (handle_request demo_env (Post (demo_payload ''a'' 20000)) no_docs)" by code_simp
  show "admissible demo_env (handle_request demo_env (Post (demo_payload ''a'' 20000)) no_docs) (Post (demo_payload ''b'' 20001))" by code_simp
qed

text \<open>A creation request that names an identifier already in use slips through the conflict
  check, which skips rules of the same identifier: the store then holds two rules with the same
  identifier on the same port.\<close>

theorem portmap_duplicate_post:
  "map (\<lambda>r. (dget r ''id'', rule_port r)) (load_portmap_rules
     (handle_request demo_env (Post (demo_payload ''a'' 20000)) (handle_request demo_env (Post (demo_payload ''a'' 20000)) no_docs)))
   = [(JStr ''a'', 20000, ''TCP''), (JStr ''a'', 20000, ''TCP'')]"
  by code_simp

section \<open>Reconciliation with the router\<close>

lemma commands_saved [simp]: "commands_of key (save_commands key rows d) = rows" if "key \<noteq> ''state.json''" "key \<noteq> ''devices.json''"
  using that by (simp add: commands_of_def save_commands_def)

lemma commands_cong: "d key = d' key \<Longrightarrow> commands_of key d = commands_of key d'"
  by (simp add: commands_of_def load_json_def)

text \<open>A command for a rule that waits for the agent, with this payload.\<close>

definition awaits :: "string \<Rightarrow> string \<Rightarrow> row \<Rightarrow> row \<Rightarrow> bool" where
  "awaits router action payload c = (pm_slot c = Some (JStr router, action, portmap_command_rule_id action payload)
     \<and> dget c ''payload'' = JObj payload)"

lemma queue_keeps:
  assumes "c \<in> set rows" "pm_slot c = Some s" "s \<noteq> (JStr router, action, portmap_command_rule_id action payload)" "length rows \<le> 500"
  shows "c \<in> set (queue_portmap_rows e i router action payload rows)"
proof -
  have "outstanding c" using assms(2) by (auto simp: pm_slot_def split: if_splits)
  then have "\<not> expired_command (env_now e) c" by (auto simp: expired_command_def outstanding_def is_status_def)
  moreover have "length (filter (\<lambda>c. \<not> expired_command (env_now e) c) rows) \<le> 500"
    using assms(4) length_filter_le [of _ rows] by (meson le_trans)
  ultimately have "c \<in> set (take_last 500 (filter (\<lambda>c. \<not> expired_command (env_now e) c) rows))" using assms(1) by simp
  moreover have "\<not> same_command router action (portmap_command_rule_id action payload) c"
    using assms(2,3) by (simp add: same_command_slot)
  ultimately show ?thesis by (auto simp: queue_portmap_rows_def Let_def intro: update_last_keeps)
qed

lemma queue_length: "length (queue_portmap_rows e i router action payload rows) \<le> Suc (length rows)"
proof -
  have "length (take_last 500 (filter (\<lambda>c. \<not> expired_command (env_now e) c) rows)) \<le> length rows"
    by (simp add: le_trans [OF min.cobounded2 length_filter_le])
  then show ?thesis by (auto simp: queue_portmap_rows_def Let_def)
qed

lemma commands_queued:
  "router \<noteq> [] \<Longrightarrow> commands_of ''portmap_commands.json'' (queue_portmap_command e i action payload router d)
     = queue_portmap_rows e i router action payload (commands_of ''portmap_commands.json'' d)"
  by (simp add: queue_portmap_command_def)

abbreviation command_slot :: "string \<times> row \<Rightarrow> string \<times> string" where
  "command_slot c \<equiv> (fst c, portmap_command_rule_id (fst c) (snd c))"

lemma queue_all_keeps:
  assumes "c \<in> set (commands_of ''portmap_commands.json'' d)" "pm_slot c = Some (JStr router, k)" "router \<noteq> []"
    "k \<notin> command_slot ` set cs" "length (commands_of ''portmap_commands.json'' d) + length cs \<le> 500"
  shows "c \<in> set (commands_of ''portmap_commands.json'' (queue_all e router n cs d))"
  using assms
proof (induction e router n cs d rule: queue_all.induct)
  case (2 e router n action payload cs d)
  let ?d = "queue_portmap_command e (env_fresh e n) action payload router d"
  have "c \<in> set (commands_of ''portmap_commands.json'' ?d)"
    using 2(2-6) by (auto simp: commands_queued intro: queue_keeps)
  moreover have "length (commands_of ''portmap_commands.json'' ?d) \<le> Suc (length (commands_of ''portmap_commands.json'' d))"
    using 2(4) by (simp add: commands_queued queue_length)
  ultimately show ?case using 2 by simp
qed simp

lemma queue_all_awaits:
  assumes "distinct (map command_slot cs)" "(action, payload) \<in> set cs" "router \<noteq> []"
    "length (commands_of ''portmap_commands.json'' d) + length cs \<le> 500"
  shows "\<exists>c\<in>set (commands_of ''portmap_commands.json'' (queue_all e router n cs d)). awaits router action payload c"
  using assms
proof (induction e router n cs d rule: queue_all.induct)
  case (2 e router n a p cs d)
  let ?d = "queue_portmap_command e (env_fresh e n) a p router d"
  have len: "length (commands_of ''portmap_commands.json'' ?d) + length cs \<le> 500"
    using 2(4,5) queue_length [of e "env_fresh e n" router a p "commands_of ''portmap_commands.json'' d"] by (simp add: commands_queued)
  show ?case
  proof (cases "(action, payload) \<in> set cs")
    case True
    with 2 len show ?thesis by simp
  next
    case False
    with 2(3) have ap: "action = a" "payload = p" by auto
    from queue_occupies [of e "env_fresh e n" router a p "commands_of ''portmap_commands.json'' d"]
    obtain c where c: "c \<in> set (commands_of ''portmap_commands.json'' ?d)" "awaits router a p c"
      using 2(4) by (auto simp: commands_queued awaits_def)
    have "c \<in> set (commands_of ''portmap_commands.json'' (queue_all e router (Suc n) cs ?d))"
      using c 2(2,4) len by (intro queue_all_keeps [where k = "command_slot (a, p)"]) (auto simp: awaits_def)
    with c ap show ?thesis by auto
  qed
qed simp

lemma distinct_map_filter_fst: "dict_ok d \<Longrightarrow> distinct (map (\<lambda>x. (c, fst x)) (filter P d))"
  by (simp add: distinct_map inj_on_def)

lemma desired_keys: "(rid, rule) \<in> set (desired_rules d) \<Longrightarrow> rid = clean_saved_value (dget rule ''id'')"
  unfolding desired_rules_def using set_dict_of by fastforce

lemma local_keys: "(rid, rule) \<in> set (local_rules p) \<Longrightarrow> clean_saved_value (JStr rid) = rid"
proof -
  assume "(rid, rule) \<in> set (local_rules p)"
  then have "\<exists>v. rid = clean_saved_value v"
    unfolding local_rules_def Let_def using set_dict_of by (fastforce split: if_splits)
  then show ?thesis by auto
qed

lemma reconcile_slots: "distinct (map command_slot (reconcile_commands payload d))"
proof -
  let ?des = "filter (\<lambda>(rid, rule). out_of_date (local_rules payload) rid rule) (desired_rules d)"
  let ?del = "filter (\<lambda>(rid, _). map_of (desired_rules d) rid = None) (local_rules payload)"
  let ?ups = "map (\<lambda>(rid, rule). (''upsert'', [(''rule'', JObj rule)])) ?des"
  let ?dels = "map (\<lambda>(rid, _). (''delete'', [(''id'', JStr rid)])) ?del"
  have u: "map command_slot ?ups = map (\<lambda>x. (''upsert'', fst x)) ?des"
    by (auto simp: portmap_command_rule_id_def sub_dict_def desired_keys [symmetric])
  have x: "map command_slot ?dels = map (\<lambda>x. (''delete'', fst x)) ?del"
    by (auto simp: portmap_command_rule_id_def local_keys)
  have "distinct (map command_slot ?ups)" "distinct (map command_slot ?dels)"
    unfolding u x by (auto intro!: distinct_map_filter_fst simp: desired_rules_def local_rules_def)
  moreover have "set (map command_slot ?ups) \<inter> set (map command_slot ?dels) = {}" unfolding u x by auto
  ultimately show ?thesis unfolding reconcile_commands_def Let_def by (auto simp del: map_map)
qed

text \<open>The documents before reconciliation differ only in the status and the history.\<close>

lemma status_docs:
  assumes "key \<noteq> ''portmap_router_status.json''" "key \<noteq> ''portmap_history.json''"
  shows "append_portmap_history e r (save_json d ''portmap_router_status.json'' v) key = d key"
  using assms by (auto simp: append_portmap_history_def Let_def split: prod.split)

lemma reconcile_cong: "d ''portmaps.json'' = d' ''portmaps.json'' \<Longrightarrow> reconcile_commands p d = reconcile_commands p d'"
  using load_rules_cong [of d d'] by (simp add: reconcile_commands_def desired_rules_def load_portmap_rules_def)

text \<open>A status report brings the router back to the desired rules: every desired rule that the
  router lacks or runs with different settings has a waiting upsert command with the desired rule,
  and, provided the rules document is readable, every rule on the router that is not desired has a waiting delete
  command. With an unreadable document the command queue is left exactly as it was: nothing is ever deleted
  because the hub lost its data.\<close>

theorem portmap_reconcile:
  assumes "clean_saved_value router_arg = router" "router \<noteq> []"
    and "length (commands_of ''portmap_commands.json'' d) + length (reconcile_commands payload d) \<le> 500"
  shows "(case load_portmap_rules_document d of (doc, readable) \<Rightarrow>
     let cmds = commands_of ''portmap_commands.json'' (snd (api_router_portmap_status e True router_arg payload d)) in
     if readable then
       list_all (\<lambda>(rid, rule). list_ex (awaits router ''upsert'' [(''rule'', JObj rule)]) cmds)
         (filter (\<lambda>(rid, rule). out_of_date (local_rules payload) rid rule) (desired_rules d))
       \<and> list_all (\<lambda>(rid, _). list_ex (awaits router ''delete'' [(''id'', JStr rid)]) cmds)
         (filter (\<lambda>(rid, _). map_of (desired_rules d) rid = None) (local_rules payload))
     else cmds = commands_of ''portmap_commands.json'' d)"
proof -
  let ?rec = "[(''router'', JStr router), (''receivedAt'', JStr (env_now_str e)), (''receivedEpoch'', JInt (env_now e)), (''status'', JObj payload)]"
  let ?d1 = "append_portmap_history e ?rec (save_json d ''portmap_router_status.json'' (JObj ?rec))"
  let ?cs = "reconcile_commands payload d"
  have r: "reconcile_commands payload ?d1 = ?cs" by (rule reconcile_cong, rule status_docs) simp_all
  have st: "snd (api_router_portmap_status e True router_arg payload d) = queue_all e router 1 ?cs ?d1"
    using assms(1,2) r by (simp add: api_router_portmap_status_def Let_def)
  have c1: "commands_of ''portmap_commands.json'' ?d1 = commands_of ''portmap_commands.json'' d"
    by (rule commands_cong, rule status_docs) simp_all
  have q: "list_ex (awaits router a p) (commands_of ''portmap_commands.json'' (queue_all e router 1 ?cs ?d1))"
    if "(a, p) \<in> set ?cs" for a p
    using queue_all_awaits [OF reconcile_slots that assms(2), of ?d1 e 1] assms(3) c1 by (simp add: list_ex_iff)
  show ?thesis
  proof (cases "load_portmap_rules_document d")
    case (Pair doc readable)
    show ?thesis
    proof (cases readable)
      case True
      have "(''upsert'', [(''rule'', JObj rule)]) \<in> set ?cs" if "(rid, rule) \<in> set (desired_rules d)" "out_of_date (local_rules payload) rid rule"
        for rid rule using that by (force simp: reconcile_commands_def Let_def)
      moreover have "(''delete'', [(''id'', JStr rid)]) \<in> set ?cs" if "(rid, l) \<in> set (local_rules payload)" "map_of (desired_rules d) rid = None"
        for rid l using that Pair True by (force simp: reconcile_commands_def Let_def)
      ultimately show ?thesis
        unfolding st Pair prod.case Let_def if_P [OF True] list_all_iff by (auto intro!: q [unfolded One_nat_def])
    next
      case False
      with Pair have "load_portmap_rules d = []"
        by (auto simp: load_portmap_rules_document_def load_portmap_rules_def Let_def split: option.splits json.splits)
      then have "?cs = []" using Pair False by (simp add: reconcile_commands_def desired_rules_def dict_of_def)
      then show ?thesis using Pair False st c1 by simp
    qed
  qed
qed

theorem portmap_reconcile_witness:
  "(case load_portmap_rules_document (handle_request demo_env (Post (demo_payload ''a'' 20000)) no_docs) of (doc, readable) \<Rightarrow>
     let cmds = commands_of ''portmap_commands.json'' (snd (api_router_portmap_status demo_env True (JStr ''r'')
           [(''rules'', JList [JObj [(''rule'', JObj [(''id'', JStr ''b'')])]])] (handle_request demo_env (Post (demo_payload ''a'' 20000)) no_docs))) in
     if readable then
       list_all (\<lambda>(rid, rule). list_ex (awaits ''r'' ''upsert'' [(''rule'', JObj rule)]) cmds)
         (filter (\<lambda>(rid, rule). out_of_date (local_rules [(''rules'', JList [JObj [(''rule'', JObj [(''id'', JStr ''b'')])]])]) rid rule)
           (desired_rules (handle_request demo_env (Post (demo_payload ''a'' 20000)) no_docs)))
       \<and> list_all (\<lambda>(rid, _). list_ex (awaits ''r'' ''delete'' [(''id'', JStr rid)]) cmds)
         (filter (\<lambda>(rid, _). map_of (desired_rules (handle_request demo_env (Post (demo_payload ''a'' 20000)) no_docs)) rid = None)
           (local_rules [(''rules'', JList [JObj [(''rule'', JObj [(''id'', JStr ''b'')])]])]))
     else cmds = commands_of ''portmap_commands.json'' (handle_request demo_env (Post (demo_payload ''a'' 20000)) no_docs))"
proof (rule portmap_reconcile)
  show "clean_saved_value (JStr ''r'') = ''r''" by code_simp
  show "length (commands_of ''portmap_commands.json'' (handle_request demo_env (Post (demo_payload ''a'' 20000)) no_docs))
      + length (reconcile_commands [(''rules'', JList [JObj [(''rule'', JObj [(''id'', JStr ''b'')])]])]
          (handle_request demo_env (Post (demo_payload ''a'' 20000)) no_docs)) \<le> 500" by code_simp
qed simp

section \<open>Cleaned rules\<close>

definition portmap_rule_ok :: "row \<Rightarrow> bool" where
  "portmap_rule_ok r =
    (to_int (dget r ''listenPort'') 0 \<in> {20000..20020} \<and> to_int (dget r ''targetPort'') 0 \<in> {1..65535}
     \<and> length (py_str (dget r ''name'')) \<in> {1..64} \<and> length (py_str (dget r ''serviceType'')) \<le> 24
     \<and> dget r ''transportProtocol'' \<in> {JStr ''TCP'', JStr ''UDP''}
     \<and> to_int (dget r ''maxConnections'') 0 \<in> {1..256} \<and> to_int (dget r ''idleTimeoutSec'') 0 \<in> {30..3600}
     \<and> to_int (dget r ''leaseSeconds'') (-1) \<in> {0..604800}
     \<and> (dget r ''targetMac'' = JStr [] \<or> mac_ok (py_str (dget r ''targetMac'')))
     \<and> (if dget r ''mode'' = JStr ''6to4''
        then dget r ''targetMode'' = JStr ''ipv4'' \<and> (\<exists>a. ip_address (py_str (dget r ''targetIpv4'')) = Some a \<and> private_ipv4 a)
        else dget r ''mode'' = JStr ''6to6'' \<and> dget r ''targetIpv4'' = JStr []
          \<and> (dget r ''targetMode'' = JStr ''ipv6_full'' \<and> (\<exists>a. routable_ipv6 a \<and> dget r ''targetIpv6'' = JStr (ip_str a))
             \<or> dget r ''targetMode'' = JStr ''ipv6_suffix'' \<and> dget r ''targetIpv6Suffix'' \<noteq> JStr [])))"

lemma lease_range: "portmap_lease_seconds e src old x \<in> {0..604800}"
  by (auto simp: portmap_lease_seconds_def clamp_def Let_def split: option.split)

lemma clean_target_ok:
  assumes "clean_target mode src = Inr (tmode, ipv4, ipv6, snapshot, suffix)"
  shows "if mode = ''6to4'' then tmode = ''ipv4'' \<and> (\<exists>a. ip_address ipv4 = Some a \<and> private_ipv4 a)
    else ipv4 = [] \<and> (tmode = ''ipv6_full'' \<and> (\<exists>a. routable_ipv6 a \<and> ipv6 = ip_str a) \<or> tmode = ''ipv6_suffix'' \<and> suffix \<noteq> [])"
  using assms by (auto simp: clean_target_def Let_def err_simps split: if_splits option.splits)

text \<open>Every rule that passes the cleaning, for a new or an edited rule, is within all limits: ports,
  name and service length, protocol, connection and idle limits, a lease of at most seven days, and a target
  that is a private IPv4 address, a routable IPv6 address or a non-empty IPv6 suffix, matching its mode.\<close>

theorem clean_portmap_rule_ok:
  assumes "clean_portmap_rule e payload old = Inr rule"
  shows "portmap_rule_ok rule"
proof -
  let ?src = "dmerge old payload"
  let ?mac = "norm_mac (dget ?src ''targetMac'')"
  have c: "rule_mode ?src = ''6to4'' \<or> rule_mode ?src = ''6to6''" "to_int (dget ?src ''listenPort'') 0 \<in> {20000..20020}"
    "to_int (dget ?src ''targetPort'') 0 \<in> {1..65535}" "rule_name ?src \<noteq> []"
    "rule_proto ?src = ''TCP'' \<or> rule_proto ?src = ''UDP''" "?mac = [] \<or> mac_ok ?mac"
    using assms unfolding clean_portmap_rule_def Let_def by (auto split: if_splits)
  obtain tmode ipv4 ipv6 snapshot suffix where t: "clean_target (rule_mode ?src) ?src = Inr (tmode, ipv4, ipv6, snapshot, suffix)"
    and rule: "rule = portmap_rule_row e ?src old (tmode, ipv4, ipv6, snapshot, suffix)"
    using assms unfolding clean_portmap_rule_def Let_def by (auto simp: err_simps split: if_splits)
  have "clamp 1 256 i \<in> {1..256}" "clamp 30 3600 i \<in> {30..3600}" for i by (auto simp: clamp_def)
  moreover have "rule_lease e ?src old \<in> {0..604800}" using lease_range by (simp add: rule_lease_def Let_def)
  moreover have "length (rule_name ?src) \<in> {1..64}" using c(4) by (simp add: rule_name_def Suc_le_eq)
  ultimately show ?thesis
    unfolding portmap_rule_ok_def rule portmap_rule_row_def using c clean_target_ok [OF t]
    by (cases "rule_mode ?src = ''6to4''") simp_all
qed

theorem clean_portmap_rule_ok_witness:
  "portmap_rule_ok (projr (clean_portmap_rule demo_env (demo_payload ''a'' 20000) []))"
proof (rule clean_portmap_rule_ok)
  have "\<not> isl (clean_portmap_rule demo_env (demo_payload ''a'' 20000) [])" by code_simp
  then show "clean_portmap_rule demo_env (demo_payload ''a'' 20000) [] = Inr (projr (clean_portmap_rule demo_env (demo_payload ''a'' 20000) []))"
    by simp
qed

end
