(* ===== verification/Effects.thy ===== *)
theory Effects
  imports Prelude
begin

text \<open>
  Operations of the services: functions on the state of the service that return a result or
  raise an error. A raised error keeps the state that was reached, as in Python, where the writes before a
  \<open>raise\<close> stay.
\<close>

named_theorems op_simps \<open>evaluation of operations\<close>
named_theorems op_keeps \<open>operations that keep a predicate of the state\<close>

type_synonym ('s, 'e, 'a) op = "'s \<Rightarrow> ('e + 'a) \<times> 's"

definition ret :: "'a \<Rightarrow> ('s, 'e, 'a) op" where
  "ret a s = (Inr a, s)"

definition fail :: "'e \<Rightarrow> ('s, 'e, 'a) op" where
  "fail e s = (Inl e, s)"

definition sbind :: "('s, 'e, 'a) op \<Rightarrow> ('a \<Rightarrow> ('s, 'e, 'b) op) \<Rightarrow> ('s, 'e, 'b) op" where
  "sbind m f s = (case m s of (Inl e, s') \<Rightarrow> (Inl e, s') | (Inr a, s') \<Rightarrow> f a s')"

text \<open>Reading the state, changing it, and lifting a pure computation that may raise.\<close>

definition gets :: "('s \<Rightarrow> 'a) \<Rightarrow> ('s, 'e, 'a) op" where
  "gets f s = (Inr (f s), s)"

definition modify :: "('s \<Rightarrow> 's) \<Rightarrow> ('s, 'e, unit) op" where
  "modify f s = (Inr (), f s)"

definition pure :: "'e + 'a \<Rightarrow> ('s, 'e, 'a) op" where
  "pure r s = (r, s)"

definition guard :: "bool \<Rightarrow> 'e \<Rightarrow> ('s, 'e, unit) op" where
  "guard b e = (if b then ret () else fail e)"

text \<open>\<open>try: m except: h\<close>\<close>

definition rescue :: "('s, 'e, 'a) op \<Rightarrow> ('e \<Rightarrow> ('s, 'e, 'a) op) \<Rightarrow> ('s, 'e, 'a) op" where
  "rescue m h s = (case m s of (Inl e, s') \<Rightarrow> h e s' | (Inr a, s') \<Rightarrow> (Inr a, s'))"

lemmas op_defs [op_simps] = ret_def fail_def gets_def modify_def pure_def

lemma sbind_cases:
  obtains (raised) e t where "m s = (Inl e, t)" "sbind m f s = (Inl e, t)"
  | (returned) a t where "m s = (Inr a, t)" "sbind m f s = f a t"
  by (cases "m s"; cases "fst (m s)") (auto simp: sbind_def)

lemma sbind_Inr [op_simps]:
  "sbind m f s = (Inr b, t) \<longleftrightarrow> (\<exists>a s1. m s = (Inr a, s1) \<and> f a s1 = (Inr b, t))"
  by (auto simp: sbind_def split: prod.splits sum.splits)

lemma sbind_Inl [op_simps]:
  "sbind m f s = (Inl e, t) \<longleftrightarrow> m s = (Inl e, t) \<or> (\<exists>a s1. m s = (Inr a, s1) \<and> f a s1 = (Inl e, t))"
  by (auto simp: sbind_def split: prod.splits sum.splits)

lemma guard_eq [op_simps]:
  "guard b e s = (Inr u, t) \<longleftrightarrow> b \<and> t = s" "guard b e s = (Inl e', t) \<longleftrightarrow> \<not> b \<and> e' = e \<and> t = s"
  by (auto simp: guard_def ret_def fail_def)

lemma sbind_ret [simp]: "sbind (ret a) f = f a"
  by (rule ext) (simp add: sbind_def ret_def)

lemma sbind_fail [simp]: "sbind (fail e) f = fail e"
  by (rule ext) (simp add: sbind_def fail_def)

lemma sbind_gets [simp]: "sbind (gets g) f s = f (g s) s"
  by (simp add: sbind_def gets_def)

lemma sbind_modify [simp]: "sbind (modify g) f s = f () (g s)"
  by (simp add: sbind_def modify_def)

section \<open>What an operation keeps\<close>

text \<open>\<open>steps R m\<close>: every run of \<open>m\<close>, raised errors included, relates its states by \<open>R\<close>.\<close>

definition steps_by :: "('s \<Rightarrow> 's \<Rightarrow> bool) \<Rightarrow> ('s, 'e, 'a) op \<Rightarrow> bool" where
  "steps_by R m = (\<forall>s. R s (snd (m s)))"

lemma steps_byD: "steps_by R m \<Longrightarrow> m s = (r, t) \<Longrightarrow> R s t"
  by (metis snd_conv steps_by_def)

lemma steps_by_bind:
  assumes "transp R" and "steps_by R m" and "\<And>a. steps_by R (f a)"
  shows "steps_by R (sbind m f)"
  unfolding steps_by_def
proof
  fix s
  show "R s (snd (sbind m f s))"
  proof (cases rule: sbind_cases [of m s f])
    case (raised e t)
    then show ?thesis using assms(2) by (simp add: steps_byD)
  next
    case (returned a t)
    then have "R s t" "R t (snd (f a t))" using assms(2,3) by (metis snd_conv steps_by_def)+
    then show ?thesis using returned assms(1) by (metis transpD)
  qed
qed

lemma steps_by_pure [op_keeps]:
  "reflp R \<Longrightarrow> steps_by R (ret a)" "reflp R \<Longrightarrow> steps_by R (fail e)" "reflp R \<Longrightarrow> steps_by R (gets g)"
  "reflp R \<Longrightarrow> steps_by R (pure r)" "reflp R \<Longrightarrow> steps_by R (guard b x)"
  by (auto simp: steps_by_def op_defs guard_def reflp_def)

lemma steps_by_modify: "(\<And>s. R s (f s)) \<Longrightarrow> steps_by R (modify f)"
  by (simp add: steps_by_def modify_def)

lemma steps_by_rescue:
  assumes "transp R" and "steps_by R m" and "\<And>e. steps_by R (h e)"
  shows "steps_by R (rescue m h)"
  unfolding steps_by_def
proof
  fix s
  obtain r t where m: "m s = (r, t)" by fastforce
  then have "R s t" using assms(2) by (simp add: steps_byD)
  moreover have "R t (snd (h e t))" for e using assms(3) by (simp add: steps_by_def)
  ultimately show "R s (snd (rescue m h s))"
    using m assms(1) by (cases r) (auto simp: rescue_def dest: transpD)
qed

end
