(* ===== verification/IpText.thy ===== *)
theory IpText
  imports Ipaddr
begin

text \<open>The text of addresses: it has no white space, and parsing the compressed text of an IPv6 address gives the address
  back.\<close>

section \<open>No white space\<close>

definition unspaced :: "string \<Rightarrow> bool" where
  "unspaced s = list_all (\<lambda>c. \<not> is_space c) s"

lemma strip_unspaced: "unspaced s \<Longrightarrow> strip s = s"
proof (cases "s = []")
  case False
  moreover assume "unspaced s"
  ultimately have "\<not> is_space (hd s)" "\<not> is_space (last s)" by (auto simp: unspaced_def list_all_iff)
  then show ?thesis using False by (simp add: strip_def strip_of_no)
qed simp

lemma unspaced_append [simp]: "unspaced (a @ b) \<longleftrightarrow> unspaced a \<and> unspaced b"
  by (simp add: unspaced_def)

lemma unspaced_join: "unspaced sep \<Longrightarrow> list_all unspaced xs \<Longrightarrow> unspaced (join sep xs)"
  by (induction sep xs rule: join.induct) (auto simp: unspaced_def)

lemma unspaced_nat_str: "unspaced (nat_str n)"
  using nat_str_dec [of n] by (auto simp: unspaced_def list_all_iff dest: dec_not_py_space)

lemma unspaced_ipv4_str: "unspaced (ipv4_str n)"
  by (auto simp: ipv4_str_def list_all_iff unspaced_nat_str intro!: unspaced_join) (simp add: unspaced_def is_space_def code_def)

section \<open>Hexadecimal groups\<close>

definition is_hex :: "string \<Rightarrow> bool" where
  "is_hex s = (s \<noteq> [] \<and> list_all (\<lambda>c. hex_val c \<noteq> None) s)"

lemma is_hex_hex_str: "is_hex (hex_str n)"
proof (induction n rule: hex_str.induct)
  case (1 n)
  show ?case
    using 1 hex_val_digit [of "n mod 16"] hex_val_digit [of n] by (subst hex_str.simps) (auto simp: is_hex_def)
qed

lemma hex_char: "hex_val c \<noteq> None \<Longrightarrow> \<not> is_space c \<and> c \<noteq> CHR '':'' \<and> c \<noteq> CHR ''.'' \<and> c \<noteq> CHR 0x25 \<and> c \<noteq> CHR ''/''"
  by (auto simp: hex_val_def is_space_def code_def Let_def split: if_splits)

lemma is_hexD:
  assumes "is_hex s"
  shows "unspaced s" "CHR '':'' \<notin> set s" "CHR ''.'' \<notin> set s" "CHR 0x25 \<notin> set s" "CHR ''/'' \<notin> set s"
proof -
  have "\<not> is_space c \<and> c \<noteq> CHR '':'' \<and> c \<noteq> CHR ''.'' \<and> c \<noteq> CHR 0x25 \<and> c \<noteq> CHR ''/''" if "c \<in> set s" for c
    using assms that hex_char by (auto simp: is_hex_def list_all_iff)
  then show "unspaced s" "CHR '':'' \<notin> set s" "CHR ''.'' \<notin> set s" "CHR 0x25 \<notin> set s" "CHR ''/'' \<notin> set s"
    by (auto simp: unspaced_def list_all_iff)
qed

lemma hex_value_snoc: "hex_value (s @ [c]) = 16 * hex_value s + (case hex_val c of None \<Rightarrow> 0 | Some d \<Rightarrow> d)"
  by (simp add: hex_value_def)

lemma hex_value_hex_str: "hex_value (hex_str n) = n"
proof (induction n rule: hex_str.induct)
  case (1 n)
  show ?case
  proof (cases "n < 16")
    case True
    then show ?thesis by (subst hex_str.simps) (simp add: hex_value_def hex_val_digit)
  next
    case False
    then show ?thesis using 1 by (subst hex_str.simps) (simp add: hex_value_snoc hex_val_digit)
  qed
qed

lemma hex_str_length: "n < 16 ^ k \<Longrightarrow> 0 < k \<Longrightarrow> length (hex_str n) \<le> k"
proof (induction n arbitrary: k rule: hex_str.induct)
  case (1 n)
  show ?case
  proof (cases "n < 16")
    case True
    then show ?thesis using 1(3) by (subst hex_str.simps) simp
  next
    case False
    then obtain j where k: "k = Suc j" "0 < j" using 1(2) by (cases k; cases "k - 1") auto
    then have "n div 16 < 16 ^ j" using 1(2) by (simp add: less_mult_imp_div_less mult.commute)
    then have "length (hex_str (n div 16)) \<le> j" using 1(1) False k by blast
    then show ?thesis using k False by (subst hex_str.simps) simp
  qed
qed

lemma parse_hextet_hex_str: "n < 65536 \<Longrightarrow> parse_hextet (hex_str n) = Some n"
  using hex_str_length [of n 4] is_hex_hex_str [of n]
  by (auto simp: parse_hextet_def hex_value_hex_str is_hex_def)

section \<open>Compression\<close>

definition zeros :: "nat list \<Rightarrow> nat \<times> nat \<Rightarrow> bool" where
  "zeros hs r = (case r of (s, l) \<Rightarrow> s + l \<le> length hs \<and> (\<forall>i. s \<le> i \<and> i < s + l \<longrightarrow> hs ! i = 0))"

lemma zeros_append: "zeros pre r \<Longrightarrow> zeros (pre @ hs) r"
  by (auto simp: zeros_def nth_append)

lemma best_zero_run_zeros:
  assumes "zeros pre cur" "snd cur = 0 \<or> fst cur + snd cur = length pre" "zeros pre best"
  shows "zeros (pre @ hs) (best_zero_run hs (length pre) cur best)"
  using assms
proof (induction hs arbitrary: pre cur best)
  case (Cons h hs)
  obtain cs cl bs bl where cb: "cur = (cs, cl)" "best = (bs, bl)" by fastforce
  have step: "zeros (pre @ h # hs) (best_zero_run hs (Suc (length pre)) cur' best')"
    if "zeros (pre @ [h]) cur'" "snd cur' = 0 \<or> fst cur' + snd cur' = Suc (length pre)" "zeros (pre @ [h]) best'" for cur' best'
    using Cons.IH [of "pre @ [h]" cur' best'] that by simp
  show ?case
  proof (cases "h = 0")
    case True
    define cs' where "cs' = (if cl = 0 then length pre else cs)"
    have z: "zeros (pre @ [h]) (cs', cl + 1)"
      using Cons.prems cb True by (auto simp: zeros_def cs'_def nth_append less_Suc_eq)
    then have "zeros (pre @ h # hs) (best_zero_run hs (Suc (length pre)) (cs', cl + 1) (if bl < cl + 1 then (cs', cl + 1) else (bs, bl)))"
      using Cons.prems cb by (intro step) (auto simp: cs'_def zeros_append)
    then show ?thesis using True cb by (simp add: cs'_def Let_def split: if_splits)
  next
    case False
    have "zeros (pre @ h # hs) (best_zero_run hs (Suc (length pre)) (0, 0) (bs, bl))"
      using Cons.prems cb by (intro step) (auto simp: zeros_def nth_append)
    then show ?thesis using False cb by simp
  qed
qed simp

definition base_value :: "nat \<Rightarrow> nat list \<Rightarrow> nat" where
  "base_value n hs = foldl (\<lambda>a h. a * 65536 + h) n hs"

lemma hextets_value_base: "hextets_value (map Some hs) n = Some (base_value n hs)"
  by (induction hs arbitrary: n) (auto simp: base_value_def)

lemma base_value_append: "base_value n (a @ b) = base_value (base_value n a) b"
  by (simp add: base_value_def)

lemma base_value_zeros: "base_value n (replicate l 0) = n * 65536 ^ l"
  by (induction l arbitrary: n) (auto simp: base_value_def)

lemma split_zeros:
  assumes "zeros hs (s, l)"
  shows "hs = take s hs @ replicate l 0 @ drop (s + l) hs"
proof -
  have "take l (drop s hs) = replicate l 0"
    using assms by (intro nth_equalityI) (auto simp: zeros_def)
  then show ?thesis by (metis append_take_drop_id drop_drop add.commute)
qed

lemma filter_single: "distinct xs \<Longrightarrow> i \<in> set xs \<Longrightarrow> (\<And>j. j \<in> set xs \<Longrightarrow> P j \<longleftrightarrow> j = i) \<Longrightarrow> filter P xs = [i]"
  by (induction xs) (auto simp: filter_empty_conv)

text \<open>The groups around the gap, with an empty text at an end that the gap touches.\<close>

definition gapped :: "string list \<Rightarrow> string list \<Rightarrow> string list" where
  "gapped a b = (if a = [] then [[]] else []) @ a @ [[]] @ b @ (if b = [] then [[]] else [])"

lemma parse_gapped:
  assumes a: "\<And>x. x \<in> set a \<Longrightarrow> x \<noteq> []" and b: "\<And>x. x \<in> set b \<Longrightarrow> x \<noteq> []" and len: "length a + length b \<le> 6"
  shows "parse_groups (gapped a b) = (case hextets_value (map parse_hextet a) 0 of None \<Rightarrow> None
     | Some n \<Rightarrow> hextets_value (map parse_hextet b) (n * 65536 ^ (8 - (length a + length b))))"
proof -
  let ?p = "gapped a b" and ?i = "if a = [] then 1 else length a"
  have lens: "length ?p = (if a = [] then 1 else 0) + length a + 1 + length b + (if b = [] then 1 else 0)"
    by (simp add: gapped_def)
  have hd: "hd ?p = [] \<longleftrightarrow> a = []" using a by (cases a) (auto simp: gapped_def)
  have lst: "last ?p = [] \<longleftrightarrow> b = []" using b by (cases b rule: rev_cases) (auto simp: gapped_def)
  have one: "filter (\<lambda>i. ?p ! i = []) [1..<length ?p - 1] = [?i]"
  proof (rule filter_single)
    fix j
    assume "j \<in> set [1..<length ?p - 1]"
    then have j: "1 \<le> j" "j + 1 < length ?p" by auto
    show "?p ! j = [] \<longleftrightarrow> j = ?i"
    proof (cases "a = []")
      case True
      then show ?thesis using j b lens by (auto simp: gapped_def nth_append nth_Cons' split: if_splits)
    next
      case False
      then show ?thesis using j a b lens by (auto simp: gapped_def nth_append nth_Cons' split: if_splits)
    qed
  next
    show "?i \<in> set [1..<length ?p - 1]" by (auto simp: gapped_def Suc_le_eq)
  qed simp
  have hi: "(if hd ?p = [] then ?i - 1 else ?i) = length a" using hd by auto
  have lo: "(if last ?p = [] then length ?p - ?i - 1 - 1 else length ?p - ?i - 1) = length b" using lens lst by auto
  have tk: "take (length a) ?p = a" by (auto simp: gapped_def)
  have dr: "drop (length ?p - length b) ?p = b" by (cases "b = []") (auto simp: gapped_def)
  have "\<not> 9 < length ?p" "\<not> ((hd ?p = [] \<and> length a \<noteq> 0) \<or> (last ?p = [] \<and> length b \<noteq> 0) \<or> 7 < length a + length b)"
    using len lens hd lst by (auto split: if_splits)
  then show ?thesis by (simp only: parse_groups_def one list.case Let_def hi lo tk dr if_False)
qed

lemma compress_gapped:
  assumes "best_zero_run hs 0 (0, 0) (0, 0) = (s, l)" "1 < l"
  shows "compress_hextets hs = gapped (map hex_str (take s hs)) (map hex_str (drop (s + l) hs))"
    and "hs = take s hs @ replicate l 0 @ drop (s + l) hs" and "s + l \<le> length hs"
proof -
  have z: "zeros hs (s, l)"
    using best_zero_run_zeros [of "[]" "(0, 0)" "(0, 0)" hs] assms(1) by (simp add: zeros_def)
  then show "s + l \<le> length hs" by (simp add: zeros_def)
  then show "compress_hextets hs = gapped (map hex_str (take s hs)) (map hex_str (drop (s + l) hs))"
    using assms by (auto simp: compress_hextets_def gapped_def)
  show "hs = take s hs @ replicate l 0 @ drop (s + l) hs" using z by (rule split_zeros)
qed

lemma parse_hextets: "list_all (\<lambda>h. h < 65536) hs \<Longrightarrow> map parse_hextet (map hex_str hs) = map Some hs"
  by (auto simp: list_all_iff parse_hextet_hex_str)

lemma parse_compressed:
  assumes "length hs = 8" "list_all (\<lambda>h. h < 65536) hs"
  shows "parse_groups (compress_hextets hs) = Some (base_value 0 hs)"
proof -
  obtain s l where r: "best_zero_run hs 0 (0, 0) (0, 0) = (s, l)" by fastforce
  have ne: "hex_str h \<noteq> []" for h using is_hex_hex_str by (simp add: is_hex_def)
  have ok: "list_all (\<lambda>h. h < 65536) (take s hs)" "list_all (\<lambda>h. h < 65536) (drop (s + l) hs)"
    using assms(2) by (auto simp: list_all_iff dest: in_set_takeD in_set_dropD)
  show ?thesis
  proof (cases "1 < l")
    case True
    note c = compress_gapped [OF r True]
    define A B where "A = take s hs" and "B = drop (s + l) hs"
    have len: "length A + length B + l = 8" using c(3) assms(1) by (simp add: A_def B_def)
    have ne': "x \<noteq> []" if "x \<in> set (map hex_str hs)" for x and hs :: "nat list" using that ne by auto
    have len': "length (map hex_str A) + length (map hex_str B) \<le> 6" using len True by simp
    have "parse_groups (gapped (map hex_str A) (map hex_str B)) = Some (base_value (base_value 0 A * 65536 ^ l) B)"
    proof -
      have "8 - (length A + length B) = l" using len by simp
      then show ?thesis
        using parse_gapped [of "map hex_str A" "map hex_str B", OF ne' ne' len'] parse_hextets [OF ok(1), folded A_def]
          parse_hextets [OF ok(2), folded B_def]
        by (simp only: hextets_value_base length_map option.case)
    qed
    also have "\<dots> = Some (base_value 0 (A @ replicate l 0 @ B))" by (simp add: base_value_append base_value_zeros)
    finally show ?thesis using c(1,2) by (simp add: A_def B_def)
  next
    case False
    have "filter (\<lambda>i. map hex_str hs ! i = []) [1..<length hs - 1] = []" using ne by (auto simp: filter_empty_conv)
    moreover have "hd (map hex_str hs) \<noteq> []" "last (map hex_str hs) \<noteq> []" using assms(1) ne by (cases hs; auto simp: last_map hd_map)+
    ultimately show ?thesis
      using False r assms(1) parse_hextets [OF assms(2)]
      by (simp add: compress_hextets_def parse_groups_def hextets_value_base [symmetric] del: map_map)
  qed
qed

fun groups :: "nat \<Rightarrow> nat \<Rightarrow> nat list" where
  "groups 0 n = []"
| "groups (Suc k) n = groups k (n div 65536) @ [n mod 65536]"

lemma groups_base: "n < 65536 ^ k \<Longrightarrow> base_value 0 (groups k n) = n"
proof (induction k arbitrary: n)
  case (Suc k)
  then have "n div 65536 < 65536 ^ k" by (simp add: less_mult_imp_div_less mult.commute)
  then have "base_value 0 (groups k (n div 65536)) = n div 65536" by (rule Suc.IH)
  then show ?case by (simp add: base_value_append) (simp add: base_value_def)
qed (simp add: base_value_def)

lemma groups_map: "groups k n = map (\<lambda>i. n div 65536 ^ (k - 1 - i) mod 65536) [0..<k]"
proof (induction k arbitrary: n)
  case (Suc k)
  have "n div 65536 div 65536 ^ (k - 1 - i) = n div 65536 ^ (k - i)" if "i < k" for i
  proof -
    have "k - i = Suc (k - 1 - i)" using that by simp
    then show ?thesis by (simp add: div_mult2_eq)
  qed
  then show ?case using Suc by simp
qed simp

lemma ipv6_hextets_groups: "ipv6_hextets n = groups 8 n"
  by (simp add: ipv6_hextets_def groups_map)

lemma ipv6_hextets_base: "n < 2 ^ 128 \<Longrightarrow> base_value 0 (ipv6_hextets n) = n"
  unfolding ipv6_hextets_groups by (rule groups_base) simp

section \<open>Round trip\<close>

lemma compressed_parts:
  assumes "x \<in> set (compress_hextets hs)"
  shows "x = [] \<or> is_hex x"
  using assms is_hex_hex_str by (auto simp: compress_hextets_def split: prod.splits if_splits)

lemma part_chars: "x = [] \<or> is_hex x \<Longrightarrow> unspaced x \<and> CHR '':'' \<notin> set x \<and> CHR ''.'' \<notin> set x \<and> CHR 0x25 \<notin> set x \<and> CHR ''/'' \<notin> set x"
  using is_hexD [of x] by (auto simp: unspaced_def)

lemma set_join: "set (join sep xs) \<subseteq> set sep \<union> (\<Union>x\<in>set xs. set x)"
  by (induction sep xs rule: join.induct) auto

lemma ipv6_str_chars:
  assumes "c \<in> {CHR ''.'', CHR 0x25, CHR ''/''}"
  shows "c \<notin> set (ipv6_str n)"
proof -
  have "c \<notin> set x" if "x \<in> set (compress_hextets (ipv6_hextets n))" for x
    using part_chars [OF compressed_parts [OF that]] assms by auto
  then show ?thesis
    using set_join [of "'':''" "compress_hextets (ipv6_hextets n)"] assms by (auto simp: ipv6_str_def)
qed

lemma unspaced_ipv6_str: "unspaced (ipv6_str n)"
  unfolding ipv6_str_def
proof (rule unspaced_join)
  show "unspaced '':''" by (simp add: unspaced_def is_space_def code_def)
  show "list_all unspaced (compress_hextets (ipv6_hextets n))"
    using part_chars compressed_parts by (auto simp: list_all_iff)
qed

lemma compressed_length: "length hs = 8 \<Longrightarrow> 3 \<le> length (compress_hextets hs)"
proof -
  assume len: "length hs = 8"
  obtain s l where r: "best_zero_run hs 0 (0, 0) (0, 0) = (s, l)" by fastforce
  show ?thesis
  proof (cases "1 < l")
    case True
    note c = compress_gapped [OF r True]
    have "3 \<le> length (gapped a b)" for a b :: "string list" by (auto simp: gapped_def neq_Nil_conv)
    then show ?thesis using c(1) by metis
  next
    case False
    then show ?thesis using r len by (simp add: compress_hextets_def)
  qed
qed

lemma parse_ipv6_str:
  assumes "n < 2 ^ 128"
  shows "parse_ipv6 (ipv6_str n) = Some n"
proof -
  let ?ps = "compress_hextets (ipv6_hextets n)"
  have len: "length (ipv6_hextets n) = 8" by (simp add: ipv6_hextets_def)
  note l3 = compressed_length [OF len]
  then have ne: "?ps \<noteq> []" by auto
  have "split_on (CHR '':'') (ipv6_str n) = ?ps"
    unfolding ipv6_str_def using part_chars compressed_parts ne by (intro split_on_join) blast+
  moreover have "CHR ''.'' \<notin> set (last ?ps)" using part_chars compressed_parts ne by (meson last_in_set)
  moreover have "list_all (\<lambda>h. h < 65536) (ipv6_hextets n)" by (auto simp: ipv6_hextets_def list_all_iff)
  ultimately show ?thesis
    using l3 parse_compressed [OF len] ipv6_hextets_base [OF assms]
    by (simp add: parse_ipv6_def expand_v4_tail_def)
qed

lemma IPv6Address_str: "n < 2 ^ 128 \<Longrightarrow> IPv6Address (ipv6_str n) = Some (V6 n None)"
  using ipv6_str_chars [of "CHR 0x25" n] ipv6_str_chars [of "CHR ''/''" n]
  by (simp add: IPv6Address_def split_scope_id_def parse_ipv6_str)

lemma ip_address_ipv6_str: "n < 2 ^ 128 \<Longrightarrow> ip_address (ipv6_str n) = Some (V6 n None)"
  using ipv6_str_chars [of "CHR ''.''" n] by (simp add: ip_address_def parse_ipv4_def split_on_no IPv6Address_str [simplified] split: option.split)

section \<open>Parsed addresses are in range\<close>

lemma hex_val_bound: "hex_val c = Some d \<Longrightarrow> d < 16"
  by (auto simp: hex_val_def Let_def split: if_splits)

lemma hex_value_bound: "hex_value s < 16 ^ length s"
proof (induction s rule: rev_induct)
  case (snoc c s)
  moreover have "(case hex_val c of None \<Rightarrow> 0 | Some d \<Rightarrow> d) < 16" using hex_val_bound by (auto split: option.split)
  ultimately show ?case by (simp add: hex_value_snoc)
qed (simp add: hex_value_def)

lemma parse_hextet_bound: "parse_hextet s = Some h \<Longrightarrow> h < 65536"
proof -
  assume "parse_hextet s = Some h"
  then have "h = hex_value s" "length s \<le> 4" by (auto simp: parse_hextet_def split: if_splits)
  moreover have "(16::nat) ^ length s \<le> 16 ^ 4" using \<open>length s \<le> 4\<close> by (intro power_increasing) auto
  ultimately show ?thesis using hex_value_bound [of s] by simp
qed

lemma hextets_value_bound:
  "hextets_value (map parse_hextet ps) n = Some v \<Longrightarrow> n < 65536 ^ k \<Longrightarrow> v < 65536 ^ (k + length ps)"
proof (induction ps arbitrary: n k)
  case (Cons p ps)
  then obtain h where h: "parse_hextet p = Some h" "hextets_value (map parse_hextet ps) (n * 65536 + h) = Some v"
    by (cases "parse_hextet p") auto
  have "n * 65536 + h < 65536 ^ Suc k" using Cons.prems(2) parse_hextet_bound [OF h(1)] by simp
  from Cons.IH [OF h(2) this] show ?case by simp
qed simp

lemma parse_groups_bound: "parse_groups ps = Some n \<Longrightarrow> n < 2 ^ 128"
proof -
  assume p: "parse_groups ps = Some n"
  have two: "(2::nat) ^ 128 = 65536 ^ 8" by simp
  show ?thesis
  proof (cases "filter (\<lambda>i. ps ! i = []) [1..<length ps - 1]")
    case Nil
    with p have "length ps = 8" "hextets_value (map parse_hextet ps) 0 = Some n"
      by (auto simp: parse_groups_def split: if_splits)
    then show ?thesis using hextets_value_bound [of ps 0 n 0] two by simp
  next
    case (Cons i r)
    then have r: "r = []" using p by (auto simp: parse_groups_def split: if_splits list.splits)
    define hi where "hi = (if hd ps = [] then i - 1 else i)"
    define lo where "lo = (if last ps = [] then length ps - i - 1 - 1 else length ps - i - 1)"
    obtain m where m: "hextets_value (map parse_hextet (take hi ps)) 0 = Some m"
        "hextets_value (map parse_hextet (drop (length ps - lo) ps)) (m * 65536 ^ (8 - (hi + lo))) = Some n" "hi + lo \<le> 7"
      using p unfolding parse_groups_def Cons r list.case Let_def hi_def [symmetric] lo_def [symmetric]
      by (simp only: split: if_split_asm option.split_asm) auto
    have "m < 65536 ^ hi"
    proof -
      have "(65536::nat) ^ length (take hi ps) \<le> 65536 ^ hi" by (intro power_increasing) auto
      moreover have "m < 65536 ^ (0 + length (take hi ps))" by (rule hextets_value_bound [OF m(1)]) simp
      ultimately show ?thesis unfolding add_0 by (rule order.strict_trans2 [rotated])
    qed
    then have "m * 65536 ^ (8 - (hi + lo)) < 65536 ^ hi * 65536 ^ (8 - (hi + lo))" by simp
    also have "\<dots> = 65536 ^ (8 - lo)" using m(3) by (simp flip: power_add)
    finally have "n < 65536 ^ (8 - lo + length (drop (length ps - lo) ps))" by (rule hextets_value_bound [OF m(2)])
    also have "\<dots> \<le> 65536 ^ 8" using m(3) by (intro power_increasing) auto
    finally show ?thesis using two by simp
  qed
qed

lemma parse_ipv6_bound: "parse_ipv6 s = Some n \<Longrightarrow> n < 2 ^ 128"
  by (auto simp: parse_ipv6_def Let_def split: if_splits option.splits dest: parse_groups_bound)

lemma IPv6Address_bound: "IPv6Address s = Some a \<Longrightarrow> \<exists>n sc. a = V6 n sc \<and> n < 2 ^ 128"
  by (auto simp: IPv6Address_def split: if_splits option.splits dest!: parse_ipv6_bound)

text \<open>A parsed address without scope is read back from its text.\<close>

lemma ip_address_roundtrip:
  assumes "ip_address s = Some a" and "CHR 0x25 \<notin> set s"
  shows "ip_address (ip_str a) = Some a" and "unspaced (ip_str a)" and "CHR 0x25 \<notin> set (ip_str a)" and "CHR ''/'' \<notin> set (ip_str a)"
proof -
  consider (v4) n where "a = V4 n" "n < 2 ^ 32" | (v6) n where "a = V6 n None" "n < 2 ^ 128"
    using assms
    by (auto simp: ip_address_def IPv6Address_def split_scope_id_def split: option.splits if_splits dest!: parse_ipv6_bound parse_ipv4_bound)
  then have "ip_address (ip_str a) = Some a \<and> unspaced (ip_str a) \<and> CHR 0x25 \<notin> set (ip_str a) \<and> CHR ''/'' \<notin> set (ip_str a)"
  proof cases
    case v4
    have "c \<notin> set (ipv4_str n)" if "c = CHR 0x25 \<or> c = CHR ''/''" for c
      using set_join [of "''.''" "map nat_str (ipv4_octets n)"] dot_not_dec [OF nat_str_dec] that by (auto simp: ipv4_str_def)
    then show ?thesis using v4 ip_address_ipv4_str [OF v4(2)] by (simp add: unspaced_ipv4_str)
  next
    case v6
    then show ?thesis
      using ipv6_str_chars [of "CHR 0x25" n] ipv6_str_chars [of "CHR ''/''" n]
      by (simp add: ip_address_ipv6_str [simplified] unspaced_ipv6_str)
  qed
  then show "ip_address (ip_str a) = Some a" "unspaced (ip_str a)" "CHR 0x25 \<notin> set (ip_str a)" "CHR ''/'' \<notin> set (ip_str a)"
    by auto
qed

end
