(* ===== verification/Firewall.thy ===== *)
theory Firewall
  imports Portmap Effects
begin

text \<open>
  Address following of existing firewall rules, \<open>src/router/firewall_automation.py\<close>. The router is the only
  authority over its rules; a binding adopts one rule and lets the hub update one address field of it.
  The router client is an argument: its reads and its one write are functions of a router state of
  any type, and each may raise. The digest of the fingerprint is an argument too.
\<close>

section \<open>Values\<close>

datatype fw_error = FwError string string int | RouterError string string int | Crash py_error

abbreviation bad :: "string \<Rightarrow> fw_error" where
  "bad m \<equiv> FwError m ''INVALID_AUTOMATION'' 400"

definition flag_on :: "json \<Rightarrow> bool \<Rightarrow> bool" where
  "flag_on v dflt = (case v of JNull \<Rightarrow> dflt | JBool b \<Rightarrow> b
     | _ \<Rightarrow> lower (text_of v) \<in> {''1'', ''true'', ''yes'', ''on'', ''enabled''})"

definition fw_rows :: "json \<Rightarrow> row list" where
  "fw_rows data = dict_rows (dget (items data) ''list'')"

definition find_rule :: "json \<Rightarrow> string \<Rightarrow> row option" where
  "find_rule data uuid = List.find (\<lambda>r. text_of (dget r ''uuid'') = uuid) (fw_rows data)"

definition usable_ip :: "string \<Rightarrow> ip \<Rightarrow> bool" where
  "usable_ip family a = (ip_version a = (if family = ''ipv4'' then 4 else 6) \<and> \<not> is_unspecified a \<and> \<not> is_multicast a
     \<and> \<not> is_loopback a \<and> \<not> (ip_version a = 6 \<and> is_link_local a))"

definition fw_ip :: "json \<Rightarrow> string \<Rightarrow> string" where
  "fw_ip v family = (let raw = before (CHR 0x25) (before (CHR ''/'') (text_of v)) in
     if raw = [] then [] else
     case ip_address raw of None \<Rightarrow> []
     | Some a \<Rightarrow> if usable_ip family a then ip_str a else [])"

definition host_part :: "ip \<Rightarrow> string" where
  "host_part a = (let host = ip_value a mod 2 ^ 64 in if host = 0 then [] else ipv6_str host)"

definition suffix_of :: "string \<Rightarrow> fw_error + string" where
  "suffix_of address = (case IPv6Address address of None \<Rightarrow> Inl (Crash ValueError) | Some a \<Rightarrow> Inr (host_part a))"

definition field_value :: "string \<Rightarrow> json \<Rightarrow> string \<Rightarrow> string" where
  "field_value field v family =
    (if field = ''destIP'' then fw_ip v family
     else if field \<noteq> ''ipv6SuffixDest'' \<or> family \<noteq> ''ipv6'' then []
     else let raw = text_of v in
       if raw = [] then []
       else case IPv6Address (if CHR '':'' \<in> set raw then raw else ''::'' @ raw) of
              None \<Rightarrow> [] | Some a \<Rightarrow> host_part a)"

definition target_from_endpoint :: "json \<Rightarrow> string" where
  "target_from_endpoint v = (let raw = text_of v in
     if startswith raw ''['' \<and> CHR '']'' \<in> set raw then tl (before (CHR '']'') raw)
     else if length (filter (\<lambda>c. c = CHR '':'') raw) = 1
       then (if isdigit (after (CHR '':'') raw) then before (CHR '':'') raw else raw)
     else raw)"

text \<open>\<open>digest\<close> is SHA-256 in hexadecimal.\<close>

definition owned_text :: "row \<Rightarrow> string \<Rightarrow> string" where
  "owned_text rule field = json_dumps (JObj (filter (\<lambda>(k, v). k \<noteq> ''stats'' \<and> k \<noteq> field) rule))"

definition rule_fingerprint :: "(string \<Rightarrow> string) \<Rightarrow> row \<Rightarrow> string \<Rightarrow> string" where
  "rule_fingerprint digest rule field = digest (owned_text rule field)"

definition int_of_text :: "string \<Rightarrow> fw_error + int" where
  "int_of_text s = (case py_int s of None \<Rightarrow> Inl (Crash ValueError) | Some i \<Rightarrow> Inr i)"

definition port_item :: "int \<Rightarrow> string \<Rightarrow> fw_error + bool" where
  "port_item port item = (let p = strip item in
     ebind (if isdigit p then ebind (int_of_text p) (\<lambda>i. Inr (i = port)) else Inr False) (\<lambda>hit.
       if hit then Inr True
       else if CHR '':'' \<in> set p then
         (let l = before (CHR '':'') p; r = after (CHR '':'') p in
          if isdigit (strip l) \<and> isdigit (strip r)
          then ebind (int_of_text l) (\<lambda>i. if i \<le> port then ebind (int_of_text r) (\<lambda>j. Inr (port \<le> j)) else Inr False)
          else Inr False)
       else Inr False))"

fun any_port :: "int \<Rightarrow> string list \<Rightarrow> fw_error + bool" where
  "any_port port [] = Inr False"
| "any_port port (x # xs) = ebind (port_item port x) (\<lambda>hit. if hit then Inr True else any_port port xs)"

definition port_contains :: "json \<Rightarrow> json \<Rightarrow> fw_error + bool" where
  "port_contains v target = (case py_int (strip (py_str (por target (JStr [])))) of
     None \<Rightarrow> Inr False
   | Some port \<Rightarrow> if \<not> (1 \<le> port \<and> port \<le> 65535) then Inr False
       else any_port port (if text_of v = [] then [] else split_on (CHR '','') (replace_char (CHR ''-'') (CHR '':'') (text_of v))))"

definition protocol_matches :: "json \<Rightarrow> string \<Rightarrow> bool" where
  "protocol_matches rule_protocol mapping_protocol =
    (let rule = lower (text_of rule_protocol);
         mapping = replace_char (CHR ''/'') (CHR ''+'') (lower (strip mapping_protocol))
     in if mapping \<in> {''tcp+udp'', ''udp+tcp'', ''both''} then rule = ''tcp'' \<or> rule = ''udp''
        else rule = mapping \<and> (rule = ''tcp'' \<or> rule = ''udp''))"

section \<open>State and client\<close>

text \<open>What happened, in order: the calls of the router client, the start of a reconciliation and the sight of a wanted
  address. The trace is recorded for the theorems; the code does not read it.\<close>

datatype fw_call = ReadFirewall | ReadNative | UpdateFirewall json | Began | Observed string string

record 'r fw_client =
  cl_firewall :: "'r \<Rightarrow> (fw_error + json) \<times> 'r"
  cl_native :: "'r \<Rightarrow> (fw_error + json) \<times> 'r"
  cl_update :: "json \<Rightarrow> 'r \<Rightarrow> (fw_error + json) \<times> 'r"
  cl_snapshot :: "string \<Rightarrow> 'r \<Rightarrow> json"

text \<open>
  A candidate is the value seen last and how often it was seen. Its time of first sight is not read by the code and left out.
  \<open>cl_snapshot\<close> is the \<open>data\<close> of a frame of the configuration cache, \<open>JNull\<close> if there is none.
\<close>

record 'r fw_state =
  fw_docs :: docs
  fw_candidates :: "(string \<times> string \<times> int) list"
  fw_router :: 'r
  fw_trace :: "fw_call list"

type_synonym ('r, 'a) fw_op = "('r fw_state, fw_error, 'a) op"

definition call_router :: "fw_call \<Rightarrow> ('r \<Rightarrow> (fw_error + 'a) \<times> 'r) \<Rightarrow> ('r, 'a) fw_op" where
  "call_router c f s = (case f (fw_router s) of (r, r') \<Rightarrow> (r, s\<lparr>fw_router := r', fw_trace := fw_trace s @ [c]\<rparr>))"

definition read_firewall :: "'r fw_client \<Rightarrow> ('r, json) fw_op" where
  "read_firewall cl = call_router ReadFirewall (cl_firewall cl)"

definition read_native :: "'r fw_client \<Rightarrow> ('r, json) fw_op" where
  "read_native cl = call_router ReadNative (cl_native cl)"

definition update_firewall :: "'r fw_client \<Rightarrow> json \<Rightarrow> ('r, json) fw_op" where
  "update_firewall cl p = call_router (UpdateFirewall p) (cl_update cl p)"

text \<open>\<open>RouterController.write_and_verify\<close>: the write, then a forced read.\<close>

definition write_and_verify :: "('s, 'e, 'a) op \<Rightarrow> ('s, 'e, 'b) op \<Rightarrow> ('s, 'e, 'b) op" where
  "write_and_verify w rd = sbind w (\<lambda>_. rd)"

section \<open>Bindings\<close>

definition binding_uuid :: "row \<Rightarrow> string" where
  "binding_uuid b = text_of (dget b ''firewallUuid'')"

definition bindings :: "docs \<Rightarrow> row list" where
  "bindings d = filter (\<lambda>b. binding_uuid b \<noteq> [])
     (dict_rows (dget (items (load_json d ''firewall_automation.json'' (JObj []))) ''bindings''))"

definition save_bindings :: "env \<Rightarrow> row list \<Rightarrow> docs \<Rightarrow> docs" where
  "save_bindings e rows d = save_json d ''firewall_automation.json''
     (JObj [(''version'', JInt 2), (''updatedAt'', JStr (env_now_str e)),
            (''bindings'', JList (map JObj (take 100 (sort_key binding_uuid rows))))])"

definition find_binding :: "docs \<Rightarrow> string \<Rightarrow> row option" where
  "find_binding d uuid = List.find (\<lambda>b. binding_uuid b = uuid) (bindings d)"

record mapping_spec =
  ms_kind :: string
  ms_id :: string
  ms_name :: string
  ms_family :: string
  ms_address :: string
  ms_protocol :: string
  ms_target_port :: json

definition relay_candidate :: "row \<Rightarrow> row \<Rightarrow> string \<Rightarrow> json" where
  "relay_candidate rule rt family =
    (let c1 = (if lower (text_of (dget rt ''state'')) \<in> {''running'', ''active''}
               then JStr (target_from_endpoint (dget rt ''resolvedTarget'')) else JStr []);
         c2 = (if \<not> truthy c1 \<and> family = ''ipv4'' then dget rule ''targetIpv4'' else c1);
         c3 = (if \<not> truthy c2 \<and> text_of (dget rule ''targetMode'') = ''ipv6_full'' then dget rule ''targetIpv6'' else c2)
     in if \<not> truthy c3 then dget rule ''targetIpv6Snapshot'' else c3)"

definition relay_mapping_spec :: "docs \<Rightarrow> string \<Rightarrow> mapping_spec option" where
  "relay_mapping_spec d mapping_id =
    (case load_portmap_rules_document d of (doc, readable) \<Rightarrow>
     case (if readable then List.find (\<lambda>r. text_of (dget r ''id'') = mapping_id) (pd_rules doc) else None) of
       None \<Rightarrow> None
     | Some rule \<Rightarrow>
        (let family = (if lower (text_of (dget rule ''mode'')) = ''6to4'' then ''ipv4'' else ''ipv6'');
             status = items (load_json d ''portmap_router_status.json'' (JObj []));
             rt = (case map_of (portmap_runtime_map status) mapping_id of None \<Rightarrow> [] | Some x \<Rightarrow> x)
         in Some \<lparr>ms_kind = ''relay'', ms_id = mapping_id, ms_name = text_or (text_of (dget rule ''name'')) mapping_id,
              ms_family = family, ms_address = fw_ip (relay_candidate rule rt family) family,
              ms_protocol = lower (text_of (por (dget rule ''transportProtocol'') (JStr ''TCP''))),
              ms_target_port = dget rule ''targetPort''\<rparr>))"

definition native_rows :: "json \<Rightarrow> row list" where
  "native_rows data = dict_rows (por (dget (items data) ''portMapping'') (por (dget (items data) ''list'') (JList [])))"

definition native_spec :: "json \<Rightarrow> string \<Rightarrow> mapping_spec option" where
  "native_spec data mapping_id =
    (case List.find (\<lambda>r. text_of (dget r ''ruleName'') = mapping_id) (native_rows data) of
       None \<Rightarrow> None
     | Some rule \<Rightarrow> Some \<lparr>ms_kind = ''native'', ms_id = mapping_id, ms_name = text_or (text_of (dget rule ''ruleName'')) mapping_id,
         ms_family = ''ipv4'', ms_address = fw_ip (dget rule ''destIp'') ''ipv4'',
         ms_protocol = lower (text_of (por (dget rule ''proto'') (JStr ''tcp''))), ms_target_port = dget rule ''destPort''\<rparr>)"

definition binding_kind :: "row \<Rightarrow> string" where
  "binding_kind b = lower (text_of (por (dget b ''mappingKind'') (JStr ''relay'')))"

definition mapping_spec_of :: "'r fw_client \<Rightarrow> row \<Rightarrow> 'r fw_state \<Rightarrow> mapping_spec option" where
  "mapping_spec_of cl b s =
    (if binding_kind b = ''relay'' then relay_mapping_spec (fw_docs s) (text_of (dget b ''mappingId''))
     else if binding_kind b = ''native'' then native_spec (cl_snapshot cl ''portMappings'' (fw_router s)) (text_of (dget b ''mappingId''))
     else None)"

text \<open>With \<open>fresh=True\<close> the router is asked when the cache has no port mappings.\<close>

definition fresh_mapping_spec :: "'r fw_client \<Rightarrow> row \<Rightarrow> ('r, mapping_spec option) fw_op" where
  "fresh_mapping_spec cl b s =
    (if binding_kind b = ''native'' \<and> native_rows (cl_snapshot cl ''portMappings'' (fw_router s)) = []
     then sbind (read_native cl) (\<lambda>data. ret (native_spec data (text_of (dget b ''mappingId'')))) s
     else (Inr (mapping_spec_of cl b s), s))"

section \<open>Adopting a rule\<close>

definition binding_family :: "row \<Rightarrow> row \<Rightarrow> string" where
  "binding_family body rule = lower (text_of (por (dget body ''addressFamily'') (dget rule ''ipVersion'')))"

definition binding_field :: "row \<Rightarrow> row \<Rightarrow> string" where
  "binding_field body rule = (let f = text_of (dget body ''matchField'') in
     if f = [] then (if text_of (dget rule ''ipv6SuffixDest'') = [] then ''destIP'' else ''ipv6SuffixDest'') else f)"

definition rule_shape :: "row \<Rightarrow> bool" where
  "rule_shape rule = (upper (text_of (dget rule ''target'')) = ''ACCEPT'' \<and> lower (text_of (dget rule ''direction'')) = ''forward''
     \<and> lower (text_of (dget rule ''inIface'')) = ''wan'' \<and> lower (text_of (dget rule ''outIface'')) = ''lan'')"

definition field_fits :: "string \<Rightarrow> string \<Rightarrow> bool" where
  "field_fits field family = ((field = ''destIP'' \<or> field = ''ipv6SuffixDest'') \<and> \<not> (family = ''ipv4'' \<and> field \<noteq> ''destIP''))"

definition new_binding :: "env \<Rightarrow> (string \<Rightarrow> string) \<Rightarrow> string \<Rightarrow> row \<Rightarrow> row \<Rightarrow> row" where
  "new_binding e digest uuid body rule =
    (let family = binding_family body rule; field = binding_field body rule in
     [(''firewallUuid'', JStr uuid), (''enabled'', JBool (flag_on (dget body ''enabled'') True)), (''targetType'', JStr ''mapping''),
      (''mappingKind'', JStr (binding_kind body)), (''mappingId'', JStr (text_of (dget body ''mappingId''))),
      (''addressFamily'', JStr family), (''matchField'', JStr field),
      (''ownership'', JStr (text_of (por (dget body ''ownership'') (JStr ''adopted'')))),
      (''lastAppliedValue'', JStr (field_value field (dget rule field) family)),
      (''ruleFingerprint'', JStr (rule_fingerprint digest rule field)),
      (''suspended'', JBool False), (''suspendedReason'', JStr []), (''lastAppliedAt'', JInt (env_now e))])"

definition normalize_binding :: "'r fw_client \<Rightarrow> env \<Rightarrow> (string \<Rightarrow> string) \<Rightarrow> string \<Rightarrow> row \<Rightarrow> row \<Rightarrow> ('r, row) fw_op" where
  "normalize_binding cl e digest uuid body rule =
    (let kind = binding_kind body; mid = text_of (dget body ''mappingId'');
         family = binding_family body rule; field = binding_field body rule
     in sbind (guard (lower (text_of (dget body ''targetType'')) = ''mapping'') (bad ''only mappings are supported'')) (\<lambda>_.
        sbind (guard (kind = ''relay'' \<or> kind = ''native'') (bad ''invalid mapping kind'')) (\<lambda>_.
        sbind (guard (mid \<noteq> []) (bad ''choose a mapping'')) (\<lambda>_.
        sbind (guard (family = ''ipv4'' \<or> family = ''ipv6'') (bad ''dual-stack rules cannot be bound'')) (\<lambda>_.
        sbind (guard (field_fits field family) (bad ''field does not fit the IP version'')) (\<lambda>_.
        sbind (guard (lower (text_of (dget rule ''ipVersion'')) = family) (bad ''IP version differs from the rule'')) (\<lambda>_.
        sbind (guard (field_value field (dget rule field) family \<noteq> []) (bad ''the rule has no valid address'')) (\<lambda>_.
        sbind (guard (upper (text_of (dget rule ''target'')) = ''ACCEPT'') (bad ''not an accepting rule'')) (\<lambda>_.
        sbind (guard (lower (text_of (dget rule ''direction'')) = ''forward'') (bad ''not a forwarding rule'')) (\<lambda>_.
        sbind (guard (rule_shape rule) (bad ''not from WAN to LAN'')) (\<lambda>_.
        sbind (fresh_mapping_spec cl [(''mappingKind'', JStr kind), (''mappingId'', JStr mid), (''addressFamily'', JStr family)]) (\<lambda>m.
        case m of
          None \<Rightarrow> fail (FwError ''mapping not found'' ''MAPPING_NOT_FOUND'' 404)
        | Some ms \<Rightarrow>
            sbind (guard (ms_family ms = family) (bad ''IP version differs from the mapping'')) (\<lambda>_.
            sbind (guard (protocol_matches (dget rule ''proto'') (ms_protocol ms)) (bad ''protocol differs from the mapping'')) (\<lambda>_.
            sbind (pure (port_contains (dget rule ''destPort'') (ms_target_port ms))) (\<lambda>covered.
            sbind (guard covered (bad ''target port is not covered'')) (\<lambda>_.
            ret (new_binding e digest uuid body rule)))))))))))))))))"

section \<open>Resolving the wanted address\<close>

definition resolve :: "'r fw_client \<Rightarrow> row \<Rightarrow> 'r fw_state \<Rightarrow> fw_error + (string \<times> string)" where
  "resolve cl b s =
    (if text_of (dget b ''targetType'') \<noteq> ''mapping'' then Inr ([], []) else
     case mapping_spec_of cl b s of
       None \<Rightarrow> Inr ([], text_of (dget b ''mappingId''))
     | Some m \<Rightarrow>
        (let address = fw_ip (JStr (ms_address m)) (text_of (dget b ''addressFamily'')); name = strip (ms_name m) in
         if address \<noteq> [] \<and> text_of (dget b ''matchField'') = ''ipv6SuffixDest''
         then ebind (suffix_of address) (\<lambda>a. Inr (a, name)) else Inr (address, name)))"

definition rule_compatible :: "'r fw_client \<Rightarrow> row \<Rightarrow> row \<Rightarrow> 'r fw_state \<Rightarrow> fw_error + bool" where
  "rule_compatible cl rule b s =
    (if text_of (dget b ''targetType'') \<noteq> ''mapping'' then Inr False else
     let family = text_of (dget b ''addressFamily''); field = text_of (dget b ''matchField'') in
     case mapping_spec_of cl b s of
       None \<Rightarrow> Inr False
     | Some m \<Rightarrow>
        if lower (text_of (dget rule ''ipVersion'')) = family \<and> field_fits field family
           \<and> field_value field (dget rule field) family \<noteq> [] \<and> rule_shape rule \<and> ms_family m = family
           \<and> protocol_matches (dget rule ''proto'') (ms_protocol m)
        then port_contains (dget rule ''destPort'') (ms_target_port m) else Inr False)"

section \<open>Reconciliation\<close>

definition replace_binding :: "env \<Rightarrow> row \<Rightarrow> docs \<Rightarrow> docs" where
  "replace_binding e b d = save_bindings e (filter (\<lambda>x. binding_uuid x \<noteq> binding_uuid b) (bindings d) @ [b]) d"

definition clear_candidate :: "string \<Rightarrow> 'r fw_state \<Rightarrow> 'r fw_state" where
  "clear_candidate uuid s = s\<lparr>fw_candidates := dpop uuid (fw_candidates s)\<rparr>"

definition suspend :: "env \<Rightarrow> row \<Rightarrow> string \<Rightarrow> 'r fw_state \<Rightarrow> 'r fw_state" where
  "suspend e b reason s =
    (if flag_on (dget b ''suspended'') False \<and> text_of (dget b ''suspendedReason'') = reason then s
     else clear_candidate (binding_uuid b) (s\<lparr>fw_docs := replace_binding e
            (dmerge b [(''suspended'', JBool True), (''suspendedReason'', JStr reason), (''suspendedAt'', JInt (env_now e))]) (fw_docs s)\<rparr>))"

definition STABLE_OBSERVATIONS :: int where
  "STABLE_OBSERVATIONS = 2"

definition note_candidate :: "string \<Rightarrow> string \<Rightarrow> (string \<times> string \<times> int) list \<Rightarrow> bool \<times> (string \<times> string \<times> int) list" where
  "note_candidate uuid desired cands =
    (case map_of cands uuid of
       Some (v, n) \<Rightarrow>
         if strip v \<noteq> desired then (False, dset uuid (desired, 1) cands)
         else let n' = min STABLE_OBSERVATIONS (n + 1) in (STABLE_OBSERVATIONS \<le> n', dset uuid (v, n') cands)
     | None \<Rightarrow> (False, dset uuid (desired, 1) cands))"

definition candidate_confirmed :: "string \<Rightarrow> string \<Rightarrow> ('r, bool) fw_op" where
  "candidate_confirmed uuid desired s = (case note_candidate uuid desired (fw_candidates s) of
     (confirmed, cands) \<Rightarrow> (Inr confirmed, s\<lparr>fw_candidates := cands, fw_trace := fw_trace s @ [Observed uuid desired]\<rparr>))"

definition verify :: "json \<Rightarrow> row \<Rightarrow> string \<Rightarrow> fw_error + unit" where
  "verify data b desired =
    (let field = text_of (dget b ''matchField'');
         rule = (case find_rule data (binding_uuid b) of None \<Rightarrow> [] | Some r \<Rightarrow> r)
     in if field_value field (dget rule field) (text_of (dget b ''addressFamily'')) = desired then Inr ()
        else Inl (FwError ''read-back differs'' ''VERIFY_FAILED'' 502))"

datatype fw_outcome = Unchanged | Busy | Suspended string | Changed string string string string

definition update_payload :: "row \<Rightarrow> string \<Rightarrow> string \<Rightarrow> row" where
  "update_payload rule field desired = dset field (JStr desired) (dpop ''stats'' rule)"

definition applied_binding :: "env \<Rightarrow> (string \<Rightarrow> string) \<Rightarrow> row \<Rightarrow> row \<Rightarrow> string \<Rightarrow> string \<Rightarrow> row" where
  "applied_binding e digest b updated field desired =
     dmerge b [(''lastAppliedValue'', JStr desired), (''ruleFingerprint'', JStr (rule_fingerprint digest updated field)),
       (''lastAppliedAt'', JInt (env_now e)), (''suspended'', JBool False), (''suspendedReason'', JStr [])]"

text \<open>The write, its verification and the update of the binding.\<close>

definition apply_address :: "'r fw_client \<Rightarrow> env \<Rightarrow> (string \<Rightarrow> string) \<Rightarrow> row \<Rightarrow> row \<Rightarrow> string \<Rightarrow> string \<Rightarrow> ('r, fw_outcome) fw_op" where
  "apply_address cl e digest b rule actual desired =
    (let field = text_of (dget b ''matchField''); uuid = binding_uuid b; payload = update_payload rule field desired in
     sbind (write_and_verify (update_firewall cl (JObj [(''list'', JList [JObj payload])])) (read_firewall cl)) (\<lambda>verified.
     sbind (pure (verify verified b desired)) (\<lambda>_.
     let updated = (case find_rule verified uuid of None \<Rightarrow> payload | Some r \<Rightarrow> if r = [] then payload else r) in
     sbind (modify (\<lambda>s. clear_candidate uuid (s\<lparr>fw_docs := replace_binding e (applied_binding e digest b updated field desired) (fw_docs s)\<rparr>))) (\<lambda>_.
     ret (Changed uuid field actual desired)))))"

text \<open>\<open>drifted\<close>: the rule is not as the hub left it.\<close>

definition drifted :: "(string \<Rightarrow> string) \<Rightarrow> row \<Rightarrow> row \<Rightarrow> bool" where
  "drifted digest b rule =
    (let field = text_of (dget b ''matchField''); family = text_of (dget b ''addressFamily'');
         last_applied = field_value field (dget b ''lastAppliedValue'') family
     in last_applied = [] \<or> text_of (dget b ''ruleFingerprint'') = []
        \<or> field_value field (dget rule field) family \<noteq> last_applied
        \<or> rule_fingerprint digest rule field \<noteq> text_of (dget b ''ruleFingerprint''))"

definition binding_active :: "row \<Rightarrow> bool" where
  "binding_active b = (text_of (dget b ''targetType'') = ''mapping'' \<and> flag_on (dget b ''enabled'') True
     \<and> \<not> flag_on (dget b ''suspended'') False)"

definition suspend_reason :: "row \<Rightarrow> string" where
  "suspend_reason b = (if field_value (text_of (dget b ''matchField'')) (dget b ''lastAppliedValue'') (text_of (dget b ''addressFamily'')) = []
     then ''confirmation_required'' else ''manual_change'')"

text \<open>The end of a turn, with the address in the rule and the wanted one: nothing to do, wait for a second
  observation, or write.\<close>

definition follow_address :: "'r fw_client \<Rightarrow> env \<Rightarrow> (string \<Rightarrow> string) \<Rightarrow> row \<Rightarrow> row \<Rightarrow> string \<Rightarrow> string \<Rightarrow> ('r, fw_outcome option) fw_op" where
  "follow_address cl e digest b rule actual desired =
    (let uuid = binding_uuid b in
     if desired = [] \<or> actual = [] \<or> actual = desired then
       sbind (modify (\<lambda>s. if actual = desired then clear_candidate uuid s else s)) (\<lambda>_. ret None)
     else
       sbind (candidate_confirmed uuid desired) (\<lambda>confirmed.
       if \<not> confirmed then ret None
       else sbind (apply_address cl e digest b rule actual desired) (\<lambda>out. ret (Some out))))"

text \<open>One turn of the loop over the bindings; \<open>None\<close> continues with the next one.\<close>

definition reconcile_one :: "'r fw_client \<Rightarrow> env \<Rightarrow> (string \<Rightarrow> string) \<Rightarrow> json \<Rightarrow> row \<Rightarrow> ('r, fw_outcome option) fw_op" where
  "reconcile_one cl e digest current b =
    (let uuid = binding_uuid b; field = text_of (dget b ''matchField''); family = text_of (dget b ''addressFamily'') in
     if \<not> binding_active b then ret None else
     case find_rule current uuid of
       None \<Rightarrow> ret None
     | Some rule \<Rightarrow>
        if drifted digest b rule then
          sbind (modify (suspend e b (suspend_reason b))) (\<lambda>_. ret (Some (Suspended uuid)))
        else
          sbind (gets (rule_compatible cl rule b)) (\<lambda>c. sbind (pure c) (\<lambda>compatible.
          if \<not> compatible then ret None else
          sbind (gets (resolve cl b)) (\<lambda>r. sbind (pure r) (\<lambda>(desired, _).
          follow_address cl e digest b rule (field_value field (dget rule field) family) desired)))))"

fun reconcile_loop :: "'r fw_client \<Rightarrow> env \<Rightarrow> (string \<Rightarrow> string) \<Rightarrow> json \<Rightarrow> row list \<Rightarrow> ('r, fw_outcome) fw_op" where
  "reconcile_loop cl e digest current [] = ret Unchanged"
| "reconcile_loop cl e digest current (b # bs) =
     sbind (reconcile_one cl e digest current b) (\<lambda>out. case out of Some o' \<Rightarrow> ret o' | None \<Rightarrow> reconcile_loop cl e digest current bs)"

definition observe_firewall :: "'r fw_client \<Rightarrow> json \<Rightarrow> ('r, json) fw_op" where
  "observe_firewall cl firewall = (if is_dict firewall then ret firewall else read_firewall cl)"

text \<open>\<open>locked\<close>: another reconciliation holds the lock and this one does not wait for it.\<close>

definition reconcile :: "'r fw_client \<Rightarrow> env \<Rightarrow> (string \<Rightarrow> string) \<Rightarrow> bool \<Rightarrow> json \<Rightarrow> string \<Rightarrow> ('r, fw_outcome) fw_op" where
  "reconcile cl e digest locked firewall uuid =
    (if locked then ret Busy else
     sbind (modify (\<lambda>s. s\<lparr>fw_trace := fw_trace s @ [Began]\<rparr>)) (\<lambda>_.
     sbind (observe_firewall cl firewall) (\<lambda>current.
     sbind (gets (\<lambda>s. bindings (fw_docs s))) (\<lambda>bs.
     reconcile_loop cl e digest current (if uuid = [] then bs else filter (\<lambda>b. binding_uuid b = uuid) bs)))))"

section \<open>Requests\<close>

definition binding_status :: "'r fw_client \<Rightarrow> (string \<Rightarrow> string) \<Rightarrow> row \<Rightarrow> row option \<Rightarrow> string \<Rightarrow> 'r fw_state \<Rightarrow> fw_error + string" where
  "binding_status cl digest b rule desired s =
    (let current = field_value (text_of (dget b ''matchField'')) (dget (case rule of None \<Rightarrow> [] | Some r \<Rightarrow> r) (text_of (dget b ''matchField'')))
                     (text_of (dget b ''addressFamily''));
         drift = (case rule of None \<Rightarrow> False | Some r \<Rightarrow> r \<noteq> [] \<and> drifted digest b r)
     in if text_of (dget b ''targetType'') \<noteq> ''mapping'' then Inr ''out_of_scope''
        else if \<not> flag_on (dget b ''enabled'') True then Inr ''disabled''
        else if flag_on (dget b ''suspended'') False \<or> drift then Inr ''manual_override''
        else (case rule of None \<Rightarrow> Inr ''missing_rule''
          | Some r \<Rightarrow> ebind (rule_compatible cl r b s) (\<lambda>c.
              if \<not> c then Inr ''unsupported'' else if desired = [] then Inr ''waiting_target''
              else if current = desired then Inr ''synced'' else Inr ''pending'')))"

definition binding_state :: "'r fw_client \<Rightarrow> (string \<Rightarrow> string) \<Rightarrow> json \<Rightarrow> 'r fw_state \<Rightarrow> row \<Rightarrow> fw_error + row" where
  "binding_state cl digest firewall s b =
    (let rule = find_rule firewall (binding_uuid b); r = (case rule of None \<Rightarrow> [] | Some x \<Rightarrow> x); field = text_of (dget b ''matchField'') in
     ebind (resolve cl b s) (\<lambda>(desired, name).
     ebind (binding_status cl digest b rule desired s) (\<lambda>status.
     Inr (dmerge b [(''targetName'', JStr name), (''ruleName'', JStr (text_of (dget r ''ruleName''))),
       (''direction'', JStr (text_of (dget r ''direction''))),
       (''currentAddress'', JStr (field_value field (dget r field) (text_of (dget b ''addressFamily'')))),
       (''desiredAddress'', JStr desired), (''status'', JStr status)]))))"

text \<open>\<open>firewall\<close> is \<open>JNull\<close> when the caller passes no data.\<close>

definition describe :: "'r fw_client \<Rightarrow> (string \<Rightarrow> string) \<Rightarrow> json \<Rightarrow> ('r, row list) fw_op" where
  "describe cl digest firewall =
    sbind (gets (\<lambda>s. cl_snapshot cl ''firewall'' (fw_router s))) (\<lambda>cached.
    sbind (if firewall \<noteq> JNull then ret firewall else if is_dict cached then ret cached else read_firewall cl) (\<lambda>fw.
    sbind (gets (\<lambda>s. emap (binding_state cl digest fw s) (bindings (fw_docs s)))) pure))"

definition describe_one :: "'r fw_client \<Rightarrow> (string \<Rightarrow> string) \<Rightarrow> string \<Rightarrow> json \<Rightarrow> ('r, row) fw_op" where
  "describe_one cl digest uuid firewall = sbind (describe cl digest firewall) (\<lambda>states.
     ret (case List.find (\<lambda>b. binding_uuid b = uuid) states of None \<Rightarrow> [] | Some b \<Rightarrow> b))"

definition upsert :: "'r fw_client \<Rightarrow> env \<Rightarrow> (string \<Rightarrow> string) \<Rightarrow> string \<Rightarrow> row \<Rightarrow> ('r, row) fw_op" where
  "upsert cl e digest uuid_arg body =
    (let uuid = strip uuid_arg in
     sbind (guard (uuid \<noteq> []) (bad ''uuid must not be empty'')) (\<lambda>_.
     sbind (read_firewall cl) (\<lambda>firewall.
     case find_rule firewall uuid of
       None \<Rightarrow> fail (FwError ''rule not found'' ''RULE_NOT_FOUND'' 404)
     | Some rule \<Rightarrow>
        sbind (normalize_binding cl e digest uuid body rule) (\<lambda>b.
        sbind (modify (\<lambda>s. s\<lparr>fw_docs := save_bindings e (filter (\<lambda>x. binding_uuid x \<noteq> uuid) (bindings (fw_docs s)) @ [b]) (fw_docs s)\<rparr>)) (\<lambda>_.
        sbind (reconcile cl e digest False firewall uuid) (\<lambda>_.
        sbind (read_firewall cl) (\<lambda>fw2. describe_one cl digest uuid fw2)))))))"

definition delete_binding :: "env \<Rightarrow> string \<Rightarrow> ('r, bool) fw_op" where
  "delete_binding e uuid s =
    (let before = bindings (fw_docs s); after = filter (\<lambda>b. binding_uuid b \<noteq> uuid) before in
     if length after \<noteq> length before
     then (Inr True, clear_candidate uuid (s\<lparr>fw_docs := save_bindings e after (fw_docs s)\<rparr>))
     else (Inr False, s))"

definition sync_binding :: "'r fw_client \<Rightarrow> env \<Rightarrow> (string \<Rightarrow> string) \<Rightarrow> string \<Rightarrow> ('r, row \<times> fw_outcome) fw_op" where
  "sync_binding cl e digest uuid =
    sbind (gets (\<lambda>s. find_binding (fw_docs s) uuid)) (\<lambda>b.
    if b = None then fail (FwError ''rule is not bound'' ''BINDING_NOT_FOUND'' 404)
    else sbind (reconcile cl e digest False JNull uuid) (\<lambda>out.
         sbind (describe_one cl digest uuid JNull) (\<lambda>row. ret (row, out))))"

text \<open>The error handler of the blueprint: the code and the status of an answer.\<close>

fun fw_reply :: "fw_error + 'a \<Rightarrow> string \<times> int" where
  "fw_reply (Inr _) = (''ok'', 200)"
| "fw_reply (Inl (FwError m c n)) = (c, n)"
| "fw_reply (Inl (RouterError m c n)) = (c, n)"
| "fw_reply (Inl (Crash _)) = (''INTERNAL_ERROR'', 500)"

end
