(* ===== verification/FirewallRuns.thy ===== *)
theory FirewallRuns
  imports Firewall IpText
begin

text \<open>Properties of the address following of \<open>Firewall\<close>: what is written to the router, when, and
  what the bindings record about it.\<close>

section \<open>Addresses as texts\<close>

lemma fw_ip_cases:
  obtains "fw_ip v fam = []"
  | a raw where "ip_address raw = Some a" "CHR 0x25 \<notin> set raw" "fw_ip v fam = ip_str a" "usable_ip fam a"
proof -
  let ?raw = "before (CHR 0x25) (before (CHR ''/'') (text_of v))"
  have "CHR 0x25 \<notin> set ?raw" by (auto simp: before_def dest: set_takeWhileD)
  moreover have "fw_ip v fam = [] \<or> (\<exists>a. ip_address ?raw = Some a \<and> fw_ip v fam = ip_str a \<and> usable_ip fam a)"
    by (simp add: fw_ip_def Let_def split: option.split)
  ultimately show thesis using that by blast
qed

lemma before_id: "c \<notin> set s \<Longrightarrow> before c s = s"
  by (auto simp: before_def takeWhile_eq_all_conv)

lemma fw_ip_facts: "unspaced (fw_ip v fam)" "fw_ip (JStr (fw_ip v fam)) fam = fw_ip v fam"
proof -
  have "unspaced (fw_ip v fam) \<and> fw_ip (JStr (fw_ip v fam)) fam = fw_ip v fam"
  proof (cases "fw_ip v fam = []")
    case True
    then show ?thesis by (simp add: unspaced_def fw_ip_def before_def)
  next
    case False
    then obtain a raw where a: "ip_address raw = Some a" "CHR 0x25 \<notin> set raw" "fw_ip v fam = ip_str a" "usable_ip fam a"
      using fw_ip_cases [of v fam] by metis
    note rt = ip_address_roundtrip [OF a(1,2)]
    have "text_of (JStr (ip_str a)) = ip_str a" using rt(2) by (simp add: strip_unspaced)
    then have "fw_ip (JStr (ip_str a)) fam = ip_str a"
      using a(3,4) False rt by (simp add: fw_ip_def before_id Let_def)
    then show ?thesis using a(3) rt(2) by simp
  qed
  then show "unspaced (fw_ip v fam)" "fw_ip (JStr (fw_ip v fam)) fam = fw_ip v fam" by auto
qed

lemma host_part_cases: "host_part a = [] \<or> (\<exists>h. 0 < h \<and> h < 2 ^ 64 \<and> host_part a = ipv6_str h)"
  by (auto simp: host_part_def Let_def)

lemma parse_ipv6_colon: "parse_ipv6 s = Some n \<Longrightarrow> CHR '':'' \<in> set s"
  using split_on_no [of "CHR '':''" s] by (cases "CHR '':'' \<in> set s") (auto simp: parse_ipv6_def Let_def)

lemma suffix_field_host:
  assumes "0 < h" "h < 2 ^ 64"
  shows "field_value ''ipv6SuffixDest'' (JStr (ipv6_str h)) ''ipv6'' = ipv6_str h"
proof -
  have h: "h < 2 ^ 128" using assms(2) by simp
  have "CHR '':'' \<in> set (ipv6_str h)" using parse_ipv6_str [OF h] by (rule parse_ipv6_colon)
  moreover have "text_of (JStr (ipv6_str h)) = ipv6_str h" by (simp add: strip_unspaced unspaced_ipv6_str)
  moreover have "host_part (V6 h None) = ipv6_str h" using assms by (simp add: host_part_def)
  ultimately show ?thesis using IPv6Address_str [OF h] by (auto simp: field_value_def Let_def)
qed

lemma suffix_field_cases:
  assumes "f \<noteq> ''destIP''"
  obtains "field_value f v fam = []"
  | h where "0 < h" "h < 2 ^ 64" "field_value f v fam = ipv6_str h" "f = ''ipv6SuffixDest''" "fam = ''ipv6''"
proof (cases "f = ''ipv6SuffixDest'' \<and> fam = ''ipv6'' \<and> field_value f v fam \<noteq> []")
  case True
  then obtain a where "field_value f v fam = host_part a" by (auto simp: field_value_def Let_def split: if_splits option.splits)
  then show thesis using True host_part_cases [of a] that by auto
next
  case False
  then show thesis using assms that by (auto simp: field_value_def)
qed

lemma field_value_idem: "field_value f (JStr (field_value f v fam)) fam = field_value f v fam"
proof (cases "f = ''destIP''")
  case True
  then show ?thesis by (simp add: field_value_def fw_ip_facts)
next
  case False
  consider "field_value f v fam = []"
    | h where "0 < h" "h < 2 ^ 64" "field_value f v fam = ipv6_str h" "f = ''ipv6SuffixDest''" "fam = ''ipv6''"
    using suffix_field_cases [OF False, of v fam] by metis
  then show ?thesis
  proof cases
    case 1
    with False show ?thesis by (simp add: field_value_def)
  next
    case 2
    then show ?thesis using suffix_field_host by metis
  qed
qed

lemma unspaced_host_part: "unspaced (host_part a)"
  using host_part_cases [of a] unspaced_ipv6_str by (auto simp: unspaced_def)

lemma resolve_unspaced: "resolve cl b s = Inr (d, n) \<Longrightarrow> strip d = d"
  using fw_ip_facts(1) unspaced_host_part
  by (auto simp: resolve_def suffix_of_def Let_def err_simps intro!: strip_unspaced split: if_splits option.splits)

section \<open>One turn of the loop\<close>

text \<open>The conditions under which a write to the rule of a binding is wanted.\<close>

definition to_write :: "'r fw_client \<Rightarrow> (string \<Rightarrow> string) \<Rightarrow> json \<Rightarrow> row \<Rightarrow> row \<Rightarrow> string \<Rightarrow> 'r fw_state \<Rightarrow> bool" where
  "to_write cl digest current b rule desired s = (binding_active b \<and> find_rule current (binding_uuid b) = Some rule
     \<and> \<not> drifted digest b rule \<and> rule_compatible cl rule b s = Inr True
     \<and> (case resolve cl b s of Inl _ \<Rightarrow> False | Inr (d, _) \<Rightarrow> d = desired) \<and> desired \<noteq> []
     \<and> field_value (text_of (dget b ''matchField'')) (dget rule (text_of (dget b ''matchField''))) (text_of (dget b ''addressFamily'')) \<noteq> desired)"

lemma to_write_strip: "to_write cl digest current b rule d s \<Longrightarrow> strip d = d"
  using resolve_unspaced by (auto simp: to_write_def split: sum.splits)

text \<open>Nothing but candidates and the trace differs.\<close>

definition same_world :: "'r fw_state \<Rightarrow> 'r fw_state \<Rightarrow> bool" where
  "same_world s t = (fw_docs t = fw_docs s \<and> fw_router t = fw_router s)"

lemma same_world_refl [simp]: "same_world s s"
  by (simp add: same_world_def)

lemma same_world_trans: "same_world s t \<Longrightarrow> same_world t u \<Longrightarrow> same_world s u"
  by (simp add: same_world_def)

lemma clear_candidate_fields [simp]:
  "fw_docs (clear_candidate u s) = fw_docs s" "fw_router (clear_candidate u s) = fw_router s"
  "fw_trace (clear_candidate u s) = fw_trace s" "fw_candidates (clear_candidate u s) = dpop u (fw_candidates s)"
  by (simp_all add: clear_candidate_def)

lemma mapping_spec_cong: "same_world s t \<Longrightarrow> mapping_spec_of cl b t = mapping_spec_of cl b s"
  by (simp add: mapping_spec_of_def same_world_def)

lemma to_write_cong: "same_world s t \<Longrightarrow> to_write cl digest current b rule d t = to_write cl digest current b rule d s"
  by (simp add: to_write_def rule_compatible_def resolve_def mapping_spec_cong cong: option.case_cong)

lemma confirmed_world: "candidate_confirmed u d s = (r, t) \<Longrightarrow> same_world s t"
  by (auto simp: candidate_confirmed_def same_world_def split: prod.splits)

lemma confirmed_trace: "candidate_confirmed u d s = (r, t) \<Longrightarrow> fw_trace t = fw_trace s @ [Observed u d]"
  by (auto simp: candidate_confirmed_def split: prod.splits)

lemma confirmed_other: "candidate_confirmed u d s = (r, t) \<Longrightarrow> u' \<noteq> u \<Longrightarrow> map_of (fw_candidates t) u' = map_of (fw_candidates s) u'"
  by (auto simp: candidate_confirmed_def note_candidate_def Let_def split: option.splits if_splits)

lemma confirmed_True:
  "candidate_confirmed u d s = (Inr True, t) \<Longrightarrow> \<exists>v n. map_of (fw_candidates s) u = Some (v, n) \<and> strip v = d"
  by (auto simp: candidate_confirmed_def note_candidate_def Let_def split: option.splits if_splits prod.splits)

lemma confirmed_same:
  "candidate_confirmed u d s = (r, t) \<Longrightarrow> \<exists>v n. map_of (fw_candidates t) u = Some (v, n) \<and> strip v = strip d"
  by (auto simp: candidate_confirmed_def note_candidate_def Let_def split: option.splits if_splits prod.splits)

lemma confirmed_no_error: "candidate_confirmed u d s \<noteq> (Inl x, t)"
  by (auto simp: candidate_confirmed_def split: prod.splits)

text \<open>What one turn does: pass without effect on rules, suspend, take note of a candidate, or write.\<close>

definition actual_of :: "row \<Rightarrow> row \<Rightarrow> string" where
  "actual_of b rule = field_value (text_of (dget b ''matchField'')) (dget rule (text_of (dget b ''matchField''))) (text_of (dget b ''addressFamily''))"

lemma follow_address_cases:
  assumes "follow_address cl e digest b rule actual d s = (r, t)"
  obtains (passed) "r = Inr None" "t = s \<or> t = clear_candidate (binding_uuid b) s"
  | (noted) "r = Inr None" "d \<noteq> []" "actual \<noteq> d" "candidate_confirmed (binding_uuid b) d s = (Inr False, t)"
  | (wrote) s1 r1 where "d \<noteq> []" "actual \<noteq> d" "candidate_confirmed (binding_uuid b) d s = (Inr True, s1)"
        "apply_address cl e digest b rule actual d s1 = (r1, t)" "r = map_sum id Some r1"
proof (cases "d = [] \<or> actual = [] \<or> actual = d")
  case True
  with assms show thesis by (intro passed) (auto simp: follow_address_def ret_def split: if_splits)
next
  case False
  obtain c s1 where conf: "candidate_confirmed (binding_uuid b) d s = (Inr c, s1)"
    using confirmed_no_error [of "binding_uuid b" d s] by (metis obj_sumE surj_pair)
  obtain r1 t1 where ap: "apply_address cl e digest b rule actual d s1 = (r1, t1)" by fastforce
  have "(r, t) = (if c then (map_sum id Some r1, t1) else (Inr None, s1))"
    using assms False conf ap by (cases r1) (auto simp: follow_address_def sbind_def ret_def)
  with False conf ap show thesis by (cases c) (auto intro: noted wrote)
qed

lemma reconcile_one_follow:
  assumes "binding_active b" "find_rule current (binding_uuid b) = Some rule" "\<not> drifted digest b rule"
  shows "reconcile_one cl e digest current b s = (case rule_compatible cl rule b s of
      Inl x \<Rightarrow> (Inl x, s)
    | Inr False \<Rightarrow> (Inr None, s)
    | Inr True \<Rightarrow> (case resolve cl b s of Inl x \<Rightarrow> (Inl x, s) | Inr (d, _) \<Rightarrow> follow_address cl e digest b rule (actual_of b rule) d s))"
  using assms
  by (simp add: reconcile_one_def Let_def sbind_def gets_def pure_def ret_def actual_of_def split: sum.split bool.split prod.split)

lemma reconcile_one_cases:
  assumes "reconcile_one cl e digest current b s = (r, t)"
  obtains (passed) "r = Inr None" "t = s \<or> t = clear_candidate (binding_uuid b) s"
  | (raised) x where "r = Inl x" "t = s"
  | (suspended) rule where "r = Inr (Some (Suspended (binding_uuid b)))" "binding_active b" "find_rule current (binding_uuid b) = Some rule"
        "drifted digest b rule" "t = suspend e b (suspend_reason b) s"
  | (noted) rule d where "r = Inr None" "to_write cl digest current b rule d s" "candidate_confirmed (binding_uuid b) d s = (Inr False, t)"
  | (wrote) rule d s1 r1 where "to_write cl digest current b rule d s" "candidate_confirmed (binding_uuid b) d s = (Inr True, s1)"
        "apply_address cl e digest b rule (actual_of b rule) d s1 = (r1, t)" "r = map_sum id Some r1"
proof (cases "binding_active b \<and> find_rule current (binding_uuid b) \<noteq> None")
  case False
  with assms show thesis by (intro passed) (auto simp: reconcile_one_def ret_def Let_def split: if_splits)
next
  case True
  then obtain rule where rule: "binding_active b" "find_rule current (binding_uuid b) = Some rule" by auto
  show thesis
  proof (cases "drifted digest b rule")
    case True
    with assms rule show thesis by (intro suspended) (auto simp: reconcile_one_def ret_def Let_def)
  next
    case False
    note run = assms [unfolded reconcile_one_follow [OF rule False]]
    show thesis
    proof (cases "rule_compatible cl rule b s = Inr True \<and> \<not> isl (resolve cl b s)")
      case True
      then obtain d nm where d: "rule_compatible cl rule b s = Inr True" "resolve cl b s = Inr (d, nm)"
        by (metis isl_def obj_sumE surj_pair)
      then have "follow_address cl e digest b rule (actual_of b rule) d s = (r, t)" using run by simp
      then show thesis
        using passed noted wrote d rule False
        by (cases rule: follow_address_cases) (auto simp: to_write_def actual_of_def [symmetric])
    next
      case False
      with run show thesis by (auto split: sum.splits bool.splits intro: raised passed)
    qed
  qed
qed

text \<open>The three ways in which the write can fail, and its success.\<close>

lemma apply_address_cases:
  fixes s :: "'r fw_state" and cl :: "'r fw_client"
  assumes "apply_address cl e digest b rule actual d s = (r, t)"
  defines "f \<equiv> text_of (dget b ''matchField'')"
  defines "p \<equiv> JObj [(''list'', JList [JObj (update_payload rule f d)])]"
  obtains (failed) x cs where "r = Inl x" "fw_docs t = fw_docs s" "fw_candidates t = fw_candidates s"
        "fw_trace t = fw_trace s @ UpdateFirewall p # cs" "list_all (\<lambda>c. c = ReadFirewall) cs"
  | (applied) r1 data updated w r2 where "r = Inr (Changed (binding_uuid b) f actual d)"
        "cl_update cl p (fw_router s) = (Inr w, r1)" "cl_firewall cl r1 = (Inr data, r2)" "verify data b d = Inr ()"
        "updated = (case find_rule data (binding_uuid b) of None \<Rightarrow> update_payload rule f d | Some r \<Rightarrow> if r = [] then update_payload rule f d else r)"
        "fw_docs t = replace_binding e (applied_binding e digest b updated f d) (fw_docs s)"
        "fw_candidates t = dpop (binding_uuid b) (fw_candidates s)" "fw_router t = r2"
        "fw_trace t = fw_trace s @ [UpdateFirewall p, ReadFirewall]"
proof -
  obtain w r1 where w: "cl_update cl p (fw_router s) = (w, r1)" by fastforce
  obtain data r2 where rd: "cl_firewall cl r1 = (data, r2)" by fastforce
  note defs = apply_address_def write_and_verify_def update_firewall_def read_firewall_def call_router_def Let_def
    f_def [symmetric] p_def [symmetric]
  note run = assms(1) [unfolded defs]
  show thesis
  proof (cases w)
    case (Inl x)
    with run w show thesis by (intro failed [of x "[]"]) (auto simp: sbind_def)
  next
    case w': (Inr wv)
    show thesis
    proof (cases data)
      case (Inl x)
      with run w w' rd show thesis by (intro failed [of x "[ReadFirewall]"]) (auto simp: sbind_def)
    next
      case d': (Inr dv)
      show thesis
      proof (cases "verify dv b d")
        case (Inl x)
        with run w w' rd d' show thesis by (intro failed [of x "[ReadFirewall]"]) (auto simp: sbind_def pure_def)
      next
        case (Inr u)
        with run w w' rd d' show thesis
          by (intro applied [of wv r1 dv r2]) (auto simp: sbind_def pure_def modify_def ret_def)
      qed
    qed
  qed
qed

section \<open>Bindings\<close>

text \<open>Stored bindings are well-formed, one per rule, at most a hundred.\<close>

definition binding_wf :: "row \<Rightarrow> bool" where
  "binding_wf b = (text_of (dget b ''targetType'') = ''mapping'' \<and> binding_kind b \<in> {''relay'', ''native''}
     \<and> text_of (dget b ''mappingId'') \<noteq> [] \<and> text_of (dget b ''addressFamily'') \<in> {''ipv4'', ''ipv6''}
     \<and> field_fits (text_of (dget b ''matchField'')) (text_of (dget b ''addressFamily'')))"

definition bindings_ok :: "docs \<Rightarrow> bool" where
  "bindings_ok d = (distinct (map binding_uuid (bindings d)) \<and> length (bindings d) \<le> 100 \<and> list_all binding_wf (bindings d))"

lemma bindings_saved:
  "bindings (save_bindings e rows d) = filter (\<lambda>b. binding_uuid b \<noteq> []) (take 100 (sort_key binding_uuid rows))"
  by (simp add: bindings_def save_bindings_def)

lemma distinct_uuid_sort: "distinct (map binding_uuid rows) \<Longrightarrow> distinct (map binding_uuid (sort_key binding_uuid rows))"
  by (simp add: distinct_map)

lemma saved_ok:
  assumes "distinct (map binding_uuid rows)" "list_all binding_wf rows"
  shows "bindings_ok (save_bindings e rows d)"
proof -
  let ?t = "take 100 (sort_key binding_uuid rows)"
  have "distinct (map binding_uuid ?t)" using distinct_uuid_sort [OF assms(1)] by (simp add: take_map [symmetric])
  moreover have "length (filter P ?t) \<le> 100" for P using length_filter_le [of P ?t] by simp
  moreover have "list_all binding_wf ?t" using assms(2) by (auto simp: list_all_iff dest: in_set_takeD)
  ultimately show ?thesis by (auto simp: bindings_ok_def bindings_saved distinct_map_filter list_all_iff)
qed

lemma replaced_ok:
  assumes "bindings_ok d" "binding_wf b"
  shows "bindings_ok (save_bindings e (filter (\<lambda>x. binding_uuid x \<noteq> binding_uuid b) (bindings d) @ [b]) d)"
  using assms by (intro saved_ok) (auto simp: bindings_ok_def distinct_map_filter list_all_iff)

lemma filtered_ok: "bindings_ok d \<Longrightarrow> bindings_ok (save_bindings e (filter P (bindings d)) d)"
  by (intro saved_ok) (auto simp: bindings_ok_def distinct_map_filter list_all_iff)

lemma binding_update [simp]:
  "dget (dmerge b [(k1, v1), (k2, v2), (k3, v3)]) k = (if k = k3 then v3 else if k = k2 then v2 else if k = k1 then v1 else dget b k)"
  by simp

lemma suspend_docs_ok:
  assumes "bindings_ok (fw_docs s)" "b \<in> set (bindings (fw_docs s))"
  shows "bindings_ok (fw_docs (suspend e b reason s))"
proof -
  have "binding_wf b" using assms by (auto simp: bindings_ok_def list_all_iff)
  then have "binding_wf (dmerge b [(''suspended'', JBool True), (''suspendedReason'', JStr reason), (''suspendedAt'', JInt (env_now e))])"
    by (simp add: binding_wf_def binding_kind_def del: dmerge_Cons)
  then show ?thesis using assms(1) replaced_ok by (simp add: suspend_def replace_binding_def)
qed

lemma applied_wf: "binding_wf b \<Longrightarrow> binding_wf (applied_binding e digest b updated f d)"
  by (simp add: binding_wf_def binding_kind_def applied_binding_def)

section \<open>Two observations\<close>

text \<open>
  On the reversed trace: the address wanted last for a rule and whether a reconciliation began since; and that every write
  follows an observation of what it writes which repeats that of an earlier reconciliation.
\<close>

fun seen_rev :: "string \<Rightarrow> fw_call list \<Rightarrow> string option \<times> bool" where
  "seen_rev u [] = (None, False)"
| "seen_rev u (Observed w v # r) = (if w = u then (Some v, False) else seen_rev u r)"
| "seen_rev u (Began # r) = (fst (seen_rev u r), True)"
| "seen_rev u (c # r) = seen_rev u r"

definition writes :: "json \<Rightarrow> string \<Rightarrow> string \<Rightarrow> bool" where
  "writes p u d = (case elems (dget (items p) ''list'') of
     [r] \<Rightarrow> text_of (dget (items r) ''uuid'') = u \<and> (dget (items r) ''destIP'' = JStr d \<or> dget (items r) ''ipv6SuffixDest'' = JStr d)
   | _ \<Rightarrow> False)"

fun gated_rev :: "fw_call list \<Rightarrow> bool" where
  "gated_rev [] = True"
| "gated_rev (UpdateFirewall p # r) = (gated_rev r \<and>
     (case r of Observed u d # r' \<Rightarrow> writes p u d \<and> seen_rev u r' = (Some d, True) | _ \<Rightarrow> False))"
| "gated_rev (c # r) = gated_rev r"

definition gate_inv :: "'r fw_state \<Rightarrow> bool" where
  "gate_inv s = (bindings_ok (fw_docs s) \<and> gated_rev (rev (fw_trace s))
     \<and> (\<forall>u v n. map_of (fw_candidates s) u = Some (v, n) \<longrightarrow> strip v = v \<and> fst (seen_rev u (rev (fw_trace s))) = Some v))"

definition fresh_for :: "row list \<Rightarrow> 'r fw_state \<Rightarrow> bool" where
  "fresh_for bs s = list_all (\<lambda>b. snd (seen_rev (binding_uuid b) (rev (fw_trace s)))) bs"

lemma gate_candidate:
  "gate_inv s \<Longrightarrow> map_of (fw_candidates s) u = Some (v, n) \<Longrightarrow> strip v = v \<and> fst (seen_rev u (rev (fw_trace s))) = Some v"
  unfolding gate_inv_def by blast

lemma gate_clear: "gate_inv s \<Longrightarrow> gate_inv (clear_candidate u s)"
  by (simp add: gate_inv_def)

lemma gate_observed:
  assumes "gate_inv s" "strip d = d" "candidate_confirmed u d s = (r, t)"
  shows "gate_inv t"
proof -
  have tr: "fw_trace t = fw_trace s @ [Observed u d]" "fw_docs t = fw_docs s"
    using confirmed_trace [OF assms(3)] confirmed_world [OF assms(3)] by (auto simp: same_world_def)
  have "strip v = v \<and> fst (seen_rev w (rev (fw_trace t))) = Some v" if c: "map_of (fw_candidates t) w = Some (v, n)" for w v n
  proof (cases "w = u")
    case True
    have old: "strip v' = v'" if "map_of (fw_candidates s) u = Some (v', n')" for v' n'
      using gate_candidate [OF assms(1) that] by simp
    from True have "v = d"
      using c assms(3) old by (auto simp: candidate_confirmed_def note_candidate_def Let_def split: option.splits if_splits)
    with True assms(2) tr show ?thesis by simp
  next
    case False
    then show ?thesis using c tr confirmed_other [OF assms(3) False] gate_candidate [OF assms(1), of w v n] by simp
  qed
  then show ?thesis using assms(1) tr by (simp add: gate_inv_def)
qed

lemma gate_read: "gate_inv s \<Longrightarrow> c = ReadFirewall \<or> c = ReadNative \<Longrightarrow> gate_inv (s\<lparr>fw_router := r, fw_trace := fw_trace s @ [c]\<rparr>)"
  by (auto simp: gate_inv_def)

lemma payload_writes:
  assumes "find_rule current u = Some rule" "field_fits f fam"
  shows "writes (JObj [(''list'', JList [JObj (update_payload rule f d)])]) u d"
proof -
  have "text_of (dget rule ''uuid'') = u" using assms(1) by (auto simp: find_rule_def dest: find_SomeD)
  then show ?thesis using assms(2) by (auto simp: writes_def update_payload_def field_fits_def)
qed

lemma to_writeD:
  assumes "to_write cl digest current b rule d s"
  shows "find_rule current (binding_uuid b) = Some rule" "field_fits (text_of (dget b ''matchField'')) (text_of (dget b ''addressFamily''))"
  using assms by (auto simp: to_write_def rule_compatible_def Let_def split: if_splits option.splits)


lemma reads_pass:
  "list_all (\<lambda>c. c = ReadFirewall) cs \<Longrightarrow> seen_rev u (rev cs @ r) = seen_rev u r \<and> gated_rev (rev cs @ r) = gated_rev r"
  by (induction cs rule: rev_induct) auto

lemma gate_wrote:
  assumes inv: "gate_inv s" and fresh: "snd (seen_rev (binding_uuid b) (rev (fw_trace s)))"
    and b: "b \<in> set (bindings (fw_docs s))" and w: "to_write cl digest current b rule d s"
    and c: "candidate_confirmed (binding_uuid b) d s = (Inr True, s1)"
    and ap: "apply_address cl e digest b rule actual d s1 = (r1, t)"
  shows "gate_inv t"
proof -
  let ?f = "text_of (dget b ''matchField'')" and ?u = "binding_uuid b"
  let ?p = "JObj [(''list'', JList [JObj (update_payload rule ?f d)])]"
  have s1: "gate_inv s1" "fw_trace s1 = fw_trace s @ [Observed ?u d]" "fw_docs s1 = fw_docs s"
    using gate_observed [OF inv to_write_strip [OF w] c] confirmed_trace [OF c] confirmed_world [OF c] by (auto simp: same_world_def)
  obtain v n where "map_of (fw_candidates s) ?u = Some (v, n)" "strip v = d" using confirmed_True [OF c] by auto
  then have "seen_rev ?u (rev (fw_trace s)) = (Some d, True)" using gate_candidate [OF inv, of ?u v n] fresh by (simp add: prod_eq_iff)
  then have gate: "gated_rev (UpdateFirewall ?p # rev (fw_trace s1))"
    using s1 payload_writes [OF to_writeD [OF w]] by (simp add: gate_inv_def)
  have seen: "seen_rev u (rev (fw_trace t)) = seen_rev u (rev (fw_trace s1))" and g: "gated_rev (rev (fw_trace t))"
    if "fw_trace t = fw_trace s1 @ UpdateFirewall ?p # cs" "list_all (\<lambda>c. c = ReadFirewall) cs" for u cs
    using gate that reads_pass [OF that(2)] by simp_all
  from ap show ?thesis
  proof (cases rule: apply_address_cases)
    case (failed x cs)
    then show ?thesis using seen [of cs] g [of cs] s1(1) by (simp add: gate_inv_def)
  next
    case (applied r1 data updated w' r2)
    have "binding_wf b" using inv b by (auto simp: gate_inv_def bindings_ok_def list_all_iff)
    then have "bindings_ok (fw_docs t)"
      using applied(6) s1(1) replaced_ok [OF _ applied_wf] by (simp add: replace_binding_def gate_inv_def)
    then show ?thesis using seen [of "[ReadFirewall]"] g [of "[ReadFirewall]"] applied s1(1) by (auto simp: gate_inv_def)
  qed
qed

lemma gate_one:
  assumes "gate_inv s" "fresh_for (b # bs) s" "distinct (map binding_uuid (b # bs))" "b \<in> set (bindings (fw_docs s))"
    and "reconcile_one cl e digest current b s = (r, t)"
  shows "gate_inv t" and "r = Inr None \<Longrightarrow> fresh_for bs t \<and> fw_docs t = fw_docs s"
proof -
  have "gate_inv t \<and> (r = Inr None \<longrightarrow> fresh_for bs t \<and> fw_docs t = fw_docs s)"
    using assms(5)
  proof (cases rule: reconcile_one_cases)
    case passed
    then show ?thesis using assms(1,2) gate_clear by (auto simp: fresh_for_def)
  next
    case (suspended rule)
    have "gate_inv (clear_candidate u s')" if "bindings_ok (fw_docs s')" "fw_trace s' = fw_trace s" "fw_candidates s' = fw_candidates s" for s' u
      using that assms(1) by (simp add: gate_inv_def)
    then show ?thesis using suspended suspend_docs_ok [of s b] assms(1,4) by (auto simp: suspend_def gate_inv_def)
  next
    case (noted rule d)
    have "binding_uuid b \<noteq> binding_uuid b'" if "b' \<in> set bs" for b'
      using that assms(3) by (metis distinct.simps(2) image_eqI list.set_map list.simps(9))
    then have "fresh_for bs t" using assms(2) confirmed_trace [OF noted(3)] by (simp add: fresh_for_def list_all_iff)
    then show ?thesis
      using gate_observed [OF assms(1) to_write_strip noted(3)] noted(2) confirmed_world [OF noted(3)] by (auto simp: same_world_def)
  next
    case (wrote rule d s1 r1)
    then show ?thesis using gate_wrote [OF assms(1) _ assms(4) wrote(1-3)] assms(2) by (cases r1) (auto simp: fresh_for_def)
  qed (use assms in auto)
  then show "gate_inv t" "r = Inr None \<Longrightarrow> fresh_for bs t \<and> fw_docs t = fw_docs s" by auto
qed

lemma gate_loop:
  "gate_inv s \<Longrightarrow> fresh_for bs s \<Longrightarrow> distinct (map binding_uuid bs) \<Longrightarrow> set bs \<subseteq> set (bindings (fw_docs s)) \<Longrightarrow>
     gate_inv (snd (reconcile_loop cl e digest current bs s))"
proof (induction bs arbitrary: s)
  case (Cons b bs)
  obtain r t where one: "reconcile_one cl e digest current b s = (r, t)" by fastforce
  note g = gate_one [OF Cons.prems(1-3) _ one]
  have b: "b \<in> set (bindings (fw_docs s))" using Cons.prems by simp
  show ?case
  proof (cases "r = Inr None")
    case True
    then show ?thesis using Cons.IH [of t] g(1) [OF b] g(2) [OF b] Cons.prems one by (auto simp: sbind_def)
  next
    case False
    then show ?thesis using g(1) [OF b] one by (auto simp: sbind_def ret_def split: sum.split option.split)
  qed
qed (simp add: ret_def)

lemma began_fresh: "fresh_for bs (s\<lparr>fw_trace := fw_trace s @ [Began]\<rparr>)"
  by (simp add: fresh_for_def list_all_iff)

definition keeps_gate :: "('r fw_state, fw_error, 'a) op \<Rightarrow> bool" where
  "keeps_gate m = steps_by (\<lambda>s t. gate_inv s \<longrightarrow> gate_inv t) m"

lemma keeps_gateI: "(\<And>s. gate_inv s \<Longrightarrow> gate_inv (snd (m s))) \<Longrightarrow> keeps_gate m"
  by (simp add: keeps_gate_def steps_by_def)

lemma keeps_gate_bind [op_keeps]: "keeps_gate m \<Longrightarrow> (\<And>a. keeps_gate (f a)) \<Longrightarrow> keeps_gate (sbind m f)"
  unfolding keeps_gate_def by (rule steps_by_bind) (auto simp: transp_def)

lemma keeps_gate_basic [op_keeps]:
  "keeps_gate (ret a)" "keeps_gate (fail x)" "keeps_gate (gets g)" "keeps_gate (pure p)" "keeps_gate (guard c x)"
  unfolding keeps_gate_def by (rule steps_by_pure, simp add: reflp_def)+

lemma keeps_gate_read [op_keeps]: "keeps_gate (read_firewall cl)" "keeps_gate (read_native cl)"
  by (auto intro!: keeps_gateI gate_read simp: read_firewall_def read_native_def call_router_def split: prod.split)

lemma keeps_gate_reconcile [op_keeps]: "keeps_gate (reconcile cl e digest locked firewall uuid)"
proof (rule keeps_gateI)
  fix s :: "'a fw_state"
  assume s: "gate_inv s"
  let ?s = "s\<lparr>fw_trace := fw_trace s @ [Began]\<rparr>"
  have s': "gate_inv ?s" using s by (simp add: gate_inv_def)
  obtain r t where o: "observe_firewall cl firewall ?s = (r, t)" by fastforce
  have t: "gate_inv t" "fresh_for bs t" for bs
  proof -
    have "t = ?s \<or> (\<exists>x. t = ?s\<lparr>fw_router := x, fw_trace := fw_trace ?s @ [ReadFirewall]\<rparr>)"
      using o by (auto simp: observe_firewall_def read_firewall_def call_router_def ret_def split: if_splits prod.splits)
    then show "gate_inv t" "fresh_for bs t" using s' gate_read [OF s'] by (auto simp: fresh_for_def list_all_iff)
  qed
  have "distinct (map binding_uuid (filter P (bindings (fw_docs t))))" for P
    using t(1) by (simp add: gate_inv_def bindings_ok_def distinct_map_filter)
  then have "gate_inv (snd (reconcile_loop cl e digest current (filter P (bindings (fw_docs t))) t))" for P current
    using t by (intro gate_loop) auto
  from this [of _ "\<lambda>b. binding_uuid b = uuid"] this [of _ "\<lambda>_. True"] show "gate_inv (snd (reconcile cl e digest locked firewall uuid s))"
    using o s t(1) by (cases r) (auto simp: reconcile_def ret_def sbind_def gets_def modify_def)
qed

section \<open>Histories\<close>

lemma keeps_gate_normalize [op_keeps]: "keeps_gate (normalize_binding cl e digest uuid body rule)"
proof -
  have k: "keeps_gate (sbind (read_native cl) (\<lambda>data. ret (native_spec data m)))" for m by (intro op_keeps)
  have "keeps_gate (fresh_mapping_spec cl b)" for b
    using k [of "text_of (dget b ''mappingId'')"] by (auto simp: fresh_mapping_spec_def keeps_gate_def steps_by_def)
  then show ?thesis unfolding normalize_binding_def Let_def by (intro op_keeps) (auto split: option.split intro!: op_keeps)
qed

lemma strip_names [simp]:
  "strip ''mapping'' = ''mapping''" "strip ''ipv4'' = ''ipv4''" "strip ''ipv6'' = ''ipv6''" "strip ''destIP'' = ''destIP''"
  "strip ''ipv6SuffixDest'' = ''ipv6SuffixDest''" "lower (strip ''relay'') = ''relay''" "lower (strip ''native'') = ''native''"
  by code_simp+

lemma new_binding_fields:
  "text_of (dget (new_binding e digest uuid body rule) ''targetType'') = ''mapping''"
  "text_of (dget (new_binding e digest uuid body rule) ''mappingId'') = text_of (dget body ''mappingId'')"
  "text_of (dget (new_binding e digest uuid body rule) ''addressFamily'') = strip (binding_family body rule)"
  "text_of (dget (new_binding e digest uuid body rule) ''matchField'') = strip (binding_field body rule)"
  "binding_uuid (new_binding e digest uuid body rule) = strip uuid"
  "binding_kind (new_binding e digest uuid body rule) = lower (text_of (por (JStr (binding_kind body)) (JStr ''relay'')))"
  by (simp_all add: new_binding_def binding_uuid_def binding_kind_def [of "_ # _"] Let_def)

lemma normalized_wf:
  assumes "normalize_binding cl e digest uuid body rule s = (Inr b, t)"
  shows "binding_wf b" "b = new_binding e digest uuid body rule"
proof -
  show eq: "b = new_binding e digest uuid body rule"
    using assms by (auto simp: normalize_binding_def Let_def op_simps split: option.splits)
  have body: "binding_kind body = ''relay'' \<or> binding_kind body = ''native''" "text_of (dget body ''mappingId'') \<noteq> []"
      "binding_family body rule = ''ipv4'' \<or> binding_family body rule = ''ipv6''" "field_fits (binding_field body rule) (binding_family body rule)"
    using assms unfolding normalize_binding_def Let_def sbind_Inr guard_eq by blast+
  have kind: "lower (text_of (por (JStr (binding_kind body)) (JStr ''relay''))) = binding_kind body"
    using body(1) by (auto simp: por_def)
  have "binding_field body rule = ''destIP'' \<or> binding_field body rule = ''ipv6SuffixDest''" using body(4) by (simp add: field_fits_def)
  then have names: "strip (binding_field body rule) = binding_field body rule" "strip (binding_family body rule) = binding_family body rule"
    using body(3) strip_names by metis+
  show "binding_wf b"
    unfolding eq binding_wf_def new_binding_fields kind names using body by simp
qed

lemma keeps_gate_describe [op_keeps]: "keeps_gate (describe cl digest fw)" "keeps_gate (describe_one cl digest uuid fw)"
  unfolding describe_one_def describe_def by (intro op_keeps; simp add: op_keeps)+

lemma keeps_gateD: "keeps_gate m \<Longrightarrow> gate_inv s \<Longrightarrow> gate_inv (snd (m s))"
  by (simp add: keeps_gate_def steps_by_def)

lemma keeps_gate_upsert [op_keeps]:
  fixes cl :: "'r fw_client"
  shows "keeps_gate (upsert cl e digest uuid body)"
proof -
  let ?u = "strip uuid"
  let ?save = "\<lambda>b. modify (\<lambda>s. s\<lparr>fw_docs := save_bindings e (filter (\<lambda>x. binding_uuid x \<noteq> ?u) (bindings (fw_docs s)) @ [b]) (fw_docs s)\<rparr>)"
  have saved: "gate_inv (snd (?save b s))" if "gate_inv s" "binding_wf b" "binding_uuid b = ?u" for b s
    using that replaced_ok [of "fw_docs s" b e] by (simp add: gate_inv_def modify_def)
  have "keeps_gate (sbind (normalize_binding cl e digest ?u body rule) (\<lambda>b. sbind (?save b) (\<lambda>_.
      sbind (reconcile cl e digest False firewall ?u) (\<lambda>_. sbind (read_firewall cl) (\<lambda>fw2. describe_one cl digest ?u fw2)))))"
    (is "keeps_gate (sbind ?n (\<lambda>b. sbind (?save b) (\<lambda>_. ?rest)))") for rule firewall
  proof (rule keeps_gateI)
    fix s :: "'r fw_state"
    assume s: "gate_inv s"
    have rest: "keeps_gate ?rest" by (intro op_keeps)
    show "gate_inv (snd (sbind ?n (\<lambda>b. sbind (?save b) (\<lambda>_. ?rest)) s))"
    proof (cases rule: sbind_cases [of ?n s "\<lambda>b. sbind (?save b) (\<lambda>_. ?rest)"])
      case (raised x t)
      then show ?thesis using s keeps_gate_normalize by (metis keeps_gate_def snd_conv steps_byD)
    next
      case (returned b t)
      note b = normalized_wf [OF returned(1)]
      have "gate_inv t" using s keeps_gate_normalize returned(1) by (metis keeps_gate_def steps_byD)
      moreover have "binding_uuid b = ?u" using b(2) by (simp add: new_binding_fields)
      ultimately have "gate_inv (snd (?save b t))" using b(1) by (intro saved)
      then show ?thesis using returned(2) rest by (simp add: sbind_def modify_def keeps_gate_def steps_by_def)
    qed
  qed
  then show ?thesis unfolding upsert_def Let_def by (intro op_keeps) (auto split: option.split intro!: op_keeps)
qed

lemma keeps_gate_delete [op_keeps]: "keeps_gate (delete_binding e uuid)"
  using filtered_ok by (auto intro!: keeps_gateI gate_clear simp: delete_binding_def Let_def) (simp add: gate_inv_def)

lemma keeps_gate_sync [op_keeps]: "keeps_gate (sync_binding cl e digest uuid)"
  unfolding sync_binding_def by (intro op_keeps) (auto intro!: op_keeps)

text \<open>What can happen to the service: requests, cycles of the configuration cache, restarts, and changes of the router
  and of the other documents by others.\<close>

datatype 'r fw_event = Adopt env string row | Release env string | SyncNow env string
  | Cycle env bool json | Restart | Outside docs 'r

fun fw_exec :: "'r fw_client \<Rightarrow> (string \<Rightarrow> string) \<Rightarrow> 'r fw_event \<Rightarrow> 'r fw_state \<Rightarrow> 'r fw_state" where
  "fw_exec cl digest (Adopt e uuid body) s = snd (upsert cl e digest uuid body s)"
| "fw_exec cl digest (Release e uuid) s = snd (delete_binding e uuid s)"
| "fw_exec cl digest (SyncNow e uuid) s = snd (sync_binding cl e digest uuid s)"
| "fw_exec cl digest (Cycle e locked firewall) s = snd (reconcile cl e digest locked firewall [] s)"
| "fw_exec cl digest Restart s = s\<lparr>fw_candidates := []\<rparr>"
| "fw_exec cl digest (Outside d r) s =
     s\<lparr>fw_docs := d(''firewall_automation.json'' := fw_docs s ''firewall_automation.json''), fw_router := r\<rparr>"

definition fw_start :: "docs \<Rightarrow> 'r \<Rightarrow> 'r fw_state" where
  "fw_start d r = \<lparr>fw_docs = d(''firewall_automation.json'' := None), fw_candidates = [], fw_router = r, fw_trace = []\<rparr>"

definition fw_run :: "'r fw_client \<Rightarrow> (string \<Rightarrow> string) \<Rightarrow> 'r fw_event list \<Rightarrow> 'r fw_state \<Rightarrow> 'r fw_state" where
  "fw_run cl digest evs s = fold (fw_exec cl digest) evs s"

lemma bindings_cong: "d ''firewall_automation.json'' = d' ''firewall_automation.json'' \<Longrightarrow> bindings d = bindings d'"
  by (simp add: bindings_def load_json_def)

lemma gate_exec: "gate_inv s \<Longrightarrow> gate_inv (fw_exec cl digest ev s)"
proof (cases ev)
  case (Outside d r)
  assume "gate_inv s"
  moreover have "bindings (d(''firewall_automation.json'' := fw_docs s ''firewall_automation.json'')) = bindings (fw_docs s)"
    by (rule bindings_cong) simp
  ultimately show ?thesis using Outside by (simp add: gate_inv_def bindings_ok_def)
next
  case Restart
  assume "gate_inv s"
  then show ?thesis using Restart by (simp add: gate_inv_def)
qed (auto intro!: keeps_gateD op_keeps)

lemma gate_start: "gate_inv (fw_start d r)"
  by (simp add: gate_inv_def fw_start_def bindings_ok_def bindings_def load_json_def dict_rows_def)

lemma fw_gate_run: "gate_inv (fw_run cl digest evs (fw_start d r))"
  unfolding fw_run_def by (rule fold_invariant [where P = gate_inv and Q = "\<lambda>_. True"]) (auto intro: gate_exec gate_start)

text \<open>C10: Every write to the router's firewall comes directly after an observation of the address that it
  writes to that rule, and the observation before this one of the same rule saw the same address and belongs to an
  earlier reconciliation, whatever requests, cycles, restarts and outside changes happened.\<close>

theorem firewall_write_gated: "gated_rev (rev (fw_trace (fw_run cl digest evs (fw_start d r))))"
  using fw_gate_run [of cl digest evs d r] by (simp add: gate_inv_def)

text \<open>At all times the stored bindings are well-formed (a mapping of a known kind, one address family, a field that
  fits it), there is at most one for each firewall rule and at most a hundred of them.\<close>

theorem firewall_bindings_ok: "bindings_ok (fw_docs (fw_run cl digest evs (fw_start d r)))"
  using fw_gate_run [of cl digest evs d r] by (simp add: gate_inv_def)

section \<open>One reconciliation\<close>

definition is_update :: "fw_call \<Rightarrow> bool" where
  "is_update c = (case c of UpdateFirewall _ \<Rightarrow> True | _ \<Rightarrow> False)"

text \<open>The payload is the rule as it was read, without its counters and with the one field replaced by the wanted
  address, for an active binding whose rule nobody else has changed.\<close>

definition safe_call :: "'r fw_client \<Rightarrow> (string \<Rightarrow> string) \<Rightarrow> json \<Rightarrow> 'r fw_state \<Rightarrow> fw_call \<Rightarrow> bool" where
  "safe_call cl digest current s c = (case c of
     UpdateFirewall p \<Rightarrow> list_ex (\<lambda>b. case find_rule current (binding_uuid b) of
         None \<Rightarrow> False
       | Some rule \<Rightarrow> binding_active b \<and> \<not> drifted digest b rule \<and> rule_shape rule
           \<and> (case resolve cl b s of Inl _ \<Rightarrow> False | Inr (d, _) \<Rightarrow> d \<noteq> []
                \<and> p = JObj [(''list'', JList [JObj (dset (text_of (dget b ''matchField'')) (JStr d) (dpop ''stats'' rule))])]))
       (bindings (fw_docs s))
   | _ \<Rightarrow> True)"

definition safe_trace :: "'r fw_client \<Rightarrow> (string \<Rightarrow> string) \<Rightarrow> json \<Rightarrow> 'r fw_state \<Rightarrow> fw_call list \<Rightarrow> bool" where
  "safe_trace cl digest current s cs = (length (filter is_update cs) \<le> 1 \<and> list_all (safe_call cl digest current s) cs)"

lemma safe_quiet: "list_all (\<lambda>c. \<not> is_update c) cs \<Longrightarrow> safe_trace cl digest current s (cs @ ds) = safe_trace cl digest current s ds"
  by (induction cs) (auto simp: safe_trace_def safe_call_def is_update_def split: fw_call.splits)

lemma safe_trace_Nil: "safe_trace cl digest current s []"
  by (simp add: safe_trace_def)

text \<open>A pass changes candidates only; the turn that ends the loop is one \<open>reconcile_one\<close>.\<close>

lemma one_passes:
  assumes "reconcile_one cl e digest current b s = (Inr None, t)"
  shows "same_world s t \<and> (\<exists>cs. fw_trace t = fw_trace s @ cs \<and> list_all (\<lambda>c. \<not> is_update c) cs)"
  using assms
proof (cases rule: reconcile_one_cases)
  case (noted rule d)
  have "list_all (\<lambda>c. \<not> is_update c) [Observed (binding_uuid b) d]" by (simp add: is_update_def)
  then show ?thesis using confirmed_world [OF noted(3)] confirmed_trace [OF noted(3)] by blast
next
  case (wrote rule d s1 r1)
  then show ?thesis by (cases r1) auto
qed (auto simp: same_world_def intro: exI [of _ "[]"])

lemma loop_cases:
  assumes "reconcile_loop cl e digest current bs s = (r, t)"
  obtains (through) cs where "r = Inr Unchanged" "same_world s t" "fw_trace t = fw_trace s @ cs" "list_all (\<lambda>c. \<not> is_update c) cs"
  | (ended) b s1 r1 cs where "b \<in> set bs" "same_world s s1" "fw_trace s1 = fw_trace s @ cs" "list_all (\<lambda>c. \<not> is_update c) cs"
      "reconcile_one cl e digest current b s1 = (r1, t)" "r1 \<noteq> Inr None" "r = (case r1 of Inl x \<Rightarrow> Inl x | Inr out \<Rightarrow> Inr (the out))"
  using assms
proof (induction bs arbitrary: s thesis)
  case Nil
  then show thesis by (auto simp: ret_def)
next
  case (Cons b bs)
  obtain r1 s1 where one: "reconcile_one cl e digest current b s = (r1, s1)" by fastforce
  show thesis
  proof (cases "r1 = Inr None")
    case True
    then obtain cs where p: "same_world s s1" "fw_trace s1 = fw_trace s @ cs" "list_all (\<lambda>c. \<not> is_update c) cs"
      using one_passes one by blast
    have "reconcile_loop cl e digest current bs s1 = (r, t)" using Cons.prems(3) one True by (simp add: sbind_def)
    then show thesis
    proof (rule Cons.IH [rotated 2])
      fix cs'
      assume "r = Inr Unchanged" "same_world s1 t" "fw_trace t = fw_trace s1 @ cs'" "list_all (\<lambda>c. \<not> is_update c) cs'"
      then show thesis using p same_world_trans by (intro Cons.prems(1) [of "cs @ cs'"]) auto
    next
      fix b' s1' r1' cs'
      assume "b' \<in> set bs" "same_world s1 s1'" "fw_trace s1' = fw_trace s1 @ cs'" "list_all (\<lambda>c. \<not> is_update c) cs'"
        "reconcile_one cl e digest current b' s1' = (r1', t)" "r1' \<noteq> Inr None" "r = (case r1' of Inl x \<Rightarrow> Inl x | Inr out \<Rightarrow> Inr (the out))"
      then show thesis using p same_world_trans by (intro Cons.prems(2) [of b' s1' "cs @ cs'" r1']) auto
    qed
  next
    case False
    then have "r = (case r1 of Inl x \<Rightarrow> Inl x | Inr out \<Rightarrow> Inr (the out))" "t = s1"
      using Cons.prems(3) one by (auto simp: sbind_def ret_def split: sum.splits option.splits)
    with False one show thesis by (intro Cons.prems(2) [of b s "[]" r1]) auto
  qed
qed

lemma one_safe:
  assumes "reconcile_one cl e digest current b s = (r, t)" "b \<in> set (bindings (fw_docs s))"
  shows "\<exists>cs. fw_trace t = fw_trace s @ cs \<and> safe_trace cl digest current s cs"
  using assms(1)
proof (cases rule: reconcile_one_cases)
  case (wrote rule d s1 r1)
  let ?p = "JObj [(''list'', JList [JObj (update_payload rule (text_of (dget b ''matchField'')) d)])]"
  have "rule_shape rule" using wrote(1) by (auto simp: to_write_def rule_compatible_def Let_def split: if_splits option.splits)
  then have s: "safe_call cl digest current s (UpdateFirewall ?p)"
    using wrote(1) assms(2) unfolding safe_call_def fw_call.case list_ex_iff
    by (intro bexI [of _ b]) (auto simp: to_write_def update_payload_def split: sum.splits)
  have safe: "safe_trace cl digest current s (Observed (binding_uuid b) d # UpdateFirewall ?p # cs)"
    if "list_all (\<lambda>c. c = ReadFirewall) cs" for cs
  proof -
    have "list_all (safe_call cl digest current s) cs" "filter is_update cs = []"
      using that by (auto simp: list_all_iff safe_call_def is_update_def filter_empty_conv)
    then show ?thesis using s by (simp add: safe_trace_def) (simp add: safe_call_def is_update_def)
  qed
  from wrote(3) show ?thesis
  proof (cases rule: apply_address_cases)
    case (failed x cs)
    then show ?thesis using safe [of cs] confirmed_trace [OF wrote(2)] by auto
  next
    case (applied r1' data updated w r2)
    then show ?thesis using safe [of "[ReadFirewall]"] confirmed_trace [OF wrote(2)] by auto
  qed
next
  case passed
  then show ?thesis using safe_trace_Nil by auto
next
  case raised
  then show ?thesis using safe_trace_Nil by auto
next
  case (suspended rule)
  then have "fw_trace t = fw_trace s" by (simp add: suspend_def)
  then show ?thesis using safe_trace_Nil by auto
next
  case (noted rule d)
  have "safe_trace cl digest current s [Observed (binding_uuid b) d]" by (simp add: safe_trace_def safe_call_def is_update_def)
  then show ?thesis using confirmed_trace [OF noted(3)] by auto
qed

lemma resolve_world: "same_world s t \<Longrightarrow> resolve cl b t = resolve cl b s"
  by (simp add: resolve_def mapping_spec_cong)

lemma safe_trace_world:
  assumes "same_world s t"
  shows "safe_trace cl digest current t = safe_trace cl digest current s"
proof -
  have "fw_docs t = fw_docs s" using assms by (simp add: same_world_def)
  then have "safe_call cl digest current t = safe_call cl digest current s"
    by (rule_tac ext) (simp add: safe_call_def resolve_world [OF assms] cong: fw_call.case_cong option.case_cong)
  then show ?thesis by (rule_tac ext) (simp add: safe_trace_def)
qed

lemma loop_safe:
  assumes "reconcile_loop cl e digest current bs s = (r, t)" "set bs \<subseteq> set (bindings (fw_docs s))"
  shows "\<exists>cs. fw_trace t = fw_trace s @ cs \<and> safe_trace cl digest current s cs"
  using assms(1)
proof (cases rule: loop_cases)
  case (through cs)
  then show ?thesis using safe_quiet [of cs] safe_trace_Nil by (metis append_Nil2)
next
  case (ended b s1 r1 cs)
  have "b \<in> set (bindings (fw_docs s1))" using ended(1,2) assms(2) by (auto simp: same_world_def)
  then obtain ds where "fw_trace t = fw_trace s1 @ ds" "safe_trace cl digest current s ds"
    using one_safe [OF ended(5)] safe_trace_world [OF ended(2)] by metis
  then show ?thesis using ended(3,4) safe_quiet by (metis append_assoc)
qed

text \<open>C11: One reconciliation writes to the router at most once. What it writes is a rule that the router has, as it was
  read, without its counters and with the one controlled field replaced by the address of the mapping; the binding is
  enabled and not suspended, and both the controlled field and all others are as the hub left them.\<close>

theorem firewall_write_minimal:
  "(case reconcile cl e digest locked (JObj fw) uuid s of (r, t) \<Rightarrow>
      take (length (fw_trace s)) (fw_trace t) = fw_trace s \<and> safe_trace cl digest (JObj fw) s (drop (length (fw_trace s)) (fw_trace t)))"
proof -
  let ?s = "s\<lparr>fw_trace := fw_trace s @ [Began]\<rparr>"
  let ?bs = "if uuid = [] then bindings (fw_docs s) else filter (\<lambda>b. binding_uuid b = uuid) (bindings (fw_docs s))"
  obtain r t where rt: "reconcile_loop cl e digest (JObj fw) ?bs ?s = (r, t)" by fastforce
  obtain cs where cs: "fw_trace t = fw_trace ?s @ cs" "safe_trace cl digest (JObj fw) ?s cs"
    using loop_safe [OF rt] by (cases "uuid = []") auto
  have "same_world s ?s" by (simp add: same_world_def)
  then have "safe_trace cl digest (JObj fw) s cs" using cs(2) safe_trace_world by metis
  then have "safe_trace cl digest (JObj fw) s (Began # cs)" using safe_quiet [of "[Began]" cl digest "JObj fw" s cs] by (simp add: is_update_def)
  moreover have "reconcile cl e digest locked (JObj fw) uuid s = (if locked then (Inr Busy, s) else (r, t))"
    using rt by (auto simp: reconcile_def observe_firewall_def ret_def sbind_def gets_def modify_def)
  ultimately show ?thesis using cs(1) safe_trace_Nil by (simp add: safe_trace_Nil)
qed

section \<open>Outcomes\<close>

lemma one_error_docs:
  assumes "reconcile_one cl e digest current b s = (Inl x, t)"
  shows "fw_docs t = fw_docs s"
  using assms
proof (cases rule: reconcile_one_cases)
  case (wrote rule d s1 r1)
  then have "r1 = Inl x" by (cases r1) auto
  with wrote(3) have "fw_docs t = fw_docs s1" by (cases rule: apply_address_cases) auto
  then show ?thesis using confirmed_world [OF wrote(2)] by (simp add: same_world_def)
qed auto

lemma loop_error_docs:
  assumes "reconcile_loop cl e digest current bs s = (Inl x, t)"
  shows "fw_docs t = fw_docs s"
  using assms
proof (cases rule: loop_cases)
  case (ended b s1 r1 cs)
  then have "r1 = Inl x" by (cases r1) auto
  then show ?thesis using one_error_docs ended by (metis same_world_def)
qed auto

lemma reconcile_unfold:
  "reconcile cl e digest locked firewall uuid s = (if locked then (Inr Busy, s) else
     case observe_firewall cl firewall (s\<lparr>fw_trace := fw_trace s @ [Began]\<rparr>) of
       (Inl x, t) \<Rightarrow> (Inl x, t)
     | (Inr current, t) \<Rightarrow> reconcile_loop cl e digest current
         (if uuid = [] then bindings (fw_docs t) else filter (\<lambda>b. binding_uuid b = uuid) (bindings (fw_docs t))) t)"
  by (auto simp: reconcile_def ret_def sbind_def gets_def modify_def split: prod.split sum.split)

lemma observe_docs: "observe_firewall cl firewall s = (r, t) \<Longrightarrow> fw_docs t = fw_docs s"
  by (auto simp: observe_firewall_def read_firewall_def call_router_def ret_def split: if_splits prod.splits)

text \<open>A reconciliation that raises an error, be it from the router, from the read-back or from the verification, leaves
  all documents and so every binding as they were.\<close>

theorem firewall_error_keeps_bindings:
  "(case reconcile cl e digest locked firewall uuid s of (Inl x, t) \<Rightarrow> fw_docs t = fw_docs s | _ \<Rightarrow> True)"
proof -
  obtain r t where o: "observe_firewall cl firewall (s\<lparr>fw_trace := fw_trace s @ [Began]\<rparr>) = (r, t)" by fastforce
  note d = observe_docs [OF o]
  have "fw_docs u = fw_docs s" if "reconcile cl e digest locked firewall uuid s = (Inl x, u)" for x u
  proof (cases r)
    case (Inl y)
    then show ?thesis using that o d by (simp add: reconcile_unfold split: if_splits)
  next
    case (Inr current)
    with that o have "reconcile_loop cl e digest current
        (if uuid = [] then bindings (fw_docs t) else filter (\<lambda>b. binding_uuid b = uuid) (bindings (fw_docs t))) t = (Inl x, u)"
      by (simp add: reconcile_unfold split: if_split_asm)
    from loop_error_docs [OF this] d show ?thesis by simp
  qed
  note err = this
  obtain r' u where "reconcile cl e digest locked firewall uuid s = (r', u)" by fastforce
  then show ?thesis using err [of _ u] by (cases r') simp_all
qed

lemma find_unique: "distinct (map f xs) \<Longrightarrow> x \<in> set xs \<Longrightarrow> List.find (\<lambda>y. f y = f x) xs = Some x"
  by (induction xs) (auto simp: image_iff)

lemma find_replaced:
  assumes "bindings_ok d" "b \<in> set (bindings d)" "binding_uuid b' = binding_uuid b"
  shows "find_binding (replace_binding e b' d) (binding_uuid b) = Some b'"
    and "u \<noteq> binding_uuid b \<Longrightarrow> find_binding (replace_binding e b' d) u = find_binding d u"
proof -
  let ?rows = "filter (\<lambda>x. binding_uuid x \<noteq> binding_uuid b') (bindings d) @ [b']"
  have ne: "binding_uuid x \<noteq> []" if "x \<in> set (bindings d)" for x using that by (simp add: bindings_def)
  have "length (filter (\<lambda>x. binding_uuid x \<noteq> binding_uuid b') (bindings d)) < length (bindings d)"
    using assms(2,3) by (intro length_filter_less) auto
  then have len: "length ?rows \<le> 100" using assms(1) by (simp add: bindings_ok_def)
  have rows: "bindings (replace_binding e b' d) = sort_key binding_uuid ?rows"
    using len ne assms(2,3) by (simp add: replace_binding_def bindings_saved del: sort_key_simps)
  have dist: "distinct (map binding_uuid ?rows)" using assms(1) by (auto simp: bindings_ok_def distinct_map_filter)
  then have dist': "distinct (map binding_uuid (bindings (replace_binding e b' d)))"
    unfolding rows by (rule distinct_uuid_sort)
  have "b' \<in> set (bindings (replace_binding e b' d))" unfolding rows by simp
  from find_unique [OF dist' this] show "find_binding (replace_binding e b' d) (binding_uuid b) = Some b'"
    by (simp add: find_binding_def assms(3))
  show "find_binding (replace_binding e b' d) u = find_binding d u" if u: "u \<noteq> binding_uuid b"
  proof (cases "\<exists>x\<in>set (bindings d). binding_uuid x = u")
    case True
    then obtain x where x: "x \<in> set (bindings d)" "binding_uuid x = u" by auto
    then have "x \<in> set (bindings (replace_binding e b' d))" using u assms(3) unfolding rows by simp
    then show ?thesis
      using find_unique [OF dist'] find_unique [of binding_uuid "bindings d" x] x assms(1)
      by (auto simp: find_binding_def bindings_ok_def)
  next
    case False
    then have "find_binding d u = None" by (auto simp: find_binding_def find_None_iff)
    moreover have "x \<notin> set (bindings (replace_binding e b' d))" if "binding_uuid x = u" for x
      using False u assms(3) that unfolding rows by auto
    then have "find_binding (replace_binding e b' d) u = None" by (auto simp: find_binding_def find_None_iff)
    ultimately show ?thesis by simp
  qed
qed

lemma uuid_kept [simp]: "k \<noteq> ''firewallUuid'' \<Longrightarrow> binding_uuid (dset k v b) = binding_uuid b"
  by (simp add: binding_uuid_def)


text \<open>The digest is a text without surrounding white space, like the hexadecimal digits of SHA-256.\<close>

definition plain_digest :: "(string \<Rightarrow> string) \<Rightarrow> bool" where
  "plain_digest digest = (\<forall>x. digest x \<noteq> [] \<and> strip (digest x) = digest x)"

lemma applied_fields:
  "text_of (dget (applied_binding e digest b r f d) ''matchField'') = text_of (dget b ''matchField'')"
  "text_of (dget (applied_binding e digest b r f d) ''addressFamily'') = text_of (dget b ''addressFamily'')"
  "dget (applied_binding e digest b r f d) ''lastAppliedValue'' = JStr d"
  "text_of (dget (applied_binding e digest b r f d) ''ruleFingerprint'') = strip (rule_fingerprint digest r f)"
  "binding_uuid (applied_binding e digest b r f d) = binding_uuid b"
  by (simp_all add: applied_binding_def binding_uuid_def)

lemma applied_not_drifted:
  assumes "plain_digest digest" "field_value (text_of (dget b ''matchField'')) (dget r (text_of (dget b ''matchField''))) (text_of (dget b ''addressFamily'')) = d"
    and "d \<noteq> []"
  shows "\<not> drifted digest (applied_binding e digest b r (text_of (dget b ''matchField'')) d) r"
proof -
  let ?f = "text_of (dget b ''matchField'')" and ?fam = "text_of (dget b ''addressFamily'')"
  have "field_value ?f (JStr d) ?fam = d" using field_value_idem [of ?f "dget r ?f" ?fam] assms(2) by simp
  moreover have "strip (rule_fingerprint digest r ?f) = rule_fingerprint digest r ?f" "rule_fingerprint digest r ?f \<noteq> []"
    using assms(1) by (auto simp: plain_digest_def rule_fingerprint_def)
  ultimately show ?thesis using assms by (simp add: drifted_def applied_fields Let_def)
qed

lemma one_changed:
  assumes "reconcile_one cl e digest current b s = (Inr (Some (Changed u f a d)), t)"
    and "bindings_ok (fw_docs s)" "b \<in> set (bindings (fw_docs s))" "plain_digest digest"
  shows "\<exists>data r1 rule b'. cl_firewall cl r1 = (Inr data, fw_router t) \<and> find_rule data u = Some rule
     \<and> find_binding (fw_docs t) u = Some b' \<and> \<not> drifted digest b' rule \<and> dget b' ''lastAppliedValue'' = JStr d
     \<and> field_value f (dget rule f) (text_of (dget b' ''addressFamily'')) = d \<and> f = text_of (dget b' ''matchField'') \<and> d \<noteq> []"
  using assms(1)
proof (cases rule: reconcile_one_cases)
  case (wrote rule d' s1 r1)
  let ?f = "text_of (dget b ''matchField'')" and ?u = "binding_uuid b" and ?fam = "text_of (dget b ''addressFamily'')"
  have docs: "fw_docs s1 = fw_docs s" using confirmed_world [OF wrote(2)] by (simp add: same_world_def)
  have ne: "d' \<noteq> []" using wrote(1) by (simp add: to_write_def)
  from wrote(3) show ?thesis
  proof (cases rule: apply_address_cases)
    case (failed x cs)
    then show ?thesis using wrote(4) by simp
  next
    case (applied r1' data updated w r2)
    then have eq: "u = ?u" "f = ?f" "d = d'" using wrote(4) by auto
    have v: "field_value ?f (dget (case find_rule data ?u of None \<Rightarrow> [] | Some r \<Rightarrow> r) ?f) ?fam = d'"
      using applied(4) by (simp add: verify_def Let_def split: if_splits)
    have "field_value ?f JNull ?fam = []" by (simp add: field_value_def fw_ip_def text_of_def por_def before_def)
    then obtain r where r: "find_rule data ?u = Some r" "r \<noteq> []"
      using v ne by (cases "find_rule data ?u"; cases "the (find_rule data ?u) = []") auto
    let ?b = "applied_binding e digest b r ?f d'"
    have "fw_docs t = replace_binding e ?b (fw_docs s)" using applied(5,6) docs r by simp
    then have "find_binding (fw_docs t) ?u = Some ?b" using find_replaced(1) [OF assms(2,3)] applied_fields by simp
    moreover have "\<not> drifted digest ?b r" using v r ne by (intro applied_not_drifted assms) auto
    ultimately show ?thesis
      using applied(3,8) r v ne unfolding eq by (intro exI [of _ data] exI [of _ r1'] exI [of _ r] exI [of _ ?b]) (simp add: applied_fields)
  qed
qed (use assms in auto)

lemma loop_changed:
  assumes "reconcile_loop cl e digest current bs s = (Inr (Changed u f a d), t)"
  obtains b s1 where "b \<in> set bs" "same_world s s1" "reconcile_one cl e digest current b s1 = (Inr (Some (Changed u f a d)), t)"
  using assms
proof (cases rule: loop_cases)
  case (ended b s1 r1 cs)
  then have "r1 = Inr (Some (Changed u f a d))" by (cases r1) auto
  then show thesis using ended by (intro that [of b s1]) auto
qed auto

lemma find_filter: "List.find P xs = Some x \<Longrightarrow> \<exists>r. filter P xs = x # r"
  by (induction xs) (auto split: if_splits)

lemma run_bindings_ok: "bindings_ok (fw_docs (fw_run cl digest evs (fw_start d r)))"
  using fw_gate_run [of cl digest evs d r] by (simp add: gate_inv_def)

text \<open>What the hub stores after a change agrees with the router: the rule that was read back carries the address that the
  result reports, the stored binding records it, and the rule does not count as changed by somebody else.\<close>

definition change_recorded :: "'r fw_client \<Rightarrow> (string \<Rightarrow> string) \<Rightarrow> string \<Rightarrow> string \<Rightarrow> string \<Rightarrow> 'r fw_state \<Rightarrow> bool" where
  "change_recorded cl digest u f d t = (\<exists>data r1 rule b'. cl_firewall cl r1 = (Inr data, fw_router t) \<and> find_rule data u = Some rule
     \<and> find_binding (fw_docs t) u = Some b' \<and> \<not> drifted digest b' rule \<and> dget b' ''lastAppliedValue'' = JStr d
     \<and> field_value f (dget rule f) (text_of (dget b' ''addressFamily'')) = d \<and> f = text_of (dget b' ''matchField'') \<and> d \<noteq> [])"

text \<open>When a reconciliation reports a change, the router was read back and shows the new address in the
  controlled field, and the stored binding agrees with that read-back, so that the next cycle does not take the hub's own
  write for a manual change.\<close>

theorem firewall_changed_verified:
  assumes "plain_digest digest"
    and "reconcile cl e digest locked firewall uuid (fw_run cl digest evs (fw_start d0 r0)) = (Inr (Changed u f a d), t)"
  shows "change_recorded cl digest u f d t"
proof -
  let ?s = "fw_run cl digest evs (fw_start d0 r0)"
  obtain r s' where o: "observe_firewall cl firewall (?s\<lparr>fw_trace := fw_trace ?s @ [Began]\<rparr>) = (r, s')" by fastforce
  then have docs: "fw_docs s' = fw_docs ?s" using observe_docs [OF o] by simp
  let ?bs = "if uuid = [] then bindings (fw_docs s') else filter (\<lambda>b. binding_uuid b = uuid) (bindings (fw_docs s'))"
  obtain current where "reconcile_loop cl e digest current ?bs s' = (Inr (Changed u f a d), t)"
    using assms(2) o by (cases r; cases locked) (simp_all add: reconcile_unfold)
  moreover have "set ?bs \<subseteq> set (bindings (fw_docs s'))" by auto
  ultimately obtain current bs where l: "reconcile_loop cl e digest current bs s' = (Inr (Changed u f a d), t)"
      "set bs \<subseteq> set (bindings (fw_docs s'))" by blast
  from l(1) obtain b s1 where b: "b \<in> set bs" "same_world s' s1"
      "reconcile_one cl e digest current b s1 = (Inr (Some (Changed u f a d)), t)" by (rule loop_changed)
  have "fw_docs s1 = fw_docs ?s" using b(2) docs by (simp add: same_world_def)
  then have ok: "bindings_ok (fw_docs s1)" "b \<in> set (bindings (fw_docs s1))"
    using run_bindings_ok [of cl digest evs d0 r0] b(1) l(2) docs by auto
  show ?thesis using one_changed [OF b(3) ok assms(1)] unfolding change_recorded_def .
qed

text \<open>A rule whose controlled field or any other field was changed by somebody else is left alone: the
  reconciliation writes nothing, stores the binding as suspended and keeps all other bindings.\<close>

theorem firewall_manual_change_kept:
  assumes "find_binding (fw_docs s) u = Some b" "binding_active b" "bindings_ok (fw_docs s)"
    and "find_rule (JObj fw) u = Some rule" "drifted digest b rule"
  shows "(case reconcile cl e digest False (JObj fw) u s of (r, t) \<Rightarrow> r = Inr (Suspended u) \<and> fw_trace t = fw_trace s @ [Began]
     \<and> fw_router t = fw_router s \<and> \<not> binding_active (the (find_binding (fw_docs t) u))
     \<and> {w. find_binding (fw_docs t) w \<noteq> find_binding (fw_docs s) w} \<subseteq> {u})"
proof -
  let ?s = "s\<lparr>fw_trace := fw_trace s @ [Began]\<rparr>"
  have b: "b \<in> set (bindings (fw_docs s))" "binding_uuid b = u" using assms(1) by (auto simp: find_binding_def dest: find_SomeD)
  then have "u \<noteq> []" by (auto simp: bindings_def)
  obtain rest where bs: "filter (\<lambda>x. binding_uuid x = u) (bindings (fw_docs s)) = b # rest"
    using find_filter assms(1) by (metis find_binding_def)
  let ?r = "dmerge b [(''suspended'', JBool True), (''suspendedReason'', JStr (suspend_reason b)), (''suspendedAt'', JInt (env_now e))]"
  have "suspend e b (suspend_reason b) ?s = clear_candidate u (?s\<lparr>fw_docs := replace_binding e ?r (fw_docs s)\<rparr>)"
    using assms(2) b(2) by (simp add: suspend_def binding_active_def)
  moreover have "reconcile_one cl e digest (JObj fw) b ?s = (Inr (Some (Suspended u)), suspend e b (suspend_reason b) ?s)"
    using assms b by (simp add: reconcile_one_def ret_def)
  ultimately have run: "reconcile cl e digest False (JObj fw) u s
      = (Inr (Suspended u), clear_candidate u (?s\<lparr>fw_docs := replace_binding e ?r (fw_docs s)\<rparr>))"
    using bs \<open>u \<noteq> []\<close> by (simp add: reconcile_unfold observe_firewall_def ret_def sbind_def)
  have "\<not> binding_active ?r" by (simp add: binding_active_def flag_on_def)
  then show ?thesis
    using find_replaced [OF assms(3) b(1), of ?r] b(2) by (auto simp: run)
qed


subsection \<open>A concrete router\<close>

definition toy_client :: "json fw_client" where
  "toy_client = \<lparr>cl_firewall = (\<lambda>r. (Inr r, r)), cl_native = (\<lambda>r. (Inr (JObj []), r)),
     cl_update = (\<lambda>p r. (Inr JNull, p)), cl_snapshot = (\<lambda>name r. if name = ''portMappings'' then
        JObj [(''portMapping'', JList [JObj [(''ruleName'', JStr ''m''), (''destIp'', JStr ''10.0.0.9''), (''proto'', JStr ''tcp''), (''destPort'', JStr ''80'')]])]
        else JNull)\<rparr>"

definition toy_rule :: "string \<Rightarrow> row" where
  "toy_rule a = [(''uuid'', JStr ''u''), (''ipVersion'', JStr ''ipv4''), (''destIP'', JStr a), (''target'', JStr ''ACCEPT''),
     (''direction'', JStr ''forward''), (''inIface'', JStr ''wan''), (''outIface'', JStr ''lan''), (''proto'', JStr ''tcp''), (''destPort'', JStr ''80'')]"

definition toy_router :: "string \<Rightarrow> json" where
  "toy_router a = JObj [(''list'', JList [JObj (toy_rule a)])]"

definition toy_digest :: "string \<Rightarrow> string" where
  "toy_digest s = CHR ''x'' # s @ ''x''"

definition toy_env :: env where
  "toy_env = \<lparr>env_now = 100, env_now_str = ''t'', env_now_text = ''t'', env_fresh = (\<lambda>n. []), env_router = ''r'', env_local_epoch = (\<lambda>s. None)\<rparr>"

definition toy_adopted :: "json fw_state" where
  "toy_adopted = fw_run toy_client toy_digest
     [Adopt toy_env ''u'' [(''targetType'', JStr ''mapping''), (''mappingKind'', JStr ''native''), (''mappingId'', JStr ''m'')]]
     (fw_start (\<lambda>_. None) (toy_router ''10.0.0.5''))"

lemma toy_digest_plain: "plain_digest toy_digest"
  unfolding plain_digest_def
proof (intro allI conjI)
  fix x
  show "toy_digest x \<noteq> []" by (simp add: toy_digest_def)
  show "strip (toy_digest x) = toy_digest x"
    unfolding strip_def by (rule strip_of_no) (simp_all add: toy_digest_def is_space_def code_def)
qed

theorem firewall_changed_verified_witness:
  "change_recorded toy_client toy_digest ''u'' ''destIP'' ''10.0.0.9''
     (snd (reconcile toy_client toy_env toy_digest False JNull [] toy_adopted))"
  unfolding toy_adopted_def
proof (rule firewall_changed_verified [OF toy_digest_plain])
  have "fst (reconcile toy_client toy_env toy_digest False JNull [] toy_adopted) = Inr (Changed ''u'' ''destIP'' ''10.0.0.5'' ''10.0.0.9'')"
    by code_simp
  then show "reconcile toy_client toy_env toy_digest False JNull [] (fw_run toy_client toy_digest
     [Adopt toy_env ''u'' [(''targetType'', JStr ''mapping''), (''mappingKind'', JStr ''native''), (''mappingId'', JStr ''m'')]]
     (fw_start (\<lambda>_. None) (toy_router ''10.0.0.5''))) = (Inr (Changed ''u'' ''destIP'' ''10.0.0.5'' ''10.0.0.9''),
     snd (reconcile toy_client toy_env toy_digest False JNull [] (fw_run toy_client toy_digest
     [Adopt toy_env ''u'' [(''targetType'', JStr ''mapping''), (''mappingKind'', JStr ''native''), (''mappingId'', JStr ''m'')]]
     (fw_start (\<lambda>_. None) (toy_router ''10.0.0.5'')))))"
    by (simp add: toy_adopted_def prod_eq_iff)
qed

theorem firewall_manual_change_kept_witness:
  "(case reconcile toy_client toy_env toy_digest False (JObj (items (toy_router ''10.0.0.7''))) ''u'' toy_adopted of (r, t) \<Rightarrow>
     r = Inr (Suspended ''u'') \<and> fw_trace t = fw_trace toy_adopted @ [Began]
     \<and> fw_router t = fw_router toy_adopted \<and> \<not> binding_active (the (find_binding (fw_docs t) ''u''))
     \<and> {w. find_binding (fw_docs t) w \<noteq> find_binding (fw_docs toy_adopted) w} \<subseteq> {''u''})"
proof (rule firewall_manual_change_kept [where b = "the (find_binding (fw_docs toy_adopted) ''u'')" and rule = "toy_rule ''10.0.0.7''"])
  have "find_binding (fw_docs toy_adopted) ''u'' \<noteq> None" by code_simp
  then show "find_binding (fw_docs toy_adopted) ''u'' = Some (the (find_binding (fw_docs toy_adopted) ''u''))" by simp
  show "binding_active (the (find_binding (fw_docs toy_adopted) ''u''))" by code_simp
  show "bindings_ok (fw_docs toy_adopted)" unfolding toy_adopted_def by (rule run_bindings_ok)
  show "find_rule (JObj (items (toy_router ''10.0.0.7''))) ''u'' = Some (toy_rule ''10.0.0.7'')" by code_simp
  show "drifted toy_digest (the (find_binding (fw_docs toy_adopted) ''u'')) (toy_rule ''10.0.0.7'')" by code_simp
qed

end
