(* ===== verification/Stun.thy ===== *)
theory Stun
  imports Firewall
begin

text \<open>
  STUN rules, \<open>src/stun_service.py\<close>: cleaning of rules and allocation of ports, the command queue of the agent, the
  port mapping and the firewall rule that a STUN rule owns on the router, the handlers and the status report.
  The router client is an argument as in \<open>Firewall\<close>; an exception is its message. Rule identifiers are texts.
\<close>

section \<open>Rules\<close>

record stun_env = env +
  configured_server :: "string \<Rightarrow> string"

definition SERVICE_TEMPLATES :: "(string \<times> int \<times> string list \<times> string) list" where
  "SERVICE_TEMPLATES = [(''HTTPS'', 443, [''TCP''], ''TCP''), (''HTTP'', 80, [''TCP''], ''TCP''), (''SSH'', 22, [''TCP''], ''TCP''),
     (''RDP'', 3389, [''TCP''], ''TCP''), (''Telnet'', 23, [''TCP''], ''TCP''), (''OpenVPN'', 1194, [''TCP'', ''UDP''], ''UDP''),
     (''DNS'', 53, [''TCP'', ''UDP''], ''UDP''), (''WireGuard'', 51820, [''UDP''], ''UDP''), (''Custom'', 0, [''TCP'', ''UDP''], ''TCP'')]"

definition DEFAULT_STUN_UDP_SERVER :: string where
  "DEFAULT_STUN_UDP_SERVER = ''stun.cloudflare.com:3478''"

definition DEFAULT_STUN_TCP_SERVER :: string where
  "DEFAULT_STUN_TCP_SERVER = ''stunserver2025.stunprotocol.org:3478''"

definition stun_server :: "stun_env \<Rightarrow> string \<Rightarrow> string" where
  "stun_server e protocol = (let p = upper (strip protocol); configured = strip (configured_server e p) in
     if configured \<noteq> [] then configured else if p = ''TCP'' then DEFAULT_STUN_TCP_SERVER else DEFAULT_STUN_UDP_SERVER)"

definition stun_template :: "string \<Rightarrow> string \<times> int \<times> string list \<times> string" where
  "stun_template service = (case List.find (\<lambda>(n, _). lower n = lower service) SERVICE_TEMPLATES of
     None \<Rightarrow> (''Custom'', 0, [''TCP'', ''UDP''], ''TCP'') | Some t \<Rightarrow> t)"

record stun_doc =
  sd_revision :: int
  sd_updatedAt :: string
  sd_rules :: "row list"

definition stun_document :: "docs \<Rightarrow> stun_doc" where
  "stun_document d = (let raw = items (load_json d ''stun_rules.json'' (JObj [])) in
     \<lparr>sd_revision = int_or (dget raw ''revision'') 0, sd_updatedAt = text_of (dget raw ''updatedAt''), sd_rules = dict_rows (dget raw ''rules'')\<rparr>)"

definition stun_rules :: "docs \<Rightarrow> row list" where
  "stun_rules d = sd_rules (stun_document d)"

definition save_stun_rules :: "stun_env \<Rightarrow> row list \<Rightarrow> docs \<Rightarrow> docs" where
  "save_stun_rules e rows d = save_json d ''stun_rules.json'' (JObj [(''revision'', JInt (sd_revision (stun_document d) + 1)),
     (''updatedAt'', JStr (env_now_text e)), (''rules'', JList (map JObj rows))])"

definition rid :: "row \<Rightarrow> string" where
  "rid r = text_of (dget r ''id'')"

definition proto_of :: "row \<Rightarrow> string" where
  "proto_of r = upper (text_of (dget r ''transportProtocol''))"

definition used_ports :: "docs \<Rightarrow> string \<Rightarrow> string \<Rightarrow> int list" where
  "used_ports d protocol excluding =
     map (\<lambda>r. int_or (dget r ''listenPort'') 0) (filter (\<lambda>r. rid r \<noteq> excluding \<and> proto_of r = protocol) (stun_rules d))
     @ map (\<lambda>r. int_or (dget r ''listenPort'') 0) (filter (\<lambda>r. proto_of r = protocol) (load_portmap_rules d))"

definition allocated_port :: "docs \<Rightarrow> string \<Rightarrow> string \<Rightarrow> string + int" where
  "allocated_port d protocol excluding =
    (case List.find (\<lambda>p. p \<notin> set (used_ports d protocol excluding)) (map int [20000..<20021]) of
       None \<Rightarrow> Inl ''no relay port left'' | Some p \<Rightarrow> Inr p)"

definition stun_rule_id :: "stun_env \<Rightarrow> row \<Rightarrow> row \<Rightarrow> string" where
  "stun_rule_id e payload old = (let i = text_of (por (dget payload ''id'') (dget old ''id'')) in
     if i = [] then ''stun-'' @ env_fresh e 0 else i)"

definition stun_rule_row :: "stun_env \<Rightarrow> row \<Rightarrow> row \<Rightarrow> string \<Rightarrow> string \<Rightarrow> int \<Rightarrow> int \<Rightarrow> string \<Rightarrow> row" where
  "stun_rule_row e payload old service protocol target_port listen name =
    [(''id'', JStr (stun_rule_id e payload old)), (''kind'', JStr ''stun''), (''name'', JStr name),
     (''enabled'', JBool (truthy (dget_or payload ''enabled'' (dget_or old ''enabled'' (JBool True))))), (''mode'', JStr ''stun''),
     (''listenPort'', JInt listen), (''targetMode'', JStr ''ipv4''),
     (''targetIpv4'', JStr (text_of (por (dget payload ''targetIpv4'') (dget old ''targetIpv4'')))), (''targetPort'', JInt target_port),
     (''serviceType'', JStr service), (''transportProtocol'', JStr protocol), (''forwardMode'', JStr ''router_native''),
     (''stunServer'', JStr (stun_server e protocol)),
     (''maxConnections'', JInt (clamp 1 256 (or_default (int_or (dget payload ''maxConnections'') (int_or (dget old ''maxConnections'') 32)) 32))),
     (''idleTimeoutSec'', JInt (clamp 30 3600 (or_default (int_or (dget payload ''idleTimeoutSec'') (int_or (dget old ''idleTimeoutSec'') 300)) 300))),
     (''createdAt'', JStr (text_or (text_of (dget old ''createdAt'')) (env_now_text e))), (''updatedAt'', JStr (env_now_text e))]"

definition clean_stun_rule :: "stun_env \<Rightarrow> docs \<Rightarrow> row \<Rightarrow> row \<Rightarrow> string + row" where
  "clean_stun_rule e d payload old =
    (case stun_template (text_of (por (dget payload ''serviceType'') (por (dget old ''serviceType'') (JStr ''Custom'')))) of
      (service, suggested, protocols, default_protocol) \<Rightarrow>
     let protocol = upper (text_of (por (dget payload ''transportProtocol'') (por (dget old ''transportProtocol'') (JStr default_protocol))));
         target_ip = text_of (por (dget payload ''targetIpv4'') (dget old ''targetIpv4''));
         target_port = int_or (dget payload ''targetPort'') (int_or (dget old ''targetPort'') suggested);
         i = stun_rule_id e payload old;
         given = text_of (por (dget payload ''name'') (dget old ''name''));
         name = (if given = [] then service @ [CHR '' '', CHR 0xB7, CHR '' ''] @ target_ip @ '':'' @ int_str target_port else given)
     in if protocol \<notin> set protocols then Inl ''protocol is not supported'' else
        case ip_address target_ip of
          None \<Rightarrow> Inl ''invalid IPv4''
        | Some a \<Rightarrow>
           if \<not> private_ipv4 a then Inl ''target must be a private IPv4''
           else if \<not> (1 \<le> target_port \<and> target_port \<le> 65535) then Inl ''target port must be 1-65535''
           else if \<not> list_all (\<lambda>c. char_isalnum c \<or> c = CHR ''-'' \<or> c = CHR ''_'') i then Inl ''rule id is invalid''
           else let listen = (if old = [] then 0 else int_or (dget old ''listenPort'') 0) in
             ebind (if listen = 0 then allocated_port d protocol i else Inr listen) (\<lambda>port.
               if 64 < length name then Inl ''name is too long''
               else Inr (stun_rule_row e payload old service protocol target_port port name)))"

section \<open>The command queue\<close>

definition command_subject :: "row \<Rightarrow> string" where
  "command_subject payload = text_of (por (dget payload ''id'') (dget (sub_dict payload ''rule'') ''id''))"

definition stun_same :: "string \<Rightarrow> string \<Rightarrow> string \<Rightarrow> row \<Rightarrow> bool" where
  "stun_same router action subject c = (dget c ''router'' = JStr router \<and> dget c ''action'' = JStr action
     \<and> command_subject (sub_dict c ''payload'') = subject \<and> outstanding c)"

definition new_stun_command :: "stun_env \<Rightarrow> string \<Rightarrow> string \<Rightarrow> string \<Rightarrow> row \<Rightarrow> row" where
  "new_stun_command e cmd_id router action payload =
    [(''id'', JStr (''stun-cmd-'' @ cmd_id)), (''router'', JStr router), (''action'', JStr action), (''payload'', JObj payload),
     (''status'', JStr ''pending''), (''createdAt'', JStr (env_now_text e)), (''attempts'', JInt 0)]"

definition queue_stun_rows :: "stun_env \<Rightarrow> string \<Rightarrow> string \<Rightarrow> string \<Rightarrow> row \<Rightarrow> row list \<Rightarrow> row list" where
  "queue_stun_rows e cmd_id router action payload rows =
     filter (\<lambda>c. \<not> stun_same router action (command_subject payload) c) rows
     @ [new_stun_command e cmd_id router action payload]"

definition stun_router_name :: "stun_env \<Rightarrow> string" where
  "stun_router_name e = text_or (strip (env_router e)) ''router''"

definition queue_stun :: "stun_env \<Rightarrow> string \<Rightarrow> string \<Rightarrow> row \<Rightarrow> string \<Rightarrow> docs \<Rightarrow> docs" where
  "queue_stun e cmd_id action payload router d = save_commands ''stun_commands.json''
     (queue_stun_rows e cmd_id (text_or router (stun_router_name e)) action payload (commands_of ''stun_commands.json'' d)) d"

text \<open>The commands of a list are queued one after the other with fresh identifiers.\<close>

fun queue_stun_all :: "stun_env \<Rightarrow> string \<Rightarrow> nat \<Rightarrow> (string \<times> row) list \<Rightarrow> docs \<Rightarrow> docs" where
  "queue_stun_all e router n [] d = d"
| "queue_stun_all e router n ((action, payload) # cs) d =
     queue_stun_all e router (Suc n) cs (queue_stun e (env_fresh e n) action payload router d)"

section \<open>Start-up migration\<close>

definition migrate_rule :: "stun_env \<Rightarrow> row \<Rightarrow> row" where
  "migrate_rule e rule =
    (if lower (text_of (dget rule ''kind'')) \<noteq> ''stun'' then rule else
     let protocol = text_or (proto_of rule) ''TCP'';
         r1 = (if text_of (dget rule ''forwardMode'') \<noteq> ''router_native''
               then dset ''updatedAt'' (JStr (env_now_text e)) (dset ''forwardMode'' (JStr ''router_native'') rule) else rule)
     in if protocol = ''TCP'' \<and> text_of (dget r1 ''stunServer'') = DEFAULT_STUN_UDP_SERVER
        then dset ''updatedAt'' (JStr (env_now_text e)) (dset ''stunServer'' (JStr (stun_server e ''TCP'')) r1) else r1)"

definition needs_migration :: "row \<Rightarrow> bool" where
  "needs_migration rule = (lower (text_of (dget rule ''kind'')) = ''stun'' \<and>
     (text_of (dget rule ''forwardMode'') \<noteq> ''router_native''
      \<or> text_or (proto_of rule) ''TCP'' = ''TCP'' \<and> text_of (dget rule ''stunServer'') = DEFAULT_STUN_UDP_SERVER))"

definition migrate_legacy_tcp_server :: "stun_env \<Rightarrow> docs \<Rightarrow> docs" where
  "migrate_legacy_tcp_server e d =
    (let rules = stun_rules d; migrated = map (migrate_rule e) rules in
     if \<not> list_ex needs_migration rules then d
     else queue_stun_all e [] 1 (map (\<lambda>r. (''upsert'', [(''rule'', JObj r)]))
            (filter (\<lambda>r. truthy (dget r ''enabled'') \<and> lower (text_of (dget r ''kind'')) = ''stun'') migrated))
          (save_stun_rules e migrated d))"

section \<open>Runtime and address history\<close>

definition stun_runtime :: "docs \<Rightarrow> (string \<times> row) list" where
  "stun_runtime d = dict_of (concat (map (\<lambda>r.
     let i = text_of (por (dget (sub_dict r ''rule'') ''id'') (dget (sub_dict r ''runtime'') ''id''))
     in if i = [] then [] else [(i, sub_dict r ''runtime'')])
     (dict_rows (dget (sub_dict (items (load_json d ''stun_router_status.json'' (JObj []))) ''status'') ''rules''))))"

definition stun_history :: "docs \<Rightarrow> (string \<times> json) list" where
  "stun_history d = filter (\<lambda>(k, v). is_list v) (items (load_json d ''stun_address_history.json'' (JObj [])))"

definition remember_endpoint :: "stun_env \<Rightarrow> string \<Rightarrow> row \<Rightarrow> docs \<Rightarrow> docs" where
  "remember_endpoint e i runtime d =
    (let endpoint = text_of (dget runtime ''publicEndpoint'') in
     if endpoint = [] then d else
     let history = stun_history d;
         rows = dict_rows (dget history i);
         updated = int_or (dget runtime ''mappingUpdatedAt'') 0;
         rows' = (if rows = [] \<or> text_of (dget (hd rows) ''endpoint'') \<noteq> endpoint
                  then [(''endpoint'', JStr endpoint), (''updatedAt'', JInt (or_default updated (env_now e))),
                        (''protocol'', JStr (text_of (dget runtime ''transportProtocol'')))] # rows else rows)
     in save_json d ''stun_address_history.json'' (JObj (dset i (JList (map JObj (take 3 rows'))) history)))"

definition stun_addresses :: "string \<Rightarrow> docs \<Rightarrow> json list" where
  "stun_addresses i d = take 3 (elems (dget (stun_history d) i))"

section \<open>What a rule owns on the router\<close>

datatype router_call = GetNative | GetFirewall | Rpc string string json

record 'r router_client =
  rc_native :: "'r \<Rightarrow> (string + json) \<times> 'r"
  rc_firewall :: "'r \<Rightarrow> (string + json) \<times> 'r"
  rc_rpc :: "string \<Rightarrow> string \<Rightarrow> json \<Rightarrow> 'r \<Rightarrow> (string + json) \<times> 'r"

text \<open>The trace of the calls is recorded for the theorems.\<close>

record 'r svc_state =
  sv_docs :: docs
  sv_router :: 'r
  sv_trace :: "router_call list"

type_synonym ('r, 'a) svc_op = "('r svc_state, string, 'a) op"

definition svc_call :: "router_call \<Rightarrow> ('r \<Rightarrow> (string + 'a) \<times> 'r) \<Rightarrow> ('r, 'a) svc_op" where
  "svc_call c f s = (case f (sv_router s) of (r, r') \<Rightarrow> (r, s\<lparr>sv_router := r', sv_trace := sv_trace s @ [c]\<rparr>))"

definition get_native :: "'r router_client \<Rightarrow> ('r, json) svc_op" where
  "get_native cl = svc_call GetNative (rc_native cl)"

definition get_firewall :: "'r router_client \<Rightarrow> ('r, json) svc_op" where
  "get_firewall cl = svc_call GetFirewall (rc_firewall cl)"

definition call_rpc :: "'r router_client \<Rightarrow> string \<Rightarrow> string \<Rightarrow> json \<Rightarrow> ('r, json) svc_op" where
  "call_rpc cl m module p = svc_call (Rpc m module p) (rc_rpc cl m module p)"

definition on_docs :: "(docs \<Rightarrow> docs) \<Rightarrow> ('r, unit) svc_op" where
  "on_docs f = modify (\<lambda>s. s\<lparr>sv_docs := f (sv_docs s)\<rparr>)"

definition row_fingerprint :: "(string \<Rightarrow> string) \<Rightarrow> row \<Rightarrow> string" where
  "row_fingerprint digest r = digest (json_dumps (JObj (filter (\<lambda>(k, v). k \<noteq> ''stats'' \<and> k \<noteq> ''uuid'') r)))"

text \<open>\<open>_firewall_bindings\<close> and \<open>_native_mapping_bindings\<close>, by the name of their document.\<close>

definition owned :: "string \<Rightarrow> docs \<Rightarrow> (string \<times> row) list" where
  "owned key d = map (\<lambda>(k, v). (k, items v)) (filter (\<lambda>(k, v). is_dict v) (items (dget (items (load_json d key (JObj []))) ''rules'')))"

definition save_owned :: "stun_env \<Rightarrow> string \<Rightarrow> (string \<times> row) list \<Rightarrow> docs \<Rightarrow> docs" where
  "save_owned e key rows d = save_json d key (JObj [(''updatedAt'', JStr (env_now_text e)), (''rules'', JObj (map (\<lambda>(k, r). (k, JObj r)) rows))])"

abbreviation NATIVE :: string where "NATIVE \<equiv> ''stun_native_portmap.json''"
abbreviation FIREWALL :: string where "FIREWALL \<equiv> ''stun_firewall.json''"

definition owned_row :: "string \<Rightarrow> string \<Rightarrow> docs \<Rightarrow> row" where
  "owned_row key i d = (case map_of (owned key d) i of None \<Rightarrow> [] | Some r \<Rightarrow> r)"

definition set_owned :: "stun_env \<Rightarrow> string \<Rightarrow> string \<Rightarrow> row \<Rightarrow> docs \<Rightarrow> docs" where
  "set_owned e key i r d = save_owned e key (dset i r (owned key d)) d"

definition row_matches :: "row \<Rightarrow> row \<Rightarrow> bool" where
  "row_matches r expected = list_all (\<lambda>(k, v). text_of (dget r k) = text_of v) expected"

text \<open>An empty row counts as none.\<close>

definition found :: "row option \<Rightarrow> row option" where
  "found r = (if r = Some [] then None else r)"

definition find_native :: "json \<Rightarrow> string \<Rightarrow> row option" where
  "find_native snapshot name = found (List.find (\<lambda>r. text_of (dget r ''ruleName'') = name) (native_rows snapshot))"

definition is_native_forward :: "row \<Rightarrow> bool" where
  "is_native_forward rule = (text_of (dget rule ''forwardMode'') = ''router_native'')"

subsection \<open>The port mapping\<close>

definition expected_native_mapping :: "row \<Rightarrow> row" where
  "expected_native_mapping rule =
    [(''ruleName'', JStr (''LabProbe STUN '' @ py_str (dget rule ''id''))), (''src'', JStr ''wan''), (''srcIp'', JStr []),
     (''srcPort'', JStr (py_str (dget rule ''listenPort''))), (''destIp'', JStr (text_of (dget rule ''targetIpv4''))),
     (''destPort'', JStr (py_str (dget rule ''targetPort''))), (''proto'', JStr (lower (text_of (dget rule ''transportProtocol''))))]"

definition native_name :: "row \<Rightarrow> string" where
  "native_name rule = ''LabProbe STUN '' @ py_str (dget rule ''id'')"

definition svc_state_row :: "string \<Rightarrow> string \<Rightarrow> row" where
  "svc_state_row st m = [(''state'', JStr st), (''message'', JStr m)]"

definition ready_native :: "(string \<Rightarrow> string) \<Rightarrow> row \<Rightarrow> row \<Rightarrow> row" where
  "ready_native digest rule r = [(''state'', JStr ''ready''), (''ruleName'', JStr (native_name rule)), (''fingerprint'', JStr (row_fingerprint digest r))]"

text \<open>The result is returned; the binding keeps what it had beside a failure and is replaced by a success.\<close>

definition native_failed :: "stun_env \<Rightarrow> row \<Rightarrow> row \<Rightarrow> ('r, row) svc_op" where
  "native_failed e rule res = sbind (on_docs (\<lambda>d. set_owned e NATIVE (rid rule) (dmerge (owned_row NATIVE (rid rule) d) res) d)) (\<lambda>_. ret res)"

definition native_ready :: "stun_env \<Rightarrow> (string \<Rightarrow> string) \<Rightarrow> row \<Rightarrow> row \<Rightarrow> ('r, row) svc_op" where
  "native_ready e digest rule r = sbind (on_docs (set_owned e NATIVE (rid rule) (ready_native digest rule r))) (\<lambda>_. ret (ready_native digest rule r))"

definition confirm_native :: "'r router_client \<Rightarrow> stun_env \<Rightarrow> (string \<Rightarrow> string) \<Rightarrow> row \<Rightarrow> string \<Rightarrow> json \<Rightarrow> ('r, row) svc_op" where
  "confirm_native cl e digest rule m p =
    sbind (write_and_verify (call_rpc cl m ''port_mapping'' p) (get_native cl)) (\<lambda>verified.
    case find_native verified (native_name rule) of
      None \<Rightarrow> native_failed e rule (svc_state_row ''verify_failed'' ''port mapping was not confirmed'')
    | Some r \<Rightarrow> if row_matches r (expected_native_mapping rule) then native_ready e digest rule r
                else native_failed e rule (svc_state_row ''verify_failed'' ''port mapping was not confirmed''))"

definition ensure_native_mapping :: "'r router_client \<Rightarrow> stun_env \<Rightarrow> (string \<Rightarrow> string) \<Rightarrow> row \<Rightarrow> ('r, row) svc_op" where
  "ensure_native_mapping cl e digest rule =
    (if \<not> is_native_forward rule then ret [(''state'', JStr ''not_required'')] else
     sbind (gets (\<lambda>s. owned_row NATIVE (rid rule) (sv_docs s))) (\<lambda>binding.
     sbind (get_native cl) (\<lambda>current.
     case find_native current (native_name rule) of
       None \<Rightarrow> confirm_native cl e digest rule ''devConfig.add'' (JObj [(''list'', JList [JObj (expected_native_mapping rule)])])
     | Some existing \<Rightarrow>
         if truthy (dget binding ''fingerprint'') \<and> dget binding ''fingerprint'' \<noteq> JStr (row_fingerprint digest existing)
         then native_failed e rule (svc_state_row ''manual_change'' ''port mapping was changed by hand'')
         else if \<not> row_matches existing (expected_native_mapping rule)
         then confirm_native cl e digest rule ''devConfig.update'' (JObj [(''old'', JObj existing), (''new'', JObj (expected_native_mapping rule))])
         else native_ready e digest rule existing)))"

definition drop_owned :: "stun_env \<Rightarrow> string \<Rightarrow> string \<Rightarrow> docs \<Rightarrow> docs" where
  "drop_owned e key i d = save_owned e key (dpop i (owned key d)) d"

definition remove_native_mapping :: "'r router_client \<Rightarrow> stun_env \<Rightarrow> (string \<Rightarrow> string) \<Rightarrow> string \<Rightarrow> ('r, unit) svc_op" where
  "remove_native_mapping cl e digest i =
    sbind (gets (\<lambda>s. owned_row NATIVE i (sv_docs s))) (\<lambda>binding.
    if binding = [] then ret () else
    sbind (get_native cl) (\<lambda>current.
    case find_native current (text_of (dget binding ''ruleName'')) of
      None \<Rightarrow> on_docs (drop_owned e NATIVE i)
    | Some r \<Rightarrow>
        if dget binding ''fingerprint'' \<noteq> JStr (row_fingerprint digest r) then fail ''port mapping was changed by hand''
        else sbind (write_and_verify (call_rpc cl ''devConfig.del'' ''port_mapping''
                      (JObj [(''ruleName'', JList [JStr (text_of (dget r ''ruleName''))])])) (get_native cl)) (\<lambda>_.
             on_docs (drop_owned e NATIVE i))))"

subsection \<open>The firewall rule\<close>

definition wg_lan :: "row \<Rightarrow> bool" where
  "wg_lan rule = (lower (text_of (dget rule ''firewallMode'')) = ''wireguard_lan_forward'')"

definition expected_firewall :: "row \<Rightarrow> row" where
  "expected_firewall rule =
    (if wg_lan rule then
      [(''ruleName'', JStr (''LabProbe WireGuard '' @ py_str (dget rule ''id''))), (''direction'', JStr ''forward''), (''ipVersion'', JStr ''ipv4''),
       (''proto'', JStr ''all''), (''srcIP'', JStr (text_of (dget rule ''tunnelNetwork''))), (''destIP'', JStr []), (''srcPort'', JStr []),
       (''destPort'', JStr []), (''target'', JStr ''ACCEPT''), (''enable'', JStr ''1''), (''ipv6SuffixSrc'', JStr []),
       (''ipv6SuffixDest'', JStr []), (''inIface'', JStr []), (''outIface'', JStr ''lan'')]
     else
      [(''ruleName'', JStr (''LabProbe STUN '' @ py_str (dget rule ''id''))), (''direction'', JStr ''inbound''), (''ipVersion'', JStr ''ipv4''),
       (''proto'', JStr (lower (text_of (dget rule ''transportProtocol'')))), (''srcIP'', JStr []), (''destIP'', JStr []), (''srcPort'', JStr []),
       (''destPort'', JStr (py_str (dget rule ''listenPort''))), (''target'', JStr ''ACCEPT''), (''enable'', JStr ''1''),
       (''ipv6SuffixSrc'', JStr []), (''ipv6SuffixDest'', JStr []), (''inIface'', JStr ''wan''), (''outIface'', JStr [])])"

definition fw_list :: "json \<Rightarrow> row list" where
  "fw_list firewall = dict_rows (dget (items firewall) ''list'')"

definition find_firewall :: "json \<Rightarrow> string \<Rightarrow> row option" where
  "find_firewall firewall uuid = found (List.find (\<lambda>r. text_of (dget r ''uuid'') = uuid) (fw_list firewall))"

definition firewall_ready :: "stun_env \<Rightarrow> (string \<Rightarrow> string) \<Rightarrow> row \<Rightarrow> row \<Rightarrow> ('r, row) svc_op" where
  "firewall_ready e digest rule r =
    (let b = [(''uuid'', JStr (text_of (dget r ''uuid''))), (''fingerprint'', JStr (row_fingerprint digest r))] in
     sbind (on_docs (set_owned e FIREWALL (rid rule) b)) (\<lambda>_. ret ((''state'', JStr ''ready'') # b)))"

definition firewall_full :: "json \<Rightarrow> bool" where
  "firewall_full current = (let m = int_or (dget (items current) ''maxLen'') 20 in
     m \<noteq> 0 \<and> m \<le> int (length (elems (dget (items current) ''list''))))"

definition add_firewall :: "'r router_client \<Rightarrow> stun_env \<Rightarrow> (string \<Rightarrow> string) \<Rightarrow> row \<Rightarrow> ('r, row) svc_op" where
  "add_firewall cl e digest rule =
    sbind (write_and_verify (call_rpc cl ''devConfig.add'' ''ip_firewall'' (JObj [(''list'', JList [JObj (expected_firewall rule)])])) (get_firewall cl)) (\<lambda>verified.
    case List.find (\<lambda>r. row_matches r (expected_firewall rule)) (fw_list verified) of
      None \<Rightarrow> ret (svc_state_row ''verify_failed'' ''firewall rule was not confirmed'')
    | Some r \<Rightarrow> if text_of (dget r ''uuid'') = [] then ret (svc_state_row ''verify_failed'' ''firewall rule was not confirmed'')
                else firewall_ready e digest rule r)"

definition ensure_firewall :: "'r router_client \<Rightarrow> stun_env \<Rightarrow> (string \<Rightarrow> string) \<Rightarrow> row \<Rightarrow> ('r, row) svc_op" where
  "ensure_firewall cl e digest rule =
    sbind (gets (\<lambda>s. owned_row FIREWALL (rid rule) (sv_docs s))) (\<lambda>binding.
    sbind (get_firewall cl) (\<lambda>current.
    case find_firewall current (text_of (dget binding ''uuid'')) of
      Some existing \<Rightarrow>
        if truthy (dget binding ''fingerprint'') \<and> dget binding ''fingerprint'' \<noteq> JStr (row_fingerprint digest existing)
        then ret (svc_state_row ''manual_change'' ''firewall rule was changed by hand'')
        else if \<not> row_matches existing (expected_firewall rule) then ret (svc_state_row ''verify_failed'' ''firewall rule differs'')
        else firewall_ready e digest rule existing
    | None \<Rightarrow>
        if wg_lan rule \<and> list_ex (\<lambda>r. text_of (dget r ''ruleName'') = text_of (dget (expected_firewall rule) ''ruleName'')) (fw_list current)
        then ret (svc_state_row ''manual_change'' ''a rule of that name is not ours'')
        else if firewall_full current then ret (svc_state_row ''full'' ''the firewall is full'')
        else add_firewall cl e digest rule))"

definition remove_firewall :: "'r router_client \<Rightarrow> stun_env \<Rightarrow> (string \<Rightarrow> string) \<Rightarrow> string \<Rightarrow> ('r, unit) svc_op" where
  "remove_firewall cl e digest i =
    sbind (gets (\<lambda>s. owned_row FIREWALL i (sv_docs s))) (\<lambda>binding.
    if binding = [] then ret () else
    sbind (get_firewall cl) (\<lambda>current.
    sbind (case find_firewall current (text_of (dget binding ''uuid'')) of
             Some r \<Rightarrow> if dget binding ''fingerprint'' = JStr (row_fingerprint digest r)
               then write_and_verify (call_rpc cl ''devConfig.del'' ''ip_firewall'' (JObj [(''uuid'', JList [JStr (text_of (dget r ''uuid''))])])) (get_firewall cl)
               else ret JNull
           | None \<Rightarrow> ret JNull) (\<lambda>_.
    on_docs (drop_owned e FIREWALL i))))"

end
