(* ===== verification/StunApi.thy ===== *)
theory StunApi
  imports Stun
begin

text \<open>The request handlers of \<open>src/stun_service.py\<close> and the status report of the agent.\<close>

section \<open>Rows of the app\<close>

definition native_state_of :: "docs \<Rightarrow> string \<Rightarrow> string" where
  "native_state_of d i = (let b = owned_row NATIVE i d; st = text_of (dget b ''state'') in
     if st \<noteq> [] then st else if truthy (dget b ''fingerprint'') then ''ready'' else ''pending'')"

definition firewall_state_of :: "docs \<Rightarrow> row \<Rightarrow> string" where
  "firewall_state_of d rule = (if is_native_forward rule then ''not_required'' else
     let b = owned_row FIREWALL (rid rule) d; st = text_of (dget b ''state'') in
     if st \<noteq> [] then st else if truthy (dget b ''uuid'') then ''ready'' else ''pending'')"

definition actual_state :: "bool \<Rightarrow> string \<Rightarrow> string \<Rightarrow> string \<Rightarrow> string" where
  "actual_state native st native_state firewall_state =
    (if st \<noteq> ''mapped'' then st
     else if native then (if native_state = ''ready'' then st else if native_state = ''pending'' \<or> native_state = [] then ''router_mapping'' else ''router_mapping_error'')
     else (if firewall_state = ''ready'' then st else if firewall_state = ''pending'' \<or> firewall_state = [] then ''mapping'' else ''firewall_error''))"

definition stun_rows :: "docs \<Rightarrow> row list" where
  "stun_rows d = map (\<lambda>rule.
     let cur = (case map_of (stun_runtime d) (rid rule) of None \<Rightarrow> [] | Some r \<Rightarrow> r);
         ns = native_state_of d (rid rule); fs = firewall_state_of d rule
     in dmerge rule [(''runtime'', JObj cur), (''actualState'', JStr (actual_state (is_native_forward rule) (text_of (dget cur ''state'')) ns fs)),
          (''firewallState'', JStr fs), (''nativeMappingState'', JStr ns)]) (stun_rules d)"

section \<open>Requests of the app\<close>

datatype stun_reply = StUnauthorized | StNotFound | StInvalid | StFailed int string | StRule row | StDeleted string

text \<open>\<open>require_ready\<close>: the handlers raise an error unless the mapping is ready.\<close>

definition require_ready :: "row \<Rightarrow> ('r, unit) svc_op" where
  "require_ready mapping = (if text_of (dget mapping ''state'') = ''ready'' then ret ()
     else fail (text_or (text_of (dget mapping ''message'')) ''port mapping is not ready''))"

definition answer :: "('r, stun_reply) svc_op \<Rightarrow> int \<Rightarrow> 'r svc_state \<Rightarrow> stun_reply \<times> 'r svc_state" where
  "answer m status s = (case m s of (Inl msg, t) \<Rightarrow> (StFailed status msg, t) | (Inr r, t) \<Rightarrow> (r, t))"

definition find_rid :: "string \<Rightarrow> row list \<Rightarrow> row option" where
  "find_rid i rows = List.find (\<lambda>r. rid r = i) rows"

definition replace_rid :: "string \<Rightarrow> row \<Rightarrow> row list \<Rightarrow> row list" where
  "replace_rid i rule rows = map (\<lambda>r. if rid r = i then rule else r) rows"

definition stun_post :: "'r router_client \<Rightarrow> stun_env \<Rightarrow> (string \<Rightarrow> string) \<Rightarrow> bool \<Rightarrow> row \<Rightarrow> 'r svc_state \<Rightarrow> stun_reply \<times> 'r svc_state" where
  "stun_post cl e digest authorized payload s =
    (if \<not> authorized then (StUnauthorized, s) else
     answer (sbind (gets (\<lambda>s. clean_stun_rule e (sv_docs s) payload [])) (\<lambda>r. sbind (pure r) (\<lambda>rule.
       sbind (if truthy (dget rule ''enabled'') \<and> is_native_forward rule
              then sbind (ensure_native_mapping cl e digest rule) require_ready else ret ()) (\<lambda>_.
       sbind (on_docs (\<lambda>d. queue_stun e (env_fresh e 1) ''upsert'' [(''rule'', JObj rule)] [] (save_stun_rules e (stun_rules d @ [rule]) d))) (\<lambda>_.
       ret (StRule rule)))))) 400 s)"

definition stun_delete :: "'r router_client \<Rightarrow> stun_env \<Rightarrow> (string \<Rightarrow> string) \<Rightarrow> bool \<Rightarrow> string \<Rightarrow> 'r svc_state \<Rightarrow> stun_reply \<times> 'r svc_state" where
  "stun_delete cl e digest authorized i s =
    (if \<not> authorized then (StUnauthorized, s) else
     let rows = stun_rules (sv_docs s) in
     case find_rid i rows of
       None \<Rightarrow> (StNotFound, s)
     | Some old \<Rightarrow> answer (sbind (remove_native_mapping cl e digest i) (\<lambda>_. sbind (remove_firewall cl e digest i) (\<lambda>_.
         sbind (on_docs (\<lambda>d. queue_stun e (env_fresh e 1) ''delete'' [(''id'', JStr i)] []
                  (save_stun_rules e (filter (\<lambda>r. rid r \<noteq> i) rows) d))) (\<lambda>_. ret (StDeleted i))))) 409 s)"

definition stun_put :: "'r router_client \<Rightarrow> stun_env \<Rightarrow> (string \<Rightarrow> string) \<Rightarrow> bool \<Rightarrow> string \<Rightarrow> row \<Rightarrow> 'r svc_state \<Rightarrow> stun_reply \<times> 'r svc_state" where
  "stun_put cl e digest authorized i payload s =
    (if \<not> authorized then (StUnauthorized, s) else
     let rows = stun_rules (sv_docs s) in
     case find_rid i rows of
       None \<Rightarrow> (StNotFound, s)
     | Some old \<Rightarrow> answer (sbind (gets (\<lambda>s. clean_stun_rule e (sv_docs s) (dset ''id'' (JStr i) payload) old)) (\<lambda>r. sbind (pure r) (\<lambda>rule.
         sbind (if is_native_forward rule then
                  sbind (if truthy (dget rule ''enabled'') then sbind (ensure_native_mapping cl e digest rule) require_ready
                         else remove_native_mapping cl e digest i) (\<lambda>_. remove_firewall cl e digest i)
                else if is_native_forward old then remove_native_mapping cl e digest i else ret ()) (\<lambda>_.
         sbind (on_docs (\<lambda>d. queue_stun e (env_fresh e 1) ''upsert'' [(''rule'', JObj rule)] []
                  (save_stun_rules e (replace_rid i rule rows) d))) (\<lambda>_. ret (StRule rule)))))) 400 s)"

definition stun_action :: "'r router_client \<Rightarrow> stun_env \<Rightarrow> (string \<Rightarrow> string) \<Rightarrow> bool \<Rightarrow> string \<Rightarrow> string \<Rightarrow> 'r svc_state \<Rightarrow> stun_reply \<times> 'r svc_state" where
  "stun_action cl e digest authorized i action s =
    (if \<not> authorized then (StUnauthorized, s)
     else if action \<noteq> ''start'' \<and> action \<noteq> ''stop'' then (StInvalid, s) else
     let rows = stun_rules (sv_docs s); start = (action = ''start'') in
     case find_rid i rows of
       None \<Rightarrow> (StNotFound, s)
     | Some r0 \<Rightarrow>
        (let rule = dset ''updatedAt'' (JStr (env_now_text e)) (dset ''enabled'' (JBool start) r0) in
         answer (sbind (if start \<and> is_native_forward r0 then sbind (ensure_native_mapping cl e digest r0) require_ready
                        else if \<not> start \<and> is_native_forward r0 then remove_native_mapping cl e digest i else ret ()) (\<lambda>_.
           sbind (on_docs (\<lambda>d. queue_stun e (env_fresh e 1) (if start then ''upsert'' else ''stop'')
                    (if start then [(''rule'', JObj rule)] else [(''id'', JStr i)]) [] (save_stun_rules e (replace_rid i rule rows) d))) (\<lambda>_.
           sbind (if \<not> start \<and> \<not> is_native_forward rule then rescue (remove_firewall cl e digest i) (\<lambda>_. ret ()) else ret ()) (\<lambda>_.
           ret (StRule rule))))) 409 s))"

section \<open>Requests of the agent\<close>

definition stun_agent_commands :: "stun_env \<Rightarrow> bool \<Rightarrow> json \<Rightarrow> json \<Rightarrow> docs \<Rightarrow> json list option \<times> docs" where
  "stun_agent_commands e authorized router_arg limit_arg d =
    (if \<not> authorized then (None, d) else
     let router = text_or (text_of router_arg) (stun_router_name e);
         limit = nat (clamp 1 50 (int_or limit_arg 20));
         (rows, sel) = deliver_commands service_num router limit (env_now e) (env_now_text e) (commands_of ''stun_commands.json'' d)
     in (Some (map (command_view [''id'', ''action'', ''payload'', ''createdAt'']) sel),
         if sel = [] then d else save_commands ''stun_commands.json'' rows d))"

definition close_stun :: "stun_env \<Rightarrow> row \<Rightarrow> row \<Rightarrow> row" where
  "close_stun e a r = dset ''finishedAt'' (JStr (env_now_text e)) (close_command a r)"

definition stun_agent_ack :: "stun_env \<Rightarrow> bool \<Rightarrow> row \<Rightarrow> docs \<Rightarrow> nat option \<times> docs" where
  "stun_agent_ack e authorized payload d =
    (if \<not> authorized then (None, d) else
     case ack_rows text_of (close_stun e) (dget payload ''acks'') (commands_of ''stun_commands.json'' d) of
       (rows, n) \<Rightarrow> (Some n, if n = 0 then d else save_commands ''stun_commands.json'' rows d))"

definition STUN_COMPARE :: "string list" where
  "STUN_COMPARE = [''enabled'', ''kind'', ''listenPort'', ''targetIpv4'', ''targetPort'', ''serviceType'', ''transportProtocol'',
     ''forwardMode'', ''stunServer'', ''maxConnections'', ''idleTimeoutSec'']"

definition stun_local :: "row \<Rightarrow> (string \<times> row) list" where
  "stun_local payload = dict_of (map (\<lambda>r. (rid (sub_dict r ''rule''), sub_dict r ''rule''))
     (filter (\<lambda>r. is_dict (dget r ''rule'') \<and> rid (sub_dict r ''rule'') \<noteq> []) (dict_rows (dget payload ''rules''))))"

definition stun_reconcile :: "row \<Rightarrow> docs \<Rightarrow> (string \<times> row) list" where
  "stun_reconcile payload d =
    (let desired = dict_of (map (\<lambda>r. (rid r, r)) (stun_rules d)); locals = stun_local payload in
     map (\<lambda>(i, rule). (''upsert'', [(''rule'', JObj rule)]))
       (filter (\<lambda>(i, rule). case map_of locals i of None \<Rightarrow> True
          | Some l \<Rightarrow> list_ex (\<lambda>k. \<not> py_eq (dget l k) (dget rule k)) STUN_COMPARE) desired)
     @ map (\<lambda>(i, _). (''delete'', [(''id'', JStr i)])) (filter (\<lambda>(i, _). map_of desired i = None) locals))"

text \<open>One rule of the status report; \<open>fb\<close> is the copy of the firewall bindings that was read before the loop and is
  stored after it.\<close>

definition native_error :: "stun_env \<Rightarrow> row \<Rightarrow> string \<Rightarrow> ('r, row) svc_op" where
  "native_error e rule msg = sbind (on_docs (\<lambda>d. set_owned e NATIVE (rid rule)
     (dmerge (owned_row NATIVE (rid rule) d) (svc_state_row ''error'' msg)) d)) (\<lambda>_. ret [])"

definition report_rule :: "'r router_client \<Rightarrow> stun_env \<Rightarrow> (string \<Rightarrow> string) \<Rightarrow> (string \<times> row) list \<Rightarrow> row \<Rightarrow> (string \<times> row) list
    \<Rightarrow> ('r, (string \<times> row) list) svc_op" where
  "report_rule cl e digest runtime rule fb =
    (let i = rid rule; cur = (case map_of runtime i of None \<Rightarrow> [] | Some r \<Rightarrow> r) in
     sbind (on_docs (remember_endpoint e i cur)) (\<lambda>_.
     if truthy (dget rule ''enabled'') \<and> is_native_forward rule then
       sbind (rescue (ensure_native_mapping cl e digest rule) (native_error e rule)) (\<lambda>_.
       sbind (rescue (remove_firewall cl e digest i) (\<lambda>_. ret ())) (\<lambda>_. ret fb))
     else if truthy (dget rule ''enabled'') \<and> text_of (dget cur ''state'') = ''mapped'' then
       sbind (rescue (ensure_firewall cl e digest rule) (\<lambda>msg. ret (svc_state_row ''error'' msg))) (\<lambda>res.
       ret (dset i (dmerge (case map_of fb i of None \<Rightarrow> [] | Some b \<Rightarrow> b) res) fb))
     else ret fb))"

fun report_rules :: "'r router_client \<Rightarrow> stun_env \<Rightarrow> (string \<Rightarrow> string) \<Rightarrow> (string \<times> row) list \<Rightarrow> row list \<Rightarrow> (string \<times> row) list
    \<Rightarrow> ('r, (string \<times> row) list) svc_op" where
  "report_rules cl e digest runtime [] fb = ret fb"
| "report_rules cl e digest runtime (r # rs) fb =
     sbind (report_rule cl e digest runtime r fb) (report_rules cl e digest runtime rs)"

definition stun_agent_status :: "'r router_client \<Rightarrow> stun_env \<Rightarrow> (string \<Rightarrow> string) \<Rightarrow> bool \<Rightarrow> json \<Rightarrow> row \<Rightarrow> 'r svc_state \<Rightarrow> bool \<times> 'r svc_state" where
  "stun_agent_status cl e digest authorized router_arg payload s =
    (if \<not> authorized then (False, s) else
     let router = text_or (text_of router_arg) (stun_router_name e);
         rec = JObj [(''router'', JStr router), (''receivedAt'', JStr (env_now_text e)), (''receivedEpoch'', JInt (env_now e)), (''status'', JObj payload)];
         d1 = save_json (sv_docs s) ''stun_router_status.json'' rec;
         d2 = queue_stun_all e router 1 (stun_reconcile payload d1) d1;
         (_, t) = sbind (report_rules cl e digest (stun_runtime d1) (stun_rules d1) (owned FIREWALL d1))
                    (\<lambda>fb. on_docs (save_owned e FIREWALL fb)) (s\<lparr>sv_docs := d2\<rparr>)
     in (True, t))"

end
