(* ===== verification/StunRuns.thy ===== *)
theory StunRuns
  imports StunApi IpText
begin

text \<open>
  Properties of the STUN service: its queue meets the slot contract, new rules get a free port, the
  service writes to the router only what it owns, a second pass writes nothing, and the bindings that the
  status report stores.
\<close>

section \<open>The queue\<close>

definition stun_slot :: "row \<Rightarrow> (json \<times> json \<times> string) option" where
  "stun_slot c = (if outstanding c then Some (dget c ''router'', dget c ''action'', command_subject (sub_dict c ''payload'')) else None)"

lemma stun_same_slot: "stun_same router action i c \<longleftrightarrow> stun_slot c = Some (JStr router, JStr action, i)"
  by (auto simp: stun_same_def stun_slot_def)

lemma new_stun_slot: "stun_slot (new_stun_command e c router action payload) = Some (JStr router, JStr action, command_subject payload)"
  by (simp add: new_stun_command_def stun_slot_def outstanding_def is_status_def sub_dict_def)

lemma queue_stun_single: "single_slots stun_slot rows \<Longrightarrow> single_slots stun_slot (queue_stun_rows e c router action payload rows)"
  unfolding queue_stun_rows_def
  by (intro single_slots_snoc single_slots_filter) (auto simp: new_stun_slot stun_same_slot)

lemma queue_stun_occupies: "Some (JStr router, JStr action, command_subject payload) \<in> stun_slot ` set (queue_stun_rows e c router action payload rows)"
  by (simp add: queue_stun_rows_def new_stun_slot)

fun stun_pass :: "(string \<times> nat \<times> int \<times> string) + (stun_env \<times> json) \<Rightarrow> row list \<Rightarrow> row list" where
  "stun_pass (Inl (router, n, now, t)) rows = fst (deliver_commands service_num router n now t rows)"
| "stun_pass (Inr (e, acks)) rows = fst (ack_rows text_of (close_stun e) acks rows)"

lemma close_stun_closed: "\<not> outstanding (close_stun e a r)"
  by (rule close_not_outstanding [of _ a r]) (simp add: close_stun_def)

lemma stun_pass_slots: "slots_kept stun_slot rows (stun_pass p rows)"
proof (cases "(p, rows)" rule: stun_pass.cases)
  case (1 router n now t rows')
  have "slots_kept stun_slot rows (fst (deliver_commands service_num router n now t rows))"
    by (rule delivered_slots) (simp add: stun_slot_def outstanding_def is_status_def sub_dict_def)
  with 1 show ?thesis by simp
next
  case (2 e acks rows')
  then show ?thesis by (simp add: ack_slots stun_slot_def close_stun_closed)
qed

interpretation stun_queue: slot_queue stun_slot
  "\<lambda>(e, cmd_id, router, action, payload). queue_stun_rows e cmd_id router action payload"
  "\<lambda>(e, cmd_id, router, action, payload). (JStr router, JStr action, command_subject payload)" stun_pass
  by unfold_locales (auto simp: queue_stun_single stun_pass_slots queue_stun_occupies)

section \<open>Cleaned rules\<close>

definition stun_rule_ok :: "docs \<Rightarrow> row \<Rightarrow> bool" where
  "stun_rule_ok d rule = (case dget rule ''listenPort'' of JInt p \<Rightarrow>
     20000 \<le> p \<and> p \<le> 20020 \<and> p \<notin> set (used_ports d (proto_of rule) (rid rule)) | _ \<Rightarrow> False)"

definition stun_fields_ok :: "row \<Rightarrow> bool" where
  "stun_fields_ok rule = (is_native_forward rule \<and> (proto_of rule = ''TCP'' \<or> proto_of rule = ''UDP'') \<and> rid rule \<noteq> []
     \<and> (case dget rule ''targetPort'' of JInt p \<Rightarrow> 1 \<le> p \<and> p \<le> 65535 | _ \<Rightarrow> False)
     \<and> (case dget rule ''maxConnections'' of JInt p \<Rightarrow> 1 \<le> p \<and> p \<le> 256 | _ \<Rightarrow> False)
     \<and> (case dget rule ''idleTimeoutSec'' of JInt p \<Rightarrow> 30 \<le> p \<and> p \<le> 3600 | _ \<Rightarrow> False)
     \<and> (case ip_address (text_of (dget rule ''targetIpv4'')) of Some a \<Rightarrow> private_ipv4 a | None \<Rightarrow> False))"

lemma allocated_port_free:
  assumes "allocated_port d protocol i = Inr p"
  shows "20000 \<le> p \<and> p \<le> 20020 \<and> p \<notin> set (used_ports d protocol i)"
proof -
  let ?ps = "map int [20000..<20021]" and ?P = "\<lambda>p. p \<notin> set (used_ports d protocol i)"
  have "\<exists>q. List.find ?P ?ps = Some q \<and> Inr q = allocated_port d protocol i"
  proof (cases "List.find ?P ?ps")
    case None
    then have "allocated_port d protocol i = Inl ''no relay port left''" unfolding allocated_port_def by (simp only: option.case)
    then show ?thesis using assms by (simp only: sum.distinct)
  next
    case (Some q)
    then show ?thesis unfolding allocated_port_def by (simp only: option.case) blast
  qed
  then have "List.find ?P ?ps = Some p" using assms by (simp only: sum.inject) blast
  from find_SomeD [OF this] have "p \<in> int ` {20000..<20021}" "p \<notin> set (used_ports d protocol i)"
    by (auto simp only: set_map set_upt)
  then show ?thesis by auto
qed

lemma template_protocols:
  assumes "stun_template service = (n, sp, ps, dp)"
  shows "set ps \<subseteq> {''TCP'', ''UDP''}"
proof -
  have "list_all (\<lambda>(n, sp, ps, dp). set ps \<subseteq> {''TCP'', ''UDP''}) SERVICE_TEMPLATES" by (simp add: SERVICE_TEMPLATES_def)
  moreover have "(n, sp, ps, dp) \<in> set SERVICE_TEMPLATES \<or> ps = [''TCP'', ''UDP'']"
    using assms by (auto simp: stun_template_def split: option.splits dest: find_SomeD)
  ultimately show ?thesis by (auto simp: list_all_iff)
qed

lemma strip_protocols [simp]: "strip ''router_native'' = ''router_native''" "upper (strip ''TCP'') = ''TCP''" "upper (strip ''UDP'') = ''UDP''"
  by code_simp+

lemma stun_rule_fields:
  fixes e payload old service protocol tp listen name
  defines "r \<equiv> stun_rule_row e payload old service protocol tp listen name"
  shows "dget r ''listenPort'' = JInt listen" "dget r ''targetPort'' = JInt tp" "rid r = text_of (JStr (stun_rule_id e payload old))"
    "proto_of r = upper (text_of (JStr protocol))" "text_of (dget r ''targetIpv4'') = text_of (JStr (text_of (por (dget payload ''targetIpv4'') (dget old ''targetIpv4''))))"
    "text_of (dget r ''forwardMode'') = text_of (JStr ''router_native'')"
    "dget r ''maxConnections'' = JInt (clamp 1 256 (or_default (int_or (dget payload ''maxConnections'') (int_or (dget old ''maxConnections'') 32)) 32))"
    "dget r ''idleTimeoutSec'' = JInt (clamp 30 3600 (or_default (int_or (dget payload ''idleTimeoutSec'') (int_or (dget old ''idleTimeoutSec'') 300)) 300))"
  by (simp_all add: r_def stun_rule_row_def rid_def proto_of_def)

lemma clean_stun_cases:
  assumes "clean_stun_rule e d payload old = Inr rule"
  obtains sv service sp ps dp protocol tp listen name a where "stun_template sv = (service, sp, ps, dp)" "protocol \<in> set ps"
    "rule = stun_rule_row e payload old service protocol tp listen name" "1 \<le> tp" "tp \<le> 65535"
    "ip_address (text_of (por (dget payload ''targetIpv4'') (dget old ''targetIpv4''))) = Some a" "private_ipv4 a"
    "if (if old = [] then 0 else int_or (dget old ''listenPort'') 0) = 0
     then allocated_port d protocol (stun_rule_id e payload old) = Inr listen else listen = int_or (dget old ''listenPort'') 0"
    "list_all (\<lambda>c. char_isalnum c \<or> c = CHR ''-'' \<or> c = CHR ''_'') (stun_rule_id e payload old)"
proof -
  let ?sv = "text_of (por (dget payload ''serviceType'') (por (dget old ''serviceType'') (JStr ''Custom'')))"
  obtain service sp ps dp where t: "stun_template ?sv = (service, sp, ps, dp)" by (cases "stun_template ?sv") auto
  note run = assms [unfolded clean_stun_rule_def t prod.case Let_def]
  obtain a where a: "ip_address (text_of (por (dget payload ''targetIpv4'') (dget old ''targetIpv4''))) = Some a"
    using run by (cases "ip_address (text_of (por (dget payload ''targetIpv4'') (dget old ''targetIpv4'')))") (simp_all split: if_splits)
  define protocol where "protocol = upper (text_of (por (dget payload ''transportProtocol'') (por (dget old ''transportProtocol'') (JStr dp))))"
  define tp where "tp = int_or (dget payload ''targetPort'') (int_or (dget old ''targetPort'') sp)"
  define nm where "nm = (if text_of (por (dget payload ''name'') (dget old ''name'')) = []
    then service @ [CHR '' '', CHR 0xB7, CHR '' ''] @ text_of (por (dget payload ''targetIpv4'') (dget old ''targetIpv4'')) @ '':'' @ int_str tp
    else text_of (por (dget payload ''name'') (dget old ''name'')))"
  let ?listen = "if old = [] then 0 else int_or (dget old ''listenPort'') 0"
  define port where "port = (if ?listen = 0 then allocated_port d protocol (stun_rule_id e payload old) else Inr ?listen)"
  note run' = run [unfolded a option.case, folded protocol_def tp_def, folded nm_def port_def]
  have c: "protocol \<in> set ps" "private_ipv4 a" "1 \<le> tp" "tp \<le> 65535"
      "list_all (\<lambda>c. char_isalnum c \<or> c = CHR ''-'' \<or> c = CHR ''_'') (stun_rule_id e payload old)"
    using run' by (auto split: if_split_asm)
  obtain listen where l: "port = Inr listen" "rule = stun_rule_row e payload old service protocol tp listen nm"
    using run' by (cases port) (auto split: if_split_asm)
  show thesis
    by (rule that [OF t c(1) l(2) c(3,4) a c(2) _ c(5)]) (use l(1) in \<open>auto simp: port_def split: if_splits\<close>)
qed

lemma rule_id_unspaced: "list_all (\<lambda>c. char_isalnum c \<or> c = CHR ''-'' \<or> c = CHR ''_'') s \<Longrightarrow> unspaced s"
  by (auto simp: unspaced_def list_all_iff char_isalnum_def char_isdigit_def is_dec_def is_space_def Let_def code_def) 

definition demo_stun_env :: stun_env where
  "demo_stun_env = \<lparr>env_now = 100, env_now_str = ''t'', env_now_text = ''t'', env_fresh = (\<lambda>n. CHR ''f'' # nat_str n),
     env_router = ''r'', env_local_epoch = (\<lambda>_. None), configured_server = (\<lambda>_. [])\<rparr>"

definition demo_stun_payload :: row where
  "demo_stun_payload = [(''name'', JStr ''n''), (''targetIpv4'', JStr ''10.0.0.2''), (''serviceType'', JStr ''ssh''), (''targetPort'', JInt 22)]"

text \<open>A rule accepted from the app is well-formed and forwarded by the router, and a new one (no old rule) gets a
  listening port between 20000 and 20020 that no other STUN rule and no port map of its protocol uses.\<close>

theorem clean_stun_rule_ok:
  assumes "clean_stun_rule e d payload old = Inr rule"
  shows "stun_fields_ok rule \<and> (if old = [] then stun_rule_ok d rule else True)"
proof -
  obtain sv service sp ps dp protocol tp listen name a where c: "stun_template sv = (service, sp, ps, dp)" "protocol \<in> set ps"
    "rule = stun_rule_row e payload old service protocol tp listen name" "1 \<le> tp" "tp \<le> 65535"
    "ip_address (text_of (por (dget payload ''targetIpv4'') (dget old ''targetIpv4''))) = Some a" "private_ipv4 a"
    "if (if old = [] then 0 else int_or (dget old ''listenPort'') 0) = 0
     then allocated_port d protocol (stun_rule_id e payload old) = Inr listen else listen = int_or (dget old ''listenPort'') 0"
    "list_all (\<lambda>c. char_isalnum c \<or> c = CHR ''-'' \<or> c = CHR ''_'') (stun_rule_id e payload old)"
    using assms by (rule clean_stun_cases)
  have p: "protocol = ''TCP'' \<or> protocol = ''UDP''" using c(2) template_protocols [OF c(1)] by auto
  have i: "strip (stun_rule_id e payload old) = stun_rule_id e payload old" "stun_rule_id e payload old \<noteq> []"
    using strip_unspaced [OF rule_id_unspaced [OF c(9)]] by (auto simp: stun_rule_id_def Let_def)
  have proto: "proto_of rule = protocol" using p by (auto simp: c(3) stun_rule_fields)
  have id: "rid rule = stun_rule_id e payload old" using i by (simp add: c(3) stun_rule_fields)
  have "stun_fields_ok rule"
    using p c(4-7) i proto id unfolding stun_fields_ok_def is_native_forward_def
    by (simp add: c(3) stun_rule_fields) (auto simp: clamp_def)
  moreover have "stun_rule_ok d rule" if "old = []"
    using allocated_port_free [of d protocol "stun_rule_id e payload old" listen] c(8) that proto id
    by (simp add: stun_rule_ok_def) (simp add: c(3) stun_rule_fields)
  ultimately show ?thesis by simp
qed


theorem clean_stun_rule_ok_witness:
  "stun_fields_ok (projr (clean_stun_rule demo_stun_env (\<lambda>_. None) demo_stun_payload []))
   \<and> (if ([] :: row) = [] then stun_rule_ok (\<lambda>_. None) (projr (clean_stun_rule demo_stun_env (\<lambda>_. None) demo_stun_payload [])) else True)"
proof (rule clean_stun_rule_ok)
  have "\<not> isl (clean_stun_rule demo_stun_env (\<lambda>_. None) demo_stun_payload [])" by code_simp
  then show "clean_stun_rule demo_stun_env (\<lambda>_. None) demo_stun_payload []
      = Inr (projr (clean_stun_rule demo_stun_env (\<lambda>_. None) demo_stun_payload []))" by simp
qed

section \<open>What is written to the router\<close>

text \<open>\<open>unchanged\<close>: the row is as it was recorded, or nothing was recorded.\<close>

definition unchanged :: "(string \<Rightarrow> string) \<Rightarrow> row \<Rightarrow> row \<Rightarrow> bool" where
  "unchanged digest b r = (\<not> truthy (dget b ''fingerprint'') \<or> dget b ''fingerprint'' = JStr (row_fingerprint digest r))"

text \<open>The calls that the service may make, given the recorded row and what the router has.\<close>

definition owned_call :: "(string \<Rightarrow> string) \<Rightarrow> row \<Rightarrow> json \<Rightarrow> router_call \<Rightarrow> bool" where
  "owned_call digest b current c = (case c of
     Rpc m module p \<Rightarrow>
       (if module = ''port_mapping'' then
          (if m = ''devConfig.add'' then (case elems (dget (items p) ''list'') of
               [r] \<Rightarrow> find_native current (py_str (dget (items r) ''ruleName'')) = None | _ \<Rightarrow> False)
           else if m = ''devConfig.update'' then (case find_native current (py_str (dget (items (dget (items p) ''new'')) ''ruleName'')) of
               Some r \<Rightarrow> dget (items p) ''old'' = JObj r \<and> unchanged digest b r | None \<Rightarrow> False)
           else m = ''devConfig.del'' \<and> list_ex (\<lambda>r. dget (items p) ''ruleName'' = JList [JStr (text_of (dget r ''ruleName''))]
                  \<and> dget b ''fingerprint'' = JStr (row_fingerprint digest r)) (native_rows current))
        else if m = ''devConfig.add'' then module = ''ip_firewall'' \<and> (case elems (dget (items p) ''list'') of
               [r] \<Rightarrow> find_firewall current (text_of (dget b ''uuid'')) = None \<and> \<not> firewall_full current | _ \<Rightarrow> False)
        else module = ''ip_firewall'' \<and> m = ''devConfig.del'' \<and>
          list_ex (\<lambda>r. dget (items p) ''uuid'' = JList [JStr (text_of (dget r ''uuid''))]
             \<and> dget b ''fingerprint'' = JStr (row_fingerprint digest r)) (fw_list current))
   | _ \<Rightarrow> True)"

text \<open>The calls that an operation adds to the trace all satisfy a predicate.\<close>

definition calls :: "(router_call \<Rightarrow> bool) \<Rightarrow> ('r, 'a) svc_op \<Rightarrow> 'r svc_state \<Rightarrow> bool" where
  "calls P m s = (\<exists>cs. sv_trace (snd (m s)) = sv_trace s @ cs \<and> list_all P cs)"

lemma calls_pure: "sv_trace (snd (m s)) = sv_trace s \<Longrightarrow> calls P m s"
  by (simp add: calls_def)

lemma calls_bind:
  assumes "calls P m s" and "\<And>a t. m s = (Inr a, t) \<Longrightarrow> calls P (f a) t"
  shows "calls P (sbind m f) s"
proof (cases rule: sbind_cases [of m s f])
  case (raised e t)
  then show ?thesis using assms(1) by (simp add: calls_def)
next
  case (returned a t)
  then obtain cs ds where "sv_trace t = sv_trace s @ cs" "list_all P cs" "sv_trace (snd (f a t)) = sv_trace t @ ds" "list_all P ds"
    using assms by (auto simp: calls_def)
  then show ?thesis using returned by (auto simp: calls_def intro!: exI [of _ "cs @ ds"])
qed

lemma calls_call: "P c \<Longrightarrow> calls P (svc_call c f) s"
  by (auto simp: calls_def svc_call_def split: prod.split)

lemma calls_docs [simp]: "calls P (on_docs f) s" "calls P (ret a) s" "calls P (fail x) s" "calls P (gets g) s"
  by (auto simp: calls_def on_docs_def op_defs)

lemma calls_native_end: "calls P (native_failed e rule r) s" "calls P (native_ready e digest rule x) s"
  by (auto simp: native_failed_def native_ready_def intro: calls_bind)

lemma calls_write:
  "P (Rpc m module p) \<Longrightarrow> P GetNative \<Longrightarrow> calls P (write_and_verify (call_rpc cl m module p) (get_native cl)) s"
  "P (Rpc m module p) \<Longrightarrow> P GetFirewall \<Longrightarrow> calls P (write_and_verify (call_rpc cl m module p) (get_firewall cl)) s"
  by (auto simp: write_and_verify_def call_rpc_def get_native_def get_firewall_def intro!: calls_bind calls_call)

lemma calls_confirm: "P (Rpc m ''port_mapping'' p) \<Longrightarrow> P GetNative \<Longrightarrow> calls P (confirm_native cl e digest rule m p) s"
  unfolding confirm_native_def by (auto intro!: calls_bind calls_write calls_native_end split: option.split)

definition native_now :: "'r router_client \<Rightarrow> 'r svc_state \<Rightarrow> json" where
  "native_now cl s = projr (fst (rc_native cl (sv_router s)))"

definition firewall_now :: "'r router_client \<Rightarrow> 'r svc_state \<Rightarrow> json" where
  "firewall_now cl s = projr (fst (rc_firewall cl (sv_router s)))"

lemma get_native_now: "get_native cl s = (Inr a, t) \<Longrightarrow> a = native_now cl s"
  by (auto simp: get_native_def svc_call_def native_now_def split: prod.splits)

lemma get_firewall_now: "get_firewall cl s = (Inr a, t) \<Longrightarrow> a = firewall_now cl s"
  by (auto simp: get_firewall_def svc_call_def firewall_now_def split: prod.splits)

lemma find_native_in: "find_native cur n = Some r \<Longrightarrow> r \<in> set (native_rows cur)"
  by (auto simp: find_native_def found_def dest: find_SomeD split: if_splits)

lemma find_firewall_in: "find_firewall cur n = Some r \<Longrightarrow> r \<in> set (fw_list cur)"
  by (auto simp: find_firewall_def found_def dest: find_SomeD split: if_splits)

lemma owned_reads [simp]: "owned_call digest b cur GetNative" "owned_call digest b cur GetFirewall"
  by (simp_all add: owned_call_def)

lemma owned_gets [simp]: "calls (owned_call digest b cur) (get_native cl) s" "calls (owned_call digest b cur) (get_firewall cl) s"
  by (simp_all add: get_native_def get_firewall_def calls_call)

lemma calls_gets [simp]: "calls P (sbind (gets g) f) s = calls P (f (g s)) s"
  by (simp add: calls_def)

lemma ensure_native_owned:
  "calls (owned_call digest (owned_row NATIVE (rid rule) (sv_docs s)) (native_now cl s)) (ensure_native_mapping cl e digest rule) s"
proof (cases "is_native_forward rule")
  case True
  let ?b = "owned_row NATIVE (rid rule) (sv_docs s)" and ?cur = "native_now cl s"
  let ?P = "owned_call digest ?b ?cur"
  have add: "?P (Rpc ''devConfig.add'' ''port_mapping'' (JObj [(''list'', JList [JObj (expected_native_mapping rule)])]))"
    if "find_native ?cur (native_name rule) = None"
    using that by (simp add: owned_call_def expected_native_mapping_def native_name_def)
  have upd: "?P (Rpc ''devConfig.update'' ''port_mapping'' (JObj [(''old'', JObj r), (''new'', JObj (expected_native_mapping rule))]))"
    if "find_native ?cur (native_name rule) = Some r" "unchanged digest ?b r" for r
    using that by (simp add: owned_call_def expected_native_mapping_def native_name_def)
  have "calls ?P (case find_native ?cur (native_name rule) of
       None \<Rightarrow> confirm_native cl e digest rule ''devConfig.add'' (JObj [(''list'', JList [JObj (expected_native_mapping rule)])])
     | Some existing \<Rightarrow>
         if truthy (dget ?b ''fingerprint'') \<and> dget ?b ''fingerprint'' \<noteq> JStr (row_fingerprint digest existing)
         then native_failed e rule (svc_state_row ''manual_change'' ''port mapping was changed by hand'')
         else if \<not> row_matches existing (expected_native_mapping rule)
         then confirm_native cl e digest rule ''devConfig.update'' (JObj [(''old'', JObj existing), (''new'', JObj (expected_native_mapping rule))])
         else native_ready e digest rule existing) t" for t
    using add upd by (auto intro!: calls_confirm calls_native_end simp: unchanged_def split: option.split)
  then show ?thesis
    unfolding ensure_native_mapping_def
    using True by (auto intro!: calls_bind dest!: get_native_now)
qed (simp add: ensure_native_mapping_def)

lemma owned_delete:
  "r \<in> set (native_rows cur) \<Longrightarrow> dget b ''fingerprint'' = JStr (row_fingerprint digest r) \<Longrightarrow>
     owned_call digest b cur (Rpc ''devConfig.del'' ''port_mapping'' (JObj [(''ruleName'', JList [JStr (text_of (dget r ''ruleName''))])]))"
  "r \<in> set (fw_list cur) \<Longrightarrow> dget b ''fingerprint'' = JStr (row_fingerprint digest r) \<Longrightarrow>
     owned_call digest b cur (Rpc ''devConfig.del'' ''ip_firewall'' (JObj [(''uuid'', JList [JStr (text_of (dget r ''uuid''))])]))"
  by (auto simp: owned_call_def list_ex_iff)

lemma remove_native_owned:
  "calls (owned_call digest (owned_row NATIVE i (sv_docs s)) (native_now cl s)) (remove_native_mapping cl e digest i) s"
  unfolding remove_native_mapping_def
  by (auto intro!: calls_bind calls_write owned_delete(1) dest!: get_native_now dest: find_native_in split: option.split)

lemma remove_firewall_owned:
  "calls (owned_call digest (owned_row FIREWALL i (sv_docs s)) (firewall_now cl s)) (remove_firewall cl e digest i) s"
  unfolding remove_firewall_def
  by (auto intro!: calls_bind calls_write owned_delete(2) dest!: get_firewall_now dest: find_firewall_in split: option.split)

lemma ensure_firewall_owned:
  "calls (owned_call digest (owned_row FIREWALL (rid rule) (sv_docs s)) (firewall_now cl s)) (ensure_firewall cl e digest rule) s"
proof -
  let ?b = "owned_row FIREWALL (rid rule) (sv_docs s)" and ?cur = "firewall_now cl s"
  let ?P = "owned_call digest ?b ?cur"
  have ready: "calls P (firewall_ready e digest rule r) t" for P r t
    by (auto simp: firewall_ready_def Let_def intro: calls_bind)
  have "?P (Rpc ''devConfig.add'' ''ip_firewall'' (JObj [(''list'', JList [JObj (expected_firewall rule)])]))"
    if "find_firewall ?cur (text_of (dget ?b ''uuid'')) = None" "\<not> firewall_full ?cur"
    using that by (simp add: owned_call_def)
  then have "calls ?P (add_firewall cl e digest rule) t"
    if "find_firewall ?cur (text_of (dget ?b ''uuid'')) = None" "\<not> firewall_full ?cur" for t
    using that unfolding add_firewall_def by (auto intro!: calls_bind calls_write ready split: option.split)
  then show ?thesis
    unfolding ensure_firewall_def by (auto intro!: calls_bind ready dest!: get_firewall_now split: option.split)
qed

text \<open>C12: What the service does on the router when it ensures or removes the port mapping and the firewall rule of a STUN
  rule, against what it recorded and what the router shows. A port mapping is added only if the router has none of its
  name, and one of that name is changed only if it is as recorded, or if nothing was recorded for the rule; a firewall rule
  is added only if the recorded one is not there and the firewall has room, and none is ever changed. A port mapping or a firewall rule is deleted only if it
  is exactly as recorded. So what was recorded and then changed by hand is neither overwritten nor deleted.\<close>

theorem stun_writes_owned:
  "calls (owned_call digest (owned_row NATIVE (rid rule) (sv_docs s)) (native_now cl s)) (ensure_native_mapping cl e digest rule) s
   \<and> calls (owned_call digest (owned_row NATIVE i (sv_docs s)) (native_now cl s)) (remove_native_mapping cl e digest i) s
   \<and> calls (owned_call digest (owned_row FIREWALL (rid rule) (sv_docs s)) (firewall_now cl s)) (ensure_firewall cl e digest rule) s
   \<and> calls (owned_call digest (owned_row FIREWALL i (sv_docs s)) (firewall_now cl s)) (remove_firewall cl e digest i) s"
  using ensure_native_owned remove_native_owned ensure_firewall_owned remove_firewall_owned by blast

section \<open>A second pass\<close>

lemma owned_saved: "key \<noteq> ''state.json'' \<Longrightarrow> key \<noteq> ''devices.json'' \<Longrightarrow> owned key (save_owned e key rows d) = rows"
  by (induction rows) (auto simp: owned_def save_owned_def load_json_def)

lemma owned_set: "key \<noteq> ''state.json'' \<Longrightarrow> key \<noteq> ''devices.json'' \<Longrightarrow> owned key (set_owned e key i r d) = dset i r (owned key d)"
  by (simp add: set_owned_def owned_saved)

lemma dset_same: "map_of d k = Some v \<Longrightarrow> dset k v d = d"
  by (induction d) auto

text \<open>A read of the port mappings shows what the previous read showed and changes nothing.\<close>

definition repeatable :: "'r router_client \<Rightarrow> bool" where
  "repeatable cl = (\<forall>r x r'. rc_native cl r = (Inr x, r') \<longrightarrow> rc_native cl r' = (Inr x, r'))"

text \<open>What holds after a pass that ended well.\<close>

definition in_place :: "'r router_client \<Rightarrow> (string \<Rightarrow> string) \<Rightarrow> row \<Rightarrow> row \<Rightarrow> 'r svc_state \<Rightarrow> bool" where
  "in_place cl digest rule res t = (\<exists>cur r r0. rc_native cl r0 = (Inr cur, sv_router t) \<and> find_native cur (native_name rule) = Some r
     \<and> row_matches r (expected_native_mapping rule) \<and> res = ready_native digest rule r
     \<and> map_of (owned NATIVE (sv_docs t)) (rid rule) = Some res)"

lemma native_ready_in_place:
  assumes "native_ready e digest rule r s = (Inr res, t)" "rc_native cl r0 = (Inr cur, sv_router s)"
    "find_native cur (native_name rule) = Some r" "row_matches r (expected_native_mapping rule)"
  shows "in_place cl digest rule res t"
proof -
  have "res = ready_native digest rule r" "sv_router t = sv_router s" "map_of (owned NATIVE (sv_docs t)) (rid rule) = Some res"
    using assms(1) by (auto simp: native_ready_def on_docs_def op_defs owned_set)
  then show ?thesis using assms(2-4) unfolding in_place_def by (intro exI [of _ cur] exI [of _ r] exI [of _ r0]) simp
qed

lemma native_failed_state: "native_failed e rule (svc_state_row st m) s = (Inr res, t) \<Longrightarrow> dget res ''state'' = JStr st"
  by (auto simp: native_failed_def on_docs_def op_defs svc_state_row_def)

lemma get_native_cases:
  assumes "sbind (get_native cl) f s = (Inr b, t)"
  obtains cur s1 where "rc_native cl (sv_router s) = (Inr cur, sv_router s1)" "sv_docs s1 = sv_docs s"
    "sv_trace s1 = sv_trace s @ [GetNative]" "f cur s1 = (Inr b, t)"
proof -
  obtain cur s1 where g: "get_native cl s = (Inr cur, s1)" "f cur s1 = (Inr b, t)" using assms by (auto simp: sbind_Inr)
  then have "rc_native cl (sv_router s) = (Inr cur, sv_router s1) \<and> sv_docs s1 = sv_docs s \<and> sv_trace s1 = sv_trace s @ [GetNative]"
    by (auto simp: get_native_def svc_call_def split: prod.splits)
  then show thesis using g(2) that by blast
qed

lemma confirm_in_place:
  assumes "confirm_native cl e digest rule m p s = (Inr res, t)" "dget res ''state'' = JStr ''ready''"
  shows "in_place cl digest rule res t"
proof -
  let ?f = "\<lambda>verified. case find_native verified (native_name rule) of
      None \<Rightarrow> native_failed e rule (svc_state_row ''verify_failed'' ''port mapping was not confirmed'')
    | Some r \<Rightarrow> if row_matches r (expected_native_mapping rule) then native_ready e digest rule r
                else native_failed e rule (svc_state_row ''verify_failed'' ''port mapping was not confirmed'')"
  obtain s0 cur s1 where s0: "get_native cl s0 = (Inr cur, s1)" and f: "?f cur s1 = (Inr res, t)"
    using assms(1) by (auto simp: confirm_native_def write_and_verify_def sbind_Inr)
  have "rc_native cl (sv_router s0) = (Inr cur, sv_router s1)" using s0 by (auto simp: get_native_def svc_call_def split: prod.splits)
  then show ?thesis using f assms(2) native_failed_state
    by (auto split: option.splits if_splits dest!: native_failed_state intro: native_ready_in_place)
qed

lemma ensure_in_place:
  assumes "ensure_native_mapping cl e digest rule s = (Inr res, t)" "dget res ''state'' = JStr ''ready''"
  shows "in_place cl digest rule res t" "is_native_forward rule"
proof -
  show n: "is_native_forward rule" using assms by (auto simp: ensure_native_mapping_def ret_def split: if_splits)
  then show "in_place cl digest rule res t"
    using assms unfolding ensure_native_mapping_def
    by (auto elim!: get_native_cases split: option.splits if_splits dest!: native_failed_state
        intro: native_ready_in_place confirm_in_place)
qed

text \<open>Once a port mapping is in place, ensuring it again makes one read and no write, returns the same and keeps
  the recorded rows, so that repeated status reports, and changes of the public endpoint that they carry, do not touch
  the configuration of the router.\<close>

theorem ensure_native_stable:
  assumes "repeatable cl" and "ensure_native_mapping cl e digest rule s = (Inr res, t)" and "dget res ''state'' = JStr ''ready''"
  shows "(case ensure_native_mapping cl e' digest rule t of (r, u) \<Rightarrow> r = Inr res \<and> sv_router u = sv_router t
     \<and> sv_trace u = sv_trace t @ [GetNative] \<and> owned NATIVE (sv_docs u) = owned NATIVE (sv_docs t))"
proof -
  note e = ensure_in_place [OF assms(2,3)]
  obtain cur r r0 where c: "rc_native cl r0 = (Inr cur, sv_router t)" "find_native cur (native_name rule) = Some r"
      "row_matches r (expected_native_mapping rule)" "res = ready_native digest rule r" "map_of (owned NATIVE (sv_docs t)) (rid rule) = Some res"
    using e(1) by (auto simp: in_place_def)
  have rd: "rc_native cl (sv_router t) = (Inr cur, sv_router t)" using assms(1) c(1) by (auto simp: repeatable_def)
  have "dget (owned_row NATIVE (rid rule) (sv_docs t)) ''fingerprint'' = JStr (row_fingerprint digest r)"
    using c(4,5) by (simp add: owned_row_def ready_native_def)
  then have "ensure_native_mapping cl e' digest rule t = native_ready e' digest rule r (t\<lparr>sv_trace := sv_trace t @ [GetNative]\<rparr>)"
    using e(2) rd c(2,3) by (simp add: ensure_native_mapping_def get_native_def svc_call_def sbind_def gets_def)
  then show ?thesis
    using c(4,5) by (simp add: native_ready_def on_docs_def op_defs owned_set dset_same)
qed

definition toy_router_client :: "json router_client" where
  "toy_router_client = \<lparr>rc_native = (\<lambda>r. (Inr r, r)), rc_firewall = (\<lambda>r. (Inr (JObj []), r)), rc_rpc = (\<lambda>m module p r. (Inr JNull, p))\<rparr>"

definition demo_stun_rule :: row where
  "demo_stun_rule = projr (clean_stun_rule demo_stun_env (\<lambda>_. None) demo_stun_payload [])"

definition demo_svc :: "json svc_state" where
  "demo_svc = \<lparr>sv_docs = (\<lambda>_. None), sv_router = JObj [], sv_trace = []\<rparr>"

definition demo_ensured :: "(string + row) \<times> json svc_state" where
  "demo_ensured = ensure_native_mapping toy_router_client demo_stun_env (\<lambda>x. ''d'') demo_stun_rule demo_svc"

theorem ensure_native_stable_witness:
  "(case ensure_native_mapping toy_router_client demo_stun_env (\<lambda>x. ''d'') demo_stun_rule (snd demo_ensured) of (r, u) \<Rightarrow>
      r = Inr (projr (fst demo_ensured)) \<and> sv_router u = sv_router (snd demo_ensured)
     \<and> sv_trace u = sv_trace (snd demo_ensured) @ [GetNative] \<and> owned NATIVE (sv_docs u) = owned NATIVE (sv_docs (snd demo_ensured)))"
proof (rule ensure_native_stable)
  show "repeatable toy_router_client" by (simp add: repeatable_def toy_router_client_def)
  have "\<not> isl (fst demo_ensured)" by code_simp
  then show "ensure_native_mapping toy_router_client demo_stun_env (\<lambda>x. ''d'') demo_stun_rule demo_svc = (Inr (projr (fst demo_ensured)), snd demo_ensured)"
    by (simp add: demo_ensured_def prod_eq_iff)
  show "dget (projr (fst demo_ensured)) ''state'' = JStr ''ready''" by code_simp
qed

section \<open>The bindings after a status report\<close>

text \<open>Operations that never raise, and their result.\<close>

definition returns :: "('a \<Rightarrow> bool) \<Rightarrow> ('r, 'a) svc_op \<Rightarrow> bool" where
  "returns P m = (\<forall>s. \<exists>a t. m s = (Inr a, t) \<and> P a)"

lemma returns_basic [simp]: "returns P (ret a) = P a" "returns (\<lambda>_. True) (on_docs f)"
  by (simp_all add: returns_def on_docs_def op_defs)

lemma returns_bind:
  assumes "returns Q m" "\<And>a. Q a \<Longrightarrow> returns P (f a)"
  shows "returns P (sbind m f)"
  unfolding returns_def
proof
  fix s
  obtain a t where "m s = (Inr a, t)" "Q a" using assms(1) unfolding returns_def by blast
  moreover from this assms(2) obtain b u where "f a t = (Inr b, u)" "P b" unfolding returns_def by blast
  ultimately show "\<exists>a t. sbind m f s = (Inr a, t) \<and> P a" by (simp add: sbind_def)
qed

lemma returns_rescue: "(\<And>x. returns (\<lambda>_. True) (h x)) \<Longrightarrow> returns (\<lambda>_. True) (rescue m h)"
  unfolding returns_def
proof
  fix s
  assume h: "\<And>x. \<forall>s. \<exists>a t. h x s = (Inr a, t) \<and> True"
  obtain r t where m: "m s = (r, t)" by fastforce
  show "\<exists>a t. rescue m h s = (Inr a, t) \<and> True"
    using h m by (cases r) (auto simp: rescue_def)
qed

lemma report_rule_bindings: "returns (\<lambda>fb'. fst ` set fb \<subseteq> fst ` set fb') (report_rule cl e digest runtime rule fb)"
proof -
  have n: "returns (\<lambda>_. True) (native_error e rule msg)" for msg
    unfolding native_error_def by (rule returns_bind [where Q = "\<lambda>_. True"]) simp_all
  have k: "fst ` set fb \<subseteq> fst ` set (dset i v fb)" for i v by (auto simp: dom_update)
  show ?thesis
    unfolding report_rule_def Let_def
    by (auto intro!: returns_bind [where Q = "\<lambda>_. True"] returns_rescue n k)
qed

lemma report_rules_bindings: "returns (\<lambda>fb'. fst ` set fb \<subseteq> fst ` set fb') (report_rules cl e digest runtime rules fb)"
proof (induction rules arbitrary: fb)
  case (Cons r rs)
  show ?case
    by simp (rule returns_bind [OF report_rule_bindings], use Cons.IH in \<open>auto simp: returns_def\<close>, meson order_trans)
qed simp

text \<open>A status report never drops a firewall binding: whatever was recorded for a rule before is recorded after it,
  although the report deletes the obsolete firewall rules of natively forwarded rules and drops their records, because
  the copy made before the loop is stored after it.\<close>

theorem status_report_keeps_bindings:
  "fst ` set (owned FIREWALL (sv_docs s)) \<subseteq>
   fst ` set (owned FIREWALL (sv_docs (snd (stun_agent_status cl e digest authorized router_arg payload s))))"
proof (cases authorized)
  case True
  define d1 where "d1 = save_json (sv_docs s) ''stun_router_status.json'' (JObj [(''router'', JStr (text_or (text_of router_arg) (stun_router_name e))),
     (''receivedAt'', JStr (env_now_text e)), (''receivedEpoch'', JInt (env_now e)), (''status'', JObj payload)])"
  define m where "m = report_rules cl e digest (stun_runtime d1) (stun_rules d1) (owned FIREWALL d1)"
  define s2 where "s2 = s\<lparr>sv_docs := queue_stun_all e (text_or (text_of router_arg) (stun_router_name e)) 1 (stun_reconcile payload d1) d1\<rparr>"
  obtain fb t where fb: "m s2 = (Inr fb, t)" "fst ` set (owned FIREWALL d1) \<subseteq> fst ` set fb"
    using report_rules_bindings unfolding m_def returns_def by blast
  have "snd (stun_agent_status cl e digest authorized router_arg payload s) = t\<lparr>sv_docs := save_owned e FIREWALL fb (sv_docs t)\<rparr>"
    using True fb(1) [unfolded s2_def One_nat_def] by (simp add: stun_agent_status_def Let_def d1_def [symmetric] m_def [symmetric] sbind_def on_docs_def modify_def)
  moreover have "owned FIREWALL d1 = owned FIREWALL (sv_docs s)" by (simp add: owned_def d1_def)
  ultimately show ?thesis using fb(2) by (simp add: owned_saved)
qed (simp add: stun_agent_status_def)

end
