(* ===== verification/Wireguard.thy ===== *)
theory Wireguard
  imports Stun
begin

text \<open>
  The WireGuard server, \<open>src/wireguard_service.py\<close>: the document with its two revisions, cleaning of the server with its
  peers and endpoint profiles, the command queue, updates of endpoints, and the firewall rules that the service keeps on the
  router through the operations of \<open>Stun\<close>. A \<open>RuntimeError\<close> (answered with 409) is told from other errors.
\<close>

section \<open>Values\<close>

datatype wg_error = Conflict string | Rejected string

type_synonym ('r, 'a) wg_op = "('r svc_state, wg_error, 'a) op"

definition normal_key :: "string \<Rightarrow> string" where
  "normal_key k = filter (\<lambda>c. 97 \<le> code c \<and> code c \<le> 122) (lower k)"

definition SECRET_KEYS :: "string list" where
  "SECRET_KEYS = [''privatekey'', ''presharedkey'', ''secret'', ''password'']"

fun has_secret :: "json \<Rightarrow> bool" where
  "has_secret (JObj d) = list_ex (\<lambda>(k, v). normal_key k \<in> set SECRET_KEYS \<or> has_secret v) d"
| "has_secret (JList xs) = list_ex has_secret xs"
| "has_secret _ = False"

definition is_b64 :: "char \<Rightarrow> bool" where
  "is_b64 c = (let n = code c in (48 \<le> n \<and> n \<le> 57) \<or> (65 \<le> n \<and> n \<le> 90) \<or> (97 \<le> n \<and> n \<le> 122) \<or> n = 43 \<or> n = 47)"

text \<open>The number of bytes that \<open>base64.b64decode(s, validate=True)\<close> yields, if it accepts \<open>s\<close>.\<close>

definition b64_length :: "string \<Rightarrow> nat option" where
  "b64_length s = (let n = length (takeWhile is_b64 s); pad = dropWhile is_b64 s in
     if n mod 4 = 0 \<and> pad = [] then Some (n div 4 * 3)
     else if n mod 4 = 2 \<and> pad = ''=='' then Some (n div 4 * 3 + 1)
     else if n mod 4 = 3 \<and> pad = ''='' then Some (n div 4 * 3 + 2)
     else None)"

definition public_key :: "json \<Rightarrow> string + string" where
  "public_key v = (let t = text_of v in case b64_length t of
     None \<Rightarrow> Inl ''peer key is not base64'' | Some n \<Rightarrow> if n \<noteq> 32 then Inl ''peer key must have 32 bytes'' else Inr t)"

subsection \<open>Interfaces and networks of \<open>ipaddress\<close>\<close>

definition digits_value :: "string \<Rightarrow> nat option" where
  "digits_value s = (if s \<noteq> [] \<and> list_all is_dec s then Some (dec_value s) else None)"

definition mask_of :: "nat \<Rightarrow> nat \<Rightarrow> nat" where
  "mask_of width p = 2 ^ width - 2 ^ (width - p)"

definition prefix_v4 :: "string \<Rightarrow> nat option" where
  "prefix_v4 s = (case digits_value s of
     Some n \<Rightarrow> if n \<le> 32 then Some n else None
   | None \<Rightarrow> (case parse_ipv4 s of None \<Rightarrow> None
       | Some m \<Rightarrow> (case List.find (\<lambda>p. mask_of 32 p = m) [0..<33] of
            Some p \<Rightarrow> Some p | None \<Rightarrow> List.find (\<lambda>p. mask_of 32 p = 2 ^ 32 - 1 - m) [0..<33])))"

definition prefix_v6 :: "string \<Rightarrow> nat option" where
  "prefix_v6 s = (case digits_value s of Some n \<Rightarrow> if n \<le> 128 then Some n else None | None \<Rightarrow> None)"

definition ip_interface_v4 :: "string \<Rightarrow> (nat \<times> nat) option" where
  "ip_interface_v4 s = (case split_on (CHR ''/'') s of
     [a] \<Rightarrow> map_option (\<lambda>n. (n, 32)) (parse_ipv4 a)
   | [a, p] \<Rightarrow> (case (parse_ipv4 a, prefix_v4 p) of (Some n, Some k) \<Rightarrow> Some (n, k) | _ \<Rightarrow> None)
   | _ \<Rightarrow> None)"

definition ip_interface_v6 :: "string \<Rightarrow> (nat \<times> nat) option" where
  "ip_interface_v6 s = (case split_on (CHR ''/'') s of
     [a] \<Rightarrow> map_option (\<lambda>i. (ip_value i, 128)) (IPv6Address a)
   | [a, p] \<Rightarrow> (case (IPv6Address a, prefix_v6 p) of (Some i, Some k) \<Rightarrow> Some (ip_value i, k) | _ \<Rightarrow> None)
   | _ \<Rightarrow> None)"

definition network_base :: "nat \<Rightarrow> nat \<Rightarrow> nat \<Rightarrow> nat" where
  "network_base width n p = n - n mod 2 ^ (width - p)"

definition network_str_v4 :: "nat \<times> nat \<Rightarrow> string" where
  "network_str_v4 i = (case i of (n, p) \<Rightarrow> ipv4_str (network_base 32 n p) @ ''/'' @ nat_str p)"

definition interface_str_v4 :: "nat \<times> nat \<Rightarrow> string" where
  "interface_str_v4 i = (case i of (n, p) \<Rightarrow> ipv4_str n @ ''/'' @ nat_str p)"

text \<open>\<open>str(ip_network(s, strict=False))\<close>\<close>

definition ip_network :: "string \<Rightarrow> string option" where
  "ip_network s = (case ip_interface_v4 s of
     Some i \<Rightarrow> Some (network_str_v4 i)
   | None \<Rightarrow> (case ip_interface_v6 s of None \<Rightarrow> None
       | Some (n, p) \<Rightarrow> Some (ipv6_str (network_base 128 n p) @ ''/'' @ nat_str p)))"

section \<open>The document\<close>

record wg_doc =
  wd_revision :: int
  wd_endpointRevision :: int
  wd_updatedAt :: string
  wd_server :: "row option"
  wd_tombstone :: "row option"

definition opt_dict :: "json \<Rightarrow> row option" where
  "opt_dict v = (case v of JObj d \<Rightarrow> Some d | _ \<Rightarrow> None)"

definition opt_json :: "row option \<Rightarrow> json" where
  "opt_json v = (case v of None \<Rightarrow> JNull | Some d \<Rightarrow> JObj d)"

definition wg_document :: "docs \<Rightarrow> wg_doc" where
  "wg_document d = (let raw = items (load_json d ''wireguard_server.json'' (JObj [])) in
     \<lparr>wd_revision = max 0 (int_or (dget raw ''revision'') 0), wd_endpointRevision = max 0 (int_or (dget raw ''endpointRevision'') 0),
      wd_updatedAt = text_of (dget raw ''updatedAt''), wd_server = opt_dict (dget raw ''server''), wd_tombstone = opt_dict (dget raw ''tombstone'')\<rparr>)"

definition wg_json :: "wg_doc \<Rightarrow> json" where
  "wg_json w = JObj [(''version'', JInt 1), (''revision'', JInt (wd_revision w)), (''endpointRevision'', JInt (wd_endpointRevision w)),
     (''updatedAt'', JStr (wd_updatedAt w)), (''server'', opt_json (wd_server w)), (''tombstone'', opt_json (wd_tombstone w))]"

definition save_document :: "wg_doc \<Rightarrow> ('r, unit) wg_op" where
  "save_document w = (if has_secret (wg_json w) then fail (Rejected ''private keys are not stored'')
     else modify (\<lambda>s. s\<lparr>sv_docs := save_json (sv_docs s) ''wireguard_server.json'' (wg_json w)\<rparr>))"

section \<open>STUN rules of profiles\<close>

definition stun_rule :: "docs \<Rightarrow> string \<Rightarrow> row option" where
  "stun_rule d i = List.find (\<lambda>r. rid r = i) (stun_rules d)"

definition retarget :: "string \<Rightarrow> int \<Rightarrow> row \<Rightarrow> row" where
  "retarget i port r = (if rid r = i \<and> int_or (dget r ''targetPort'') 0 \<noteq> port then dset ''targetPort'' (JInt port) r else r)"

definition sync_stun_rule_target_port :: "stun_env \<Rightarrow> string \<Rightarrow> int \<Rightarrow> docs \<Rightarrow> docs" where
  "sync_stun_rule_target_port e i port d =
    (let raw = items (load_json d ''stun_rules.json'' (JObj [(''revision'', JInt 0), (''rules'', JList [])])); rules = dict_rows (dget raw ''rules'') in
     if i = [] \<or> \<not> list_ex (\<lambda>r. rid r = i \<and> int_or (dget r ''targetPort'') 0 \<noteq> port) rules then d
     else save_json d ''stun_rules.json'' (JObj (dmerge raw [(''rules'', JList (map JObj (map (retarget i port) rules))),
            (''revision'', JInt (int_or (dget raw ''revision'') 0 + 1)), (''updatedAt'', JStr (env_now_text e))])))"

definition validate_stun_binding :: "docs \<Rightarrow> string \<Rightarrow> int \<Rightarrow> string + unit" where
  "validate_stun_binding d i listen_port =
    (case stun_rule d i of
       None \<Rightarrow> Inl ''STUN rule does not exist''
     | Some r \<Rightarrow>
        if \<not> truthy (dget_or r ''enabled'' (JBool False)) then Inl ''STUN rule must be enabled''
        else if lower (text_of (dget r ''kind'')) \<noteq> ''stun'' then Inl ''STUN rule has the wrong kind''
        else if proto_of r \<noteq> ''UDP'' then Inl ''STUN rule must be UDP''
        else if text_of (dget r ''forwardMode'') \<noteq> ''router_native'' then Inl ''STUN rule must be router-native''
        else if int_or (dget r ''targetPort'') 0 \<noteq> listen_port then Inl ''target port must equal the listen port''
        else (case ip_address (text_of (dget r ''targetIpv4'')) of
                Some (V4 n) \<Rightarrow> if ipv4_is_private n then Inr () else Inl ''target must be a private IPv4''
              | _ \<Rightarrow> Inl ''target must be a private IPv4''))"

section \<open>Cleaning the server\<close>

definition check :: "bool \<Rightarrow> string \<Rightarrow> ('s, wg_error, unit) op" where
  "check b m = guard b (Rejected m)"

definition lift_err :: "string + 'a \<Rightarrow> ('s, wg_error, 'a) op" where
  "lift_err r = pure (map_sum Rejected id r)"

definition iterate :: "json \<Rightarrow> ('s, wg_error, json list) op" where
  "iterate v = pure (case py_iter v of Inl _ \<Rightarrow> Inl (Rejected ''not iterable'') | Inr xs \<Rightarrow> Inr xs)"

definition id_ok :: "nat \<Rightarrow> string \<Rightarrow> bool" where
  "id_ok n s = (s \<noteq> [] \<and> length s \<le> n \<and> list_all is_word_char s)"

definition interface_name_ok :: "string \<Rightarrow> bool" where
  "interface_name_ok s = (s \<noteq> [] \<and> length s \<le> 15 \<and> list_all (\<lambda>c. is_word_char c \<or> c = CHR ''.'') s \<and> s \<noteq> ''lo'')"

fun clean_allowed :: "json list \<Rightarrow> string + string list" where
  "clean_allowed [] = Inr []"
| "clean_allowed (v # vs) = (case ip_network (text_of v) of None \<Rightarrow> Inl ''invalid AllowedIPs''
     | Some n \<Rightarrow> ebind (clean_allowed vs) (\<lambda>ns. Inr (n # ns)))"

text \<open>One turn of the loop over the peers; \<open>done\<close> are the peers accepted so far.\<close>

definition clean_peer :: "stun_env \<Rightarrow> row list \<Rightarrow> json \<Rightarrow> ('s, wg_error, row list) op" where
  "clean_peer e done raw =
    sbind (check (is_dict raw) ''invalid peer'') (\<lambda>_.
    let r = items raw; pid = text_or (text_of (dget r ''id'')) (''peer-'' @ env_fresh e (length done)) in
    sbind (check (id_ok 48 pid \<and> JStr pid \<notin> set (map (\<lambda>p. dget p ''id'') done)) ''peer id is invalid or repeated'') (\<lambda>_.
    sbind (lift_err (public_key (dget r ''publicKey''))) (\<lambda>key.
    sbind (check (JStr key \<notin> set (map (\<lambda>p. dget p ''publicKey'') done)) ''peer key is repeated'') (\<lambda>_.
    sbind (iterate (por (dget_or r ''allowedIps'' (JList [])) (JList []))) (\<lambda>vs.
    sbind (lift_err (clean_allowed vs)) (\<lambda>allowed.
    sbind (check (allowed \<noteq> []) ''peer needs AllowedIPs'') (\<lambda>_.
    let keepalive = int_or (dget r ''persistentKeepaliveSeconds'') 25 in
    sbind (check (0 \<le> keepalive \<and> keepalive \<le> 600) ''keepalive must be 0-600'') (\<lambda>_.
    ret (done @ [[(''id'', JStr pid), (''name'', JStr (text_or (take 64 (text_of (dget r ''name''))) pid)), (''publicKey'', JStr key),
      (''allowedIps'', JList (map JStr allowed)), (''persistentKeepaliveSeconds'', JInt keepalive)]])))))))))"

fun op_fold :: "('b \<Rightarrow> 'a \<Rightarrow> ('s, 'e, 'b) op) \<Rightarrow> 'b \<Rightarrow> 'a list \<Rightarrow> ('s, 'e, 'b) op" where
  "op_fold f acc [] = ret acc"
| "op_fold f acc (x # xs) = sbind (f acc x) (\<lambda>acc'. op_fold f acc' xs)"

definition old_profile :: "row \<Rightarrow> string \<Rightarrow> row" where
  "old_profile old i = (case map_of (dict_of (map (\<lambda>r. (rid r, r)) (dict_rows (por (dget old ''endpointProfiles'') (JList []))))) i of
     None \<Rightarrow> [] | Some r \<Rightarrow> r)"

definition profile_base :: "row \<Rightarrow> row \<Rightarrow> string \<Rightarrow> string \<Rightarrow> int \<Rightarrow> row" where
  "profile_base old r i source listen_port =
    (let op = old_profile old i in
     [(''id'', JStr i), (''name'', JStr (text_or (take 64 (text_of (dget r ''name''))) source)), (''endpointSource'', JStr source),
      (''enabled'', JBool (truthy (dget_or r ''enabled'' (JBool True)))), (''port'', JInt (int_or (dget r ''port'') listen_port)),
      (''endpointRevision'', JInt (max 0 (int_or (dget_or r ''endpointRevision'' (dget_or op ''endpointRevision'' (JInt 0))) 0))),
      (''resolvedEndpoint'', JStr (text_of (dget r ''resolvedEndpoint''))), (''forwardMode'', JStr (text_of (dget r ''forwardMode'')))])"

definition on_svc_docs :: "(docs \<Rightarrow> docs) \<Rightarrow> ('r, unit) wg_op" where
  "on_svc_docs f = modify (\<lambda>s. s\<lparr>sv_docs := f (sv_docs s)\<rparr>)"

definition clean_profile :: "stun_env \<Rightarrow> row \<Rightarrow> int \<Rightarrow> row list \<Rightarrow> json \<Rightarrow> ('r, row list) wg_op" where
  "clean_profile e old listen_port done raw =
    sbind (check (is_dict raw) ''invalid endpoint profile'') (\<lambda>_.
    let r = items raw; i = text_or (text_of (dget r ''id'')) (''endpoint-'' @ env_fresh e (length done)); source = lower (text_of (dget r ''endpointSource''));
        base = profile_base old r i source listen_port; port = int_or (dget r ''port'') listen_port in
    sbind (check (id_ok 48 i \<and> JStr i \<notin> set (map (\<lambda>p. dget p ''id'') done)) ''profile id is invalid or repeated'') (\<lambda>_.
    sbind (check (source = ''manual'' \<or> source = ''ddns'' \<or> source = ''stun'') ''unknown endpoint source'') (\<lambda>_.
    sbind (check (1 \<le> port \<and> port \<le> 65535) ''invalid endpoint port'') (\<lambda>_.
    if source = ''manual'' then
      sbind (check (text_of (dget r ''resolvedEndpoint'') \<noteq> []) ''manual profile needs an endpoint'') (\<lambda>_.
      ret (done @ [dmerge base [(''hostname'', JStr []), (''stunRuleId'', JStr []), (''bindingMode'', JStr ''manual''), (''owner'', JStr [])]]))
    else if source = ''ddns'' then
      (let hostname = rstrip_of (\<lambda>c. c = CHR ''.'') (lower (text_of (dget r ''hostname''))) in
       sbind (check (hostname \<noteq> [] \<and> length hostname \<le> 253 \<and> CHR '':'' \<notin> set hostname) ''DDNS profile needs a host name'') (\<lambda>_.
       ret (done @ [dmerge base [(''port'', JInt listen_port), (''hostname'', JStr hostname), (''stunRuleId'', JStr []),
         (''bindingMode'', JStr ''fixed-port''), (''owner'', JStr (''ddns:'' @ i))]])))
    else
      (let sid = text_of (dget r ''stunRuleId''); old_port = int_or (dget old ''listenPort'') 0 in
       sbind (check (text_of (dget r ''hostname'') = []) ''STUN profile has no host name'') (\<lambda>_.
       sbind (check (id_ok 64 sid) ''STUN profile needs a rule'') (\<lambda>_.
       sbind (modify (\<lambda>s. if old \<noteq> [] \<and> old_port \<noteq> listen_port
              \<and> (case stun_rule (sv_docs s) sid of None \<Rightarrow> False | Some x \<Rightarrow> x \<noteq> [] \<and> int_or (dget x ''targetPort'') 0 = old_port)
            then s\<lparr>sv_docs := sync_stun_rule_target_port e sid listen_port (sv_docs s)\<rparr> else s)) (\<lambda>_.
       sbind (gets (\<lambda>s. validate_stun_binding (sv_docs s) sid listen_port)) (\<lambda>v. sbind (lift_err v) (\<lambda>_.
       ret (done @ [dmerge base [(''hostname'', JStr []), (''stunRuleId'', JStr sid), (''bindingMode'', JStr ''router-native''),
         (''forwardMode'', JStr ''router_native''), (''transportProtocol'', JStr ''UDP''), (''localTargetPort'', JInt listen_port),
         (''owner'', JStr (''stun:'' @ sid))]])))))))))))"

definition clean_server :: "stun_env \<Rightarrow> row \<Rightarrow> row \<Rightarrow> ('r, row) wg_op" where
  "clean_server e payload old =
    sbind (check (\<not> has_secret (JObj payload)) ''private keys stay with the agent'') (\<lambda>_.
    let name = text_of (por (dget payload ''interfaceName'') (por (dget old ''interfaceName'') (JStr ''labwg0'')));
        address = text_of (por (dget payload ''address'') (por (dget old ''address'') (JStr ''10.77.0.1/24'')));
        listen_port = int_or (dget payload ''listenPort'') (int_or (dget old ''listenPort'') 51820);
        mtu = int_or (dget payload ''mtu'') (int_or (dget old ''mtu'') 1420) in
    sbind (check (interface_name_ok name) ''interface name is invalid'') (\<lambda>_.
    sbind (check (case ip_interface_v4 address of None \<Rightarrow> False | Some (n, p) \<Rightarrow> ipv4_is_private n) ''server address must be a private IPv4'') (\<lambda>_.
    sbind (check (1 \<le> listen_port \<and> listen_port \<le> 65535) ''listen port is invalid'') (\<lambda>_.
    sbind (iterate (por (dget_or payload ''peers'' (dget_or old ''peers'' (JList []))) (JList []))) (\<lambda>raw_peers.
    sbind (op_fold (clean_peer e) [] raw_peers) (\<lambda>peers.
    sbind (check (length peers \<le> 64) ''too many peers'') (\<lambda>_.
    sbind (iterate (por (dget_or payload ''endpointProfiles'' (dget_or old ''endpointProfiles'' (JList []))) (JList []))) (\<lambda>raw_profiles.
    sbind (op_fold (clean_profile e old listen_port) [] raw_profiles) (\<lambda>profiles.
    sbind (check (1280 \<le> mtu \<and> mtu \<le> 1500) ''MTU must be 1280-1500'') (\<lambda>_.
    ret [(''interfaceName'', JStr name), (''address'', JStr (interface_str_v4 (the (ip_interface_v4 address)))), (''listenPort'', JInt listen_port),
      (''mtu'', JInt mtu), (''enabled'', JBool (truthy (dget_or payload ''enabled'' (dget_or old ''enabled'' (JBool True))))),
      (''peers'', JList (map JObj peers)), (''endpointProfiles'', JList (map JObj profiles))]))))))))))"

section \<open>Firewall rules of the server\<close>

definition lan_id :: "row \<Rightarrow> string" where
  "lan_id server = ''wireguard-lan-'' @ text_or (text_of (dget server ''interfaceName'')) ''labwg0''"

definition server_enabled :: "row \<Rightarrow> bool" where
  "server_enabled r = truthy (dget_or r ''enabled'' (JBool True))"

definition wireguard_lan_firewall_rule :: "row \<Rightarrow> string + row" where
  "wireguard_lan_firewall_rule server = (case ip_network (text_of (dget server ''address'')) of
     None \<Rightarrow> Inl ''server address is invalid''
   | Some net \<Rightarrow> Inr [(''id'', JStr (lan_id server)), (''kind'', JStr ''wireguard-lan-forward''), (''firewallMode'', JStr ''wireguard_lan_forward''),
       (''enabled'', JBool (server_enabled server)), (''tunnelNetwork'', JStr net), (''transportProtocol'', JStr ''ALL''),
       (''listenPort'', JInt (int_or (dget server ''listenPort'') 0))])"

text \<open>A rule that is still ours but differs is removed and created again.\<close>

definition ensure_or_recreate :: "'r router_client \<Rightarrow> stun_env \<Rightarrow> (string \<Rightarrow> string) \<Rightarrow> string \<Rightarrow> row \<Rightarrow> ('r, row) svc_op" where
  "ensure_or_recreate cl e digest i rule =
    sbind (ensure_firewall cl e digest rule) (\<lambda>res.
    if text_of (dget res ''state'') = ''verify_failed''
    then sbind (remove_firewall cl e digest i) (\<lambda>_. ensure_firewall cl e digest rule) else ret res)"

definition not_required :: "string \<Rightarrow> row" where
  "not_required i = [(''state'', JStr ''not_required''), (''ruleId'', JStr i)]"

definition ensure_wireguard_lan_firewall :: "'r router_client \<Rightarrow> stun_env \<Rightarrow> (string \<Rightarrow> string) \<Rightarrow> row \<Rightarrow> ('r, row) svc_op" where
  "ensure_wireguard_lan_firewall cl e digest server = rescue
    (sbind (pure (wireguard_lan_firewall_rule server)) (\<lambda>rule.
     let i = lan_id server in
     if \<not> server_enabled server then sbind (remove_firewall cl e digest i) (\<lambda>_. ret (not_required i))
     else sbind (ensure_or_recreate cl e digest i rule) (\<lambda>res.
       ret (dmerge res [(''ruleId'', JStr i), (''sourceNetwork'', dget rule ''tunnelNetwork'')]))))
    (\<lambda>msg. ret (svc_state_row ''error'' msg))"

definition remove_wireguard_lan_firewall :: "'r router_client \<Rightarrow> stun_env \<Rightarrow> (string \<Rightarrow> string) \<Rightarrow> row \<Rightarrow> ('r, unit) svc_op" where
  "remove_wireguard_lan_firewall cl e digest server = (if server = [] then ret () else rescue
    (sbind (pure (wireguard_lan_firewall_rule server)) (\<lambda>_. remove_firewall cl e digest (lan_id server))) (\<lambda>_. ret ()))"

definition sync_wireguard_lan_firewall :: "'r router_client \<Rightarrow> stun_env \<Rightarrow> (string \<Rightarrow> string) \<Rightarrow> row \<Rightarrow> row \<Rightarrow> ('r, row) svc_op" where
  "sync_wireguard_lan_firewall cl e digest old server =
    sbind (rescue
      (sbind (if old = [] then ret [] else sbind (pure (wireguard_lan_firewall_rule old)) (\<lambda>_. ret (lan_id old))) (\<lambda>old_id.
       sbind (pure (wireguard_lan_firewall_rule server)) (\<lambda>_.
       if old_id \<noteq> [] \<and> old_id \<noteq> lan_id server then remove_firewall cl e digest old_id else ret ())))
      (\<lambda>_. ret ())) (\<lambda>_.
    ensure_wireguard_lan_firewall cl e digest server)"

definition lan_forward_state :: "docs \<Rightarrow> row \<Rightarrow> string" where
  "lan_forward_state d server =
    (let b = owned_row FIREWALL (lan_id server) d in
     if text_of (dget b ''uuid'') \<noteq> [] \<and> text_of (dget b ''fingerprint'') \<noteq> [] \<and> server_enabled server then ''ready''
     else if \<not> server_enabled server then ''not_required'' else ''pending'')"

definition lan_forward_status :: "docs \<Rightarrow> row option \<Rightarrow> string + row" where
  "lan_forward_status d given =
    (case (case given of None \<Rightarrow> wd_server (wg_document d) | Some s \<Rightarrow> Some s) of
       None \<Rightarrow> Inr [(''state'', JStr ''not_configured''), (''firewall'', JObj [(''state'', JStr ''not_configured'')]), (''ipForward'', JObj [(''state'', JStr ''unknown'')])]
     | Some server \<Rightarrow> if server = [] then Inr [(''state'', JStr ''not_configured''), (''firewall'', JObj [(''state'', JStr ''not_configured'')]), (''ipForward'', JObj [(''state'', JStr ''unknown'')])]
         else ebind (wireguard_lan_firewall_rule server) (\<lambda>rule.
           let st = lan_forward_state d server in
           Inr [(''state'', JStr st), (''firewall'', JObj [(''state'', JStr st), (''ruleId'', dget rule ''id''), (''sourceNetwork'', dget rule ''tunnelNetwork''),
                 (''direction'', JStr ''forward''), (''outIface'', JStr ''lan''), (''target'', JStr ''ACCEPT'')]),
                (''ipForward'', JObj [(''state'', JStr ''unknown'')])]))"

subsection \<open>Endpoint profiles that follow DDNS\<close>

definition ddns_id :: "row \<Rightarrow> string" where
  "ddns_id profile = ''wireguard-ddns-'' @ rid profile"

definition ddns_firewall_rule :: "row \<Rightarrow> row \<Rightarrow> row" where
  "ddns_firewall_rule profile server =
    [(''id'', JStr (ddns_id profile)), (''kind'', JStr ''wireguard''), (''enabled'', JBool (server_enabled server \<and> server_enabled profile)),
     (''listenPort'', JInt (int_or (dget server ''listenPort'') 0)), (''transportProtocol'', JStr ''UDP''),
     (''targetPort'', JInt (int_or (dget server ''listenPort'') 0)), (''forwardMode'', JStr ''router_native'')]"

definition ensure_ddns_firewall :: "'r router_client \<Rightarrow> stun_env \<Rightarrow> (string \<Rightarrow> string) \<Rightarrow> row \<Rightarrow> row \<Rightarrow> ('r, row) svc_op" where
  "ensure_ddns_firewall cl e digest server profile = rescue
    (let i = ddns_id profile in
     if \<not> server_enabled server \<or> \<not> server_enabled profile then sbind (remove_firewall cl e digest i) (\<lambda>_. ret (not_required i))
     else ensure_or_recreate cl e digest i (ddns_firewall_rule profile server))
    (\<lambda>msg. ret (svc_state_row ''error'' msg))"

definition remove_ddns_firewall :: "'r router_client \<Rightarrow> stun_env \<Rightarrow> (string \<Rightarrow> string) \<Rightarrow> row \<Rightarrow> ('r, unit) svc_op" where
  "remove_ddns_firewall cl e digest profile = rescue (remove_firewall cl e digest (ddns_id profile)) (\<lambda>_. ret ())"

definition ddns_profiles :: "row \<Rightarrow> row list" where
  "ddns_profiles server = filter (\<lambda>r. lower (text_of (dget r ''endpointSource'')) = ''ddns'') (dict_rows (dget server ''endpointProfiles''))"

definition profiles_by_id :: "row \<Rightarrow> (string \<times> row) list" where
  "profiles_by_id server = dict_of (map (\<lambda>r. (rid r, r)) (ddns_profiles server))"

definition sync_ddns_firewalls :: "'r router_client \<Rightarrow> stun_env \<Rightarrow> (string \<Rightarrow> string) \<Rightarrow> row \<Rightarrow> row \<Rightarrow> ('r, unit) svc_op" where
  "sync_ddns_firewalls cl e digest old server =
    sbind (op_fold (\<lambda>_ (i, p). if map_of (profiles_by_id server) i = None then remove_ddns_firewall cl e digest p else ret ()) () (profiles_by_id old)) (\<lambda>_.
    op_fold (\<lambda>_ (i, p). sbind (ensure_ddns_firewall cl e digest server p) (\<lambda>_. ret ())) () (profiles_by_id server))"

text \<open>The caller of these operations logs an error and goes on.\<close>

definition attempt :: "('r, 'a) svc_op \<Rightarrow> ('r, unit) wg_op" where
  "attempt m s = (Inr (), snd (m s))"

section \<open>The command queue\<close>

definition wg_router_name :: "stun_env \<Rightarrow> string" where
  "wg_router_name e = strip (env_router e)"

definition superseded :: "string \<Rightarrow> string \<Rightarrow> int \<Rightarrow> row \<Rightarrow> bool" where
  "superseded router scope rev_no c = (dget c ''router'' = JStr router
     \<and> text_of (dget c ''revisionScope'') \<in> {[], scope} \<and> int_or (dget c ''revision'') 0 \<le> rev_no \<and> outstanding c)"

definition new_wg_command :: "stun_env \<Rightarrow> string \<Rightarrow> string \<Rightarrow> int \<Rightarrow> string \<Rightarrow> row \<Rightarrow> row" where
  "new_wg_command e router action rev_no scope payload =
    [(''id'', JStr (''wg-cmd-'' @ env_fresh e 0)), (''router'', JStr router), (''action'', JStr action), (''revision'', JInt rev_no),
     (''revisionScope'', JStr scope), (''payload'', JObj (dset ''revision'' (JInt rev_no) payload)), (''status'', JStr ''pending''),
     (''attempts'', JInt 0), (''createdAt'', JStr (env_now_text e))]"

definition queue_wg_rows :: "stun_env \<Rightarrow> string \<Rightarrow> string \<Rightarrow> int \<Rightarrow> string \<Rightarrow> row \<Rightarrow> row list \<Rightarrow> row list" where
  "queue_wg_rows e router action rev_no scope payload rows =
     take_last 500 (filter (\<lambda>c. \<not> superseded router scope rev_no c) rows @ [new_wg_command e router action rev_no scope payload])"

definition queue_wg :: "stun_env \<Rightarrow> string \<Rightarrow> int \<Rightarrow> row \<Rightarrow> string \<Rightarrow> string \<Rightarrow> docs \<Rightarrow> docs" where
  "queue_wg e action rev_no payload router scope d = save_commands ''wireguard_commands.json''
     (queue_wg_rows e (text_or router (text_or (wg_router_name e) ''router'')) action rev_no scope payload (commands_of ''wireguard_commands.json'' d)) d"

section \<open>Changing the server\<close>

definition some_row :: "row option \<Rightarrow> row" where
  "some_row r = (case r of None \<Rightarrow> [] | Some d \<Rightarrow> d)"

definition expect_revision :: "int option \<Rightarrow> wg_doc \<Rightarrow> ('r, unit) wg_op" where
  "expect_revision expected doc = guard (expected = None \<or> expected = Some (wd_revision doc)) (Conflict ''revision conflict'')"

definition new_revision :: "stun_env \<Rightarrow> wg_doc \<Rightarrow> row \<Rightarrow> wg_doc" where
  "new_revision e doc server = doc\<lparr>wd_revision := wd_revision doc + 1, wd_updatedAt := env_now_text e,
     wd_server := Some (dset ''revision'' (JInt (wd_revision doc + 1)) server), wd_tombstone := None\<rparr>"

definition wg_put :: "'r router_client \<Rightarrow> stun_env \<Rightarrow> (string \<Rightarrow> string) \<Rightarrow> row \<Rightarrow> int option \<Rightarrow> ('r, wg_doc) wg_op" where
  "wg_put cl e digest payload expected =
    sbind (gets (\<lambda>s. wg_document (sv_docs s))) (\<lambda>doc.
    sbind (expect_revision expected doc) (\<lambda>_.
    sbind (clean_server e payload (some_row (wd_server doc))) (\<lambda>cleaned.
    let saved = new_revision e doc cleaned; server = some_row (wd_server saved) in
    sbind (save_document saved) (\<lambda>_.
    sbind (on_svc_docs (queue_wg e ''apply'' (wd_revision saved) [(''server'', JObj server)] [] ''server'')) (\<lambda>_.
    sbind (attempt (sync_ddns_firewalls cl e digest (some_row (wd_server doc)) server)) (\<lambda>_.
    sbind (attempt (sync_wireguard_lan_firewall cl e digest (some_row (wd_server doc)) server)) (\<lambda>_.
    ret saved)))))))"

definition tombstone_of :: "stun_env \<Rightarrow> wg_doc \<Rightarrow> row" where
  "tombstone_of e doc = [(''revision'', JInt (wd_revision doc + 1)), (''deletedAt'', JStr (env_now_text e)),
     (''interfaceName'', JStr (text_or (text_of (dget (some_row (wd_server doc)) ''interfaceName'')) ''labwg0''))]"

definition wg_delete :: "'r router_client \<Rightarrow> stun_env \<Rightarrow> (string \<Rightarrow> string) \<Rightarrow> int option \<Rightarrow> ('r, wg_doc) wg_op" where
  "wg_delete cl e digest expected =
    sbind (gets (\<lambda>s. wg_document (sv_docs s))) (\<lambda>doc.
    sbind (expect_revision expected doc) (\<lambda>_.
    let old = some_row (wd_server doc); tombstone = tombstone_of e doc;
        saved = doc\<lparr>wd_revision := wd_revision doc + 1, wd_updatedAt := env_now_text e, wd_server := None, wd_tombstone := Some tombstone\<rparr> in
    sbind (save_document saved) (\<lambda>_.
    sbind (on_svc_docs (queue_wg e ''delete'' (wd_revision saved)
             [(''interfaceName'', dget tombstone ''interfaceName''), (''tombstone'', JBool True)] [] ''server'')) (\<lambda>_.
    sbind (attempt (op_fold (\<lambda>_ p. remove_ddns_firewall cl e digest p) () (ddns_profiles old))) (\<lambda>_.
    sbind (attempt (remove_wireguard_lan_firewall cl e digest old)) (\<lambda>_.
    ret saved))))))"

subsection \<open>Endpoints\<close>

definition stun_endpoint_ok :: "string \<Rightarrow> bool" where
  "stun_endpoint_ok s = (CHR '':'' \<in> set s \<and>
    (case rsplit1 (CHR '':'') s of (host, port) \<Rightarrow>
      ip_address (strip_of (\<lambda>c. c = CHR ''['' \<or> c = CHR '']'') host) \<noteq> None
      \<and> (case py_int port of None \<Rightarrow> False | Some n \<Rightarrow> 1 \<le> n \<and> n \<le> 65535)))"

definition full_endpoint :: "string \<Rightarrow> row \<Rightarrow> string \<Rightarrow> string" where
  "full_endpoint source profile endpoint =
    (if source = ''ddns'' \<and> endpoint \<noteq> [] \<and> CHR '':'' \<notin> set endpoint then endpoint @ '':'' @ py_str (dget profile ''port'') else endpoint)"

fun update_first :: "('a \<Rightarrow> bool) \<Rightarrow> ('a \<Rightarrow> 'a) \<Rightarrow> 'a list \<Rightarrow> 'a list" where
  "update_first P f [] = []"
| "update_first P f (x # xs) = (if P x then f x # xs else x # update_first P f xs)"

definition moved_profile :: "stun_env \<Rightarrow> string \<Rightarrow> row \<Rightarrow> row" where
  "moved_profile e endpoint profile = dmerge profile [(''resolvedEndpoint'', JStr endpoint),
     (''endpointRevision'', JInt (int_or (dget profile ''endpointRevision'') 0 + 1)), (''endpointUpdatedAt'', JStr (env_now_text e))]"

definition moved_document :: "stun_env \<Rightarrow> string \<Rightarrow> string \<Rightarrow> wg_doc \<Rightarrow> wg_doc" where
  "moved_document e pid endpoint doc =
    (let server = some_row (wd_server doc);
         profiles = update_first (\<lambda>r. rid r = pid) (moved_profile e endpoint) (dict_rows (dget server ''endpointProfiles'')) in
     doc\<lparr>wd_server := Some (dset ''endpointProfiles'' (JList (map JObj profiles)) server), wd_endpointRevision := wd_endpointRevision doc + 1,
         wd_updatedAt := env_now_text e\<rparr>)"

text \<open>The arguments are texts of the request, stripped; \<open>source\<close> is compared with the profile in lower case, but the
  branches for STUN and DDNS test it as given.\<close>

definition update_endpoint :: "stun_env \<Rightarrow> string \<Rightarrow> string \<Rightarrow> string \<Rightarrow> string \<Rightarrow> int option \<Rightarrow> ('r, row) wg_op" where
  "update_endpoint e pid source owner endpoint expected =
    sbind (gets (\<lambda>s. wg_document (sv_docs s))) (\<lambda>doc.
    case List.find (\<lambda>r. rid r = pid) (dict_rows (dget (some_row (wd_server doc)) ''endpointProfiles'')) of
      None \<Rightarrow> fail (Rejected ''endpoint profile not found'')
    | Some profile \<Rightarrow>
       sbind (check (text_of (dget profile ''endpointSource'') \<noteq> ''manual'') ''manual endpoint profile'') (\<lambda>_.
       sbind (check (text_of (dget profile ''endpointSource'') = lower source) ''endpoint updater does not own this profile'') (\<lambda>_.
       sbind (check (owner \<noteq> [] \<and> text_of (dget profile ''owner'') = strip owner) ''endpoint owner does not match this profile'') (\<lambda>_.
       let current = int_or (dget profile ''endpointRevision'') 0 in
       sbind (check (expected \<noteq> None) ''expectedEndpointRevision is required'') (\<lambda>_.
       sbind (guard (expected = Some current) (Conflict ''endpoint revision conflict'')) (\<lambda>_.
       sbind (check (source = ''stun'' \<longrightarrow> stun_endpoint_ok endpoint) ''STUN endpoint needs an address and a port'') (\<lambda>_.
       let full = full_endpoint source profile endpoint in
       sbind (save_document (moved_document e pid full doc)) (\<lambda>_.
       sbind (on_svc_docs (queue_wg e ''endpoint'' (current + 1)
         [(''profileId'', JStr pid), (''endpointSource'', JStr source), (''owner'', JStr owner), (''endpoint'', JStr full),
          (''expectedEndpointRevision'', JInt current), (''endpointRevision'', JInt (current + 1))] [] (''endpoint:'' @ pid))) (\<lambda>_.
       ret (moved_profile e full profile))))))))))"

section \<open>Requests\<close>

datatype wg_reply = WgUnauthorized | WgConflict string "int option" | WgBad string | WgDone wg_doc row | WgProfile row int

definition wg_answer :: "('r, wg_doc) wg_op \<Rightarrow> 'r svc_state \<Rightarrow> wg_reply \<times> 'r svc_state" where
  "wg_answer m s = (case m s of
     (Inl (Conflict msg), t) \<Rightarrow> (WgConflict msg (Some (wd_revision (wg_document (sv_docs t)))), t)
   | (Inl (Rejected msg), t) \<Rightarrow> (WgBad msg, t)
   | (Inr doc, t) \<Rightarrow> (case lan_forward_status (sv_docs t) (wd_server doc) of Inl msg \<Rightarrow> WgBad msg | Inr st \<Rightarrow> WgDone doc st, t))"

definition expected_of :: "row \<Rightarrow> string \<Rightarrow> int option" where
  "expected_of payload k = (if dget payload k = JNull then None else Some (int_or (dget payload k) 0))"

definition server_get :: "bool \<Rightarrow> docs \<Rightarrow> (wg_doc \<times> row \<times> (string + row)) option" where
  "server_get authorized d = (if \<not> authorized then None else
     let doc = wg_document d in Some (doc, items (load_json d ''wireguard_agent_status.json'' (JObj [])), lan_forward_status d (wd_server doc)))"

definition server_request :: "'r router_client \<Rightarrow> stun_env \<Rightarrow> (string \<Rightarrow> string) \<Rightarrow> bool \<Rightarrow> bool \<Rightarrow> row \<Rightarrow> 'r svc_state \<Rightarrow> wg_reply \<times> 'r svc_state" where
  "server_request cl e digest authorized deleting payload s =
    (if \<not> authorized then (WgUnauthorized, s) else
     wg_answer (if deleting then wg_delete cl e digest (expected_of payload ''expectedRevision'')
                else wg_put cl e digest payload (expected_of payload ''expectedRevision'')) s)"

definition endpoint_request :: "stun_env \<Rightarrow> bool \<Rightarrow> string \<Rightarrow> row \<Rightarrow> 'r svc_state \<Rightarrow> wg_reply \<times> 'r svc_state" where
  "endpoint_request e authorized pid payload s =
    (if \<not> authorized then (WgUnauthorized, s) else
     case update_endpoint e pid (text_of (dget payload ''endpointSource'')) (text_of (dget payload ''owner'')) (text_of (dget payload ''endpoint''))
            (expected_of payload ''expectedEndpointRevision'') s of
       (Inl (Conflict msg), t) \<Rightarrow> (WgConflict msg None, t)
     | (Inl (Rejected msg), t) \<Rightarrow> (WgBad msg, t)
     | (Inr profile, t) \<Rightarrow> (WgProfile profile (wd_endpointRevision (wg_document (sv_docs t))), t))"

definition wg_agent_commands :: "stun_env \<Rightarrow> bool \<Rightarrow> json \<Rightarrow> json \<Rightarrow> docs \<Rightarrow> json list option \<times> docs" where
  "wg_agent_commands e authorized router_arg limit_arg d =
    (if \<not> authorized then (None, d) else
     let limit = nat (clamp 1 20 (int_or limit_arg 10));
         (rows, sel) = deliver_commands service_num (text_or (text_of router_arg) (wg_router_name e)) limit (env_now e) (env_now_text e)
                         (commands_of ''wireguard_commands.json'' d)
     in (Some (map (command_view [''id'', ''action'', ''revision'', ''payload'', ''createdAt'']) sel),
         if sel = [] then d else save_commands ''wireguard_commands.json'' rows d))"

definition close_wg :: "stun_env \<Rightarrow> row \<Rightarrow> row \<Rightarrow> row" where
  "close_wg e a r = dset ''finishedAt'' (JStr (env_now_text e)) (close_command a r)"

definition wg_agent_ack :: "stun_env \<Rightarrow> bool \<Rightarrow> row \<Rightarrow> docs \<Rightarrow> nat option \<times> docs" where
  "wg_agent_ack e authorized payload d =
    (if \<not> authorized then (None, d) else
     case ack_rows text_of (close_wg e) (dget payload ''acks'') (commands_of ''wireguard_commands.json'' d) of
       (rows, n) \<Rightarrow> (Some n, if n = 0 then d else save_commands ''wireguard_commands.json'' rows d))"

text \<open>The answer is the status code and the revision the agent should have.\<close>

definition wg_agent_status :: "stun_env \<Rightarrow> bool \<Rightarrow> json \<Rightarrow> row \<Rightarrow> docs \<Rightarrow> (int \<times> int) \<times> docs" where
  "wg_agent_status e authorized router_arg payload d =
    (if \<not> authorized then ((401, 0), d)
     else if has_secret (JObj payload) then ((400, 0), d)
     else
      let router = text_or (text_of router_arg) (wg_router_name e);
          d1 = save_json d ''wireguard_agent_status.json'' (JObj (dmerge [(''router'', JStr router), (''receivedAt'', JStr (env_now_text e)),
                 (''receivedEpoch'', JInt (env_now e))] payload));
          doc = wg_document d1 in
      ((200, wd_revision doc),
       if wd_revision doc \<le> int_or (dget payload ''revision'') 0 then d1
       else if some_row (wd_server doc) \<noteq> [] then queue_wg e ''apply'' (wd_revision doc) [(''server'', JObj (some_row (wd_server doc)))] router ''server'' d1
       else if some_row (wd_tombstone doc) \<noteq> [] then
         queue_wg e ''delete'' (wd_revision doc) (dset ''tombstone'' (JBool True) (some_row (wd_tombstone doc))) router ''server'' d1
       else d1))"

end
