(* ===== verification/WireguardRuns.thy ===== *)
theory WireguardRuns
  imports Wireguard StunApi
begin

text \<open>
  Properties of the WireGuard service over runs of requests: the revision protocol, secrets, the command that the
  router still has to execute, and what a rejected request leaves behind.
\<close>

section \<open>Which documents an operation writes\<close>

abbreviation DOC :: string where "DOC \<equiv> ''wireguard_server.json''"
abbreviation COMMANDS :: string where "COMMANDS \<equiv> ''wireguard_commands.json''"
abbreviation STATUS :: string where "STATUS \<equiv> ''wireguard_agent_status.json''"

definition only :: "string set \<Rightarrow> 'r svc_state \<Rightarrow> 'r svc_state \<Rightarrow> bool" where
  "only ks s t = (\<forall>k. k \<notin> ks \<longrightarrow> sv_docs t k = sv_docs s k)"

lemma only_refl [simp]: "only ks s s"
  by (simp add: only_def)

lemma only_reflp [simp]: "reflp (only ks)"
  by (simp add: reflp_def)

lemma only_transp [simp]: "transp (only ks)"
  by (auto simp: transp_def only_def)

lemma only_mono: "only ks s t \<Longrightarrow> ks \<subseteq> ls \<Longrightarrow> only ls s t"
  by (auto simp: only_def)

lemmas footprint = steps_by_bind [OF only_transp] steps_by_rescue [OF only_transp]

lemma only_pure [simp]: "steps_by (only ks) (ret a)" "steps_by (only ks) (fail x)" "steps_by (only ks) (gets g)"
    "steps_by (only ks) (pure r)" "steps_by (only ks) (guard b y)" "steps_by (only ks) (check b z)" "steps_by (only ks) (lift_err q)"
    "steps_by (only ks) (iterate v)"
  by (simp_all add: op_keeps check_def lift_err_def iterate_def)

lemma only_call [simp]: "steps_by (only ks) (svc_call c f)" "steps_by (only ks) (get_native cl)" "steps_by (only ks) (get_firewall cl)"
    "steps_by (only ks) (call_rpc cl m module p)"
  by (auto simp: steps_by_def only_def svc_call_def get_native_def get_firewall_def call_rpc_def split: prod.split)

lemma only_docs: "(\<And>d k. k \<notin> ks \<Longrightarrow> f d k = d k) \<Longrightarrow> steps_by (only ks) (on_docs f)"
    "(\<And>d k. k \<notin> ks \<Longrightarrow> f d k = d k) \<Longrightarrow> steps_by (only ks) (on_svc_docs f)"
  by (auto simp: steps_by_def only_def on_docs_def on_svc_docs_def modify_def)

lemma save_owned_other: "k \<noteq> key \<Longrightarrow> save_owned e key rows d k = d k"
  by (simp add: save_owned_def)

lemma only_write: "steps_by (only ks) w \<Longrightarrow> steps_by (only ks) r \<Longrightarrow> steps_by (only ks) (write_and_verify w r)"
  unfolding write_and_verify_def by (auto intro!: footprint)

lemma only_firewall:
  "steps_by (only {FIREWALL}) (ensure_firewall cl e digest rule)" "steps_by (only {FIREWALL}) (remove_firewall cl e digest i)"
proof -
  have r: "steps_by (only {FIREWALL}) (firewall_ready e digest rule r)" for r
    unfolding firewall_ready_def Let_def
    by (intro footprint only_docs) (simp_all add: set_owned_def save_owned_other)
  have d: "steps_by (only {FIREWALL}) (on_docs (drop_owned e FIREWALL i))"
    by (intro only_docs) (simp add: drop_owned_def save_owned_other)
  have a: "steps_by (only {FIREWALL}) (add_firewall cl e digest rule)"
    unfolding add_firewall_def by (auto intro!: footprint only_write r split: option.split)
  show "steps_by (only {FIREWALL}) (ensure_firewall cl e digest rule)"
    unfolding ensure_firewall_def by (auto intro!: footprint a r split: option.split)
  show "steps_by (only {FIREWALL}) (remove_firewall cl e digest i)"
    unfolding remove_firewall_def
    by (auto intro!: footprint only_write d split: option.split)
qed

lemma only_recreate: "steps_by (only {FIREWALL}) (ensure_or_recreate cl e digest i rule)"
  unfolding ensure_or_recreate_def by (auto intro!: footprint only_firewall)

lemma only_fold: "(\<And>acc x. steps_by (only ks) (f acc x)) \<Longrightarrow> steps_by (only ks) (op_fold f acc xs)"
  by (induction xs arbitrary: acc) (auto intro!: footprint)

lemma only_sync:
  "steps_by (only {FIREWALL}) (ensure_wireguard_lan_firewall cl e digest server)"
  "steps_by (only {FIREWALL}) (remove_wireguard_lan_firewall cl e digest server)"
  "steps_by (only {FIREWALL}) (ensure_ddns_firewall cl e digest server profile)"
  "steps_by (only {FIREWALL}) (remove_ddns_firewall cl e digest profile)"
  unfolding ensure_wireguard_lan_firewall_def remove_wireguard_lan_firewall_def ensure_ddns_firewall_def remove_ddns_firewall_def Let_def
  by (auto intro!: footprint only_firewall only_recreate)

lemma only_syncs:
  "steps_by (only {FIREWALL}) (sync_wireguard_lan_firewall cl e digest old server)"
  "steps_by (only {FIREWALL}) (sync_ddns_firewalls cl e digest old server)"
  unfolding sync_wireguard_lan_firewall_def sync_ddns_firewalls_def
  by (auto intro!: footprint only_firewall only_sync only_fold)

lemma only_attempt: "steps_by (only ks) m \<Longrightarrow> steps_by (only ks) (attempt m)"
  by (simp add: steps_by_def attempt_def)

abbreviation RULES :: string where "RULES \<equiv> ''stun_rules.json''"

lemma sync_target_other: "k \<noteq> RULES \<Longrightarrow> sync_stun_rule_target_port e i port d k = d k"
  by (simp add: sync_stun_rule_target_port_def Let_def)

lemma only_clean: "steps_by (only {RULES}) (clean_server e payload old)"
proof -
  have p: "steps_by (only {RULES}) (clean_peer e acc raw)" for acc raw
    unfolding clean_peer_def Let_def by (auto intro!: footprint)
  have m: "steps_by (only {RULES}) (modify (\<lambda>s. if P s then s\<lparr>sv_docs := sync_stun_rule_target_port e i port (sv_docs s)\<rparr> else s))" for P i port
    by (simp add: steps_by_def modify_def only_def sync_target_other)
  have f: "steps_by (only {RULES}) (clean_profile e old listen_port acc raw)" for listen_port acc raw
    unfolding clean_profile_def Let_def by (auto intro!: footprint m)
  show ?thesis
    unfolding clean_server_def Let_def by (auto intro!: footprint only_fold p f)
qed

section \<open>What a request does to the documents\<close>

lemma opt_dict_json [simp]: "opt_dict (opt_json v) = v"
  by (cases v) (simp_all add: opt_dict_def opt_json_def)

lemma saved_document [simp]:
  "wd_revision (wg_document (save_json d DOC (wg_json w))) = max 0 (wd_revision w)"
  "wd_server (wg_document (save_json d DOC (wg_json w))) = wd_server w"
  "wd_tombstone (wg_document (save_json d DOC (wg_json w))) = wd_tombstone w"
  by (simp_all add: wg_document_def wg_json_def dget_def dget_or_def)

lemma wg_document_nonneg [simp]: "0 \<le> wd_revision (wg_document d)"
  by (simp add: wg_document_def Let_def)

lemma wg_document_cong: "d DOC = d' DOC \<Longrightarrow> wg_document d = wg_document d'"
  by (simp add: wg_document_def load_json_def)

lemma wg_commands_cong: "d COMMANDS = d' COMMANDS \<Longrightarrow> commands_of COMMANDS d = commands_of COMMANDS d'"
  by (simp add: commands_of_def load_json_def)

lemma saved_commands [simp]: "commands_of COMMANDS (save_commands COMMANDS rows d) = rows"
  by (simp add: commands_of_def save_commands_def dget_def dget_or_def)

lemma save_commands_other: "k \<noteq> key \<Longrightarrow> save_commands key rows d k = d k"
  by (simp add: save_commands_def)

text \<open>Every step after the document was saved leaves it, and its outcome cannot fail.\<close>

lemma attempt_steps: "attempt m s = (r, t) \<Longrightarrow> steps_by (only ks) m \<Longrightarrow> r = Inr () \<and> only ks s t"
  by (auto simp: attempt_def steps_by_def)

lemma attempt_not_error [simp]: "attempt m s = (Inl x, t) \<longleftrightarrow> False"
  by (simp add: attempt_def)

lemma save_document_eq [op_simps]:
  "save_document w s = (Inr u, t) \<longleftrightarrow> \<not> has_secret (wg_json w) \<and> t = s\<lparr>sv_docs := save_json (sv_docs s) DOC (wg_json w)\<rparr>"
  "save_document w s = (Inl x, t) \<longleftrightarrow> has_secret (wg_json w) \<and> x = Rejected ''private keys are not stored'' \<and> t = s"
  by (auto simp: save_document_def op_defs)

lemma on_svc_docs_eq [op_simps]:
  "on_svc_docs f s = (Inr u, t) \<longleftrightarrow> t = s\<lparr>sv_docs := f (sv_docs s)\<rparr>" "on_svc_docs f s = (Inl x, t) \<longleftrightarrow> False"
  by (auto simp: on_svc_docs_def op_defs)

lemma check_eq [op_simps]:
  "check b m s = (Inr u, t) \<longleftrightarrow> b \<and> t = s" "check b m s = (Inl x, t) \<longleftrightarrow> \<not> b \<and> x = Rejected m \<and> t = s"
  by (auto simp: check_def guard_eq)

definition target_router :: "stun_env \<Rightarrow> string" where
  "target_router e = text_or (wg_router_name e) ''router''"

text \<open>What a request that changes the desired state leaves: the document saved, one command queued, and nothing else of the
  service touched.\<close>

definition recorded :: "stun_env \<Rightarrow> string \<Rightarrow> int \<Rightarrow> string \<Rightarrow> row \<Rightarrow> wg_doc \<Rightarrow> docs \<Rightarrow> docs \<Rightarrow> bool" where
  "recorded e action rev_no scope payload saved d d' = (\<not> has_secret (wg_json saved) \<and> d' DOC = Some (wg_json saved)
     \<and> d' STATUS = d STATUS
     \<and> commands_of COMMANDS d' = queue_wg_rows e (target_router e) action rev_no scope payload (commands_of COMMANDS d))"

lemma recorded_document:
  assumes "recorded e action rev_no scope payload saved d d'"
  shows "wd_revision (wg_document d') = max 0 (wd_revision saved)" "wd_server (wg_document d') = wd_server saved"
    "wd_tombstone (wg_document d') = wd_tombstone saved"
proof -
  have "wg_document d' = wg_document (save_json d DOC (wg_json saved))"
    using assms by (intro wg_document_cong) (simp add: recorded_def)
  then show "wd_revision (wg_document d') = max 0 (wd_revision saved)" "wd_server (wg_document d') = wd_server saved"
    "wd_tombstone (wg_document d') = wd_tombstone saved" by simp_all
qed

lemma recorded_queue:
  assumes "\<not> has_secret (wg_json saved)" "d1 STATUS = d STATUS" "d1 COMMANDS = d COMMANDS"
    and "d' = queue_wg e action rev_no payload [] scope (save_json d1 DOC (wg_json saved))"
  shows "recorded e action rev_no scope payload saved d d'"
proof -
  have "commands_of COMMANDS (save_json d1 DOC (wg_json saved)) = commands_of COMMANDS d"
    using assms(3) by (intro wg_commands_cong) simp
  then show ?thesis
    using assms by (simp add: recorded_def queue_wg_def save_commands_other target_router_def text_or_def)
qed

lemma recorded_later:
  assumes "recorded e action rev_no scope payload saved d d1" "only {FIREWALL} s t" "sv_docs s = d1"
  shows "recorded e action rev_no scope payload saved d (sv_docs t)"
proof -
  have "sv_docs t DOC = d1 DOC" "sv_docs t STATUS = d1 STATUS" "sv_docs t COMMANDS = d1 COMMANDS"
    using assms(2,3) by (simp_all add: only_def)
  with assms(1) wg_commands_cong [of "sv_docs t" d1] show ?thesis by (simp add: recorded_def)
qed

lemma wg_put_ok:
  assumes "wg_put cl e digest payload expected s = (Inr saved, t)"
  obtains cleaned s1 where "clean_server e payload (some_row (wd_server (wg_document (sv_docs s)))) s = (Inr cleaned, s1)"
    "expected = None \<or> expected = Some (wd_revision (wg_document (sv_docs s)))"
    "saved = new_revision e (wg_document (sv_docs s)) cleaned"
    "recorded e ''apply'' (wd_revision saved) ''server'' [(''server'', JObj (some_row (wd_server saved)))] saved (sv_docs s) (sv_docs t)"
proof -
  let ?doc = "wg_document (sv_docs s)" and ?old = "some_row (wd_server (wg_document (sv_docs s)))"
  obtain cleaned s1 s2 s3 where c: "clean_server e payload ?old s = (Inr cleaned, s1)"
      "expected = None \<or> expected = Some (wd_revision ?doc)" "saved = new_revision e ?doc cleaned" "\<not> has_secret (wg_json saved)"
      "s2 = s1\<lparr>sv_docs := queue_wg e ''apply'' (wd_revision saved) [(''server'', JObj (some_row (wd_server saved)))] [] ''server''
              (save_json (sv_docs s1) DOC (wg_json saved))\<rparr>"
      "attempt (sync_ddns_firewalls cl e digest ?old (some_row (wd_server saved))) s2 = (Inr (), s3)"
      "attempt (sync_wireguard_lan_firewall cl e digest ?old (some_row (wd_server saved))) s3 = (Inr (), t)"
    using assms by (auto simp: wg_put_def Let_def expect_revision_def op_simps)
  have "only {RULES} s s1" using c(1) only_clean steps_byD by metis
  then have "sv_docs s1 STATUS = sv_docs s STATUS" "sv_docs s1 COMMANDS = sv_docs s COMMANDS" by (simp_all add: only_def)
  then have "recorded e ''apply'' (wd_revision saved) ''server'' [(''server'', JObj (some_row (wd_server saved)))] saved (sv_docs s) (sv_docs s2)"
    using c(4,5) by (intro recorded_queue) simp_all
  moreover have "only {FIREWALL} s2 s3" "only {FIREWALL} s3 t"
    using attempt_steps [OF c(6) only_syncs(2)] attempt_steps [OF c(7) only_syncs(1)] by simp_all
  ultimately have "recorded e ''apply'' (wd_revision saved) ''server'' [(''server'', JObj (some_row (wd_server saved)))] saved (sv_docs s) (sv_docs t)"
    by (blast intro: recorded_later)
  with c(1-3) that show thesis by blast
qed

lemma wg_put_error: "wg_put cl e digest payload expected s = (Inl x, t) \<Longrightarrow> only {RULES} s t"
  by (auto simp: wg_put_def Let_def expect_revision_def op_simps dest: steps_byD [OF only_clean])

lemma wg_delete_ok:
  assumes "wg_delete cl e digest expected s = (Inr saved, t)"
  shows "expected = None \<or> expected = Some (wd_revision (wg_document (sv_docs s)))"
    and "wd_revision saved = wd_revision (wg_document (sv_docs s)) + 1" and "wd_server saved = None"
    and "recorded e ''delete'' (wd_revision saved) ''server''
      [(''interfaceName'', dget (tombstone_of e (wg_document (sv_docs s))) ''interfaceName''), (''tombstone'', JBool True)] saved (sv_docs s) (sv_docs t)"
proof -
  let ?doc = "wg_document (sv_docs s)"
  let ?old = "some_row (wd_server ?doc)" and ?payload = "[(''interfaceName'', dget (tombstone_of e ?doc) ''interfaceName''), (''tombstone'', JBool True)]"
  obtain s2 s3 where c: "expected = None \<or> expected = Some (wd_revision ?doc)" "wd_revision saved = wd_revision ?doc + 1" "wd_server saved = None"
      "\<not> has_secret (wg_json saved)"
      "s2 = s\<lparr>sv_docs := queue_wg e ''delete'' (wd_revision saved) ?payload [] ''server'' (save_json (sv_docs s) DOC (wg_json saved))\<rparr>"
      "attempt (op_fold (\<lambda>_ p. remove_ddns_firewall cl e digest p) () (ddns_profiles ?old)) s2 = (Inr (), s3)"
      "attempt (remove_wireguard_lan_firewall cl e digest ?old) s3 = (Inr (), t)"
    using assms by (auto simp: wg_delete_def Let_def expect_revision_def op_simps)
  have "recorded e ''delete'' (wd_revision saved) ''server'' ?payload saved (sv_docs s) (sv_docs s2)"
    using c(4,5) by (intro recorded_queue) simp_all
  moreover have "only {FIREWALL} s2 s3" "only {FIREWALL} s3 t"
    using attempt_steps [OF c(6) only_fold [OF only_sync(4)]] attempt_steps [OF c(7) only_sync(2)] by simp_all
  ultimately show "recorded e ''delete'' (wd_revision saved) ''server'' ?payload saved (sv_docs s) (sv_docs t)"
    by (blast intro: recorded_later)
qed (use assms in \<open>auto simp: wg_delete_def Let_def expect_revision_def op_simps\<close>)

lemma wg_delete_error: "wg_delete cl e digest expected s = (Inl x, t) \<Longrightarrow> t = s"
  by (auto simp: wg_delete_def Let_def expect_revision_def op_simps)

lemma update_endpoint_ok:
  assumes "update_endpoint e pid source owner endpoint expected s = (Inr p, t)"
  obtains saved payload rev_no where "wd_revision saved = wd_revision (wg_document (sv_docs s))"
    "recorded e ''endpoint'' rev_no (''endpoint:'' @ pid) payload saved (sv_docs s) (sv_docs t)" "\<not> has_secret (JObj payload)"
proof -
  let ?doc = "wg_document (sv_docs s)"
  obtain profile where f: "List.find (\<lambda>r. rid r = pid) (dict_rows (dget (some_row (wd_server ?doc)) ''endpointProfiles'')) = Some profile"
    using assms by (auto simp: update_endpoint_def op_simps split: option.splits)
  define full where "full = full_endpoint source profile endpoint"
  define cur where "cur = int_or (dget profile ''endpointRevision'') 0"
  define payload where "payload = [(''profileId'', JStr pid), (''endpointSource'', JStr source), (''owner'', JStr owner), (''endpoint'', JStr full),
          (''expectedEndpointRevision'', JInt cur), (''endpointRevision'', JInt (cur + 1))]"
  have "\<not> has_secret (wg_json (moved_document e pid full ?doc))"
    "t = s\<lparr>sv_docs := queue_wg e ''endpoint'' (cur + 1) payload [] (''endpoint:'' @ pid) (save_json (sv_docs s) DOC (wg_json (moved_document e pid full ?doc)))\<rparr>"
    using assms by (auto simp: update_endpoint_def f Let_def op_simps full_def cur_def payload_def)
  then have "recorded e ''endpoint'' (cur + 1) (''endpoint:'' @ pid) payload (moved_document e pid full ?doc) (sv_docs s) (sv_docs t)"
    by (intro recorded_queue) simp_all
  moreover have "\<not> has_secret (JObj payload)" by (simp add: payload_def SECRET_KEYS_def) code_simp
  moreover have "wd_revision (moved_document e pid full ?doc) = wd_revision ?doc" by (simp add: moved_document_def Let_def)
  ultimately show thesis using that by blast
qed

lemma update_endpoint_error: "update_endpoint e pid source owner endpoint expected s = (Inl x, t) \<Longrightarrow> t = s"
  by (auto simp: update_endpoint_def Let_def op_simps split: option.splits)

section \<open>Secrets\<close>

lemma no_secret_dget: "\<not> has_secret (JObj d) \<Longrightarrow> \<not> has_secret (dget d k)"
  by (auto simp: dget_def dget_or_def list_ex_iff split: option.splits dest!: map_of_SomeD)

lemma no_secret_items: "\<not> has_secret v \<Longrightarrow> \<not> has_secret (JObj (items v))"
  by (cases v) auto

lemma no_secret_dset: "\<not> has_secret (JObj d) \<Longrightarrow> \<not> has_secret v \<Longrightarrow> normal_key k \<notin> set SECRET_KEYS \<Longrightarrow> \<not> has_secret (JObj (dset k v d))"
  using set_dset [of k v d] by (auto simp: list_ex_iff)

lemma no_secret_dmerge: "\<not> has_secret (JObj d) \<Longrightarrow> \<not> has_secret (JObj b) \<Longrightarrow> \<not> has_secret (JObj (dmerge d b))"
proof (induction b arbitrary: d)
  case (Cons kv b)
  obtain k v where kv: "kv = (k, v)" by fastforce
  with Cons.prems have "normal_key k \<notin> set SECRET_KEYS" "\<not> has_secret v" "\<not> has_secret (JObj b)" by auto
  with Cons.IH [OF no_secret_dset [OF Cons.prems(1)]] kv show ?case by (simp del: has_secret.simps)
qed simp

lemma no_secret_opt: "\<not> has_secret v \<Longrightarrow> \<not> has_secret (JObj (some_row (opt_dict v)))"
  by (cases v) (auto simp: some_row_def opt_dict_def)

lemma no_secret_some_row: "\<not> has_secret (opt_json v) \<Longrightarrow> \<not> has_secret (JObj (some_row v))"
  by (cases v) (auto simp: some_row_def opt_json_def)

lemma plain_keys: "normal_key ''revision'' \<notin> set SECRET_KEYS" "normal_key ''server'' \<notin> set SECRET_KEYS" "normal_key ''tombstone'' \<notin> set SECRET_KEYS"
    "normal_key ''router'' \<notin> set SECRET_KEYS" "normal_key ''receivedAt'' \<notin> set SECRET_KEYS" "normal_key ''receivedEpoch'' \<notin> set SECRET_KEYS"
    "normal_key ''interfaceName'' \<notin> set SECRET_KEYS"
  by code_simp+

lemma no_secret_revision: "\<not> has_secret (JObj d) \<Longrightarrow> \<not> has_secret (JObj (dset ''revision'' (JInt n) d))"
  by (intro no_secret_dset plain_keys) simp_all

section \<open>The queue\<close>

text \<open>A command that a router still has to execute for the server occupies the slot of the router.\<close>

definition server_slot :: "row \<Rightarrow> json option" where
  "server_slot c = (if outstanding c \<and> text_of (dget c ''revisionScope'') = ''server'' then Some (dget c ''router'') else None)"

definition current_commands :: "int \<Rightarrow> row list \<Rightarrow> bool" where
  "current_commands n rows = (single_slots server_slot rows \<and> list_all (\<lambda>c. \<not> has_secret (dget c ''payload'')) rows
     \<and> list_all (\<lambda>c. server_slot c \<noteq> None \<longrightarrow> int_or (dget c ''revision'') 0 \<le> n) rows)"

lemma new_command_fields:
  "server_slot (new_wg_command e router action rev_no scope payload) = (if strip scope = ''server'' then Some (JStr router) else None)"
  "dget (new_wg_command e router action rev_no scope payload) ''revision'' = JInt rev_no"
  "dget (new_wg_command e router action rev_no scope payload) ''payload'' = JObj (dset ''revision'' (JInt rev_no) payload)"
  by (simp_all add: new_wg_command_def server_slot_def outstanding_def is_status_def text_of_str)

lemma kept_commands:
  "queue_wg_rows e router action rev_no scope payload rows
   = take_last 499 (filter (\<lambda>c. \<not> superseded router scope rev_no c) rows) @ [new_wg_command e router action rev_no scope payload]"
  by (simp add: queue_wg_rows_def take_last_snoc)

lemma superseded_slot:
  assumes "server_slot c = Some (JStr router)" "int_or (dget c ''revision'') 0 \<le> rev_no"
  shows "superseded router ''server'' rev_no c"
  using assms by (auto simp: superseded_def server_slot_def split: if_splits)

lemma current_mono: "current_commands n rows \<Longrightarrow> n \<le> m \<Longrightarrow> current_commands m rows"
  unfolding current_commands_def list_all_iff by fastforce

lemma current_kept: "current_commands n rows \<Longrightarrow> current_commands n (take_last k (filter P rows))"
  using set_take_last [of k "filter P rows"]
  unfolding current_commands_def list_all_iff by (auto simp: single_slots_filter single_slots_take_last)

lemma current_snoc:
  assumes "current_commands n rows" "\<And>c. c \<in> set rows \<Longrightarrow> server_slot x = None \<or> server_slot c \<noteq> server_slot x"
    "\<not> has_secret (dget x ''payload'')" "server_slot x \<noteq> None \<Longrightarrow> int_or (dget x ''revision'') 0 \<le> n"
  shows "current_commands n (rows @ [x])"
  using assms unfolding current_commands_def list_all_append
  by (cases "server_slot x") (auto simp: single_slots_append)

lemma queue_server:
  assumes "current_commands n rows" "n \<le> rev_no" "\<not> has_secret (JObj payload)"
  shows "current_commands rev_no (queue_wg_rows e router action rev_no ''server'' payload rows)"
    and "filter (\<lambda>c. server_slot c = Some (JStr router)) (queue_wg_rows e router action rev_no ''server'' payload rows)
       = [new_wg_command e router action rev_no ''server'' payload]"
proof -
  define kept where "kept = take_last 499 (filter (\<lambda>c. \<not> superseded router ''server'' rev_no c) rows)"
  define x where "x = new_wg_command e router action rev_no ''server'' payload"
  have st: "strip ''server'' = ''server''" by code_simp
  have x: "server_slot x = Some (JStr router)" "dget x ''revision'' = JInt rev_no" "\<not> has_secret (dget x ''payload'')"
    using no_secret_revision [OF assms(3)] by (simp_all add: x_def new_command_fields st del: has_secret.simps)
  have k: "current_commands rev_no kept"
    unfolding kept_def by (intro current_kept current_mono [OF assms(1,2)])
  have "\<not> superseded router ''server'' rev_no c" if "c \<in> set kept" for c
    using that set_take_last [of 499 "filter (\<lambda>c. \<not> superseded router ''server'' rev_no c) rows"] unfolding kept_def by fastforce
  with k have s: "server_slot c \<noteq> Some (JStr router)" if "c \<in> set kept" for c
    using that superseded_slot [of c router rev_no] unfolding current_commands_def list_all_iff by fastforce
  have q: "queue_wg_rows e router action rev_no ''server'' payload rows = kept @ [x]"
    by (simp add: kept_commands kept_def x_def)
  show "filter (\<lambda>c. server_slot c = Some (JStr router)) (queue_wg_rows e router action rev_no ''server'' payload rows)
       = [new_wg_command e router action rev_no ''server'' payload]"
    using s x(1) by (simp add: q x_def [symmetric] filter_empty_conv)
  show "current_commands rev_no (queue_wg_rows e router action rev_no ''server'' payload rows)"
    unfolding q using s x by (intro current_snoc [OF k]) simp_all
qed

lemma queue_endpoint:
  assumes "current_commands n rows" "\<not> has_secret (JObj payload)" "strip scope \<noteq> ''server''"
  shows "current_commands n (queue_wg_rows e router action rev_no scope payload rows)"
  unfolding kept_commands
  using no_secret_revision [OF assms(2), of rev_no] assms(3)
  by (intro current_snoc [OF current_kept [OF assms(1)]]) (simp_all add: new_command_fields del: has_secret.simps)

lemma pass_commands:
  assumes "current_commands n rows" "slots_kept server_slot rows rows'"
    and "list_all2 (\<lambda>r r'. dget r' ''payload'' = dget r ''payload'' \<and> dget r' ''revision'' = dget r ''revision'') rows rows'"
  shows "current_commands n rows'"
proof -
  have l: "length rows' = length rows" using assms(3) by (auto dest: list_all2_lengthD)
  have "\<not> has_secret (dget (rows' ! i) ''payload'') \<and> (server_slot (rows' ! i) \<noteq> None \<longrightarrow> int_or (dget (rows' ! i) ''revision'') 0 \<le> n)"
    if "i < length rows'" for i
  proof -
    have "server_slot (rows' ! i) = server_slot (rows ! i) \<or> server_slot (rows' ! i) = None"
      using assms(2) that l by (auto simp: slots_kept_def list_all2_conv_all_nth)
    then show ?thesis
      using assms(1,3) that l by (auto simp: current_commands_def list_all_length list_all2_conv_all_nth)
  qed
  then show ?thesis
    using assms(1,2) single_slots_mono by (auto simp: current_commands_def list_all_length)
qed

section \<open>Runs\<close>

text \<open>Requests of the app and of the agent in any order; the status report of the STUN service, which shares the
  router and the record of the firewall rules, may come in between.\<close>

datatype wg_event = Server stun_env bool bool row | Endpoint stun_env bool string row | Poll stun_env bool json json
  | Ack stun_env bool row | Status stun_env bool json row | StunStatus stun_env bool json row

fun wg_exec :: "'r router_client \<Rightarrow> (string \<Rightarrow> string) \<Rightarrow> wg_event \<Rightarrow> 'r svc_state \<Rightarrow> 'r svc_state" where
  "wg_exec cl digest (Server e a del p) s = snd (server_request cl e digest a del p s)"
| "wg_exec cl digest (Endpoint e a pid p) s = snd (endpoint_request e a pid p s)"
| "wg_exec cl digest (Poll e a r l) s = s\<lparr>sv_docs := snd (wg_agent_commands e a r l (sv_docs s))\<rparr>"
| "wg_exec cl digest (Ack e a p) s = s\<lparr>sv_docs := snd (wg_agent_ack e a p (sv_docs s))\<rparr>"
| "wg_exec cl digest (Status e a r p) s = s\<lparr>sv_docs := snd (wg_agent_status e a r p (sv_docs s))\<rparr>"
| "wg_exec cl digest (StunStatus e a r p) s = snd (stun_agent_status cl e digest a r p s)"

definition wg_run :: "'r router_client \<Rightarrow> (string \<Rightarrow> string) \<Rightarrow> wg_event list \<Rightarrow> 'r svc_state \<Rightarrow> 'r svc_state" where
  "wg_run cl digest evs s = fold (wg_exec cl digest) evs s"

text \<open>A hub on which WireGuard was never set up.\<close>

definition wg_start :: "docs \<Rightarrow> 'r \<Rightarrow> 'r svc_state" where
  "wg_start d r = \<lparr>sv_docs = d(DOC := None, COMMANDS := None, STATUS := None), sv_router = r, sv_trace = []\<rparr>"

definition wg_inv :: "docs \<Rightarrow> bool" where
  "wg_inv d = (\<not> has_secret (load_json d DOC JNull) \<and> \<not> has_secret (load_json d STATUS JNull)
     \<and> current_commands (wd_revision (wg_document d)) (commands_of COMMANDS d))"

abbreviation STUN_FILES :: "string set" where
  "STUN_FILES \<equiv> {NATIVE, FIREWALL, RULES, ''stun_commands.json'', ''stun_router_status.json'', ''stun_address_history.json''}"

lemma only_native: "steps_by (only {NATIVE}) (ensure_native_mapping cl e digest rule)"
proof -
  have f: "steps_by (only {NATIVE}) (native_failed e rule r)" "steps_by (only {NATIVE}) (native_ready e digest rule r)" for r
    unfolding native_failed_def native_ready_def
    by (intro footprint only_docs; simp add: set_owned_def save_owned_other)+
  have c: "steps_by (only {NATIVE}) (confirm_native cl e digest rule m p)" for m p
    unfolding confirm_native_def by (auto intro!: footprint only_write f split: option.split)
  show ?thesis
    unfolding ensure_native_mapping_def by (auto intro!: footprint c f split: option.split)
qed

lemma steps_by_mono: "steps_by (only ks) m \<Longrightarrow> ks \<subseteq> ls \<Longrightarrow> steps_by (only ls) m"
  by (auto simp: steps_by_def intro: only_mono)

lemma only_report: "steps_by (only STUN_FILES) (report_rules cl e digest runtime rules fb)"
proof (induction rules arbitrary: fb)
  case (Cons r rs)
  have n: "steps_by (only STUN_FILES) (native_error e r msg)" for msg
    unfolding native_error_def by (intro footprint only_docs) (simp_all add: set_owned_def save_owned_other)
  have m: "steps_by (only STUN_FILES) (on_docs (remember_endpoint e i c))" for i c
    by (intro only_docs) (simp add: remember_endpoint_def Let_def)
  have "steps_by (only STUN_FILES) (report_rule cl e digest runtime r fb)"
    unfolding report_rule_def Let_def
    by (auto intro!: footprint m n steps_by_mono [OF only_native] steps_by_mono [OF only_firewall(1)] steps_by_mono [OF only_firewall(2)])
  then show ?case by (auto intro!: footprint Cons.IH)
qed simp

lemma queue_stun_all_other: "k \<noteq> ''stun_commands.json'' \<Longrightarrow> queue_stun_all e router n cs d k = d k"
  by (induction e router n cs d rule: queue_stun_all.induct) (simp_all add: queue_stun_def save_commands_other)

lemma only_stun_status: "only STUN_FILES s (snd (stun_agent_status cl e digest a r p s))"
proof (cases a)
  case True
  define d1 where "d1 = save_json (sv_docs s) ''stun_router_status.json'' (JObj [(''router'', JStr (text_or (text_of r) (stun_router_name e))),
     (''receivedAt'', JStr (env_now_text e)), (''receivedEpoch'', JInt (env_now e)), (''status'', JObj p)])"
  define d2 where "d2 = queue_stun_all e (text_or (text_of r) (stun_router_name e)) 1 (stun_reconcile p d1) d1"
  define m where "m = sbind (report_rules cl e digest (stun_runtime d1) (stun_rules d1) (owned FIREWALL d1)) (\<lambda>fb. on_docs (save_owned e FIREWALL fb))"
  have "steps_by (only STUN_FILES) m"
    unfolding m_def by (intro footprint only_report only_docs) (simp add: save_owned_other)
  then have "only STUN_FILES (s\<lparr>sv_docs := d2\<rparr>) (snd (m (s\<lparr>sv_docs := d2\<rparr>)))" by (simp add: steps_by_def)
  moreover have "only STUN_FILES s (s\<lparr>sv_docs := d2\<rparr>)" by (simp add: only_def d2_def d1_def queue_stun_all_other)
  moreover have "snd (stun_agent_status cl e digest a r p s) = snd (m (s\<lparr>sv_docs := d2\<rparr>))"
    using True by (simp add: stun_agent_status_def Let_def d1_def m_def d2_def split: prod.split)
  ultimately show ?thesis by (simp add: only_def)
qed (simp add: stun_agent_status_def)

lemma same_inv: "d' DOC = d DOC \<Longrightarrow> d' STATUS = d STATUS \<Longrightarrow> d' COMMANDS = d COMMANDS \<Longrightarrow> wg_inv d' = wg_inv d"
  using wg_document_cong [of d' d] wg_commands_cong [of d' d] by (simp add: wg_inv_def load_json_def)

lemma recorded_inv:
  assumes "wg_inv d" "recorded e action (wd_revision saved) ''server'' payload saved d d'"
    "wd_revision saved = wd_revision (wg_document d) + 1" "\<not> has_secret (JObj payload)"
  shows "wg_inv d'"
  using assms recorded_document [OF assms(2)] queue_server(1) [of "wd_revision (wg_document d)" "commands_of COMMANDS d" "wd_revision saved" payload]
    wg_document_nonneg [of d]
  by (simp add: wg_inv_def recorded_def load_json_def del: wg_document_nonneg)

lemma payload_secret: "\<not> has_secret (wg_json w) \<Longrightarrow> \<not> has_secret (JObj [(''server'', JObj (some_row (wd_server w)))])"
  using no_secret_some_row [of "wd_server w"] plain_keys by (simp add: wg_json_def)

lemma accepted_revision:
  assumes "wg_put cl e digest payload expected s = (Inr saved, t)"
  shows "wd_revision saved = wd_revision (wg_document (sv_docs s)) + 1"
  using assms by (elim wg_put_ok) (simp add: new_revision_def)

lemma endpoint_scope: "strip (''endpoint:'' @ pid) \<noteq> ''server''"
proof -
  let ?tail = "'':tniopdne''"
  have tail: "dropWhile is_space ?tail = ?tail" by (simp add: is_space_def code_def)
  have "last (dropWhile is_space (rev pid @ ?tail)) = CHR ''e''"
  proof (cases "\<exists>x \<in> set (rev pid). \<not> is_space x")
    case True
    then obtain x where "x \<in> set (rev pid)" "\<not> is_space x" by blast
    then show ?thesis by (simp add: dropWhile_append1)
  next
    case False
    then have "dropWhile is_space (rev pid @ ?tail) = dropWhile is_space ?tail" by (intro dropWhile_append2) blast
    then show ?thesis by (simp only: tail) simp
  qed
  then have "hd (strip (''endpoint:'' @ pid)) = CHR ''e''"
    by (simp add: strip_def strip_of_def rstrip_of_def hd_rev is_space_def [of "CHR ''e''"] code_def)
  then show ?thesis by auto
qed

lemma commands_inv:
  assumes "wg_inv d" "current_commands (wd_revision (wg_document d)) rows"
  shows "wg_inv (save_commands COMMANDS rows d)"
proof -
  have "wg_document (save_commands COMMANDS rows d) = wg_document d"
    by (intro wg_document_cong) (simp add: save_commands_other)
  with assms show ?thesis by (simp add: wg_inv_def load_json_def save_commands_other)
qed

lemma put_inv:
  assumes "wg_inv (sv_docs s)" "wg_put cl e digest payload expected s = (r, t)"
  shows "wg_inv (sv_docs t)"
proof (cases r)
  case (Inl x)
  with assms(2) have "only {RULES} s t" by (simp add: wg_put_error)
  then have "wg_inv (sv_docs t) = wg_inv (sv_docs s)" by (intro same_inv) (simp_all add: only_def)
  with assms(1) show ?thesis by simp
next
  case (Inr saved)
  with assms(2) have put: "wg_put cl e digest payload expected s = (Inr saved, t)" by simp
  then obtain cleaned s1 where r: "recorded e ''apply'' (wd_revision saved) ''server'' [(''server'', JObj (some_row (wd_server saved)))] saved (sv_docs s) (sv_docs t)"
    by (elim wg_put_ok)
  then have "\<not> has_secret (wg_json saved)" by (simp add: recorded_def)
  then show ?thesis
    by (rule recorded_inv [OF assms(1) r accepted_revision [OF put] payload_secret])
qed

lemma delete_inv:
  assumes "wg_inv (sv_docs s)" "wg_delete cl e digest expected s = (r, t)"
  shows "wg_inv (sv_docs t)"
proof (cases r)
  case (Inr saved)
  with assms(2) have del: "wg_delete cl e digest expected s = (Inr saved, t)" by simp
  have "\<not> has_secret (JObj [(''interfaceName'', dget (tombstone_of e doc) ''interfaceName''), (''tombstone'', JBool True)])" for doc
    using plain_keys by (simp add: tombstone_of_def)
  then show ?thesis
    by (intro recorded_inv [OF assms(1) wg_delete_ok(4,2) [OF del]])
qed (use assms wg_delete_error in fastforce)

lemma endpoint_inv:
  assumes "wg_inv (sv_docs s)" "update_endpoint e pid source owner endpoint expected s = (r, t)"
  shows "wg_inv (sv_docs t)"
proof (cases r)
  case (Inr p)
  with assms(2) obtain saved payload rev_no where c: "wd_revision saved = wd_revision (wg_document (sv_docs s))"
    "recorded e ''endpoint'' rev_no (''endpoint:'' @ pid) payload saved (sv_docs s) (sv_docs t)" "\<not> has_secret (JObj payload)"
    by (auto elim: update_endpoint_ok)
  have "strip (''endpoint:'' @ pid) \<noteq> ''server''" by (rule endpoint_scope)
  then show ?thesis
    using assms(1) c recorded_document [OF c(2)] queue_endpoint [of "wd_revision (wg_document (sv_docs s))"]
    by (simp add: wg_inv_def recorded_def load_json_def)
qed (use assms update_endpoint_error in fastforce)

lemma poll_inv:
  assumes "wg_inv d"
  shows "wg_inv (snd (wg_agent_commands e a r l d))"
proof -
  let ?rows = "commands_of COMMANDS d" and ?router = "text_or (text_of r) (wg_router_name e)" and ?k = "nat (clamp 1 20 (int_or l 10))"
  let ?rows' = "fst (deliver_commands service_num ?router ?k (env_now e) (env_now_text e) ?rows)"
  have "current_commands (wd_revision (wg_document d)) ?rows'"
  proof (rule pass_commands)
    show "current_commands (wd_revision (wg_document d)) ?rows" using assms by (simp add: wg_inv_def)
    show "slots_kept server_slot ?rows ?rows'"
      by (rule delivered_slots) (auto simp: server_slot_def outstanding_def is_status_def)
    show "list_all2 (\<lambda>r r'. dget r' ''payload'' = dget r ''payload'' \<and> dget r' ''revision'' = dget r ''revision'') ?rows ?rows'"
      unfolding deliver_commands_def by (intro list_all2_mono [OF deliver_loop_rows]) auto
  qed
  from commands_inv [OF assms this] assms show ?thesis
    by (auto simp: wg_agent_commands_def Let_def split: prod.split)
qed

lemma ack_inv:
  assumes "wg_inv d"
  shows "wg_inv (snd (wg_agent_ack e a p d))"
proof -
  let ?rows = "commands_of COMMANDS d" and ?rows' = "fst (ack_rows text_of (close_wg e) (dget p ''acks'') (commands_of COMMANDS d))"
  have closed: "\<not> outstanding (close_wg e x r)" for x r
    by (rule close_not_outstanding [of _ x r]) (simp add: close_wg_def)
  have "current_commands (wd_revision (wg_document d)) ?rows'"
  proof (rule pass_commands)
    show "current_commands (wd_revision (wg_document d)) ?rows" using assms by (simp add: wg_inv_def)
    show "slots_kept server_slot ?rows ?rows'"
      by (rule ack_slots [OF _ closed]) (simp add: server_slot_def)
    show "list_all2 (\<lambda>r r'. dget r' ''payload'' = dget r ''payload'' \<and> dget r' ''revision'' = dget r ''revision'') ?rows ?rows'"
      by (auto simp: ack_rows_def Let_def list_all2_map2 close_wg_def close_command_def split: option.split intro!: list_all2_refl)
  qed
  from commands_inv [OF assms this] assms show ?thesis
    by (auto simp: wg_agent_ack_def split: prod.split)
qed

lemma requeue_inv:
  assumes "wg_inv d" "\<not> has_secret (JObj payload)"
  shows "wg_inv (queue_wg e action (wd_revision (wg_document d)) payload router ''server'' d)"
  unfolding queue_wg_def
  using assms by (intro commands_inv queue_server(1) [of "wd_revision (wg_document d)"]) (simp_all add: wg_inv_def del: has_secret.simps)

lemma status_inv:
  assumes "wg_inv d"
  shows "wg_inv (snd (wg_agent_status e a r p d))"
proof (cases "a \<and> \<not> has_secret (JObj p)")
  case True
  define d1 where "d1 = save_json d STATUS (JObj (dmerge [(''router'', JStr (text_or (text_of r) (wg_router_name e))), (''receivedAt'', JStr (env_now_text e)),
                 (''receivedEpoch'', JInt (env_now e))] p))"
  have "\<not> has_secret (load_json d1 STATUS JNull)"
    unfolding d1_def using True plain_keys by (simp del: has_secret.simps) (intro no_secret_dmerge; simp)
  moreover have "wg_document d1 = wg_document d" "commands_of COMMANDS d1 = commands_of COMMANDS d"
    unfolding d1_def by (intro wg_document_cong wg_commands_cong; simp)+
  ultimately have inv: "wg_inv d1" using assms by (simp add: wg_inv_def d1_def)
  have raw: "\<not> has_secret (JObj (items (load_json d1 DOC (JObj []))))"
    using inv by (intro no_secret_items) (auto simp: wg_inv_def load_json_def split: option.splits)
  have s: "\<not> has_secret (JObj (some_row (wd_server (wg_document d1))))" "\<not> has_secret (JObj (some_row (wd_tombstone (wg_document d1))))"
    using no_secret_opt [OF no_secret_dget [OF raw]] by (simp_all add: wg_document_def Let_def del: has_secret.simps)
  from s(1) have p1: "\<not> has_secret (JObj [(''server'', JObj (some_row (wd_server (wg_document d1))))])"
    using plain_keys by simp
  from s(2) have p2: "\<not> has_secret (JObj (dset ''tombstone'' (JBool True) (some_row (wd_tombstone (wg_document d1)))))"
    by (intro no_secret_dset plain_keys) simp_all
  show ?thesis
    using True inv requeue_inv [OF inv p1] requeue_inv [OF inv p2]
    by (simp add: wg_agent_status_def Let_def d1_def [symmetric] del: has_secret.simps)
qed (use assms in \<open>auto simp: wg_agent_status_def\<close>)

lemma answer_state: "snd (wg_answer m s) = snd (m s)"
  by (simp add: wg_answer_def split: prod.split sum.split wg_error.split)

lemma exec_inv: "wg_inv (sv_docs s) \<Longrightarrow> wg_inv (sv_docs (wg_exec cl digest ev s))"
proof (cases ev)
  case (Server e a del p)
  assume inv: "wg_inv (sv_docs s)"
  show ?thesis
    using inv put_inv [OF inv surjective_pairing] delete_inv [OF inv surjective_pairing]
    by (simp add: Server server_request_def answer_state)
next
  case (Endpoint e a pid p)
  assume inv: "wg_inv (sv_docs s)"
  show ?thesis
    using inv endpoint_inv [OF inv] by (auto simp: Endpoint endpoint_request_def split: prod.split sum.split wg_error.split)
next
  case (StunStatus e a r p)
  assume inv: "wg_inv (sv_docs s)"
  have "only STUN_FILES s (wg_exec cl digest ev s)" by (simp add: StunStatus only_stun_status)
  then have "wg_inv (sv_docs (wg_exec cl digest ev s)) = wg_inv (sv_docs s)" by (intro same_inv) (simp_all add: only_def)
  with inv show ?thesis by simp
qed (simp_all add: poll_inv ack_inv status_inv)

lemma run_inv: "wg_inv (sv_docs s) \<Longrightarrow> wg_inv (sv_docs (wg_run cl digest evs s))"
  unfolding wg_run_def by (induction evs arbitrary: s) (simp_all add: exec_inv)

lemma start_inv: "wg_inv (sv_docs (wg_start d r))"
  by (simp add: wg_inv_def wg_start_def load_json_def commands_of_def current_commands_def dict_rows_def dget_def dget_or_def)

text \<open>C13: Whatever requests, status reports and acknowledgements the hub gets, neither the stored server document nor the
  stored agent status contains a key for a private key, a preshared key, a password or a secret, and no queued command carries one
  in its payload.\<close>

theorem wireguard_no_secrets:
  "\<not> has_secret (load_json (sv_docs (wg_run cl digest evs (wg_start d r))) DOC JNull)
   \<and> \<not> has_secret (load_json (sv_docs (wg_run cl digest evs (wg_start d r))) STATUS JNull)
   \<and> list_all (\<lambda>c. \<not> has_secret (dget c ''payload'')) (commands_of COMMANDS (sv_docs (wg_run cl digest evs (wg_start d r))))"
  using run_inv [OF start_inv, of cl digest evs d r] by (simp add: wg_inv_def current_commands_def)

section \<open>Revisions\<close>

definition server_op :: "'r router_client \<Rightarrow> stun_env \<Rightarrow> (string \<Rightarrow> string) \<Rightarrow> bool \<Rightarrow> row \<Rightarrow> ('r, wg_doc) wg_op" where
  "server_op cl e digest deleting p = (if deleting then wg_delete cl e digest (expected_of p ''expectedRevision'')
     else wg_put cl e digest p (expected_of p ''expectedRevision''))"

text \<open>The requests of a run that changed the server, each with the revision that it states.\<close>

fun accepted :: "'r router_client \<Rightarrow> (string \<Rightarrow> string) \<Rightarrow> wg_event \<Rightarrow> 'r svc_state \<Rightarrow> int option list" where
  "accepted cl digest (Server e a del p) s =
     (if a \<and> \<not> isl (fst (server_op cl e digest del p s)) then [expected_of p ''expectedRevision''] else [])"
| "accepted cl digest _ s = []"

fun all_accepted :: "'r router_client \<Rightarrow> (string \<Rightarrow> string) \<Rightarrow> wg_event list \<Rightarrow> 'r svc_state \<Rightarrow> int option list" where
  "all_accepted cl digest [] s = []"
| "all_accepted cl digest (ev # evs) s = accepted cl digest ev s @ all_accepted cl digest evs (wg_exec cl digest ev s)"

definition stated :: "int option list \<Rightarrow> int list" where
  "stated xs = map the (filter (\<lambda>x. x \<noteq> None) xs)"

abbreviation current :: "'r svc_state \<Rightarrow> int" where
  "current s \<equiv> wd_revision (wg_document (sv_docs s))"

lemma current_cong: "sv_docs t DOC = sv_docs s DOC \<Longrightarrow> current t = current s"
  using wg_document_cong by metis

lemma server_op_revision:
  assumes "server_op cl e digest del p s = (r, t)"
  shows "current t = (if isl r then current s else current s + 1)"
    and "\<not> isl r \<Longrightarrow> expected_of p ''expectedRevision'' = None \<or> expected_of p ''expectedRevision'' = Some (current s)"
proof -
  have "current t = (if isl r then current s else current s + 1)
      \<and> (isl r \<or> expected_of p ''expectedRevision'' = None \<or> expected_of p ''expectedRevision'' = Some (current s))"
  proof (cases r)
    case (Inl x)
    then have "only {RULES} s t"
      using assms wg_put_error wg_delete_error by (cases del) (fastforce simp: server_op_def)+
    then have "current t = current s" by (intro current_cong) (simp add: only_def)
    with Inl show ?thesis by simp
  next
    case (Inr saved)
    show ?thesis
    proof (cases del)
      case True
      with Inr assms have del: "wg_delete cl e digest (expected_of p ''expectedRevision'') s = (Inr saved, t)" by (simp add: server_op_def)
      from wg_delete_ok [OF del] recorded_document(1) [OF wg_delete_ok(4) [OF del]] wg_document_nonneg [of "sv_docs s"] Inr
      show ?thesis by (auto simp del: wg_document_nonneg)
    next
      case False
      with Inr assms have put: "wg_put cl e digest p (expected_of p ''expectedRevision'') s = (Inr saved, t)" by (simp add: server_op_def)
      then obtain cleaned s1 where c: "expected_of p ''expectedRevision'' = None \<or> expected_of p ''expectedRevision'' = Some (current s)"
        "recorded e ''apply'' (wd_revision saved) ''server'' [(''server'', JObj (some_row (wd_server saved)))] saved (sv_docs s) (sv_docs t)"
        by (elim wg_put_ok)
      from c recorded_document(1) [OF c(2)] accepted_revision [OF put] wg_document_nonneg [of "sv_docs s"] Inr
      show ?thesis by (auto simp del: wg_document_nonneg)
    qed
  qed
  then show "current t = (if isl r then current s else current s + 1)"
    "\<not> isl r \<Longrightarrow> expected_of p ''expectedRevision'' = None \<or> expected_of p ''expectedRevision'' = Some (current s)" by blast+
qed

lemma document_other: "k \<noteq> DOC \<Longrightarrow> wg_document (save_json d k v) = wg_document d" "k \<noteq> DOC \<Longrightarrow> wg_document (save_commands k rows d) = wg_document d"
  by (intro wg_document_cong, simp add: save_commands_other)+

lemma exec_revision:
  "current (wg_exec cl digest ev s) = current s + int (length (accepted cl digest ev s))"
  "x \<in> set (stated (accepted cl digest ev s)) \<Longrightarrow> x = current s"
  "length (accepted cl digest ev s) \<le> 1"
proof -
  have "current (wg_exec cl digest ev s) = current s + int (length (accepted cl digest ev s))
    \<and> list_all (\<lambda>x. x = current s) (stated (accepted cl digest ev s)) \<and> length (accepted cl digest ev s) \<le> 1"
  proof (cases ev)
    case (Server e a del p)
    obtain r t where o: "server_op cl e digest del p s = (r, t)" by fastforce
    from server_op_revision [OF o] o show ?thesis
      by (auto simp: Server server_request_def answer_state server_op_def stated_def)
  next
    case (Endpoint e a pid p)
    obtain r t where o: "update_endpoint e pid (text_of (dget p ''endpointSource'')) (text_of (dget p ''owner'')) (text_of (dget p ''endpoint''))
            (expected_of p ''expectedEndpointRevision'') s = (r, t)" by fastforce
    have "current t = current s"
    proof (cases r)
      case (Inl x)
      with o show ?thesis by (metis update_endpoint_error)
    next
      case (Inr q)
      with o obtain saved payload rev_no where "wd_revision saved = current s"
        "recorded e ''endpoint'' rev_no (''endpoint:'' @ pid) payload saved (sv_docs s) (sv_docs t)"
        by (auto elim: update_endpoint_ok)
      then show ?thesis by (simp add: recorded_document(1))
    qed
    then show ?thesis using o
      by (auto simp: Endpoint endpoint_request_def stated_def split: sum.split wg_error.split)
  next
    case (StunStatus e a r p)
    have "only STUN_FILES s (wg_exec cl digest ev s)" by (simp add: StunStatus only_stun_status)
    then have "current (wg_exec cl digest ev s) = current s" by (intro current_cong) (simp add: only_def)
    then show ?thesis by (simp add: StunStatus stated_def)
  qed (auto simp: stated_def wg_agent_commands_def wg_agent_ack_def wg_agent_status_def Let_def queue_wg_def document_other
        simp del: has_secret.simps split: prod.split)
  then show "current (wg_exec cl digest ev s) = current s + int (length (accepted cl digest ev s))"
    "x \<in> set (stated (accepted cl digest ev s)) \<Longrightarrow> x = current s" "length (accepted cl digest ev s) \<le> 1"
    by (auto simp: list_all_iff)
qed

lemma stated_append: "stated (xs @ ys) = stated xs @ stated ys"
  by (simp add: stated_def)

lemma run_revision:
  "current (wg_run cl digest evs s) = current s + int (length (all_accepted cl digest evs s))
   \<and> sorted_wrt (<) (stated (all_accepted cl digest evs s)) \<and> list_all (\<lambda>x. current s \<le> x) (stated (all_accepted cl digest evs s))"
proof (induction evs arbitrary: s)
  case Nil
  then show ?case by (simp add: wg_run_def stated_def)
next
  case (Cons ev evs)
  let ?t = "wg_exec cl digest ev s" and ?a = "accepted cl digest ev s" and ?as = "all_accepted cl digest evs (wg_exec cl digest ev s)"
  note IH = Cons.IH [of ?t]
  have one: "stated ?a = [] \<or> stated ?a = [current s] \<and> length ?a = 1"
  proof (cases ?a)
    case (Cons x xs)
    with exec_revision(3) [of cl digest ev s] have "?a = [x]" by simp
    moreover from this exec_revision(2) [of _ cl digest ev s] have "x = None \<or> x = Some (current s)"
      by (cases x) (auto simp: stated_def)
    ultimately show ?thesis by (auto simp: stated_def)
  qed (simp add: stated_def)
  have "sorted_wrt (<) (stated ?a @ stated ?as)" "list_all (\<lambda>x. current s \<le> x) (stated ?a @ stated ?as)"
    using one IH exec_revision(1) [of cl digest ev s] by (fastforce simp: list_all_iff)+
  with IH exec_revision(1) [of cl digest ev s] show ?case
    by (simp add: wg_run_def stated_append)
qed

text \<open>C14: Optimistic concurrency. Over any run the server revision grows by exactly the number of accepted changes, and
  the revisions that accepted requests state are strictly increasing: of several clients that edit the same revision at
  most one succeeds, and no accepted change overwrites one that its client had not seen.\<close>

theorem wireguard_no_lost_update:
  "wd_revision (wg_document (sv_docs (wg_run cl digest evs s)))
     = wd_revision (wg_document (sv_docs s)) + int (length (all_accepted cl digest evs s))
   \<and> sorted_wrt (<) (stated (all_accepted cl digest evs s))"
  using run_revision by blast

section \<open>The command of an accepted change\<close>

definition demo_wg_env :: stun_env where
  "demo_wg_env = \<lparr>env_now = 100, env_now_str = ''t'', env_now_text = ''t'', env_fresh = (\<lambda>n. CHR ''f'' # nat_str n),
     env_router = ''r'', env_local_epoch = (\<lambda>_. None), configured_server = (\<lambda>_. [])\<rparr>"

text \<open>A router that cannot be reached.\<close>

definition no_router :: "unit router_client" where
  "no_router = \<lparr>rc_native = (\<lambda>r. (Inl ''timeout'', r)), rc_firewall = (\<lambda>r. (Inl ''timeout'', r)), rc_rpc = (\<lambda>m module p r. (Inl ''timeout'', r))\<rparr>"

definition first_put :: "(wg_error + wg_doc) \<times> unit svc_state" where
  "first_put = wg_put no_router demo_wg_env (\<lambda>x. x) [] (Some 0) (wg_run no_router (\<lambda>x. x) [] (wg_start (\<lambda>_. None) ()))"

text \<open>C15: Whatever happened before, an accepted change of the server leaves exactly one command that the router still has to
  execute for the server: to apply the stored server at its new revision. Commands for older revisions, delivered or not,
  are gone, and no router has two such commands.\<close>

theorem wireguard_put_queues_latest:
  assumes "wg_put cl e digest payload expected (wg_run cl digest evs (wg_start d r)) = (Inr saved, t)"
  shows "filter (\<lambda>c. server_slot c = Some (JStr (target_router e))) (commands_of COMMANDS (sv_docs t))
      = [new_wg_command e (target_router e) ''apply'' (wd_revision saved) ''server'' [(''server'', JObj (some_row (wd_server (wg_document (sv_docs t)))))]]
    \<and> wd_revision (wg_document (sv_docs t)) = wd_revision saved \<and> single_slots server_slot (commands_of COMMANDS (sv_docs t))"
proof -
  let ?s = "wg_run cl digest evs (wg_start d r)"
  have inv: "wg_inv (sv_docs ?s)" by (rule run_inv [OF start_inv])
  obtain cleaned s1 where r: "recorded e ''apply'' (wd_revision saved) ''server'' [(''server'', JObj (some_row (wd_server saved)))] saved (sv_docs ?s) (sv_docs t)"
    using assms by (elim wg_put_ok)
  have rev: "wd_revision saved = current ?s + 1" by (rule accepted_revision [OF assms])
  then have "0 \<le> wd_revision saved" using wg_document_nonneg [of "sv_docs ?s"] by linarith
  have n: "\<not> has_secret (wg_json saved)" using r by (simp add: recorded_def)
  have q: "commands_of COMMANDS (sv_docs t) = queue_wg_rows e (target_router e) ''apply'' (wd_revision saved) ''server''
      [(''server'', JObj (some_row (wd_server saved)))] (commands_of COMMANDS (sv_docs ?s))"
    using r by (simp add: recorded_def)
  have c: "current_commands (current ?s) (commands_of COMMANDS (sv_docs ?s))" using inv by (simp add: wg_inv_def)
  have le: "current ?s \<le> wd_revision saved" using rev by simp
  from queue_server [OF c le payload_secret [OF n], where e = e and router = "target_router e" and action = "''apply''"] recorded_document [OF r] \<open>0 \<le> wd_revision saved\<close>
  show ?thesis by (simp add: q current_commands_def max_def)
qed

theorem wireguard_put_queues_latest_witness:
  "filter (\<lambda>c. server_slot c = Some (JStr (target_router demo_wg_env))) (commands_of COMMANDS (sv_docs (snd first_put)))
      = [new_wg_command demo_wg_env (target_router demo_wg_env) ''apply'' (wd_revision (projr (fst first_put))) ''server''
          [(''server'', JObj (some_row (wd_server (wg_document (sv_docs (snd first_put))))))]]
    \<and> wd_revision (wg_document (sv_docs (snd first_put))) = wd_revision (projr (fst first_put))
    \<and> single_slots server_slot (commands_of COMMANDS (sv_docs (snd first_put)))"
proof (rule wireguard_put_queues_latest)
  have "\<not> isl (fst first_put)" by code_simp
  then show "wg_put no_router demo_wg_env (\<lambda>x. x) [] (Some 0) (wg_run no_router (\<lambda>x. x) [] (wg_start (\<lambda>_. None) ())) = (Inr (projr (fst first_put)), snd first_put)"
    by (simp add: first_put_def prod_eq_iff)
qed

section \<open>What a rejected change leaves behind\<close>

text \<open>Nothing but the rules of the STUN service and there nothing but target ports; the router is not touched.\<close>

definition retargets :: "'r svc_state \<Rightarrow> 'r svc_state \<Rightarrow> bool" where
  "retargets s t = (only {RULES} s t \<and> sv_router t = sv_router s \<and> sv_trace t = sv_trace s
     \<and> map (dpop ''targetPort'') (stun_rules (sv_docs t)) = map (dpop ''targetPort'') (stun_rules (sv_docs s)))"

lemma retargets_order [simp]: "retargets s s" "reflp retargets" "transp retargets"
  by (auto simp: retargets_def reflp_def transp_def only_def)

lemmas retargets_intros = steps_by_bind [OF retargets_order(3)]

lemma retargets_pure [simp]: "steps_by retargets (ret a)" "steps_by retargets (fail x)" "steps_by retargets (gets g)"
    "steps_by retargets (pure r)" "steps_by retargets (guard b y)" "steps_by retargets (check b z)" "steps_by retargets (lift_err q)"
    "steps_by retargets (iterate v)"
  by (simp_all add: op_keeps check_def lift_err_def iterate_def)

lemma saved_rules: "stun_rules (save_json d RULES (JObj (dmerge raw [(''rules'', JList (map JObj rows)), (''revision'', n), (''updatedAt'', u)]))) = rows"
  by (simp add: stun_rules_def stun_document_def Let_def)

lemma sync_rules: "map (dpop ''targetPort'') (stun_rules (sync_stun_rule_target_port e i port d)) = map (dpop ''targetPort'') (stun_rules d)"
proof -
  have r: "dict_rows (dget (items (load_json d RULES (JObj [(''revision'', JInt 0), (''rules'', JList [])]))) ''rules'') = stun_rules d"
    by (simp add: stun_rules_def stun_document_def Let_def load_json_def dget_def dget_or_def dict_rows_def split: option.split)
  have "dpop ''targetPort'' (retarget i port x) = dpop ''targetPort'' x" for x
    by (simp add: retarget_def delete_update_same)
  then have m: "map (dpop ''targetPort'') (map (retarget i port) rows) = map (dpop ''targetPort'') rows" for rows by simp
  show ?thesis
    unfolding sync_stun_rule_target_port_def Let_def r by (simp only: saved_rules m if_distrib [of stun_rules] if_distrib [of "map (dpop ''targetPort'')"] if_cancel)
qed

lemma retargets_clean: "steps_by retargets (clean_server e payload old)"
proof -
  have fold: "steps_by retargets (op_fold f acc xs)" if "\<And>acc x. steps_by retargets (f acc x)" for f :: "'b \<Rightarrow> json \<Rightarrow> ('a, 'b) wg_op" and acc xs
    using that by (induction xs arbitrary: acc) (auto intro!: retargets_intros)
  have p: "steps_by retargets (clean_peer e acc raw)" for acc raw
    unfolding clean_peer_def Let_def by (auto intro!: retargets_intros)
  have m: "steps_by retargets (modify (\<lambda>s. if P s then s\<lparr>sv_docs := sync_stun_rule_target_port e i port (sv_docs s)\<rparr> else s))" for P i port
    by (simp add: steps_by_def modify_def retargets_def only_def sync_target_other sync_rules)
  have f: "steps_by retargets (clean_profile e old listen_port acc raw)" for listen_port acc raw
    unfolding clean_profile_def Let_def by (auto intro!: retargets_intros m)
  show ?thesis
    unfolding clean_server_def Let_def by (auto intro!: retargets_intros fold p f)
qed

text \<open>A change that is rejected, for a stale revision or for an invalid server, leaves the server document, the
  status, the queues and the router as they were. It may have changed the target ports of STUN rules, and only those: the
  profiles are cleaned before the last check.\<close>

theorem wireguard_rejected_put:
  assumes "wg_put cl e digest payload expected s = (Inl x, t)"
  shows "retargets s t"
  using assms by (auto simp: wg_put_def Let_def expect_revision_def op_simps dest: steps_byD [OF retargets_clean])

definition stun_row :: "int \<Rightarrow> row" where
  "stun_row port = [(''id'', JStr ''s1''), (''kind'', JStr ''stun''), (''enabled'', JBool True), (''targetIpv4'', JStr ''192.168.1.1''),
     (''targetPort'', JInt port), (''transportProtocol'', JStr ''UDP''), (''forwardMode'', JStr ''router_native'')]"

definition stun_profile :: row where
  "stun_profile = [(''id'', JStr ''p1''), (''endpointSource'', JStr ''stun''), (''stunRuleId'', JStr ''s1'')]"

definition tunnel_doc :: row where
  "tunnel_doc = [(''revision'', JInt 4), (''server'', JObj [(''listenPort'', JInt 51820)])]"

definition tunnel_hub :: "unit svc_state" where
  "tunnel_hub = \<lparr>sv_docs = [RULES \<mapsto> JObj [(''revision'', JInt 7), (''rules'', JList [JObj (stun_row 51820)])], DOC \<mapsto> JObj tunnel_doc],
     sv_router = (), sv_trace = []\<rparr>"

definition wrong_mtu :: "(wg_error + wg_doc) \<times> unit svc_state" where
  "wrong_mtu = wg_put no_router demo_wg_env (\<lambda>x. x)
     [(''listenPort'', JInt 51821), (''mtu'', JInt 9000), (''endpointProfiles'', JList [JObj stun_profile])] (Some 4) tunnel_hub"

text \<open>The witness: a request with a new port and a wrong MTU is rejected, and the tunnel keeps its port, but the STUN rule
  already points to the new one.\<close>

theorem wireguard_rejected_put_witness:
  "fst wrong_mtu = Inl (Rejected ''MTU must be 1280-1500'') \<and> retargets tunnel_hub (snd wrong_mtu)
   \<and> sv_docs (snd wrong_mtu) DOC = Some (JObj tunnel_doc) \<and> stun_rules (sv_docs tunnel_hub) = [stun_row 51820]
   \<and> stun_rules (sv_docs (snd wrong_mtu)) = [stun_row 51821]"
proof -
  have c: "fst wrong_mtu = Inl (Rejected ''MTU must be 1280-1500'')" "sv_docs (snd wrong_mtu) DOC = Some (JObj tunnel_doc)"
    "stun_rules (sv_docs tunnel_hub) = [stun_row 51820]" "stun_rules (sv_docs (snd wrong_mtu)) = [stun_row 51821]"
    by code_simp+
  have "wg_put no_router demo_wg_env (\<lambda>x. x)
     [(''listenPort'', JInt 51821), (''mtu'', JInt 9000), (''endpointProfiles'', JList [JObj stun_profile])] (Some 4) tunnel_hub
     = (Inl (Rejected ''MTU must be 1280-1500''), snd wrong_mtu)"
    using c(1) by (simp add: wrong_mtu_def prod_eq_iff)
  from wireguard_rejected_put [OF this] c show ?thesis by simp
qed

end
