(* ===== verification/AlistSum.thy ===== *)
theory AlistSum
  imports Prelude "HOL-Library.Multiset"
begin

text \<open>
  Sums over the entries of a table of threads: what a table contributes changes by the entry that one
  step moves. The models of concurrent components count their threads with it.
\<close>

definition table_sum :: "('c \<Rightarrow> 'm::comm_monoid_add) \<Rightarrow> ('k \<times> 'c) list \<Rightarrow> 'm" where
  "table_sum f d = sum_list (map (f \<circ> snd) d)"

lemma total_Nil [simp]: "table_sum f [] = 0"
  by (simp add: table_sum_def)

lemma total_dset_new: "map_of d k = None \<Longrightarrow> table_sum f (dset k c d) = table_sum f d + f c"
  by (induction d) (auto simp: table_sum_def ac_simps split: if_splits)

lemma total_split:
  "map_of d k = Some c' \<Longrightarrow> \<exists>r. table_sum f d = r + f c' \<and> (\<forall>c. table_sum f (dset k c d) = r + f c)"
proof (induction d)
  case (Cons x d)
  show ?case
  proof (cases "fst x = k")
    case True
    with Cons.prems show ?thesis by (intro exI [of _ "table_sum f d"]) (auto simp: table_sum_def ac_simps)
  next
    case False
    with Cons obtain r where "table_sum f d = r + f c'" "\<forall>c. table_sum f (dset k c d) = r + f c" by auto
    with False show ?thesis by (intro exI [of _ "f (snd x) + r"]) (cases x, auto simp: table_sum_def ac_simps)
  qed
qed simp

lemma total_member: "map_of d k = Some c \<Longrightarrow> x \<in># f c \<Longrightarrow> x \<in># table_sum f d"
  by (drule total_split [where f = f]) auto

lemma sum_list_remove1_nat: "m \<in> set xs \<Longrightarrow> f m + sum_list (map f (remove1 m xs)) = (sum_list (map f xs) :: nat)"
  by (induction xs) auto

lemma add_mset_below: "add_mset x A \<subseteq># B \<Longrightarrow> A \<subseteq># B"
  by (meson mset_subset_eq_insertD subset_mset.less_imp_le)

end
