(* ===== verification/ControlActor.thy ===== *)
theory ControlActor
  imports PyText AlistSum
begin

text \<open>
  The control actor of the router (\<open>router_control_actor_patch.py\<close>): every RPC of the router is
  put on one priority queue and called by one worker. The threads and the worker meet at the lock of the
  actor, at the queue and at the \<open>done\<close> event of an item; each step below is what happens between
  two of these points, so a run of the step relation is an interleaving of the threads. What an RPC
  returns or raises is decided outside, so the end of a call is a step with the outcome as label. Time is
  not modelled: a step that follows a timeout may happen as soon as its condition holds.
\<close>

section \<open>Priorities\<close>

definition PRIORITY_COMMAND :: int where "PRIORITY_COMMAND = 10"
definition PRIORITY_TASK :: int where "PRIORITY_TASK = 20"
definition PRIORITY_READ :: int where "PRIORITY_READ = 30"
definition PRIORITY_BACKGROUND :: int where "PRIORITY_BACKGROUND = 50"

lemmas priorities = PRIORITY_COMMAND_def PRIORITY_TASK_def PRIORITY_READ_def PRIORITY_BACKGROUND_def

text \<open>The thread asks outside of a request, or inside one with its method and path.\<close>

datatype call_context = WorkerThread string | Request string string

definition long_path :: "string \<Rightarrow> bool" where
  "long_path path = list_ex (contains path) [''nat-diagnostic'', ''diagnostic'', ''beta-upgrade'', ''/tasks/'']"

fun request_priority :: "call_context \<Rightarrow> int" where
  "request_priority (WorkerThread thread_name) =
     (if startswith (lower thread_name) ''router-task-'' \<or> startswith (lower thread_name) ''router-nat-diagnostic-''
      then PRIORITY_TASK else PRIORITY_BACKGROUND)"
| "request_priority (Request verb path) =
     (if upper (if verb = [] then ''GET'' else verb) \<in> {''POST'', ''PUT'', ''PATCH'', ''DELETE''}
      then (if long_path path then PRIORITY_TASK else PRIORITY_COMMAND)
      else if long_path path then PRIORITY_TASK else PRIORITY_READ)"

lemma request_never_background: "request_priority (Request verb path) < PRIORITY_BACKGROUND"
  by (simp add: priorities)

section \<open>State\<close>

text \<open>An item of the queue; items are ordered by priority and number.\<close>

record actor_item =
  it_priority :: int
  it_sequence :: nat
  it_label :: string

definition item_before :: "actor_item \<Rightarrow> actor_item \<Rightarrow> bool" where
  "item_before a b = (it_priority a < it_priority b
     \<or> it_priority a = it_priority b \<and> it_sequence a < it_sequence b)"

text \<open>The outcome of a call: the value or the raised error; an error of \<open>submit\<close> itself has a code and a status.\<close>

datatype 'v outcome = Value 'v | Raised string int

definition deferred :: "'v outcome" where "deferred = Raised ''BACKGROUND_DEFERRED'' 503"
definition queue_busy :: "'v outcome" where "queue_busy = Raised ''CONTROL_QUEUE_BUSY'' 503"
definition wait_timeout :: "'v outcome" where "wait_timeout = Raised ''CONTROL_QUEUE_TIMEOUT'' 504"

text \<open>
  Where a call of \<open>submit\<close> stands: admitted under the lock, holding its item, refused by the full
  queue, waiting for its item, or back with an outcome.
\<close>

datatype 'v caller = Admitted int string | Numbered actor_item | Refused int | Waiting actor_item
  | Returned "'v outcome"

text \<open>Where the worker stands: at \<open>get\<close>, with an item, in its callback, after it, or about to set \<open>done\<close>.\<close>

datatype 'v worker_at = Getting | Taken actor_item | Calling actor_item
  | Called actor_item "'v outcome" | Signalling actor_item "'v outcome"

record 'v actor =
  queue_items :: "actor_item list"
  next_sequence :: nat
  active_priority :: "int option"
  foreground_pending :: int
  worker :: "'v worker_at"
  done_items :: "(nat \<times> 'v outcome) list"
  callers :: "(nat \<times> 'v caller) list"

definition QUEUE_MAX :: nat where "QUEUE_MAX = 96"

definition new_actor :: "'v actor" where
  "new_actor = \<lparr>queue_items = [], next_sequence = 0, active_priority = None, foreground_pending = 0,
     worker = Getting, done_items = [], callers = []\<rparr>"

definition move :: "nat \<Rightarrow> 'v caller \<Rightarrow> 'v actor \<Rightarrow> 'v actor" where
  "move k c a = a\<lparr>callers := dset k c (callers a)\<rparr>"

section \<open>Steps of \<open>submit\<close>\<close>

text \<open>The first critical section: background work gives way, foreground work is counted.\<close>

definition must_defer :: "int \<Rightarrow> 'v actor \<Rightarrow> bool" where
  "must_defer p a = (PRIORITY_BACKGROUND \<le> p
     \<and> (active_priority a \<noteq> None \<or> 0 < foreground_pending a \<or> queue_items a \<noteq> []))"

definition admit :: "nat \<Rightarrow> int \<Rightarrow> string \<Rightarrow> 'v actor \<Rightarrow> 'v actor" where
  "admit k p label a =
     (if must_defer p a then move k (Returned deferred) a
      else move k (Admitted p label)
        (a\<lparr>foreground_pending := foreground_pending a + (if p < PRIORITY_BACKGROUND then 1 else 0)\<rparr>))"

definition number_item :: "nat \<Rightarrow> int \<Rightarrow> string \<Rightarrow> 'v actor \<Rightarrow> 'v actor" where
  "number_item k p label a =
     move k (Numbered \<lparr>it_priority = p, it_sequence = next_sequence a, it_label = label\<rparr>)
       (a\<lparr>next_sequence := Suc (next_sequence a)\<rparr>)"

definition put_item :: "nat \<Rightarrow> actor_item \<Rightarrow> 'v actor \<Rightarrow> 'v actor" where
  "put_item k it a = move k (Waiting it) (a\<lparr>queue_items := queue_items a @ [it]\<rparr>)"

definition drop_foreground :: "int \<Rightarrow> 'v actor \<Rightarrow> 'v actor" where
  "drop_foreground p a =
     (if p < PRIORITY_BACKGROUND then a\<lparr>foreground_pending := max 0 (foreground_pending a - 1)\<rparr> else a)"

definition give_back :: "nat \<Rightarrow> int \<Rightarrow> 'v actor \<Rightarrow> 'v actor" where
  "give_back k p a = move k (Returned queue_busy) (drop_foreground p a)"

section \<open>Steps of the worker\<close>

text \<open>\<open>PriorityQueue.get\<close> hands out the smallest item.\<close>

fun least_item :: "actor_item \<Rightarrow> actor_item list \<Rightarrow> actor_item" where
  "least_item a [] = a"
| "least_item a (b # bs) = least_item (if item_before b a then b else a) bs"

definition take_item :: "'v actor \<Rightarrow> 'v actor" where
  "take_item a = (case queue_items a of [] \<Rightarrow> a
     | it # its \<Rightarrow> let m = least_item it its
         in a\<lparr>queue_items := remove1 m (queue_items a), worker := Taken m\<rparr>)"

definition start_call :: "actor_item \<Rightarrow> 'v actor \<Rightarrow> 'v actor" where
  "start_call it a = drop_foreground (it_priority it)
     (a\<lparr>active_priority := Some (it_priority it), worker := Calling it\<rparr>)"

definition end_call :: "actor_item \<Rightarrow> 'v outcome \<Rightarrow> 'v actor \<Rightarrow> 'v actor" where
  "end_call it out a = a\<lparr>worker := Called it out\<rparr>"

definition release :: "actor_item \<Rightarrow> 'v outcome \<Rightarrow> 'v actor \<Rightarrow> 'v actor" where
  "release it out a = a\<lparr>active_priority := None, worker := Signalling it out\<rparr>"

definition signal :: "actor_item \<Rightarrow> 'v outcome \<Rightarrow> 'v actor \<Rightarrow> 'v actor" where
  "signal it out a = a\<lparr>done_items := (it_sequence it, out) # done_items a, worker := Getting\<rparr>"

text \<open>What \<open>snapshot\<close> reports.\<close>

definition snapshot :: "'v actor \<Rightarrow> int option \<times> int \<times> nat" where
  "snapshot a = (active_priority a, foreground_pending a, length (queue_items a))"

section \<open>Interleavings\<close>

datatype 'v actor_event =
    Submit nat int string | Number nat | Put nat | PutFull nat | GiveBack nat | Collect nat | GiveUp nat
  | Nested nat "'v outcome" | Take | Start actor_item | End actor_item "'v outcome" | Release | Signal

inductive actor_step :: "'v actor \<Rightarrow> 'v actor_event \<Rightarrow> 'v actor \<Rightarrow> bool" where
  submit: "map_of (callers a) k = None \<Longrightarrow> actor_step a (Submit k p label) (admit k p label a)"
| number: "map_of (callers a) k = Some (Admitted p label) \<Longrightarrow> actor_step a (Number k) (number_item k p label a)"
| put: "map_of (callers a) k = Some (Numbered it) \<Longrightarrow> length (queue_items a) < QUEUE_MAX \<Longrightarrow>
    actor_step a (Put k) (put_item k it a)"
| put_full: "map_of (callers a) k = Some (Numbered it) \<Longrightarrow> QUEUE_MAX \<le> length (queue_items a) \<Longrightarrow>
    actor_step a (PutFull k) (move k (Refused (it_priority it)) a)"
| give_back: "map_of (callers a) k = Some (Refused p) \<Longrightarrow> actor_step a (GiveBack k) (give_back k p a)"
| collect: "map_of (callers a) k = Some (Waiting it) \<Longrightarrow> map_of (done_items a) (it_sequence it) = Some out \<Longrightarrow>
    actor_step a (Collect k) (move k (Returned out) a)"
| give_up: "map_of (callers a) k = Some (Waiting it) \<Longrightarrow> map_of (done_items a) (it_sequence it) = None \<Longrightarrow>
    actor_step a (GiveUp k) (move k (Returned wait_timeout) a)"
| nested: "map_of (callers a) k = None \<Longrightarrow> worker a = Calling it \<Longrightarrow>
    actor_step a (Nested k out) (move k (Returned out) a)"
| take: "worker a = Getting \<Longrightarrow> queue_items a \<noteq> [] \<Longrightarrow> actor_step a Take (take_item a)"
| start: "worker a = Taken it \<Longrightarrow> actor_step a (Start it) (start_call it a)"
| end_of: "worker a = Calling it \<Longrightarrow> actor_step a (End it out) (end_call it out a)"
| release: "worker a = Called it out \<Longrightarrow> actor_step a Release (release it out a)"
| signal: "worker a = Signalling it out \<Longrightarrow> actor_step a Signal (signal it out a)"

inductive actor_run :: "'v actor \<Rightarrow> 'v actor_event list \<Rightarrow> 'v actor \<Rightarrow> bool" where
  stay: "actor_run a [] a"
| more: "actor_run a es b \<Longrightarrow> actor_step b e c \<Longrightarrow> actor_run a (es @ [e]) c"

definition reachable_actor :: "'v actor \<Rightarrow> bool" where
  "reachable_actor a = (\<exists>es. actor_run new_actor es a)"

inductive_cases actor_stepE: "actor_step a e b"

section \<open>The invariant\<close>

definition foreground :: "int \<Rightarrow> nat" where
  "foreground p = (if p < PRIORITY_BACKGROUND then 1 else 0)"

fun caller_foreground :: "'v caller \<Rightarrow> nat" where
  "caller_foreground (Admitted p label) = foreground p"
| "caller_foreground (Numbered it) = foreground (it_priority it)"
| "caller_foreground (Refused p) = foreground p"
| "caller_foreground _ = 0"

fun worker_foreground :: "'v worker_at \<Rightarrow> nat" where
  "worker_foreground (Taken it) = foreground (it_priority it)"
| "worker_foreground _ = 0"

fun worker_item :: "'v worker_at \<Rightarrow> actor_item option" where
  "worker_item Getting = None"
| "worker_item (Taken it) = Some it"
| "worker_item (Calling it) = Some it"
| "worker_item (Called it out) = Some it"
| "worker_item (Signalling it out) = Some it"

fun in_call :: "'v worker_at \<Rightarrow> int option" where
  "in_call (Calling it) = Some (it_priority it)"
| "in_call (Called it out) = Some (it_priority it)"
| "in_call _ = None"

fun caller_number :: "'v caller \<Rightarrow> nat multiset" where
  "caller_number (Numbered it) = {#it_sequence it#}"
| "caller_number _ = {#}"

definition waiting_foreground :: "'v actor \<Rightarrow> nat" where
  "waiting_foreground a = table_sum caller_foreground (callers a)
     + sum_list (map (foreground \<circ> it_priority) (queue_items a)) + worker_foreground (worker a)"

definition numbers :: "'v actor \<Rightarrow> nat multiset" where
  "numbers a = table_sum caller_number (callers a) + mset (map it_sequence (queue_items a))
     + (case worker_item (worker a) of None \<Rightarrow> {#} | Some it \<Rightarrow> {#it_sequence it#})
     + mset (map fst (done_items a))"

definition awaited :: "'v actor \<Rightarrow> bool" where
  "awaited a = (\<forall>k it. map_of (callers a) k = Some (Waiting it) \<longrightarrow>
     it \<in> set (queue_items a) \<or> worker_item (worker a) = Some it \<or> it_sequence it \<in> fst ` set (done_items a))"

definition actor_ok :: "'v actor \<Rightarrow> bool" where
  "actor_ok a = (foreground_pending a = int (waiting_foreground a)
     \<and> active_priority a = in_call (worker a)
     \<and> length (queue_items a) \<le> QUEUE_MAX
     \<and> numbers a \<subseteq># mset [0..<next_sequence a]
     \<and> awaited a)"

lemma least_item_in: "least_item a bs \<in> set (a # bs)"
  by (induction bs arbitrary: a) auto

lemma least_item_least: "x \<in> set (a # bs) \<Longrightarrow> \<not> item_before x (least_item a bs)"
proof (induction bs arbitrary: a x)
  case Nil
  then show ?case by (simp add: item_before_def)
next
  case (Cons b bs)
  let ?m = "if item_before b a then b else a"
  have "\<not> item_before ?m (least_item ?m bs)" using Cons.IH [of ?m ?m] by simp
  moreover have "\<not> item_before y (least_item ?m bs)" if "y \<in> set bs" for y using Cons.IH [of y ?m] that by simp
  ultimately show ?case using Cons.prems by (auto simp: item_before_def split: if_splits)
qed

lemma take_itemE:
  assumes "queue_items a \<noteq> []"
  obtains m where "m \<in> set (queue_items a)" "\<And>x. x \<in> set (queue_items a) \<Longrightarrow> \<not> item_before x m"
    "take_item a = a\<lparr>queue_items := remove1 m (queue_items a), worker := Taken m\<rparr>"
proof -
  from assms obtain it its where q: "queue_items a = it # its" by (cases "queue_items a") auto
  show ?thesis
  proof (rule that [of "least_item it its"])
    show "least_item it its \<in> set (queue_items a)" using least_item_in [of it its] q by simp
    show "\<not> item_before x (least_item it its)" if "x \<in> set (queue_items a)" for x
      using least_item_least that q by auto
    show "take_item a = a\<lparr>queue_items := remove1 (least_item it its) (queue_items a), worker := Taken (least_item it its)\<rparr>"
      using q by (simp add: take_item_def Let_def)
  qed
qed

lemmas step_defs = move_def admit_def number_item_def put_item_def drop_foreground_def give_back_def
  start_call_def end_call_def release_def signal_def

text \<open>What each step does to the sums, from what the moved caller contributed before and after.\<close>

lemma waiting_foreground_step:
  assumes "actor_step a e b" and "foreground_pending a = int (waiting_foreground a)"
  shows "foreground_pending b = int (waiting_foreground b)"
  using assms(1)
proof cases
  case (take)
  obtain m where m: "m \<in> set (queue_items a)" "b = a\<lparr>queue_items := remove1 m (queue_items a), worker := Taken m\<rparr>"
    using take by (metis take_itemE)
  show ?thesis
    using m take assms(2) sum_list_remove1_nat [of m "queue_items a" "foreground \<circ> it_priority"]
    by (simp add: waiting_foreground_def)
qed (use assms(2) in \<open>auto simp: waiting_foreground_def step_defs total_dset_new foreground_def
    dest!: total_split [where f = caller_foreground]\<close>)

lemma numbers_step:
  assumes "actor_step a e b" and "numbers a \<subseteq># mset [0..<next_sequence a]"
  shows "numbers b \<subseteq># mset [0..<next_sequence b]"
  using assms(1)
proof cases
  case (take)
  obtain m where m: "m \<in> set (queue_items a)" "b = a\<lparr>queue_items := remove1 m (queue_items a), worker := Taken m\<rparr>"
    using take by (metis take_itemE)
  show ?thesis
  proof -
    obtain M where "mset (queue_items a) = add_mset m M" using m(1)
      by (metis insert_DiffM set_mset_mset)
    then show ?thesis using m(2) take assms(2) by (simp add: numbers_def)
  qed
qed (use assms(2) in \<open>auto simp: numbers_def step_defs total_dset_new ac_simps
    dest!: total_split [where f = caller_number] dest: add_mset_below\<close>)

lemma awaited_step:
  assumes "actor_step a e b" and "awaited a"
  shows "awaited b"
  using assms(1)
proof cases
  case (take)
  obtain m where m: "m \<in> set (queue_items a)" "b = a\<lparr>queue_items := remove1 m (queue_items a), worker := Taken m\<rparr>"
    using take by (metis take_itemE)
  show ?thesis
    unfolding awaited_def
  proof (intro allI impI)
    fix k it
    assume "map_of (callers b) k = Some (Waiting it)"
    then have "map_of (callers a) k = Some (Waiting it)" by (simp add: m(2))
    then have "it \<in> set (queue_items a) \<or> it_sequence it \<in> fst ` set (done_items a)"
      using assms(2) take by (auto simp: awaited_def)
    then show "it \<in> set (queue_items b) \<or> worker_item (worker b) = Some it \<or> it_sequence it \<in> fst ` set (done_items b)"
      using m(2) by (cases "it = m") auto
  qed
qed (use assms(2) in \<open>auto simp: awaited_def step_defs split: if_splits\<close>)

lemma actor_ok_step:
  assumes "actor_step a e b" and "actor_ok a"
  shows "actor_ok b"
proof -
  have "active_priority b = in_call (worker b)"
    using assms by (cases) (auto simp: actor_ok_def step_defs elim!: take_itemE)
  moreover have "length (queue_items b) \<le> QUEUE_MAX"
    using assms by (cases) (auto simp: actor_ok_def step_defs length_remove1 elim!: take_itemE)
  ultimately show ?thesis
    using waiting_foreground_step [OF assms(1)] numbers_step [OF assms(1)] awaited_step [OF assms(1)] assms(2)
    by (simp add: actor_ok_def)
qed

lemma actor_ok_new: "actor_ok new_actor"
  by (simp add: actor_ok_def new_actor_def waiting_foreground_def numbers_def awaited_def table_sum_def)

lemma actor_ok_run: "actor_run a es b \<Longrightarrow> actor_ok a \<Longrightarrow> actor_ok b"
  by (induction rule: actor_run.induct) (auto intro: actor_ok_step)

lemma actor_ok_reachable: "reachable_actor a \<Longrightarrow> actor_ok a"
  using actor_ok_run actor_ok_new by (auto simp: reachable_actor_def)

text \<open>Every number is with at most one place.\<close>

lemma taken_not_queued:
  assumes "actor_ok a" and "worker_item (worker a) = Some it"
  shows "it \<notin> set (queue_items a)"
proof
  assume "it \<in> set (queue_items a)"
  then have "{#it_sequence it, it_sequence it#} \<subseteq># numbers a"
    using assms(2) by (auto simp: numbers_def dest!: multi_member_split)
  then have "{#it_sequence it, it_sequence it#} \<subseteq># mset [0..<next_sequence a]"
    using assms(1) by (auto simp: actor_ok_def intro: subset_mset.order_trans)
  then have "2 \<le> count (mset [0..<next_sequence a]) (it_sequence it)"
    by (auto dest: mset_subset_eq_count [of _ _ "it_sequence it"])
  then show False by (simp add: count_mset_set' split: if_splits)
qed

section \<open>The order of service\<close>

lemma before_irrefl [simp]: "\<not> item_before x x"
  by (simp add: item_before_def)

text \<open>While two items are queued, the later one waits until the earlier one has been started.\<close>

lemma order_of_start:
  assumes "actor_run a es b" and "actor_ok a" and "x \<in> set (queue_items a)" and "y \<in> set (queue_items a)"
    and "item_before x y"
  shows "Start x \<in> set (takeWhile (\<lambda>e. e \<noteq> Start y) es)
    \<or> Start y \<notin> set es \<and> y \<in> set (queue_items b) \<and> (x \<in> set (queue_items b) \<or> worker b = Taken x)"
  using assms
proof (induction rule: actor_run.induct)
  case (stay a)
  then show ?case by simp
next
  case (more a es b e c)
  then have ok: "actor_ok b" using actor_ok_run by blast
  consider (past) "Start x \<in> set (takeWhile (\<lambda>e. e \<noteq> Start y) es)"
    | (queued) "Start y \<notin> set es" "y \<in> set (queue_items b)" "x \<in> set (queue_items b)"
    | (taken) "Start y \<notin> set es" "y \<in> set (queue_items b)" "worker b = Taken x"
    using more by blast
  then show ?case
  proof cases
    case past
    then show ?thesis
      by (cases "Start y \<in> set es") (auto simp: takeWhile_append dest: set_takeWhileD)
  next
    case queued
    have no: "worker b \<noteq> Taken y" using taken_not_queued [OF ok, of y] queued by auto
    from more.hyps(2) show ?thesis
    proof cases
      case (take)
      obtain m where m: "\<And>z. z \<in> set (queue_items b) \<Longrightarrow> \<not> item_before z m"
        "c = b\<lparr>queue_items := remove1 m (queue_items b), worker := Taken m\<rparr>"
        using take by (metis take_itemE)
      then have "m \<noteq> y" using queued more.prems by auto
      then show ?thesis using m queued take by (cases "x = m") auto
    qed (use queued no in \<open>auto simp: step_defs\<close>)
  next
    case taken
    from more.hyps(2) show ?thesis
      by cases (use taken more.prems in \<open>auto simp: step_defs takeWhile_append\<close>)
  qed
qed

section \<open>Every waiting call is answered\<close>

text \<open>A run of the worker alone, the calls ending as \<open>f\<close> says, and the steps that it has left.\<close>

fun by_worker :: "(actor_item \<Rightarrow> 'v outcome) \<Rightarrow> 'v actor_event \<Rightarrow> bool" where
  "by_worker f Take = True"
| "by_worker f (Start it) = True"
| "by_worker f (End it out) = (out = f it)"
| "by_worker f Release = True"
| "by_worker f Signal = True"
| "by_worker f _ = False"

fun stage :: "'v worker_at \<Rightarrow> nat" where
  "stage Getting = 0" | "stage (Taken it) = 4" | "stage (Calling it) = 3"
| "stage (Called it out) = 2" | "stage (Signalling it out) = 1"

definition work_left :: "'v actor \<Rightarrow> nat" where
  "work_left a = 5 * length (queue_items a) + stage (worker a)"

lemma worker_step:
  assumes "0 < work_left a"
  obtains e b where "actor_step a e b" "by_worker f e" "work_left a = Suc (work_left b)" "callers b = callers a"
proof (cases "worker a")
  case Getting
  with assms have q: "queue_items a \<noteq> []" by (auto simp: work_left_def)
  then obtain m where m: "m \<in> set (queue_items a)"
    "take_item a = a\<lparr>queue_items := remove1 m (queue_items a), worker := Taken m\<rparr>" by (metis take_itemE)
  then have "Suc (length (remove1 m (queue_items a))) = length (queue_items a)"
    by (metis Suc_pred length_pos_if_in_set length_remove1 One_nat_def)
  then show ?thesis
    using Getting m(2) by (intro that [OF actor_step.take [OF Getting q]]) (auto simp: work_left_def)
next
  case (Taken it)
  then show ?thesis using that [OF actor_step.start] by (auto simp: work_left_def step_defs)
next
  case (Calling it)
  then show ?thesis using that [OF actor_step.end_of [where out = "f it"]] by (auto simp: work_left_def step_defs)
next
  case (Called it out)
  then show ?thesis using that [OF actor_step.release] by (auto simp: work_left_def step_defs)
next
  case (Signalling it out)
  then show ?thesis using that [OF actor_step.signal] by (auto simp: work_left_def step_defs)
qed

lemma actor_run_Cons: "actor_run b es c \<Longrightarrow> actor_step a e b \<Longrightarrow> actor_run a (e # es) c"
proof (induction rule: actor_run.induct)
  case (stay b)
  then show ?case using actor_run.more [OF actor_run.stay, of a e b] by simp
next
  case (more b es c e' d)
  then show ?case using actor_run.more [of a "e # es" c e' d] by simp
qed

lemma actor_run_append: "actor_run b es c \<Longrightarrow> actor_run a ds b \<Longrightarrow> actor_run a (ds @ es) c"
  by (induction rule: actor_run.induct) (auto simp flip: append_assoc intro: actor_run.more)

lemma worker_drains:
  "\<exists>es b. actor_run a es b \<and> list_all (by_worker f) es \<and> length es = work_left a \<and> work_left b = 0 \<and> callers b = callers a"
proof (induction "work_left a" arbitrary: a)
  case 0
  then show ?case by (metis actor_run.stay list.pred_inject(1) list.size(3))
next
  case (Suc n)
  then have "0 < work_left a" by simp
  then obtain e b where step: "actor_step a e b" "by_worker f e" "work_left a = Suc (work_left b)" "callers b = callers a"
    by (rule worker_step)
  then obtain es c where "actor_run b es c" "list_all (by_worker f) es" "length es = work_left b" "work_left c = 0"
    "callers c = callers b" using Suc by (metis nat.inject)
  then show ?case using step by (intro exI [of _ "e # es"] exI [of _ c]) (auto intro: actor_run_Cons)
qed

lemma work_left_bound: "actor_ok a \<Longrightarrow> work_left a \<le> 484"
  by (cases "worker a") (auto simp: actor_ok_def work_left_def QUEUE_MAX_def)

lemma no_work_answers:
  assumes "actor_ok b" and "work_left b = 0" and "map_of (callers b) k = Some (Waiting it)"
  shows "map_of (done_items b) (it_sequence it) \<noteq> None"
proof -
  have "queue_items b = []" "worker b = Getting"
    using assms(2) by (auto simp: work_left_def elim: stage.elims)
  then have "it_sequence it \<in> fst ` set (done_items b)" using assms(1,3) by (auto simp: actor_ok_def awaited_def)
  then show ?thesis by (simp add: map_of_eq_None_iff)
qed

section \<open>Evaluation of runs\<close>

text \<open>The step that an event stands for, where it is possible.\<close>

fun actor_do :: "'v actor \<Rightarrow> 'v actor_event \<Rightarrow> 'v actor option" where
  "actor_do a (Submit k p label) = (if map_of (callers a) k = None then Some (admit k p label a) else None)"
| "actor_do a (Number k) = (case map_of (callers a) k of Some (Admitted p label) \<Rightarrow> Some (number_item k p label a) | _ \<Rightarrow> None)"
| "actor_do a (Put k) = (case map_of (callers a) k of
     Some (Numbered it) \<Rightarrow> if length (queue_items a) < QUEUE_MAX then Some (put_item k it a) else None | _ \<Rightarrow> None)"
| "actor_do a (PutFull k) = (case map_of (callers a) k of
     Some (Numbered it) \<Rightarrow> if QUEUE_MAX \<le> length (queue_items a) then Some (move k (Refused (it_priority it)) a) else None
   | _ \<Rightarrow> None)"
| "actor_do a (GiveBack k) = (case map_of (callers a) k of Some (Refused p) \<Rightarrow> Some (give_back k p a) | _ \<Rightarrow> None)"
| "actor_do a (Collect k) = (case map_of (callers a) k of
     Some (Waiting it) \<Rightarrow> map_option (\<lambda>out. move k (Returned out) a) (map_of (done_items a) (it_sequence it)) | _ \<Rightarrow> None)"
| "actor_do a (GiveUp k) = (case map_of (callers a) k of
     Some (Waiting it) \<Rightarrow> if map_of (done_items a) (it_sequence it) = None then Some (move k (Returned wait_timeout) a) else None
   | _ \<Rightarrow> None)"
| "actor_do a (Nested k out) = (case (map_of (callers a) k, worker a) of
     (None, Calling it) \<Rightarrow> Some (move k (Returned out) a) | _ \<Rightarrow> None)"
| "actor_do a Take = (if queue_items a = [] then None else case worker a of Getting \<Rightarrow> Some (take_item a) | _ \<Rightarrow> None)"
| "actor_do a (Start it) = (case worker a of Taken it' \<Rightarrow> if it' = it then Some (start_call it a) else None | _ \<Rightarrow> None)"
| "actor_do a (End it out) = (case worker a of Calling it' \<Rightarrow> if it' = it then Some (end_call it out a) else None | _ \<Rightarrow> None)"
| "actor_do a Release = (case worker a of Called it out \<Rightarrow> Some (release it out a) | _ \<Rightarrow> None)"
| "actor_do a Signal = (case worker a of Signalling it out \<Rightarrow> Some (signal it out a) | _ \<Rightarrow> None)"

lemma actor_do_step: "actor_do a e = Some b \<Longrightarrow> actor_step a e b"
  by (cases e) (auto split: option.splits caller.splits worker_at.splits if_splits intro: actor_step.intros)

fun actor_do_all :: "'v actor \<Rightarrow> 'v actor_event list \<Rightarrow> 'v actor option" where
  "actor_do_all a [] = Some a"
| "actor_do_all a (e # es) = (case actor_do a e of None \<Rightarrow> None | Some b \<Rightarrow> actor_do_all b es)"

lemma actor_do_all_run: "actor_do_all a es = Some b \<Longrightarrow> actor_run a es b"
  by (induction a es rule: actor_do_all.induct)
    (auto split: option.splits intro: actor_run.stay actor_run_Cons actor_do_step)

definition sample_events :: "bool actor_event list" where
  "sample_events = [Submit 0 50 ''rpc:get:firewall'', Number 0, Submit 1 10 ''rpc:set:firewall'', Number 1, Put 0, Put 1]"

definition sample_actor :: "bool actor" where
  "sample_actor = the (actor_do_all new_actor sample_events)"

lemma sample_run: "actor_run new_actor sample_events sample_actor"
  by (rule actor_do_all_run) code_simp

definition sample_first :: actor_item where
  "sample_first = \<lparr>it_priority = 10, it_sequence = 1, it_label = ''rpc:set:firewall''\<rparr>"

definition sample_second :: actor_item where
  "sample_second = \<lparr>it_priority = 50, it_sequence = 0, it_label = ''rpc:get:firewall''\<rparr>"

section \<open>Properties\<close>

text \<open>C17: in every interleaving of the callers and the worker, the counter of foreground calls is
  exactly the number of admitted calls that the worker has not started, the active priority is that of
  the call in progress, the queue is never longer than its limit, and no two of the calls that were numbered, be they
  before the queue, in it, in progress or finished, share a number; so background work is admitted
  only when no foreground call is waiting or running and nothing is queued.\<close>

theorem actor_accounting:
  assumes "reachable_actor a"
  shows "foreground_pending a = int (waiting_foreground a) \<and> active_priority a = in_call (worker a)
    \<and> length (queue_items a) \<le> QUEUE_MAX \<and> count (numbers a) n \<le> 1
    \<and> (must_defer PRIORITY_BACKGROUND a \<or> waiting_foreground a = 0 \<and> in_call (worker a) = None \<and> queue_items a = [])"
proof -
  have ok: "actor_ok a" using assms by (rule actor_ok_reachable)
  then have "count (numbers a) n \<le> count (mset [0..<next_sequence a]) n" by (simp add: actor_ok_def mset_subset_eq_count)
  also have "\<dots> \<le> 1" by (cases "n < next_sequence a") simp_all
  finally show ?thesis using ok by (auto simp: actor_ok_def must_defer_def)
qed

theorem actor_accounting_witness:
  "foreground_pending sample_actor = 1 \<and> waiting_foreground sample_actor = 1"
proof -
  have "reachable_actor sample_actor" using sample_run by (auto simp: reachable_actor_def)
  note actor_accounting [OF this]
  moreover have "foreground_pending sample_actor = 1" by code_simp
  ultimately show ?thesis by simp
qed

text \<open>Of two queued calls the worker starts the one with the lower priority number first, and of two
  calls with the same priority the one with the earlier sequence number, whatever is submitted meanwhile.\<close>

theorem actor_in_order:
  assumes "actor_run new_actor ds a" and "actor_run a es b"
    and "x \<in> set (queue_items a)" and "y \<in> set (queue_items a)" and "item_before x y" and "Start y \<in> set es"
  shows "Start x \<in> set (takeWhile (\<lambda>e. e \<noteq> Start y) es)"
  using order_of_start [OF assms(2) actor_ok_run [OF assms(1) actor_ok_new] assms(3-5)] assms(6) by blast

definition sample_service :: "bool actor_event list" where
  "sample_service = [Take, Start sample_first, End sample_first (Value True), Release, Signal, Take, Start sample_second]"

theorem actor_in_order_witness:
  "Start sample_first \<in> set (takeWhile (\<lambda>e. e \<noteq> Start sample_second) sample_service)"
  by (rule actor_in_order [OF sample_run actor_do_all_run [of _ _ "the (actor_do_all sample_actor sample_service)"]])
    code_simp+

text \<open>C18: a call that waits for its item is answered by the steps of the worker alone, at most 484 of them,
  whatever the calls before it return or raise: the actor does not deadlock and no call ends the worker.\<close>

theorem actor_call_answered:
  assumes "reachable_actor a" and "map_of (callers a) k = Some (Waiting it)"
  shows "\<exists>es b. actor_run a es b \<and> list_all (by_worker f) es \<and> length es \<le> 484
    \<and> map_of (callers b) k = Some (Waiting it) \<and> map_of (done_items b) (it_sequence it) \<noteq> None"
proof -
  have ok: "actor_ok a" using assms(1) by (rule actor_ok_reachable)
  obtain es b where run: "actor_run a es b" "list_all (by_worker f) es" "length es = work_left a" "work_left b = 0"
    "callers b = callers a"
    using worker_drains by blast
  moreover have "actor_ok b" using run(1) ok by (rule actor_ok_run)
  ultimately show ?thesis using assms(2) no_work_answers work_left_bound [OF ok] by metis
qed

theorem actor_call_answered_witness:
  "\<exists>es b. actor_run sample_actor es b \<and> map_of (done_items b) 0 \<noteq> None"
proof -
  have "map_of (callers sample_actor) 0 = Some (Waiting sample_second)" by code_simp
  moreover have "reachable_actor sample_actor" using sample_run by (auto simp: reachable_actor_def)
  ultimately show ?thesis
    using actor_call_answered [of sample_actor 0 sample_second "\<lambda>it. Value True"] by (auto simp: sample_second_def)
qed

text \<open>A call that is answered with \<open>CONTROL_QUEUE_TIMEOUT\<close> stays in the queue: the write that its caller
  was told has failed is made later.\<close>

theorem timed_out_call_is_made:
  "\<exists>b it. actor_run new_actor [Submit 0 10 ''rpc:set:wifi'', Number 0, Put 0, GiveUp 0, Take, Start it] (b :: bool actor)
    \<and> map_of (callers b) 0 = Some (Returned wait_timeout) \<and> worker b = Calling it \<and> it_label it = ''rpc:set:wifi''"
proof -
  let ?it = "\<lparr>it_priority = 10, it_sequence = 0, it_label = ''rpc:set:wifi''\<rparr>"
  let ?es = "[Submit 0 10 ''rpc:set:wifi'', Number 0, Put 0, GiveUp 0, Take, Start ?it] :: bool actor_event list"
  let ?b = "the (actor_do_all new_actor ?es)"
  have "actor_run new_actor ?es ?b" by (rule actor_do_all_run) code_simp
  moreover have "map_of (callers ?b) 0 = Some (Returned wait_timeout)" "worker ?b = Calling ?it" by code_simp+
  ultimately show ?thesis by force
qed
end
