(* ===== verification/SlowCache.thy ===== *)
theory SlowCache
  imports HubCore AlistSum
begin

text \<open>
  The cache of slow router reads (\<open>router_slow_cache_patch.py\<close>, over \<open>TinyTtlCache\<close> of
  \<open>router_rpc.py\<close>): a stale row is served at once while one background thread reads the router again. A
  step is what a thread does between two calls of a loader; what a loader returns is the label of a step.
  Times are whole seconds. Each cached value carries the scope (the digest of the configured address and
  password) of the router it was read from, which the code does not keep; no operation looks at it.
\<close>

section \<open>State\<close>

record cache_config =
  slow_ttls :: "(string \<times> int) list"
  retry_sec :: int
  prune_interval :: int
  max_stale :: int
  max_entries :: int

text \<open>The environment variables of the module, with their defaults and lower bounds.\<close>

definition cache_config_of :: "(string \<Rightarrow> int option) \<Rightarrow> cache_config" where
  "cache_config_of env = (let get = (\<lambda>k d. case env k of None \<Rightarrow> d | Some v \<Rightarrow> v) in
     \<lparr>slow_ttls = [(''native-portmap'', get ''ROUTER_PORT_MAPPING_CACHE_TTL_SEC'' 30),
         (''upnp'', get ''ROUTER_UPNP_CACHE_TTL_SEC'' 30), (''firewall'', get ''ROUTER_FIREWALL_CACHE_TTL_SEC'' 60),
         (''ddns'', get ''ROUTER_DDNS_CACHE_TTL_SEC'' 60)],
      retry_sec = max 5 (get ''ROUTER_CACHE_REFRESH_RETRY_SEC'' 15),
      prune_interval = max 60 (get ''ROUTER_CACHE_PRUNE_INTERVAL_SEC'' 300),
      max_stale = max 600 (get ''ROUTER_CACHE_MAX_STALE_SEC'' 86400),
      max_entries = max 8 (get ''ROUTER_CACHE_MAX_ENTRIES'' 64)\<rparr>)"

type_synonym origin_value = "string \<times> json"
type_synonym cache_row = "int \<times> origin_value"

text \<open>A background thread, and a call of \<open>cached\<close> that reads the router itself.\<close>

datatype refresher = RLoading string | RLoaded string origin_value | RFailed string | REnding string | REnded

datatype reader = CLoading string | CLoaded string origin_value | CAnswered origin_value | CRaised

record slow_cache =
  cache_rows :: "(string \<times> cache_row) list"
  refreshing :: "string list"
  retry_after :: "(string \<times> int) list"
  cache_scope :: "string option"
  last_prune :: int
  refreshers :: "(nat \<times> refresher) list"
  readers :: "(nat \<times> reader) list"
  configured :: "string option"

text \<open>A new client; \<open>configured\<close> is what \<open>_session_cache_key\<close> gives, \<open>None\<close> when it raises.\<close>

definition new_cache :: "string option \<Rightarrow> slow_cache" where
  "new_cache key = \<lparr>cache_rows = [], refreshing = [], retry_after = [], cache_scope = None, last_prune = 0,
     refreshers = [], readers = [], configured = key\<rparr>"

definition scope_now :: "slow_cache \<Rightarrow> string" where
  "scope_now s = (case configured s of None \<Rightarrow> [] | Some key \<Rightarrow> key)"

section \<open>Operations\<close>

text \<open>\<open>TinyTtlCache.get\<close> and \<open>put\<close>.\<close>

definition ttl_get :: "int \<Rightarrow> string \<Rightarrow> int \<Rightarrow> slow_cache \<Rightarrow> origin_value option" where
  "ttl_get now key ttl s = (case map_of (cache_rows s) key of
     None \<Rightarrow> None | Some (at, v) \<Rightarrow> if ttl < now - at then None else Some v)"

definition cache_put :: "int \<Rightarrow> string \<Rightarrow> origin_value \<Rightarrow> slow_cache \<Rightarrow> slow_cache" where
  "cache_put now key v s = s\<lparr>cache_rows := dset key (now, v) (cache_rows s)\<rparr>"

definition ensure_scope :: "int \<Rightarrow> slow_cache \<Rightarrow> slow_cache" where
  "ensure_scope now s = (case cache_scope s of
     None \<Rightarrow> s\<lparr>cache_scope := Some (scope_now s)\<rparr>
   | Some previous \<Rightarrow> if previous = scope_now s then s
       else s\<lparr>cache_rows := [], refreshing := [], retry_after := [], cache_scope := Some (scope_now s), last_prune := now\<rparr>)"

definition drop_oldest :: "nat \<Rightarrow> (string \<times> cache_row) list \<Rightarrow> (string \<times> cache_row) list" where
  "drop_oldest n rows = fold dpop (map fst (take n (sort_key (\<lambda>r. fst (snd r)) rows))) rows"

definition prune_cache :: "cache_config \<Rightarrow> int \<Rightarrow> slow_cache \<Rightarrow> slow_cache" where
  "prune_cache cfg now s =
     (if now - last_prune s < prune_interval cfg then s
      else let kept = filter (\<lambda>r. \<not> max_stale cfg < now - fst (snd r)) (cache_rows s) in
        s\<lparr>last_prune := now, retry_after := filter (\<lambda>r. \<not> snd r \<le> now) (retry_after s),
          cache_rows := drop_oldest (nat (int (length kept) - max_entries cfg)) kept\<rparr>)"

definition refresh_succeeded :: "string \<Rightarrow> slow_cache \<Rightarrow> slow_cache" where
  "refresh_succeeded key s = s\<lparr>retry_after := dpop key (retry_after s)\<rparr>"

definition refresh_failed :: "cache_config \<Rightarrow> int \<Rightarrow> string \<Rightarrow> slow_cache \<Rightarrow> slow_cache" where
  "refresh_failed cfg now key s = s\<lparr>retry_after := dset key (now + retry_sec cfg) (retry_after s)\<rparr>"

definition finish_refresh :: "string \<Rightarrow> slow_cache \<Rightarrow> slow_cache" where
  "finish_refresh key s = s\<lparr>refreshing := removeAll key (refreshing s)\<rparr>"

definition set_refresher :: "nat \<Rightarrow> refresher \<Rightarrow> slow_cache \<Rightarrow> slow_cache" where
  "set_refresher w st s = s\<lparr>refreshers := dset w st (refreshers s)\<rparr>"

definition set_reader :: "nat \<Rightarrow> reader \<Rightarrow> slow_cache \<Rightarrow> slow_cache" where
  "set_reader c st s = s\<lparr>readers := dset c st (readers s)\<rparr>"

text \<open>Starting a background thread \<open>w\<close>, unless one is at work or the key waits after a failure.\<close>

definition start_refresh :: "int \<Rightarrow> nat \<Rightarrow> string \<Rightarrow> slow_cache \<Rightarrow> slow_cache" where
  "start_refresh now w key s =
     (if key \<in> set (refreshing s) then s
      else if now < (case map_of (retry_after s) key of None \<Rightarrow> 0 | Some at \<Rightarrow> at) then s
      else set_refresher w (RLoading key) (s\<lparr>refreshing := key # refreshing s\<rparr>))"

text \<open>\<open>cached\<close> up to its answer or its call of the loader; \<open>c\<close> names the call, \<open>w\<close> a thread it may start.\<close>

definition cached_value :: "cache_config \<Rightarrow> int \<Rightarrow> nat \<Rightarrow> nat \<Rightarrow> string \<Rightarrow> int \<Rightarrow> bool \<Rightarrow> slow_cache \<Rightarrow> slow_cache" where
  "cached_value cfg now c w key ttl force s0 =
     (let s = prune_cache cfg now (ensure_scope now s0) in
      case map_of (slow_ttls cfg) key of
        None \<Rightarrow> (case if force then None else ttl_get now key ttl s of
            None \<Rightarrow> set_reader c (CLoading key) s
          | Some v \<Rightarrow> if snd v = JNull then set_reader c (CLoading key) s else set_reader c (CAnswered v) s)
      | Some slow_ttl \<Rightarrow>
          if force then set_reader c (CLoading key) s
          else case map_of (cache_rows s) key of
            None \<Rightarrow> set_reader c (CLoading key) s
          | Some (at, v) \<Rightarrow>
              if now - at \<le> max 1 slow_ttl then set_reader c (CAnswered v) s
              else set_reader c (CAnswered v) (start_refresh now w key s))"

text \<open>The end of a synchronous read: the value is stored and answered.\<close>

definition store_read :: "cache_config \<Rightarrow> int \<Rightarrow> nat \<Rightarrow> string \<Rightarrow> origin_value \<Rightarrow> slow_cache \<Rightarrow> slow_cache" where
  "store_read cfg now c key v s = set_reader c (CAnswered v) (cache_put now key v
     (if map_of (slow_ttls cfg) key = None then s else refresh_succeeded key s))"

text \<open>The end of a background read.\<close>

definition store_refresh :: "int \<Rightarrow> nat \<Rightarrow> string \<Rightarrow> origin_value \<Rightarrow> slow_cache \<Rightarrow> slow_cache" where
  "store_refresh now w key v s = set_refresher w (REnding key) (refresh_succeeded key (cache_put now key v s))"

definition fail_refresh :: "cache_config \<Rightarrow> int \<Rightarrow> nat \<Rightarrow> string \<Rightarrow> slow_cache \<Rightarrow> slow_cache" where
  "fail_refresh cfg now w key s = set_refresher w (REnding key) (refresh_failed cfg now key s)"

definition end_refresh :: "nat \<Rightarrow> string \<Rightarrow> slow_cache \<Rightarrow> slow_cache" where
  "end_refresh w key s = set_refresher w REnded (finish_refresh key s)"

section \<open>Interleavings\<close>

datatype cache_event =
    Cached int nat nat string int bool | Read nat "json option" | StoreRead int nat
  | Load nat "json option" | StoreLoad int nat | FailLoad int nat | EndLoad nat | Configure "string option"

text \<open>A loader reads the router that is configured when it runs.\<close>

definition read_now :: "slow_cache \<Rightarrow> json \<Rightarrow> origin_value" where
  "read_now s v = (scope_now s, v)"

fun cache_do :: "cache_config \<Rightarrow> slow_cache \<Rightarrow> cache_event \<Rightarrow> slow_cache option" where
  "cache_do cfg s (Cached now c w key ttl force) =
     (if map_of (readers s) c = None \<and> map_of (refreshers s) w = None then Some (cached_value cfg now c w key ttl force s) else None)"
| "cache_do cfg s (Read c out) = (case map_of (readers s) c of
     Some (CLoading key) \<Rightarrow> Some (set_reader c (case out of None \<Rightarrow> CRaised | Some v \<Rightarrow> CLoaded key (read_now s v)) s) | _ \<Rightarrow> None)"
| "cache_do cfg s (StoreRead now c) = (case map_of (readers s) c of
     Some (CLoaded key v) \<Rightarrow> Some (store_read cfg now c key v s) | _ \<Rightarrow> None)"
| "cache_do cfg s (Load w out) = (case map_of (refreshers s) w of
     Some (RLoading key) \<Rightarrow> Some (set_refresher w (case out of None \<Rightarrow> RFailed key | Some v \<Rightarrow> RLoaded key (read_now s v)) s)
   | _ \<Rightarrow> None)"
| "cache_do cfg s (StoreLoad now w) = (case map_of (refreshers s) w of
     Some (RLoaded key v) \<Rightarrow> Some (store_refresh now w key v s) | _ \<Rightarrow> None)"
| "cache_do cfg s (FailLoad now w) = (case map_of (refreshers s) w of
     Some (RFailed key) \<Rightarrow> Some (fail_refresh cfg now w key s) | _ \<Rightarrow> None)"
| "cache_do cfg s (EndLoad w) = (case map_of (refreshers s) w of
     Some (REnding key) \<Rightarrow> Some (end_refresh w key s) | _ \<Rightarrow> None)"
| "cache_do cfg s (Configure key) = Some (s\<lparr>configured := key\<rparr>)"

fun cache_run :: "cache_config \<Rightarrow> slow_cache \<Rightarrow> cache_event list \<Rightarrow> slow_cache option" where
  "cache_run cfg s [] = Some s"
| "cache_run cfg s (e # es) = (case cache_do cfg s e of None \<Rightarrow> None | Some t \<Rightarrow> cache_run cfg t es)"

text \<open>A run in which the router is only exchanged while no read of it is in progress.\<close>

fun refresher_busy :: "refresher \<Rightarrow> string option" where
  "refresher_busy (RLoading key) = Some key" | "refresher_busy (RLoaded key v) = Some key"
| "refresher_busy (RFailed key) = Some key" | "refresher_busy (REnding key) = Some key"
| "refresher_busy REnded = None"

fun reader_busy :: "reader \<Rightarrow> bool" where
  "reader_busy (CLoading key) = True" | "reader_busy (CLoaded key v) = True"
| "reader_busy _ = False"

definition idle_cache :: "slow_cache \<Rightarrow> bool" where
  "idle_cache s = (list_all (\<lambda>(w, r). refresher_busy r = None) (refreshers s) \<and> list_all (\<lambda>(c, r). \<not> reader_busy r) (readers s))"

fun is_configure :: "cache_event \<Rightarrow> bool" where
  "is_configure (Configure key) = True" | "is_configure _ = False"

fun quiet_run :: "cache_config \<Rightarrow> slow_cache \<Rightarrow> cache_event list \<Rightarrow> slow_cache option" where
  "quiet_run cfg s [] = Some s"
| "quiet_run cfg s (e # es) =
     (if is_configure e \<and> \<not> idle_cache s then None
      else case cache_do cfg s e of None \<Rightarrow> None | Some t \<Rightarrow> quiet_run cfg t es)"

section \<open>One reader per key, and data of one router\<close>

definition busy_key :: "refresher \<Rightarrow> string multiset" where
  "busy_key r = (case refresher_busy r of None \<Rightarrow> {#} | Some key \<Rightarrow> {#key#})"

fun refresher_origin :: "refresher \<Rightarrow> string option" where
  "refresher_origin (RLoaded key v) = Some (fst v)" | "refresher_origin _ = None"

fun reader_origin :: "reader \<Rightarrow> string option" where
  "reader_origin (CLoaded key v) = Some (fst v)" | "reader_origin _ = None"

definition one_router :: "slow_cache \<Rightarrow> bool" where
  "one_router s = (
     (\<forall>(key, at, v) \<in> set (cache_rows s). cache_scope s = Some (fst v))
   \<and> (\<not> idle_cache s \<longrightarrow> cache_scope s = Some (scope_now s))
   \<and> (\<forall>(w, r) \<in> set (refreshers s). \<forall>o'. refresher_origin r = Some o' \<longrightarrow> o' = scope_now s)
   \<and> (\<forall>(c, r) \<in> set (readers s). \<forall>o'. reader_origin r = Some o' \<longrightarrow> o' = scope_now s))"

definition single_flight :: "slow_cache \<Rightarrow> bool" where
  "single_flight s = (mset (refreshing s) = table_sum busy_key (refreshers s) \<and> distinct (refreshing s))"

definition cache_ok :: "slow_cache \<Rightarrow> bool" where
  "cache_ok s = (one_router s \<and> single_flight s)"

lemma total_busy_none: "list_all (\<lambda>(w, r). refresher_busy r = None) rs \<Longrightarrow> table_sum busy_key rs = {#}"
  by (induction rs) (auto simp: table_sum_def busy_key_def)

lemma set_fold_dpop: "set (fold dpop ks rows) \<subseteq> set rows"
proof (induction ks arbitrary: rows)
  case (Cons k ks)
  have "set (dpop k rows) \<subseteq> set rows" by (auto simp: AList.delete_eq)
  with Cons.IH [of "dpop k rows"] show ?case by auto
qed simp

lemma prune_keeps [simp]:
  "cache_scope (prune_cache cfg now s) = cache_scope s" "configured (prune_cache cfg now s) = configured s"
  "scope_now (prune_cache cfg now s) = scope_now s" "refreshing (prune_cache cfg now s) = refreshing s"
  "refreshers (prune_cache cfg now s) = refreshers s" "readers (prune_cache cfg now s) = readers s"
  "idle_cache (prune_cache cfg now s) = idle_cache s"
  by (auto simp: prune_cache_def Let_def scope_now_def idle_cache_def)

lemma prune_rows: "set (cache_rows (prune_cache cfg now s)) \<subseteq> set (cache_rows s)"
  by (auto simp: prune_cache_def Let_def drop_oldest_def dest!: subsetD [OF set_fold_dpop])

lemma prune_ok:
  assumes "cache_ok s"
  shows "cache_ok (prune_cache cfg now s)"
  using assms prune_rows [of cfg now s] by (auto simp: cache_ok_def one_router_def single_flight_def)

lemma ensure_scope_ok:
  assumes "cache_ok s"
  shows "cache_ok (ensure_scope now s) \<and> cache_scope (ensure_scope now s) = Some (scope_now s)"
proof -
  have "table_sum busy_key (refreshers s) = {#}" if "cache_scope s \<noteq> Some (scope_now s)"
    using assms that total_busy_none by (auto simp: cache_ok_def one_router_def idle_cache_def)
  then show ?thesis
    using assms
    by (auto simp: cache_ok_def one_router_def single_flight_def ensure_scope_def scope_now_def idle_cache_def split: option.splits)
qed

lemma ensure_scope_keeps [simp]:
  "scope_now (ensure_scope now s) = scope_now s" "refreshers (ensure_scope now s) = refreshers s"
  "readers (ensure_scope now s) = readers s"
  by (auto simp: ensure_scope_def scope_now_def split: option.splits)

lemma in_dset: "x \<in> set (dset k v d) \<Longrightarrow> x = (k, v) \<or> x \<in> set d"
  using set_dset [of k v d] by auto

lemma set_reader_ok:
  assumes "cache_ok s" and "cache_scope s = Some (scope_now s)"
    and "\<And>o'. reader_origin r = Some o' \<Longrightarrow> o' = scope_now s"
  shows "cache_ok (set_reader c r s)"
  using assms
  by (auto simp: cache_ok_def one_router_def single_flight_def set_reader_def scope_now_def dest!: in_dset)

lemma start_refresh_ok:
  assumes "cache_ok s" and "cache_scope s = Some (scope_now s)" and "map_of (refreshers s) w = None"
  shows "cache_ok (start_refresh now w key s) \<and> scope_now (start_refresh now w key s) = scope_now s
    \<and> cache_scope (start_refresh now w key s) = cache_scope s \<and> cache_rows (start_refresh now w key s) = cache_rows s
    \<and> readers (start_refresh now w key s) = readers s"
  using assms
  by (auto simp: cache_ok_def one_router_def single_flight_def start_refresh_def set_refresher_def scope_now_def
      total_dset_new busy_key_def idle_cache_def dest!: in_dset)

lemma cached_value_ok:
  assumes "cache_ok s" and "map_of (refreshers s) w = None"
  shows "cache_ok (cached_value cfg now c w key ttl force s)"
    and "map_of (readers (cached_value cfg now c w key ttl force s)) c = Some (CAnswered v) \<Longrightarrow> fst v = scope_now s"
proof -
  let ?s = "prune_cache cfg now (ensure_scope now s)"
  have ok: "cache_ok ?s" "cache_scope ?s = Some (scope_now ?s)" "map_of (refreshers ?s) w = None"
    using assms ensure_scope_ok [OF assms(1), of now] by (auto intro: prune_ok)
  have rows: "fst v = scope_now s" if "map_of (cache_rows ?s) key = Some (at, v)" for at v
    using ok that by (fastforce simp: cache_ok_def one_router_def dest!: map_of_SomeD)
  have keep: "cache_ok (set_reader c r ?s)" if "reader_origin r = None" for r
    by (rule set_reader_ok [OF ok(1,2)]) (simp add: that)
  have "cache_ok (set_reader c r (start_refresh now w key ?s))" if "reader_origin r = None" for r
    by (rule set_reader_ok) (use start_refresh_ok [OF ok, of now key] ok that in auto)
  then show "cache_ok (cached_value cfg now c w key ttl force s)"
    using keep by (auto simp: cached_value_def Let_def split: option.splits)
  show "fst v = scope_now s" if "map_of (readers (cached_value cfg now c w key ttl force s)) c = Some (CAnswered v)"
    using that rows
    by (auto simp: cached_value_def Let_def set_reader_def ttl_get_def split: option.splits if_splits)
qed

lemma busy_not_idle:
  "map_of (readers s) c = Some r \<Longrightarrow> reader_busy r \<Longrightarrow> \<not> idle_cache s"
  "map_of (refreshers s) w = Some x \<Longrightarrow> refresher_busy x = Some key \<Longrightarrow> \<not> idle_cache s"
  by (force simp: idle_cache_def list_all_iff dest!: map_of_SomeD)+

lemma origin_now:
  "one_router s \<Longrightarrow> map_of (readers s) c = Some (CLoaded key v) \<Longrightarrow> fst v = scope_now s"
  "one_router s \<Longrightarrow> map_of (refreshers s) w = Some (RLoaded key v) \<Longrightarrow> fst v = scope_now s"
  by (fastforce simp: one_router_def dest!: map_of_SomeD)+

text \<open>A background thread that moves on keeps the key that it works for, or gives it up.\<close>

lemma set_refresher_ok:
  assumes "cache_ok s" and "map_of (refreshers s) w = Some x" and "refresher_busy x = Some key"
    and "refresher_busy y = Some key" and "\<And>o'. refresher_origin y = Some o' \<Longrightarrow> o' = scope_now s"
  shows "cache_ok (set_refresher w y s)"
proof -
  have "cache_scope s = Some (scope_now s)" using assms(1) busy_not_idle(2) [OF assms(2,3)] by (simp add: cache_ok_def one_router_def)
  moreover have "table_sum busy_key (dset w y (refreshers s)) = table_sum busy_key (refreshers s)"
    using total_split [OF assms(2), of busy_key] assms(3,4) by (auto simp: busy_key_def)
  ultimately show ?thesis
    using assms(1,5) by (auto simp: cache_ok_def one_router_def single_flight_def set_refresher_def scope_now_def dest!: in_dset)
qed

lemma retry_ok [simp]: "cache_ok (refresh_succeeded key s) = cache_ok s" "cache_ok (refresh_failed cfg now key s) = cache_ok s"
  by (simp_all add: cache_ok_def one_router_def single_flight_def refresh_succeeded_def refresh_failed_def
      scope_now_def idle_cache_def)

lemma put_ok:
  assumes "cache_ok s" and "\<not> idle_cache s" and "fst v = scope_now s"
  shows "cache_ok (cache_put now key v s)"
  using assms
  by (auto simp: cache_ok_def one_router_def single_flight_def cache_put_def scope_now_def idle_cache_def dest!: in_dset)

lemma cache_do_ok:
  assumes "cache_ok s" and "cache_do cfg s e = Some t" and "is_configure e \<Longrightarrow> idle_cache s"
  shows "cache_ok t"
proof (cases e)
  case (Cached now c w key ttl force)
  then show ?thesis using assms cached_value_ok(1) by (auto split: if_splits)
next
  case (Read c out)
  then obtain key where r: "map_of (readers s) c = Some (CLoading key)"
    "t = set_reader c (case out of None \<Rightarrow> CRaised | Some v \<Rightarrow> CLoaded key (read_now s v)) s"
    using assms(2) by (auto split: option.splits reader.splits)
  have "\<not> idle_cache s" using busy_not_idle(1) [OF r(1)] by simp
  then have "cache_scope s = Some (scope_now s)" using assms(1) by (simp add: cache_ok_def one_router_def)
  then show ?thesis
    unfolding r(2) by (rule set_reader_ok [OF assms(1)]) (auto simp: read_now_def split: option.splits)
next
  case (StoreRead now c)
  then obtain key v where r: "map_of (readers s) c = Some (CLoaded key v)" "t = store_read cfg now c key v s"
    using assms(2) by (auto split: option.splits reader.splits)
  have "\<not> idle_cache s" "fst v = scope_now s"
    using busy_not_idle(1) [OF r(1)] origin_now(1) [OF _ r(1)] assms(1) by (simp_all add: cache_ok_def)
  then show ?thesis
    using assms(1) r(2)
    by (auto simp: cache_ok_def one_router_def single_flight_def store_read_def set_reader_def cache_put_def
        refresh_succeeded_def scope_now_def idle_cache_def dest!: in_dset)
next
  case (Load w out)
  then obtain key where r: "map_of (refreshers s) w = Some (RLoading key)"
    "t = set_refresher w (case out of None \<Rightarrow> RFailed key | Some v \<Rightarrow> RLoaded key (read_now s v)) s"
    using assms(2) by (auto split: option.splits refresher.splits)
  then show ?thesis
    unfolding r(2) by (intro set_refresher_ok [OF assms(1) r(1), of key]) (auto simp: read_now_def split: option.splits)
next
  case (StoreLoad now w)
  then obtain key v where r: "map_of (refreshers s) w = Some (RLoaded key v)" "t = store_refresh now w key v s"
    using assms(2) by (auto split: option.splits refresher.splits)
  have "\<not> idle_cache s" "fst v = scope_now s"
    using busy_not_idle(2) [OF r(1)] origin_now(2) [OF _ r(1)] assms(1) by (simp_all add: cache_ok_def)
  then have "cache_ok (refresh_succeeded key (cache_put now key v s))"
    using put_ok [OF assms(1)] by simp
  then show ?thesis
    unfolding r(2) store_refresh_def
    by (rule set_refresher_ok) (use r(1) in \<open>auto simp: refresh_succeeded_def cache_put_def\<close>)
next
  case (FailLoad now w)
  then obtain key where r: "map_of (refreshers s) w = Some (RFailed key)" "t = fail_refresh cfg now w key s"
    using assms(2) by (auto split: option.splits refresher.splits)
  have "cache_ok (refresh_failed cfg now key s)"
    using assms(1) by simp
  then show ?thesis
    unfolding r(2) fail_refresh_def
    by (rule set_refresher_ok) (use r(1) in \<open>auto simp: refresh_failed_def\<close>)
next
  case (EndLoad w)
  then obtain key where r: "map_of (refreshers s) w = Some (REnding key)" "t = end_refresh w key s"
    using assms(2) by (auto split: option.splits refresher.splits)
  have "cache_scope s = Some (scope_now s)"
    using assms(1) busy_not_idle(2) [OF r(1)] by (simp add: cache_ok_def one_router_def)
  moreover obtain m where m: "table_sum busy_key (refreshers s) = add_mset key m" "table_sum busy_key (dset w REnded (refreshers s)) = m"
    using total_split [OF r(1), of busy_key] by (auto simp: busy_key_def)
  moreover have "distinct (refreshing s)" "mset (refreshing s) = add_mset key m"
    using assms(1) m(1) by (simp_all add: cache_ok_def single_flight_def)
  moreover from this have "mset (removeAll key (refreshing s)) = m"
    by (simp add: distinct_remove1_removeAll [symmetric])
  ultimately show ?thesis
    using assms(1) unfolding r(2)
    by (auto simp: cache_ok_def one_router_def single_flight_def end_refresh_def set_refresher_def finish_refresh_def
        scope_now_def distinct_removeAll dest!: in_dset)
next
  case (Configure key)
  show ?thesis
  proof -
    have idle: "idle_cache s" and t: "t = s\<lparr>configured := key\<rparr>" using assms Configure by auto
    have "refresher_origin r = None" if "(w, r) \<in> set (refreshers s)" for w r
      using idle that by (cases r) (force simp: idle_cache_def list_all_iff)+
    moreover have "reader_origin r = None" if "(c, r) \<in> set (readers s)" for c r
      using idle that by (cases r) (force simp: idle_cache_def list_all_iff)+
    moreover have "idle_cache t" using idle by (simp add: t idle_cache_def)
    ultimately show ?thesis using assms(1) by (fastforce simp: t cache_ok_def one_router_def single_flight_def)
  qed
qed

lemma quiet_run_ok: "quiet_run cfg s es = Some t \<Longrightarrow> cache_ok s \<Longrightarrow> cache_ok t"
  by (induction cfg s es rule: quiet_run.induct) (auto split: if_splits option.splits intro: cache_do_ok)

lemma new_cache_ok: "cache_ok (new_cache key)"
  by (simp add: cache_ok_def one_router_def single_flight_def new_cache_def idle_cache_def)

lemma total_busy_count: "count (table_sum busy_key rs) key = length (filter (\<lambda>(w, r). refresher_busy r = Some key) rs)"
  by (induction rs) (auto simp: table_sum_def busy_key_def split: option.splits)

section \<open>Bounds\<close>

lemma length_fold_dpop:
  "dict_ok rows \<Longrightarrow> distinct ks \<Longrightarrow> set ks \<subseteq> fst ` set rows \<Longrightarrow> length (fold dpop ks rows) = length rows - length ks"
proof (induction ks arbitrary: rows)
  case (Cons k ks)
  have "set ks \<subseteq> fst ` set (dpop k rows)" using Cons.prems by (fastforce simp: AList.delete_eq)
  moreover have "length (dpop k rows) = length rows - 1"
  proof -
    have "map fst (dpop k rows) = remove1 k (map fst rows)"
      using Cons.prems(1)
      by (simp add: AList.delete_eq distinct_remove1_removeAll removeAll_filter_not_eq filter_map comp_def case_prod_unfold)
    then show ?thesis
      using Cons.prems(3) by (metis length_map length_remove1 list.set_intros(1) list.set_map subset_iff)
  qed
  ultimately show ?case using Cons by simp
qed simp

lemma drop_oldest_length: "dict_ok rows \<Longrightarrow> length (drop_oldest n rows) = length rows - n"
proof -
  assume rows: "dict_ok rows"
  let ?o = "take n (sort_key (\<lambda>r. fst (snd r)) rows)"
  have "distinct (map fst (sort_key (\<lambda>r. fst (snd r)) rows))"
    using rows by (metis mset_eq_imp_distinct_iff mset_map mset_sort)
  then have "distinct (map fst ?o)" by (simp flip: take_map)
  moreover have "set (map fst ?o) \<subseteq> fst ` set rows" by (auto dest!: in_set_takeD intro: image_eqI [rotated])
  ultimately show ?thesis
    unfolding drop_oldest_def using length_fold_dpop [OF rows] by simp
qed

lemma prune_bound:
  assumes "dict_ok (cache_rows s)" and "prune_interval cfg \<le> now - last_prune s" and "0 \<le> max_entries cfg"
  shows "int (length (cache_rows (prune_cache cfg now s))) \<le> max_entries cfg"
proof -
  let ?kept = "filter (\<lambda>r. \<not> max_stale cfg < now - fst (snd r)) (cache_rows s)"
  have "length (cache_rows (prune_cache cfg now s)) = length ?kept - nat (int (length ?kept) - max_entries cfg)"
    using assms(1,2) drop_oldest_length [of ?kept] by (simp add: prune_cache_def Let_def)
  then show ?thesis using assms(3) by linarith
qed

section \<open>Properties\<close>

text \<open>C19: in every interleaving in which the router is not exchanged during a read, at most one background
  thread works for a key, the set of refreshing keys names exactly the keys with a thread, and every
  stored row was read from the router that the cache belongs to.\<close>

theorem slow_cache_consistent:
  assumes "quiet_run cfg (new_cache key) es = Some s"
  shows "distinct (refreshing s)
    \<and> length (filter (\<lambda>(w, r). refresher_busy r = Some k) (refreshers s)) = (if k \<in> set (refreshing s) then 1 else 0)
    \<and> list_all (\<lambda>(k, at, v). cache_scope s = Some (fst v)) (cache_rows s)"
proof -
  have ok: "cache_ok s" using quiet_run_ok [OF assms new_cache_ok] .
  then have "distinct (refreshing s)" "mset (refreshing s) = table_sum busy_key (refreshers s)"
    by (simp_all add: cache_ok_def single_flight_def)
  moreover from this have "count (table_sum busy_key (refreshers s)) k = (if k \<in> set (refreshing s) then 1 else 0)"
    by (metis distinct_count_atmost_1)
  ultimately show ?thesis
    using ok total_busy_count [of "refreshers s" k] by (auto simp: cache_ok_def one_router_def list_all_iff)
qed

definition sample_cfg :: cache_config where
  "sample_cfg = cache_config_of (\<lambda>k. None)"

text \<open>A first read, a stale answer that starts a refresh, and a second call while it is at work.\<close>

definition sample_reads :: "cache_event list" where
  "sample_reads = [Cached 1000 0 0 ''ddns'' 0 False, Read 0 (Some (JInt 1)), StoreRead 1001 0,
     Cached 1100 1 1 ''ddns'' 0 False, Cached 1101 2 2 ''ddns'' 0 False, Load 1 (Some (JInt 2))]"

definition sample_cache :: slow_cache where
  "sample_cache = the (quiet_run sample_cfg (new_cache (Some ''A'')) sample_reads)"

theorem slow_cache_consistent_witness:
  "length (filter (\<lambda>(w, r). refresher_busy r = Some ''ddns'') (refreshers sample_cache)) = 1
    \<and> list_all (\<lambda>(k, at, v). ''A'' = fst v) (cache_rows sample_cache)"
proof -
  have "quiet_run sample_cfg (new_cache (Some ''A'')) sample_reads = Some sample_cache" by code_simp
  note slow_cache_consistent [OF this, of "''ddns''"]
  moreover have "''ddns'' \<in> set (refreshing sample_cache)" "cache_scope sample_cache = Some ''A''" by code_simp+
  ultimately show ?thesis by simp
qed

text \<open>C20: in such interleavings each answer of the cache comes from the router that is configured when the
  call is made, also directly after the address or the password has changed.\<close>

theorem cached_answer_of_router:
  assumes "quiet_run cfg (new_cache key) es = Some s" and "cache_do cfg s (Cached now c w k ttl force) = Some t"
    and "map_of (readers t) c = Some (CAnswered v)"
  shows "fst v = scope_now s"
proof -
  have "cache_ok s" using quiet_run_ok [OF assms(1) new_cache_ok] .
  moreover have "t = cached_value cfg now c w k ttl force s" "map_of (refreshers s) w = None"
    using assms(2) by (simp_all split: if_splits)
  ultimately show ?thesis using cached_value_ok(2) assms(3) by metis
qed

theorem cached_answer_of_router_witness:
  "fst (''A'', JInt 1) = scope_now sample_cache"
proof (rule cached_answer_of_router)
  show "quiet_run sample_cfg (new_cache (Some ''A'')) sample_reads = Some sample_cache" by code_simp
  show "cache_do sample_cfg sample_cache (Cached 1102 3 3 ''ddns'' 0 False)
    = Some (the (cache_do sample_cfg sample_cache (Cached 1102 3 3 ''ddns'' 0 False)))" by code_simp
  show "map_of (readers (the (cache_do sample_cfg sample_cache (Cached 1102 3 3 ''ddns'' 0 False)))) 3
    = Some (CAnswered (''A'', JInt 1))" by code_simp
qed

text \<open>Without that condition it fails: a background read that began before the router was exchanged
  stores its value after the cache has been emptied, and the next call serves it.\<close>

theorem refresh_survives_exchange:
  "\<exists>s. cache_run sample_cfg (new_cache (Some ''A'')) (sample_reads @ [Configure (Some ''B''),
       Cached 1102 3 3 ''firewall'' 0 False, StoreLoad 1103 1, Cached 1104 4 4 ''ddns'' 0 False]) = Some s
    \<and> scope_now s = ''B'' \<and> map_of (readers s) 4 = Some (CAnswered (''A'', JInt 2))"
proof -
  let ?es = "sample_reads @ [Configure (Some ''B''), Cached 1102 3 3 ''firewall'' 0 False, StoreLoad 1103 1,
    Cached 1104 4 4 ''ddns'' 0 False]"
  let ?s = "the (cache_run sample_cfg (new_cache (Some ''A'')) ?es)"
  have "cache_run sample_cfg (new_cache (Some ''A'')) ?es = Some ?s" by code_simp
  moreover have "scope_now ?s = ''B''" "map_of (readers ?s) 4 = Some (CAnswered (''A'', JInt 2))" by code_simp+
  ultimately show ?thesis by blast
qed

text \<open>A failed background read leaves the rows as they are and puts the next one off.\<close>

lemma failed_refresh_keeps:
  "cache_do cfg s (FailLoad now w) = Some t \<Longrightarrow> cache_rows t = cache_rows s"
  "map_of (refreshers s) w = Some (RFailed key) \<Longrightarrow> cache_do cfg s (FailLoad now w) = Some t \<Longrightarrow>
     later < now + retry_sec cfg \<Longrightarrow> start_refresh later w' key t = t"
  by (auto simp: fail_refresh_def refresh_failed_def set_refresher_def start_refresh_def
      split: option.splits refresher.splits)

end
