(* ===== verification/Ipv6.thy ===== *)
theory Ipv6
  imports HubCore Effects IpText
begin

text \<open>
  IPv6 management of the router, \<open>src/router/ipv6\<close>: the mapping between the router's \<open>network6\<close> document
  and the values of the API (\<open>models.py\<close>, \<open>mapper.py\<close>), the read-modify-write service (\<open>service.py\<close>) and
  the handlers (\<open>api.py\<close>). The RPC client is an argument over a router state of any type. Messages are
  ASCII glosses.
\<close>

section \<open>Models\<close>

record ipv6_status =
  st_connected :: bool
  st_proto :: string
  st_address :: string
  st_prefix :: string
  st_gateway :: string
  st_dns :: "string list"

record wan_config =
  wan_proto :: string
  wan_ifname :: string
  wan_dns :: "string list"
  wan_dns_type :: string
  wan_relay :: bool

record lan_config =
  lan_prefix_length :: int
  lan_dhcpv6_server :: bool
  lan_slaac :: bool
  lan_dhcpv6_type :: string
  lan_ra :: bool
  lan_ra_management :: string
  lan_lease_minutes :: int
  lan_relay :: bool

record dhcpv6_client =
  cl_hostname :: string
  cl_ipv6 :: string
  cl_lease :: int
  cl_duid :: string

definition status_dict :: "ipv6_status \<Rightarrow> row" where
  "status_dict s = [(''connected'', JBool (st_connected s)), (''proto'', JStr (st_proto s)), (''address'', JStr (st_address s)),
     (''prefix'', JStr (st_prefix s)), (''gateway'', JStr (st_gateway s)), (''dns'', JList (map JStr (st_dns s)))]"

definition wan_dict :: "wan_config \<Rightarrow> row" where
  "wan_dict w = [(''proto'', JStr (wan_proto w)), (''ifname'', JStr (wan_ifname w)), (''dns'', JList (map JStr (wan_dns w))),
     (''dnsType'', JStr (wan_dns_type w)), (''relay'', JBool (wan_relay w))]"

definition lan_dict :: "lan_config \<Rightarrow> row" where
  "lan_dict l = [(''ip6assign'', JInt (lan_prefix_length l)), (''dhcpv6Server'', JBool (lan_dhcpv6_server l)),
     (''slaac'', JBool (lan_slaac l)), (''dhcpv6Type'', JStr (lan_dhcpv6_type l)), (''ra'', JBool (lan_ra l)),
     (''ra_management'', JStr (lan_ra_management l)), (''leasetime6'', JInt (lan_lease_minutes l)), (''relay'', JBool (lan_relay l))]"

definition config_dict :: "wan_config \<times> lan_config \<Rightarrow> row" where
  "config_dict c = [(''wan'', JObj (wan_dict (fst c))), (''lan'', JObj (lan_dict (snd c)))]"

definition client_dict :: "dhcpv6_client \<Rightarrow> row" where
  "client_dict c = [(''hostname'', JStr (cl_hostname c)), (''ipv6'', JStr (cl_ipv6 c)), (''leasetime'', JInt (cl_lease c)),
     (''duid'', JStr (cl_duid c))]"

text \<open>\<open>Ipv6ValidationError\<close>, \<open>RouterRpcError\<close> with its code and HTTP status, and any other exception of the client.\<close>

datatype ipv6_error = Invalid string | RpcFailed string string int | Unexpected

section \<open>Values\<close>

definition RUNTIME_FIELDS :: "string list" where
  "RUNTIME_FIELDS = [''configId'', ''configTime'', ''currentTime'']"

definition TRUE_VALUES :: "string list" where
  "TRUE_VALUES = [''1'', ''true'', ''on'', ''yes'', ''enabled'', ''server'', ''relay'']"

definition FALSE_VALUES :: "string list" where
  "FALSE_VALUES = [''0'', ''false'', ''off'', ''no'', ''disabled'', ''none'', []]"

definition integer_of :: "json \<Rightarrow> int \<Rightarrow> int" where
  "integer_of v d = (case py_int (strip (py_str v)) of None \<Rightarrow> d | Some i \<Rightarrow> i)"

definition v6_flag :: "json \<Rightarrow> bool \<Rightarrow> bool" where
  "v6_flag v d = (case v of JBool b \<Rightarrow> b
     | _ \<Rightarrow> let s = lower (text_of v) in
         if s \<in> set TRUE_VALUES then True else if s \<in> set FALSE_VALUES then False else d)"

definition first_mapping :: "json \<Rightarrow> row" where
  "first_mapping v = (case v of JObj d \<Rightarrow> d
     | JList xs \<Rightarrow> (case List.find is_dict xs of None \<Rightarrow> [] | Some x \<Rightarrow> items x)
     | _ \<Rightarrow> [])"

text \<open>\<open>re.split(r"[,;\s]+", s)\<close> up to empty pieces, which \<open>split_dns\<close> drops.\<close>

definition dns_sep :: "char \<Rightarrow> bool" where
  "dns_sep c = (c = CHR '','' \<or> c = CHR '';'' \<or> is_space c)"

abbreviation dns_fields :: "string \<Rightarrow> string list" where
  "dns_fields \<equiv> split_by dns_sep"

definition split_dns :: "json \<Rightarrow> string list" where
  "split_dns v = (let candidates = (case v of JList xs \<Rightarrow> map text_of xs | _ \<Rightarrow> map strip (dns_fields (text_of v)))
     in uniq (filter (\<lambda>a. a \<noteq> []) candidates))"

section \<open>From the router\<close>

definition map_status :: "json \<Rightarrow> ipv6_status" where
  "map_status raw = (let root = items raw;
       wan = first_mapping (por (dget root ''wan_v6'') (por (dget root ''wan6'') (JObj root)));
       proto = text_of (dget wan ''proto''); address = text_of (dget wan ''ip6'')
     in \<lparr>st_connected = (address \<noteq> [] \<and> lower proto \<notin> {''none'', ''disabled'', ''off''}), st_proto = proto,
         st_address = address, st_prefix = text_of (dget wan ''prefix''), st_gateway = text_of (dget wan ''gateway6''),
         st_dns = split_dns (dget wan ''dns6List'')\<rparr>)"

definition map_wan :: "row \<Rightarrow> wan_config" where
  "map_wan wan = \<lparr>wan_proto = text_or (text_of (dget wan ''proto'')) ''dhcpv6'',
     wan_ifname = text_or (text_of (dget wan ''ifname'')) ''@wan'', wan_dns = split_dns (dget wan ''dns''),
     wan_dns_type = (if lower (text_of (dget wan ''dnsType'')) \<in> {''admin'', ''manual'', ''static''} then ''manual'' else ''auto''),
     wan_relay = v6_flag (dget wan ''relay'') False\<rparr>"

definition served :: "json \<Rightarrow> bool" where
  "served v = (lower (text_of v) = ''server'' \<or> v6_flag v False)"

definition map_lan :: "row \<Rightarrow> lan_config" where
  "map_lan lan = (let kind = text_of (dget lan ''dhcpv6Type'') in
     \<lparr>lan_prefix_length = integer_of (dget lan ''ip6assign'') 64, lan_dhcpv6_server = served (dget lan ''dhcpv6''),
      lan_slaac = contains (lower kind) ''slaac'', lan_dhcpv6_type = text_or kind ''DHCPv6+SLAAC'',
      lan_ra = served (dget lan ''ra''), lan_ra_management = text_or (text_of (dget lan ''ra_management'')) ''0'',
      lan_lease_minutes = integer_of (dget lan ''leasetime6'') 120, lan_relay = v6_flag (dget lan ''relay'') False\<rparr>)"

definition map_config :: "json \<Rightarrow> wan_config \<times> lan_config" where
  "map_config raw = (map_wan (first_mapping (dget (items raw) ''wan6'')), map_lan (first_mapping (dget (items raw) ''lan'')))"

definition map_client :: "row \<Rightarrow> dhcpv6_client" where
  "map_client r = \<lparr>cl_hostname = text_of (dget r ''hostname''), cl_ipv6 = text_of (dget r ''ipv6''),
     cl_lease = max 0 (integer_of (dget r ''leasetime'') 0), cl_duid = text_of (dget r ''duid'')\<rparr>"

definition map_clients :: "json \<Rightarrow> dhcpv6_client list" where
  "map_clients raw = (let root = items raw in
     map (map_client \<circ> items) (filter is_dict
       (elems (por (dget root ''List'') (por (dget root ''list'') (por (dget root ''data'') (JList [])))))))"

section \<open>To the router\<close>

definition require_mapping :: "row \<Rightarrow> string \<Rightarrow> ipv6_error + row" where
  "require_mapping root key = (case dget root key of JObj d \<Rightarrow> Inr d | _ \<Rightarrow> Inl (Invalid (''missing IPv6 configuration: '' @ key)))"

definition validate_dns :: "json \<Rightarrow> bool \<Rightarrow> ipv6_error + string list" where
  "validate_dns v manual = (let addresses = split_dns v in
     if manual \<and> addresses = [] then Inl (Invalid ''manual DNS needs an IPv6 address'')
     else if 4 < length addresses then Inl (Invalid ''at most 4 IPv6 DNS addresses'')
     else case List.find (\<lambda>a. IPv6Address a = None) addresses of
       Some a \<Rightarrow> Inl (Invalid (''invalid IPv6 DNS address: '' @ a))
     | None \<Rightarrow> Inr addresses)"

definition dhcpv6_type :: "bool \<Rightarrow> bool \<Rightarrow> string" where
  "dhcpv6_type server slaac =
     (if server \<and> slaac then ''DHCPv6+SLAAC'' else if server then ''DHCPv6'' else if slaac then ''SLAAC'' else ''disabled'')"

fun strip_runtime_fields :: "json \<Rightarrow> json" where
  "strip_runtime_fields (JList xs) = JList (map strip_runtime_fields xs)"
| "strip_runtime_fields (JObj d) =
     JObj (map (\<lambda>(k, v). (k, strip_runtime_fields v)) (filter (\<lambda>(k, v). k \<notin> set RUNTIME_FIELDS) d))"
| "strip_runtime_fields v = v"

text \<open>The WAN and the LAN part of \<open>merge_config\<close>.\<close>

definition merge_wan :: "row \<Rightarrow> row \<Rightarrow> ipv6_error + row" where
  "merge_wan req cur =
    (let proto = lower (text_of (por (dget req ''proto'') (dget cur ''proto''))) in
     if proto \<notin> {''dhcpv6'', ''relay''} then Inl (Invalid ''unsupported WAN IPv6 mode'')
     else let dns_type = lower (text_of (por (dget req ''dnsType'') (dget cur ''dnsType'')));
              manual = (dns_type \<in> {''manual'', ''admin'', ''static''}) in
     if dns_type \<notin> {''auto'', ''manual'', ''admin'', ''static''} then Inl (Invalid ''invalid IPv6 DNS mode'')
     else ebind (validate_dns (dget_or req ''dns'' (dget cur ''dns'')) manual) (\<lambda>dns.
       let relay = (proto = ''relay'' \<or> v6_flag (dget req ''relay'') False) in
       Inr (dset ''relay'' (JStr (if relay then ''1'' else ''0''))
         (dset ''dns'' (JStr (if manual then join '','' dns else []))
         (dset ''dnsType'' (JStr (if manual then ''admin'' else ''auto''))
         (dset ''proto'' (JStr proto) cur))))))"

definition merge_lan :: "row \<Rightarrow> row \<Rightarrow> ipv6_error + row" where
  "merge_lan req cur =
    (let prefix = integer_of (dget req ''ip6assign'') (integer_of (dget cur ''ip6assign'') 64) in
     if prefix < 1 \<or> 128 < prefix then Inl (Invalid ''IPv6 prefix length must be between 1 and 128'')
     else let lease = integer_of (dget req ''leasetime6'') (integer_of (dget cur ''leasetime6'') 120) in
     if lease < 1 \<or> 10080 < lease then Inl (Invalid ''DHCPv6 lease must be between 1 and 10080 minutes'')
     else let server = v6_flag (dget_or req ''dhcpv6Server'' (dget req ''dhcpv6'')) (v6_flag (dget cur ''dhcpv6'') False);
              slaac = v6_flag (dget req ''slaac'') (contains (lower (text_of (dget cur ''dhcpv6Type''))) ''slaac'');
              ra = v6_flag (dget req ''ra'') (v6_flag (dget cur ''ra'') False) in
     Inr (dset ''leasetime6'' (JStr (int_str lease))
       (dset ''ra_management'' (JStr (text_or (text_of (dget req ''ra_management'')) (if server then ''1'' else ''0'')))
       (dset ''ra'' (JStr (if ra then ''server'' else ''disabled''))
       (dset ''dhcpv6Type'' (JStr (dhcpv6_type server slaac))
       (dset ''dhcpv6'' (JStr (if server then ''server'' else ''disabled''))
       (dset ''ip6assign'' (JStr (int_str prefix)) cur)))))))"

definition put_first :: "string \<Rightarrow> row \<Rightarrow> row \<Rightarrow> row" where
  "put_first key r doc = (case dget doc key of
     JList xs \<Rightarrow> dset key (JList (xs[0 := JObj r])) doc
   | _ \<Rightarrow> dset key (JList [JObj r]) doc)"

definition merge_config :: "json \<Rightarrow> json \<Rightarrow> ipv6_error + json" where
  "merge_config current requested =
    (if \<not> is_dict current then Inl (Invalid ''router returned no complete network6 configuration'')
     else if \<not> is_dict requested then Inl (Invalid ''IPv6 configuration request is malformed'')
     else ebind (require_mapping (items requested) ''wan'') (\<lambda>wan_request.
       ebind (require_mapping (items requested) ''lan'') (\<lambda>lan_request.
       let merged = items current; wan = first_mapping (dget merged ''wan6''); lan = first_mapping (dget merged ''lan'') in
       if wan = [] \<or> lan = [] then Inl (Invalid ''network6 has no WAN or LAN configuration'')
       else ebind (merge_wan wan_request wan) (\<lambda>wan'. ebind (merge_lan lan_request lan) (\<lambda>lan'.
         Inr (strip_runtime_fields (JObj (put_first ''lan'' lan' (put_first ''wan6'' wan' merged)))))))))"

section \<open>Service\<close>

text \<open>The client and the calls that the service made, in order.\<close>

type_synonym 'r rpc_client = "string \<Rightarrow> string \<Rightarrow> json \<Rightarrow> 'r \<Rightarrow> (ipv6_error + json) \<times> 'r"

record 'r v6_state =
  v6_router :: 'r
  v6_calls :: "(string \<times> string \<times> json) list"

type_synonym ('r, 'a) v6_op = "('r v6_state, ipv6_error, 'a) op"

definition v6_rpc :: "'r rpc_client \<Rightarrow> string \<Rightarrow> string \<Rightarrow> json \<Rightarrow> ('r, json) v6_op" where
  "v6_rpc cl verb module data s = (case cl verb module data (v6_router s) of
     (r, r') \<Rightarrow> (r, s\<lparr>v6_router := r', v6_calls := v6_calls s @ [(verb, module, data)]\<rparr>))"

definition read_full_config :: "'r rpc_client \<Rightarrow> ('r, json) v6_op" where
  "read_full_config cl = sbind (v6_rpc cl ''devConfig.get'' ''network6'' JNull) (\<lambda>raw.
     if is_dict raw then ret raw
     else fail (RpcFailed ''router returned no complete network6 configuration'' ''IPV6_CONFIG_INVALID'' 502))"

definition assert_write_success :: "json \<Rightarrow> ipv6_error + unit" where
  "assert_write_success result =
    (if \<not> is_dict result then Inr ()
     else if lower (text_of (dget (items result) ''rcode'')) \<notin> {[], ''0'', ''00000000'', ''success''}
     then Inl (RpcFailed (strip (py_str (por (dget (items result) ''message'') (JStr ''router refused the IPv6 configuration''))))
       ''IPV6_SAVE_REJECTED'' 409)
     else Inr ())"

definition v6_status :: "'r rpc_client \<Rightarrow> ('r, ipv6_status) v6_op" where
  "v6_status cl = sbind (v6_rpc cl ''devSta.get'' ''ipinfo6'' JNull) (\<lambda>raw. ret (map_status raw))"

definition v6_config :: "'r rpc_client \<Rightarrow> ('r, wan_config \<times> lan_config) v6_op" where
  "v6_config cl = sbind (read_full_config cl) (\<lambda>raw. ret (map_config raw))"

definition v6_clients :: "'r rpc_client \<Rightarrow> ('r, dhcpv6_client list) v6_op" where
  "v6_clients cl = sbind (v6_rpc cl ''devSta.get'' ''dhcp_lease6''
     (JObj [(''index'', JInt 1), (''size'', JInt 100), (''macaddr'', JStr [])])) (\<lambda>raw. ret (map_clients raw))"

definition update_config :: "'r rpc_client \<Rightarrow> json \<Rightarrow> ('r, wan_config \<times> lan_config) v6_op" where
  "update_config cl requested =
     sbind (read_full_config cl) (\<lambda>current.
     sbind (pure (merge_config current requested)) (\<lambda>payload.
     sbind (v6_rpc cl ''devConfig.set'' ''network6'' payload) (\<lambda>result.
     sbind (pure (assert_write_success result)) (\<lambda>_.
     sbind (read_full_config cl) (\<lambda>raw. ret (map_config raw))))))"

section \<open>Handlers\<close>

definition error_reply :: "ipv6_error \<Rightarrow> int \<times> json" where
  "error_reply e = (case e of
     Invalid m \<Rightarrow> (400, JObj [(''ok'', JBool False), (''error'', JStr ''INVALID_IPV6_CONFIG''), (''message'', JStr m)])
   | RpcFailed m c status \<Rightarrow> (status, JObj [(''ok'', JBool False), (''error'', JStr c), (''message'', JStr m)])
   | Unexpected \<Rightarrow> (500, JObj [(''ok'', JBool False), (''error'', JStr ''INTERNAL_ERROR''), (''message'', JStr ''IPv6 operation failed'')]))"

definition respond :: "bool \<Rightarrow> ('r, 'a) v6_op \<Rightarrow> ('a \<Rightarrow> (string \<times> json) list) \<Rightarrow> 'r v6_state \<Rightarrow> (int \<times> json) \<times> 'r v6_state" where
  "respond authorized m body s =
    (if \<not> authorized then ((401, JObj [(''ok'', JBool False), (''error'', JStr ''unauthorized'')]), s)
     else case m s of (Inl e, t) \<Rightarrow> (error_reply e, t)
       | (Inr a, t) \<Rightarrow> ((200, JObj ((''ok'', JBool True) # body a)), t))"

definition get_ipv6_status :: "'r rpc_client \<Rightarrow> bool \<Rightarrow> int \<Rightarrow> 'r v6_state \<Rightarrow> (int \<times> json) \<times> 'r v6_state" where
  "get_ipv6_status cl authorized now =
     respond authorized (v6_status cl) (\<lambda>a. [(''data'', JObj (status_dict a)), (''updatedAt'', JInt now)])"

definition get_ipv6_config :: "'r rpc_client \<Rightarrow> bool \<Rightarrow> 'r v6_state \<Rightarrow> (int \<times> json) \<times> 'r v6_state" where
  "get_ipv6_config cl authorized = respond authorized (v6_config cl) (\<lambda>a. [(''data'', JObj (config_dict a))])"

definition get_ipv6_clients :: "'r rpc_client \<Rightarrow> bool \<Rightarrow> 'r v6_state \<Rightarrow> (int \<times> json) \<times> 'r v6_state" where
  "get_ipv6_clients cl authorized = respond authorized (v6_clients cl)
     (\<lambda>a. [(''data'', JObj [(''clients'', JList (map (JObj \<circ> client_dict) a)), (''total'', JInt (int (length a)))])])"

definition put_ipv6_config :: "'r rpc_client \<Rightarrow> bool \<Rightarrow> int \<Rightarrow> json \<Rightarrow> 'r v6_state \<Rightarrow> (int \<times> json) \<times> 'r v6_state" where
  "put_ipv6_config cl authorized now body = respond authorized (update_config cl (por body (JObj [])))
     (\<lambda>a. [(''data'', JObj (config_dict a)), (''verifiedAt'', JInt now), (''message'', JStr ''IPv6 settings saved and verified'')])"
end
