(* ===== verification/Ipv6Runs.thy ===== *)
theory Ipv6Runs
  imports Ipv6
begin

text \<open>
  What an IPv6 update does to the router: the merged document reads back as the request, keeps
  everything that the API does not manage, stays in bounds, and is the only thing that is written.
\<close>

section \<open>Values\<close>

lemma integer_of_int [simp]: "integer_of (JInt i) d = i" "integer_of (JStr (int_str i)) d = i"
  by (simp_all add: integer_of_def)

lemma v6_flag_bool [simp]: "v6_flag (JBool b) d = b"
  by (simp add: v6_flag_def)

text \<open>An absent flag counts as off, whatever the default is.\<close>

lemma v6_flag_absent [simp]: "v6_flag JNull d = False"
  by (simp add: v6_flag_def text_of_def por_def TRUE_VALUES_def FALSE_VALUES_def lower_def)

definition plain_address :: "string \<Rightarrow> bool" where
  "plain_address a = (a \<noteq> [] \<and> list_all (\<lambda>c. \<not> dns_sep c) a)"

lemma dns_fields_plain: "list_all (\<lambda>c. \<not> dns_sep c) a \<Longrightarrow> dns_fields a = [a]"
  by (induction a) auto

lemma dns_fields_ne: "dns_fields s \<noteq> []"
  by (induction s) (auto split: list.splits)

lemma dns_fields_sep: "list_all (\<lambda>c. \<not> dns_sep c) a \<Longrightarrow> dns_sep c \<Longrightarrow> dns_fields (a @ c # s) = a # dns_fields s"
  by (induction a) auto

lemma dns_fields_join:
  "as \<noteq> [] \<Longrightarrow> list_all plain_address as \<Longrightarrow> dns_fields (join '','' as) = as"
proof (induction "'',''" as rule: join.induct)
  case (3 s t r)
  then show ?case using dns_fields_sep [of s "CHR '',''" "join '','' (t # r)"] by (auto simp: plain_address_def dns_sep_def)
qed (auto simp: plain_address_def dns_fields_plain)

lemma plain_unspaced: "plain_address a \<Longrightarrow> unspaced a"
  by (auto simp: plain_address_def unspaced_def dns_sep_def list_all_iff)

lemma text_of_plain:
  assumes "list_all plain_address as"
  shows "text_of (JStr (join '','' as)) = join '','' as"
proof -
  have "unspaced '',''" by (simp add: unspaced_def is_space_def code_def)
  moreover have "list_all unspaced as" using assms by (auto simp: list_all_iff plain_unspaced)
  ultimately show ?thesis by (auto simp: text_of_def por_def intro!: strip_unspaced unspaced_join)
qed

lemma strip_address [simp]: "plain_address a \<Longrightarrow> strip a = a"
  by (simp add: plain_unspaced strip_unspaced)

lemma split_dns_join:
  assumes "list_all plain_address as" and "distinct as"
  shows "split_dns (JStr (join '','' as)) = as"
proof (cases "as = []")
  case True
  then show ?thesis by (simp add: split_dns_def text_of_def por_def uniq_def)
next
  case False
  have "map strip as = as" using assms(1) by (intro map_idI) (auto simp: list_all_iff plain_unspaced strip_unspaced)
  moreover have "filter (\<lambda>a. a \<noteq> []) as = as" using assms(1) by (auto simp: filter_id_conv list_all_iff plain_address_def)
  ultimately show ?thesis
    using assms False text_of_plain dns_fields_join by (simp add: split_dns_def uniq_id)
qed

lemma split_dns_list:
  assumes "list_all plain_address as" and "distinct as"
  shows "split_dns (JList (map JStr as)) = as"
proof -
  have "map (text_of \<circ> JStr) as = as" using assms(1) by (intro map_idI) (auto simp: list_all_iff)
  moreover have "filter (\<lambda>a. a \<noteq> []) as = as" using assms(1) by (auto simp: filter_id_conv list_all_iff plain_address_def)
  ultimately show ?thesis using assms(2) by (simp add: split_dns_def uniq_id comp_def)
qed

lemma validate_dns_ok:
  "validate_dns v manual = Inr as \<Longrightarrow> as = split_dns v \<and> length as \<le> 4 \<and> (manual \<longrightarrow> as \<noteq> [])
     \<and> list_all (\<lambda>a. IPv6Address a \<noteq> None) as"
  by (auto simp: validate_dns_def Let_def list_all_iff find_None_iff split: if_splits option.splits)

section \<open>The merged document\<close>

lemma strip_runtime_dget: "dget (items (strip_runtime_fields (JObj d))) k =
  (if k \<in> set RUNTIME_FIELDS then JNull else strip_runtime_fields (dget d k))"
proof -
  have "map_of (map (\<lambda>(k, v). (k, strip_runtime_fields v)) (filter (\<lambda>(k, v). k \<notin> set RUNTIME_FIELDS) d)) k =
      (if k \<in> set RUNTIME_FIELDS then None else map_option strip_runtime_fields (map_of d k))"
    by (induction d) auto
  then show ?thesis by (cases "map_of d k") (auto simp: dget_def dget_or_def)
qed

lemma is_dict_strip [simp]: "is_dict (strip_runtime_fields v) = is_dict v"
  by (cases v) auto

lemma first_mapping_strip:
  "first_mapping (strip_runtime_fields v) = items (strip_runtime_fields (JObj (first_mapping v)))"
proof (cases v)
  case (JList xs)
  have "List.find is_dict (map strip_runtime_fields xs) = map_option strip_runtime_fields (List.find is_dict xs)"
    by (induction xs) auto
  then show ?thesis
    using JList by (auto simp: first_mapping_def split: option.splits dest!: find_SomeD elim!: is_dict.elims)
qed (auto simp: first_mapping_def)

lemma first_mapping_put:
  assumes "first_mapping (dget doc key) \<noteq> []"
  shows "first_mapping (dget (put_first key r doc) key) = r"
proof (cases "dget doc key")
  case (JList xs)
  then have "xs \<noteq> []" using assms by (auto simp: first_mapping_def)
  then show ?thesis using JList by (cases xs) (auto simp: put_first_def first_mapping_def)
qed (auto simp: put_first_def first_mapping_def)

lemma put_first_other [simp]: "key' \<noteq> key \<Longrightarrow> dget (put_first key r doc) key' = dget doc key'"
  by (auto simp: put_first_def split: json.splits)

lemma rows_put: "tl (elems (dget (put_first key r doc) key)) = tl (elems (dget doc key))"
  by (cases "dget doc key"; cases "elems (dget doc key)") (auto simp: put_first_def)

text \<open>What an accepted request consists of.\<close>

lemma merge_configE:
  assumes "merge_config current requested = Inr m"
  obtains wan' lan' where "is_dict current"
    "merge_wan (items (dget (items requested) ''wan'')) (first_mapping (dget (items current) ''wan6'')) = Inr wan'"
    "merge_lan (items (dget (items requested) ''lan'')) (first_mapping (dget (items current) ''lan'')) = Inr lan'"
    "first_mapping (dget (items current) ''wan6'') \<noteq> []" "first_mapping (dget (items current) ''lan'') \<noteq> []"
    "m = strip_runtime_fields (JObj (put_first ''lan'' lan' (put_first ''wan6'' wan' (items current))))"
  using assms
  by (auto simp: merge_config_def require_mapping_def Let_def err_simps split: if_splits json.splits intro!: that)

lemma merged_rows:
  assumes "first_mapping (dget doc ''wan6'') \<noteq> []" and "first_mapping (dget doc ''lan'') \<noteq> []"
    and "m = strip_runtime_fields (JObj (put_first ''lan'' lan' (put_first ''wan6'' wan' doc)))"
  shows "first_mapping (dget (items m) ''wan6'') = items (strip_runtime_fields (JObj wan'))"
    and "first_mapping (dget (items m) ''lan'') = items (strip_runtime_fields (JObj lan'))"
  using assms first_mapping_put [of "put_first ''wan6'' wan' doc" "''lan''" lan'] first_mapping_put [of doc "''wan6''" wan']
  by (simp_all add: strip_runtime_dget RUNTIME_FIELDS_def first_mapping_strip del: items.simps strip_runtime_fields.simps)

lemma contains_dhcpv6_type [simp]: "contains (lower (dhcpv6_type server slaac)) ''slaac'' = slaac"
  by (induct server; induct slaac; code_simp)

lemma strip_dhcpv6_type [simp]: "strip (dhcpv6_type server slaac) = dhcpv6_type server slaac"
  by (induct server; induct slaac; code_simp)

lemma dhcpv6_type_ne [simp]: "dhcpv6_type server slaac \<noteq> []"
  by (simp add: dhcpv6_type_def)

lemma served_word [simp]: "served (JStr (if b then ''server'' else ''disabled'')) = b"
  by (induct b; code_simp)

lemma flag_word [simp]: "v6_flag (JStr (if b then ''1'' else ''0'')) d = b"
  by (induct b; code_simp)

text \<open>The two parts of an accepted request, and how they read back.\<close>

lemma merge_wanE:
  assumes "merge_wan req cur = Inr wan'"
  obtains proto kind dns where "proto = lower (text_of (por (dget req ''proto'') (dget cur ''proto'')))" "proto \<in> {''dhcpv6'', ''relay''}"
    "kind = lower (text_of (por (dget req ''dnsType'') (dget cur ''dnsType'')))" "kind \<in> {''auto'', ''manual'', ''admin'', ''static''}"
    "validate_dns (dget_or req ''dns'' (dget cur ''dns'')) (kind \<noteq> ''auto'') = Inr dns"
    "wan' = dset ''relay'' (JStr (if proto = ''relay'' \<or> v6_flag (dget req ''relay'') False then ''1'' else ''0''))
         (dset ''dns'' (JStr (if kind \<noteq> ''auto'' then join '','' dns else []))
         (dset ''dnsType'' (JStr (if kind \<noteq> ''auto'' then ''admin'' else ''auto''))
         (dset ''proto'' (JStr proto) cur)))"
proof -
  let ?proto = "lower (text_of (por (dget req ''proto'') (dget cur ''proto'')))"
  let ?kind = "lower (text_of (por (dget req ''dnsType'') (dget cur ''dnsType'')))"
  have p: "?proto \<in> {''dhcpv6'', ''relay''}" and k: "?kind \<in> {''auto'', ''manual'', ''admin'', ''static''}"
    using assms unfolding merge_wan_def Let_def by (meson Inl_Inr_False)+
  have manual: "?kind \<in> {''manual'', ''admin'', ''static''} \<longleftrightarrow> ?kind \<noteq> ''auto''" using k by auto
  obtain dns where "validate_dns (dget_or req ''dns'' (dget cur ''dns'')) (?kind \<noteq> ''auto'') = Inr dns"
    "wan' = dset ''relay'' (JStr (if ?proto = ''relay'' \<or> v6_flag (dget req ''relay'') False then ''1'' else ''0''))
         (dset ''dns'' (JStr (if ?kind \<noteq> ''auto'' then join '','' dns else []))
         (dset ''dnsType'' (JStr (if ?kind \<noteq> ''auto'' then ''admin'' else ''auto''))
         (dset ''proto'' (JStr ?proto) cur)))"
    using assms p k unfolding merge_wan_def Let_def manual by (simp only: if_False if_True not_not simp_thms ebind_eq_Inr Inr_inject) blast
  then show thesis using p k that by blast
qed

lemma merge_lanE:
  assumes "merge_lan req cur = Inr lan'"
  obtains prefix lease server slaac ra where
    "prefix = integer_of (dget req ''ip6assign'') (integer_of (dget cur ''ip6assign'') 64)" "1 \<le> prefix" "prefix \<le> 128"
    "lease = integer_of (dget req ''leasetime6'') (integer_of (dget cur ''leasetime6'') 120)" "1 \<le> lease" "lease \<le> 10080"
    "server = v6_flag (dget_or req ''dhcpv6Server'' (dget req ''dhcpv6'')) (v6_flag (dget cur ''dhcpv6'') False)"
    "slaac = v6_flag (dget req ''slaac'') (contains (lower (text_of (dget cur ''dhcpv6Type''))) ''slaac'')"
    "ra = v6_flag (dget req ''ra'') (v6_flag (dget cur ''ra'') False)"
    "lan' = dset ''leasetime6'' (JStr (int_str lease))
       (dset ''ra_management'' (JStr (text_or (text_of (dget req ''ra_management'')) (if server then ''1'' else ''0'')))
       (dset ''ra'' (JStr (if ra then ''server'' else ''disabled''))
       (dset ''dhcpv6Type'' (JStr (dhcpv6_type server slaac))
       (dset ''dhcpv6'' (JStr (if server then ''server'' else ''disabled''))
       (dset ''ip6assign'' (JStr (int_str prefix)) cur)))))"
proof -
  let ?prefix = "integer_of (dget req ''ip6assign'') (integer_of (dget cur ''ip6assign'') 64)"
  let ?lease = "integer_of (dget req ''leasetime6'') (integer_of (dget cur ''leasetime6'') 120)"
  have "\<not> (?prefix < 1 \<or> 128 < ?prefix)" "\<not> (?lease < 1 \<or> 10080 < ?lease)"
    using assms unfolding merge_lan_def Let_def by (meson Inl_Inr_False)+
  then show thesis
    using assms unfolding merge_lan_def Let_def by (intro that [OF refl _ _ refl _ _ refl refl refl]) auto
qed

text \<open>Reading a merged part: the fields that were set, and the others as they were.\<close>

lemma map_wan_merged:
  "map_wan (items (strip_runtime_fields (JObj (dset ''relay'' (JStr (if r then ''1'' else ''0'')) (dset ''dns'' (JStr d)
      (dset ''dnsType'' (JStr (if k then ''admin'' else ''auto'')) (dset ''proto'' (JStr p) cur)))))))
    = \<lparr>wan_proto = text_or (strip p) ''dhcpv6'', wan_ifname = text_or (text_of (strip_runtime_fields (dget cur ''ifname''))) ''@wan'',
       wan_dns = split_dns (JStr d), wan_dns_type = (if k then ''manual'' else ''auto''), wan_relay = r\<rparr>"
proof -
  have words: "lower (strip ''admin'') = ''admin''" "lower (strip ''auto'') = ''auto''" by code_simp+
  show ?thesis
    by (cases k) (simp_all add: map_wan_def strip_runtime_dget RUNTIME_FIELDS_def words del: items.simps strip_runtime_fields.simps(2))
qed

lemma map_lan_merged:
  "map_lan (items (strip_runtime_fields (JObj (dset ''leasetime6'' (JStr (int_str lease)) (dset ''ra_management'' (JStr m)
      (dset ''ra'' (JStr (if ra then ''server'' else ''disabled'')) (dset ''dhcpv6Type'' (JStr (dhcpv6_type server slaac))
      (dset ''dhcpv6'' (JStr (if server then ''server'' else ''disabled'')) (dset ''ip6assign'' (JStr (int_str prefix)) cur)))))))))
    = \<lparr>lan_prefix_length = prefix, lan_dhcpv6_server = server, lan_slaac = slaac, lan_dhcpv6_type = dhcpv6_type server slaac,
       lan_ra = ra, lan_ra_management = text_or (strip m) ''0'', lan_lease_minutes = lease,
       lan_relay = v6_flag (strip_runtime_fields (dget cur ''relay'')) False\<rparr>"
  by (simp add: map_lan_def strip_runtime_dget RUNTIME_FIELDS_def text_or_def Let_def
      del: items.simps strip_runtime_fields.simps(2))

section \<open>Properties\<close>

text \<open>The router's document and a request that the examples use.\<close>

definition sample_network6 :: json where
  "sample_network6 = JObj [(''configId'', JStr ''77''), (''version'', JStr ''1.0''),
     (''wan6'', JList [JObj [(''proto'', JStr ''dhcpv6''), (''ifname'', JStr ''@wan''), (''dnsType'', JStr ''auto''),
        (''dns'', JStr []), (''relay'', JStr ''0''), (''mtu'', JStr ''1492'')]]),
     (''lan'', JList [JObj [(''ip6assign'', JStr ''64''), (''dhcpv6'', JStr ''server''), (''dhcpv6Type'', JStr ''DHCPv6+SLAAC''),
        (''ra'', JStr ''server''), (''ra_management'', JStr ''1''), (''leasetime6'', JStr ''120''), (''ifname'', JStr ''br-lan'')]])]"

definition sample_wan :: wan_config where
  "sample_wan = \<lparr>wan_proto = ''dhcpv6'', wan_ifname = ''@wan'', wan_dns = [''2001:db8::53'', ''2001:db8::54''],
     wan_dns_type = ''manual'', wan_relay = False\<rparr>"

definition sample_lan :: lan_config where
  "sample_lan = \<lparr>lan_prefix_length = 60, lan_dhcpv6_server = False, lan_slaac = True, lan_dhcpv6_type = ''SLAAC'', lan_ra = True,
     lan_ra_management = ''0'', lan_lease_minutes = 240, lan_relay = False\<rparr>"

definition sample_request :: json where
  "sample_request = JObj (config_dict (sample_wan, sample_lan))"

definition sample_merged :: json where
  "sample_merged = projr (merge_config sample_network6 sample_request)"

lemma sample_accepted: "merge_config sample_network6 sample_request = Inr sample_merged"
  by code_simp

text \<open>C21: an accepted request in the form in which the API shows a configuration reads back from the document
  that is sent to the router: mode, DNS servers, DNS type, relay, prefix length, DHCPv6 server, SLAAC,
  router advertisement, its management flag and the lease are the requested ones; the DHCPv6 type follows
  from the two switches, whatever was requested. The interface name and the relay switch of the LAN are not written from the
  request and not part of the claim. The request has to be in the form that reads back: the mode is \<open>dhcpv6\<close> or \<open>relay\<close>,
  with the relay switch on in the second case; the DNS type is \<open>manual\<close>, or \<open>auto\<close> with no DNS servers; the DNS
  servers are distinct and, like the management flag, texts without spaces and separators.\<close>

theorem requested_config_reads_back:
  assumes "merge_config current (JObj (config_dict (w, l))) = Inr m"
    and "wan_proto w \<in> {''dhcpv6'', ''relay''}" and "wan_dns_type w \<in> {''auto'', ''manual''}"
    and "wan_dns_type w = ''manual'' \<or> wan_dns w = []" and "wan_relay w \<or> wan_proto w = ''dhcpv6''"
    and "list_all plain_address (wan_dns w)" and "distinct (wan_dns w)"
    and "plain_address (lan_ra_management l)"
  shows "fst (map_config m) = w\<lparr>wan_ifname := wan_ifname (fst (map_config m))\<rparr>
    \<and> snd (map_config m) = l\<lparr>lan_dhcpv6_type := dhcpv6_type (lan_dhcpv6_server l) (lan_slaac l),
        lan_relay := lan_relay (snd (map_config m))\<rparr>"
proof -
  obtain wan' lan' where m: "merge_wan (wan_dict w) (first_mapping (dget (items current) ''wan6'')) = Inr wan'"
    "merge_lan (lan_dict l) (first_mapping (dget (items current) ''lan'')) = Inr lan'"
    and ne: "first_mapping (dget (items current) ''wan6'') \<noteq> []" "first_mapping (dget (items current) ''lan'') \<noteq> []"
    and eq: "m = strip_runtime_fields (JObj (put_first ''lan'' lan' (put_first ''wan6'' wan' (items current))))"
    using assms(1) by (rule merge_configE) (simp add: config_dict_def)
  have words: "strip ''dhcpv6'' = ''dhcpv6''" "strip ''relay'' = ''relay''" "lower ''dhcpv6'' = ''dhcpv6''"
    "lower ''relay'' = ''relay''" "strip ''auto'' = ''auto''" "strip ''manual'' = ''manual''"
    "lower ''auto'' = ''auto''" "lower ''manual'' = ''manual''"
    by code_simp+
  have dns: "split_dns (JList (map JStr (wan_dns w))) = wan_dns w" "split_dns (JStr (join '','' (wan_dns w))) = wan_dns w"
    "split_dns (JStr []) = []"
    using assms(6,7) by (rule split_dns_list, rule split_dns_join) code_simp
  have "map_wan (items (strip_runtime_fields (JObj wan'))) = w\<lparr>wan_ifname := wan_ifname (fst (map_config m))\<rparr>"
    using m(1)
  proof (rule merge_wanE)
    fix proto kind ns
    assume p: "proto = lower (text_of (por (dget (wan_dict w) ''proto'') (dget (first_mapping (dget (items current) ''wan6'')) ''proto'')))"
      and k: "kind = lower (text_of (por (dget (wan_dict w) ''dnsType'') (dget (first_mapping (dget (items current) ''wan6'')) ''dnsType'')))"
      and ns: "validate_dns (dget_or (wan_dict w) ''dns'' (dget (first_mapping (dget (items current) ''wan6'')) ''dns'')) (kind \<noteq> ''auto'') = Inr ns"
      and wan': "wan' = dset ''relay'' (JStr (if proto = ''relay'' \<or> v6_flag (dget (wan_dict w) ''relay'') False then ''1'' else ''0''))
         (dset ''dns'' (JStr (if kind \<noteq> ''auto'' then join '','' ns else []))
         (dset ''dnsType'' (JStr (if kind \<noteq> ''auto'' then ''admin'' else ''auto''))
         (dset ''proto'' (JStr proto) (first_mapping (dget (items current) ''wan6'')))))"
    have pk: "proto = wan_proto w" "kind = wan_dns_type w"
      using p k assms(2,3) words by (auto simp: wan_dict_def por_def)
    have "ns = wan_dns w" using validate_dns_ok [OF ns] dns by (simp add: wan_dict_def dget_or_def)
    then have c: "map_wan (items (strip_runtime_fields (JObj wan'))) = \<lparr>wan_proto = text_or (strip (wan_proto w)) ''dhcpv6'',
        wan_ifname = text_or (text_of (strip_runtime_fields (dget (first_mapping (dget (items current) ''wan6'')) ''ifname''))) ''@wan'',
        wan_dns = split_dns (JStr (if wan_dns_type w \<noteq> ''auto'' then join '','' (wan_dns w) else [])),
        wan_dns_type = (if wan_dns_type w \<noteq> ''auto'' then ''manual'' else ''auto''), wan_relay = (wan_proto w = ''relay'' \<or> wan_relay w)\<rparr>"
      (is "_ = ?c") unfolding wan' pk by (simp only: map_wan_merged) (simp add: wan_dict_def)
    have "text_or (strip (wan_proto w)) ''dhcpv6'' = wan_proto w" using assms(2) words by (auto simp: text_or_def)
    moreover have "split_dns (JStr (if wan_dns_type w \<noteq> ''auto'' then join '','' (wan_dns w) else [])) = wan_dns w"
      using assms(3,4) dns by auto
    moreover have "(if wan_dns_type w \<noteq> ''auto'' then ''manual'' else ''auto'') = wan_dns_type w" using assms(3) by auto
    moreover have "(wan_proto w = ''relay'' \<or> wan_relay w) = wan_relay w" using assms(5) by auto
    ultimately have "?c = w\<lparr>wan_ifname := wan_ifname ?c\<rparr>" by simp
    then show ?thesis using c merged_rows(1) [OF ne eq] unfolding map_config_def fst_conv by simp
  qed
  moreover have "map_lan (items (strip_runtime_fields (JObj lan'))) = l\<lparr>lan_dhcpv6_type := dhcpv6_type (lan_dhcpv6_server l) (lan_slaac l),
        lan_relay := lan_relay (snd (map_config m))\<rparr>"
    using m(2)
  proof (rule merge_lanE, goal_cases)
    case (1 prefix lease server slaac ra)
    have ra: "strip (lan_ra_management l) = lan_ra_management l" "lan_ra_management l \<noteq> []"
      using assms(8) by (auto simp: plain_address_def)
    have sw: "server = lan_dhcpv6_server l" "slaac = lan_slaac l" "ra = lan_ra l" "prefix = lan_prefix_length l" "lease = lan_lease_minutes l"
      using 1(1,4,7-9) by (simp_all add: lan_dict_def dget_or_def)
    have "map_lan (items (strip_runtime_fields (JObj lan'))) = \<lparr>lan_prefix_length = lan_prefix_length l,
        lan_dhcpv6_server = lan_dhcpv6_server l, lan_slaac = lan_slaac l,
        lan_dhcpv6_type = dhcpv6_type (lan_dhcpv6_server l) (lan_slaac l), lan_ra = lan_ra l, lan_ra_management = lan_ra_management l,
        lan_lease_minutes = lan_lease_minutes l,
        lan_relay = v6_flag (strip_runtime_fields (dget (first_mapping (dget (items current) ''lan'')) ''relay'')) False\<rparr>"
      unfolding 1(10) sw map_lan_merged using ra by (simp add: lan_dict_def text_or_def)
    then show ?case using merged_rows(2) [OF ne eq] unfolding map_config_def snd_conv by simp
  qed
  ultimately show ?thesis using merged_rows [OF ne eq] by (simp add: map_config_def)
qed

theorem requested_config_reads_back_witness:
  "fst (map_config sample_merged) = sample_wan\<lparr>wan_ifname := wan_ifname (fst (map_config sample_merged))\<rparr>
    \<and> snd (map_config sample_merged) = sample_lan\<lparr>lan_dhcpv6_type := dhcpv6_type (lan_dhcpv6_server sample_lan) (lan_slaac sample_lan),
        lan_relay := lan_relay (snd (map_config sample_merged))\<rparr>"
proof (rule requested_config_reads_back)
  show "merge_config sample_network6 (JObj (config_dict (sample_wan, sample_lan))) = Inr sample_merged"
    using sample_accepted by (simp add: sample_request_def)
qed code_simp+

text \<open>A merged document keeps every field that the API does not manage, and every row behind the first, up
  to the time stamps of the router; the prefix length and the lease are in range.\<close>

theorem merge_config_keeps:
  assumes "merge_config current requested = Inr m" and "k \<notin> set RUNTIME_FIELDS"
  shows "(k \<in> {''wan6'', ''lan''} \<or> dget (items m) k = strip_runtime_fields (dget (items current) k))
    \<and> (k \<in> {''proto'', ''dnsType'', ''dns'', ''relay''} \<or> dget (first_mapping (dget (items m) ''wan6'')) k
        = strip_runtime_fields (dget (first_mapping (dget (items current) ''wan6'')) k))
    \<and> (k \<in> {''ip6assign'', ''dhcpv6'', ''dhcpv6Type'', ''ra'', ''ra_management'', ''leasetime6''}
        \<or> dget (first_mapping (dget (items m) ''lan'')) k = strip_runtime_fields (dget (first_mapping (dget (items current) ''lan'')) k))
    \<and> tl (elems (dget (items m) ''wan6'')) = map strip_runtime_fields (tl (elems (dget (items current) ''wan6'')))
    \<and> tl (elems (dget (items m) ''lan'')) = map strip_runtime_fields (tl (elems (dget (items current) ''lan'')))
    \<and> 1 \<le> lan_prefix_length (snd (map_config m)) \<and> lan_prefix_length (snd (map_config m)) \<le> 128
    \<and> 1 \<le> lan_lease_minutes (snd (map_config m)) \<and> lan_lease_minutes (snd (map_config m)) \<le> 10080"
proof -
  obtain wan' lan' where m: "merge_wan (items (dget (items requested) ''wan'')) (first_mapping (dget (items current) ''wan6'')) = Inr wan'"
    "merge_lan (items (dget (items requested) ''lan'')) (first_mapping (dget (items current) ''lan'')) = Inr lan'"
    and ne: "first_mapping (dget (items current) ''wan6'') \<noteq> []" "first_mapping (dget (items current) ''lan'') \<noteq> []"
    and eq: "m = strip_runtime_fields (JObj (put_first ''lan'' lan' (put_first ''wan6'' wan' (items current))))"
    using assms(1) by (rule merge_configE)
  note rows = merged_rows [OF ne eq]
  have strip_elems: "elems (strip_runtime_fields v) = map strip_runtime_fields (elems v)" for v by (cases v) auto
  have "k \<in> {''wan6'', ''lan''} \<or> dget (items m) k = strip_runtime_fields (dget (items current) k)"
    using assms(2) unfolding eq strip_runtime_dget by (cases "k = ''lan''"; cases "k = ''wan6''") simp_all
  moreover have "k \<in> {''proto'', ''dnsType'', ''dns'', ''relay''} \<or> dget wan' k = dget (first_mapping (dget (items current) ''wan6'')) k"
    using m(1) by (rule merge_wanE) auto
  moreover have "k \<in> {''ip6assign'', ''dhcpv6'', ''dhcpv6Type'', ''ra'', ''ra_management'', ''leasetime6''}
      \<or> dget lan' k = dget (first_mapping (dget (items current) ''lan'')) k"
    using m(2) by (rule merge_lanE) auto
  moreover have "1 \<le> lan_prefix_length (snd (map_config m)) \<and> lan_prefix_length (snd (map_config m)) \<le> 128
      \<and> 1 \<le> lan_lease_minutes (snd (map_config m)) \<and> lan_lease_minutes (snd (map_config m)) \<le> 10080"
    using m(2)
  proof (rule merge_lanE, goal_cases)
    case (1 prefix lease server slaac ra)
    then show ?case unfolding map_config_def snd_conv rows 1(10) map_lan_merged by simp
  qed
  moreover have "tl (elems (dget (items m) ''wan6'')) = map strip_runtime_fields (tl (elems (dget (items current) ''wan6'')))"
    "tl (elems (dget (items m) ''lan'')) = map strip_runtime_fields (tl (elems (dget (items current) ''lan'')))"
    unfolding eq strip_runtime_dget by (simp_all add: RUNTIME_FIELDS_def strip_elems rows_put map_tl flip: map_tl)
  ultimately show ?thesis
    using assms(2) unfolding rows strip_runtime_dget by (simp only: if_False if_True simp_thms) metis
qed

theorem merge_config_keeps_witness:
  "''mtu'' \<in> {''proto'', ''dnsType'', ''dns'', ''relay''} \<or> dget (first_mapping (dget (items sample_merged) ''wan6'')) ''mtu''
     = strip_runtime_fields (dget (first_mapping (dget (items sample_network6) ''wan6'')) ''mtu'')"
proof -
  have "''mtu'' \<notin> set RUNTIME_FIELDS" by code_simp
  from merge_config_keeps [OF sample_accepted this] show ?thesis by (elim conjE)
qed

text \<open>The calls of an update: one read; then, if the request is accepted, the merged document, and one read.\<close>

definition v6_reads :: "(string \<times> string \<times> json) list" where
  "v6_reads = [(''devConfig.get'', ''network6'', JNull)]"

definition no_config :: ipv6_error where
  "no_config = RpcFailed ''router returned no complete network6 configuration'' ''IPV6_CONFIG_INVALID'' 502"

definition as_config :: "ipv6_error + json \<Rightarrow> ipv6_error + json" where
  "as_config r = ebind r (\<lambda>raw. if is_dict raw then Inr raw else Inl no_config)"

lemma read_full_config_eq:
  "read_full_config cl s = (case cl ''devConfig.get'' ''network6'' JNull (v6_router s) of (r, r') \<Rightarrow>
     (as_config r, s\<lparr>v6_router := r', v6_calls := v6_calls s @ v6_reads\<rparr>))"
  by (auto simp: read_full_config_def v6_rpc_def sbind_def ret_def fail_def v6_reads_def as_config_def no_config_def ebind_def
      split: prod.splits sum.splits)

text \<open>An update reads the router's document and, unless the read fails or the request is refused, writes
  exactly once: the request merged into the document just read. When the router refuses the write, that error
  is the result; otherwise the result is what another read shows.\<close>

theorem update_config_calls:
  "(case update_config cl requested s of (r, t) \<Rightarrow> \<exists>cs. v6_calls t = v6_calls s @ v6_reads @ cs
     \<and> (case cl ''devConfig.get'' ''network6'' JNull (v6_router s) of (r0, r1) \<Rightarrow>
         case ebind (as_config r0) (\<lambda>current. merge_config current requested) of
           Inl e \<Rightarrow> r = Inl e \<and> cs = []
         | Inr payload \<Rightarrow> (case cl ''devConfig.set'' ''network6'' payload r1 of (w, r2) \<Rightarrow>
             case ebind w (\<lambda>result. assert_write_success result) of
               Inl e \<Rightarrow> r = Inl e \<and> cs = [(''devConfig.set'', ''network6'', payload)]
             | Inr _ \<Rightarrow> r = ebind (as_config (fst (cl ''devConfig.get'' ''network6'' JNull r2))) (\<lambda>raw. Inr (map_config raw))
                 \<and> cs = (''devConfig.set'', ''network6'', payload) # v6_reads)))"
proof -
  obtain r0 r1 where r0: "cl ''devConfig.get'' ''network6'' JNull (v6_router s) = (r0, r1)" by fastforce
  show ?thesis
  proof (cases "ebind (as_config r0) (\<lambda>current. merge_config current requested)")
    case (Inl e)
    then show ?thesis
      by (auto simp: update_config_def sbind_def read_full_config_eq r0 pure_def ebind_def split: sum.splits)
  next
    case (Inr payload)
    then obtain current where c: "as_config r0 = Inr current" "merge_config current requested = Inr payload"
      by (auto simp: err_simps)
    obtain w r2 where w: "cl ''devConfig.set'' ''network6'' payload r1 = (w, r2)" by fastforce
    obtain r3 r4 where r3: "cl ''devConfig.get'' ''network6'' JNull r2 = (r3, r4)" by fastforce
    show ?thesis
      by (cases w; cases "as_config r3")
        (auto simp: update_config_def sbind_def read_full_config_eq r0 c w r3 pure_def v6_rpc_def ret_def split: sum.splits)
  qed
qed

section \<open>Where the code falls short\<close>

text \<open>A request that leaves a switch out turns it off: \<open>_flag\<close> takes the absent value for an empty text, which
  counts as off, and never looks at the current value that the caller passes as default.\<close>

theorem absent_switch_turns_off:
  "(case merge_config sample_network6 (JObj [(''wan'', JObj []), (''lan'', JObj [(''ip6assign'', JInt 60)])]) of
      Inl e \<Rightarrow> False
    | Inr m \<Rightarrow> lan_dhcpv6_server (snd (map_config sample_network6)) \<and> lan_slaac (snd (map_config sample_network6))
        \<and> lan_ra (snd (map_config sample_network6))
        \<and> \<not> lan_dhcpv6_server (snd (map_config m)) \<and> \<not> lan_slaac (snd (map_config m)) \<and> \<not> lan_ra (snd (map_config m)))"
  by code_simp

text \<open>A router that accepts the write and ignores it: the reply still says that the settings were saved and verified.\<close>

definition deaf_router :: "unit rpc_client" where
  "deaf_router verb module data r = (if verb = ''devConfig.get'' then Inr sample_network6 else Inr JNull, r)"

theorem ignored_write_verified:
  "(case put_ipv6_config deaf_router True 0 sample_request \<lparr>v6_router = (), v6_calls = []\<rparr> of (reply, t) \<Rightarrow>
      fst reply = 200 \<and> dget (items (snd reply)) ''message'' = JStr ''IPv6 settings saved and verified''
      \<and> dget (items (snd reply)) ''data'' = JObj (config_dict (map_config sample_network6)))
   \<and> lan_prefix_length (snd (map_config sample_network6)) \<noteq> lan_prefix_length sample_lan"
  by code_simp

text \<open>A DNS server with a scope that contains a comma passes the check and reaches the router as two entries.\<close>

theorem scoped_dns_splits:
  "(case merge_config sample_network6 (JObj [(''wan'', JObj [(''dnsType'', JStr ''manual''), (''dns'', JList [JStr ''fe80::1%a,b''])]),
        (''lan'', JObj [])]) of
      Inl e \<Rightarrow> False
    | Inr m \<Rightarrow> wan_dns (fst (map_config m)) = [''fe80::1%a'', ''b''] \<and> IPv6Address ''b'' = None)"
  by code_simp

end
