(* ===== verification/Providers.thy ===== *)
theory Providers
  imports HubCore Ddns Effects
begin

text \<open>
  The DDNS provider adapters, \<open>src/lab_ddns_providers.py\<close>. The HTTP session is an argument over a state of any
  type: it answers a call with a response or with a \<open>RequestException\<close>. The cryptographic functions, the
  random nonce and the clock are an argument too; the texts that are signed are modelled. Strings are bytes
  where they are signed or percent-encoded. The record line of DNSPod, a Chinese word, is an ASCII gloss.
\<close>

section \<open>HTTP\<close>

record http_call =
  hc_verb :: string
  hc_url :: string
  hc_params :: "(string \<times> string) list"
  hc_headers :: "(string \<times> string) list"
  hc_json :: "json option"
  hc_auth :: "(string \<times> string) option"

text \<open>A response: its status, what \<open>response.json()\<close> gives (\<open>None\<close> when it raises) and its text.\<close>

record http_response =
  hr_status :: int
  hr_json :: "json option"
  hr_text :: string

type_synonym 'w session = "http_call \<Rightarrow> 'w \<Rightarrow> http_response option \<times> 'w"

record 'w net =
  net_world :: 'w
  net_calls :: "http_call list"

text \<open>An adapter stops with a result of its own, or with an exception that \<open>run_update\<close> catches.\<close>

datatype sync_stop = Stop provider_result | Raises

type_synonym ('w, 'a) net_op = "('w net, sync_stop, 'a) op"

definition send :: "'w session \<Rightarrow> http_call \<Rightarrow> ('w, http_response option) net_op" where
  "send ses c s = (case ses c (net_world s) of (r, w) \<Rightarrow> (Inr r, s\<lparr>net_world := w, net_calls := net_calls s @ [c]\<rparr>))"

section \<open>Results\<close>

text \<open>The two substitutions of \<open>_clean_error\<close>; letters are compared without case.\<close>

definition token_char :: "char \<Rightarrow> bool" where
  "token_char c = ((let n = code c in (48 \<le> n \<and> n \<le> 57) \<or> (65 \<le> n \<and> n \<le> 90) \<or> (97 \<le> n \<and> n \<le> 122)) \<or> c \<in> set ''._~+/=-'')"

definition bearer_at :: "string \<Rightarrow> string option" where
  "bearer_at s = (if lower (take 6 s) \<noteq> ''bearer'' then None
     else let r = drop 6 s; t = dropWhile is_space r in
       if t = r \<or> t = [] \<or> \<not> token_char (hd t) then None else Some (dropWhile token_char t))"

lemma bearer_at_shorter: "bearer_at s = Some r \<Longrightarrow> length r < length s"
proof -
  assume "bearer_at s = Some r"
  then have "r = dropWhile token_char (dropWhile is_space (drop 6 s))" "lower (take 6 s) = ''bearer''"
    by (auto simp: bearer_at_def Let_def split: if_splits)
  moreover from this(2) have "length (lower (take 6 s)) = length ''bearer''" by simp
  then have "6 \<le> length s" by simp
  moreover have "length (dropWhile token_char (dropWhile is_space (drop 6 s))) \<le> length (drop 6 s)"
    using length_dropWhile_le order_trans by blast
  ultimately show ?thesis by auto
qed

function hide_bearer :: "string \<Rightarrow> string" where
  "hide_bearer s = (case bearer_at s of Some r \<Rightarrow> ''Bearer [REDACTED]'' @ hide_bearer r
     | None \<Rightarrow> (case s of [] \<Rightarrow> [] | c # t \<Rightarrow> c # hide_bearer t))"
  by pat_completeness auto
termination
  by (relation "measure length") (auto simp: bearer_at_shorter)

definition SECRET_WORDS :: "string list" where
  "SECRET_WORDS = [''accesskeysecret'', ''secretkey'', ''token'', ''signature'', ''authorization'']"

definition secret_sep :: "char \<Rightarrow> bool" where
  "secret_sep c = (is_space c \<or> c \<in> set ''&,;'')"

text \<open>A secret word, an equals sign or none, and the text up to a separator, at least one character of it.\<close>

definition secret_at :: "string \<Rightarrow> (string \<times> string) option" where
  "secret_at s = (case List.find (\<lambda>w. lower (take (length w) s) = w
        \<and> drop (length w) s \<noteq> [] \<and> \<not> secret_sep (hd (drop (length w) s))) SECRET_WORDS of
     None \<Rightarrow> None
   | Some w \<Rightarrow> Some (take (length w) s, dropWhile (\<lambda>c. \<not> secret_sep c) (drop (length w) s)))"

lemma secret_at_shorter: "secret_at s = Some (w, r) \<Longrightarrow> length r < length s"
proof -
  assume "secret_at s = Some (w, r)"
  then obtain v where v: "v \<in> set SECRET_WORDS" "drop (length v) s \<noteq> []"
    "r = dropWhile (\<lambda>c. \<not> secret_sep c) (drop (length v) s)"
    by (auto simp: secret_at_def split: option.splits dest!: find_SomeD)
  have "length r \<le> length (drop (length v) s)" unfolding v(3) by (rule length_dropWhile_le)
  moreover have "0 < length v" using v(1) by (auto simp: SECRET_WORDS_def)
  moreover have "length v < length s" using v(2) by simp
  ultimately show ?thesis unfolding length_drop by linarith
qed

function hide_secret :: "string \<Rightarrow> string" where
  "hide_secret s = (case secret_at s of Some (w, r) \<Rightarrow> w @ ''=[REDACTED]'' @ hide_secret r
     | None \<Rightarrow> (case s of [] \<Rightarrow> [] | c # t \<Rightarrow> c # hide_secret t))"
  by pat_completeness auto
termination
  by (relation "measure length") (auto simp: secret_at_shorter)

declare hide_bearer.simps [simp del] hide_secret.simps [simp del]

definition clean_error :: "json \<Rightarrow> string list \<Rightarrow> string" where
  "clean_error v secret_values = take 240 (hide_secret (hide_bearer (fold (\<lambda>secret text.
     if 3 \<le> length secret then replace_all secret ''[REDACTED]'' text else text)
     secret_values (py_str (por v (JStr []))))))"

definition or_str :: "string \<Rightarrow> string \<Rightarrow> string" where
  "or_str a b = (if a = [] then b else a)"

definition failure :: "string \<Rightarrow> json \<Rightarrow> json \<Rightarrow> string list \<Rightarrow> provider_result" where
  "failure p error_code message secret_values =
    (let safe_code = or_str (clean_error error_code secret_values) ''provider_error'';
         safe_message = or_str (clean_error message secret_values) ''provider request failed'' in
     \<lparr>pr_ok = False, pr_error = safe_message, pr_provider = p, pr_record_id = [], pr_changed = False,
      pr_error_code = safe_code, pr_error_message = safe_message\<rparr>)"

definition success_result :: "string \<Rightarrow> bool \<Rightarrow> string \<Rightarrow> provider_result" where
  "success_result p was_changed record_id = \<lparr>pr_ok = True, pr_error = [], pr_provider = p, pr_record_id = record_id,
     pr_changed = was_changed, pr_error_code = [], pr_error_message = []\<rparr>"

definition valid_result :: "string \<Rightarrow> provider_result" where
  "valid_result p = success_result p False []"

definition unsupported_result :: "string \<Rightarrow> provider_result" where
  "unsupported_result p = \<lparr>pr_ok = False, pr_error = ''provider does not support this record type'', pr_provider = p,
     pr_record_id = [], pr_changed = False, pr_error_code = ''unsupported_record_type'',
     pr_error_message = ''provider does not support this record type''\<rparr>"

definition stop_with :: "string \<Rightarrow> string \<Rightarrow> string \<Rightarrow> ('w, 'a) net_op" where
  "stop_with p error_code message = fail (Stop (failure p (JStr error_code) (JStr message) []))"

section \<open>Credentials and zones\<close>

definition cred :: "creds \<Rightarrow> string \<Rightarrow> string" where
  "cred c k = (case map_of c k of None \<Rightarrow> [] | Some v \<Rightarrow> v)"

definition required_ok :: "creds \<Rightarrow> string list \<Rightarrow> bool" where
  "required_ok c keys = list_all (\<lambda>k. strip (cred c k) \<noteq> []) keys"

definition no_credentials :: "string \<Rightarrow> provider_result" where
  "no_credentials p = failure p (JStr ''credential_error'') (JStr ''provider credentials are not configured'') []"

definition require_creds :: "creds \<Rightarrow> string list \<Rightarrow> string \<Rightarrow> ('w, unit) net_op" where
  "require_creds c keys p = guard (required_ok c keys) (Stop (no_credentials p))"

definition domain_text :: "string \<Rightarrow> string" where
  "domain_text s = lower (rstrip_of (\<lambda>c. c = CHR ''.'') (strip s))"

definition cred_zone :: "creds \<Rightarrow> string" where
  "cred_zone c = or_str (cred c ''zone'') (cred c ''domain'')"

text \<open>The zone and the relative name of the record.\<close>

definition zone_rr :: "string \<Rightarrow> creds \<Rightarrow> string \<Rightarrow> ('w, string \<times> string) net_op" where
  "zone_rr host c p =
    (let h = domain_text host; zone = domain_text (cred_zone c) in
     if zone = [] then stop_with p ''zone_required'' ''provider zone/domain is required''
     else if h \<noteq> zone \<and> \<not> endswith h (''.'' @ zone) then stop_with p ''zone_mismatch'' ''hostname is outside the configured zone''
     else ret (zone, if h = zone then ''@'' else take (length h - (length zone + 1)) h))"

section \<open>Requests\<close>

definition http_code :: "int \<Rightarrow> string" where
  "http_code n = ''http_'' @ int_str n"

definition request_json :: "'w session \<Rightarrow> string \<Rightarrow> http_call \<Rightarrow> ('w, row) net_op" where
  "request_json ses p c = sbind (send ses c) (\<lambda>r. case r of
     None \<Rightarrow> stop_with p ''network_error'' ''provider request failed''
   | Some resp \<Rightarrow> (case hr_json resp of
       Some (JObj payload) \<Rightarrow>
         if hr_status resp \<in> {401, 403} then stop_with p (http_code (hr_status resp)) ''provider authentication failed''
         else if hr_status resp = 429 then stop_with p ''http_429'' ''provider rate limited''
         else ret payload
     | _ \<Rightarrow> stop_with p (http_code (hr_status resp)) ''provider returned invalid JSON''))"

definition request_text :: "'w session \<Rightarrow> string \<Rightarrow> http_call \<Rightarrow> ('w, string) net_op" where
  "request_text ses p c = sbind (send ses c) (\<lambda>r. case r of
     None \<Rightarrow> stop_with p ''network_error'' ''provider request failed''
   | Some resp \<Rightarrow>
       if hr_status resp \<in> {401, 403} then stop_with p (http_code (hr_status resp)) ''provider authentication failed''
       else if hr_status resp = 429 then stop_with p ''http_429'' ''provider rate limited''
       else ret (strip (hr_text resp)))"

text \<open>The first line of a text.\<close>

definition first_line :: "string \<Rightarrow> string" where
  "first_line s = takeWhile (\<lambda>c. \<not> line_break c) s"

definition AUTH_WORDS :: "string list" where
  "AUTH_WORDS = [''badauth'', ''unauthorized'', ''forbidden'', ''invalid token'', ''invalid_token'', ''authentication failed'']"

definition SUCCESS_WORDS :: "string list" where
  "SUCCESS_WORDS = [''good'', ''ok'', ''success'', ''updated'', ''nochg'']"

text \<open>\<open>_text_update_result\<close>; a body of white space only makes \<open>splitlines()[0]\<close> raise.\<close>

definition text_update_result :: "string \<Rightarrow> string \<Rightarrow> int \<Rightarrow> creds \<Rightarrow> string list \<Rightarrow> sync_stop + provider_result" where
  "text_update_result p body status_code c success_words =
    (if body \<noteq> [] \<and> strip body = [] then Inl Raises
     else let normalized = lower (strip (first_line (strip body))); words = map lower success_words; secret_values = map snd c in
       if status_code \<in> {401, 403} then Inl (Stop (failure p (JStr (http_code status_code)) (JStr ''provider authentication failed'') secret_values))
       else if normalized \<in> set words \<or> list_ex (\<lambda>w. startswith normalized (w @ '' '')) words
       then Inr (success_result p (normalized \<notin> {''ok'', ''nochg''}) [])
       else let error_code = (if normalized \<in> set AUTH_WORDS then ''authentication_failed''
              else if 400 \<le> status_code then http_code status_code else ''provider_error'') in
         Inl (Stop (failure p (JStr error_code) (JStr (if error_code = ''authentication_failed''
           then ''provider authentication failed'' else ''provider update failed'')) secret_values)))"

text \<open>\<open>v.get(k, d)\<close>, which raises when \<open>v\<close> is no dictionary, and \<open>next(... for item in rows if P(item))\<close>.\<close>

definition get_or :: "json \<Rightarrow> string \<Rightarrow> json \<Rightarrow> sync_stop + json" where
  "get_or v k d = (if is_dict v then Inr (dget_or (items v) k d) else Inl Raises)"

fun find_row :: "(row \<Rightarrow> bool) \<Rightarrow> json list \<Rightarrow> sync_stop + row option" where
  "find_row P [] = Inr None"
| "find_row P (JObj d # xs) = (if P d then Inr (Some d) else find_row P xs)"
| "find_row P (_ # xs) = Inl Raises"

definition find_in :: "(row \<Rightarrow> bool) \<Rightarrow> json \<Rightarrow> sync_stop + row option" where
  "find_in P rows = (case py_iter (por rows (JList [])) of Inl _ \<Rightarrow> Inl Raises | Inr xs \<Rightarrow> find_row P xs)"

definition str_or :: "row \<Rightarrow> string \<Rightarrow> string \<Rightarrow> string" where
  "str_or d k v = py_str (dget_or d k (JStr v))"

section \<open>Alibaba Cloud DNS\<close>

text \<open>The cryptography that the adapters use, a nonce and the clock in the forms that are sent.\<close>

record crypto =
  hmac_sha1_base64 :: "string \<Rightarrow> string \<Rightarrow> string"
  hmac_sha256 :: "string \<Rightarrow> string \<Rightarrow> string"
  hmac_sha256_hex :: "string \<Rightarrow> string \<Rightarrow> string"
  sha256_hex :: "string \<Rightarrow> string"
  nonce_hex :: string
  iso_time :: string
  iso_date :: string
  unix_time :: int

definition utf8 :: "string \<Rightarrow> string" where
  "utf8 s = concat (map (\<lambda>c. if code c < 128 then [c] else [char_of (192 + code c div 64), char_of (128 + code c mod 64)]) s)"

definition unreserved :: "char \<Rightarrow> bool" where
  "unreserved c = ((let n = code c in (48 \<le> n \<and> n \<le> 57) \<or> (65 \<le> n \<and> n \<le> 90) \<or> (97 \<le> n \<and> n \<le> 122)) \<or> c \<in> set ''_.-~'')"

definition percent :: "char \<Rightarrow> string" where
  "percent c = (if unreserved c then [c] else CHR 0x25 # upper (hex2 (code c)))"

definition url_quote :: "string \<Rightarrow> string" where
  "url_quote s = concat (map percent (utf8 s))"

definition ALI_ENDPOINT :: string where
  "ALI_ENDPOINT = ''https://alidns.aliyuncs.com/''"

definition normalize_ttl :: "int \<Rightarrow> int" where
  "normalize_ttl n = min 86400 (max 600 n)"

text \<open>The query: the common parameters, those of the action, and the signature of both.\<close>

definition signed_params :: "crypto \<Rightarrow> string \<Rightarrow> (string \<times> string) list \<Rightarrow> creds \<Rightarrow> (string \<times> string) list" where
  "signed_params cry action extra c =
    (let params = dmerge [(''AccessKeyId'', cred c ''AccessKeyId''), (''Action'', action), (''Format'', ''JSON''),
           (''SignatureMethod'', ''HMAC-SHA1''), (''SignatureNonce'', nonce_hex cry), (''SignatureVersion'', ''1.0''),
           (''Timestamp'', iso_time cry), (''Version'', ''2015-01-09'')] extra;
         canonical = join ''&'' (map (\<lambda>(k, v). url_quote k @ ''='' @ url_quote v) (sort_key fst params));
         string_to_sign = ''GET&%2F&'' @ url_quote canonical in
     dset ''Signature'' (hmac_sha1_base64 cry (cred c ''AccessKeySecret'' @ ''&'') string_to_sign) params)"

definition ali_call :: "crypto \<Rightarrow> string \<Rightarrow> (string \<times> string) list \<Rightarrow> creds \<Rightarrow> http_call" where
  "ali_call cry action extra c = \<lparr>hc_verb = ''GET'', hc_url = ALI_ENDPOINT, hc_params = signed_params cry action extra c,
     hc_headers = [(''User-Agent'', ''LabProbe-Hub-DDNS'')], hc_json = None, hc_auth = None\<rparr>"

definition ali_rpc :: "'w session \<Rightarrow> crypto \<Rightarrow> string \<Rightarrow> (string \<times> string) list \<Rightarrow> creds \<Rightarrow> ('w, row) net_op" where
  "ali_rpc ses cry action extra c = sbind (request_json ses ''alidns'' (ali_call cry action extra c)) (\<lambda>payload.
     if truthy (dget payload ''Code'')
     then fail (Stop (failure ''alidns'' (dget payload ''Code'')
       (dget_or payload ''Message'' (JStr ''provider request failed'')) (map snd c)))
     else ret payload)"

definition ali_validate :: "creds \<Rightarrow> provider_result" where
  "ali_validate c = (if \<not> required_ok c [''AccessKeyId'', ''AccessKeySecret''] then no_credentials ''alidns''
     else if strip (cred_zone c) = [] then failure ''alidns'' (JStr ''zone_required'') (JStr ''provider zone/domain is required'') []
     else valid_result ''alidns'')"

definition ali_describe :: "string \<Rightarrow> string \<Rightarrow> rtype \<Rightarrow> (string \<times> string) list" where
  "ali_describe zone rr t = [(''DomainName'', zone), (''RRKeyWord'', rr), (''TypeKeyWord'', rtype_str t),
     (''PageNumber'', ''1''), (''PageSize'', ''100'')]"

definition ali_match :: "string \<Rightarrow> rtype \<Rightarrow> row \<Rightarrow> bool" where
  "ali_match rr t item = (upper (str_or item ''Type'' []) = rtype_str t \<and> str_or item ''RR'' ''@'' = rr)"

definition ali_sync :: "'w session \<Rightarrow> crypto \<Rightarrow> string \<Rightarrow> rtype \<Rightarrow> string \<Rightarrow> int \<Rightarrow> creds \<Rightarrow> ('w, provider_result) net_op" where
  "ali_sync ses cry host t v ttl_sec c =
     sbind (require_creds c [''AccessKeyId'', ''AccessKeySecret''] ''alidns'') (\<lambda>_.
     sbind (zone_rr host c ''alidns'') (\<lambda>(zone, rr).
     sbind (ali_rpc ses cry ''DescribeDomainRecords'' (ali_describe zone rr t) c) (\<lambda>payload.
     sbind (pure (get_or (por (dget payload ''DomainRecords'') (JObj [])) ''Record'' JNull)) (\<lambda>rows.
     sbind (pure (find_in (ali_match rr t) rows)) (\<lambda>found.
     let n = int_str (normalize_ttl ttl_sec) in case found of
       None \<Rightarrow> sbind (ali_rpc ses cry ''AddDomainRecord'' [(''DomainName'', zone), (''RR'', rr), (''Type'', rtype_str t),
           (''Value'', v), (''TTL'', n)] c) (\<lambda>created. ret (success_result ''alidns'' True (str_or created ''RecordId'' [])))
     | Some item \<Rightarrow> (let record_id = str_or item ''RecordId'' [] in
         if str_or item ''Value'' [] = v then ret (success_result ''alidns'' False record_id)
         else sbind (ali_rpc ses cry ''UpdateDomainRecord'' [(''RecordId'', record_id), (''RR'', rr), (''Type'', rtype_str t),
           (''Value'', v), (''TTL'', n)] c) (\<lambda>updated. ret (success_result ''alidns'' True (str_or updated ''RecordId'' record_id)))))))))"

section \<open>DNSPod\<close>

definition POD_ENDPOINT :: string where
  "POD_ENDPOINT = ''https://dnspod.tencentcloudapi.com''"

definition newline :: string where
  "newline = [CHR 0x0A]"

text \<open>The text that is signed for a body; the body itself is serialised again by \<open>requests\<close>.\<close>

definition pod_signed_text :: "row \<Rightarrow> string" where
  "pod_signed_text body = json_enc (JObj body)"

definition pod_headers :: "crypto \<Rightarrow> string \<Rightarrow> row \<Rightarrow> creds \<Rightarrow> (string \<times> string) list" where
  "pod_headers cry action body c =
    (let hashed = sha256_hex cry (utf8 (pod_signed_text body));
         canonical_headers = ''content-type:application/json; charset=utf-8'' @ newline @ ''host:dnspod.tencentcloudapi.com'' @ newline;
         canonical_request = ''POST'' @ newline @ ''/'' @ newline @ newline @ canonical_headers @ newline @ ''content-type;host'' @ newline @ hashed;
         scope = iso_date cry @ ''/dnspod/tc3_request'';
         string_to_sign = ''TC3-HMAC-SHA256'' @ newline @ int_str (unix_time cry) @ newline @ scope @ newline @ sha256_hex cry (utf8 canonical_request);
         secret_date = hmac_sha256 cry (utf8 (''TC3'' @ cred c ''SecretKey'')) (iso_date cry);
         secret_service = hmac_sha256 cry secret_date ''dnspod'';
         secret_signing = hmac_sha256 cry secret_service ''tc3_request'';
         signature = hmac_sha256_hex cry secret_signing (utf8 string_to_sign) in
     [(''Content-Type'', ''application/json; charset=utf-8''), (''Host'', ''dnspod.tencentcloudapi.com''), (''X-TC-Action'', action),
      (''X-TC-Version'', ''2021-03-23''), (''X-TC-Timestamp'', int_str (unix_time cry)),
      (''Authorization'', ''TC3-HMAC-SHA256 Credential='' @ cred c ''SecretId'' @ ''/'' @ scope
         @ '', SignedHeaders=content-type;host, Signature='' @ signature)])"

definition pod_call :: "crypto \<Rightarrow> string \<Rightarrow> row \<Rightarrow> creds \<Rightarrow> http_call" where
  "pod_call cry action body c = \<lparr>hc_verb = ''POST'', hc_url = POD_ENDPOINT, hc_params = [],
     hc_headers = pod_headers cry action body c, hc_json = Some (JObj body), hc_auth = None\<rparr>"

definition pod_rpc :: "'w session \<Rightarrow> crypto \<Rightarrow> string \<Rightarrow> row \<Rightarrow> creds \<Rightarrow> ('w, row) net_op" where
  "pod_rpc ses cry action body c = sbind (request_json ses ''dnspod'' (pod_call cry action body c)) (\<lambda>payload.
     let response = por (dget payload ''Response'') (JObj []) in
     if \<not> is_dict response then fail Raises
     else let api_error = por (dget (items response) ''Error'') (JObj []) in
       if \<not> truthy api_error then ret (items response)
       else if \<not> is_dict api_error then fail Raises
       else fail (Stop (failure ''dnspod'' (dget_or (items api_error) ''Code'' (JStr ''provider_error''))
         (dget_or (items api_error) ''Message'' (JStr ''provider request failed'')) (map snd c))))"

definition pod_validate :: "creds \<Rightarrow> provider_result" where
  "pod_validate c = (if \<not> required_ok c [''SecretId'', ''SecretKey''] then no_credentials ''dnspod''
     else if strip (cred_zone c) = [] then failure ''dnspod'' (JStr ''zone_required'') (JStr ''provider zone/domain is required'') []
     else valid_result ''dnspod'')"

definition pod_body :: "string \<Rightarrow> string \<Rightarrow> rtype \<Rightarrow> row" where
  "pod_body zone rr t = [(''Domain'', JStr zone), (''Subdomain'', JStr rr), (''RecordType'', JStr (rtype_str t)), (''RecordLine'', JStr ''default'')]"

definition pod_match :: "string \<Rightarrow> rtype \<Rightarrow> row \<Rightarrow> bool" where
  "pod_match rr t item = (upper (str_or item ''Type'' []) = rtype_str t \<and> str_or item ''Name'' rr = rr)"

definition pod_sync :: "'w session \<Rightarrow> crypto \<Rightarrow> string \<Rightarrow> rtype \<Rightarrow> string \<Rightarrow> int \<Rightarrow> creds \<Rightarrow> ('w, provider_result) net_op" where
  "pod_sync ses cry host t v ttl_sec c =
     sbind (require_creds c [''SecretId'', ''SecretKey''] ''dnspod'') (\<lambda>_.
     sbind (zone_rr host c ''dnspod'') (\<lambda>(zone, rr).
     sbind (pod_rpc ses cry ''DescribeRecordList'' (pod_body zone rr t) c) (\<lambda>response.
     sbind (pure (find_in (pod_match rr t) (dget response ''RecordList''))) (\<lambda>found. case found of
       None \<Rightarrow> sbind (pod_rpc ses cry ''CreateRecord'' (dset ''Value'' (JStr v) (pod_body zone rr t)) c) (\<lambda>created.
           ret (success_result ''dnspod'' True (str_or created ''RecordId'' [])))
     | Some item \<Rightarrow> (let record_id = str_or item ''RecordId'' [] in
         if str_or item ''Value'' [] = v then ret (success_result ''dnspod'' False record_id)
         else sbind (pod_rpc ses cry ''ModifyRecord''
           (dset ''Value'' (JStr v) (dset ''RecordId'' (JStr record_id) (pod_body zone rr t))) c) (\<lambda>_.
           ret (success_result ''dnspod'' True record_id)))))))"

section \<open>Cloudflare\<close>

definition CF_BASE :: string where
  "CF_BASE = ''https://api.cloudflare.com/client/v4''"

definition cf_token :: "creds \<Rightarrow> string" where
  "cf_token c = or_str (cred c ''apiToken'') (cred c ''token'')"

definition cf_creds_ok :: "creds \<Rightarrow> bool" where
  "cf_creds_ok c = (strip (cf_token c) \<noteq> [] \<and> strip (cred c ''zoneId'') \<noteq> [])"

definition cf_validate :: "creds \<Rightarrow> provider_result" where
  "cf_validate c = (if cf_creds_ok c then valid_result ''cloudflare'' else no_credentials ''cloudflare'')"

definition cf_headers :: "creds \<Rightarrow> (string \<times> string) list" where
  "cf_headers c = [(''Authorization'', ''Bearer '' @ cf_token c), (''Content-Type'', ''application/json''), (''User-Agent'', ''LabProbe-Hub-DDNS'')]"

definition cf_call :: "string \<Rightarrow> string \<Rightarrow> (string \<times> string) list \<Rightarrow> json option \<Rightarrow> creds \<Rightarrow> http_call" where
  "cf_call verb path params body c = \<lparr>hc_verb = verb, hc_url = CF_BASE @ path, hc_params = params, hc_headers = cf_headers c,
     hc_json = body, hc_auth = None\<rparr>"

definition cf_api :: "'w session \<Rightarrow> string \<Rightarrow> string \<Rightarrow> (string \<times> string) list \<Rightarrow> json option \<Rightarrow> creds \<Rightarrow> ('w, row) net_op" where
  "cf_api ses verb path params body c = sbind (request_json ses ''cloudflare'' (cf_call verb path params body c)) (\<lambda>payload.
     if truthy (dget_or payload ''success'' (JBool False)) then ret payload
     else let errors = por (dget payload ''errors'') (JList [JObj []]);
              first = (case errors of JList (x # _) \<Rightarrow> x | _ \<Rightarrow> JObj []) in
       if \<not> is_dict first then fail Raises
       else fail (Stop (failure ''cloudflare'' (dget_or (items first) ''code'' (JStr ''provider_error''))
         (dget_or (items first) ''message'' (JStr ''provider request failed'')) (map snd c))))"

definition dot_stripped :: "string \<Rightarrow> string" where
  "dot_stripped s = rstrip_of (\<lambda>c. c = CHR ''.'') s"

definition cf_match :: "string \<Rightarrow> rtype \<Rightarrow> row \<Rightarrow> bool" where
  "cf_match host t item = (lower (dot_stripped (str_or item ''name'' [])) = lower (dot_stripped host)
     \<and> upper (str_or item ''type'' []) = rtype_str t)"

definition CF_READ_ONLY :: "string list" where
  "CF_READ_ONLY = [''id'', ''zone_id'', ''zone_name'', ''created_on'', ''modified_on'', ''meta'']"

definition cf_new_body :: "string \<Rightarrow> rtype \<Rightarrow> string \<Rightarrow> int \<Rightarrow> row" where
  "cf_new_body host t v ttl_sec = [(''type'', JStr (rtype_str t)), (''name'', JStr (dot_stripped host)), (''content'', JStr v), (''ttl'', JInt ttl_sec)]
     @ (if t \<noteq> TTXT then [(''proxied'', JBool False)] else [])"

definition cf_update_body :: "row \<Rightarrow> string \<Rightarrow> rtype \<Rightarrow> string \<Rightarrow> int \<Rightarrow> row" where
  "cf_update_body found host t v ttl_sec =
    (let body = dmerge (filter (\<lambda>(k, x). k \<notin> set CF_READ_ONLY) found)
       [(''type'', JStr (rtype_str t)), (''name'', JStr (dot_stripped host)), (''content'', JStr v), (''ttl'', JInt ttl_sec)] in
     if map_of body ''proxied'' = None then dset ''proxied'' (JBool False) body else body)"

definition cf_records :: "creds \<Rightarrow> string" where
  "cf_records c = ''/zones/'' @ url_quote (cred c ''zoneId'') @ ''/dns_records''"

definition cf_result_id :: "row \<Rightarrow> string \<Rightarrow> sync_stop + string" where
  "cf_result_id payload v = ebind (get_or (por (dget payload ''result'') (JObj [])) ''id'' (JStr v)) (\<lambda>x. Inr (py_str x))"

definition cf_sync :: "'w session \<Rightarrow> crypto \<Rightarrow> string \<Rightarrow> rtype \<Rightarrow> string \<Rightarrow> int \<Rightarrow> creds \<Rightarrow> ('w, provider_result) net_op" where
  "cf_sync ses cry host t v ttl_sec c =
     sbind (guard (cf_creds_ok c) (Stop (no_credentials ''cloudflare''))) (\<lambda>_.
     sbind (cf_api ses ''GET'' (cf_records c) [(''name'', dot_stripped host), (''type'', rtype_str t), (''per_page'', ''100'')] None c) (\<lambda>payload.
     sbind (pure (find_in (cf_match host t) (dget payload ''result''))) (\<lambda>found. case found of
       None \<Rightarrow> sbind (cf_api ses ''POST'' (cf_records c) [] (Some (JObj (cf_new_body host t v ttl_sec))) c) (\<lambda>created.
           sbind (pure (cf_result_id created [])) (\<lambda>i. ret (success_result ''cloudflare'' True i)))
     | Some item \<Rightarrow> (let record_id = str_or item ''id'' [] in
         if str_or item ''content'' [] = v then ret (success_result ''cloudflare'' False record_id)
         else sbind (cf_api ses ''PATCH'' (cf_records c @ ''/'' @ url_quote record_id) []
             (Some (JObj (cf_update_body item host t v ttl_sec))) c) (\<lambda>updated.
           sbind (pure (cf_result_id updated record_id)) (\<lambda>i. ret (success_result ''cloudflare'' True i)))))))"

section \<open>Update endpoints\<close>

definition text_call :: "string \<Rightarrow> (string \<times> string) list \<Rightarrow> (string \<times> string) list \<Rightarrow> (string \<times> string) option \<Rightarrow> http_call" where
  "text_call url params hs auth = \<lparr>hc_verb = ''GET'', hc_url = url, hc_params = params, hc_headers = hs, hc_json = None, hc_auth = auth\<rparr>"

definition token_of :: "creds \<Rightarrow> string" where
  "token_of c = strip (cred c ''token'')"

definition token_validate :: "string \<Rightarrow> creds \<Rightarrow> provider_result" where
  "token_validate p c = (if token_of c \<noteq> [] then valid_result p else no_credentials p)"

definition dynv6_sync :: "'w session \<Rightarrow> crypto \<Rightarrow> string \<Rightarrow> rtype \<Rightarrow> string \<Rightarrow> int \<Rightarrow> creds \<Rightarrow> ('w, provider_result) net_op" where
  "dynv6_sync ses cry host t v ttl_sec c =
     sbind (guard (token_of c \<noteq> []) (Stop (no_credentials ''dynv6''))) (\<lambda>_.
     sbind (request_text ses ''dynv6'' (text_call ''https://dynv6.com/api/update''
       [(''zone'', dot_stripped host), (''token'', token_of c), (if t = TA then ''ipv4'' else ''ipv6'', v)] [] None)) (\<lambda>body.
     pure (text_update_result ''dynv6'' body 200 c SUCCESS_WORDS)))"

definition duck_domain :: "string \<Rightarrow> string" where
  "duck_domain host = (let v = dot_stripped host; suffix = ''.duckdns.org'' in
     if endswith (lower v) suffix then take (length v - length suffix) v else v)"

definition duckdns_sync :: "'w session \<Rightarrow> crypto \<Rightarrow> string \<Rightarrow> rtype \<Rightarrow> string \<Rightarrow> int \<Rightarrow> creds \<Rightarrow> ('w, provider_result) net_op" where
  "duckdns_sync ses cry host t v ttl_sec c =
     sbind (guard (token_of c \<noteq> []) (Stop (no_credentials ''duckdns''))) (\<lambda>_.
     sbind (request_text ses ''duckdns'' (text_call ''https://www.duckdns.org/update''
       [(''domains'', duck_domain host), (''token'', token_of c),
        (if t = TTXT then ''txt'' else if t = TAAAA then ''ipv6'' else ''ip'', v)] [] None)) (\<lambda>body.
     pure (text_update_result ''duckdns'' body 200 c [''OK'', ''nochg''])))"

definition desec_sync :: "'w session \<Rightarrow> crypto \<Rightarrow> string \<Rightarrow> rtype \<Rightarrow> string \<Rightarrow> int \<Rightarrow> creds \<Rightarrow> ('w, provider_result) net_op" where
  "desec_sync ses cry host t v ttl_sec c =
     sbind (guard (token_of c \<noteq> []) (Stop (no_credentials ''desec''))) (\<lambda>_.
     sbind (request_text ses ''desec'' (text_call ''https://update.dedyn.io/''
       [(''hostname'', dot_stripped host), (''myipv4'', if t = TA then v else ''preserve''), (''myipv6'', if t = TAAAA then v else ''preserve'')]
       [(''Authorization'', ''Token '' @ token_of c)] None)) (\<lambda>body.
     pure (text_update_result ''desec'' body 200 c SUCCESS_WORDS)))"

definition dynu_validate :: "creds \<Rightarrow> provider_result" where
  "dynu_validate c = (if required_ok c [''username'', ''password''] then valid_result ''dynu'' else no_credentials ''dynu'')"

definition dynu_sync :: "'w session \<Rightarrow> crypto \<Rightarrow> string \<Rightarrow> rtype \<Rightarrow> string \<Rightarrow> int \<Rightarrow> creds \<Rightarrow> ('w, provider_result) net_op" where
  "dynu_sync ses cry host t v ttl_sec c =
     sbind (require_creds c [''username'', ''password''] ''dynu'') (\<lambda>_.
     sbind (request_text ses ''dynu'' (text_call ''https://api.dynu.com/nic/update''
       [(''hostname'', dot_stripped host), (''myip'', if t = TA then v else ''no''), (''myipv6'', if t = TAAAA then v else ''no'')]
       [(''User-Agent'', ''LabProbe-Hub-DDNS'')] (Some (cred c ''username'', cred c ''password'')))) (\<lambda>body.
     pure (text_update_result ''dynu'' body 200 c SUCCESS_WORDS)))"

text \<open>IPv64 may answer with a JSON object instead of a text.\<close>

definition ipv64_result :: "string \<Rightarrow> creds \<Rightarrow> sync_stop + provider_result" where
  "ipv64_result raw c = (case json_loads raw of
     Some (JObj payload) \<Rightarrow>
       (let word = lower (py_str (por (dget payload ''status'') (por (dget payload ''Status'') (por (dget payload ''info'') (JStr []))))) in
        if word \<in> set SUCCESS_WORDS then Inr (success_result ''ipv64'' (word \<notin> {''ok'', ''nochg''}) [])
        else if word \<in> {''401'', ''403'', ''unauthorized'', ''forbidden''}
        then Inl (Stop (failure ''ipv64'' (JStr ''authentication_failed'') (JStr ''provider authentication failed'') (map snd c)))
        else Inl (Stop (failure ''ipv64'' (JStr ''http_200'') (JStr ''provider update failed'') (map snd c))))
   | _ \<Rightarrow> text_update_result ''ipv64'' raw 200 c SUCCESS_WORDS)"

definition ipv64_sync :: "'w session \<Rightarrow> crypto \<Rightarrow> string \<Rightarrow> rtype \<Rightarrow> string \<Rightarrow> int \<Rightarrow> creds \<Rightarrow> ('w, provider_result) net_op" where
  "ipv64_sync ses cry host t v ttl_sec c =
     sbind (guard (token_of c \<noteq> []) (Stop (no_credentials ''ipv64''))) (\<lambda>_.
     sbind (request_text ses ''ipv64'' (text_call ''https://ipv64.net/nic/update''
       [(''host'', dot_stripped host), (if t = TA then ''ip'' else ''ip6'', v)] [(''Authorization'', ''Bearer '' @ token_of c)] None)) (\<lambda>body.
     pure (ipv64_result (strip body) c)))"

section \<open>The adapters as the store calls them\<close>

definition adapter :: "string \<Rightarrow> 'w session \<Rightarrow> crypto \<Rightarrow> string \<Rightarrow> rtype \<Rightarrow> string \<Rightarrow> int \<Rightarrow> creds \<Rightarrow> ('w, provider_result) net_op" where
  "adapter p = (case map_of [(''alidns'', ali_sync), (''dnspod'', pod_sync), (''cloudflare'', cf_sync), (''dynv6'', dynv6_sync),
      (''duckdns'', duckdns_sync), (''desec'', desec_sync), (''dynu'', dynu_sync), (''ipv64'', ipv64_sync)] p of
     Some f \<Rightarrow> f | None \<Rightarrow> (\<lambda>ses cry host t v ttl_sec c. fail Raises))"

definition sync_record :: "string \<Rightarrow> 'w session \<Rightarrow> crypto \<Rightarrow> string \<Rightarrow> rtype \<Rightarrow> string \<Rightarrow> int \<Rightarrow> creds \<Rightarrow> ('w, provider_result) net_op" where
  "sync_record p ses cry host t v ttl_sec c =
    (case map_of PROVIDERS p of
       None \<Rightarrow> fail Raises
     | Some sp \<Rightarrow> if supports_record_type sp t then adapter p ses cry host t v ttl_sec c
         else fail (Stop (unsupported_result p)))"

text \<open>What \<open>run_update\<close> sees of a call: the result, or \<open>None\<close> for an exception.\<close>

definition sync_outcome :: "sync_stop + provider_result \<Rightarrow> provider_result option" where
  "sync_outcome r = (case r of Inr x \<Rightarrow> Some x | Inl (Stop x) \<Rightarrow> Some x | Inl Raises \<Rightarrow> None)"

definition validate_credentials :: "string \<Rightarrow> creds \<Rightarrow> provider_result" where
  "validate_credentials p c = (if p = ''alidns'' then ali_validate c else if p = ''dnspod'' then pod_validate c
     else if p = ''cloudflare'' then cf_validate c else if p = ''dynu'' then dynu_validate c else token_validate p c)"
end
