(* ===== verification/ProvidersRuns.thy ===== *)
theory ProvidersRuns
  imports Providers
begin

text \<open>
  What the provider adapters do to a DNS zone. Three adapters follow the same plan (look the record up, create it,
  update it, or leave it); the plan is stated once as a reference over an interface and each of the three
  is shown to be an instance of it.
\<close>

section \<open>Sequencing\<close>

lemma sbind_assoc: "sbind (sbind m f) g = sbind m (\<lambda>a. sbind (f a) g)"
  by (rule ext) (auto simp: sbind_def split: prod.splits sum.splits)

lemma sbind_cong_fun: "(\<And>a. f a = g a) \<Longrightarrow> sbind m f = sbind m g"
  by (rule arg_cong [where f = "sbind m"]) (rule ext)

lemma sbind_pure: "sbind (pure r) f = (case r of Inl e \<Rightarrow> fail e | Inr a \<Rightarrow> f a)"
  by (rule ext) (simp add: sbind_def pure_def fail_def split: sum.splits)

text \<open>The calls that an operation adds.\<close>

definition one_call :: "http_call \<Rightarrow> ('w, 'a) net_op \<Rightarrow> bool" where
  "one_call c m = (\<forall>s. net_calls (snd (m s)) = net_calls s @ [c])"

definition no_call :: "('w, 'a) net_op \<Rightarrow> bool" where
  "no_call m = (\<forall>s. net_calls (snd (m s)) = net_calls s)"

named_theorems call_simps \<open>calls of operations\<close>

lemma no_call_basic [call_simps]: "no_call (ret a)" "no_call (fail e)" "no_call (pure r)" "no_call (guard b e)"
    "no_call (stop_with p ec msg)"
  by (simp_all add: no_call_def op_defs guard_def stop_with_def)

lemma one_call_then:
  assumes "one_call c m" and "\<And>a. no_call (f a)"
  shows "one_call c (sbind m f)"
  unfolding one_call_def
proof
  fix s
  show "net_calls (snd (sbind m f s)) = net_calls s @ [c]"
    using assms by (cases rule: sbind_cases [of m s f]) (auto simp: one_call_def no_call_def dest: spec [of _ s])
qed

lemma one_call_send [call_simps]: "one_call c (send ses c)"
  by (auto simp: one_call_def send_def split: prod.splits)

lemma request_json_call [call_simps]: "one_call c (request_json ses p c)"
  unfolding request_json_def
  by (rule one_call_then [OF one_call_send]) (auto simp: call_simps split: option.splits json.splits)

lemma request_text_call [call_simps]: "one_call c (request_text ses p c)"
  unfolding request_text_def
  by (rule one_call_then [OF one_call_send]) (auto simp: call_simps split: option.splits)

lemma ali_rpc_call [call_simps]: "one_call (ali_call cry action extra c) (ali_rpc ses cry action extra c)"
  unfolding ali_rpc_def by (rule one_call_then [OF request_json_call]) (auto simp: call_simps)

lemma pod_rpc_call [call_simps]: "one_call (pod_call cry action body c) (pod_rpc ses cry action body c)"
  unfolding pod_rpc_def by (rule one_call_then [OF request_json_call]) (auto simp: call_simps Let_def)

lemma cf_api_call [call_simps]: "one_call (cf_call verb path params body c) (cf_api ses verb path params body c)"
  unfolding cf_api_def by (rule one_call_then [OF request_json_call]) (auto simp: call_simps Let_def)

section \<open>The plan\<close>

text \<open>Look the record up; create it when there is none, leave it when it has the value, update it otherwise.\<close>

definition plan_sync :: "('w, ('k \<times> string) option) net_op \<Rightarrow> ('w, string) net_op \<Rightarrow> ('k \<Rightarrow> ('w, string) net_op) \<Rightarrow>
    ('k \<Rightarrow> string) \<Rightarrow> string \<Rightarrow> ('w, bool \<times> string) net_op" where
  "plan_sync lookup create update key_id v = sbind lookup (\<lambda>found. case found of
     None \<Rightarrow> sbind create (\<lambda>i. ret (True, i))
   | Some (k, old) \<Rightarrow> if old = v then ret (False, key_id k) else sbind (update k) (\<lambda>j. ret (True, j)))"

text \<open>The interface of a DNS service: one call per operation, and only the lookup is not a write.\<close>

locale record_service =
  fixes lookup :: "('w, ('k \<times> string) option) net_op"
    and create :: "('w, string) net_op"
    and update :: "'k \<Rightarrow> ('w, string) net_op"
    and writes :: "http_call \<Rightarrow> bool"
  assumes lookup_reads: "\<exists>c. one_call c lookup \<and> \<not> writes c"
    and create_writes: "\<exists>c. one_call c create \<and> writes c"
    and update_writes: "\<exists>c. one_call c (update k) \<and> writes c"
begin

text \<open>One read, then at most one write; and the write depends on what the read found.\<close>

lemma plan_calls:
  "\<exists>cs. net_calls (snd (plan_sync lookup create update key_id v s)) = net_calls s @ cs \<and> length cs \<le> 2
     \<and> length (filter writes cs) = (case fst (lookup s) of Inl e \<Rightarrow> 0 | Inr None \<Rightarrow> 1 | Inr (Some (i, old)) \<Rightarrow> if old = v then 0 else 1)"
proof -
  obtain l where l: "one_call l lookup" "\<not> writes l" using lookup_reads by blast
  obtain c where c: "one_call c create" "writes c" using create_writes by blast
  obtain r t where t: "lookup s = (r, t)" by fastforce
  then have calls: "net_calls t = net_calls s @ [l]" using l(1) by (metis one_call_def snd_conv)
  have after: "net_calls (snd (sbind m (\<lambda>i. ret (True, i)) t)) = net_calls t @ [x]" if "one_call x m" for m :: "('w, string) net_op" and x
    using one_call_then [OF that, of "\<lambda>i. ret (True, i)"] by (simp add: call_simps one_call_def)
  show ?thesis
  proof (cases r)
    case (Inl e)
    then show ?thesis using calls l(2) t by (intro exI [of _ "[l]"]) (simp add: plan_sync_def sbind_def)
  next
    case (Inr found)
    show ?thesis
    proof (cases found)
      case None
      then show ?thesis
        using calls l(2) c t Inr after [OF c(1)] by (intro exI [of _ "[l, c]"]) (simp add: plan_sync_def sbind_def [of lookup])
    next
      case (Some x)
      obtain i old where x: "x = (i, old)" by fastforce
      obtain u where u: "one_call u (update i)" "writes u" using update_writes by blast
      show ?thesis
      proof (cases "old = v")
        case True
        then show ?thesis
          using calls l(2) t Inr Some x by (intro exI [of _ "[l]"]) (simp add: plan_sync_def sbind_def [of lookup] ret_def)
      next
        case False
        then show ?thesis
          using calls l(2) u t Inr Some x after [OF u(1)]
          by (intro exI [of _ "[l, u]"]) (simp add: plan_sync_def sbind_def [of lookup])
      qed
    qed
  qed
qed

end

section \<open>The three adapters follow the plan\<close>

definition ali_lookup :: "'w session \<Rightarrow> crypto \<Rightarrow> string \<Rightarrow> string \<Rightarrow> rtype \<Rightarrow> creds \<Rightarrow> ('w, (string \<times> string) option) net_op" where
  "ali_lookup ses cry zone rr t c = sbind (ali_rpc ses cry ''DescribeDomainRecords'' (ali_describe zone rr t) c) (\<lambda>payload.
     pure (ebind (get_or (por (dget payload ''DomainRecords'') (JObj [])) ''Record'' JNull) (\<lambda>rows.
       ebind (find_in (ali_match rr t) rows) (\<lambda>found.
         Inr (map_option (\<lambda>item. (str_or item ''RecordId'' [], str_or item ''Value'' [])) found)))))"

definition ali_create :: "'w session \<Rightarrow> crypto \<Rightarrow> string \<Rightarrow> string \<Rightarrow> rtype \<Rightarrow> string \<Rightarrow> int \<Rightarrow> creds \<Rightarrow> ('w, string) net_op" where
  "ali_create ses cry zone rr t v n c = sbind (ali_rpc ses cry ''AddDomainRecord'' [(''DomainName'', zone), (''RR'', rr),
     (''Type'', rtype_str t), (''Value'', v), (''TTL'', int_str (normalize_ttl n))] c) (\<lambda>created. ret (str_or created ''RecordId'' []))"

definition ali_update :: "'w session \<Rightarrow> crypto \<Rightarrow> string \<Rightarrow> rtype \<Rightarrow> string \<Rightarrow> int \<Rightarrow> creds \<Rightarrow> string \<Rightarrow> ('w, string) net_op" where
  "ali_update ses cry rr t v n c i = sbind (ali_rpc ses cry ''UpdateDomainRecord'' [(''RecordId'', i), (''RR'', rr),
     (''Type'', rtype_str t), (''Value'', v), (''TTL'', int_str (normalize_ttl n))] c) (\<lambda>updated. ret (str_or updated ''RecordId'' i))"

lemma ali_sync_plan:
  "ali_sync ses cry host t v n c =
     sbind (require_creds c [''AccessKeyId'', ''AccessKeySecret''] ''alidns'') (\<lambda>_. sbind (zone_rr host c ''alidns'') (\<lambda>(zone, rr).
       sbind (plan_sync (ali_lookup ses cry zone rr t c) (ali_create ses cry zone rr t v n c) (ali_update ses cry rr t v n c) id v)
         (\<lambda>(ch, i). ret (success_result ''alidns'' ch i))))"
  unfolding ali_sync_def plan_sync_def ali_lookup_def ali_create_def ali_update_def sbind_assoc
  by (intro sbind_cong_fun, clarify, intro sbind_cong_fun)
    (simp add: sbind_pure sbind_assoc ebind_def Let_def split: sum.splits option.splits)

definition pod_lookup :: "'w session \<Rightarrow> crypto \<Rightarrow> string \<Rightarrow> string \<Rightarrow> rtype \<Rightarrow> creds \<Rightarrow> ('w, (string \<times> string) option) net_op" where
  "pod_lookup ses cry zone rr t c = sbind (pod_rpc ses cry ''DescribeRecordList'' (pod_body zone rr t) c) (\<lambda>response.
     pure (ebind (find_in (pod_match rr t) (dget response ''RecordList'')) (\<lambda>found.
       Inr (map_option (\<lambda>item. (str_or item ''RecordId'' [], str_or item ''Value'' [])) found))))"

definition pod_create :: "'w session \<Rightarrow> crypto \<Rightarrow> string \<Rightarrow> string \<Rightarrow> rtype \<Rightarrow> string \<Rightarrow> creds \<Rightarrow> ('w, string) net_op" where
  "pod_create ses cry zone rr t v c = sbind (pod_rpc ses cry ''CreateRecord'' (dset ''Value'' (JStr v) (pod_body zone rr t)) c)
     (\<lambda>created. ret (str_or created ''RecordId'' []))"

definition pod_update :: "'w session \<Rightarrow> crypto \<Rightarrow> string \<Rightarrow> string \<Rightarrow> rtype \<Rightarrow> string \<Rightarrow> creds \<Rightarrow> string \<Rightarrow> ('w, string) net_op" where
  "pod_update ses cry zone rr t v c i = sbind (pod_rpc ses cry ''ModifyRecord''
     (dset ''Value'' (JStr v) (dset ''RecordId'' (JStr i) (pod_body zone rr t))) c) (\<lambda>_. ret i)"

lemma pod_sync_plan:
  "pod_sync ses cry host t v n c =
     sbind (require_creds c [''SecretId'', ''SecretKey''] ''dnspod'') (\<lambda>_. sbind (zone_rr host c ''dnspod'') (\<lambda>(zone, rr).
       sbind (plan_sync (pod_lookup ses cry zone rr t c) (pod_create ses cry zone rr t v c) (pod_update ses cry zone rr t v c) id v)
         (\<lambda>(ch, i). ret (success_result ''dnspod'' ch i))))"
  unfolding pod_sync_def plan_sync_def pod_lookup_def pod_create_def pod_update_def sbind_assoc
  by (intro sbind_cong_fun, clarify, intro sbind_cong_fun)
    (simp add: sbind_pure sbind_assoc ebind_def Let_def split: sum.splits option.splits)

definition cf_lookup :: "'w session \<Rightarrow> string \<Rightarrow> rtype \<Rightarrow> creds \<Rightarrow> ('w, (row \<times> string) option) net_op" where
  "cf_lookup ses host t c = sbind (cf_api ses ''GET'' (cf_records c) [(''name'', dot_stripped host), (''type'', rtype_str t), (''per_page'', ''100'')] None c)
     (\<lambda>payload. pure (ebind (find_in (cf_match host t) (dget payload ''result'')) (\<lambda>found.
       Inr (map_option (\<lambda>item. (item, str_or item ''content'' [])) found))))"

definition cf_create :: "'w session \<Rightarrow> string \<Rightarrow> rtype \<Rightarrow> string \<Rightarrow> int \<Rightarrow> creds \<Rightarrow> ('w, string) net_op" where
  "cf_create ses host t v n c = sbind (cf_api ses ''POST'' (cf_records c) [] (Some (JObj (cf_new_body host t v n))) c)
     (\<lambda>created. pure (cf_result_id created []))"

definition cf_update :: "'w session \<Rightarrow> string \<Rightarrow> rtype \<Rightarrow> string \<Rightarrow> int \<Rightarrow> creds \<Rightarrow> row \<Rightarrow> ('w, string) net_op" where
  "cf_update ses host t v n c item = sbind (cf_api ses ''PATCH'' (cf_records c @ ''/'' @ url_quote (str_or item ''id'' [])) []
     (Some (JObj (cf_update_body item host t v n))) c) (\<lambda>updated. pure (cf_result_id updated (str_or item ''id'' [])))"

lemma cf_sync_plan:
  "cf_sync ses cry host t v n c =
     sbind (guard (cf_creds_ok c) (Stop (no_credentials ''cloudflare''))) (\<lambda>_.
       sbind (plan_sync (cf_lookup ses host t c) (cf_create ses host t v n c) (cf_update ses host t v n c) (\<lambda>item. str_or item ''id'' []) v)
         (\<lambda>(ch, i). ret (success_result ''cloudflare'' ch i)))"
  unfolding cf_sync_def plan_sync_def cf_lookup_def cf_create_def cf_update_def sbind_assoc
  by (intro sbind_cong_fun)
    (simp add: sbind_pure [of "find_in P rows" for P rows] sbind_pure [of "case r of Inl e \<Rightarrow> Inl e | Inr a \<Rightarrow> f a" for r f]
      sbind_assoc ebind_def Let_def split: sum.splits option.splits)

text \<open>Which calls of a provider change its zone.\<close>

definition ali_writes :: "http_call \<Rightarrow> bool" where
  "ali_writes c = (map_of (hc_params c) ''Action'' \<noteq> Some ''DescribeDomainRecords'')"

definition pod_writes :: "http_call \<Rightarrow> bool" where
  "pod_writes c = (map_of (hc_headers c) ''X-TC-Action'' \<noteq> Some ''DescribeRecordList'')"

definition cf_writes :: "http_call \<Rightarrow> bool" where
  "cf_writes c = (hc_verb c \<noteq> ''GET'')"

lemma ali_action: "map_of extra ''Action'' = None \<Longrightarrow> map_of (hc_params (ali_call cry action extra c)) ''Action'' = Some action"
  by (simp add: ali_call_def signed_params_def Let_def dget_dmerge map_of_eq_None_iff split: option.splits)
    (metis image_eqI in_set_conv_nth map_of_SomeD option.distinct(1) set_rev weak_map_of_SomeI prod.collapse fst_conv)

lemma pod_action: "map_of (hc_headers (pod_call cry action body c)) ''X-TC-Action'' = Some action"
  by (simp add: pod_call_def pod_headers_def Let_def)

lemma ali_op_calls:
  "one_call (ali_call cry ''DescribeDomainRecords'' (ali_describe zone rr t) c) (ali_lookup ses cry zone rr t c)"
  "one_call (ali_call cry ''AddDomainRecord'' [(''DomainName'', zone), (''RR'', rr), (''Type'', rtype_str t), (''Value'', v),
     (''TTL'', int_str (normalize_ttl n))] c) (ali_create ses cry zone rr t v n c)"
  "one_call (ali_call cry ''UpdateDomainRecord'' [(''RecordId'', i), (''RR'', rr), (''Type'', rtype_str t), (''Value'', v),
     (''TTL'', int_str (normalize_ttl n))] c) (ali_update ses cry rr t v n c i)"
  unfolding ali_lookup_def ali_create_def ali_update_def by (rule one_call_then [OF ali_rpc_call], simp add: call_simps)+

lemma pod_op_calls:
  "one_call (pod_call cry ''DescribeRecordList'' (pod_body zone rr t) c) (pod_lookup ses cry zone rr t c)"
  "one_call (pod_call cry ''CreateRecord'' (dset ''Value'' (JStr v) (pod_body zone rr t)) c) (pod_create ses cry zone rr t v c)"
  "one_call (pod_call cry ''ModifyRecord'' (dset ''Value'' (JStr v) (dset ''RecordId'' (JStr i) (pod_body zone rr t))) c)
     (pod_update ses cry zone rr t v c i)"
  unfolding pod_lookup_def pod_create_def pod_update_def by (rule one_call_then [OF pod_rpc_call], simp add: call_simps)+

lemma cf_op_calls:
  "one_call (cf_call ''GET'' (cf_records c) [(''name'', dot_stripped host), (''type'', rtype_str t), (''per_page'', ''100'')] None c)
     (cf_lookup ses host t c)"
  "one_call (cf_call ''POST'' (cf_records c) [] (Some (JObj (cf_new_body host t v n))) c) (cf_create ses host t v n c)"
  "one_call (cf_call ''PATCH'' (cf_records c @ ''/'' @ url_quote (str_or item ''id'' [])) [] (Some (JObj (cf_update_body item host t v n))) c)
     (cf_update ses host t v n c item)"
  unfolding cf_lookup_def cf_create_def cf_update_def by (rule one_call_then [OF cf_api_call], simp add: call_simps)+

lemma ali_writes_iff: "map_of extra ''Action'' = None \<Longrightarrow> ali_writes (ali_call cry action extra c) \<longleftrightarrow> action \<noteq> ''DescribeDomainRecords''"
  by (simp add: ali_writes_def ali_action)

lemma pod_writes_iff: "pod_writes (pod_call cry action body c) \<longleftrightarrow> action \<noteq> ''DescribeRecordList''"
  by (simp add: pod_writes_def pod_action)

lemma cf_writes_iff: "cf_writes (cf_call verb path params body c) \<longleftrightarrow> verb \<noteq> ''GET''"
  by (simp add: cf_writes_def cf_call_def)

interpretation ali: record_service "ali_lookup ses cry zone rr t c" "ali_create ses cry zone rr t v n c"
    "ali_update ses cry rr t v n c" ali_writes
  for ses :: "'w session" and cry zone rr t v n c
proof
  show "\<exists>x. one_call x (ali_lookup ses cry zone rr t c) \<and> \<not> ali_writes x"
    by (intro exI conjI, rule ali_op_calls) (simp add: ali_writes_iff ali_describe_def)
  show "\<exists>x. one_call x (ali_create ses cry zone rr t v n c) \<and> ali_writes x"
    by (intro exI conjI, rule ali_op_calls) (simp add: ali_writes_iff)
  show "\<exists>x. one_call x (ali_update ses cry rr t v n c k) \<and> ali_writes x" for k
    by (intro exI conjI, rule ali_op_calls) (simp add: ali_writes_iff)
qed

interpretation pod: record_service "pod_lookup ses cry zone rr t c" "pod_create ses cry zone rr t v c"
    "pod_update ses cry zone rr t v c" pod_writes
  for ses :: "'w session" and cry zone rr t v c
proof
  show "\<exists>x. one_call x (pod_lookup ses cry zone rr t c) \<and> \<not> pod_writes x"
    by (intro exI conjI, rule pod_op_calls) (simp add: pod_writes_iff)
  show "\<exists>x. one_call x (pod_create ses cry zone rr t v c) \<and> pod_writes x"
    by (intro exI conjI, rule pod_op_calls) (simp add: pod_writes_iff)
  show "\<exists>x. one_call x (pod_update ses cry zone rr t v c k) \<and> pod_writes x" for k
    by (intro exI conjI, rule pod_op_calls) (simp add: pod_writes_iff)
qed

interpretation cf: record_service "cf_lookup ses host t c" "cf_create ses host t v n c" "cf_update ses host t v n c" cf_writes
  for ses :: "'w session" and host t v n c
proof
  show "\<exists>x. one_call x (cf_lookup ses host t c) \<and> \<not> cf_writes x"
    by (intro exI conjI, rule cf_op_calls) (simp add: cf_writes_iff)
  show "\<exists>x. one_call x (cf_create ses host t v n c) \<and> cf_writes x"
    by (intro exI conjI, rule cf_op_calls) (simp add: cf_writes_iff)
  show "\<exists>x. one_call x (cf_update ses host t v n c k) \<and> cf_writes x" for k
    by (intro exI conjI, rule cf_op_calls) (simp add: cf_writes_iff)
qed

section \<open>Properties\<close>

definition provider_writes :: "string \<Rightarrow> http_call \<Rightarrow> bool" where
  "provider_writes p = (if p = ''alidns'' then ali_writes else if p = ''dnspod'' then pod_writes
     else if p = ''cloudflare'' then cf_writes else (\<lambda>c. True))"

text \<open>The value that the zone has for the record, as the adapter reads it before it decides.\<close>

definition current_value :: "string \<Rightarrow> 'w session \<Rightarrow> crypto \<Rightarrow> string \<Rightarrow> rtype \<Rightarrow> creds \<Rightarrow> ('w, string option) net_op" where
  "current_value p ses cry host t c =
    (if p = ''alidns'' then sbind (require_creds c [''AccessKeyId'', ''AccessKeySecret''] p) (\<lambda>_. sbind (zone_rr host c p) (\<lambda>(zone, rr).
       sbind (ali_lookup ses cry zone rr t c) (\<lambda>found. ret (map_option snd found))))
     else if p = ''dnspod'' then sbind (require_creds c [''SecretId'', ''SecretKey''] p) (\<lambda>_. sbind (zone_rr host c p) (\<lambda>(zone, rr).
       sbind (pod_lookup ses cry zone rr t c) (\<lambda>found. ret (map_option snd found))))
     else sbind (guard (cf_creds_ok c) (Stop (no_credentials p))) (\<lambda>_.
       sbind (cf_lookup ses host t c) (\<lambda>found. ret (map_option snd found))))"

definition writes_needed :: "string \<Rightarrow> sync_stop + string option \<Rightarrow> nat" where
  "writes_needed v found = (case found of Inl e \<Rightarrow> 0 | Inr None \<Rightarrow> 1 | Inr (Some old) \<Rightarrow> if old = v then 0 else 1)"

text \<open>What an adapter must do, as a predicate on one run of it.\<close>

definition as_needed :: "(http_call \<Rightarrow> bool) \<Rightarrow> string \<Rightarrow> string \<Rightarrow> ('w, string option) net_op \<Rightarrow> ('w, provider_result) net_op \<Rightarrow> 'w net \<Rightarrow> bool" where
  "as_needed writes p v current m s = (\<exists>cs. net_calls (snd (m s)) = net_calls s @ cs \<and> length cs \<le> 2
     \<and> length (filter writes cs) = writes_needed v (fst (current s))
     \<and> (fst (current s) \<noteq> Inr (Some v) \<or> (\<exists>i. fst (m s) = Inr (success_result p False i))))"

lemma as_needed_guard:
  assumes "as_needed writes p v current m s"
  shows "as_needed writes p v (sbind (guard b e) (\<lambda>_. current)) (sbind (guard b e) (\<lambda>_. m)) s"
  using assms by (simp add: as_needed_def guard_def) (simp add: writes_needed_def fail_def)

lemma as_needed_zone:
  assumes "\<And>zone rr. as_needed writes p v (current zone rr) (m zone rr) s"
  shows "as_needed writes p v (sbind (zone_rr host c q) (\<lambda>(zone, rr). current zone rr)) (sbind (zone_rr host c q) (\<lambda>(zone, rr). m zone rr)) s"
  using assms by (simp add: zone_rr_def Let_def stop_with_def) (simp add: as_needed_def writes_needed_def fail_def)

lemma as_needed_plan:
  assumes "\<exists>cs. net_calls (snd (plan_sync lookup create update key_id v s)) = net_calls s @ cs \<and> length cs \<le> 2
     \<and> length (filter writes cs) = (case fst (lookup s) of Inl e \<Rightarrow> 0 | Inr None \<Rightarrow> 1 | Inr (Some (i, old)) \<Rightarrow> if old = v then 0 else 1)"
  shows "as_needed writes p v (sbind lookup (\<lambda>found. ret (map_option snd found)))
    (sbind (plan_sync lookup create update key_id v) (\<lambda>(ch, i). ret (success_result p ch i))) s"
proof -
  let ?m = "sbind (plan_sync lookup create update key_id v) (\<lambda>(ch, i). ret (success_result p ch i))"
  let ?cur = "sbind lookup (\<lambda>found. ret (map_option snd found))"
  have calls: "snd (?m s) = snd (plan_sync lookup create update key_id v s)"
    by (auto simp: sbind_def ret_def split: prod.splits sum.splits)
  obtain r t where t: "lookup s = (r, t)" by fastforce
  then have cur: "fst (?cur s) = (case r of Inl e \<Rightarrow> Inl e | Inr found \<Rightarrow> Inr (map_option snd found))"
    by (auto simp: sbind_def ret_def split: sum.splits)
  have "(case fst (lookup s) of Inl e \<Rightarrow> 0 | Inr None \<Rightarrow> 1 | Inr (Some (i, old)) \<Rightarrow> if old = v then 0 else 1) = writes_needed v (fst (?cur s))"
    using cur t by (auto simp: writes_needed_def split: sum.splits option.splits)
  moreover have "fst (?cur s) \<noteq> Inr (Some v) \<or> (\<exists>i. fst (?m s) = Inr (success_result p False i))"
    using cur t by (auto simp: plan_sync_def sbind_def ret_def split: sum.splits)
  ultimately show ?thesis using assms calls by (simp add: as_needed_def)
qed

lemma four_types: "record_types (spec i schema True True) = RECORD_TYPES"
  by (simp add: record_types_def spec_def RECORD_TYPES_def)

lemma all_types: "t \<in> set RECORD_TYPES"
  by (cases t) (simp_all add: RECORD_TYPES_def)

lemma sync_record_adapter:
  assumes "map_of PROVIDERS p = Some (spec i schema True True)"
  shows "sync_record p ses cry host t v n c = adapter p ses cry host t v n c"
  using assms all_types by (simp add: sync_record_def supports_record_type_def four_types)

lemma known_providers:
  "map_of PROVIDERS ''alidns'' = Some (spec ''alidns'' [''AccessKeyId'', ''AccessKeySecret'', ''zone''] True True)"
  "map_of PROVIDERS ''dnspod'' = Some (spec ''dnspod'' [''SecretId'', ''SecretKey'', ''zone''] True True)"
  "map_of PROVIDERS ''cloudflare'' = Some (spec ''cloudflare'' [''apiToken'', ''zoneId''] True True)"
  by code_simp+

lemma sync_record_plan:
  "sync_record ''alidns'' ses cry host t v n c = ali_sync ses cry host t v n c"
  "sync_record ''dnspod'' ses cry host t v n c = pod_sync ses cry host t v n c"
  "sync_record ''cloudflare'' ses cry host t v n c = cf_sync ses cry host t v n c"
  using sync_record_adapter [OF known_providers(1)] sync_record_adapter [OF known_providers(2)]
    sync_record_adapter [OF known_providers(3)]
  by (simp_all add: adapter_def)

text \<open>C22: the three adapters that manage a zone read the record once and then write only when it is needed:
  once when the record is missing or has another value, never when it has the value already (then the call
  succeeds and reports no change) and never when the read or a check before it fails.\<close>

theorem adapter_writes_as_needed:
  assumes "p \<in> {''alidns'', ''dnspod'', ''cloudflare''}"
  shows "as_needed (provider_writes p) p v (current_value p ses cry host t c) (sync_record p ses cry host t v n c) s"
proof -
  consider "p = ''alidns''" | "p = ''dnspod''" | "p = ''cloudflare''" using assms by blast
  then show ?thesis
  proof cases
    case 1
    show ?thesis
      unfolding 1 sync_record_plan ali_sync_plan require_creds_def current_value_def provider_writes_def if_P [OF refl]
      by (intro as_needed_guard as_needed_zone as_needed_plan ali.plan_calls)
  next
    case 2
    have ne: "(''dnspod'' = ''alidns'') = False" by simp
    show ?thesis
      unfolding 2 sync_record_plan pod_sync_plan require_creds_def current_value_def provider_writes_def ne if_False if_P [OF refl]
      by (intro as_needed_guard as_needed_zone as_needed_plan pod.plan_calls)
  next
    case 3
    have ne: "(''cloudflare'' = ''alidns'') = False" "(''cloudflare'' = ''dnspod'') = False" by simp_all
    show ?thesis
      unfolding 3 sync_record_plan cf_sync_plan current_value_def provider_writes_def ne if_False if_P [OF refl]
      by (intro as_needed_guard as_needed_plan cf.plan_calls)
  qed
qed

definition sample_crypto :: crypto where
  "sample_crypto = \<lparr>hmac_sha1_base64 = (\<lambda>k s. s), hmac_sha256 = (\<lambda>k s. s), hmac_sha256_hex = (\<lambda>k s. s), sha256_hex = (\<lambda>s. s),
     nonce_hex = ''00'', iso_time = ''2026-01-01T00:00:00Z'', iso_date = ''2026-01-01'', unix_time = 1767225600\<rparr>"

definition sample_zone :: json where
  "sample_zone = JObj [(''success'', JBool True), (''result'', JList [JObj [(''id'', JStr ''r1''), (''name'', JStr ''a.example.org''),
     (''type'', JStr ''A''), (''content'', JStr ''192.0.2.1''), (''ttl'', JInt 300)]])]"

definition sample_session :: "unit session" where
  "sample_session c w = (Some \<lparr>hr_status = 200, hr_json = Some sample_zone, hr_text = []\<rparr>, w)"

definition sample_creds :: creds where
  "sample_creds = [(''apiToken'', ''secret-token''), (''zoneId'', ''z1'')]"

definition sample_net :: "unit net" where
  "sample_net = \<lparr>net_world = (), net_calls = []\<rparr>"

theorem adapter_writes_as_needed_witness:
  "as_needed (provider_writes ''cloudflare'') ''cloudflare'' ''192.0.2.7''
     (current_value ''cloudflare'' sample_session sample_crypto ''a.example.org'' TA sample_creds)
     (sync_record ''cloudflare'' sample_session sample_crypto ''a.example.org'' TA ''192.0.2.7'' 300 sample_creds) sample_net"
  by (rule adapter_writes_as_needed) simp

section \<open>Refused logins\<close>

text \<open>An operation that ends in an authentication failure, as the publication counts it.\<close>

definition auth_stop :: "sync_stop + 'a \<Rightarrow> bool" where
  "auth_stop r = (\<exists>res. r = Inl (Stop res) \<and> \<not> pr_ok res \<and> strip (pr_error_code res) \<in> set AUTH_CODES)"

text \<open>A session that keeps the answers it gave, and an answer that refuses the login.\<close>

definition recording :: "'w session \<Rightarrow> ('w \<times> http_response option list) session" where
  "recording ses c wr = (case ses c (fst wr) of (r, w) \<Rightarrow> (r, (w, snd wr @ [r])))"

definition refused :: "http_response option \<Rightarrow> bool" where
  "refused r = (case r of None \<Rightarrow> False | Some resp \<Rightarrow> hr_status resp \<in> {401, 403})"

abbreviation answers :: "('w \<times> http_response option list) net \<Rightarrow> http_response option list" where
  "answers s \<equiv> snd (net_world s)"

text \<open>If the login is refused while an operation runs, the operation ends at once, in an authentication failure.\<close>

definition stops_refused :: "('w \<times> http_response option list, 'a) net_op \<Rightarrow> bool" where
  "stops_refused m = (\<forall>s. \<not> list_ex refused (answers s) \<longrightarrow> list_ex refused (answers (snd (m s))) \<longrightarrow> auth_stop (fst (m s)))"

named_theorems stops_intros

lemma stops_bind [stops_intros]:
  assumes "stops_refused m" and "\<And>x. stops_refused (f x)"
  shows "stops_refused (sbind m f)"
  unfolding stops_refused_def
proof (intro allI impI)
  fix s :: "('a \<times> http_response option list) net"
  assume s: "\<not> list_ex refused (answers s)" and end_state: "list_ex refused (answers (snd (sbind m f s)))"
  obtain r t where m: "m s = (r, t)" by fastforce
  show "auth_stop (fst (sbind m f s))"
  proof (cases r)
    case (Inl err)
    then have "auth_stop r" using assms(1) s end_state m unfolding stops_refused_def sbind_def by force
    then show ?thesis using m Inl by (auto simp: sbind_def auth_stop_def)
  next
    case (Inr x)
    then have "\<not> auth_stop r" by (simp add: auth_stop_def)
    then have "\<not> list_ex refused (answers t)" using assms(1) s m unfolding stops_refused_def by force
    then show ?thesis using assms(2) [of x] end_state m Inr unfolding stops_refused_def by (simp add: sbind_def)
  qed
qed

lemma stops_quiet: "(\<And>s. snd (m s) = s) \<Longrightarrow> stops_refused m"
  by (simp add: stops_refused_def)

lemma stops_simple [stops_intros]:
  "stops_refused (ret x)" "stops_refused (fail e)" "stops_refused (pure z)" "stops_refused (guard b e)" "stops_refused (stop_with p ec message)"
  "stops_refused (zone_rr host c p)" "stops_refused (require_creds c ks p)"
  by (rule stops_quiet; auto simp: ret_def fail_def pure_def guard_def stop_with_def zone_rr_def require_creds_def Let_def split: sum.splits)+

lemma stops_cases [stops_intros]:
  "(b \<Longrightarrow> stops_refused m) \<Longrightarrow> (\<not> b \<Longrightarrow> stops_refused m') \<Longrightarrow> stops_refused (if b then m else m')"
  "stops_refused n \<Longrightarrow> (\<And>x. stops_refused (g x)) \<Longrightarrow> stops_refused (case o1 of None \<Rightarrow> n | Some x \<Rightarrow> g x)"
  "(\<And>x y. stops_refused (h x y)) \<Longrightarrow> stops_refused (case z of (x, y) \<Rightarrow> h x y)"
  "stops_refused (k v) \<Longrightarrow> stops_refused (let x = v in k x)"
  by (auto split: option.splits prod.splits simp: Let_def)

lemma refusal_codes:
  "http_code 401 = ''http_401''" "http_code 403 = ''http_403''"
  "clean_error (JStr ''http_401'') [] = ''http_401''" "clean_error (JStr ''http_403'') [] = ''http_403''"
  "strip ''http_401'' = ''http_401''" "strip ''http_403'' = ''http_403''" "''http_401'' \<in> set AUTH_CODES" "''http_403'' \<in> set AUTH_CODES"
  by code_simp+

lemma stop_refusal: "auth_stop (fst (stop_with p (http_code 401) m t))" "auth_stop (fst (stop_with p (http_code 403) m t))"
  by (auto simp: auth_stop_def stop_with_def fail_def failure_def Let_def refusal_codes or_str_def)

lemma stops_request [stops_intros]:
  "stops_refused (request_json (recording ses) p c)" "stops_refused (request_text (recording ses) p c)"
proof -
  have send: "answers (snd (send (recording ses) c s)) = answers s @ [r]" "fst (send (recording ses) c s) = Inr r"
    if "r = fst (ses c (fst (net_world s)))" for s r
    using that by (simp_all add: send_def recording_def case_prod_beta)
  have "auth_stop (fst (request_json (recording ses) p c s)) \<and> auth_stop (fst (request_text (recording ses) p c s))"
    if "refused (fst (ses c (fst (net_world s))))" for s
  proof -
    obtain resp where resp: "fst (ses c (fst (net_world s))) = Some resp" "hr_status resp \<in> {401, 403}"
      using \<open>refused _\<close> by (auto simp: refused_def split: option.splits)
    then show ?thesis
      using send(2) [OF refl, of s]
      by (auto simp: request_json_def request_text_def sbind_def stop_refusal split: prod.splits json.splits option.splits)
  qed
  moreover have "answers (snd (request_json (recording ses) p c s)) = answers s @ [fst (ses c (fst (net_world s)))]"
    "answers (snd (request_text (recording ses) p c s)) = answers s @ [fst (ses c (fst (net_world s)))]" for s
    using send(1) [OF refl, of s] send(2) [OF refl, of s]
    by (auto simp: request_json_def request_text_def sbind_def stop_with_def fail_def ret_def split: prod.splits json.splits option.splits)
  ultimately show "stops_refused (request_json (recording ses) p c)" "stops_refused (request_text (recording ses) p c)"
    by (auto simp: stops_refused_def)
qed

lemma adapter_sync:
  "adapter ''alidns'' = ali_sync"
  "adapter ''dnspod'' = pod_sync"
  "adapter ''cloudflare'' = cf_sync"
  "adapter ''dynv6'' = dynv6_sync"
  "adapter ''duckdns'' = duckdns_sync"
  "adapter ''desec'' = desec_sync"
  "adapter ''dynu'' = dynu_sync"
  "adapter ''ipv64'' = ipv64_sync"
  by (simp_all add: adapter_def)

lemma stops_adapter:
  "stops_refused (ali_sync (recording ses) cry host t v n c)" "stops_refused (pod_sync (recording ses) cry host t v n c)"
  "stops_refused (cf_sync (recording ses) cry host t v n c)" "stops_refused (dynv6_sync (recording ses) cry host t v n c)"
  "stops_refused (duckdns_sync (recording ses) cry host t v n c)" "stops_refused (desec_sync (recording ses) cry host t v n c)"
  "stops_refused (dynu_sync (recording ses) cry host t v n c)" "stops_refused (ipv64_sync (recording ses) cry host t v n c)"
  unfolding ali_sync_def ali_rpc_def pod_sync_def pod_rpc_def cf_sync_def cf_api_def dynv6_sync_def duckdns_sync_def desec_sync_def
    dynu_sync_def ipv64_sync_def Let_def
  by (intro stops_intros)+

text \<open>C23: Whenever a DNS service answers one of the calls of an adapter with the status 401 or 403, be it the first or a
  later one and whatever its body is, the adapter ends with an error code that the publication counts as an authentication
  failure, which stops the automatic retries of the type. (A refusal that a service puts into the body of an answer with
  another status is not covered: its code is the one that the service gives.)\<close>

theorem auth_failure_recognised:
  assumes "sync_record p (recording ses) cry host t v n c s = (r, s')" and "answers s = []" and "list_ex refused (answers s')"
  shows "\<exists>res. r = Inl (Stop res) \<and> \<not> pr_ok res \<and> authError (fail_tracker now (strip (pr_error_code res)) k)"
proof -
  have "stops_refused (adapter p (recording ses) cry host t v n c)"
  proof (cases "p \<in> {''alidns'', ''dnspod'', ''cloudflare'', ''dynv6'', ''duckdns'', ''desec'', ''dynu'', ''ipv64''}")
    case True
    then show ?thesis by (elim insertE emptyE) (simp_all only: adapter_sync stops_adapter)
  next
    case False
    then show ?thesis by (simp add: adapter_def stops_simple)
  qed
  then have "stops_refused (sync_record p (recording ses) cry host t v n c)"
    unfolding sync_record_def by (intro stops_intros)
  then have "auth_stop r" using assms unfolding stops_refused_def by (auto dest!: spec [of _ s])
  then show ?thesis by (auto simp: auth_stop_def fail_tracker_def Let_def)
qed

text \<open>The records are read, and the login is refused when one of them is written.\<close>

definition refusing_session :: "nat session" where
  "refusing_session c k = (if k = 0 then (Some \<lparr>hr_status = 200, hr_json = Some sample_zone, hr_text = []\<rparr>, 1)
     else (Some \<lparr>hr_status = 403, hr_json = None, hr_text = ''<html>''\<rparr>, k))"

definition refused_sync :: "(sync_stop + provider_result) \<times> (nat \<times> http_response option list) net" where
  "refused_sync = sync_record ''cloudflare'' (recording refusing_session) sample_crypto ''a.example.org'' TA ''192.0.2.7'' 300 sample_creds
     \<lparr>net_world = (0, []), net_calls = []\<rparr>"

theorem auth_failure_recognised_witness:
  "\<exists>res. fst refused_sync = Inl (Stop res) \<and> authError (fail_tracker 1000 (strip (pr_error_code res)) empty_tracker)"
proof -
  have "list_ex refused (answers (snd refused_sync))" by code_simp
  then show ?thesis
    using auth_failure_recognised [of "''cloudflare''" refusing_session sample_crypto "''a.example.org''" TA "''192.0.2.7''" 300 sample_creds
      "\<lparr>net_world = (0, []), net_calls = []\<rparr>" "fst refused_sync" "snd refused_sync"]
    by (auto simp: refused_sync_def)
qed

section \<open>Where the code falls short\<close>

text \<open>\<open>json.dumps\<close> with its default separators, which is how a body passed as \<open>json=\<close> is put on the wire.\<close>

fun json_default :: "json \<Rightarrow> string" where
  "json_default (JList xs) = ''['' @ join '', '' (map json_default xs) @ '']''"
| "json_default (JObj d) = ''{'' @ join '', '' (map (\<lambda>(k, v). quote k @ '': '' @ json_default v) d) @ ''}''"
| "json_default v = json_enc v"

text \<open>DNSPod signs the compact text of the body and not the text that is sent.\<close>

theorem dnspod_signs_other_text:
  "pod_signed_text (pod_body zone rr t) \<noteq> json_default (JObj (pod_body zone rr t))"
proof -
  have "length (json_default (JObj (pod_body zone rr t))) = length (pod_signed_text (pod_body zone rr t)) + 7"
    by (simp add: pod_signed_text_def pod_body_def)
  then show ?thesis by auto
qed

text \<open>The answer \<open>nochg\<close> with an address, which says that nothing was changed, is reported as a change.\<close>

theorem nochg_reported_changed:
  "text_update_result ''dynu'' ''nochg 192.0.2.7'' 200 [] SUCCESS_WORDS = Inr (success_result ''dynu'' True [])"
  by code_simp

text \<open>A server error whose text begins with a success word counts as published: the status of the response is
  not handed on.\<close>

definition failing_session :: "unit session" where
  "failing_session c w = (Some \<lparr>hr_status = 500, hr_json = None, hr_text = ''ok to retry later''\<rparr>, w)"

theorem server_error_counts_as_success:
  "fst (sync_record ''dynv6'' failing_session sample_crypto ''a.dynv6.net'' TA ''192.0.2.7'' 300 [(''token'', ''t'')] sample_net)
     = Inr (success_result ''dynv6'' True [])"
proof -
  have "map_of PROVIDERS ''dynv6'' = Some (spec ''dynv6'' [''token''] False False)"
    "supports_record_type (spec ''dynv6'' [''token''] False False) TA" "token_of [(''token'', ''t'')] \<noteq> []"
    "strip ''ok to retry later'' = ''ok to retry later''"
    "text_update_result ''dynv6'' ''ok to retry later'' 200 [(''token'', ''t'')] SUCCESS_WORDS = Inr (success_result ''dynv6'' True [])"
    by code_simp+
  then show ?thesis
    by (simp add: sync_record_def adapter_def dynv6_sync_def guard_def request_text_def send_def failing_session_def sbind_def
        ret_def pure_def)
qed

end
