(* ===== verification/Tasks.thy ===== *)
theory Tasks
  imports HubCore
begin

text \<open>
  The task manager of the hub, \<open>src/router_task_manager_patch.py\<close>, with the NAT request and result helpers of
  \<open>src/router_native_features_patch.py\<close>. A background thread is the list of the critical sections that it
  still has to enter; the answers of the router, which do not depend on the tasks, are given when the
  thread starts. A step of a run enters one critical section. Messages are ASCII glosses.
\<close>

section \<open>NAT requests and results\<close>

definition normalize_nat_request :: "row \<Rightarrow> string + row" where
  "normalize_nat_request body =
    (let host = strip (py_str (por (dget body ''host'') (JStr ''stun.voip.aebc.com''))) in
     if host = [] \<or> 253 < length host \<or> list_ex is_space host then Inl ''INVALID_STUN_HOST''
     else let raw = dget_or body ''port'' (JInt 3478);
              raw_port = (if raw = JNull \<or> strip (py_str raw) = [] then JInt 3478 else raw) in
     case py_int_of raw_port of
       None \<Rightarrow> Inl ''INVALID_STUN_PORT''
     | Some port \<Rightarrow> if \<not> (1 \<le> port \<and> port \<le> 65535) then Inl ''INVALID_STUN_PORT''
         else let iface = lower (strip (py_str (por (dget body ''interface'') (JStr ''wan'')))) in
         if iface \<notin> {''wan'', ''wan1''} then Inl ''INVALID_WAN_INTERFACE''
         else let mode = lower (strip (py_str (por (dget body ''mode'') (JStr ''classic'')))) in
         if mode \<notin> {''classic'', ''5780''} then Inl ''INVALID_NAT_MODE''
         else Inr [(''host'', JStr host), (''port'', JInt port), (''interface'', JStr iface), (''mode'', JStr mode)])"

fun first_text :: "row \<Rightarrow> string list \<Rightarrow> string" where
  "first_text d [] = []"
| "first_text d (k # ks) =
     (let text = strip (py_str (dget d k)) in
      if dget d k = JNull then first_text d ks
      else if text \<noteq> [] \<and> lower text \<notin> {''none'', ''null'', ''--''} then text else first_text d ks)"

definition set_text :: "string \<Rightarrow> string \<Rightarrow> row \<Rightarrow> row" where
  "set_text k v d = (if v = [] then d else dset k (JStr v) d)"

definition TERMINAL_STATUS :: "string list" where
  "TERMINAL_STATUS = [''completed'', ''success'', ''failed'', ''error'', ''timeout'', ''cancelled'', ''canceled'']"

definition FAILED_STATUS :: "string list" where
  "FAILED_STATUS = [''cancelled'', ''canceled'', ''failed'', ''error'', ''timeout'']"

definition normalize_nat_row :: "row \<Rightarrow> row" where
  "normalize_nat_row d =
    (let mapping = first_text d [''mapping_behavior'', ''mappingBehavior'', ''mapping''];
         filtering = first_text d [''filtering_behavior'', ''filteringBehavior'', ''filtering''];
         nat_type = first_text d [''nat_type'', ''natType'', ''classic_type'', ''classicType''];
         external = first_text d [''external_address'', ''externalAddress'', ''mapped_address'', ''mappedAddress''];
         other = first_text d [''other_address'', ''otherAddress''];
         r = set_text ''other_address'' other (set_text ''external_address'' external (set_text ''nat_type'' nat_type
               (set_text ''filtering_behavior'' filtering (set_text ''mapping_behavior'' mapping d))));
         status_word = lower (first_text r [''status'']) in
     if mapping \<noteq> [] \<and> filtering \<noteq> [] \<and> status_word \<notin> set FAILED_STATUS then dset ''status'' (JStr ''completed'') r
     else if nat_type \<noteq> [] \<and> status_word \<notin> set TERMINAL_STATUS then dset ''status'' (JStr ''completed'') r
     else r)"

definition normalize_nat_payload :: "json \<Rightarrow> json" where
  "normalize_nat_payload v =
    (case (case v of JStr s \<Rightarrow> (case json_loads s of None \<Rightarrow> v | Some w \<Rightarrow> w) | _ \<Rightarrow> v) of
       JObj d \<Rightarrow> JObj (normalize_nat_row d) | w \<Rightarrow> w)"

definition nat_terminal :: "row \<Rightarrow> bool" where
  "nat_terminal d = (let n = normalize_nat_row d in
     lower (strip (py_str (por (dget n ''status'') (JStr [])))) \<in> set TERMINAL_STATUS
     \<or> first_text n [''nat_type'', ''natType''] \<noteq> []
     \<or> (first_text n [''mapping_behavior'', ''mappingBehavior'', ''mapping''] \<noteq> []
         \<and> first_text n [''filtering_behavior'', ''filteringBehavior'', ''filtering''] \<noteq> []))"

section \<open>Tasks\<close>

definition TERMINAL :: "string list" where
  "TERMINAL = [''succeeded'', ''failed'', ''timed_out'', ''cancelled'']"

definition KINDS :: "string list" where
  "KINDS = [''nat'', ''diagnostic'', ''beta'']"

definition LOG_MAX :: nat where "LOG_MAX = 300"

definition new_task :: "string \<Rightarrow> row" where
  "new_task kind = [(''kind'', JStr kind), (''taskId'', JStr []), (''state'', JStr ''idle''), (''stage'', JStr ''idle''),
     (''stageText'', JStr ''not started''), (''startedAt'', JInt 0), (''updatedAt'', JInt 0), (''lastRouterResponseAt'', JInt 0),
     (''elapsedSeconds'', JInt 0), (''message'', JStr []), (''log'', JList []), (''result'', JObj [])]"

text \<open>One critical section of a thread: a change of the task, perhaps with the time of the router's answer; a line of the
  log; or the check whether the task is still the thread's own, which ends the thread when it is not.\<close>

datatype task_action = Change bool row | Line string | Check

record task_thread =
  th_kind :: string
  th_task :: string
  th_actions :: "task_action list"

text \<open>\<open>file_tasks\<close> is the content of \<open>router_tasks.json\<close>; \<open>None\<close> while there is none.\<close>

record task_manager =
  tasks :: "(string \<times> row) list"
  file_tasks :: "json option"
  threads :: "(nat \<times> task_thread) list"

definition task_of :: "task_manager \<Rightarrow> string \<Rightarrow> row" where
  "task_of m kind = (case map_of (tasks m) kind of None \<Rightarrow> [] | Some t \<Rightarrow> t)"

definition save_tasks :: "task_manager \<Rightarrow> task_manager" where
  "save_tasks m = m\<lparr>file_tasks := Some (JObj (map (\<lambda>(k, t). (k, JObj t)) (tasks m)))\<rparr>"

definition put_task :: "string \<Rightarrow> row \<Rightarrow> task_manager \<Rightarrow> task_manager" where
  "put_task kind t m = save_tasks (m\<lparr>tasks := dset kind t (tasks m)\<rparr>)"

text \<open>Reading the file at start-up; a task that was not finished has failed.\<close>

definition restore_task :: "string \<Rightarrow> row \<Rightarrow> row" where
  "restore_task kind v = (let t = dmerge (new_task kind) v in
     if (\<exists>w \<in> set TERMINAL. dget t ''state'' = JStr w) \<or> dget t ''state'' = JStr ''idle'' then t
     else dmerge t [(''state'', JStr ''failed''), (''stage'', JStr ''interrupted''), (''stageText'', JStr ''hub restarted, task interrupted''),
       (''message'', JStr ''task not finished, it can be started again'')])"

text \<open>A stored state that cannot be looked up in a set raises, and the tasks after it stay as they are in a new manager.\<close>

fun unhashable :: "json \<Rightarrow> bool" where
  "unhashable (JList xs) = True"
| "unhashable (JObj d) = True"
| "unhashable v = False"

fun restore_tasks :: "row \<Rightarrow> string list \<Rightarrow> (string \<times> row) list" where
  "restore_tasks root [] = []"
| "restore_tasks root (kind # kinds) = (case dget root kind of
     JObj v \<Rightarrow> if unhashable (dget (dmerge (new_task kind) v) ''state'') then map (\<lambda>k. (k, new_task k)) (kind # kinds)
       else (kind, restore_task kind v) # restore_tasks root kinds
   | _ \<Rightarrow> (kind, new_task kind) # restore_tasks root kinds)"

definition load_tasks :: "json option \<Rightarrow> task_manager" where
  "load_tasks f = \<lparr>tasks = restore_tasks (items (case f of None \<Rightarrow> JObj [] | Some v \<Rightarrow> v)) KINDS,
     file_tasks = f, threads = []\<rparr>"

definition task_active :: "row \<Rightarrow> bool" where
  "task_active t = (dget t ''state'' = JStr ''queued'' \<or> dget t ''state'' = JStr ''running'')"

text \<open>What the API shows; \<open>int\<close> of an odd start time raises.\<close>

definition task_snapshot :: "int \<Rightarrow> string \<Rightarrow> task_manager \<Rightarrow> row option" where
  "task_snapshot now kind m =
    (let t = task_of m kind in
     case py_int_of (por (dget t ''startedAt'') (JInt 0)) of
       None \<Rightarrow> None
     | Some started \<Rightarrow>
        let t1 = (if 0 < started \<and> dget t ''state'' \<noteq> JStr ''idle'' then dset ''elapsedSeconds'' (JInt (max 0 (now - started))) t else t);
            result = (case dget t1 ''result'' of JObj r \<Rightarrow> JObj r | _ \<Rightarrow> JObj []) in
        (case py_iter (por (dget t1 ''log'') (JList [])) of
           Inl _ \<Rightarrow> None
         | Inr lines \<Rightarrow> Some (dset ''result'' result (dset ''log'' (JList lines) t1))))"

section \<open>Critical sections\<close>

definition change_task :: "int \<Rightarrow> string \<Rightarrow> row \<Rightarrow> task_manager \<Rightarrow> task_manager" where
  "change_task now kind kvs m = put_task kind (dset ''updatedAt'' (JInt now) (dmerge (task_of m kind) kvs)) m"

definition append_log :: "int \<Rightarrow> string \<Rightarrow> string \<Rightarrow> task_manager \<Rightarrow> task_manager" where
  "append_log now kind line m =
    (let text = strip line; lines = elems (dget (task_of m kind) ''log'') in
     if text = [] then m
     else if lines = [] \<or> last lines \<noteq> JStr text
     then put_task kind (dset ''updatedAt'' (JInt now) (dset ''log'' (JList (take_last LOG_MAX (lines @ [JStr text]))) (task_of m kind))) m
     else m)"

definition begin_task :: "int \<Rightarrow> string \<Rightarrow> string \<Rightarrow> string \<Rightarrow> task_manager \<Rightarrow> bool \<times> task_manager" where
  "begin_task now kind task_id stage_text m =
    (if task_active (task_of m kind) then (False, m)
     else (True, put_task kind (dmerge (new_task kind) [(''taskId'', JStr task_id), (''state'', JStr ''queued''), (''stage'', JStr ''queued''),
       (''stageText'', JStr stage_text), (''startedAt'', JInt now), (''updatedAt'', JInt now)]) m))"

definition change :: "(string \<times> string) list \<Rightarrow> task_action" where
  "change kvs = Change False (map (\<lambda>(k, v). (k, JStr v)) kvs)"

section \<open>The NAT task\<close>

text \<open>An answer of the router or the text of the exception.\<close>

type_synonym answer = "string + json"

definition nat_requested :: "row \<Rightarrow> row \<Rightarrow> row" where
  "nat_requested requested n =
    (let r = dmerge n [(''requested_host'', dget_or requested ''host'' (JStr [])), (''requested_port'', por (dget requested ''port'') (JInt 3478)),
       (''requested_interface'', dget_or requested ''interface'' (JStr ''wan'')), (''requested_mode'', dget_or requested ''mode'' (JStr ''classic''))] in
     if map_of r ''mode'' = None then dset ''mode'' (dget_or requested ''mode'' (JStr ''classic'')) r else r)"

definition nat_stage :: "row \<Rightarrow> string \<times> string" where
  "nat_stage n = (let mapping = strip (py_str (por (dget n ''mapping_behavior'') (JStr [])));
       filtering = strip (py_str (por (dget n ''filtering_behavior'') (JStr []))) in
     if mapping \<noteq> [] \<and> filtering = [] then (''mapping_done'', ''mapping behaviour returned, waiting for filtering behaviour'')
     else if filtering \<noteq> [] then (''filtering_done'', ''filtering behaviour returned, collecting the result'')
     else (''router_running'', ''router is detecting NAT''))"

definition nat_finish :: "row \<Rightarrow> task_action" where
  "nat_finish n = (let failed = (lower (py_str (por (dget n ''status'') (JStr []))) \<in> set FAILED_STATUS) in
     Change False [(''state'', JStr (if failed then ''failed'' else ''succeeded'')), (''stage'', JStr ''finished''),
       (''stageText'', JStr (if failed then ''detection failed'' else ''detection finished'')),
       (''message'', JStr (py_str (por (dget n ''message'') (JStr (if failed then ''detection failed'' else ''detection finished''))))),
       (''result'', JObj n)])"

text \<open>What the thread does with the latest answer, and whether it was the last.\<close>

definition nat_seen :: "row \<Rightarrow> json \<Rightarrow> task_action list \<times> bool" where
  "nat_seen requested latest = (case latest of
     JObj d \<Rightarrow>
       (let n = nat_requested requested (normalize_nat_row d);
            lines = (if truthy (dget n ''log'') then map Line (split_by line_break (py_str (dget n ''log''))) else []);
            shown = Change True [(''stage'', JStr (fst (nat_stage n))), (''stageText'', JStr (snd (nat_stage n))), (''result'', JObj n)] in
        if nat_terminal n then (lines @ [shown, nat_finish n], True) else (lines @ [shown], False))
   | _ \<Rightarrow> ([], False))"

text \<open>One element of \<open>polls\<close> per turn of the loop; the time is up when there are no more.\<close>

fun nat_loop :: "row \<Rightarrow> json \<Rightarrow> answer list \<Rightarrow> task_action list" where
  "nat_loop requested latest [] =
     [change [(''state'', ''timed_out''), (''stage'', ''timeout''), (''stageText'', ''detection timed out''),
        (''message'', ''router returned no final result'')], Line ''waited for the time limit, task ends'']"
| "nat_loop requested latest (p # ps) =
     Check # fst (nat_seen requested latest) @
       (if snd (nat_seen requested latest) then []
        else (case p of
            Inl e \<Rightarrow> change [(''stage'', ''router_running''), (''stageText'', ''router still detecting, waiting for the next answer'')]
                # nat_loop requested latest ps
          | Inr v \<Rightarrow> nat_loop requested v ps))"

definition failed_change :: "string \<Rightarrow> string \<Rightarrow> string \<Rightarrow> task_action" where
  "failed_change text message dflt = change [(''state'', ''failed''), (''stage'', ''failed''), (''stageText'', text),
     (''message'', if message = [] then dflt else message)]"

definition run_nat :: "row \<Rightarrow> answer \<Rightarrow> answer list \<Rightarrow> task_action list" where
  "run_nat requested start polls =
     [Change False [(''state'', JStr ''running''), (''stage'', JStr ''command''), (''stageText'', JStr ''sending the command to the router''),
        (''request'', JObj requested)], Line ''Hub accepted the NAT task''] @
     (case start of
        Inl e \<Rightarrow> [failed_change ''detection failed'' e ''NAT detection failed'']
      | Inr v \<Rightarrow> [Change True [(''stage'', JStr ''router_running''), (''stageText'', JStr ''router is detecting NAT'')],
           Line ''command sent to the router''] @ nat_loop requested v polls)"

section \<open>The network self-test\<close>

definition diag_percent :: "json \<Rightarrow> int option" where
  "diag_percent v = (let d = items v;
       process = strip (py_str (por (dget d ''process'') (por (dget d ''progress'') (JStr ''0%''))));
       digits = filter char_isdigit process in
     if digits = [] then Some 0 else map_option (min 100) (py_int digits))"

definition diag_deferred :: task_action where
  "diag_deferred = change [(''stageText'', ''router still testing, waiting for the next answer'')]"

fun diag_loop :: "answer list \<Rightarrow> task_action list" where
  "diag_loop [] = [change [(''state'', ''timed_out''), (''stage'', ''timeout''), (''stageText'', ''self-test timed out''),
     (''message'', ''router returned no complete result'')]]"
| "diag_loop (p # ps) = Check # (case p of
     Inl e \<Rightarrow> diag_deferred # diag_loop ps
   | Inr v \<Rightarrow> (case diag_percent v of
       None \<Rightarrow> diag_deferred # diag_loop ps
     | Some percent \<Rightarrow>
         (if percent < 100
          then Change True [(''stage'', JStr ''router_running''), (''stageText'', JStr (''self-test running ('' @ int_str percent @ ''%)'')),
                 (''result'', JObj (items v))] # diag_loop ps
          else [Change True [(''stage'', JStr ''finished''), (''stageText'', JStr ''self-test finished''), (''result'', JObj (items v))],
                Change False [(''state'', JStr ''succeeded''), (''stage'', JStr ''finished''), (''stageText'', JStr ''self-test finished''),
                  (''message'', JStr ''finished''), (''result'', JObj (items v))]])))"

definition run_diagnostic :: "answer \<Rightarrow> answer list \<Rightarrow> task_action list" where
  "run_diagnostic start polls =
     [change [(''state'', ''running''), (''stage'', ''command''), (''stageText'', ''sending the command to the router'')],
      Line ''Hub accepted the self-test''] @
     (case start of
        Inl e \<Rightarrow> [failed_change ''self-test failed'' e ''self-test failed'']
      | Inr v \<Rightarrow> [Change True [(''stage'', JStr ''router_running''), (''stageText'', JStr ''router is testing the network'')],
           Line ''command sent to the router''] @ diag_loop polls)"

section \<open>The Beta check\<close>

definition translate_beta :: "string \<Rightarrow> string" where
  "translate_beta s = (let text = strip s; l = lower text in
     if text = [] then ''check finished''
     else if contains l ''no new version'' \<or> contains l ''latest version'' \<or> contains l ''no update'' then ''no new version available''
     else if contains l ''new version'' \<or> contains l ''update available'' then ''new version found''
     else if contains l ''timeout'' \<or> contains l ''timed out'' then ''version check timed out''
     else if contains l ''failed'' \<or> contains l ''error'' then ''version check failed''
     else text)"

definition beta_result :: "int \<Rightarrow> json \<Rightarrow> string \<times> row" where
  "beta_result checked data =
    (let result = (case data of JObj d \<Rightarrow> d | _ \<Rightarrow> [(''raw'', data)]);
         next_data = items (dget result ''new'');
         message = translate_beta (py_str (por (por (dget next_data ''msg'') (dget result ''msg'')) (JStr []))) in
     (message, dset ''checkedAt'' (JInt checked) (dset ''new'' (JObj (dset ''msg'' (JStr message) next_data)) result)))"

definition run_beta :: "int \<Rightarrow> bool \<Rightarrow> answer \<Rightarrow> task_action list" where
  "run_beta checked late reply =
     change [(''state'', ''running''), (''stage'', ''router_query''), (''stageText'', ''asking the router for the Beta version'')] #
     (case reply of
        Inl e \<Rightarrow> [change [(''state'', ''failed''), (''stage'', ''failed''), (''stageText'', ''version check failed''),
          (''message'', translate_beta e)]]
      | Inr data \<Rightarrow>
          if late then [change [(''state'', ''timed_out''), (''stage'', ''timeout''), (''stageText'', ''version check timed out''),
            (''message'', ''version check timed out'')]]
          else [Change True [(''state'', JStr ''succeeded''), (''stage'', JStr ''finished''), (''stageText'', JStr ''version check finished''),
            (''message'', JStr (fst (beta_result checked data))), (''result'', JObj (snd (beta_result checked data)))]])"

section \<open>Runs\<close>

text \<open>Starting a task: the thread is created when the task was not active.\<close>

definition start_thread :: "int \<Rightarrow> nat \<Rightarrow> string \<Rightarrow> string \<Rightarrow> string \<Rightarrow> task_action list \<Rightarrow> task_manager \<Rightarrow> task_manager" where
  "start_thread now w kind task_id stage_text actions m =
    (case begin_task now kind task_id stage_text m of (created, m') \<Rightarrow>
       if created then m'\<lparr>threads := dset w \<lparr>th_kind = kind, th_task = task_id, th_actions = actions\<rparr> (threads m')\<rparr> else m')"

definition start_nat :: "int \<Rightarrow> nat \<Rightarrow> string \<Rightarrow> row \<Rightarrow> answer \<Rightarrow> answer list \<Rightarrow> task_manager \<Rightarrow> (string + unit) \<times> task_manager" where
  "start_nat now w task_id body start polls m = (case normalize_nat_request body of
     Inl e \<Rightarrow> (Inl e, m)
   | Inr requested \<Rightarrow> (Inr (), start_thread now w ''nat'' task_id ''NAT detection queued'' (run_nat requested start polls) m))"

definition start_diagnostic :: "int \<Rightarrow> nat \<Rightarrow> string \<Rightarrow> answer \<Rightarrow> answer list \<Rightarrow> task_manager \<Rightarrow> task_manager" where
  "start_diagnostic now w task_id start polls =
     start_thread now w ''diagnostic'' task_id ''self-test queued'' (run_diagnostic start polls)"

definition start_beta :: "int \<Rightarrow> nat \<Rightarrow> string \<Rightarrow> int \<Rightarrow> bool \<Rightarrow> answer \<Rightarrow> task_manager \<Rightarrow> task_manager" where
  "start_beta now w task_id checked late reply =
     start_thread now w ''beta'' task_id ''version check queued'' (run_beta checked late reply)"

definition task_step :: "int \<Rightarrow> nat \<Rightarrow> task_manager \<Rightarrow> task_manager" where
  "task_step now w m = (case map_of (threads m) w of
     None \<Rightarrow> m
   | Some th \<Rightarrow> (case th_actions th of
       [] \<Rightarrow> m
     | act # rest \<Rightarrow>
        let m' = m\<lparr>threads := dset w (th\<lparr>th_actions := rest\<rparr>) (threads m)\<rparr> in
        (case act of
           Change answered kvs \<Rightarrow> change_task now (th_kind th)
             (if answered then dset ''lastRouterResponseAt'' (JInt now) kvs else kvs) m'
         | Line text \<Rightarrow> append_log now (th_kind th) text m'
         | Check \<Rightarrow> if dget (task_of m (th_kind th)) ''taskId'' = JStr (th_task th) then m'
             else m\<lparr>threads := dset w (th\<lparr>th_actions := []\<rparr>) (threads m)\<rparr>)))"

datatype task_event =
    StartNat int nat string row answer "answer list" | StartDiagnostic int nat string answer "answer list"
  | StartBeta int nat string int bool answer | Step int nat

fun task_do :: "task_manager \<Rightarrow> task_event \<Rightarrow> task_manager" where
  "task_do m (StartNat now w i body start polls) = snd (start_nat now w i body start polls m)"
| "task_do m (StartDiagnostic now w i start polls) = start_diagnostic now w i start polls m"
| "task_do m (StartBeta now w i checked late reply) = start_beta now w i checked late reply m"
| "task_do m (Step now w) = task_step now w m"

text \<open>The thread and the task of a start are new.\<close>

fun event_fresh :: "task_manager \<Rightarrow> task_event \<Rightarrow> bool" where
  "event_fresh m (StartNat now w i body start polls) = (map_of (threads m) w = None \<and> list_all (\<lambda>(k, x). th_task x \<noteq> i) (threads m))"
| "event_fresh m (StartDiagnostic now w i start polls) = (map_of (threads m) w = None \<and> list_all (\<lambda>(k, x). th_task x \<noteq> i) (threads m))"
| "event_fresh m (StartBeta now w i checked late reply) = (map_of (threads m) w = None \<and> list_all (\<lambda>(k, x). th_task x \<noteq> i) (threads m))"
| "event_fresh m (Step now w) = True"

fun task_run :: "task_manager \<Rightarrow> task_event list \<Rightarrow> task_manager option" where
  "task_run m [] = Some m"
| "task_run m (e # es) = (if event_fresh m e then task_run (task_do m e) es else None)"
end
