(* ===== verification/TasksRuns.thy ===== *)
theory TasksRuns
  imports Tasks
begin

text \<open>
  Runs of the task manager: an active task has exactly one thread that owns it, the thread ends it, and
  a finished task changes no more except for its log.
\<close>

section \<open>The shape of a thread\<close>

fun is_line :: "task_action \<Rightarrow> bool" where
  "is_line (Line s) = True" | "is_line _ = False"

definition is_final :: "row \<Rightarrow> bool" where
  "is_final c = list_ex (\<lambda>w. dget c ''state'' = JStr w) TERMINAL"

definition is_quiet :: "row \<Rightarrow> bool" where
  "is_quiet c = (dict_ok c \<and> ''taskId'' \<notin> fst ` set c \<and> ''log'' \<notin> fst ` set c)"

definition keeps_active :: "row \<Rightarrow> bool" where
  "keeps_active c = (''state'' \<notin> fst ` set c \<or> dget c ''state'' = JStr ''running'')"

text \<open>A thread changes its task while it is active, ends it with one change, and then writes at most to the log.\<close>

fun ends_task :: "task_action list \<Rightarrow> bool" where
  "ends_task [] = False"
| "ends_task (Line s # as) = ends_task as"
| "ends_task (Check # as) = ends_task as"
| "ends_task (Change answered c # as) = (is_quiet c \<and> (if is_final c then list_all is_line as else keeps_active c \<and> ends_task as))"

lemma ends_append_lines: "ends_task (map Line ls @ as) = ends_task as"
  by (induction ls) auto

lemma not_final_running: "\<not> is_final [(''state'', JStr ''running''), x]"
  by (simp add: is_final_def TERMINAL_def)

lemmas action_defs = is_quiet_def is_final_def keeps_active_def TERMINAL_def change_def failed_change_def

lemma nat_seen_ends:
  assumes "nat_seen requested latest = (as, fin)" and "fin \<or> ends_task bs"
  shows "ends_task (as @ (if fin then [] else bs))"
proof (cases latest)
  case (JObj d)
  let ?n = "nat_requested requested (normalize_nat_row d)"
  let ?shown = "Change True [(''stage'', JStr (fst (nat_stage ?n))), (''stageText'', JStr (snd (nat_stage ?n))), (''result'', JObj ?n)]"
  have shown: "ends_task (?shown # cs) = ends_task cs" for cs by (simp add: action_defs)
  have finish: "ends_task [nat_finish ?n]" by (simp add: nat_finish_def Let_def action_defs)
  define ls where "ls = (if truthy (dget ?n ''log'') then map Line (split_by line_break (py_str (dget ?n ''log''))) else [])"
  have lines: "ends_task (ls @ cs) = ends_task cs" for cs by (simp add: ls_def ends_append_lines)
  have seen: "nat_seen requested latest = (if nat_terminal ?n then (ls @ [?shown, nat_finish ?n], True) else (ls @ [?shown], False))"
    by (simp only: JObj nat_seen_def json.case Let_def ls_def)
  show ?thesis
  proof (cases "nat_terminal ?n")
    case True
    then have "as = ls @ [?shown, nat_finish ?n]" "fin" using seen assms(1) by simp_all
    then show ?thesis using shown [of "[nat_finish ?n]"] finish by (simp only: if_True append_Nil2 lines)
  next
    case False
    then have "as = ls @ [?shown]" "\<not> fin" using seen assms(1) by simp_all
    then show ?thesis using shown [of bs] assms(2) by (simp only: if_False append_assoc append_Cons append_Nil lines simp_thms)
  qed
qed (use assms in \<open>auto simp: nat_seen_def\<close>)

lemma nat_loop_ends: "ends_task (nat_loop requested latest polls)"
proof (induction requested latest polls rule: nat_loop.induct)
  case (1 requested latest)
  then show ?case by (simp add: action_defs)
next
  case (2 requested latest p ps)
  obtain as fin where seen: "nat_seen requested latest = (as, fin)" by fastforce
  let ?rest = "case p of Inl e \<Rightarrow> change [(''stage'', ''router_running''), (''stageText'', ''router still detecting, waiting for the next answer'')]
                # nat_loop requested latest ps | Inr v \<Rightarrow> nat_loop requested v ps"
  have "fin \<or> ends_task ?rest" using 2 seen by (auto simp: action_defs split: sum.splits)
  from nat_seen_ends [OF seen this] show ?case using seen by simp
qed

lemma run_nat_ends: "ends_task (run_nat requested start polls)"
  by (auto simp: run_nat_def action_defs nat_loop_ends split: sum.splits)

lemma diag_loop_ends: "ends_task (diag_loop polls)"
  by (induction polls) (auto simp: diag_deferred_def action_defs split: sum.splits option.splits)

lemma run_diagnostic_ends: "ends_task (run_diagnostic start polls)"
  by (auto simp: run_diagnostic_def action_defs diag_loop_ends split: sum.splits)

lemma run_beta_ends: "ends_task (run_beta checked late reply)"
  by (auto simp: run_beta_def action_defs split: sum.splits)

section \<open>Ownership\<close>

lemma task_of_put [simp]: "task_of (put_task kind t m) kind' = (if kind' = kind then t else task_of m kind')"
  by (simp add: put_task_def save_tasks_def task_of_def)

lemma put_task_threads [simp]: "threads (put_task kind t m) = threads m"
  by (simp add: put_task_def save_tasks_def)

lemma task_of_threads [simp]: "task_of (m\<lparr>threads := ts\<rparr>) kind = task_of m kind"
  by (simp add: task_of_def)

text \<open>A thread owns a task that is active and has its identifier.\<close>

definition owner :: "task_manager \<Rightarrow> task_thread \<Rightarrow> bool" where
  "owner m x = (ends_task (th_actions x) \<and> dget (task_of m (th_kind x)) ''taskId'' = JStr (th_task x) \<and> task_active (task_of m (th_kind x)))"

text \<open>A thread whose task has ended only writes to the log.\<close>

definition manager_ok :: "task_manager \<Rightarrow> bool" where
  "manager_ok m = (
     (\<forall>w x. map_of (threads m) w = Some x \<longrightarrow> owner m x \<or> list_all is_line (th_actions x))
   \<and> (\<forall>w x w' x'. map_of (threads m) w = Some x \<longrightarrow> map_of (threads m) w' = Some x' \<longrightarrow> owner m x \<longrightarrow> owner m x' \<longrightarrow>
        th_kind x = th_kind x' \<longrightarrow> w = w')
   \<and> (\<forall>kind. task_active (task_of m kind) \<longrightarrow> (\<exists>w x. map_of (threads m) w = Some x \<and> owner m x \<and> th_kind x = kind)))"

lemma ends_not_lines: "ends_task as \<Longrightarrow> \<not> list_all is_line as"
  by (induction as rule: ends_task.induct) auto

lemma log_task [simp]:
  "dget (task_of (append_log now kind s m) k) ''taskId'' = dget (task_of m k) ''taskId''"
  "task_active (task_of (append_log now kind s m) k) = task_active (task_of m k)"
  "threads (append_log now kind s m) = threads m"
  by (auto simp: append_log_def Let_def task_active_def)

lemma dget_dmerge_ok: "dict_ok c \<Longrightarrow> dget (dmerge t c) k = (case map_of c k of None \<Rightarrow> dget t k | Some v \<Rightarrow> v)"
  by (auto simp: dget_def dget_or_def dget_dmerge map_of_rev_distinct split: option.splits)

lemma dget_change_task:
  assumes "dict_ok c" and "k \<notin> {''updatedAt'', ''lastRouterResponseAt''}"
  shows "dget (task_of (change_task now kind (if answered then dset ''lastRouterResponseAt'' (JInt now) c else c) m) kind) k
    = (case map_of c k of None \<Rightarrow> dget (task_of m kind) k | Some v \<Rightarrow> v)"
  using assms by (auto simp: change_task_def dget_dmerge_ok split: option.splits)

lemma change_other [simp]: "kind' \<noteq> kind \<Longrightarrow> task_of (change_task now kind c m) kind' = task_of m kind'"
  by (simp add: change_task_def)

lemma change_threads [simp]: "threads (change_task now kind c m) = threads m"
  by (simp add: change_task_def)

definition status_kept :: "task_manager \<Rightarrow> task_manager \<Rightarrow> string \<Rightarrow> bool" where
  "status_kept m m' kind = (dget (task_of m' kind) ''taskId'' = dget (task_of m kind) ''taskId''
     \<and> task_active (task_of m' kind) = task_active (task_of m kind))"

lemma change_status:
  assumes "is_quiet c" and "keeps_active c" and "task_active (task_of m kind)"
  shows "status_kept m (change_task now kind (if answered then dset ''lastRouterResponseAt'' (JInt now) c else c) m) kind"
proof -
  have "map_of c ''taskId'' = None" using assms(1) by (simp add: is_quiet_def map_of_eq_None_iff)
  moreover have "map_of c ''state'' = None \<or> map_of c ''state'' = Some (JStr ''running'')"
    using assms(2) by (auto simp: keeps_active_def map_of_eq_None_iff dget_def dget_or_def split: option.splits)
  moreover have "dict_ok c" using assms(1) by (simp add: is_quiet_def)
  ultimately show ?thesis
    using assms(3) dget_change_task [of c "''taskId''"] dget_change_task [of c "''state''"]
    by (elim disjE) (auto simp: status_kept_def task_active_def)
qed

lemma change_final:
  assumes "is_quiet c" and "is_final c"
  shows "\<not> task_active (task_of (change_task now kind (if answered then dset ''lastRouterResponseAt'' (JInt now) c else c) m) kind)"
proof -
  obtain w where "w \<in> set TERMINAL" "dget c ''state'' = JStr w" using assms(2) by (auto simp: is_final_def list_ex_iff)
  then have "map_of c ''state'' = Some (JStr w)" by (auto simp: dget_def dget_or_def split: option.splits)
  then show ?thesis
    using assms(1) dget_change_task [of c "''state''"] \<open>w \<in> set TERMINAL\<close>
    by (auto simp: task_active_def is_quiet_def TERMINAL_def)
qed

text \<open>Steps that keep the status of every task, and the step that ends one.\<close>

lemma owner_status: "status_kept m m' (th_kind x) \<Longrightarrow> owner m' x = owner m x"
  by (simp add: owner_def status_kept_def)

lemma keep_ok:
  assumes ok: "manager_ok m" and x: "map_of (threads m) w = Some x"
    and t: "threads m' = dset w (x\<lparr>th_actions := rest\<rparr>) (threads m)" and kept: "\<And>kind. status_kept m m' kind"
    and rest: "owner m x \<Longrightarrow> ends_task rest" "\<not> owner m x \<Longrightarrow> list_all is_line rest"
  shows "manager_ok m'"
proof -
  have own: "owner m' y = owner m y" for y using owner_status kept by blast
  have ownx: "owner m (x\<lparr>th_actions := rest\<rparr>) = owner m x"
    using rest ends_not_lines by (auto simp: owner_def)
  show ?thesis
    unfolding manager_ok_def own t
  proof (intro conjI allI impI)
    fix v y
    assume "map_of (dset w (x\<lparr>th_actions := rest\<rparr>) (threads m)) v = Some y"
    then show "owner m y \<or> list_all is_line (th_actions y)"
      using ok ownx rest(2) by (auto simp: manager_ok_def split: if_splits)
  next
    fix v y v' y'
    assume "map_of (dset w (x\<lparr>th_actions := rest\<rparr>) (threads m)) v = Some y"
      "map_of (dset w (x\<lparr>th_actions := rest\<rparr>) (threads m)) v' = Some y'" "owner m y" "owner m y'" "th_kind y = th_kind y'"
    then show "v = v'"
      using ok x ownx by (auto simp: manager_ok_def split: if_splits)
  next
    fix kind
    assume "task_active (task_of m' kind)"
    then obtain v y where y: "map_of (threads m) v = Some y" "owner m y" "th_kind y = kind"
      using ok kept [of kind] by (auto simp: manager_ok_def status_kept_def)
    then show "\<exists>v y. map_of (dset w (x\<lparr>th_actions := rest\<rparr>) (threads m)) v = Some y \<and> owner m y \<and> th_kind y = kind"
      using x ownx by (cases "v = w") (auto intro: exI [of _ v])
  qed
qed

lemma end_ok:
  assumes ok: "manager_ok m" and x: "map_of (threads m) w = Some x" and own: "owner m x"
    and t: "threads m' = dset w (x\<lparr>th_actions := rest\<rparr>) (threads m)" and kept: "\<And>kind. kind \<noteq> th_kind x \<Longrightarrow> status_kept m m' kind"
    and ended: "\<not> task_active (task_of m' (th_kind x))" and rest: "list_all is_line rest"
  shows "manager_ok m'"
proof -
  have same: "owner m' y = (owner m y \<and> th_kind y \<noteq> th_kind x)" for y
    using owner_status kept ended by (cases "th_kind y = th_kind x") (auto simp: owner_def)
  have only: "v = w" if "map_of (threads m) v = Some y" "owner m y" "th_kind y = th_kind x" for v y
    using ok x own that unfolding manager_ok_def by blast
  show ?thesis
    unfolding manager_ok_def same t
  proof (intro conjI allI impI)
    fix v y
    assume "map_of (dset w (x\<lparr>th_actions := rest\<rparr>) (threads m)) v = Some y"
    then show "(owner m y \<and> th_kind y \<noteq> th_kind x) \<or> list_all is_line (th_actions y)"
      using ok rest only by (auto simp: manager_ok_def split: if_splits)
  next
    fix v y v' y'
    assume "map_of (dset w (x\<lparr>th_actions := rest\<rparr>) (threads m)) v = Some y"
      "map_of (dset w (x\<lparr>th_actions := rest\<rparr>) (threads m)) v' = Some y'"
      "owner m y \<and> th_kind y \<noteq> th_kind x" "owner m y' \<and> th_kind y' \<noteq> th_kind x" "th_kind y = th_kind y'"
    then show "v = v'"
      using ok by (auto simp: manager_ok_def split: if_splits)
  next
    fix kind
    assume act: "task_active (task_of m' kind)"
    then have ne: "kind \<noteq> th_kind x" using ended by auto
    then obtain v y where y: "map_of (threads m) v = Some y" "owner m y" "th_kind y = kind"
      using ok kept [of kind] act by (auto simp: manager_ok_def status_kept_def)
    then show "\<exists>v y. map_of (dset w (x\<lparr>th_actions := rest\<rparr>) (threads m)) v = Some y \<and> (owner m y \<and> th_kind y \<noteq> th_kind x) \<and> th_kind y = kind"
      using x ne by (intro exI [of _ v] exI [of _ y]) auto
  qed
qed

section \<open>Steps\<close>

lemma begin_status: "begin_task now kind i text m = (True, m') \<Longrightarrow>
    \<not> task_active (task_of m kind) \<and> threads m' = threads m \<and> task_active (task_of m' kind)
    \<and> dget (task_of m' kind) ''taskId'' = JStr i \<and> (\<forall>k. k \<noteq> kind \<longrightarrow> task_of m' k = task_of m k)"
  by (auto simp: begin_task_def task_active_def split: if_splits)

lemma start_ok:
  assumes ok: "manager_ok m" and fresh: "map_of (threads m) w = None" and acts: "ends_task actions"
  shows "manager_ok (start_thread now w kind i text actions m)"
proof (cases "task_active (task_of m kind)")
  case True
  then show ?thesis using ok by (simp add: start_thread_def begin_task_def)
next
  case False
  obtain m' where b: "begin_task now kind i text m = (True, m')"
    using False by (simp add: begin_task_def)
  note st = begin_status [OF b]
  let ?x = "\<lparr>th_kind = kind, th_task = i, th_actions = actions\<rparr>"
  let ?m = "m'\<lparr>threads := dset w ?x (threads m')\<rparr>"
  have same: "owner ?m y = (if th_kind y = kind then ends_task (th_actions y) \<and> th_task y = i else owner m y)" for y
    using st by (auto simp: owner_def)
  have lines: "list_all is_line (th_actions y)" if "map_of (threads m) v = Some y" "th_kind y = kind" for v y
    using ok that False by (auto simp: manager_ok_def owner_def)
  have "manager_ok ?m"
    unfolding manager_ok_def same
  proof (intro conjI allI impI)
    fix v y
    assume "map_of (threads ?m) v = Some y"
    then show "(if th_kind y = kind then ends_task (th_actions y) \<and> th_task y = i else owner m y) \<or> list_all is_line (th_actions y)"
      using ok st acts lines by (auto simp: manager_ok_def split: if_splits)
  next
    fix v y v' y'
    assume a: "map_of (threads ?m) v = Some y" "map_of (threads ?m) v' = Some y'" "th_kind y = th_kind y'"
      "if th_kind y = kind then ends_task (th_actions y) \<and> th_task y = i else owner m y"
      "if th_kind y' = kind then ends_task (th_actions y') \<and> th_task y' = i else owner m y'"
    show "v = v'"
    proof (cases "th_kind y = kind")
      case True
      then show ?thesis using a st lines ends_not_lines by (auto split: if_splits)
    next
      case False
      then have "map_of (threads m) v = Some y" "map_of (threads m) v' = Some y'" "owner m y" "owner m y'"
        using a st by (auto split: if_splits)
      then show ?thesis using ok a(3) unfolding manager_ok_def by blast
    qed
  next
    fix k
    assume act: "task_active (task_of ?m k)"
    show "\<exists>v y. map_of (threads ?m) v = Some y \<and> (if th_kind y = kind then ends_task (th_actions y) \<and> th_task y = i else owner m y) \<and> th_kind y = k"
    proof (cases "k = kind")
      case True
      then show ?thesis using st acts by (intro exI [of _ w] exI [of _ ?x]) simp
    next
      case ne: False
      then obtain v y where y: "map_of (threads m) v = Some y" "owner m y" "th_kind y = k"
        using ok act st by (auto simp: manager_ok_def)
      then show ?thesis using ne fresh st by (intro exI [of _ v] exI [of _ y]) auto
    qed
  qed
  then show ?thesis using b by (simp add: start_thread_def)
qed

lemma step_ok:
  assumes ok: "manager_ok m"
  shows "manager_ok (task_step now w m)"
proof (cases "map_of (threads m) w")
  case None
  then show ?thesis using ok by (simp add: task_step_def)
next
  case (Some x)
  show ?thesis
  proof (cases "th_actions x")
    case Nil
    then show ?thesis using ok Some by (simp add: task_step_def)
  next
    case (Cons act rest)
    have cases_x: "owner m x \<or> list_all is_line (act # rest)" using ok Some Cons unfolding manager_ok_def by metis
    let ?m = "m\<lparr>threads := dset w (x\<lparr>th_actions := rest\<rparr>) (threads m)\<rparr>"
    show ?thesis
    proof (cases act)
      case (Line s)
      have "manager_ok (append_log now (th_kind x) s ?m)"
        by (rule keep_ok [OF ok Some, of _ rest]) (use cases_x Cons Line in \<open>auto simp: status_kept_def owner_def\<close>)
      then show ?thesis using Some Cons Line by (simp add: task_step_def Let_def)
    next
      case Check
      then have own: "owner m x" "ends_task rest" using cases_x Cons by (auto simp: owner_def)
      have "manager_ok ?m"
        by (rule keep_ok [OF ok Some, of _ rest]) (use own in \<open>auto simp: status_kept_def\<close>)
      then show ?thesis using Some Cons Check own by (simp add: task_step_def Let_def owner_def)
    next
      case (Change answered c)
      then have own: "owner m x" and c: "is_quiet c" "if is_final c then list_all is_line rest else keeps_active c \<and> ends_task rest"
        using cases_x Cons by (auto simp: owner_def)
      let ?m' = "change_task now (th_kind x) (if answered then dset ''lastRouterResponseAt'' (JInt now) c else c) ?m"
      have act: "task_active (task_of ?m (th_kind x))" using own by (simp add: owner_def)
      have "manager_ok ?m'"
      proof (cases "is_final c")
        case True
        have "\<not> task_active (task_of ?m' (th_kind x))" by (rule change_final [OF c(1) True])
        then show ?thesis
          by (intro end_ok [OF ok Some own, of _ rest]) (use c True in \<open>auto simp: status_kept_def\<close>)
      next
        case False
        then have ka: "keeps_active c" "ends_task rest" using c by auto
        have "status_kept m ?m' kind" for kind
          using change_status [OF c(1) ka(1) act] by (cases "kind = th_kind x") (auto simp: status_kept_def)
        then show ?thesis by (intro keep_ok [OF ok Some, of _ rest]) (use own ka in auto)
      qed
      then show ?thesis using Some Cons Change by (simp add: task_step_def Let_def)
    qed
  qed
qed

lemma restored_inactive: "\<not> task_active (restore_task kind v)"
  by (auto simp: restore_task_def task_active_def Let_def TERMINAL_def dget_dmerge_ok)

lemma restored_tasks_inactive: "(kind, t) \<in> set (restore_tasks root kinds) \<Longrightarrow> \<not> task_active t"
proof (induction root kinds rule: restore_tasks.induct)
  case (2 root k kinds)
  have "\<not> task_active (new_task k')" for k' by (simp add: task_active_def new_task_def)
  with 2 show ?case by (auto simp: restored_inactive split: json.splits if_splits)
qed simp

lemma load_ok: "manager_ok (load_tasks f)"
proof -
  have "\<not> task_active (task_of (load_tasks f) kind)" for kind
    using restored_tasks_inactive [OF map_of_SomeD] unfolding load_tasks_def task_of_def
    by (auto simp: task_active_def split: option.splits)
  then show ?thesis by (simp add: manager_ok_def) (simp add: load_tasks_def)
qed

lemma run_ok: "task_run m es = Some m' \<Longrightarrow> manager_ok m \<Longrightarrow> manager_ok m'"
proof (induction m es rule: task_run.induct)
  case (2 m e es)
  then have fresh: "event_fresh m e" and run: "task_run (task_do m e) es = Some m'" by (auto split: if_splits)
  have "manager_ok (task_do m e)"
    using fresh 2(3)
    by (cases e) (auto simp: start_nat_def start_diagnostic_def start_beta_def split: sum.splits
      intro!: start_ok step_ok run_nat_ends run_diagnostic_ends run_beta_ends)
  then show ?case using 2(1) fresh run by blast
qed simp

section \<open>Finished tasks and ending tasks\<close>

lemma finished_stable:
  assumes ok: "manager_ok m" and idle: "\<not> task_active (task_of m kind)" and k: "k \<notin> {''log'', ''updatedAt''}"
  shows "dget (task_of (task_step now w m) kind) k = dget (task_of m kind) k"
proof (cases "map_of (threads m) w")
  case None
  then show ?thesis by (simp add: task_step_def)
next
  case (Some x)
  show ?thesis
  proof (cases "th_kind x = kind")
    case True
    then have lines: "list_all is_line (th_actions x)" using ok Some idle unfolding manager_ok_def owner_def by metis
    show ?thesis
    proof (cases "th_actions x")
      case (Cons act rest)
      then obtain s where "act = Line s" using lines by (cases act) auto
      then show ?thesis using Some Cons True k by (auto simp: task_step_def Let_def append_log_def)
    qed (use Some in \<open>simp add: task_step_def\<close>)
  next
    case False
    then show ?thesis
      using Some by (auto simp: task_step_def Let_def append_log_def split: list.splits task_action.splits)
  qed
qed

lemma owner_ends:
  "manager_ok m \<Longrightarrow> map_of (threads m) w = Some x \<Longrightarrow> owner m x \<Longrightarrow> n = length (th_actions x) \<Longrightarrow>
     \<exists>j \<le> n. let m' = (task_step now w ^^ j) m in
       list_ex (\<lambda>v. dget (task_of m' (th_kind x)) ''state'' = JStr v) TERMINAL
       \<and> dget (task_of m' (th_kind x)) ''taskId'' = JStr (th_task x)"
proof (induction n arbitrary: m x)
  case 0
  then show ?case by (auto simp: owner_def)
next
  case (Suc n)
  then obtain act rest where acts: "th_actions x = act # rest" "length rest = n" by (cases "th_actions x") auto
  let ?m = "task_step now w m"
  have ok: "manager_ok ?m" using Suc.prems(1) by (rule step_ok)
  have id: "dget (task_of m (th_kind x)) ''taskId'' = JStr (th_task x)" "task_active (task_of m (th_kind x))" "ends_task (act # rest)"
    using Suc.prems(3) acts by (auto simp: owner_def)
  show ?case
  proof (cases "\<exists>answered c. act = Change answered c \<and> is_final c")
    case True
    then obtain answered c where c: "act = Change answered c" "is_final c" "is_quiet c" using id(3) by auto
    obtain v where v: "v \<in> set TERMINAL" "dget c ''state'' = JStr v" using c(2) by (auto simp: is_final_def list_ex_iff)
    have maps: "map_of c ''state'' = Some (JStr v)" "map_of c ''taskId'' = None"
      using v c(3) by (auto simp: dget_def dget_or_def is_quiet_def map_of_eq_None_iff split: option.splits)
    have m': "?m = change_task now (th_kind x) (if answered then dset ''lastRouterResponseAt'' (JInt now) c else c)
        (m\<lparr>threads := dset w (x\<lparr>th_actions := rest\<rparr>) (threads m)\<rparr>)"
      using Suc.prems(2) acts c by (simp add: task_step_def Let_def)
    have dict: "dict_ok c" using c(3) by (simp add: is_quiet_def)
    note changed_task = dget_change_task [OF dict]
    have "dget (task_of ?m (th_kind x)) ''state'' = JStr v"
      unfolding m' by (subst changed_task) (simp_all add: maps)
    moreover have "dget (task_of ?m (th_kind x)) ''taskId'' = JStr (th_task x)"
      unfolding m' by (subst changed_task) (use maps id(1) in simp_all)
    ultimately show ?thesis using v(1) by (intro exI [of _ 1]) (auto simp: Let_def list_ex_iff)
  next
    case False
    let ?x = "x\<lparr>th_actions := rest\<rparr>"
    have "map_of (threads ?m) w = Some ?x \<and> owner ?m ?x"
    proof (cases act)
      case (Line s)
      then show ?thesis using Suc.prems(2) acts id by (simp add: task_step_def Let_def owner_def)
    next
      case Check
      then show ?thesis using Suc.prems(2) acts id by (simp add: task_step_def Let_def owner_def)
    next
      case (Change answered c)
      then have c: "is_quiet c" "keeps_active c" "ends_task rest" using False id(3) by auto
      have "status_kept m ?m (th_kind x)"
        using change_status [OF c(1,2), of "m\<lparr>threads := dset w ?x (threads m)\<rparr>" "th_kind x" now answered] id(2)
          Suc.prems(2) acts Change by (simp add: task_step_def Let_def status_kept_def)
      then show ?thesis using Suc.prems(2) acts id c Change by (simp add: task_step_def Let_def owner_def status_kept_def)
    qed
    then obtain j where "j \<le> n" "let m' = (task_step now w ^^ j) ?m in
       list_ex (\<lambda>v. dget (task_of m' (th_kind x)) ''state'' = JStr v) TERMINAL
       \<and> dget (task_of m' (th_kind x)) ''taskId'' = JStr (th_task x)"
      using Suc.IH [OF ok, of ?x] acts(2) by auto
    then show ?thesis by (intro exI [of _ "Suc j"]) (simp add: funpow_swap1 Let_def)
  qed
qed

section \<open>Properties\<close>

text \<open>C24: at every moment of every interleaving a task is active exactly if one thread owns it, and that
  thread is the only one; a task that is not active keeps its state, message and result through every step
  of every thread, only its log and the time of its last change may still move.\<close>

theorem task_single_owner:
  assumes "task_run (load_tasks f) es = Some m"
  shows "task_active (task_of m kind) = (\<exists>!w. \<exists>x. map_of (threads m) w = Some x \<and> th_kind x = kind \<and> owner m x)
    \<and> (task_active (task_of m kind) \<or> k \<in> {''log'', ''updatedAt''}
        \<or> dget (task_of (task_step now w m) kind) k = dget (task_of m kind) k)"
proof -
  have ok: "manager_ok m" using run_ok [OF assms load_ok] .
  have "task_active (task_of m kind) = (\<exists>!w. \<exists>x. map_of (threads m) w = Some x \<and> th_kind x = kind \<and> owner m x)"
  proof
    assume "task_active (task_of m kind)"
    then obtain w x where x: "map_of (threads m) w = Some x" "owner m x" "th_kind x = kind"
      using ok unfolding manager_ok_def by blast
    show "\<exists>!w. \<exists>x. map_of (threads m) w = Some x \<and> th_kind x = kind \<and> owner m x"
    proof (rule ex1I [of _ w])
      fix w' assume "\<exists>x. map_of (threads m) w' = Some x \<and> th_kind x = kind \<and> owner m x"
      then obtain x' where "map_of (threads m) w' = Some x'" "owner m x'" "th_kind x' = th_kind x" using x(3) by auto
      then show "w' = w" using ok x unfolding manager_ok_def by metis
    qed (use x in blast)
  qed (auto simp: owner_def)
  then show ?thesis using finished_stable [OF ok] by blast
qed

definition sample_file :: json where
  "sample_file = JObj [(''beta'', JObj [(''state'', JStr ''running''), (''taskId'', JStr ''beta-1'')])]"

definition sample_starts :: "task_event list" where
  "sample_starts = [StartNat 1000 0 ''nat-1'' [] (Inr (JObj [])) [Inl ''slow'', Inr (JObj [(''mapping'', JStr ''EIM''), (''filtering'', JStr ''APDF'')]), Inl []],
     StartDiagnostic 1000 1 ''diag-1'' (Inl ''offline'') [], Step 1001 0, StartNat 1001 2 ''nat-2'' [] (Inr JNull) [], Step 1002 1, Step 1002 0]"

definition sample_manager :: task_manager where
  "sample_manager = the (task_run (load_tasks (Some sample_file)) sample_starts)"

lemma sample_manager_run: "task_run (load_tasks (Some sample_file)) sample_starts = Some sample_manager"
  by code_simp

theorem task_single_owner_witness:
  "\<exists>!w. \<exists>x. map_of (threads sample_manager) w = Some x \<and> th_kind x = ''nat'' \<and> owner sample_manager x"
proof -
  have "task_active (task_of sample_manager ''nat'')" by code_simp
  then show ?thesis using task_single_owner [OF sample_manager_run, of "''nat''"] by blast
qed

text \<open>C25: every active task ends: the steps of the thread that owns it, at most as many as it has left, bring
  the task with its identifier into a terminal state, whatever the router answers or fails to answer.\<close>

theorem active_task_ends:
  assumes "task_run (load_tasks f) es = Some m" and "task_active (task_of m kind)"
  shows "\<exists>w x j. map_of (threads m) w = Some x \<and> th_kind x = kind \<and> j \<le> length (th_actions x)
    \<and> list_ex (\<lambda>v. dget (task_of ((task_step now w ^^ j) m) kind) ''state'' = JStr v) TERMINAL
    \<and> dget (task_of ((task_step now w ^^ j) m) kind) ''taskId'' = dget (task_of m kind) ''taskId''"
proof -
  have ok: "manager_ok m" using run_ok [OF assms(1) load_ok] .
  then obtain w x where x: "map_of (threads m) w = Some x" "owner m x" "th_kind x = kind"
    using assms(2) unfolding manager_ok_def by blast
  then have "dget (task_of m kind) ''taskId'' = JStr (th_task x)" by (auto simp: owner_def)
  then show ?thesis using owner_ends [OF ok x(1,2) refl, of now] x unfolding Let_def by metis
qed

theorem active_task_ends_witness:
  "\<exists>w x j. map_of (threads sample_manager) w = Some x \<and> th_kind x = ''nat'' \<and> j \<le> length (th_actions x)
    \<and> list_ex (\<lambda>v. dget (task_of ((task_step 1003 w ^^ j) sample_manager) ''nat'') ''state'' = JStr v) TERMINAL
    \<and> dget (task_of ((task_step 1003 w ^^ j) sample_manager) ''nat'') ''taskId'' = dget (task_of sample_manager ''nat'') ''taskId''"
  by (rule active_task_ends [OF sample_manager_run]) code_simp

text \<open>The last line of a NAT task that timed out can land in the log of the next one: the task is already
  terminal when the line is written, so a new one may have been started.\<close>

theorem late_line_in_next_task:
  "(case task_run (load_tasks None) [StartNat 1000 0 ''nat-1'' [] (Inr JNull) [], Step 1001 0, Step 1002 0, Step 1003 0, Step 1004 0, Step 1600 0,
        StartNat 1601 1 ''nat-2'' [] (Inr JNull) [], Step 1601 0] of
      None \<Rightarrow> False
    | Some m \<Rightarrow> dget (task_of m ''nat'') ''taskId'' = JStr ''nat-2''
        \<and> dget (task_of m ''nat'') ''log'' = JList [JStr ''waited for the time limit, task ends''])"
  by code_simp

end
