(* ===== verification/AgentUpdate.thy ===== *)
theory AgentUpdate
  imports HubCore
begin

text \<open>
  Updates and clean-ups of the router agent (\<open>src/hub.py\<close>, from \<open>version_parts\<close> to
  \<open>api_router_agent_status\<close>): the cached release manifest with its sources, the queue of agent commands
  and the status reports. The HTTP request for a manifest is an argument that gives the parsed body or the
  text of the exception. Messages are ASCII glosses.
\<close>

section \<open>Versions\<close>

text \<open>The runs of digits of a text, at most four; tuples are compared as Python does.\<close>

definition digit_runs :: "string \<Rightarrow> string list" where
  "digit_runs s = filter (\<lambda>r. r \<noteq> []) (split_by (\<lambda>c. \<not> is_dec c) s)"

definition version_parts :: "json \<Rightarrow> nat list" where
  "version_parts v = (let parts = take 4 (map dec_value (digit_runs (py_str (por v (JStr []))))) in
     if parts = [] then [0] else parts)"

fun tuple_less :: "nat list \<Rightarrow> nat list \<Rightarrow> bool" where
  "tuple_less xs [] = False"
| "tuple_less [] (y # ys) = True"
| "tuple_less (x # xs) (y # ys) = (x < y \<or> x = y \<and> tuple_less xs ys)"

definition tuple_le :: "nat list \<Rightarrow> nat list \<Rightarrow> bool" where
  "tuple_le xs ys = (xs = ys \<or> tuple_less xs ys)"

section \<open>The release manifest\<close>

record release_config =
  rl_root :: string
  rl_manifest_url :: string
  rl_github_url :: string
  rl_installer_url :: string

text \<open>\<open>AGENT_RELEASE_CACHE\<close>.\<close>

record release_cache =
  rc_at :: int
  rc_data :: "row option"

type_synonym fetch = "string \<Rightarrow> string + json"

definition manifest_version :: "row \<Rightarrow> string" where
  "manifest_version m = clean_saved_value (por (dget m ''versionName'') (dget m ''version''))"

definition arm64_of :: "row \<Rightarrow> row option" where
  "arm64_of m = (case dget m ''binaries'' of JObj b \<Rightarrow> (case dget b ''arm64'' of JObj a \<Rightarrow> Some a | _ \<Rightarrow> None) | _ \<Rightarrow> None)"

definition normalized_manifest :: "release_config \<Rightarrow> json \<Rightarrow> string \<Rightarrow> string + row" where
  "normalized_manifest cfg root source_url =
    (case root of
       JObj m \<Rightarrow>
         (case (if manifest_version m = [] then None else arm64_of m) of
            None \<Rightarrow> Inl ''agent latest.json is invalid''
          | Some arm64 \<Rightarrow>
              let installer = text_or (clean_saved_value (dget m ''installUrl'')) (rl_installer_url cfg);
                  asset = text_or (clean_saved_value (dget arm64 ''url'')) installer;
                  repository = (if contains asset ''/releases/download/'' then fst (rsplit1 (CHR ''/'') asset) else rl_root cfg) in
              Inr (dset ''_stale'' (JBool False) (dset ''_repositoryRoot'' (JStr repository)
                (dset ''_installerUrl'' (JStr installer) (dset ''_manifestUrl'' (JStr source_url) m)))))
     | _ \<Rightarrow> Inl ''agent latest.json is invalid'')"

definition manifest_sources :: "release_config \<Rightarrow> string list" where
  "manifest_sources cfg = uniq (filter (\<lambda>u. u \<noteq> []) [rl_manifest_url cfg, rl_github_url cfg])"

text \<open>The first source that gives a valid manifest, or the errors of all.\<close>

fun first_manifest :: "release_config \<Rightarrow> fetch \<Rightarrow> string list \<Rightarrow> string list + row" where
  "first_manifest cfg fetch [] = Inl []"
| "first_manifest cfg fetch (u # us) =
     (case (case fetch u of Inl e \<Rightarrow> Inl e | Inr v \<Rightarrow> normalized_manifest cfg v u) of
        Inr m \<Rightarrow> Inr m
      | Inl e \<Rightarrow> (case first_manifest cfg fetch us of Inl es \<Rightarrow> Inl ((u @ '': '' @ e) # es) | Inr m \<Rightarrow> Inr m))"

definition RELEASE_TTL :: int where "RELEASE_TTL = 600"

definition agent_release_manifest :: "release_config \<Rightarrow> int \<Rightarrow> bool \<Rightarrow> fetch \<Rightarrow> release_cache \<Rightarrow> (string + row) \<times> release_cache" where
  "agent_release_manifest cfg now force fetch c =
    (case (if force \<or> \<not> now - rc_at c < RELEASE_TTL then None else rc_data c) of
       Some m \<Rightarrow> (Inr m, c)
     | None \<Rightarrow>
         (case first_manifest cfg fetch (manifest_sources cfg) of
            Inr m \<Rightarrow> (Inr m, \<lparr>rc_at = now, rc_data = Some m\<rparr>)
          | Inl es \<Rightarrow> (case rc_data c of
              Some old \<Rightarrow> (let stale = dset ''_stale'' (JBool True) old in (Inr stale, \<lparr>rc_at = now, rc_data = Some stale\<rparr>))
            | None \<Rightarrow> (Inl (''agent manifest sources unavailable: '' @ join '' | '' es), c))))"

section \<open>Agents and commands\<close>

definition time_to_epoch :: "env \<Rightarrow> json \<Rightarrow> int" where
  "time_to_epoch e v = (if \<not> truthy v then 0 else
     case env_local_epoch e (take 19 (strip (py_str v))) of None \<Rightarrow> 0 | Some t \<Rightarrow> t)"

definition agent_statuses :: "docs \<Rightarrow> json" where
  "agent_statuses d = load_json d ''agent_status.json'' (JObj [])"

definition agent_status_for :: "string \<Rightarrow> docs \<Rightarrow> row" where
  "agent_status_for router d = items (dget (items (agent_statuses d)) router)"

definition last_seen :: "env \<Rightarrow> row \<Rightarrow> int" where
  "last_seen e s = time_to_epoch e (por (por (dget s ''lastSeenAt'') (dget s ''time'')) (JInt 0))"

text \<open>The agents that reported, the latest first.\<close>

definition reported_agents :: "docs \<Rightarrow> (string \<times> row) list" where
  "reported_agents d = map (\<lambda>(k, v). (clean_saved_value (JStr k), items v))
     (filter (\<lambda>(k, v). clean_saved_value (JStr k) \<noteq> [] \<and> is_dict v) (items (agent_statuses d)))"

definition resolve_agent_router :: "env \<Rightarrow> string \<Rightarrow> docs \<Rightarrow> string" where
  "resolve_agent_router e preferred0 d =
    (if \<not> is_dict (agent_statuses d) then preferred0
     else let preferred = clean_saved_value (JStr preferred0) in
       if preferred \<noteq> [] \<and> is_dict (dget (items (agent_statuses d)) preferred) then preferred
       else case sort_key (\<lambda>a. - last_seen e (snd a)) (reported_agents d) of
         [] \<Rightarrow> preferred | a # _ \<Rightarrow> fst a)"

abbreviation UPDATES :: string where "UPDATES \<equiv> ''agent_update_commands.json''"

definition agent_commands :: "docs \<Rightarrow> json list" where
  "agent_commands d = elems (dget (items (load_json d UPDATES (JObj [(''commands'', JList [])]))) ''commands'')"

definition save_agent_commands :: "json list \<Rightarrow> docs \<Rightarrow> docs" where
  "save_agent_commands rows = (\<lambda>d. save_json d UPDATES (JObj [(''commands'', JList rows)]))"

definition latest_where :: "(row \<Rightarrow> bool) \<Rightarrow> docs \<Rightarrow> row" where
  "latest_where P d = (case List.find (\<lambda>v. is_dict v \<and> P (items v)) (rev (agent_commands d)) of None \<Rightarrow> [] | Some v \<Rightarrow> items v)"

definition latest_agent_command :: "string \<Rightarrow> string \<Rightarrow> docs \<Rightarrow> row" where
  "latest_agent_command router action = latest_where (\<lambda>r. dget r ''router'' = JStr router
     \<and> (action = [] \<or> dget r ''action'' = JStr action))"

definition agent_command_by_id :: "string \<Rightarrow> string \<Rightarrow> string \<Rightarrow> docs \<Rightarrow> row" where
  "agent_command_by_id command_id router action = latest_where (\<lambda>r. dget r ''id'' = JStr command_id
     \<and> (router = [] \<or> dget r ''router'' = JStr router) \<and> (action = [] \<or> dget r ''action'' = JStr action))"

definition append_command :: "row \<Rightarrow> docs \<Rightarrow> docs" where
  "append_command c d = save_agent_commands (take_last 100 (agent_commands d @ [JObj c])) d"

section \<open>Requests of the app\<close>

record agent_state =
  ag_docs :: docs
  ag_cache :: release_cache

type_synonym agent_reply = "int \<times> row"

definition bad_request_token :: agent_reply where
  "bad_request_token = (401, [(''ok'', JBool False), (''error'', JStr ''unauthorized'')])"

definition bad_agent_token :: agent_reply where
  "bad_agent_token = (401, [(''ok'', JBool False), (''error'', JStr ''bad agent token'')])"

definition with_docs :: "(docs \<Rightarrow> docs) \<Rightarrow> agent_state \<Rightarrow> agent_state" where
  "with_docs f s = s\<lparr>ag_docs := f (ag_docs s)\<rparr>"

text \<open>The router of a request: the one named, or the primary one, replaced by a router that has reported.\<close>

definition target_router :: "env \<Rightarrow> json \<Rightarrow> docs \<Rightarrow> string" where
  "target_router e named d =
     text_or (resolve_agent_router e (text_or (clean_saved_value named) (env_router e)) d) ''router''"

definition agent_state_word :: "row \<Rightarrow> row \<Rightarrow> json" where
  "agent_state_word command status = por (por (dget command ''state'') (dget status ''updateState'')) (JStr ''idle'')"

definition UNKNOWN_VERSION :: string where "UNKNOWN_VERSION = ''(unknown)''"

definition status_reply :: "release_config \<Rightarrow> string \<Rightarrow> row \<Rightarrow> row \<Rightarrow> string + row \<Rightarrow> row" where
  "status_reply cfg router status command found = (case found of
     Inr m \<Rightarrow>
       (let latest = manifest_version m;
            current = text_or (clean_saved_value (dget status ''version'')) UNKNOWN_VERSION;
            available = (current \<noteq> UNKNOWN_VERSION \<and> tuple_less (version_parts (JStr current)) (version_parts (JStr latest))) in
        [(''ok'', JBool True), (''router'', JStr router), (''currentVersion'', JStr current), (''latestVersion'', JStr latest),
         (''updateAvailable'', JBool available), (''state'', agent_state_word command status),
         (''message'', JStr (text_or (clean_saved_value (dget m ''changelog''))
            (if available then ''new version found'' else ''already the latest version''))),
         (''lastSeenAt'', dget_or status ''lastSeenAt'' (JStr [])),
         (''manifestUrl'', por (dget m ''_manifestUrl'') (JStr (rl_manifest_url cfg))),
         (''installerUrl'', por (dget m ''_installerUrl'') (JStr (rl_installer_url cfg))),
         (''manifestStale'', JBool (truthy (dget m ''_stale'')))])
   | Inl err \<Rightarrow>
       [(''ok'', JBool False), (''router'', JStr router), (''currentVersion'', dget_or status ''version'' (JStr UNKNOWN_VERSION)),
        (''latestVersion'', JStr UNKNOWN_VERSION), (''updateAvailable'', JBool False), (''state'', agent_state_word command status),
        (''message'', JStr (''update check failed: '' @ err)), (''lastSeenAt'', dget_or status ''lastSeenAt'' (JStr []))])"

definition agent_update_status :: "release_config \<Rightarrow> env \<Rightarrow> fetch \<Rightarrow> bool \<Rightarrow> json \<Rightarrow> bool \<Rightarrow> agent_state \<Rightarrow> agent_reply \<times> agent_state" where
  "agent_update_status cfg e fetch authorized named refresh s =
    (if \<not> authorized then (bad_request_token, s)
     else let router = target_router e named (ag_docs s) in
       case agent_release_manifest cfg (env_now e) refresh fetch (ag_cache s) of (found, c) \<Rightarrow>
         ((200, status_reply cfg router (agent_status_for router (ag_docs s))
            (latest_agent_command router ''update'' (ag_docs s)) found), s\<lparr>ag_cache := c\<rparr>))"

definition new_update_command :: "release_config \<Rightarrow> env \<Rightarrow> string \<Rightarrow> row \<Rightarrow> row" where
  "new_update_command cfg e router m =
     [(''id'', JStr (env_fresh e 0)), (''router'', JStr router), (''action'', JStr ''update''), (''state'', JStr ''pending''),
      (''targetVersion'', JStr (manifest_version m)), (''repositoryRoot'', por (dget m ''_repositoryRoot'') (JStr (rl_root cfg))),
      (''manifestUrl'', por (dget m ''_manifestUrl'') (JStr (rl_manifest_url cfg))),
      (''installerUrl'', por (dget m ''_installerUrl'') (JStr (rl_installer_url cfg))),
      (''createdAt'', JStr (env_now_str e)), (''updatedAt'', JStr (env_now_str e)),
      (''message'', JStr ''waiting for the router to take the command'')]"

definition manifest_unavailable :: "string \<Rightarrow> agent_reply" where
  "manifest_unavailable err = (502, [(''ok'', JBool False), (''error'', JStr ''manifest_unavailable''),
     (''message'', JStr (''update check failed: '' @ err))])"

definition agent_update_request :: "release_config \<Rightarrow> env \<Rightarrow> fetch \<Rightarrow> bool \<Rightarrow> row \<Rightarrow> agent_state \<Rightarrow> agent_reply \<times> agent_state" where
  "agent_update_request cfg e fetch authorized payload s =
    (if \<not> authorized then (bad_request_token, s)
     else let router = target_router e (dget payload ''router'') (ag_docs s) in
       case agent_release_manifest cfg (env_now e) True fetch (ag_cache s) of
         (Inl err, c) \<Rightarrow> (manifest_unavailable err, s\<lparr>ag_cache := c\<rparr>)
       | (Inr m, c) \<Rightarrow>
           ((200, [(''ok'', JBool True), (''commandId'', JStr (env_fresh e 0)), (''targetVersion'', JStr (manifest_version m)),
              (''message'', JStr ''update command sent'')]),
            with_docs (append_command (new_update_command cfg e router m)) (s\<lparr>ag_cache := c\<rparr>)))"

definition agent_update_check :: "release_config \<Rightarrow> env \<Rightarrow> fetch \<Rightarrow> bool \<Rightarrow> json \<Rightarrow> bool \<Rightarrow> agent_state \<Rightarrow> agent_reply \<times> agent_state" where
  "agent_update_check cfg e fetch authorized named refresh s =
    (if \<not> authorized then (bad_request_token, s)
     else case agent_release_manifest cfg (env_now e) True fetch (ag_cache s) of
         (Inl err, c) \<Rightarrow> (manifest_unavailable err, s\<lparr>ag_cache := c\<rparr>)
       | (Inr m, c) \<Rightarrow> agent_update_status cfg e fetch authorized named refresh (s\<lparr>ag_cache := c\<rparr>))"

definition new_cleanup_command :: "env \<Rightarrow> string \<Rightarrow> row" where
  "new_cleanup_command e router =
     [(''id'', JStr (env_fresh e 0)), (''router'', JStr router), (''action'', JStr ''cleanup''), (''state'', JStr ''pending''),
      (''createdAt'', JStr (env_now_str e)), (''updatedAt'', JStr (env_now_str e)),
      (''message'', JStr ''waiting for the router to clean up''), (''result'', JObj [])]"

definition agent_cleanup_request :: "env \<Rightarrow> bool \<Rightarrow> row \<Rightarrow> agent_state \<Rightarrow> agent_reply \<times> agent_state" where
  "agent_cleanup_request e authorized payload s =
    (if \<not> authorized then (bad_request_token, s)
     else let router = target_router e (dget payload ''router'') (ag_docs s) in
       ((200, [(''ok'', JBool True), (''commandId'', JStr (env_fresh e 0)), (''router'', JStr router), (''state'', JStr ''pending''),
          (''message'', JStr ''clean-up command sent'')]),
        with_docs (append_command (new_cleanup_command e router)) s))"

definition agent_cleanup_status :: "env \<Rightarrow> bool \<Rightarrow> json \<Rightarrow> json \<Rightarrow> agent_state \<Rightarrow> agent_reply" where
  "agent_cleanup_status e authorized named wanted s =
    (if \<not> authorized then bad_request_token
     else let router = target_router e named (ag_docs s);
              i = clean_saved_value wanted;
              c = (if i \<noteq> [] then agent_command_by_id i router ''cleanup'' (ag_docs s)
                   else latest_agent_command router ''cleanup'' (ag_docs s));
              r = sub_dict c ''result'' in
       if c = [] then (404, [(''ok'', JBool False), (''state'', JStr ''missing''), (''message'', JStr ''no clean-up task found'')])
       else (200, [(''ok'', JBool True), (''commandId'', dget_or c ''id'' (JStr [])), (''router'', JStr router),
         (''state'', dget_or c ''state'' (JStr ''pending'')), (''message'', dget_or c ''message'' (JStr [])),
         (''cleanedItems'', dget_or r ''cleanedItems'' (JList [])), (''reclaimedBytes'', JInt (to_int (dget r ''reclaimedBytes'') 0)),
         (''reclaimedText'', JStr (clean_saved_value (dget r ''reclaimedText''))), (''errors'', dget_or r ''errors'' (JList [])),
         (''createdAt'', dget_or c ''createdAt'' (JStr [])), (''updatedAt'', dget_or c ''updatedAt'' (JStr []))]))"

section \<open>Requests of the agent\<close>

definition agent_router :: "env \<Rightarrow> json \<Rightarrow> string" where
  "agent_router e named = text_or (clean_saved_value named) (env_router e)"

definition pending_for :: "string \<Rightarrow> json \<Rightarrow> bool" where
  "pending_for router v = (is_dict v \<and> dget (items v) ''router'' = JStr router \<and> dget (items v) ''state'' = JStr ''pending'')"

definition router_agent_commands :: "env \<Rightarrow> bool \<Rightarrow> json \<Rightarrow> agent_state \<Rightarrow> agent_reply" where
  "router_agent_commands e authorized named s =
    (if \<not> authorized then bad_agent_token
     else (200, [(''ok'', JBool True), (''commands'', JList (take 5 (filter (pending_for (agent_router e named)) (agent_commands (ag_docs s))))),
       (''time'', JStr (env_now_str e))]))"

text \<open>The first row with the identifier is updated.\<close>

fun close_first :: "string \<Rightarrow> (row \<Rightarrow> row) \<Rightarrow> json list \<Rightarrow> json list \<times> bool" where
  "close_first i f [] = ([], False)"
| "close_first i f (v # vs) =
     (if is_dict v \<and> dget (items v) ''id'' = JStr i then (JObj (f (items v)) # vs, True)
      else case close_first i f vs of (ws, hit) \<Rightarrow> (v # ws, hit))"

definition ack_change :: "env \<Rightarrow> string \<Rightarrow> row \<Rightarrow> row \<Rightarrow> row" where
  "ack_change e word payload r =
    (let r1 = dset ''updatedAt'' (JStr (env_now_str e)) (dset ''message'' (JStr (clean_saved_value (dget payload ''message'')))
           (dset ''state'' (JStr word) r)) in
     case dget payload ''result'' of JObj x \<Rightarrow> dset ''result'' (JObj x) r1 | _ \<Rightarrow> r1)"

definition router_agent_ack :: "env \<Rightarrow> bool \<Rightarrow> row \<Rightarrow> agent_state \<Rightarrow> agent_reply \<times> agent_state" where
  "router_agent_ack e authorized payload s =
    (if \<not> authorized then (bad_agent_token, s)
     else let i = clean_saved_value (dget payload ''id''); word = text_or (clean_saved_value (dget payload ''state'')) ''accepted'' in
       if word \<notin> {''accepted'', ''completed'', ''failed''} then ((400, [(''ok'', JBool False), (''error'', JStr ''invalid state'')]), s)
       else case close_first i (ack_change e word payload) (agent_commands (ag_docs s)) of (rows, hit) \<Rightarrow>
         ((200, [(''ok'', JBool True), (''acknowledged'', JBool hit)]),
          if hit then with_docs (save_agent_commands rows) s else s))"

definition reported_status :: "env \<Rightarrow> string \<Rightarrow> row \<Rightarrow> row" where
  "reported_status e router payload =
     [(''router'', JStr router), (''version'', JStr (text_or (clean_saved_value (dget payload ''version'')) UNKNOWN_VERSION)),
      (''architecture'', JStr (clean_saved_value (dget payload ''architecture''))),
      (''updateState'', JStr (text_or (clean_saved_value (dget payload ''updateState'')) ''idle'')),
      (''message'', JStr (clean_saved_value (dget payload ''message''))), (''lastSeenAt'', JStr (env_now_str e))]"

text \<open>An accepted update of the router is completed when the reported version has reached its target.\<close>

definition update_reached :: "string \<Rightarrow> json \<Rightarrow> json \<Rightarrow> bool" where
  "update_reached router version v = (is_dict v \<and> dget (items v) ''router'' = JStr router \<and> dget (items v) ''action'' = JStr ''update''
     \<and> dget (items v) ''state'' = JStr ''accepted'' \<and> tuple_le (version_parts (dget (items v) ''targetVersion'')) (version_parts version))"

definition complete_update :: "env \<Rightarrow> json \<Rightarrow> row \<Rightarrow> row" where
  "complete_update e version r = dset ''updatedAt'' (JStr (env_now_str e)) (dset ''message'' (JStr (''updated to '' @ py_str version))
     (dset ''state'' (JStr ''completed'') r))"

definition router_agent_status :: "env \<Rightarrow> bool \<Rightarrow> row \<Rightarrow> agent_state \<Rightarrow> agent_reply \<times> agent_state" where
  "router_agent_status e authorized payload s =
    (if \<not> authorized then (bad_agent_token, s)
     else let router = agent_router e (dget payload ''router'');
              status = reported_status e router payload;
              version = dget status ''version'';
              d = save_json (ag_docs s) ''agent_status.json'' (JObj (dset router (JObj status) (items (agent_statuses (ag_docs s)))));
              rows = agent_commands d;
              hit = list_ex (update_reached router version) rows;
              rows' = map (\<lambda>v. if update_reached router version v then JObj (complete_update e version (items v)) else v) rows in
       ((200, [(''ok'', JBool True), (''time'', JStr (env_now_str e))]),
        s\<lparr>ag_docs := if hit then save_agent_commands rows' d else d\<rparr>))"
end
