(* ===== verification/AgentRuns.thy ===== *)
theory AgentRuns
  imports AgentUpdate
begin

text \<open>
  Runs of the agent updates: the order of versions, the age of the manifest that is served, and the queue
  of agent commands under any sequence of requests.
\<close>

section \<open>Versions are ordered\<close>

lemma tuple_less_irrefl: "\<not> tuple_less xs xs"
  by (induction xs) auto

lemma tuple_less_trans: "tuple_less xs ys \<Longrightarrow> tuple_less ys zs \<Longrightarrow> tuple_less xs zs"
proof (induction xs ys arbitrary: zs rule: tuple_less.induct)
  case (2 y ys)
  then show ?case by (cases zs) auto
next
  case (3 x xs y ys)
  then show ?case by (cases zs) auto
qed simp

lemma tuple_less_total: "xs = ys \<or> tuple_less xs ys \<or> tuple_less ys xs"
proof (induction xs ys rule: tuple_less.induct)
  case (1 xs)
  show ?case by (cases xs) auto
qed auto

interpretation versions: linorder tuple_le tuple_less
proof
  show "tuple_less x y = (tuple_le x y \<and> \<not> tuple_le y x)" for x y
    using tuple_less_irrefl tuple_less_trans unfolding tuple_le_def by blast
  show "tuple_le x x" for x by (simp add: tuple_le_def)
  show "tuple_le x z" if "tuple_le x y" "tuple_le y z" for x y z
    using that tuple_less_trans unfolding tuple_le_def by blast
  show "x = y" if "tuple_le x y" "tuple_le y x" for x y
    using that tuple_less_irrefl tuple_less_trans unfolding tuple_le_def by blast
  show "tuple_le x y \<or> tuple_le y x" for x y
    using tuple_less_total unfolding tuple_le_def by blast
qed

section \<open>The manifest that is served\<close>

text \<open>A call with its time, whether it insists on a new request, and what the sources answer.\<close>

type_synonym manifest_call = "int \<times> bool \<times> fetch"

definition manifest_cache :: "release_config \<Rightarrow> manifest_call list \<Rightarrow> release_cache" where
  "manifest_cache cfg cs = fold (\<lambda>(now, force, fetch) c. snd (agent_release_manifest cfg now force fetch c)) cs \<lparr>rc_at = 0, rc_data = None\<rparr>"

definition stale_of :: "row \<Rightarrow> row" where
  "stale_of m = dset ''_stale'' (JBool True) m"

text \<open>The attempts to renew the manifest: when the sources were asked, and the manifest that they gave or their errors.\<close>

definition asks :: "int \<Rightarrow> bool \<Rightarrow> release_cache \<Rightarrow> bool" where
  "asks now force c = (force \<or> \<not> now - rc_at c < RELEASE_TTL \<or> rc_data c = None)"

type_synonym attempt = "int \<times> (string list + row)"

fun attempts :: "release_config \<Rightarrow> manifest_call list \<Rightarrow> release_cache \<Rightarrow> attempt list" where
  "attempts cfg [] c = []"
| "attempts cfg ((now, force, fetch) # cs) c =
     (if asks now force c then [(now, first_manifest cfg fetch (manifest_sources cfg))] else [])
     @ attempts cfg cs (snd (agent_release_manifest cfg now force fetch c))"

definition failed_attempt :: "attempt \<Rightarrow> bool" where
  "failed_attempt a = isl (snd a)"

text \<open>The manifest \<open>m\<close> is the latest that an attempt gave, marked as stale exactly when the last attempt failed.\<close>

definition latest_given :: "attempt list \<Rightarrow> row \<Rightarrow> bool" where
  "latest_given as m = (\<exists>earlier t m0 later. as = earlier @ (t, Inr m0) # later \<and> list_all failed_attempt later
     \<and> m = (if later = [] then m0 else stale_of m0))"

lemma first_manifest_fresh: "first_manifest cfg fetch us = Inr m \<Longrightarrow> dget m ''_stale'' = JBool False"
  by (induction us) (auto simp: normalized_manifest_def Let_def split: sum.splits json.splits option.splits if_splits)

lemma stale_of_stale: "stale_of (stale_of m) = stale_of m" "dget (stale_of m) ''_stale'' = JBool True"
  by (simp_all add: stale_of_def)

lemma latest_given_now: "latest_given (as @ [(t, Inr m)]) m"
  unfolding latest_given_def by (intro exI [of _ as] exI [of _ t] exI [of _ m] exI [of _ "[]"]) simp

lemma latest_given_failed: "latest_given as m \<Longrightarrow> latest_given (as @ [(t, Inl e)]) (stale_of m)"
proof -
  assume "latest_given as m"
  then obtain earlier u m0 later where a: "as = earlier @ (u, Inr m0) # later" "list_all failed_attempt later"
    "m = (if later = [] then m0 else stale_of m0)" unfolding latest_given_def by blast
  then have "stale_of m = stale_of m0" by (simp add: stale_of_stale)
  then show ?thesis unfolding latest_given_def using a
    by (intro exI [of _ earlier] exI [of _ u] exI [of _ m0] exI [of _ "later @ [(t, Inl e)]"]) (simp add: failed_attempt_def)
qed

lemma attempts_snoc:
  "attempts cfg (cs @ [(now, force, fetch)]) c = attempts cfg cs c
     @ (if asks now force (fold (\<lambda>(now, force, fetch) c. snd (agent_release_manifest cfg now force fetch c)) cs c)
        then [(now, first_manifest cfg fetch (manifest_sources cfg))] else [])"
proof (induction cs arbitrary: c)
  case (Cons x cs)
  then show ?case by (cases x) simp
qed simp

lemma attempts_fresh: "(t, Inr m) \<in> set (attempts cfg cs c) \<Longrightarrow> dget m ''_stale'' = JBool False"
proof (induction cs arbitrary: c)
  case (Cons x cs)
  obtain now force fetch where x: "x = (now, force, fetch)" by (cases x)
  then show ?case using Cons first_manifest_fresh [of cfg fetch "manifest_sources cfg" m] by (auto split: if_splits)
qed simp

abbreviation new_cache :: release_cache where "new_cache \<equiv> \<lparr>rc_at = 0, rc_data = None\<rparr>"

lemma manifest_cache_snoc:
  "manifest_cache cfg (cs @ [(now, force, fetch)]) = snd (agent_release_manifest cfg now force fetch (manifest_cache cfg cs))"
  by (simp add: manifest_cache_def)

text \<open>What the cache holds after a run of calls with the attempts \<open>as\<close>.\<close>

definition cache_of :: "attempt list \<Rightarrow> release_cache \<Rightarrow> bool" where
  "cache_of as c = (\<forall>m. rc_data c = Some m \<longrightarrow> as \<noteq> [] \<and> rc_at c = fst (last as) \<and> latest_given as m)"

lemma manifest_step:
  assumes "cache_of as c" and "agent_release_manifest cfg now force fetch c = (r, c')"
  defines "as' \<equiv> as @ (if asks now force c then [(now, first_manifest cfg fetch (manifest_sources cfg))] else [])"
  shows "cache_of as' c' \<and> (\<forall>m. r = Inr m \<longrightarrow> rc_data c' = Some m \<and> (rc_at c' = now \<or> now - rc_at c' < RELEASE_TTL \<and> \<not> force))"
proof (cases "asks now force c")
  case False
  then obtain m where m: "rc_data c = Some m" "now - rc_at c < RELEASE_TTL" "\<not> force" by (auto simp: asks_def)
  then have "r = Inr m" "c' = c" using assms(2) by (simp_all add: agent_release_manifest_def)
  then show ?thesis using assms(1) m False by (simp add: as'_def)
next
  case True
  then have old: "(if force \<or> \<not> now - rc_at c < RELEASE_TTL then None else rc_data c) = None" by (auto simp: asks_def)
  note step = assms(2) [unfolded agent_release_manifest_def old option.case]
  show ?thesis
  proof (cases "first_manifest cfg fetch (manifest_sources cfg)")
    case (Inr m)
    then have "r = Inr m" "c' = \<lparr>rc_at = now, rc_data = Some m\<rparr>" using step by simp_all
    then show ?thesis using True Inr latest_given_now by (simp add: as'_def cache_of_def)
  next
    case (Inl es)
    show ?thesis
    proof (cases "rc_data c")
      case None
      then have "c' = c" "isl r" using step Inl by auto
      then show ?thesis using None by (auto simp: cache_of_def)
    next
      case (Some m)
      then have "r = Inr (stale_of m)" "c' = \<lparr>rc_at = now, rc_data = Some (stale_of m)\<rparr>" using step Inl by (auto simp: stale_of_def Let_def)
      moreover have "latest_given (as @ [(now, Inl es)]) (stale_of m)"
        using assms(1) Some by (intro latest_given_failed) (simp add: cache_of_def)
      ultimately show ?thesis using True Inl by (simp add: as'_def cache_of_def)
    qed
  qed
qed

lemma manifest_cache_of: "cache_of (attempts cfg cs new_cache) (manifest_cache cfg cs)"
proof (induction cs rule: rev_induct)
  case (snoc c cs)
  obtain now force fetch where c: "c = (now, force, fetch)" by (cases c)
  obtain r c' where step: "agent_release_manifest cfg now force fetch (manifest_cache cfg cs) = (r, c')" by fastforce
  show ?case using manifest_step [OF snoc.IH step] unfolding c manifest_cache_snoc attempts_snoc
    by (simp add: step flip: manifest_cache_def)
qed (simp add: manifest_cache_def cache_of_def)

section \<open>The queue\<close>

datatype agent_event =
    UpdateStatus env fetch bool json bool | UpdateCheck env fetch bool json bool | UpdateRequest env fetch bool row
  | CleanupRequest env bool row | AgentAck env bool row | AgentReport env bool row

fun agent_do :: "release_config \<Rightarrow> agent_event \<Rightarrow> agent_state \<Rightarrow> agent_state" where
  "agent_do cfg (UpdateStatus e fetch auth named refresh) = (\<lambda>s. snd (agent_update_status cfg e fetch auth named refresh s))"
| "agent_do cfg (UpdateCheck e fetch auth named refresh) = (\<lambda>s. snd (agent_update_check cfg e fetch auth named refresh s))"
| "agent_do cfg (UpdateRequest e fetch auth payload) = (\<lambda>s. snd (agent_update_request cfg e fetch auth payload s))"
| "agent_do cfg (CleanupRequest e auth payload) = (\<lambda>s. snd (agent_cleanup_request e auth payload s))"
| "agent_do cfg (AgentAck e auth payload) = (\<lambda>s. snd (router_agent_ack e auth payload s))"
| "agent_do cfg (AgentReport e auth payload) = (\<lambda>s. snd (router_agent_status e auth payload s))"

definition agent_runs :: "release_config \<Rightarrow> agent_event list \<Rightarrow> agent_state \<Rightarrow> agent_state" where
  "agent_runs cfg es s = fold (agent_do cfg) es s"

definition new_agents :: agent_state where
  "new_agents = \<lparr>ag_docs = (\<lambda>_. None), ag_cache = \<lparr>rc_at = 0, rc_data = None\<rparr>\<rparr>"

text \<open>The random identifiers that the requests draw.\<close>

fun drawn :: "agent_event \<Rightarrow> string list" where
  "drawn (UpdateRequest e fetch auth payload) = [env_fresh e 0]"
| "drawn (CleanupRequest e auth payload) = [env_fresh e 0]"
| "drawn _ = []"

abbreviation row_id :: "json \<Rightarrow> json" where "row_id v \<equiv> dget (items v) ''id''"
abbreviation row_state :: "json \<Rightarrow> json" where "row_state v \<equiv> dget (items v) ''state''"

definition COMMAND_STATES :: "json list" where
  "COMMAND_STATES = map JStr [''pending'', ''accepted'', ''completed'', ''failed'']"

definition command_ok :: "string list \<Rightarrow> json \<Rightarrow> bool" where
  "command_ok ids v = (is_dict v \<and> row_id v \<in> set (map JStr ids) \<and> row_state v \<in> set COMMAND_STATES)"

definition commands_ok :: "string list \<Rightarrow> json list \<Rightarrow> bool" where
  "commands_ok ids rows = (length rows \<le> 100 \<and> distinct (map row_id rows) \<and> list_all (command_ok ids) rows)"

abbreviation queue_of :: "agent_state \<Rightarrow> json list" where "queue_of s \<equiv> agent_commands (ag_docs s)"

lemma saved_queue [simp]: "agent_commands (save_agent_commands rows d) = rows"
  by (simp add: agent_commands_def save_agent_commands_def)

lemma queue_other [simp]: "key \<noteq> UPDATES \<Longrightarrow> agent_commands (save_json d key v) = agent_commands d"
  by (simp add: agent_commands_def)

lemma ack_change_row [simp]:
  "dget (ack_change e word payload r) ''id'' = dget r ''id''" "dget (ack_change e word payload r) ''state'' = JStr word"
  by (simp_all add: ack_change_def Let_def split: json.splits)

lemma complete_update_row [simp]:
  "dget (complete_update e version r) ''id'' = dget r ''id''" "dget (complete_update e version r) ''state'' = JStr ''completed''"
  by (simp_all add: complete_update_def)

lemma close_first_ids: "map row_id (fst (close_first i (ack_change e word payload) rows)) = map row_id rows"
  by (induction rows) (auto split: prod.splits)

lemma close_first_closed:
  assumes "distinct (map row_id rows)" and "list_all is_dict rows" and "v \<in> set (fst (close_first i (ack_change e word payload) rows))"
  shows "if row_id v = JStr i then row_state v = JStr word else v \<in> set rows"
  using assms
proof (induction rows)
  case (Cons x rows)
  show ?case
  proof (cases "row_id x = JStr i")
    case True
    have "row_id y \<noteq> JStr i" if "y \<in> set rows" for y
    proof -
      have "row_id y \<in> row_id ` set rows" using that by (rule imageI)
      then show ?thesis using Cons.prems(1) True by (auto simp del: imageI)
    qed
    then show ?thesis using Cons.prems True by auto
  qed (use Cons in \<open>auto split: prod.splits if_splits\<close>)
qed simp

lemma close_first_dict: "list_all is_dict rows \<Longrightarrow> list_all is_dict (fst (close_first i f rows))"
  by (induction rows) (auto split: prod.splits)

lemma close_first_miss: "\<not> snd (close_first i f rows) \<Longrightarrow> fst (close_first i f rows) = rows"
  by (induction rows) (auto simp: case_prod_beta split: if_splits)

text \<open>What an event does to the queue: nothing, a new row at the end, an acknowledgement, or a report.\<close>

lemma agent_do_queue:
  obtains (same) "queue_of (agent_do cfg ev s) = queue_of s"
  | (new) c i where "drawn ev = [i]" "queue_of (agent_do cfg ev s) = take_last 100 (queue_of s @ [JObj c])"
      "dget c ''id'' = JStr i" "dget c ''state'' = JStr ''pending''"
  | (acked) e payload i word where "word \<in> {''accepted'', ''completed'', ''failed''}"
      "queue_of (agent_do cfg ev s) = fst (close_first i (ack_change e word payload) (queue_of s))"
  | (report) e router version where
      "queue_of (agent_do cfg ev s) = map (\<lambda>v. if update_reached router version v then JObj (complete_update e version (items v)) else v) (queue_of s)"
proof (cases ev)
  case (UpdateStatus e fetch auth named refresh)
  then show ?thesis by (intro same) (auto simp: agent_update_status_def Let_def split: prod.splits)
next
  case (UpdateCheck e fetch auth named refresh)
  then show ?thesis by (intro same) (auto simp: agent_update_check_def agent_update_status_def Let_def split: prod.splits sum.splits)
next
  case (UpdateRequest e fetch auth payload)
  show ?thesis
  proof (cases "auth \<and> (\<exists>m. fst (agent_release_manifest cfg (env_now e) True fetch (ag_cache s)) = Inr m)")
    case True
    then obtain m c where "agent_release_manifest cfg (env_now e) True fetch (ag_cache s) = (Inr m, c)" by (metis prod.collapse)
    then show ?thesis using UpdateRequest True
      by (intro new [of "env_fresh e 0" "new_update_command cfg e (target_router e (dget payload ''router'') (ag_docs s)) m"])
        (simp_all add: agent_update_request_def with_docs_def append_command_def new_update_command_def Let_def)
  next
    case False
    then show ?thesis using UpdateRequest
      by (intro same) (auto simp: agent_update_request_def Let_def split: prod.splits sum.splits)
  qed
next
  case (CleanupRequest e auth payload)
  show ?thesis
  proof (cases auth)
    case True
    then show ?thesis using CleanupRequest
      by (intro new [of "env_fresh e 0" "new_cleanup_command e (target_router e (dget payload ''router'') (ag_docs s))"])
        (simp_all add: agent_cleanup_request_def with_docs_def append_command_def new_cleanup_command_def Let_def)
  qed (use CleanupRequest in \<open>auto simp: agent_cleanup_request_def intro: same\<close>)
next
  case (AgentAck e auth payload)
  let ?word = "text_or (clean_saved_value (dget payload ''state'')) ''accepted''"
  let ?i = "clean_saved_value (dget payload ''id'')"
  obtain rows hit where c: "close_first ?i (ack_change e ?word payload) (queue_of s) = (rows, hit)" by fastforce
  show ?thesis
  proof (cases "auth \<and> ?word \<in> {''accepted'', ''completed'', ''failed''} \<and> hit")
    case True
    then show ?thesis using AgentAck c
      by (intro acked [of ?word ?i e payload]) (auto simp: router_agent_ack_def with_docs_def Let_def)
  next
    case False
    then show ?thesis using AgentAck c by (intro same) (auto simp: router_agent_ack_def Let_def)
  qed
next
  case (AgentReport e auth payload)
  show ?thesis
  proof (cases auth)
    case True
    let ?router = "agent_router e (dget payload ''router'')"
    let ?version = "dget (reported_status e ?router payload) ''version''"
    have "map (\<lambda>v. if update_reached ?router ?version v then JObj (complete_update e ?version (items v)) else v) (queue_of s) = queue_of s"
      if "\<not> list_ex (update_reached ?router ?version) (queue_of s)"
      using that by (intro map_idI) (auto simp: list_ex_iff)
    then show ?thesis using True AgentReport
      by (intro report [of ?router ?version e]) (auto simp: router_agent_status_def Let_def)
  qed (use AgentReport in \<open>auto simp: router_agent_status_def intro: same\<close>)
qed

lemma take_last_drop: "\<exists>k. take_last n xs = drop k xs"
  by (auto simp: take_last_def)

lemma commands_ok_step:
  assumes "commands_ok ids (queue_of s)" and "distinct (ids @ drawn ev)"
  shows "commands_ok (ids @ drawn ev) (queue_of (agent_do cfg ev s))"
proof -
  have more: "list_all (command_ok (ids @ drawn ev)) (queue_of s)"
    using assms(1) by (auto simp: commands_ok_def command_ok_def list_all_iff)
  show ?thesis
  proof (cases rule: agent_do_queue [of cfg ev s])
    case same
    then show ?thesis using assms(1) more by (simp add: commands_ok_def)
  next
    case (new c i)
    let ?rows = "queue_of s @ [JObj c]"
    have "command_ok (ids @ drawn ev) (JObj c)" using new by (simp add: command_ok_def COMMAND_STATES_def)
    then have all: "list_all (command_ok (ids @ drawn ev)) ?rows" using more by simp
    have "JStr i \<notin> row_id ` set (queue_of s)"
    proof
      assume "JStr i \<in> row_id ` set (queue_of s)"
      then obtain v where "v \<in> set (queue_of s)" "row_id v = JStr i" by force
      moreover have "list_all (command_ok ids) (queue_of s)" using assms(1) by (simp add: commands_ok_def)
      ultimately have "command_ok ids v" by (simp add: list_all_iff)
      then have "JStr i \<in> set (map JStr ids)" using \<open>row_id v = JStr i\<close> unfolding command_ok_def by metis
      then show False using assms(2) new(1) by auto
    qed
    then have "distinct (map row_id ?rows)" using assms(1) new(3) by (simp add: commands_ok_def)
    then have "distinct (map row_id (take_last 100 ?rows))" by (metis distinct_drop drop_map take_last_drop)
    then show ?thesis
      using new(2) all set_take_last [of 100 ?rows] by (auto simp: commands_ok_def list_all_iff)
  next
    case (acked e payload i word)
    let ?rows = "fst (close_first i (ack_change e word payload) (queue_of s))"
    have dict: "list_all is_dict (queue_of s)" using more by (auto simp: command_ok_def list_all_iff)
    have "command_ok (ids @ drawn ev) v" if v: "v \<in> set ?rows" for v
    proof -
      have "row_id v \<in> set (map row_id ?rows)" using v by simp
      then obtain u where u: "u \<in> set (queue_of s)" "row_id v = row_id u" unfolding close_first_ids by auto
      then have "command_ok (ids @ drawn ev) u" using more by (simp add: list_all_iff)
      then have "row_id v \<in> set (map JStr (ids @ drawn ev))" unfolding u(2) command_ok_def by blast
      moreover have "is_dict v" using v dict close_first_dict by (auto simp: list_all_iff)
      moreover have "row_state v \<in> set COMMAND_STATES"
        using close_first_closed [OF _ dict v] assms(1) acked(1) more
        by (auto simp: commands_ok_def command_ok_def list_all_iff COMMAND_STATES_def split: if_splits)
      ultimately show ?thesis by (simp add: command_ok_def)
    qed
    moreover have "length ?rows = length (queue_of s)" using arg_cong [OF close_first_ids, of length] by simp
    ultimately show ?thesis
      using assms(1) acked(2) by (simp add: commands_ok_def list_all_iff close_first_ids)
  next
    case (report e router version)
    let ?g = "\<lambda>v. if update_reached router version v then JObj (complete_update e version (items v)) else v"
    have ids: "row_id (?g v) = row_id v" for v by simp
    have completed: "JStr ''completed'' \<in> set COMMAND_STATES" by (simp add: COMMAND_STATES_def)
    have "command_ok (ids @ drawn ev) (?g v)" if "command_ok (ids @ drawn ev) v" for v
      using that completed by (cases "update_reached router version v") (simp_all add: command_ok_def)
    then have "list_all (command_ok (ids @ drawn ev) \<circ> ?g) (queue_of s)"
      by (intro list.pred_mono_strong [OF more]) (simp only: comp_def)
    then have "list_all (command_ok (ids @ drawn ev)) (map ?g (queue_of s))" by (simp only: list.pred_map)
    moreover have "map row_id (map ?g (queue_of s)) = map row_id (queue_of s)" using ids by (simp only: map_map comp_def)
    ultimately show ?thesis
      using assms(1) unfolding report commands_ok_def by (simp only: length_map)
  qed
qed

lemma commands_ok_run:
  assumes "commands_ok ids (queue_of s)" and "distinct (ids @ concat (map drawn es))"
  shows "commands_ok (ids @ concat (map drawn es)) (queue_of (agent_runs cfg es s))"
  using assms
proof (induction es arbitrary: ids s)
  case (Cons ev es)
  then have "commands_ok (ids @ drawn ev) (queue_of (agent_do cfg ev s))" by (intro commands_ok_step) auto
  then show ?case using Cons.IH [of "ids @ drawn ev" "agent_do cfg ev s"] Cons.prems(2) by (simp add: agent_runs_def)
qed (simp add: agent_runs_def)

lemma commands_ok_new: "commands_ok [] (queue_of new_agents)"
  by (simp add: commands_ok_def new_agents_def agent_commands_def load_json_def)

text \<open>A command that is closed is never handed out again.\<close>

definition not_waiting :: "string \<Rightarrow> agent_state \<Rightarrow> bool" where
  "not_waiting i s = (\<forall>v \<in> set (queue_of s). row_id v = JStr i \<longrightarrow> row_state v \<noteq> JStr ''pending'')"

lemma not_waiting_step:
  assumes ok: "commands_ok ids (queue_of s)" and "i \<notin> set (drawn ev)" and nw: "not_waiting i s"
  shows "not_waiting i (agent_do cfg ev s)"
proof (cases rule: agent_do_queue [of cfg ev s])
  case same
  then show ?thesis using nw by (simp add: not_waiting_def)
next
  case (new c j)
  then have "j \<noteq> i" using assms(2) by auto
  then show ?thesis using new(2,3) nw set_take_last [of 100 "queue_of s @ [JObj c]"] by (auto simp: not_waiting_def)
next
  case (acked e payload j word)
  have ids: "distinct (map row_id (queue_of s))" "list_all is_dict (queue_of s)"
    using ok by (auto simp: commands_ok_def command_ok_def list_all_iff)
  have word: "JStr word \<noteq> JStr ''pending''" using acked(1) by auto
  show ?thesis unfolding not_waiting_def acked(2)
  proof (intro ballI impI)
    fix v assume v: "v \<in> set (fst (close_first j (ack_change e word payload) (queue_of s)))" "row_id v = JStr i"
    show "row_state v \<noteq> JStr ''pending''"
      using close_first_closed [OF ids v(1)] nw v(2) word unfolding not_waiting_def by (metis (no_types, lifting))
  qed
next
  case (report e router version)
  show ?thesis unfolding not_waiting_def report
  proof (intro ballI impI)
    fix v assume v: "v \<in> set (map (\<lambda>v. if update_reached router version v then JObj (complete_update e version (items v)) else v) (queue_of s))"
      "row_id v = JStr i"
    then show "row_state v \<noteq> JStr ''pending''" using nw by (auto simp: not_waiting_def split: if_splits)
  qed
qed

lemma not_waiting_run:
  assumes "commands_ok ids (queue_of s)" and "distinct (ids @ concat (map drawn es))" and "i \<notin> set (concat (map drawn es))" and "not_waiting i s"
  shows "not_waiting i (agent_runs cfg es s)"
  using assms
proof (induction es arbitrary: ids s)
  case (Cons ev es)
  have "commands_ok (ids @ drawn ev) (queue_of (agent_do cfg ev s))" using Cons.prems by (intro commands_ok_step) auto
  moreover have "not_waiting i (agent_do cfg ev s)" using Cons.prems by (intro not_waiting_step [of ids]) auto
  ultimately show ?case
    using Cons.IH [of "ids @ drawn ev" "agent_do cfg ev s"] Cons.prems(2,3) by (simp add: agent_runs_def)
qed (simp add: agent_runs_def)

lemma acked_not_waiting:
  assumes ok: "commands_ok ids (queue_of s)" and "fst (fst (router_agent_ack e True payload s)) = 200"
  shows "not_waiting (clean_saved_value (dget payload ''id'')) (snd (router_agent_ack e True payload s))"
proof -
  let ?word = "text_or (clean_saved_value (dget payload ''state'')) ''accepted''"
  let ?i = "clean_saved_value (dget payload ''id'')"
  have word: "?word \<in> {''accepted'', ''completed'', ''failed''}"
    using assms(2) by (auto simp: router_agent_ack_def Let_def split: if_splits)
  obtain rows hit where c: "close_first ?i (ack_change e ?word payload) (queue_of s) = (rows, hit)" by fastforce
  have queue: "queue_of (snd (router_agent_ack e True payload s)) = (if hit then rows else queue_of s)"
    using word c by (simp add: router_agent_ack_def with_docs_def Let_def del: insert_iff)
  have "rows = queue_of s" if "\<not> hit" using close_first_miss [of ?i _ "queue_of s"] c that by (metis fst_conv snd_conv)
  then have rows: "queue_of (snd (router_agent_ack e True payload s)) = fst (close_first ?i (ack_change e ?word payload) (queue_of s))"
    using queue c by simp
  have ids: "distinct (map row_id (queue_of s))" "list_all is_dict (queue_of s)"
    using ok by (auto simp: commands_ok_def command_ok_def list_all_iff)
  have "JStr ?word \<noteq> JStr ''pending''" using word by (elim insertE) simp_all
  then show ?thesis unfolding not_waiting_def rows using close_first_closed [OF ids] by (metis (no_types, lifting))
qed

section \<open>Properties\<close>


text \<open>Over any sequence of requests the queue of agent commands keeps at most a hundred rows with distinct
  identifiers that the hub drew, each in a known state.\<close>

theorem agent_queue_ok:
  assumes "distinct (concat (map drawn es))"
  shows "commands_ok (concat (map drawn es)) (queue_of (agent_runs cfg es new_agents))"
  using commands_ok_run [OF commands_ok_new, of es] assms by simp

text \<open>A command that the agent acknowledged, with whatever state, is never handed out again.\<close>

theorem acknowledged_once:
  assumes "distinct (concat (map drawn (earlier @ later)))"
    and "fst (fst (router_agent_ack e True payload (agent_runs cfg earlier new_agents))) = 200"
    and "clean_saved_value (dget payload ''id'') \<in> set (concat (map drawn earlier))"
    and "s = agent_runs cfg (earlier @ AgentAck e True payload # later) new_agents"
    and "v \<in> set (take 5 (filter (pending_for router) (queue_of s)))"
  shows "row_id v \<noteq> JStr (clean_saved_value (dget payload ''id''))"
proof -
  let ?i = "clean_saved_value (dget payload ''id'')" and ?b = "concat (map drawn earlier)"
  let ?s = "agent_runs cfg earlier new_agents" and ?t = "agent_do cfg (AgentAck e True payload) (agent_runs cfg earlier new_agents)"
  have ok: "commands_ok ?b (queue_of ?s)" using commands_ok_run [OF commands_ok_new, of earlier] assms(1) by simp
  have t: "commands_ok ?b (queue_of ?t)" using commands_ok_step [OF ok, of "AgentAck e True payload"] assms(1) by simp
  have "not_waiting ?i ?t" using acked_not_waiting [OF ok assms(2)] by simp
  then have "not_waiting ?i (agent_runs cfg later ?t)" using assms(1,3) by (intro not_waiting_run [OF t]) auto
  then show ?thesis using assms(4,5) set_take_subset [of 5 "filter (pending_for router) (queue_of s)"]
    by (auto simp: not_waiting_def agent_runs_def pending_for_def)
qed


section \<open>Examples\<close>

definition sample_env :: "string \<Rightarrow> int \<Rightarrow> env" where
  "sample_env i now = \<lparr>env_now = now, env_now_str = ''now'', env_now_text = ''now'', env_fresh = (\<lambda>_. i), env_router = ''r'',
     env_local_epoch = (\<lambda>_. None)\<rparr>"

definition sample_release :: release_config where
  "sample_release = \<lparr>rl_root = ''http://h'', rl_manifest_url = ''http://h/latest.json'', rl_github_url = ''http://g'', rl_installer_url = ''http://h/i''\<rparr>"

definition sample_manifest :: json where
  "sample_manifest = JObj [(''versionName'', JStr ''1.2.0''), (''binaries'', JObj [(''arm64'', JObj [(''url'', JStr ''http://g/releases/download/x/a'')])])]"

definition github_only :: fetch where
  "github_only url = (if url = ''http://g'' then Inr sample_manifest else Inl ''timeout'')"

definition no_source :: fetch where "no_source url = Inl ''timeout''"

definition sample_found :: row where
  "sample_found = (case agent_release_manifest sample_release 2000 False no_source (manifest_cache sample_release [(1000, False, github_only)]) of
     (Inr m, _) \<Rightarrow> m | _ \<Rightarrow> [])"

text \<open>The second source answers at 1000; at 2000 none does.\<close>

definition sample_attempts :: "attempt list" where
  "sample_attempts = attempts sample_release ([(1000, False, github_only)] @ [(2000, False, no_source)]) new_cache"


definition sample_events :: "agent_event list" where
  "sample_events = [UpdateRequest (sample_env ''a1'' 1000) github_only True [], CleanupRequest (sample_env ''b2'' 1001) True []]"

theorem agent_queue_ok_witness:
  "commands_ok [''a1'', ''b2''] (queue_of (agent_runs sample_release sample_events new_agents))
    \<and> map row_state (queue_of (agent_runs sample_release sample_events new_agents)) = [JStr ''pending'', JStr ''pending'']"
proof -
  have ids: "concat (map drawn sample_events) = [''a1'', ''b2'']" by code_simp
  have "commands_ok (concat (map drawn sample_events)) (queue_of (agent_runs sample_release sample_events new_agents))"
    by (rule agent_queue_ok) (simp add: ids)
  moreover have "map row_state (queue_of (agent_runs sample_release sample_events new_agents)) = [JStr ''pending'', JStr ''pending'']"
    by code_simp
  ultimately show ?thesis by (simp add: ids)
qed

definition sample_ack :: row where "sample_ack = [(''id'', JStr ''a1'')]"

definition sample_after :: agent_state where
  "sample_after = agent_runs sample_release (sample_events @ AgentAck (sample_env [] 1002) True sample_ack
     # [CleanupRequest (sample_env ''c3'' 1003) True []]) new_agents"

theorem acknowledged_once_witness:
  "\<exists>v. pending_for ''r'' v \<and> row_id v \<noteq> JStr ''a1'' \<and> v \<in> set (queue_of sample_after)"
proof -
  let ?v = "hd (take 5 (filter (pending_for ''r'') (queue_of sample_after)))"
  have ne: "take 5 (filter (pending_for ''r'') (queue_of sample_after)) \<noteq> []"
  proof -
    have "length (take 5 (filter (pending_for ''r'') (queue_of sample_after))) = 2" by code_simp
    then show ?thesis by auto
  qed
  then have v: "?v \<in> set (take 5 (filter (pending_for ''r'') (queue_of sample_after)))" by (rule hd_in_set)
  have "row_id ?v \<noteq> JStr (clean_saved_value (dget sample_ack ''id''))"
  proof (rule acknowledged_once [OF _ _ _ sample_after_def v])
    have "concat (map drawn (sample_events @ [CleanupRequest (sample_env ''c3'' 1003) True []])) = [''a1'', ''b2'', ''c3'']" by code_simp
    then show "distinct (concat (map drawn (sample_events @ [CleanupRequest (sample_env ''c3'' 1003) True []])))" by simp
    show "fst (fst (router_agent_ack (sample_env [] 1002) True sample_ack (agent_runs sample_release sample_events new_agents))) = 200"
      by code_simp
    have "concat (map drawn sample_events) = [''a1'', ''b2'']" "clean_saved_value (dget sample_ack ''id'') = ''a1''" by code_simp+
    then show "clean_saved_value (dget sample_ack ''id'') \<in> set (concat (map drawn sample_events))" by simp
  qed
  moreover have "clean_saved_value (dget sample_ack ''id'') = ''a1''" by code_simp
  moreover have "?v \<in> set (filter (pending_for ''r'') (queue_of sample_after))" using v by (meson in_set_takeD)
  ultimately show ?thesis by auto
qed

text \<open>A manifest that names version 1.2.0 is never reached by an agent that reports 1.2: the shorter tuple is smaller, so the
  update stays open and is offered for ever.\<close>

theorem short_version_never_reached:
  "\<not> tuple_le (version_parts (JStr ''1.2.0'')) (version_parts (JStr ''1.2''))"
  by code_simp

text \<open>A late acknowledgement opens a command again that was completed.\<close>

theorem late_ack_reopens:
  "map row_state (queue_of (agent_runs sample_release (sample_events @
     [AgentAck (sample_env [] 1002) True sample_ack, AgentReport (sample_env [] 1003) True [(''version'', JStr ''1.2.0'')],
      AgentAck (sample_env [] 1004) True sample_ack]) new_agents)) = [JStr ''accepted'', JStr ''pending'']
   \<and> map row_state (queue_of (agent_runs sample_release (sample_events @
     [AgentAck (sample_env [] 1002) True sample_ack, AgentReport (sample_env [] 1003) True [(''version'', JStr ''1.2.0'')]]) new_agents))
     = [JStr ''completed'', JStr ''pending'']"
  by code_simp

end
