(* ===== verification/ConfigSync.thy ===== *)
theory ConfigSync
  imports HubCore
begin

text \<open>
  Router configuration snapshots (\<open>src/router_config_sync_patch.py\<close>): the latest confirmed value of four
  resources, a revision that counts their changes, the file that survives a restart, and the frames that are
  published to the connected apps. \<open>accept\<close> decides inside the lock and publishes outside of it, so a thread
  that has left the lock keeps its frame in \<open>cs_outbox\<close> until it publishes. SHA-256 is an argument. A value
  from the router is JSON, on which \<open>_jsonable\<close> is the identity; writing the file succeeds.
\<close>

section \<open>Values that are compared\<close>

definition VOLATILE_FIELDS :: "string list" where
  "VOLATILE_FIELDS = [''updatedAt'', ''checkedAt'', ''receivedAt'', ''receivedEpoch'']"

definition RESOURCES :: "string list" where
  "RESOURCES = [''firewall'', ''ddns'', ''upnp'', ''portMappings'']"

definition RESOURCE_BY_CACHE_KEY :: "(string \<times> string) list" where
  "RESOURCE_BY_CACHE_KEY = [(''firewall'', ''firewall''), (''ddns'', ''ddns''), (''upnp'', ''upnp''), (''native-portmap'', ''portMappings'')]"

fun without_stats :: "json \<Rightarrow> json" where
  "without_stats (JObj d) = JObj (dpop ''stats'' d)"
| "without_stats v = v"

definition comparison_value :: "string \<Rightarrow> json \<Rightarrow> json" where
  "comparison_value resource v = (case v of
     JObj d \<Rightarrow>
       (let r = fold dpop VOLATILE_FIELDS d in
        JObj (case (if resource = ''firewall'' then dget r ''list'' else JNull) of
            JList xs \<Rightarrow> dset ''list'' (JList (map without_stats xs)) r
          | _ \<Rightarrow> r))
   | _ \<Rightarrow> v)"

definition config_digest :: "(string \<Rightarrow> string) \<Rightarrow> string \<Rightarrow> json \<Rightarrow> string" where
  "config_digest sha resource v = sha (json_dumps (comparison_value resource v))"

section \<open>State\<close>

record config_sync =
  cs_rows :: "(string \<times> row) list"
  cs_revision :: int
  cs_file :: "string option"
  cs_outbox :: "(nat \<times> row) list"
  cs_sent :: "row list"

definition config_text :: "int \<Rightarrow> (string \<times> row) list \<Rightarrow> string" where
  "config_text n rows =
     json_enc (JObj [(''revision'', JInt n), (''resources'', JObj (map (\<lambda>(k, r). (k, JObj r)) rows))])"

definition save_config :: "config_sync \<Rightarrow> config_sync" where
  "save_config s = s\<lparr>cs_file := Some (config_text (cs_revision s) (cs_rows s))\<rparr>"

text \<open>Reading the file at start-up. A revision that is no number raises after the rows were stored.\<close>

definition kept_resources :: "json \<Rightarrow> (string \<times> row) list" where
  "kept_resources v = map (\<lambda>(k, r). (k, items r))
     (filter (\<lambda>(k, r). is_dict r \<and> (is_dict (dget (items r) ''data'') \<or> is_list (dget (items r) ''data''))) (items v))"

definition revision_of :: "row \<Rightarrow> int option" where
  "revision_of r = py_int_of (por (dget r ''revision'') (JInt 0))"

definition load_config :: "string option \<Rightarrow> config_sync" where
  "load_config f =
    (let empty = \<lparr>cs_rows = [], cs_revision = 0, cs_file = f, cs_outbox = [], cs_sent = []\<rparr> in
     case (case f of None \<Rightarrow> Some (JObj []) | Some t \<Rightarrow> json_loads t) of
       Some (JObj root) \<Rightarrow>
         (let rows = kept_resources (dget root ''resources'');
              numbers = revision_of root # map (revision_of \<circ> snd) rows in
          if None \<in> set numbers then empty\<lparr>cs_rows := rows\<rparr>
          else empty\<lparr>cs_rows := rows, cs_revision := fold max (map the numbers) 0\<rparr>)
     | _ \<Rightarrow> empty)"

definition snapshot_of :: "string \<Rightarrow> config_sync \<Rightarrow> row" where
  "snapshot_of resource s = (case map_of (cs_rows s) resource of None \<Rightarrow> [] | Some r \<Rightarrow> r)"

text \<open>The frames that a newly connected app gets.\<close>

definition frames :: "config_sync \<Rightarrow> row list" where
  "frames s = filter (\<lambda>r. dget r ''data'' \<noteq> JNull) (map snd (cs_rows s))"

section \<open>Operations\<close>

definition changed_frame :: "string \<Rightarrow> int \<Rightarrow> int \<Rightarrow> string \<Rightarrow> string \<Rightarrow> json \<Rightarrow> row" where
  "changed_frame resource n now source fingerprint v =
     [(''resource'', JStr resource), (''revision'', JInt n), (''updatedAt'', JInt now), (''checkedAt'', JInt now),
      (''source'', JStr source), (''digest'', JStr fingerprint), (''data'', v)]"

definition confirmed_frame :: "row \<Rightarrow> string \<Rightarrow> string \<Rightarrow> int \<Rightarrow> row" where
  "confirmed_frame previous resource source now =
     dmerge previous [(''resource'', JStr resource), (''source'', JStr source), (''checkedAt'', JInt now)]"

text \<open>The critical section of \<open>accept\<close>: the frame that is returned, and whether it is published.\<close>

definition accept_locked :: "(string \<Rightarrow> string) \<Rightarrow> int \<Rightarrow> string \<Rightarrow> json \<Rightarrow> string \<Rightarrow> config_sync \<Rightarrow> (row \<times> bool) \<times> config_sync" where
  "accept_locked sha now resource v source s =
    (if resource \<notin> set RESOURCES then (([], False), s)
     else let fingerprint = config_digest sha resource v; previous = snapshot_of resource s in
       if dget previous ''digest'' = JStr fingerprint
       then ((confirmed_frame previous resource source now, source = ''command''), s)
       else let frame = changed_frame resource (cs_revision s + 1) now source fingerprint v in
         ((frame, True), save_config (s\<lparr>cs_revision := cs_revision s + 1, cs_rows := dset resource frame (cs_rows s)\<rparr>)))"

text \<open>The part of \<open>accept\<close> of thread \<open>w\<close> up to the end of the lock, and the publication.\<close>

definition begin_accept :: "(string \<Rightarrow> string) \<Rightarrow> nat \<Rightarrow> int \<Rightarrow> string \<Rightarrow> json \<Rightarrow> string \<Rightarrow> config_sync \<Rightarrow> config_sync" where
  "begin_accept sha w now resource v source s =
    (case accept_locked sha now resource v source s of ((frame, publish), s') \<Rightarrow>
       if publish then s'\<lparr>cs_outbox := dset w frame (cs_outbox s')\<rparr> else s')"

definition publish_frame :: "nat \<Rightarrow> bool \<Rightarrow> config_sync \<Rightarrow> config_sync" where
  "publish_frame w delivered s = (case map_of (cs_outbox s) w of
     None \<Rightarrow> s
   | Some frame \<Rightarrow> s\<lparr>cs_outbox := dpop w (cs_outbox s), cs_sent := (if delivered then cs_sent s @ [frame] else cs_sent s)\<rparr>)"

definition accept_config :: "(string \<Rightarrow> string) \<Rightarrow> int \<Rightarrow> string \<Rightarrow> json \<Rightarrow> string \<Rightarrow> config_sync \<Rightarrow> config_sync" where
  "accept_config sha now resource v source s =
    (case accept_locked sha now resource v source s of ((frame, publish), s') \<Rightarrow>
       if publish then s'\<lparr>cs_sent := cs_sent s' @ [frame]\<rparr> else s')"

text \<open>A write that was confirmed by reading it back.\<close>

definition verified_resource :: "string \<Rightarrow> string option" where
  "verified_resource cache_prefix = map_of RESOURCE_BY_CACHE_KEY cache_prefix"

definition accept_verified :: "(string \<Rightarrow> string) \<Rightarrow> int \<Rightarrow> string \<Rightarrow> json \<Rightarrow> config_sync \<Rightarrow> config_sync" where
  "accept_verified sha now cache_prefix v s = (case verified_resource cache_prefix of
     None \<Rightarrow> s | Some resource \<Rightarrow> accept_config sha now resource v ''command'' s)"

text \<open>A refresh: \<open>loaded\<close> is \<open>None\<close> when the loader raises; \<open>rec\<close> is the reconciliation of the firewall automation.\<close>

definition refresh :: "(string \<Rightarrow> string) \<Rightarrow> (json \<Rightarrow> 'w \<Rightarrow> 'w) \<Rightarrow> int \<Rightarrow> string \<Rightarrow> json option \<Rightarrow> config_sync \<times> 'w \<Rightarrow> config_sync \<times> 'w" where
  "refresh sha rec now resource loaded sw = (case loaded of
     None \<Rightarrow> sw
   | Some v \<Rightarrow> (accept_config sha now resource v ''sync'' (fst sw), if resource = ''firewall'' then rec v (snd sw) else snd sw))"

text \<open>The resource of the \<open>n\<close>-th turn of the loop of the background thread.\<close>

definition loader_turn :: "nat \<Rightarrow> string" where
  "loader_turn n = RESOURCES ! (n mod 4)"

section \<open>Interleavings\<close>

datatype config_event = Begin nat int string json string | Publish nat bool

fun config_do :: "(string \<Rightarrow> string) \<Rightarrow> config_event \<Rightarrow> config_sync \<Rightarrow> config_sync" where
  "config_do sha (Begin w now resource v source) s =
     (if map_of (cs_outbox s) w = None then begin_accept sha w now resource v source s else s)"
| "config_do sha (Publish w delivered) s = publish_frame w delivered s"

definition config_run :: "(string \<Rightarrow> string) \<Rightarrow> config_event list \<Rightarrow> config_sync \<Rightarrow> config_sync" where
  "config_run sha es s = fold (config_do sha) es s"

end
