(* ===== verification/ConfigRuns.thy ===== *)
theory ConfigRuns
  imports ConfigSync
begin

text \<open>
  Runs of the configuration snapshots: the revisions, the file, and what an app that keeps the newest frame of
  each resource knows when all frames are out.
\<close>

section \<open>The invariant\<close>

definition row_revision_int :: "row \<Rightarrow> int" where
  "row_revision_int r = (case dget r ''revision'' of JInt i \<Rightarrow> i | _ \<Rightarrow> 0)"

text \<open>A stored row: as \<open>changed_frame\<close> makes it, with a revision that was given out.\<close>

definition stored_row :: "(string \<Rightarrow> string) \<Rightarrow> int \<Rightarrow> string \<Rightarrow> row \<Rightarrow> bool" where
  "stored_row sha n resource r = (resource \<in> set RESOURCES \<and> (\<exists>i now source v. 0 < i \<and> i \<le> n
     \<and> r = changed_frame resource i now source (config_digest sha resource v) v))"

definition rows_ok :: "(string \<Rightarrow> string) \<Rightarrow> config_sync \<Rightarrow> bool" where
  "rows_ok sha s = (dict_ok (cs_rows s) \<and> 0 \<le> cs_revision s \<and> (\<forall>(k, r) \<in> set (cs_rows s). stored_row sha (cs_revision s) k r)
     \<and> distinct (map (row_revision_int \<circ> snd) (cs_rows s)))"

text \<open>What identifies a value for an app.\<close>

definition frame_value :: "row \<Rightarrow> json \<times> json \<times> json \<times> json" where
  "frame_value r = (dget r ''resource'', dget r ''revision'', dget r ''digest'', dget r ''data'')"

abbreviation is_for :: "string \<Rightarrow> row \<Rightarrow> bool" where
  "is_for resource r \<equiv> dget r ''resource'' = JStr resource"

text \<open>No frame is newer than the row of its resource; one of the same revision has the same value.\<close>

definition frame_ok :: "config_sync \<Rightarrow> row \<Rightarrow> bool" where
  "frame_ok s r = (\<exists>k x. map_of (cs_rows s) k = Some x \<and> is_for k r \<and> row_revision_int r \<le> row_revision_int x
     \<and> (row_revision_int r = row_revision_int x \<longrightarrow> frame_value r = frame_value x))"

lemma changed_frame_fields [simp]:
  "dget (changed_frame k i now source f v) ''resource'' = JStr k" "dget (changed_frame k i now source f v) ''revision'' = JInt i"
  "dget (changed_frame k i now source f v) ''digest'' = JStr f" "dget (changed_frame k i now source f v) ''data'' = v"
  "row_revision_int (changed_frame k i now source f v) = i"
  by (simp_all add: changed_frame_def row_revision_int_def)

lemma confirmed_frame_fields [simp]:
  "k \<notin> {''resource'', ''source'', ''checkedAt''} \<Longrightarrow> dget (confirmed_frame p resource source now) k = dget p k"
  "dget (confirmed_frame p resource source now) ''resource'' = JStr resource"
  by (simp_all add: confirmed_frame_def)

text \<open>What the critical section does: nothing to the rows, or a new revision of one.\<close>

lemma accept_cases:
  obtains (kept) r where "accept_locked sha now resource v source s = ((r, False), s)"
  | (confirmed) x where "map_of (cs_rows s) resource = Some x" "resource \<in> set RESOURCES"
      "dget x ''digest'' = JStr (config_digest sha resource v)"
      "accept_locked sha now resource v source s = ((confirmed_frame x resource source now, True), s)"
  | (new) f where "resource \<in> set RESOURCES" "f = changed_frame resource (cs_revision s + 1) now source (config_digest sha resource v) v"
      "dget (snapshot_of resource s) ''digest'' \<noteq> JStr (config_digest sha resource v)"
      "accept_locked sha now resource v source s =
         ((f, True), save_config (s\<lparr>cs_revision := cs_revision s + 1, cs_rows := dset resource f (cs_rows s)\<rparr>))"
proof (cases "resource \<in> set RESOURCES")
  case True
  show ?thesis
  proof (cases "dget (snapshot_of resource s) ''digest'' = JStr (config_digest sha resource v)")
    case same: True
    then obtain x where "map_of (cs_rows s) resource = Some x" by (auto simp: snapshot_of_def split: option.splits)
    with same True show ?thesis
      by (cases "source = ''command''") (auto simp: accept_locked_def Let_def snapshot_of_def intro: kept confirmed)
  next
    case False
    with True show ?thesis by (intro new [OF True refl]) (simp_all add: accept_locked_def Let_def)
  qed
qed (simp add: accept_locked_def kept)

lemma save_config_simps [simp]:
  "cs_rows (save_config s) = cs_rows s" "cs_revision (save_config s) = cs_revision s" "cs_outbox (save_config s) = cs_outbox s"
  "cs_sent (save_config s) = cs_sent s"
  by (simp_all add: save_config_def)


text \<open>The frames that were made since the start.\<close>

definition made :: "config_sync \<Rightarrow> row set" where
  "made s = set (map snd (cs_outbox s)) \<union> set (cs_sent s)"

definition announced :: "config_sync \<Rightarrow> bool" where
  "announced s = (\<forall>k x. (k, x) \<in> set (cs_rows s) \<longrightarrow> (\<exists>r \<in> made s. is_for k r \<and> frame_value r = frame_value x))"

definition config_ok :: "(string \<Rightarrow> string) \<Rightarrow> config_sync \<Rightarrow> bool" where
  "config_ok sha s = (rows_ok sha s \<and> dict_ok (cs_outbox s) \<and> (\<forall>r \<in> made s. frame_ok s r)
     \<and> cs_file s \<in> {None, Some (config_text (cs_revision s) (cs_rows s))} \<and> (cs_file s = None \<longrightarrow> cs_rows s = [] \<and> cs_revision s = 0))"

lemma made_new: "map_of (cs_outbox s) w = None \<Longrightarrow> cs_outbox t = dset w f (cs_outbox s) \<Longrightarrow> cs_sent t = cs_sent s \<Longrightarrow> made t = insert f (made s)"
  by (simp add: made_def map_of_eq_None_iff dset_append_new)

lemma outbox_drop: "dict_ok d \<Longrightarrow> map_of d w = Some f \<Longrightarrow> insert f (snd ` set (dpop w d)) = snd ` set d"
proof (induction d)
  case (Cons p d)
  obtain u r where p: "p = (u, r)" by (cases p)
  show ?case
  proof (cases "u = w")
    case True
    then have "w \<notin> fst ` set d" "r = f" using Cons.prems p by auto
    then show ?thesis using p True by (simp add: delete_idem)
  qed (use Cons p in auto)
qed simp

lemma made_published:
  assumes "dict_ok (cs_outbox s)"
  shows "made (publish_frame w delivered s) \<subseteq> made s" and "delivered \<Longrightarrow> made (publish_frame w delivered s) = made s"
proof -
  have "made (publish_frame w True s) = made s"
  proof (cases "map_of (cs_outbox s) w")
    case (Some f)
    then show ?thesis using outbox_drop [OF assms Some] by (auto simp: made_def publish_frame_def)
  qed (simp add: publish_frame_def made_def)
  moreover have "made (publish_frame w delivered s) \<subseteq> made (publish_frame w True s)"
    by (auto simp: made_def publish_frame_def split: option.splits)
  ultimately show "made (publish_frame w delivered s) \<subseteq> made s" "delivered \<Longrightarrow> made (publish_frame w delivered s) = made s" by auto
qed

lemma publish_frame_rows [simp]:
  "cs_rows (publish_frame w delivered s) = cs_rows s" "cs_revision (publish_frame w delivered s) = cs_revision s"
  "cs_file (publish_frame w delivered s) = cs_file s"
  by (simp_all add: publish_frame_def split: option.splits)

lemma stored_row_mono: "stored_row sha n k r \<Longrightarrow> n \<le> m \<Longrightarrow> stored_row sha m k r"
  unfolding stored_row_def by fastforce

lemma stored_changed:
  "k \<in> set RESOURCES \<Longrightarrow> 0 < i \<Longrightarrow> i \<le> n \<Longrightarrow> stored_row sha n k (changed_frame k i now source (config_digest sha k v) v)"
  unfolding stored_row_def by blast

lemma stored_rowD: "rows_ok sha s \<Longrightarrow> (k, x) \<in> set (cs_rows s) \<Longrightarrow> stored_row sha (cs_revision s) k x"
  by (auto simp: rows_ok_def)

lemma stored_revision: "rows_ok sha s \<Longrightarrow> (k, x) \<in> set (cs_rows s) \<Longrightarrow> row_revision_int x \<le> cs_revision s \<and> is_for k x"
  unfolding rows_ok_def stored_row_def by fastforce

text \<open>A new revision of a row.\<close>

lemma new_row_ok:
  assumes ok: "rows_ok sha s" and k: "k \<in> set RESOURCES"
    and f: "f = changed_frame k (cs_revision s + 1) now source (config_digest sha k v) v"
    and t: "cs_rows t = dset k f (cs_rows s)" "cs_revision t = cs_revision s + 1"
  shows "rows_ok sha t" and "frame_ok t f" and "frame_ok s r \<Longrightarrow> frame_ok t r"
proof -
  have rows: "(j, x) \<in> set (cs_rows t) \<Longrightarrow> (j, x) \<in> set (cs_rows s) \<or> (j, x) = (k, f)" for j x
    using set_dset [of k f "cs_rows s"] t(1) by auto
  have old: "(j, x) \<in> set (cs_rows s) \<Longrightarrow> stored_row sha (cs_revision t) j x" for j x
    using ok t(2) unfolding rows_ok_def by (auto intro: stored_row_mono)
  have "0 \<le> cs_revision s" using ok by (simp add: rows_ok_def)
  then have new: "stored_row sha (cs_revision t) k f" 
    unfolding f t(2) using k by (intro stored_changed) auto
  have dist: "distinct (map (row_revision_int \<circ> snd) (dset k f d))" if "distinct (map (row_revision_int \<circ> snd) d)"
      "\<And>j x. (j, x) \<in> set d \<Longrightarrow> row_revision_int x < row_revision_int f" for d
    using that
  proof (induction d)
    case (Cons p d)
    obtain j x where p: "p = (j, x)" by (cases p)
    have x: "row_revision_int x < row_revision_int f" using Cons.prems(2) [of j x] p by simp
    have "row_revision_int x \<notin> (row_revision_int \<circ> snd) ` set d" using Cons.prems(1) p by simp
    moreover have "(row_revision_int \<circ> snd) ` set (dset k f d) \<subseteq> insert (row_revision_int f) ((row_revision_int \<circ> snd) ` set d)"
      using set_dset [of k f d] by auto
    ultimately have "row_revision_int x \<notin> (row_revision_int \<circ> snd) ` set (dset k f d)" using x by auto
    moreover have "row_revision_int f \<notin> (row_revision_int \<circ> snd) ` set d"
    proof
      assume "row_revision_int f \<in> (row_revision_int \<circ> snd) ` set d"
      then obtain i y where "(i, y) \<in> set d" "row_revision_int y = row_revision_int f" by auto
      then show False using Cons.prems(2) [of i y] by simp
    qed
    moreover have "distinct (map (row_revision_int \<circ> snd) (dset k f d))" using Cons by (intro Cons.IH) auto
    ultimately show ?case using Cons.prems(1) p by (cases "j = k") (simp_all add: comp_def)
  qed simp
  have "row_revision_int x < row_revision_int f" if "(j, x) \<in> set (cs_rows s)" for j x
    using stored_revision [OF ok that] f by simp
  then have "distinct (map (row_revision_int \<circ> snd) (cs_rows t))" using dist ok t(1) by (simp add: rows_ok_def)
  then show "rows_ok sha t" using rows old new ok t by (auto simp: rows_ok_def)
  show "frame_ok t f" using t(1) f by (auto simp: frame_ok_def intro!: exI [of _ k])
  show "frame_ok t r" if fr: "frame_ok s r"
  proof -
    obtain j x where x: "map_of (cs_rows s) j = Some x" "is_for j r" "row_revision_int r \<le> row_revision_int x"
      "row_revision_int r = row_revision_int x \<longrightarrow> frame_value r = frame_value x"
      using fr unfolding frame_ok_def by blast
    show ?thesis
    proof (cases "j = k")
      case True
      have "row_revision_int x \<le> cs_revision s" using stored_revision [OF ok map_of_SomeD [OF x(1)]] by simp
      then show ?thesis using x True t(1) f by (auto simp: frame_ok_def intro!: exI [of _ k])
    next
      case False
      then show ?thesis using x t(1) by (auto simp: frame_ok_def intro!: exI [of _ j])
    qed
  qed
qed

lemma frame_ok_cong: "cs_rows s = cs_rows t \<Longrightarrow> frame_ok s r = frame_ok t r"
  by (simp add: frame_ok_def)

lemma rows_ok_cong: "cs_rows s = cs_rows t \<Longrightarrow> cs_revision s = cs_revision t \<Longrightarrow> rows_ok sha s = rows_ok sha t"
  by (simp add: rows_ok_def)

lemma confirmed_ok:
  assumes "rows_ok sha s" and "map_of (cs_rows s) k = Some x"
  shows "frame_ok s (confirmed_frame x k source now)"
proof -
  have "is_for k x" using stored_revision [OF assms(1) map_of_SomeD [OF assms(2)]] by simp
  then have "frame_value (confirmed_frame x k source now) = frame_value x"
    "row_revision_int (confirmed_frame x k source now) = row_revision_int x"
    by (simp_all add: frame_value_def row_revision_int_def)
  then show ?thesis using assms(2) by (auto simp: frame_ok_def intro!: exI [of _ k])
qed

lemma begin_ok:
  assumes ok: "config_ok sha s" and free: "map_of (cs_outbox s) w = None"
  shows "config_ok sha (begin_accept sha w now k v source s)"
proof -
  have rows: "rows_ok sha s" and frames: "\<forall>r \<in> made s. frame_ok s r" and box: "dict_ok (cs_outbox s)" using ok by (simp_all add: config_ok_def)
  show ?thesis
  proof (cases rule: accept_cases [of sha now k v source s])
    case (kept r)
    then show ?thesis using ok by (simp add: begin_accept_def)
  next
    case (confirmed x)
    let ?f = "confirmed_frame x k source now"
    let ?t = "s\<lparr>cs_outbox := dset w ?f (cs_outbox s)\<rparr>"
    have "frame_ok s ?f" using rows confirmed(1) by (rule confirmed_ok)
    then have "\<forall>r \<in> made ?t. frame_ok ?t r" using frames made_new [OF free, of ?t ?f] frame_ok_cong [of ?t s] by simp
    then show ?thesis using ok confirmed(4) rows_ok_cong [of ?t s] by (simp add: begin_accept_def config_ok_def)
  next
    case (new f)
    let ?t = "save_config (s\<lparr>cs_revision := cs_revision s + 1, cs_rows := dset k f (cs_rows s)\<rparr>)"
    let ?u = "?t\<lparr>cs_outbox := dset w f (cs_outbox ?t)\<rparr>"
    note step = new_row_ok [OF rows new(1,2), of ?u, simplified]
    have "\<forall>r \<in> made ?u. frame_ok ?u r" using frames made_new [OF free, of ?u f] step(2,3) by simp
    moreover have "cs_file ?u = Some (config_text (cs_revision ?u) (cs_rows ?u))" by (simp add: save_config_def)
    ultimately show ?thesis using new(4) step(1) box by (simp add: begin_accept_def config_ok_def)
  qed
qed

lemma publish_ok: "config_ok sha s \<Longrightarrow> config_ok sha (publish_frame w delivered s)"
proof -
  assume ok: "config_ok sha s"
  let ?t = "publish_frame w delivered s"
  have "dict_ok (cs_outbox ?t)" using ok by (auto simp: publish_frame_def config_ok_def split: option.splits)
  moreover have "\<forall>r \<in> made ?t. frame_ok ?t r"
    using ok made_published(1) [of s w delivered] frame_ok_cong [of ?t s] by (auto simp: config_ok_def)
  ultimately show ?thesis using ok rows_ok_cong [of ?t s] by (simp add: config_ok_def)
qed

lemma config_do_ok: "config_ok sha s \<Longrightarrow> config_ok sha (config_do sha e s)"
  by (cases e) (auto intro: begin_ok publish_ok)

lemma config_start: "load_config None = \<lparr>cs_rows = [], cs_revision = 0, cs_file = None, cs_outbox = [], cs_sent = []\<rparr>"
  by (simp add: load_config_def Let_def kept_resources_def revision_of_def por_def)

lemma config_start_ok: "config_ok sha (load_config None)"
  by (simp add: config_start config_ok_def rows_ok_def made_def)

lemma config_run_ok: "config_ok sha s \<Longrightarrow> config_ok sha (config_run sha es s)"
  unfolding config_run_def by (induction es arbitrary: s) (auto intro: config_do_ok)

section \<open>What the apps know\<close>

fun is_delivered :: "config_event \<Rightarrow> bool" where
  "is_delivered (Publish w delivered) = delivered"
| "is_delivered _ = True"

lemma announced_do:
  assumes ok: "config_ok sha s" and an: "announced s" and e: "is_delivered e"
  shows "announced (config_do sha e s)"
proof (cases e)
  case (Begin w now k v source)
  show ?thesis
  proof (cases "map_of (cs_outbox s) w = None")
    case free: True
    show ?thesis
    proof (cases rule: accept_cases [of sha now k v source s])
      case (new f)
      let ?t = "save_config (s\<lparr>cs_revision := cs_revision s + 1, cs_rows := dset k f (cs_rows s)\<rparr>)"
      let ?u = "?t\<lparr>cs_outbox := dset w f (cs_outbox ?t)\<rparr>"
      have made: "made ?u = insert f (made s)" using made_new [OF free, of ?u f] by simp
      have "announced ?u" unfolding announced_def made
        using an set_dset [of k f "cs_rows s"] new(2) unfolding announced_def by fastforce
      then show ?thesis using Begin free new(4) by (simp add: begin_accept_def)
    next
      case (confirmed x)
      let ?t = "s\<lparr>cs_outbox := dset w (confirmed_frame x k source now) (cs_outbox s)\<rparr>"
      have "made ?t = insert (confirmed_frame x k source now) (made s)" using made_new [OF free, of ?t] by simp
      then have "announced ?t" using an unfolding announced_def by auto
      then show ?thesis using Begin free confirmed(4) by (simp add: begin_accept_def)
    next
      case (kept r)
      then show ?thesis using Begin free an by (simp add: begin_accept_def)
    qed
  qed (use Begin an in auto)
next
  case (Publish w delivered)
  then have "made (publish_frame w delivered s) = made s" using ok e by (intro made_published(2)) (auto simp: config_ok_def)
  then show ?thesis using an Publish by (simp add: announced_def)
qed

lemma announced_run:
  "config_ok sha s \<Longrightarrow> announced s \<Longrightarrow> list_all is_delivered es \<Longrightarrow> announced (config_run sha es s)"
  unfolding config_run_def by (induction es arbitrary: s) (auto intro: announced_do config_do_ok)


text \<open>An app keeps, of the frames of a resource, the one with the largest revision; of equal ones the last.\<close>

fun newest :: "string \<Rightarrow> row list \<Rightarrow> row option" where
  "newest k [] = None"
| "newest k (r # rs) = (case newest k rs of
     None \<Rightarrow> if is_for k r then Some r else None
   | Some b \<Rightarrow> if is_for k r \<and> row_revision_int b < row_revision_int r then Some r else Some b)"

lemma newest_largest:
  assumes "r \<in> set rs" and "is_for k r"
  shows "\<exists>b \<in> set rs. newest k rs = Some b \<and> is_for k b \<and> row_revision_int r \<le> row_revision_int b"
  using assms
proof (induction rs)
  case (Cons x rs)
  show ?case
  proof (cases "newest k rs")
    case None
    then have "r = x" using Cons by auto
    then show ?thesis using None Cons.prems by auto
  next
    case (Some b)
    have b: "b \<in> set rs \<and> is_for k b" using Some
    proof (induction rs arbitrary: b)
      case (Cons y ys)
      then show ?case by (auto split: option.splits if_splits)
    qed simp
    show ?thesis
    proof (cases "r = x")
      case True
      then show ?thesis using Some b Cons.prems by auto
    next
      case False
      then show ?thesis using Some Cons by force
    qed
  qed
qed simp

lemma frame_known:
  assumes ok: "config_ok sha s" and an: "announced s" and out: "cs_outbox s = []" and x: "map_of (cs_rows s) k = Some x"
  shows "\<exists>b. newest k (cs_sent s) = Some b \<and> frame_value b = frame_value x"
proof -
  have made: "made s = set (cs_sent s)" using out by (simp add: made_def)
  obtain r where r: "r \<in> set (cs_sent s)" "is_for k r" "frame_value r = frame_value x"
    using an map_of_SomeD [OF x] made unfolding announced_def by blast
  obtain b where b: "b \<in> set (cs_sent s)" "newest k (cs_sent s) = Some b" "is_for k b" "row_revision_int r \<le> row_revision_int b"
    using newest_largest [OF r(1,2)] by blast
  have "row_revision_int r = row_revision_int x" using r(3) by (simp add: frame_value_def row_revision_int_def)
  moreover obtain j y where "map_of (cs_rows s) j = Some y" "is_for j b" "row_revision_int b \<le> row_revision_int y"
    "row_revision_int b = row_revision_int y \<longrightarrow> frame_value b = frame_value y"
    using ok b(1) made unfolding config_ok_def frame_ok_def by blast
  moreover from this(2) b(3) have "j = k" by simp
  ultimately show ?thesis using b x by auto
qed

section \<open>The file\<close>

lemma json_loads_enc: "json_ok v \<Longrightarrow> json_loads (json_enc v) = Some v"
proof -
  assume ok: "json_ok v"
  have "parse_value (length (json_enc v) + 1) (json_enc v @ []) = Some (v, [])"
    using ok size_le_enc [of v] by (intro parse_value_enc) auto
  moreover have "skip_ws (json_enc v) = json_enc v" using skip_ws_value [of v "[]"] by simp
  ultimately show ?thesis by (simp add: json_loads_def)
qed

definition is_config :: "json \<Rightarrow> bool" where
  "is_config v = (is_dict v \<or> is_list v)"

lemma fold_max_top: "\<forall>i \<in> set is. i \<le> (n::int) \<Longrightarrow> 0 \<le> n \<Longrightarrow> fold max (n # is) 0 = n"
proof -
  assume le: "\<forall>i \<in> set is. i \<le> n" and n: "0 \<le> n"
  have "fold max js n = n" if "\<forall>i \<in> set js. i \<le> n" for js using that by (induction js) (auto simp: max_absorb2)
  then show ?thesis using le n by (simp add: max_def)
qed

lemma load_config_eq:
  "json_loads t = Some (JObj root) \<Longrightarrow> kept_resources (dget root ''resources'') = rows \<Longrightarrow>
   None \<notin> set (revision_of root # map (revision_of \<circ> snd) rows) \<Longrightarrow>
   load_config (Some t) = \<lparr>cs_rows = rows, cs_revision = fold max (map the (revision_of root # map (revision_of \<circ> snd) rows)) 0,
     cs_file = Some t, cs_outbox = [], cs_sent = []\<rparr>"
  by (simp add: load_config_def Let_def)

lemma load_saved:
  assumes ok: "rows_ok sha s" and json: "list_all (\<lambda>(k, r). json_ok (JObj r)) (cs_rows s)"
  shows "cs_rows (load_config (Some (config_text (cs_revision s) (cs_rows s)))) = filter (\<lambda>(k, r). is_config (dget r ''data'')) (cs_rows s)"
    and "cs_revision (load_config (Some (config_text (cs_revision s) (cs_rows s)))) = cs_revision s"
proof -
  let ?rows = "map (\<lambda>(k, r). (k, JObj r)) (cs_rows s)"
  let ?root = "[(''revision'', JInt (cs_revision s)), (''resources'', JObj ?rows)]"
  let ?kept = "filter (\<lambda>(k, r). is_config (dget r ''data'')) (cs_rows s)"
  have "dict_ok ?rows" using ok by (simp add: rows_ok_def comp_def case_prod_unfold)
  moreover have "list_all (\<lambda>(k, v). json_ok v) ?rows" using json by (fastforce simp: list_all_iff)
  ultimately have "json_ok (JObj ?root)" by simp
  then have load: "json_loads (config_text (cs_revision s) (cs_rows s)) = Some (JObj ?root)"
    unfolding config_text_def by (rule json_loads_enc)
  have kept: "kept_resources (JObj ?rows) = ?kept"
    by (simp add: kept_resources_def filter_map comp_def case_prod_unfold is_config_def)
  have number: "\<exists>i. revision_of x = Some i \<and> i \<le> cs_revision s" if row: "(k, x) \<in> set (cs_rows s)" for k x
  proof -
    obtain i now source v where i: "0 < i" "i \<le> cs_revision s" "x = changed_frame k i now source (config_digest sha k v) v"
      using stored_rowD [OF ok row] unfolding stored_row_def by blast
    then show ?thesis by (simp add: revision_of_def por_def)
  qed
  have numbers: "map (revision_of \<circ> snd) ?kept = map Some (map (\<lambda>p. the (revision_of (snd p))) ?kept)"
    using number by fastforce
  have root: "revision_of ?root = Some (cs_revision s)" by (cases "cs_revision s = 0") (simp_all add: revision_of_def por_def)
  have "\<forall>i \<in> set (map (\<lambda>p. the (revision_of (snd p))) ?kept). i \<le> cs_revision s" using number by fastforce
  then have max: "fold max (cs_revision s # map (\<lambda>p. the (revision_of (snd p))) ?kept) 0 = cs_revision s"
    using ok by (intro fold_max_top) (auto simp: rows_ok_def)
  have none: "None \<notin> set (revision_of ?root # map (revision_of \<circ> snd) ?kept)" unfolding root numbers by auto
  have the: "map the (revision_of ?root # map (revision_of \<circ> snd) ?kept) = cs_revision s # map (\<lambda>p. the (revision_of (snd p))) ?kept"
    unfolding root numbers by simp
  have "load_config (Some (config_text (cs_revision s) (cs_rows s)))
      = \<lparr>cs_rows = ?kept, cs_revision = cs_revision s, cs_file = Some (config_text (cs_revision s) (cs_rows s)), cs_outbox = [], cs_sent = []\<rparr>"
    using load_config_eq [OF load _ none] kept max unfolding the by simp
  then show "cs_rows (load_config (Some (config_text (cs_revision s) (cs_rows s)))) = ?kept"
    and "cs_revision (load_config (Some (config_text (cs_revision s) (cs_rows s)))) = cs_revision s" by simp_all
qed

text \<open>The values that are stored are those that were accepted.\<close>

fun event_ok :: "config_event \<Rightarrow> bool" where
  "event_ok (Begin w now resource v source) = json_ok v"
| "event_ok (Publish w delivered) = True"

definition rows_json :: "config_sync \<Rightarrow> bool" where
  "rows_json s = list_all (\<lambda>(k, r). json_ok (JObj r)) (cs_rows s)"

lemma changed_frame_ok: "json_ok v \<Longrightarrow> json_ok (JObj (changed_frame k i now source f v))"
  by (simp add: changed_frame_def)

lemma rows_json_do: "event_ok e \<Longrightarrow> rows_json s \<Longrightarrow> rows_json (config_do sha e s)"
proof (cases e)
  case (Begin w now k v source)
  assume "event_ok e" "rows_json s"
  show ?thesis
  proof (cases rule: accept_cases [of sha now k v source s])
    case (new f)
    have "json_ok (JObj f)" using new(2) \<open>event_ok e\<close> Begin changed_frame_ok by simp
    then have "list_all (\<lambda>(k, r). json_ok (JObj r)) (dset k f (cs_rows s))"
      using \<open>rows_json s\<close> set_dset [of k f "cs_rows s"] unfolding rows_json_def list_all_iff by blast
    then show ?thesis using new(4) Begin \<open>rows_json s\<close> by (simp add: begin_accept_def rows_json_def)
  qed (use Begin \<open>rows_json s\<close> in \<open>auto simp: begin_accept_def rows_json_def\<close>)
qed (simp add: rows_json_def)

lemma rows_json_run: "list_all event_ok es \<Longrightarrow> rows_json s \<Longrightarrow> rows_json (config_run sha es s)"
  unfolding config_run_def by (induction es arbitrary: s) (auto intro: rows_json_do)

section \<open>Properties\<close>

text \<open>C27: However the threads interleave, once every frame is out an app that keeps the newest frame of each resource
  knows the stored value, digest and revision of every resource.\<close>

theorem apps_know_config:
  assumes "list_all is_delivered es" and "cs_outbox (config_run sha es (load_config None)) = []"
    and "map_of (cs_rows (config_run sha es (load_config None))) k = Some x"
  shows "\<exists>b. newest k (cs_sent (config_run sha es (load_config None))) = Some b \<and> frame_value b = frame_value x"
proof -
  have "announced (load_config None)" by (simp add: config_start announced_def)
  then show ?thesis
    using frame_known [OF config_run_ok [OF config_start_ok] announced_run [OF config_start_ok] assms(2,3)] assms(1) by blast
qed

text \<open>C28: A restart reads the configurations, their revisions and the counter of revisions back as they were.\<close>

theorem config_survives_restart:
  assumes "list_all event_ok es" and "s = config_run sha es (load_config None)"
  shows "cs_rows (load_config (cs_file s)) = filter (\<lambda>(k, r). is_config (dget r ''data'')) (cs_rows s)
    \<and> cs_revision (load_config (cs_file s)) = cs_revision s
    \<and> distinct (map (row_revision_int \<circ> snd) (cs_rows s))"
proof -
  have ok: "config_ok sha s" unfolding assms(2) by (rule config_run_ok [OF config_start_ok])
  have json: "rows_json s" unfolding assms(2) by (rule rows_json_run [OF assms(1)]) (simp add: config_start rows_json_def)
  have rows: "rows_ok sha s" using ok by (simp add: config_ok_def)
  have "cs_rows (load_config (cs_file s)) = filter (\<lambda>(k, r). is_config (dget r ''data'')) (cs_rows s)"
    "cs_revision (load_config (cs_file s)) = cs_revision s"
    using load_saved [OF rows] json ok by (auto simp: config_ok_def rows_json_def config_start)
  then show ?thesis using rows by (simp add: rows_ok_def)
qed

section \<open>Examples\<close>

definition sample_rules :: "string \<Rightarrow> json" where
  "sample_rules enable = JObj [(''list'', JList [JObj [(''uuid'', JStr ''u''), (''enable'', JStr enable), (''stats'', JInt 5)]]), (''checkedAt'', JInt 9)]"

text \<open>Two threads change the firewall; the frame of the second one is out first.\<close>

definition sample_config_run :: "config_event list" where
  "sample_config_run = [Begin 0 100 ''firewall'' (sample_rules ''1'') ''sync'', Begin 1 101 ''firewall'' (sample_rules ''0'') ''command'',
     Publish 1 True, Publish 0 True, Begin 0 102 ''ddns'' (JList []) ''sync'', Publish 0 True]"

definition sample_config :: config_sync where
  "sample_config = config_run (\<lambda>s. s) sample_config_run (load_config None)"

definition sample_row :: row where
  "sample_row = changed_frame ''firewall'' 2 101 ''command'' (config_digest (\<lambda>s. s) ''firewall'' (sample_rules ''0'')) (sample_rules ''0'')"

theorem apps_know_config_witness:
  "\<exists>b. newest ''firewall'' (cs_sent sample_config) = Some b \<and> frame_value b = frame_value sample_row"
proof -
  have "list_all is_delivered sample_config_run" by code_simp
  moreover have "cs_outbox (config_run (\<lambda>s. s) sample_config_run (load_config None)) = []" by code_simp
  moreover have "map_of (cs_rows (config_run (\<lambda>s. s) sample_config_run (load_config None))) ''firewall'' = Some sample_row" by code_simp
  ultimately show ?thesis unfolding sample_config_def by (rule apps_know_config)
qed

theorem config_survives_restart_witness:
  "length (cs_rows (load_config (cs_file sample_config))) = 2 \<and> cs_revision (load_config (cs_file sample_config)) = 3"
proof -
  have ok: "list_all event_ok sample_config_run" by code_simp
  note restart = config_survives_restart [OF ok sample_config_def]
  have "length (filter (\<lambda>(k, r). is_config (dget r ''data'')) (cs_rows sample_config)) = 2" "cs_revision sample_config = 3" by code_simp+
  then show ?thesis using restart by simp
qed

text \<open>The revisions of the frames as they are sent can go down, because a frame is published outside of the lock.\<close>

theorem frames_out_of_order: "map row_revision_int (cs_sent sample_config) = [2, 1, 3]"
  by code_simp

text \<open>Counters and times are no change.\<close>

theorem counters_are_no_change:
  "comparison_value ''firewall'' (JObj (dset ''checkedAt'' t d)) = comparison_value ''firewall'' (JObj d)"
  by (simp add: comparison_value_def VOLATILE_FIELDS_def Let_def delete_update delete_update_same)

end
