(* ===== verification/Daily.thy ===== *)
theory Daily
  imports HubCore
begin

text \<open>
  The daily report of the hub (\<open>src/hub.py\<close>): texts of durations, the online time of each device, the
  clean-up of the day's device events and the report built from them. Chinese characters that the code
  compares or writes are represented by control codes from 128 on, one for each character, which occur in no
  other text. A local time is a number of seconds, of which 86400 make a day.
\<close>

section \<open>Characters\<close>

definition cjk :: "nat list \<Rightarrow> string" where "cjk ns = map (\<lambda>n. char_of (128 + n)) ns"

text \<open>xiao, shi, fen, miao: the words for hour (also in its short form), minute and second.\<close>

definition HOUR_SHORT :: string where "HOUR_SHORT = cjk [1]"
definition HOUR :: string where "HOUR = cjk [0, 1]"
definition MINUTE :: string where "MINUTE = cjk [2]"
definition SECOND :: string where "SECOND = cjk [3]"

text \<open>Words of titles: came online, went offline, address changed; and words of the report.\<close>

definition CAME_ONLINE :: string where "CAME_ONLINE = '' '' @ cjk [4, 6]"
definition WENT_OFFLINE :: string where "WENT_OFFLINE = '' '' @ cjk [7, 6]"
definition ADDRESS_CHANGED :: string where "ADDRESS_CHANGED = cjk [8, 9, 10, 11]"
definition UNKNOWN_NAME :: string where "UNKNOWN_NAME = cjk [12, 13]"
definition AN_EVENT :: string where "AN_EVENT = cjk [14, 15]"
definition NETWORK_CHANGE :: string where "NETWORK_CHANGE = cjk [16, 17, 10, 11]"
definition ONLINE_FOR :: string where "ONLINE_FOR = cjk [18, 6] @ '' ''"
definition DOT :: string where "DOT = '' '' @ [char_of (183::nat)] @ '' ''"

section \<open>Durations\<close>

definition two_digits :: "nat \<Rightarrow> string" where
  "two_digits n = (if n < 10 then ''0'' else []) @ nat_str n"

definition human_duration :: "json \<Rightarrow> string" where
  "human_duration v = (let sec = to_int v 0; h = nat (sec div 3600); m = nat (sec mod 3600 div 60) in
     if sec \<le> 0 then [] else if 0 < h then nat_str h @ HOUR @ two_digits m @ MINUTE else nat_str m @ MINUTE)"

definition human_duration_precise :: "json \<Rightarrow> string" where
  "human_duration_precise v = (let sec = to_int v 0; h = nat (sec div 3600); m = nat (sec mod 3600 div 60); s = nat (sec mod 60) in
     if sec \<le> 0 then []
     else if 0 < h then nat_str h @ HOUR @ two_digits m @ MINUTE @ two_digits s @ SECOND
     else if 0 < m then nat_str m @ MINUTE @ two_digits s @ SECOND
     else nat_str s @ SECOND)"

text \<open>The digits at the start of a text, read as a number, and the rest.\<close>

definition leading_number :: "string \<Rightarrow> (nat \<times> string) option" where
  "leading_number s = (let ds = takeWhile is_dec s in if ds = [] then None else Some (dec_value ds, dropWhile is_dec s))"

definition minutes_seconds :: "string \<Rightarrow> (nat \<times> nat) option" where
  "minutes_seconds s = (case leading_number s of
     Some (m, r) \<Rightarrow> if startswith r MINUTE then
         (case leading_number (drop (length MINUTE) r) of Some (n, r') \<Rightarrow> if r' = SECOND then Some (m, n) else None | None \<Rightarrow> None)
       else None
   | None \<Rightarrow> None)"

definition minutes_only :: "string \<Rightarrow> nat option" where
  "minutes_only s = (case leading_number s of Some (m, r) \<Rightarrow> if r = MINUTE then Some m else None | None \<Rightarrow> None)"

definition no_text :: "string \<Rightarrow> bool" where
  "no_text s = (s \<in> {[], ''-'', ''null'', ''None''})"

definition pretty_duration_text :: "string \<Rightarrow> string" where
  "pretty_duration_text text =
    (let s = strip text in
     if no_text s then []
     else case minutes_seconds s of
       Some (mins, sec) \<Rightarrow>
         (let h = mins div 60; mm = mins mod 60 in
          (if h \<noteq> 0 then nat_str h @ HOUR else []) @ (if mm \<noteq> 0 \<or> h = 0 then nat_str mm @ MINUTE else []) @ nat_str sec @ SECOND)
     | None \<Rightarrow> (case minutes_only s of
         Some mins \<Rightarrow> (let h = mins div 60; mm = mins mod 60 in
            if h \<noteq> 0 then nat_str h @ HOUR @ nat_str mm @ MINUTE else nat_str mm @ MINUTE)
       | None \<Rightarrow> replace_all HOUR_SHORT HOUR s))"

text \<open>\<open>re.search\<close> for a number before a word: the first run of digits that the word follows.\<close>

function number_before :: "string \<Rightarrow> string \<Rightarrow> nat option" where
  "number_before w [] = None"
| "number_before w (c # s) =
     (if is_dec c then (if startswith (dropWhile is_dec s) w then Some (dec_value (c # takeWhile is_dec s))
        else number_before w (dropWhile is_dec s))
      else number_before w s)"
  by pat_completeness auto
termination
  by (relation "measure (length \<circ> snd)") (auto simp: le_imp_less_Suc length_dropWhile_le)

definition duration_text_to_seconds :: "string \<Rightarrow> nat" where
  "duration_text_to_seconds text =
    (let s = replace_all HOUR_SHORT HOUR (strip text);
         part = (\<lambda>w k. case number_before w s of None \<Rightarrow> 0 | Some n \<Rightarrow> n * k) in
     if no_text s then 0 else part HOUR 3600 + part MINUTE 60 + part SECOND 1)"

section \<open>The online time of a day\<close>

text \<open>The moment of a sample: local seconds, epoch seconds, the date and the time as text, and the reading of a time.\<close>

record moment =
  mo_local :: int
  mo_epoch :: int
  mo_day :: string
  mo_text :: string
  mo_parse :: "string \<Rightarrow> int option"

definition parse_time_safe :: "moment \<Rightarrow> json \<Rightarrow> int option" where
  "parse_time_safe now v = (if truthy v then mo_parse now (take 19 (strip (py_str v))) else None)"

definition midnight :: "moment \<Rightarrow> int" where
  "midnight now = mo_local now div 86400 * 86400"

definition today_online_seconds_from_item :: "row \<Rightarrow> moment \<Rightarrow> int" where
  "today_online_seconds_from_item item now =
    (let since_midnight = max 0 (mo_local now - midnight now);
         active = to_int (por (por (dget item ''activeTime'') (dget item ''onlineDurationSec'')) (dget item ''durationSec'')) 0 in
     case parse_time_safe now (por (por (dget item ''onlinetime'') (dget item ''onlineSince'')) (dget item ''startTime'')) of
       Some start \<Rightarrow> max 0 (min since_midnight (mo_local now - max start (midnight now)))
     | None \<Rightarrow> if 0 < active then min active since_midnight else 0)"

text \<open>The last device with each address, in the order of the first.\<close>

definition by_mac :: "row list \<Rightarrow> (string \<times> row) list" where
  "by_mac devices = dict_of (map (\<lambda>d. (norm_mac (dget d ''mac''), d)) (filter (\<lambda>d. norm_mac (dget d ''mac'') \<noteq> []) devices))"

definition absent_entry :: "moment \<Rightarrow> json \<Rightarrow> json" where
  "absent_entry now v = (case v of
     JObj e \<Rightarrow> JObj (dset ''lastSampleEpoch'' (JInt (mo_epoch now)) (dset ''online'' (JBool False) e))
   | _ \<Rightarrow> JObj [(''seconds'', JInt 0), (''online'', JBool False), (''lastSampleEpoch'', JInt (mo_epoch now))])"

definition close_absent :: "moment \<Rightarrow> string list \<Rightarrow> row \<Rightarrow> row" where
  "close_absent now macs entries = map (\<lambda>(k, v). (k, if is_dict v \<and> k \<in> set macs then v else absent_entry now v)) entries"

definition online_seconds :: "moment \<Rightarrow> row \<Rightarrow> row \<Rightarrow> int" where
  "online_seconds now e dev =
    (let raw = (case dget dev ''raw'' of JObj r \<Rightarrow> r | _ \<Rightarrow> dev);
         before_now = max 0 (to_int (dget e ''seconds'') 0);
         last_epoch = to_int (dget e ''lastSampleEpoch'') 0;
         counted = (if truthy (dget e ''online'') \<and> 0 < last_epoch then before_now + min (max 0 (mo_epoch now - last_epoch)) 300 else before_now) in
     max counted (today_online_seconds_from_item raw now))"

definition sampled_entry :: "moment \<Rightarrow> row \<Rightarrow> row \<Rightarrow> row" where
  "sampled_entry now e dev = (let first = clean_saved_value (dget e ''firstSeenAt'') in
     [(''seconds'', JInt (online_seconds now e dev)), (''online'', JBool True),
      (''firstSeenAt'', JStr (if first = [] then mo_text now else first)), (''lastSeenAt'', JStr (mo_text now)),
      (''lastSampleEpoch'', JInt (mo_epoch now))])"

text \<open>Of several devices with one address only the last is stamped.\<close>

fun stamp_devices :: "moment \<Rightarrow> row \<Rightarrow> row list \<Rightarrow> row list" where
  "stamp_devices now entries [] = []"
| "stamp_devices now entries (dev # devs) =
     (let mac = norm_mac (dget dev ''mac''); seconds = dget (items (dget entries mac)) ''seconds'' in
      if mac = [] \<or> list_ex (\<lambda>d. norm_mac (dget d ''mac'') = mac) devs then dev
      else dmerge dev [(''todayOnlineDurationSec'', seconds), (''todayOnlineDurationText'', JStr (human_duration seconds)),
        (''todayOnlineDate'', JStr (mo_day now))]) # stamp_devices now entries devs"

abbreviation DAILY_ONLINE :: string where "DAILY_ONLINE \<equiv> ''daily_online.json''"

definition online_entries :: "moment \<Rightarrow> docs \<Rightarrow> row" where
  "online_entries now d = (let state = load_json d DAILY_ONLINE (JObj []) in
     if is_dict state \<and> dget (items state) ''date'' = JStr (mo_day now) then items (dget (items state) ''devices'') else [])"

definition sample_entries :: "moment \<Rightarrow> row list \<Rightarrow> row \<Rightarrow> row" where
  "sample_entries now devices entries = (let present = by_mac devices in
     fold (\<lambda>(mac, dev) es. dset mac (JObj (sampled_entry now (items (dget es mac)) dev)) es) present
       (close_absent now (map fst present) entries))"

definition fresh_day :: "moment \<Rightarrow> row" where
  "fresh_day now = [(''date'', JStr (mo_day now)), (''devices'', JObj []), (''updatedAt'', JStr (mo_text now))]"

definition daily_base :: "moment \<Rightarrow> docs \<Rightarrow> row" where
  "daily_base now d = (let state = load_json d DAILY_ONLINE (JObj []) in
     if is_dict state \<and> dget (items state) ''date'' = JStr (mo_day now) then items state else fresh_day now)"

definition update_daily_online :: "moment \<Rightarrow> row list \<Rightarrow> docs \<Rightarrow> row list \<times> docs" where
  "update_daily_online now devices d =
    (let base = daily_base now d; entries = sample_entries now devices (items (dget base ''devices'')) in
     (stamp_devices now entries devices,
      save_json d DAILY_ONLINE (JObj (dset ''updatedAt'' (JStr (mo_text now))
        (dset ''devices'' (JObj entries) (dset ''date'' (JStr (mo_day now)) base))))))"

section \<open>The events of a day\<close>

definition event_timestamp :: "row \<Rightarrow> string" where
  "event_timestamp e = py_str (por (por (por (por (dget e ''createdAt'') (dget e ''time'')) (dget e ''offlineAt'')) (dget e ''onlineSince'')) (JStr []))"

definition event_type :: "row \<Rightarrow> string" where
  "event_type e = py_str (dget_or e ''type'' (JStr []))"

definition event_device_key :: "row \<Rightarrow> string" where
  "event_device_key e =
    (let mac = norm_mac (dget e ''mac'');
         title = replace_all WENT_OFFLINE [] (replace_all CAME_ONLINE [] (py_str (por (dget e ''title'') (JStr []))));
         name = lower (clean_saved_value (por (dget e ''name'') (JStr title)));
         ip = clean_saved_value (por (dget e ''ip'') (dget e ''lastIp'')) in
     if mac \<noteq> [] then ''mac:'' @ mac else if name \<noteq> [] then ''name:'' @ name else if ip \<noteq> [] then ''ip:'' @ ip else [])"

text \<open>\<open>e\<close> is an event with its time in seconds, 0 when it has none.\<close>

type_synonym timed = "int \<times> row"

record day_state =
  last_state :: "(string \<times> string) list"
  online_at :: "(string \<times> int) list"
  last_offline :: "(string \<times> int) list"
  kept_events :: "row list"

definition event_duration :: "row \<Rightarrow> nat" where
  "event_duration e = duration_text_to_seconds (pretty_duration_text (py_str (por (dget e ''onlineDurationText'') (JStr []))))"

definition get_time :: "(string \<times> int) list \<Rightarrow> string \<Rightarrow> int" where
  "get_time d k = (case map_of d k of None \<Rightarrow> 0 | Some t \<Rightarrow> t)"

definition keep_event :: "row \<Rightarrow> day_state \<Rightarrow> day_state" where
  "keep_event e s = s\<lparr>kept_events := kept_events s @ [e]\<rparr>"

definition online_event :: "string \<Rightarrow> timed \<Rightarrow> day_state \<Rightarrow> day_state" where
  "online_event key ae s = (case ae of (at, e) \<Rightarrow>
     if map_of (last_state s) key = Some ''online'' then s
     else keep_event e (s\<lparr>last_state := dset key ''online'' (last_state s),
       online_at := (if at \<noteq> 0 then dset key at (online_at s) else online_at s)\<rparr>))"

definition offline_event :: "string \<Rightarrow> timed \<Rightarrow> day_state \<Rightarrow> day_state" where
  "offline_event key ae s = (case ae of (at, e0) \<Rightarrow>
     (let since = get_time (online_at s) key;
          measured = (event_duration e0 = 0 \<and> since \<noteq> 0 \<and> at \<noteq> 0 \<and> since \<le> at);
          dur = (if measured then at - since else int (event_duration e0));
          e = (if measured then dset ''onlineDurationText'' (JStr (human_duration_precise (JInt (at - since)))) e0 else e0) in
      if dur \<le> 0 then s
      else if map_of (last_state s) key = Some ''offline'' then s
      else if at \<noteq> 0 \<and> (case map_of (last_offline s) key of None \<Rightarrow> False | Some t \<Rightarrow> 0 \<le> at - t \<and> at - t \<le> 300) then s
      else keep_event e (s\<lparr>last_state := dset key ''offline'' (last_state s),
        last_offline := (if at \<noteq> 0 then dset key at (last_offline s) else last_offline s), online_at := dpop key (online_at s)\<rparr>)))"

definition day_event :: "timed \<Rightarrow> day_state \<Rightarrow> day_state" where
  "day_event ae s = (case ae of (at, e) \<Rightarrow>
     (let typ = event_type e; key = event_device_key e in
      if typ \<notin> {''device_online'', ''device_offline''} \<or> key = [] then keep_event e s
      else if typ = ''device_online'' then online_event key ae s else offline_event key ae s))"

definition empty_day :: day_state where
  "empty_day = \<lparr>last_state = [], online_at = [], last_offline = [], kept_events = []\<rparr>"

text \<open>The order of the events; \<open>int\<close> of an identifier that is no number raises.\<close>

definition event_id :: "row \<Rightarrow> int option" where
  "event_id e = py_int_of (dget_or e ''id'' (JInt 0))"

definition time_of :: "(string \<Rightarrow> int option) \<Rightarrow> row \<Rightarrow> int" where
  "time_of parse e = (let t = event_timestamp e in
     if t = [] then 0 else case parse (take 19 (strip t)) of None \<Rightarrow> 0 | Some at \<Rightarrow> at)"

definition ordered_events :: "(string \<Rightarrow> int option) \<Rightarrow> row list \<Rightarrow> timed list" where
  "ordered_events parse es = sort_key fst (sort_key (\<lambda>ae. the (event_id (snd ae))) (map (\<lambda>e. (time_of parse e, e)) es))"

definition normalize_device_events :: "(string \<Rightarrow> int option) \<Rightarrow> row list \<Rightarrow> row list option" where
  "normalize_device_events parse es =
    (if list_ex (\<lambda>e. event_id e = None) es then None
     else Some (kept_events (fold day_event (ordered_events parse es) empty_day)))"


section \<open>The report\<close>

record device_day =
  dd_name :: string
  dd_online :: nat
  dd_offline :: nat
  dd_seconds :: nat
  dd_ip :: json
  dd_signal :: string

record day_report =
  dr_devices :: "(string \<times> device_day) list"
  dr_vpn :: "row list"
  dr_network :: "row list"
  dr_ddns :: "row list"
  dr_online :: nat
  dr_offline :: nat

definition text_field :: "row \<Rightarrow> string \<Rightarrow> string \<Rightarrow> string" where
  "text_field e a b = strip (py_str (por (por (dget e a) (dget e b)) (JStr [])))"

definition shown_text :: "string \<Rightarrow> bool" where
  "shown_text s = (s \<notin> {[], ''-'', ''null'', ''None''})"

definition signal_text :: "row \<Rightarrow> string" where
  "signal_text e =
    (let rssi = text_field e ''rssi'' ''lastRssi''; band = text_field e ''band'' ''lastBand''; rate = text_field e ''rxrate'' ''lastRxrate'' in
     join '' '' ((if shown_text rssi then [if endswith rssi ''dBm'' then rssi else rssi @ ''dBm''] else [])
       @ (if shown_text band then [band] else []) @ (if shown_text rate then [rate] else [])))"

definition event_name :: "row \<Rightarrow> string" where
  "event_name e = py_str (por (por (dget e ''name'') (dget e ''title'')) (JStr UNKNOWN_NAME))"

definition event_title :: "row \<Rightarrow> string" where
  "event_title e = py_str (por (dget e ''title'') (JStr (if event_name e \<noteq> [] then event_name e
     else if event_type e \<noteq> [] then event_type e else AN_EVENT)))"

definition new_value :: "row \<Rightarrow> string" where
  "new_value e = strip (py_str (por (por (por (dget e ''newValue'') (dget e ''value'')) (dget e ''address'')) (JStr [])))"

definition clock_text :: "row \<Rightarrow> string" where
  "clock_text e = (let t = event_timestamp e in if 16 \<le> length t then take 5 (drop 11 t) else [])"

definition device_day_event :: "row \<Rightarrow> device_day \<Rightarrow> device_day" where
  "device_day_event e d =
    (let ip = por (dget e ''ip'') (dget e ''lastIp'') in
     d\<lparr>dd_online := dd_online d + (if event_type e = ''device_online'' then 1 else 0),
       dd_offline := dd_offline d + (if event_type e = ''device_offline'' then 1 else 0),
       dd_ip := (if truthy ip then ip else dd_ip d),
       dd_signal := (if signal_text e = [] then dd_signal d else signal_text e),
       dd_seconds := dd_seconds d + event_duration e\<rparr>)"

definition address_item :: "row \<Rightarrow> string \<Rightarrow> string \<Rightarrow> row" where
  "address_item e service address = [(''time'', JStr (clock_text e)), (''name'', JStr service), (''address'', JStr address),
     (''text'', JStr (if address = [] then service else service @ DOT @ address))]"

definition nonempty :: "string \<Rightarrow> string \<Rightarrow> string" where
  "nonempty s d = (if s = [] then d else s)"

definition vpn_item :: "row \<Rightarrow> row" where
  "vpn_item e = address_item e (nonempty (strip (replace_all ADDRESS_CHANGED [] (replace_all ('' STUN '' @ ADDRESS_CHANGED) []
     (py_str (por (dget e ''name'') (JStr (event_title e))))))) ''VPN/STUN'') (new_value e)"

definition network_item :: "row \<Rightarrow> row" where
  "network_item e = address_item e (nonempty (strip (py_str (por (dget e ''name'') (JStr (event_title e))))) NETWORK_CHANGE)
     (nonempty (new_value e) (strip (py_str (por (por (por (dget e ''ip'') (dget e ''ipv6'')) (dget e ''wanIpv6'')) (JStr [])))))"

definition ddns_item :: "row \<Rightarrow> row" where
  "ddns_item e = [(''time'', JStr (clock_text e)), (''name'', JStr (event_name e)),
     (''text'', JStr (if new_value e = [] then event_title e else event_title e @ DOT @ new_value e))]"

definition new_device_day :: "row \<Rightarrow> device_day" where
  "new_device_day e = \<lparr>dd_name = event_name e, dd_online = 0, dd_offline = 0, dd_seconds = 0, dd_ip = JStr [], dd_signal = []\<rparr>"

definition report_event :: "row \<Rightarrow> day_report \<Rightarrow> day_report" where
  "report_event e r =
    (let typ = event_type e; has = (\<lambda>w. contains typ w) in
     if startswith typ ''device_'' then
       (let key = nonempty (event_device_key e) (event_name e);
            d = (case map_of (dr_devices r) key of None \<Rightarrow> new_device_day e | Some d \<Rightarrow> d) in
        r\<lparr>dr_devices := dset key (device_day_event e d) (dr_devices r),
          dr_online := dr_online r + (if typ = ''device_online'' then 1 else 0),
          dr_offline := dr_offline r + (if typ = ''device_offline'' then 1 else 0)\<rparr>)
     else if has ''stun'' \<or> has ''wireguard'' \<or> has ''vpn'' then r\<lparr>dr_vpn := dr_vpn r @ [vpn_item e]\<rparr>
     else if has ''router'' \<or> has ''wan'' \<or> has ''nas'' \<or> has ''network'' then r\<lparr>dr_network := dr_network r @ [network_item e]\<rparr>
     else if has ''ddns'' then r\<lparr>dr_ddns := dr_ddns r @ [ddns_item e]\<rparr>
     else r)"

definition empty_report :: day_report where
  "empty_report = \<lparr>dr_devices = [], dr_vpn = [], dr_network = [], dr_ddns = [], dr_online = 0, dr_offline = 0\<rparr>"

definition day_reported :: "row list \<Rightarrow> day_report" where
  "day_reported es = fold report_event es empty_report"

definition device_item :: "device_day \<Rightarrow> row" where
  "device_item d =
    (let duration = human_duration_precise (JInt (int (dd_seconds d)));
         detail = (if duration = [] then [] else [ONLINE_FOR @ duration]) @ (if truthy (dd_ip d) then [py_str (dd_ip d)] else [])
           @ (if dd_signal d = [] then [] else [dd_signal d]);
         counts = cjk [4, 6] @ '' '' @ nat_str (dd_online d) @ '' '' @ cjk [19] @ DOT @ cjk [20, 6] @ '' '' @ nat_str (dd_offline d) @ '' '' @ cjk [19];
         line2 = counts @ (if detail = [] then [] else DOT @ join DOT detail) in
     [(''name'', JStr (dd_name d)), (''online'', JInt (int (dd_online d))), (''offline'', JInt (int (dd_offline d))),
      (''onlineDurationText'', JStr duration), (''lastIp'', dd_ip d), (''lastSignal'', JStr (dd_signal d)),
      (''text'', JStr (dd_name d @ [CHR 0x0A] @ line2))])"

section \<open>Notes and handlers\<close>

definition note_file :: "string \<Rightarrow> string \<Rightarrow> string" where
  "note_file today day = nonempty (filter (\<lambda>c. is_dec c \<or> c = CHR ''-'') (nonempty day today)) today @ ''.json''"

definition get_daily_note :: "string \<Rightarrow> string \<Rightarrow> docs \<Rightarrow> string" where
  "get_daily_note today day d = py_str (por (dget_or (items (load_json d (note_file today day) (JObj []))) ''note'' (JStr [])) (JStr []))"

definition set_daily_note :: "string \<Rightarrow> string \<Rightarrow> string \<Rightarrow> string \<Rightarrow> docs \<Rightarrow> docs" where
  "set_daily_note now today day note d = save_json d (note_file today day)
     (JObj [(''date'', JStr day), (''note'', JStr note), (''updatedAt'', JStr now)])"

definition put_daily_note :: "string \<Rightarrow> string \<Rightarrow> string \<Rightarrow> row \<Rightarrow> docs \<Rightarrow> string \<times> docs" where
  "put_daily_note now today day payload d = (let note = take 2000 (py_str (dget_or payload ''note'' (JStr []))) in
     (note, set_daily_note now today day note d))"

definition of_day :: "string \<Rightarrow> docs \<Rightarrow> row list" where
  "of_day day d = filter (\<lambda>e. \<not> truthy (dget e ''deleted'') \<and> startswith (event_timestamp e) day)
     (dict_rows (load_json d ''events.json'' (JList [])))"

definition summary_row :: "day_report \<Rightarrow> string \<Rightarrow> nat \<Rightarrow> row" where
  "summary_row r note n = [(''deviceChanges'', JInt (int (dr_online r + dr_offline r))), (''deviceOnline'', JInt (int (dr_online r))),
     (''deviceOffline'', JInt (int (dr_offline r))), (''vpnChanges'', JInt (int (length (dr_vpn r)))),
     (''networkChanges'', JInt (int (length (dr_network r)))), (''ddnsChanges'', JInt (int (length (dr_ddns r)))),
     (''noteCount'', JInt (if strip note = [] then 0 else 1)), (''eventCount'', JInt (int n))]"

definition aggregate_daily :: "(string \<Rightarrow> int option) \<Rightarrow> string \<Rightarrow> string \<Rightarrow> docs \<Rightarrow> row option" where
  "aggregate_daily parse today day d = (case normalize_device_events parse (of_day day d) of
     None \<Rightarrow> None
   | Some es \<Rightarrow>
      (let r = day_reported es; note = get_daily_note today day d;
           sections = [(''devices'', map (device_item \<circ> snd) (dr_devices r)), (''vpn'', dr_vpn r), (''network'', dr_network r), (''ddns'', dr_ddns r)] in
       Some [(''date'', JStr day), (''summary'', JObj (summary_row r note (length es))),
         (''sections'', JObj (map (\<lambda>(k, xs). (k, JList (map JObj xs))) (filter (\<lambda>(k, xs). xs \<noteq> []) sections))), (''note'', JStr note)]))"

text \<open>An event with an identifier that is no number makes the handlers raise where they reach it.\<close>

definition api_delete_event :: "string \<Rightarrow> int \<Rightarrow> docs \<Rightarrow> (bool \<times> docs) option" where
  "api_delete_event now i d =
    (let events = dict_rows (load_json d ''events.json'' (JList [])); passed = takeWhile (\<lambda>e. event_id e \<noteq> Some i) events in
     if list_ex (\<lambda>e. event_id e = None) passed then None
     else Some (case dropWhile (\<lambda>e. event_id e \<noteq> Some i) events of
       [] \<Rightarrow> (False, save_json d ''events.json'' (JList (map JObj events)))
     | e # later \<Rightarrow> (True, save_json d ''events.json'' (JList (map JObj
         (passed @ dset ''deletedAt'' (JStr now) (dset ''deleted'' (JBool True) e) # later))))))"

definition api_events :: "int \<Rightarrow> docs \<Rightarrow> row list option" where
  "api_events after_id d = (let events = dict_rows (load_json d ''events.json'' (JList [])) in
     if list_ex (\<lambda>e. event_id e = None) events then None
     else Some (filter (\<lambda>e. after_id < the (event_id e) \<and> \<not> truthy (dget e ''deleted'')) events))"

end
