(* ===== verification/DailyRuns.thy ===== *)
theory DailyRuns
  imports Daily
begin

text \<open>
  The daily report: what becomes of the text of a duration, the alternation of the events of a device, the
  sums of the report, and the bound of the online time.
\<close>

section \<open>Numbers in texts\<close>

definition numeral_for :: "string \<Rightarrow> nat \<Rightarrow> bool" where
  "numeral_for d n = (d \<noteq> [] \<and> list_all is_dec d \<and> dec_value d = n)"

definition word_start :: "string \<Rightarrow> bool" where
  "word_start r = (r = [] \<or> \<not> is_dec (hd r))"

lemma numeral_nat_str [simp]: "numeral_for (nat_str n) n"
  by (simp add: numeral_for_def nat_str_dec)

lemma numeral_two_digits [simp]: "numeral_for (two_digits n) n"
proof (cases "n < 10")
  case True
  then show ?thesis
    by (simp add: numeral_for_def two_digits_def nat_str.simps [of n] dec_value_def) (simp add: is_dec_def code_def)
qed (simp add: two_digits_def)

lemma numeral_split: "numeral_for d n \<Longrightarrow> word_start r \<Longrightarrow> takeWhile is_dec (d @ r) = d \<and> dropWhile is_dec (d @ r) = r"
proof -
  assume d: "numeral_for d n" and r: "word_start r"
  have "takeWhile is_dec r = [] \<and> dropWhile is_dec r = r" using r by (cases r) (auto simp: word_start_def)
  then show ?thesis using d by (auto simp: numeral_for_def list_all_iff takeWhile_append2 dropWhile_append2)
qed

lemma leading_numeral: "numeral_for d n \<Longrightarrow> word_start r \<Longrightarrow> leading_number (d @ r) = Some (n, r)"
  using numeral_split [of d n r] by (simp add: leading_number_def Let_def numeral_for_def)

lemma number_hit: "numeral_for d n \<Longrightarrow> word_start r \<Longrightarrow> startswith r w \<Longrightarrow> number_before w (d @ r) = Some n"
  and number_miss: "numeral_for d n \<Longrightarrow> word_start r \<Longrightarrow> \<not> startswith r w \<Longrightarrow> number_before w (d @ r) = number_before w r"
proof -
  assume d: "numeral_for d n" and r: "word_start r"
  obtain c e where c: "d = c # e" "is_dec c" using d by (cases d) (auto simp: numeral_for_def)
  have "takeWhile is_dec (e @ r) = e \<and> dropWhile is_dec (e @ r) = r"
    using numeral_split [OF d r] c by simp
  then show "startswith r w \<Longrightarrow> number_before w (d @ r) = Some n" "\<not> startswith r w \<Longrightarrow> number_before w (d @ r) = number_before w r"
    using c d by (simp_all add: numeral_for_def)
qed

lemma number_skip: "\<not> is_dec c \<Longrightarrow> number_before w (c # r) = number_before w r"
  by simp

definition cj :: "nat \<Rightarrow> char" where "cj n = char_of (128 + n)"

lemma cj_simps [simp]: "n < 128 \<Longrightarrow> \<not> is_dec (cj n)" "n < 5 \<Longrightarrow> \<not> is_space (cj n)"
    "m < 128 \<Longrightarrow> n < 128 \<Longrightarrow> (cj m = cj n) = (m = n)"
  by (auto simp: cj_def is_dec_def is_space_def Let_def code_eq_iff)

lemma words_cj: "HOUR = [cj 0, cj 1]" "HOUR_SHORT = [cj 1]" "MINUTE = [cj 2]" "SECOND = [cj 3]"
  by (simp_all add: HOUR_def HOUR_SHORT_def MINUTE_def SECOND_def cjk_def cj_def)

lemma replace_one: "replace_all [c] new s = concat (map (\<lambda>x. if x = c then new else [x]) s)"
  by (induction s) (auto simp: startswith_def)

lemma replace_numeral: "numeral_for d n \<Longrightarrow> concat (map (\<lambda>x. if x = cj 1 then new else [x]) d) = d"
proof -
  assume "numeral_for d n"
  then have "list_all is_dec d" by (simp add: numeral_for_def)
  then show ?thesis by (induction d) auto
qed

lemma dec_numeral: "numeral_for d n \<Longrightarrow> \<exists>c e. d = c # e \<and> is_dec c"
  by (cases d) (auto simp: numeral_for_def)

lemma strip_duration: "numeral_for d n \<Longrightarrow> k < 5 \<Longrightarrow> strip (d @ r @ [cj k]) = d @ r @ [cj k]"
  using dec_numeral [of d n] unfolding strip_def by (intro strip_of_no) (auto dest: dec_not_py_space)

lemma duration_no_text: "numeral_for d n \<Longrightarrow> \<not> no_text (d @ r @ [cj k])"
proof -
  assume "numeral_for d n"
  then obtain c e where "d = c # e" "is_dec c" using dec_numeral by blast
  then show ?thesis by (auto simp: no_text_def is_dec_def code_def)
qed


lemma word_start_cj [simp]: "n < 128 \<Longrightarrow> word_start (cj n # r)" "word_start []"
  by (simp_all add: word_start_def)

lemma startswith_simps [simp]: "startswith s []" "startswith (c # s) (d # w) \<longleftrightarrow> c = d \<and> startswith s w" "\<not> startswith [] (d # w)"
  by (auto simp: startswith_def)

lemma number_before_numeral:
  "numeral_for d n \<Longrightarrow> k < 128 \<Longrightarrow> number_before w (d @ cj k # r) = (if startswith (cj k # r) w then Some n else number_before w r)"
  using number_hit [of d n "cj k # r" w] number_miss [of d n "cj k # r" w] by simp

lemma seconds_of_text:
  assumes "numeral_for a m" and "numeral_for b n"
  shows "duration_text_to_seconds (b @ [cj 3]) = n"
    and "duration_text_to_seconds (a @ cj 2 # b @ [cj 3]) = m * 60 + n"
    and "numeral_for c h \<Longrightarrow> duration_text_to_seconds (c @ [cj 0, cj 0, cj 1] @ a @ cj 2 # b @ [cj 3]) = m * 60 + n"
proof -
  note num = replace_numeral [OF assms(1)] replace_numeral [OF assms(2)] number_before_numeral [OF assms(1)] number_before_numeral [OF assms(2)]
    number_skip
  note strips = strip_duration [OF assms(2), of 3 "[]"] duration_no_text [OF assms(2), of "[]" 3] strip_duration [OF assms(1), of 3 "cj 2 # b"]
    duration_no_text [OF assms(1), of "cj 2 # b" 3]
  show "duration_text_to_seconds (b @ [cj 3]) = n"
    using strips(1,2) num by (simp add: duration_text_to_seconds_def Let_def words_cj replace_one del: number_before.simps(2) One_nat_def)
  show "duration_text_to_seconds (a @ cj 2 # b @ [cj 3]) = m * 60 + n"
    using strips(3,4) num by (simp add: duration_text_to_seconds_def Let_def words_cj replace_one del: number_before.simps(2) One_nat_def)
  assume c: "numeral_for c h"
  show "duration_text_to_seconds (c @ [cj 0, cj 0, cj 1] @ a @ cj 2 # b @ [cj 3]) = m * 60 + n"
    using strip_duration [OF c, of 3 "[cj 0, cj 0, cj 1] @ a @ cj 2 # b"]
      duration_no_text [OF c, of "[cj 0, cj 0] @ HOUR @ a @ cj 2 # b" 3] num replace_numeral [OF c] number_before_numeral [OF c]
    by (simp add: duration_text_to_seconds_def Let_def words_cj replace_one del: number_before.simps(2) One_nat_def)
qed

lemma pretty_text:
  assumes "numeral_for a m" and "numeral_for b n"
  shows "pretty_duration_text (b @ [cj 3]) = b @ [cj 3]"
    and "m < 60 \<Longrightarrow> 0 < m \<Longrightarrow> pretty_duration_text (a @ cj 2 # b @ [cj 3]) = nat_str m @ cj 2 # nat_str n @ [cj 3]"
    and "numeral_for c h \<Longrightarrow> pretty_duration_text (c @ [cj 0, cj 1] @ a @ cj 2 # b @ [cj 3]) = c @ [cj 0, cj 0, cj 1] @ a @ cj 2 # b @ [cj 3]"
proof -
  note lead = leading_numeral [OF assms(1)] leading_numeral [OF assms(2)]
  note num = replace_numeral [OF assms(1)] replace_numeral [OF assms(2)]
  note strips = strip_duration [OF assms(2), of 3 "[]"] duration_no_text [OF assms(2), of "[]" 3] strip_duration [OF assms(1), of 3 "cj 2 # b"]
    duration_no_text [OF assms(1), of "cj 2 # b" 3]
  show "pretty_duration_text (b @ [cj 3]) = b @ [cj 3]"
    using strips(1,2) num lead by (simp add: pretty_duration_text_def minutes_seconds_def minutes_only_def Let_def words_cj replace_one del: One_nat_def)
  show "m < 60 \<Longrightarrow> 0 < m \<Longrightarrow> pretty_duration_text (a @ cj 2 # b @ [cj 3]) = nat_str m @ cj 2 # nat_str n @ [cj 3]"
    using strips(3,4) num lead by (simp add: pretty_duration_text_def minutes_seconds_def minutes_only_def Let_def words_cj replace_one del: One_nat_def)
  assume c: "numeral_for c h"
  show "pretty_duration_text (c @ [cj 0, cj 1] @ a @ cj 2 # b @ [cj 3]) = c @ [cj 0, cj 0, cj 1] @ a @ cj 2 # b @ [cj 3]"
    using strip_duration [OF c, of 3 "[cj 0, cj 1] @ a @ cj 2 # b"] duration_no_text [OF c, of "[cj 0, cj 1] @ a @ cj 2 # b" 3]
      num replace_numeral [OF c] leading_numeral [OF c]
    by (simp add: pretty_duration_text_def minutes_seconds_def minutes_only_def Let_def words_cj replace_one del: One_nat_def)
qed

lemma to_int_of_JInt [simp]: "to_int (JInt i) d = i"
  by (simp add: to_int_def)

section \<open>The alternation of events\<close>

definition is_device :: "row \<Rightarrow> bool" where
  "is_device e = (event_type e \<in> {''device_online'', ''device_offline''})"

definition about :: "string \<Rightarrow> row \<Rightarrow> bool" where
  "about key e = (is_device e \<and> event_device_key e = key)"

fun alternates :: "string list \<Rightarrow> bool" where
  "alternates (a # b # r) = (a \<noteq> b \<and> alternates (b # r))"
| "alternates _ = True"

lemma alternates_snoc: "alternates (xs @ [a]) \<longleftrightarrow> alternates xs \<and> (xs = [] \<or> last xs \<noteq> a)"
  by (induction xs rule: alternates.induct) auto

definition day_word :: "string \<Rightarrow> string" where
  "day_word ty = (if ty = ''device_online'' then ''online'' else ''offline'')"

definition day_inv :: "day_state \<Rightarrow> bool" where
  "day_inv s = (\<forall>key. key \<noteq> [] \<longrightarrow> (let ts = map event_type (filter (about key) (kept_events s)) in
     alternates ts \<and> map_of (last_state s) key = (if ts = [] then None else Some (day_word (last ts)))))"

lemma event_fields_duration [simp]:
  "event_type (dset ''onlineDurationText'' v e) = event_type e" "event_device_key (dset ''onlineDurationText'' v e) = event_device_key e"
  by (simp_all add: event_type_def event_device_key_def dget_or_def)

lemma keep_other: "day_inv s \<Longrightarrow> \<not> is_device e \<or> event_device_key e = [] \<Longrightarrow> day_inv (keep_event e s)"
  by (auto simp: day_inv_def keep_event_def about_def Let_def)

lemma keep_device:
  assumes inv: "day_inv s" and e: "about key e" "key \<noteq> []"
    and t: "kept_events t = kept_events s" "last_state t = dset key (day_word (event_type e)) (last_state s)"
    and "map_of (last_state s) key \<noteq> Some (day_word (event_type e))"
  shows "day_inv (keep_event e t)"
  unfolding day_inv_def Let_def
proof (intro allI impI)
  fix k :: string assume k: "k \<noteq> []"
  let ?ts = "map event_type (filter (about k) (kept_events s))"
  have old: "alternates ?ts" "map_of (last_state s) k = (if ?ts = [] then None else Some (day_word (last ?ts)))"
    using inv k by (simp_all add: day_inv_def Let_def)
  show "alternates (map event_type (filter (about k) (kept_events (keep_event e t))))
    \<and> map_of (last_state (keep_event e t)) k = (if map event_type (filter (about k) (kept_events (keep_event e t))) = [] then None
        else Some (day_word (last (map event_type (filter (about k) (kept_events (keep_event e t)))))))"
  proof (cases "k = key")
    case True
    then have "?ts = [] \<or> last ?ts \<noteq> event_type e" using old(2) assms(6) by (auto split: if_splits)
    then show ?thesis using True e old(1) t by (simp add: keep_event_def alternates_snoc del: map_append filter_append) (simp add: alternates_snoc)
  next
    case False
    then have "\<not> about k e" using e by (auto simp: about_def)
    then show ?thesis using False old t by (simp add: keep_event_def)
  qed
qed

lemma day_event_inv: "day_inv s \<Longrightarrow> day_inv (day_event ae s)"
proof -
  assume inv: "day_inv s"
  obtain at e where ae: "ae = (at, e)" by (cases ae)
  show ?thesis
  proof (cases "is_device e \<and> event_device_key e \<noteq> []")
    case False
    then show ?thesis using keep_other [OF inv, of e] ae by (auto simp: day_event_def is_device_def Let_def)
  next
    case True
    then have ab: "about (event_device_key e) e" by (simp add: about_def)
    show ?thesis
    proof (cases "event_type e = ''device_online''")
      case on: True
      then show ?thesis using True ae inv
        by (auto simp: day_event_def online_event_def Let_def day_word_def intro!: keep_device [OF inv ab])
    next
      case False
      then have off: "event_type e = ''device_offline''" using True by (simp add: is_device_def)
      have ab': "about (event_device_key e) (dset ''onlineDurationText'' v e)" for v using ab by (simp add: about_def is_device_def)
      show ?thesis using True ae inv off
        by (auto simp: day_event_def offline_event_def Let_def day_word_def intro!: keep_device [OF inv ab] keep_device [OF inv ab'])
    qed
  qed
qed

lemma day_inv_run: "day_inv s \<Longrightarrow> day_inv (fold day_event aes s)"
  by (induction aes arbitrary: s) (auto intro: day_event_inv)

lemma day_inv_empty: "day_inv empty_day"
  by (simp add: day_inv_def empty_day_def Let_def)


lemma kept_alternate:
  assumes "normalize_device_events parse es = Some ks" and "key \<noteq> []"
  shows "alternates (map event_type (filter (about key) ks))"
proof -
  have ks: "ks = kept_events (fold day_event (ordered_events parse es) empty_day)"
    using assms(1) by (simp add: normalize_device_events_def split: if_splits)
  show ?thesis using day_inv_run [OF day_inv_empty] assms(2) unfolding ks by (simp add: day_inv_def Let_def)
qed

section \<open>The sums of the report\<close>

abbreviation device_sum :: "(device_day \<Rightarrow> nat) \<Rightarrow> (string \<times> device_day) list \<Rightarrow> nat" where
  "device_sum f d \<equiv> sum_list (map (f \<circ> snd) d)"

lemma device_sum_new: "map_of d k = None \<Longrightarrow> device_sum f (dset k x d) = device_sum f d + f x"
  by (induction d) (auto split: if_splits)

lemma device_sum_old: "map_of d k = Some y \<Longrightarrow> device_sum f (dset k x d) + f y = device_sum f d + f x"
  by (induction d) (auto split: if_splits)

definition listed :: "day_report \<Rightarrow> nat" where
  "listed r = dr_online r + dr_offline r + length (dr_vpn r) + length (dr_network r) + length (dr_ddns r)"

definition adds_up :: "day_report \<Rightarrow> bool" where
  "adds_up r = (device_sum dd_online (dr_devices r) = dr_online r \<and> device_sum dd_offline (dr_devices r) = dr_offline r)"

lemma device_day_counts [simp]:
  "dd_online (device_day_event e d) = dd_online d + (if event_type e = ''device_online'' then 1 else 0)"
  "dd_offline (device_day_event e d) = dd_offline d + (if event_type e = ''device_offline'' then 1 else 0)"
  "dd_online (new_device_day e) = 0" "dd_offline (new_device_day e) = 0"
  by (simp_all add: device_day_event_def new_device_day_def Let_def)

lemma report_event_sum: "adds_up r \<Longrightarrow> adds_up (report_event e r) \<and> listed (report_event e r) \<le> Suc (listed r)"
proof (cases "startswith (event_type e) ''device_''")
  case True
  assume up: "adds_up r"
  let ?key = "nonempty (event_device_key e) (event_name e)"
  have listed: "listed (report_event e r) \<le> Suc (listed r)" using True by (simp add: report_event_def listed_def Let_def)
  show ?thesis
  proof (cases "map_of (dr_devices r) ?key")
    case None
    show ?thesis using True None up listed device_sum_new [OF None]
      by (simp add: report_event_def adds_up_def Let_def)
  next
    case (Some d)
    show ?thesis
      using True Some up listed device_sum_old [OF Some, of dd_online "device_day_event e d"] device_sum_old [OF Some, of dd_offline "device_day_event e d"]
      by (simp add: report_event_def adds_up_def Let_def)
  qed
qed (simp add: report_event_def adds_up_def listed_def Let_def)

lemma report_sum: "adds_up r \<Longrightarrow> adds_up (fold report_event es r) \<and> listed (fold report_event es r) \<le> listed r + length es"
proof (induction es arbitrary: r)
  case (Cons e es)
  then show ?case using report_event_sum [of r e] Cons.IH [of "report_event e r"] by fastforce
qed simp

text \<open>What the report counts for a device.\<close>

definition counted :: "string \<Rightarrow> row list \<Rightarrow> nat" where
  "counted ty es = length (filter (\<lambda>e. event_type e = ty) es)"

lemma device_prefix: "is_device e \<Longrightarrow> startswith (event_type e) ''device_''"
  by (auto simp: is_device_def)

definition tally :: "(device_day \<Rightarrow> nat) \<Rightarrow> day_report \<Rightarrow> string \<Rightarrow> nat" where
  "tally f r key = (case map_of (dr_devices r) key of None \<Rightarrow> 0 | Some d \<Rightarrow> f d)"

lemma report_event_tally:
  assumes "event_device_key e \<noteq> []"
  shows "tally dd_online (report_event e r) key = tally dd_online r key + counted ''device_online'' (filter (about key) [e])"
    and "tally dd_offline (report_event e r) key = tally dd_offline r key + counted ''device_offline'' (filter (about key) [e])"
proof -
  have key: "nonempty (event_device_key e) (event_name e) = event_device_key e" using assms by (simp add: nonempty_def)
  have "tally dd_online (report_event e r) key = tally dd_online r key + counted ''device_online'' (filter (about key) [e])
      \<and> tally dd_offline (report_event e r) key = tally dd_offline r key + counted ''device_offline'' (filter (about key) [e])"
  proof (cases "startswith (event_type e) ''device_''")
    case True
    show ?thesis
    proof (cases "event_device_key e = key")
      case same: True
      show ?thesis using True same key
        by (simp add: report_event_def Let_def about_def is_device_def counted_def tally_def split: option.splits)
    next
      case False
      then show ?thesis using True key by (simp add: report_event_def Let_def about_def counted_def tally_def)
    qed
  next
    case False
    then have "\<not> about key e" using device_prefix by (auto simp: about_def)
    then show ?thesis using False by (simp add: report_event_def Let_def counted_def tally_def)
  qed
  then show "tally dd_online (report_event e r) key = tally dd_online r key + counted ''device_online'' (filter (about key) [e])"
    "tally dd_offline (report_event e r) key = tally dd_offline r key + counted ''device_offline'' (filter (about key) [e])" by simp_all
qed

lemma report_tally:
  "list_all (\<lambda>e. event_device_key e \<noteq> []) es \<Longrightarrow>
     tally dd_online (fold report_event es r) key = tally dd_online r key + counted ''device_online'' (filter (about key) es)
     \<and> tally dd_offline (fold report_event es r) key = tally dd_offline r key + counted ''device_offline'' (filter (about key) es)"
proof (induction es arbitrary: r)
  case (Cons e es)
  have "counted ty (filter (about key) (e # es)) = counted ty (filter (about key) [e]) + counted ty (filter (about key) es)" for ty
    by (simp add: counted_def)
  moreover have "event_device_key e \<noteq> []" "list_all (\<lambda>e. event_device_key e \<noteq> []) es" using Cons.prems by simp_all
  ultimately show ?case
    using Cons.IH [of "report_event e r"] report_event_tally [of e r key] by (simp only: fold_simps(2) comp_apply fold_Cons) simp
qed (simp add: counted_def)

lemma alternating_balance:
  "alternates ts \<Longrightarrow> set ts \<subseteq> {a, b} \<Longrightarrow> a \<noteq> b \<Longrightarrow>
     length (filter ((=) a) ts) \<le> length (filter ((=) b) ts) + (if ts \<noteq> [] \<and> hd ts = a then 1 else 0)
     \<and> length (filter ((=) b) ts) \<le> length (filter ((=) a) ts) + (if ts \<noteq> [] \<and> hd ts = b then 1 else 0)"
  by (induction ts rule: alternates.induct) auto


lemma kept_from:
  "e \<in> set (kept_events (fold day_event aes s)) \<Longrightarrow>
     e \<in> set (kept_events s) \<or> (\<exists>e0 \<in> set (map snd aes). e = e0 \<or> (\<exists>v. e = dset ''onlineDurationText'' v e0))"
proof (induction aes arbitrary: s)
  case (Cons ae aes)
  obtain at e0 where ae: "ae = (at, e0)" by (cases ae)
  have "kept_events (day_event ae s) = kept_events s \<or> (\<exists>v. kept_events (day_event ae s) = kept_events s @ [e0]
      \<or> kept_events (day_event ae s) = kept_events s @ [dset ''onlineDurationText'' v e0])"
    unfolding ae by (auto simp: day_event_def online_event_def offline_event_def keep_event_def Let_def)
  then show ?case using Cons.IH [of "day_event ae s"] Cons.prems ae by fastforce
qed simp

lemma normalized_from:
  assumes "normalize_device_events parse es = Some ks" and "e \<in> set ks"
  shows "\<exists>e0 \<in> set es. e = e0 \<or> (\<exists>v. e = dset ''onlineDurationText'' v e0)"
proof -
  have ks: "ks = kept_events (fold day_event (ordered_events parse es) empty_day)"
    using assms(1) by (simp add: normalize_device_events_def split: if_splits)
  have "snd ` set (ordered_events parse es) = set es" by (force simp: ordered_events_def)
  then show ?thesis using kept_from [of e "ordered_events parse es" empty_day] assms(2) unfolding ks by (auto simp: empty_day_def)
qed

lemma balanced_counts:
  assumes "alternates (map event_type (filter (about key) ks))"
  shows "counted ''device_online'' (filter (about key) ks) \<le> counted ''device_offline'' (filter (about key) ks) + 1
    \<and> counted ''device_offline'' (filter (about key) ks) \<le> counted ''device_online'' (filter (about key) ks) + 1"
proof -
  let ?ts = "map event_type (filter (about key) ks)"
  have "set ?ts \<subseteq> {''device_online'', ''device_offline''}" by (auto simp: about_def is_device_def)
  note balance = alternating_balance [OF assms this]
  have "length (filter ((=) ty) ?ts) = counted ty (filter (about key) ks)" for ty
    by (simp add: counted_def filter_map comp_def eq_commute)
  then show ?thesis using balance by (simp split: if_splits)
qed

section \<open>The online time\<close>

lemma fold_entries:
  "dict_ok present \<Longrightarrow>
   map_of (fold (\<lambda>(mac, dev) es. dset mac (JObj (f (items (dget es mac)) dev)) es) present es) k =
     (case map_of present k of Some dev \<Rightarrow> Some (JObj (f (items (dget es k)) dev)) | None \<Rightarrow> map_of es k)"
proof (induction present arbitrary: es)
  case (Cons p present)
  obtain mac dev where p: "p = (mac, dev)" by (cases p)
  let ?es = "dset mac (JObj (f (items (dget es mac)) dev)) es"
  have "map_of present mac = None" using Cons.prems p by (auto simp: map_of_eq_None_iff)
  then show ?case using Cons.IH [of ?es] Cons.prems p by (auto split: option.splits)
qed simp

lemma by_mac_ok: "dict_ok (by_mac devices)"
  by (simp add: by_mac_def)

lemma close_absent_map: "map_of (close_absent now macs es) k =
    (case map_of es k of None \<Rightarrow> None | Some v \<Rightarrow> Some (if is_dict v \<and> k \<in> set macs then v else absent_entry now v))"
  by (induction es) (auto simp: close_absent_def)

definition entry_at :: "int \<Rightarrow> moment \<Rightarrow> json \<Rightarrow> bool" where
  "entry_at mid now v = (is_dict v \<and> to_int (dget (items v) ''seconds'') 0 \<le> mo_local now - mid
     \<and> to_int (dget (items v) ''lastSampleEpoch'') 0 = mo_epoch now)"

definition entries_at :: "int \<Rightarrow> moment \<Rightarrow> row \<Rightarrow> bool" where
  "entries_at mid now es = (\<forall>k v. map_of es k = Some v \<longrightarrow> entry_at mid now v)"

lemma to_int_JNull [simp]: "to_int JNull 0 = 0"
  by code_simp

lemma seed_bound: "midnight now \<le> mo_local now \<Longrightarrow> today_online_seconds_from_item item now \<le> mo_local now - midnight now"
  by (auto simp: today_online_seconds_from_item_def Let_def split: option.splits)

text \<open>The next sample of the day, \<open>off\<close> being the distance of the epoch from local time.\<close>

lemma sampled_at:
  assumes mid: "midnight now = mid" "mid \<le> mo_local was" "mo_local was \<le> mo_local now" "mo_epoch was = mo_local was + off" "mo_epoch now = mo_local now + off"
    and es: "entries_at mid was es"
  shows "entries_at mid now (sample_entries now devices es)"
  unfolding entries_at_def
proof (intro allI impI)
  fix k v assume v: "map_of (sample_entries now devices es) k = Some v"
  let ?closed = "close_absent now (map fst (by_mac devices)) es"
  have sample: "map_of (sample_entries now devices es) k =
      (case map_of (by_mac devices) k of Some dev \<Rightarrow> Some (JObj (sampled_entry now (items (dget ?closed k)) dev)) | None \<Rightarrow> map_of ?closed k)"
    unfolding sample_entries_def Let_def by (rule fold_entries [OF by_mac_ok])
  have absent: "entry_at mid now (absent_entry now w)" if "entry_at mid was w" for w
    using that mid by (cases w) (auto simp: entry_at_def absent_entry_def)
  show "entry_at mid now v"
  proof (cases "map_of (by_mac devices) k")
    case None
    then have k: "k \<notin> set (map fst (by_mac devices))" by (simp add: map_of_eq_None_iff)
    obtain w where "map_of es k = Some w" "v = absent_entry now w"
      using v sample None k by (auto simp: close_absent_map split: option.splits)
    then show ?thesis using es absent by (simp add: entries_at_def)
  next
    case (Some dev)
    then have k: "k \<in> set (map fst (by_mac devices))" by (metis map_of_eq_None_iff option.distinct(1) list.set_map)
    let ?e = "items (dget ?closed k)"
    have e: "to_int (dget ?e ''seconds'') 0 \<le> mo_local was - mid \<and> (to_int (dget ?e ''lastSampleEpoch'') 0 = mo_epoch was \<or> \<not> truthy (dget ?e ''online''))"
    proof (cases "map_of es k")
      case None
      then have "?e = []" by (simp add: close_absent_map dget_def dget_or_def)
      then show ?thesis using mid(2) by simp
    next
      case Some': (Some w)
      then have w: "entry_at mid was w" using es by (simp add: entries_at_def)
      then have "dget ?closed k = w" using Some' k by (simp add: close_absent_map dget_def dget_or_def entry_at_def)
      then show ?thesis using w by (simp add: entry_at_def)
    qed
    have "online_seconds now ?e dev \<le> mo_local now - mid"
      using e mid seed_bound [of now] by (auto simp: online_seconds_def Let_def min_def max_def)
    moreover have "v = JObj (sampled_entry now ?e dev)" using v sample Some by simp
    ultimately show ?thesis by (simp add: entry_at_def sampled_entry_def Let_def)
  qed
qed

lemma sample_saved:
  "daily_base now (snd (update_daily_online now devices d)) =
     dset ''updatedAt'' (JStr (mo_text now)) (dset ''devices'' (JObj (sample_entries now devices (items (dget (daily_base now d) ''devices''))))
       (dset ''date'' (JStr (mo_day now)) (daily_base now d)))"
  by (simp add: update_daily_online_def daily_base_def [of now "save_json _ _ _"] Let_def dget_def dget_or_def)

lemma daily_base_same: "mo_day was = mo_day now \<Longrightarrow> dget (items (load_json d DAILY_ONLINE (JObj []))) ''date'' = JStr (mo_day was)
    \<Longrightarrow> is_dict (load_json d DAILY_ONLINE (JObj [])) \<Longrightarrow> daily_base now d = daily_base was d"
  by (simp add: daily_base_def Let_def)

definition stored_entries :: "moment \<Rightarrow> docs \<Rightarrow> row" where
  "stored_entries now d = items (dget (daily_base now d) ''devices'')"

lemma stored_sample: "stored_entries now (snd (update_daily_online now devices d)) = sample_entries now devices (stored_entries now d)"
  unfolding stored_entries_def sample_saved by (simp add: dget_def dget_or_def)

lemma stored_same_day: "mo_day now = mo_day was \<Longrightarrow> stored_entries now (snd (update_daily_online was devices d)) = stored_entries was (snd (update_daily_online was devices d))"
  by (simp add: stored_entries_def daily_base_def update_daily_online_def Let_def dget_def dget_or_def)

definition take_samples :: "(moment \<times> row list) list \<Rightarrow> docs \<Rightarrow> docs" where
  "take_samples ms d = fold (\<lambda>(now, devices) d. snd (update_daily_online now devices d)) ms d"

text \<open>The moments of one day, in order, by a clock whose distance from local time is fixed.\<close>

definition one_day :: "moment \<Rightarrow> moment \<Rightarrow> bool" where
  "one_day was now = (mo_day now = mo_day was \<and> midnight now = midnight was \<and> mo_local was \<le> mo_local now
     \<and> mo_epoch now - mo_local now = mo_epoch was - mo_local was)"

lemma midnight_le [simp]: "midnight now \<le> mo_local now"
  by (simp add: midnight_def minus_mod_eq_div_mult [symmetric])

lemma samples_bounded:
  "sorted_wrt one_day (map fst (x # ms)) \<Longrightarrow> entries_at (midnight (fst x)) (fst x) (stored_entries (fst x) d) \<Longrightarrow>
     (\<forall>m \<in> set (map fst (x # ms)). stored_entries m d = stored_entries (fst x) d) \<Longrightarrow> last (fst x # map fst ms) = now \<Longrightarrow>
     entries_at (midnight now) now (stored_entries now (take_samples ms d))"
proof (induction ms arbitrary: x d)
  case (Cons y ms)
  obtain was a where x: "x = (was, a)" by (cases x)
  obtain m devs where y: "y = (m, devs)" by (cases y)
  let ?d = "snd (update_daily_online m devs d)"
  have next_day: "one_day was m" using Cons.prems(1) x y by simp
  have "entries_at (midnight was) m (sample_entries m devs (stored_entries was d))"
    by (rule sampled_at [of m "midnight was" was "mo_epoch was - mo_local was"])
      (use next_day Cons.prems(2) x in \<open>simp_all add: one_day_def\<close>)
  moreover have "stored_entries m d = stored_entries was d" using Cons.prems(3) x y by simp
  ultimately have m: "entries_at (midnight m) m (stored_entries m ?d)" using next_day by (simp add: stored_sample one_day_def)
  have "stored_entries n ?d = stored_entries m ?d" if "n \<in> set (map fst (y # ms))" for n
  proof -
    have "n = m \<or> one_day m n" using that Cons.prems(1) y by auto
    then have "mo_day n = mo_day m" by (auto simp: one_day_def)
    then show ?thesis by (rule stored_same_day)
  qed
  then have same: "\<forall>n \<in> set (map fst (y # ms)). stored_entries n ?d = stored_entries (fst y) ?d" unfolding y fst_conv by blast
  have "sorted_wrt one_day (map fst (y # ms))" "last (fst y # map fst ms) = now" using Cons.prems(1,4) by simp_all
  moreover have "entries_at (midnight (fst y)) (fst y) (stored_entries (fst y) ?d)" using m y by simp
  ultimately have "entries_at (midnight now) now (stored_entries now (take_samples ms ?d))"
    using Cons.IH [of y ?d] same by blast
  then show ?case using y by (simp add: take_samples_def)
next
  case Nil
  show ?case using Nil.prems(2,4) by (simp add: take_samples_def)
qed

section \<open>Properties\<close>

text \<open>A duration that the hub writes into an event is not the duration that the daily report reads back:
  the report reads the minutes and the seconds, but the hours of every duration of an hour or more are lost,
  because the replacement of the short word for hour doubles the first character of the long one.\<close>

theorem duration_reads_back:
  assumes "0 < n"
  shows "duration_text_to_seconds (pretty_duration_text (human_duration_precise (JInt (int n)))) = n mod 3600"
proof -
  have nats: "nat (int n div 3600) = n div 3600" "nat (int n mod 3600 div 60) = n mod 3600 div 60" "nat (int n mod 60) = n mod 60"
    by (simp_all add: nat_div_distrib nat_mod_distrib)
  have mins: "n mod 3600 div 60 * 60 + n mod 60 = n mod 3600"
    using div_mult_mod_eq [of "n mod 3600" 60] by (simp add: mod_mod_cancel)
  have pos: "(int n \<le> 0) = False" using assms by simp
  have written: "human_duration_precise (JInt (int n)) =
      (if 0 < n div 3600 then nat_str (n div 3600) @ [cj 0, cj 1] @ two_digits (n mod 3600 div 60) @ cj 2 # two_digits (n mod 60) @ [cj 3]
       else if 0 < n mod 3600 div 60 then nat_str (n mod 3600 div 60) @ cj 2 # two_digits (n mod 60) @ [cj 3] else nat_str (n mod 60) @ [cj 3])"
    unfolding human_duration_precise_def Let_def to_int_of_JInt nats pos if_False words_cj append.simps ..
  note num = numeral_two_digits numeral_nat_str
  consider (hour) "0 < n div 3600" | (minute) "\<not> 0 < n div 3600" "0 < n mod 3600 div 60" | (second) "\<not> 0 < n div 3600" "\<not> 0 < n mod 3600 div 60"
    by blast
  then show ?thesis
  proof cases
    case hour
    show ?thesis unfolding written if_P [OF hour] pretty_text(3) [OF num(1) num(1) num(2)] seconds_of_text(3) [OF num(1) num(1) num(2)] by (rule mins)
  next
    case minute
    have "n mod 3600 div 60 < 60" by (simp add: div_less_iff_less_mult)
    then show ?thesis
      unfolding written if_not_P [OF minute(1)] if_P [OF minute(2)] pretty_text(2) [OF num(2) num(1) _ minute(2)] seconds_of_text(2) [OF num(2) num(2)]
      using pretty_text(2) [OF num(2) num(1) _ minute(2)] seconds_of_text(2) [OF num(2) num(2)] mins by simp
  next
    case second
    have "n mod 60 = n mod 3600" using second(2) mins by linarith
    then show ?thesis
      unfolding written if_not_P [OF second(1)] if_not_P [OF second(2)] pretty_text(1) [OF num(2) num(2)] seconds_of_text(1) [OF num(2) num(2)] .
  qed
qed

theorem duration_reads_back_witness:
  "duration_text_to_seconds (pretty_duration_text (human_duration_precise (JInt 7384))) = 184"
  using duration_reads_back [of 7384] by simp

lemma day_reported_balanced:
  assumes "normalize_device_events parse es = Some ks" and "list_all (\<lambda>e. event_device_key e \<noteq> []) es"
  shows "tally dd_online (day_reported ks) key \<le> tally dd_offline (day_reported ks) key + 1
    \<and> tally dd_offline (day_reported ks) key \<le> tally dd_online (day_reported ks) key + 1
    \<and> adds_up (day_reported ks) \<and> listed (day_reported ks) \<le> length ks"
proof -
  have "list_all (\<lambda>e. event_device_key e \<noteq> []) ks"
    using normalized_from [OF assms(1)] assms(2) by (fastforce simp: list_all_iff)
  note tally = report_tally [OF this, of empty_report key]
  have "tally dd_online (day_reported ks) key \<le> tally dd_offline (day_reported ks) key + 1
    \<and> tally dd_offline (day_reported ks) key \<le> tally dd_online (day_reported ks) key + 1"
  proof (cases "key = []")
    case False
    then show ?thesis
      using tally balanced_counts [OF kept_alternate [OF assms(1)]] by (simp add: day_reported_def tally_def empty_report_def)
  next
    case True
    then have "filter (about key) ks = []"
      using \<open>list_all (\<lambda>e. event_device_key e \<noteq> []) ks\<close> by (auto simp: filter_empty_conv about_def list_all_iff)
    then show ?thesis using tally by (simp add: day_reported_def tally_def empty_report_def counted_def)
  qed
  then show ?thesis using report_sum [of empty_report ks] by (simp add: day_reported_def adds_up_def empty_report_def listed_def)
qed

text \<open>The events that a report counts, the rows of its devices, and a number in a row.\<close>

definition counted_events :: "(string \<Rightarrow> int option) \<Rightarrow> string \<Rightarrow> docs \<Rightarrow> row list" where
  "counted_events parse day d = (case normalize_device_events parse (of_day day d) of None \<Rightarrow> [] | Some ks \<Rightarrow> ks)"

definition shown_devices :: "row \<Rightarrow> row list" where
  "shown_devices report = dict_rows (dget (items (dget report ''sections'')) ''devices'')"

definition count_of :: "string \<Rightarrow> row \<Rightarrow> int" where
  "count_of k r = (case dget r k of JInt i \<Rightarrow> i | _ \<Rightarrow> 0)"

definition summary_of :: "string \<Rightarrow> row \<Rightarrow> int" where
  "summary_of k report = count_of k (items (dget report ''summary''))"

lemma device_item_counts [simp]:
  "count_of ''online'' (device_item x) = int (dd_online x)" "count_of ''offline'' (device_item x) = int (dd_offline x)"
  by (simp_all add: count_of_def device_item_def Let_def dget_def dget_or_def)

lemma device_sums:
  "sum_list (map (count_of ''online'' \<circ> (device_item \<circ> snd)) xs) = int (device_sum dd_online xs)"
  "sum_list (map (count_of ''offline'' \<circ> (device_item \<circ> snd)) xs) = int (device_sum dd_offline xs)"
  by (induction xs) simp_all

lemma report_devices_ok: "dict_ok (dr_devices r) \<Longrightarrow> dict_ok (dr_devices (report_event e r))"
  by (simp add: report_event_def Let_def)

lemma day_reported_ok: "dict_ok (dr_devices (day_reported es))"
proof -
  have "dict_ok (dr_devices r) \<Longrightarrow> dict_ok (dr_devices (fold report_event es r))" for r
    by (induction es arbitrary: r) (simp_all add: report_devices_ok)
  then show ?thesis by (simp add: day_reported_def empty_report_def)
qed

lemma aggregated:
  assumes "aggregate_daily parse today day d = Some report"
  obtains ks where "normalize_device_events parse (of_day day d) = Some ks" and "counted_events parse day d = ks"
    and "shown_devices report = map (device_item \<circ> snd) (dr_devices (day_reported ks))"
    and "items (dget report ''summary'') = summary_row (day_reported ks) (get_daily_note today day d) (length ks)"
proof -
  obtain ks where ks: "normalize_device_events parse (of_day day d) = Some ks"
    using assms by (cases "normalize_device_events parse (of_day day d)") (simp_all add: aggregate_daily_def)
  show thesis
    using assms ks by (intro that [of ks])
      (auto simp: aggregate_daily_def counted_events_def shown_devices_def Let_def dget_def dget_or_def dict_rows_def)
qed

text \<open>C29: In a report of a day, whose events all name their device, the online and offline events of each device that
  are counted alternate, so that the two numbers that are shown for a device differ by at most one; the numbers of the devices add up to
  those of the summary, and no event is counted in two sections.\<close>

theorem daily_report_balanced:
  assumes "aggregate_daily parse today day d = Some report" and "list_all (\<lambda>e. event_device_key e \<noteq> []) (of_day day d)"
  shows "alternates (map event_type (filter (about key) (counted_events parse day d)))
    \<and> list_all (\<lambda>r. \<bar>count_of ''online'' r - count_of ''offline'' r\<bar> \<le> 1) (shown_devices report)
    \<and> sum_list (map (count_of ''online'') (shown_devices report)) = summary_of ''deviceOnline'' report
    \<and> sum_list (map (count_of ''offline'') (shown_devices report)) = summary_of ''deviceOffline'' report
    \<and> summary_of ''deviceChanges'' report + summary_of ''vpnChanges'' report + summary_of ''networkChanges'' report
        + summary_of ''ddnsChanges'' report \<le> summary_of ''eventCount'' report"
proof -
  obtain ks where ks: "normalize_device_events parse (of_day day d) = Some ks" "counted_events parse day d = ks"
    and devices: "shown_devices report = map (device_item \<circ> snd) (dr_devices (day_reported ks))"
    and summary: "items (dget report ''summary'') = summary_row (day_reported ks) (get_daily_note today day d) (length ks)"
    using aggregated [OF assms(1)] by blast
  note balanced = day_reported_balanced [OF ks(1) assms(2)]
  have turns: "alternates (map event_type (filter (about key) ks))"
  proof (cases "key = []")
    case True
    have "list_all (\<lambda>e. event_device_key e \<noteq> []) ks"
      using normalized_from [OF ks(1)] assms(2) by (fastforce simp: list_all_iff)
    then have "filter (about key) ks = []" using True by (auto simp: filter_empty_conv about_def list_all_iff)
    then show ?thesis by simp
  qed (rule kept_alternate [OF ks(1)])
  have "\<bar>int (dd_online x) - int (dd_offline x)\<bar> \<le> 1" if "(k, x) \<in> set (dr_devices (day_reported ks))" for k x
  proof -
    have "map_of (dr_devices (day_reported ks)) k = Some x" using that day_reported_ok by simp
    then have "dd_online x \<le> dd_offline x + 1" "dd_offline x \<le> dd_online x + 1" using balanced [of k] by (simp_all add: tally_def)
    then show ?thesis by linarith
  qed
  then have rows: "list_all (\<lambda>r. \<bar>count_of ''online'' r - count_of ''offline'' r\<bar> \<le> 1) (shown_devices report)"
    unfolding devices by (auto simp: list_all_iff)
  have sums: "sum_list (map (count_of ''online'') (shown_devices report)) = int (device_sum dd_online (dr_devices (day_reported ks)))"
    "sum_list (map (count_of ''offline'') (shown_devices report)) = int (device_sum dd_offline (dr_devices (day_reported ks)))"
    unfolding devices map_map by (simp_all only: device_sums)
  have fields: "summary_of ''deviceOnline'' report = int (dr_online (day_reported ks))" "summary_of ''deviceOffline'' report = int (dr_offline (day_reported ks))"
    "summary_of ''deviceChanges'' report + summary_of ''vpnChanges'' report + summary_of ''networkChanges'' report
        + summary_of ''ddnsChanges'' report = int (listed (day_reported ks))" "summary_of ''eventCount'' report = int (length ks)"
    unfolding summary_of_def summary by (simp_all add: summary_row_def count_of_def listed_def dget_def dget_or_def)
  show ?thesis using turns rows sums fields balanced ks(2) by (simp add: adds_up_def)
qed

definition stamped_move :: "string \<Rightarrow> int \<Rightarrow> row" where
  "stamped_move ty i = [(''type'', JStr ty), (''id'', JInt i), (''mac'', JStr ''aa:bb:cc:dd:ee:01''), (''createdAt'', JStr ''2024-01-01 08:00:00'')]"

definition moved_twice :: docs where
  "moved_twice = (\<lambda>_. None)(''events.json'' \<mapsto> JList [JObj (stamped_move ''device_online'' 1), JObj (stamped_move ''device_online'' 2)])"

theorem daily_report_balanced_witness:
  "(case aggregate_daily (\<lambda>_. None) ''2024-01-01'' ''2024-01-01'' moved_twice of None \<Rightarrow> False
    | Some report \<Rightarrow> sum_list (map (count_of ''online'') (shown_devices report)) = summary_of ''deviceOnline'' report \<and> length (shown_devices report) = 1)"
proof -
  have some: "aggregate_daily (\<lambda>_. None) ''2024-01-01'' ''2024-01-01'' moved_twice \<noteq> None" by code_simp
  then obtain report where r: "aggregate_daily (\<lambda>_. None) ''2024-01-01'' ''2024-01-01'' moved_twice = Some report" by auto
  have "list_all (\<lambda>e. event_device_key e \<noteq> []) (of_day ''2024-01-01'' moved_twice)" by code_simp
  note balanced = daily_report_balanced [OF r this]
  have "length (shown_devices (the (aggregate_daily (\<lambda>_. None) ''2024-01-01'' ''2024-01-01'' moved_twice))) = 1" by code_simp
  then show ?thesis using balanced r by simp
qed

text \<open>C30: However often and with whatever device lists the hub takes its samples of a day, no device gets more
  online seconds than have passed of the day at the last sample, if the document is not one of the same day
  when the samples begin.\<close>

theorem online_time_bounded:
  assumes "sorted_wrt one_day (map fst (ms @ [(now, devices)]))"
    and "dget (items (load_json d DAILY_ONLINE (JObj []))) ''date'' \<noteq> JStr (mo_day now)"
    and "map_of (stored_entries now (take_samples (ms @ [(now, devices)]) d)) mac = Some v"
  shows "to_int (dget (items v) ''seconds'') 0 \<le> mo_local now - midnight now"
proof -
  obtain x ms' where x: "ms @ [(now, devices)] = x # ms'" by (cases ms) auto
  have day: "mo_day m = mo_day now" if "m \<in> set (map fst (x # ms'))" for m
    using that assms(1) unfolding x [symmetric] by (auto simp: sorted_wrt_append one_day_def)
  have old: "daily_base m d = fresh_day m" if "m \<in> set (map fst (x # ms'))" for m
    using assms(2) day [OF that] by (auto simp: daily_base_def Let_def)
  have none: "stored_entries m d = []" if "m \<in> set (map fst (x # ms'))" for m
    using old [OF that] by (simp add: stored_entries_def fresh_day_def dget_def dget_or_def)
  have "entries_at (midnight now) now (stored_entries now (take_samples (x # ms') d))"
  proof (rule samples_bounded [of x])
    show "sorted_wrt one_day (map fst (x # x # ms'))" using assms(1) unfolding x by (auto simp: one_day_def)
    show "entries_at (midnight (fst x)) (fst x) (stored_entries (fst x) d)" using none [of "fst x"] by (simp add: entries_at_def)
    show "\<forall>m \<in> set (map fst (x # x # ms')). stored_entries m d = stored_entries (fst x) d" using none by auto
    have "last (map fst (x # ms')) = now" unfolding x [symmetric] by simp
    then show "last (fst x # map fst (x # ms')) = now" by simp
  qed
  then show ?thesis using assms(3) by (simp add: x entries_at_def entry_at_def)
qed

definition noon :: "int \<Rightarrow> moment" where
  "noon t = \<lparr>mo_local = t, mo_epoch = t - 28800, mo_day = ''2024-01-01'', mo_text = ''t'', mo_parse = (\<lambda>_. None)\<rparr>"

definition wired :: "row list" where "wired = [[(''mac'', JStr ''aa:bb:cc:dd:ee:01'')]]"

theorem online_time_bounded_witness:
  "to_int (dget (items (dget (stored_entries (noon 43500) (take_samples [(noon 43200, wired), (noon 43500, wired)] (\<lambda>_. None)))
      ''aa:bb:cc:dd:ee:01'')) ''seconds'') 0 \<le> mo_local (noon 43500) - midnight (noon 43500)"
proof -
  let ?stored = "stored_entries (noon 43500) (take_samples [(noon 43200, wired), (noon 43500, wired)] (\<lambda>_. None))"
  have "sorted_wrt one_day (map fst [(noon 43200, wired), (noon 43500, wired)])" by code_simp
  moreover have "dget (items (load_json (\<lambda>_. None) DAILY_ONLINE (JObj []))) ''date'' \<noteq> JStr (mo_day (noon 43500))" by code_simp
  moreover have "?stored = sample_entries (noon 43500) wired (sample_entries (noon 43200) wired [])"
  proof -
    have "mo_day (noon 43500) = mo_day (noon 43200)" "stored_entries (noon 43200) (\<lambda>_. None) = []"
      by (simp add: noon_def) code_simp
    then show ?thesis by (simp add: take_samples_def stored_sample stored_same_day)
  qed
  moreover have "map_of (sample_entries (noon 43500) wired (sample_entries (noon 43200) wired [])) ''aa:bb:cc:dd:ee:01'' \<noteq> None"
    by code_simp
  ultimately show ?thesis
    using online_time_bounded [of "[(noon 43200, wired)]" "noon 43500" wired "\<lambda>_. None"
        "''aa:bb:cc:dd:ee:01''" "dget ?stored ''aa:bb:cc:dd:ee:01''"] by (auto simp: dget_def dget_or_def)
qed

end
