(* ===== verification/Relay.thy ===== *)
theory Relay
  imports Portmap AgentUpdate
begin

text \<open>
  What the hub that is installed by \<open>src/hub_entry.py\<close> does with the reports of the router agent: presence and
  runtime revisions (\<open>src/labrelay_sync_patch.py\<close>), the saved rules document
  (\<open>src/portmap_persistence_patch.py\<close>), and the corrections of port-map reports
  (\<open>src/hub0934_fixes.py\<close>). These replace handlers of \<open>Portmap\<close> and \<open>AgentUpdate\<close>. A frame for the connected
  apps is part of the result.
\<close>

section \<open>Presence\<close>

definition number :: "json \<Rightarrow> int" where
  "number v = max 0 (to_int v 0)"

definition router_name :: "env \<Rightarrow> json \<Rightarrow> string" where
  "router_name e v = text_or (text_or (clean_saved_value (JStr (env_router e))) (clean_saved_value v)) ''router''"

definition relay_statuses :: "docs \<Rightarrow> row" where
  "relay_statuses d = items (load_json d ''agent_status.json'' (JObj []))"

definition runtime_document :: "docs \<Rightarrow> row" where
  "runtime_document d = items (load_json d ''portmap_router_status.json'' (JObj []))"

definition presence_word :: "int \<Rightarrow> int \<Rightarrow> string" where
  "presence_word seen age = (if seen \<noteq> 0 \<and> age \<le> 12 then ''online'' else if seen \<noteq> 0 \<and> age \<le> 30 then ''stale'' else ''offline'')"

definition of_router :: "string \<Rightarrow> row \<Rightarrow> bool" where
  "of_router router runtime = (clean_saved_value (dget runtime ''router'') = router)"

definition agent_seen :: "string \<Rightarrow> docs \<Rightarrow> int" where
  "agent_seen router d = (let runtime = runtime_document d in
     max (number (dget (sub_dict (relay_statuses d) router) ''lastSeenEpoch''))
       (if of_router router runtime then number (dget runtime ''receivedEpoch'') else 0))"

definition agent_age :: "int \<Rightarrow> int \<Rightarrow> int" where
  "agent_age now seen = (if seen \<noteq> 0 then max 0 (now - seen) else 0)"

definition agent_state :: "env \<Rightarrow> string \<Rightarrow> docs \<Rightarrow> string" where
  "agent_state e router d = presence_word (agent_seen router d) (agent_age (env_now e) (agent_seen router d))"

definition agent_revision :: "string \<Rightarrow> docs \<Rightarrow> int" where
  "agent_revision router d = (let runtime = runtime_document d in
     max (number (dget (sub_dict (relay_statuses d) router) ''revision''))
       (if of_router router runtime then number (dget runtime ''presenceRevision'') else 0))"

definition presence :: "env \<Rightarrow> json \<Rightarrow> docs \<Rightarrow> row" where
  "presence e named d =
    (let router = router_name e named; heartbeat = sub_dict (relay_statuses d) router; runtime = runtime_document d;
         seen = agent_seen router d; state = agent_state e router d in
     [(''router'', JStr router), (''agentOnline'', JBool (state = ''online'')), (''agentState'', JStr state),
      (''agentLastSeenAt'', JStr (clean_saved_value (por (dget heartbeat ''lastSeenAt'') (dget runtime ''receivedAt'')))),
      (''agentLastSeenEpoch'', JInt seen), (''agentAgeSeconds'', JInt (agent_age (env_now e) seen)),
      (''agentVersion'', JStr (clean_saved_value (dget heartbeat ''version''))),
      (''agentArchitecture'', JStr (clean_saved_value (dget heartbeat ''architecture''))),
      (''agentRevision'', JInt (agent_revision router d)), (''serverTime'', JInt (env_now e))])"

section \<open>Reconciliation\<close>

definition compare_value :: "row \<Rightarrow> string \<Rightarrow> json" where
  "compare_value r k = (if k = ''transportProtocol'' then JStr (upper (clean_saved_value (por (dget r k) (JStr ''TCP'')))) else dget r k)"

definition rule_differs :: "(string \<times> row) list \<Rightarrow> string \<Rightarrow> row \<Rightarrow> bool" where
  "rule_differs locals rid rule = (case map_of locals rid of
     None \<Rightarrow> True | Some l \<Rightarrow> list_ex (\<lambda>k. \<not> py_eq (compare_value l k) (compare_value rule k)) COMPARE_KEYS)"

text \<open>The commands that are queued; the order of a set of rules to delete is that of the report.\<close>

definition relay_commands :: "row \<Rightarrow> docs \<Rightarrow> (string \<times> row) list" where
  "relay_commands payload d =
    (let desired = desired_rules d; locals = local_rules payload in
     map (\<lambda>(rid, rule). (''upsert'', [(''rule'', JObj rule)])) (filter (\<lambda>(rid, rule). rule_differs locals rid rule) desired)
     @ map (\<lambda>(rid, _). (''delete'', [(''id'', JStr rid)])) (filter (\<lambda>(rid, _). map_of desired rid = None) locals))"

definition reconcile_report :: "env \<Rightarrow> row \<Rightarrow> string \<Rightarrow> docs \<Rightarrow> docs" where
  "reconcile_report e payload router d = queue_all e router 1 (relay_commands payload d) d"

section \<open>The rules as the app sees them\<close>

text \<open>The actual state, the state of the synchronisation and the runtime of a rule.\<close>

definition rule_state :: "env \<Rightarrow> string \<Rightarrow> row \<Rightarrow> row \<Rightarrow> string \<times> string \<times> row" where
  "rule_state e agent r local =
    (let wanted = truthy (dget r ''enabled''); state = clean_saved_value (dget local ''state''); error = clean_saved_value (dget local ''lastError'') in
     if (case portmap_epoch (dget r ''expiresAt'') of None \<Rightarrow> False | Some t \<Rightarrow> t \<le> env_now e) \<and> wanted
     then (''expired'', ''synced'', dset ''state'' (JStr ''expired'') local)
     else if state = ''running'' \<and> error = [] then (''running'', ''synced'', dset ''lastError'' (JStr []) local)
     else if state \<in> {''starting'', ''waiting_target'', ''draining''} then (state, ''syncing'', local)
     else if state = ''error'' \<and> error \<noteq> [] then (''error'', ''error'', local)
     else if \<not> wanted then
       (let actual = text_or state ''stopped'' in
        (actual, if actual \<in> {''running'', ''starting'', ''draining''} then ''syncing'' else ''synced'', local))
     else if agent = ''online'' \<or> agent = ''stale'' then (''waiting_agent'', ''syncing'', local)
     else (''waiting_agent'', ''agent_offline'', local))"

definition runtime_of_router :: "string \<Rightarrow> docs \<Rightarrow> (string \<times> row) list \<times> int" where
  "runtime_of_router router d = (let runtime = runtime_document d in
     if of_router router runtime then (portmap_runtime_map runtime, number (dget runtime ''runtimeRevision'')) else ([], 0))"

definition decorated_rule :: "env \<Rightarrow> string \<Rightarrow> docs \<Rightarrow> row \<Rightarrow> row" where
  "decorated_rule e router d r =
    (case runtime_of_router router d of (runtime, n) \<Rightarrow>
      (let local = (case map_of runtime (clean_saved_value (dget r ''id'')) of None \<Rightarrow> [] | Some l \<Rightarrow> l) in
       case rule_state e (agent_state e router d) r local of (actual, sync, local') \<Rightarrow>
         dmerge r [(''desiredState'', JStr (if truthy (dget r ''enabled'') then ''running'' else ''stopped'')),
           (''actualState'', JStr actual), (''syncState'', JStr sync), (''runtime'', JObj local'),
           (''revision'', JInt (max (number (dget r ''revision'')) n))]))"

definition relay_portmaps :: "env \<Rightarrow> bool \<Rightarrow> json \<Rightarrow> docs \<Rightarrow> row option" where
  "relay_portmaps e authorized router_arg d =
    (if \<not> authorized then None
     else let document = items (load_json d ''portmaps.json'' (JObj [])); router = router_name e router_arg;
              n = snd (runtime_of_router router d); rules_revision = number (dget document ''revision'') in
       Some (dmerge [(''ok'', JBool True), (''router'', JStr router),
          (''rules'', JList (map (JObj \<circ> decorated_rule e router d) (dict_rows (dget document ''rules'')))), (''rulesLoaded'', JBool True),
          (''rulesRevision'', JInt rules_revision), (''runtimeRevision'', JInt n),
          (''revision'', JInt (max (max rules_revision n) (agent_revision router d))),
          (''rulesUpdatedAt'', JStr (clean_saved_value (dget document ''updatedAt''))), (''serverTime'', JInt (env_now e)),
          (''portRange'', JObj [(''min'', JInt 20000), (''max'', JInt 20020)])] (presence e (JStr router) d)))"

section \<open>Reports\<close>

definition report_revision :: "env \<Rightarrow> json \<Rightarrow> int" where
  "report_revision e old = max (number old + 1) (env_now e)"

definition heartbeat_row :: "env \<Rightarrow> string \<Rightarrow> int \<Rightarrow> row \<Rightarrow> row \<Rightarrow> row" where
  "heartbeat_row e router n payload old =
     [(''router'', JStr router),
      (''version'', JStr (text_or (text_or (clean_saved_value (dget payload ''version'')) (clean_saved_value (dget old ''version''))) ''unknown'')),
      (''architecture'', JStr (text_or (clean_saved_value (dget payload ''architecture'')) (clean_saved_value (dget old ''architecture'')))),
      (''updateState'', JStr (text_or (clean_saved_value (dget payload ''updateState'')) ''idle'')),
      (''message'', JStr (clean_saved_value (dget payload ''message''))), (''lastSeenAt'', JStr (env_now_str e)),
      (''lastSeenEpoch'', JInt (env_now e)), (''revision'', JInt n)]"

definition finish_update :: "env \<Rightarrow> json \<Rightarrow> row \<Rightarrow> row" where
  "finish_update e version c = dmerge c [(''state'', JStr ''completed''), (''message'', JStr (''updated to '' @ py_str version)),
     (''updatedAt'', JStr (env_now_str e))]"

definition finish_updates :: "env \<Rightarrow> string \<Rightarrow> json \<Rightarrow> docs \<Rightarrow> docs" where
  "finish_updates e router version d =
    (let rows = agent_commands d in
     if list_ex (update_reached router version) rows
     then save_agent_commands (map (\<lambda>v. if update_reached router version v then JObj (finish_update e version (items v)) else v) rows) d
     else d)"

text \<open>The reply with the revision, and the frame that is published.\<close>

definition relay_agent_status :: "env \<Rightarrow> bool \<Rightarrow> row \<Rightarrow> docs \<Rightarrow> (int \<times> row) option \<times> docs" where
  "relay_agent_status e authorized payload d =
    (if \<not> authorized then (None, d)
     else let router = router_name e (dget payload ''router''); old = sub_dict (relay_statuses d) router;
              n = report_revision e (dget old ''revision''); row = heartbeat_row e router n payload old;
              d1 = save_json d ''agent_status.json'' (JObj (dset router (JObj row) (relay_statuses d)));
              d2 = finish_updates e router (dget row ''version'') d1 in
       (Some (n, presence e (JStr router) d2), d2))"

definition runtime_record :: "env \<Rightarrow> string \<Rightarrow> int \<Rightarrow> row \<Rightarrow> row" where
  "runtime_record e router n payload =
     [(''router'', JStr router), (''receivedAt'', JStr (env_now_str e)), (''receivedEpoch'', JInt (env_now e)),
      (''runtimeRevision'', JInt n), (''presenceRevision'', JInt n), (''status'', JObj payload)]"

definition report_router :: "env \<Rightarrow> json \<Rightarrow> row \<Rightarrow> string" where
  "report_router e router_arg payload = router_name e (por router_arg (dget payload ''router''))"

definition relay_portmap_status :: "env \<Rightarrow> bool \<Rightarrow> json \<Rightarrow> row \<Rightarrow> docs \<Rightarrow> (int \<times> row) option \<times> docs" where
  "relay_portmap_status e authorized router_arg payload d =
    (if \<not> authorized then (None, d)
     else let router = report_router e router_arg payload;
              n = report_revision e (dget (runtime_document d) ''runtimeRevision''); rec = runtime_record e router n payload;
              d1 = append_portmap_history e rec (save_json d ''portmap_router_status.json'' (JObj rec));
              d2 = reconcile_report e payload router d1 in
       (Some (n, presence e (JStr router) d2), d2))"

section \<open>The saved rules\<close>

definition durable_order :: "row \<Rightarrow> int \<times> string" where
  "durable_order r = (to_int (dget r ''listenPort'') 0, clean_saved_value (dget r ''name''))"

definition durable_save_rules :: "env \<Rightarrow> row list \<Rightarrow> docs \<Rightarrow> docs" where
  "durable_save_rules e rows d =
    (let previous = load_json d ''portmaps.json'' (JObj []) in
     save_json d ''portmaps.json'' (JObj [(''version'', JInt 2),
       (''revision'', JInt (if is_dict previous then to_int (dget (items previous) ''revision'') 0 + 1 else 1)),
       (''updatedAt'', JStr (env_now_str e)), (''rules'', JList (map JObj (sort_key durable_order (take_last 100 rows))))]))"

section \<open>Corrections of reports\<close>

definition INTEGER_KEYS :: "string list" where
  "INTEGER_KEYS = [''listenPort'', ''targetPort'', ''leaseSeconds'', ''maxConnections'', ''idleTimeoutSec'']"

definition item_id :: "row \<Rightarrow> string" where
  "item_id item = clean_saved_value (por (dget (sub_dict item ''rule'') ''id'') (dget (sub_dict item ''runtime'') ''id''))"

definition with_lease :: "row \<Rightarrow> row \<Rightarrow> row" where
  "with_lease expected rule = (if map_of rule ''leaseSeconds'' = None
     then dset ''leaseSeconds'' (JInt (max 0 (to_int (dget expected ''leaseSeconds'') 0))) rule else rule)"

definition with_start :: "row \<Rightarrow> row \<Rightarrow> row" where
  "with_start old rt =
    (if clean_saved_value (dget rt ''state'') = ''running'' \<and> portmap_epoch (dget rt ''startedAt'') = None
     then (case portmap_epoch (dget old ''startedAt'') of None \<Rightarrow> rt | Some t \<Rightarrow> dset ''startedAt'' (JInt t) rt) else rt)"

definition normalize_item :: "docs \<Rightarrow> row \<Rightarrow> row" where
  "normalize_item d item =
    (let rid = item_id item;
         expected = (case map_of (desired_rules d) rid of None \<Rightarrow> [] | Some r \<Rightarrow> r);
         old = (case map_of (portmap_runtime_map (runtime_document d)) rid of None \<Rightarrow> [] | Some r \<Rightarrow> r) in
     dset ''runtime'' (JObj (with_start old (sub_dict item ''runtime'')))
       (dset ''rule'' (JObj (with_lease expected (sub_dict item ''rule''))) item))"

definition normalize_report :: "docs \<Rightarrow> row \<Rightarrow> row" where
  "normalize_report d payload = (case dget payload ''rules'' of
     JList xs \<Rightarrow> dset ''rules'' (JList (map (\<lambda>v. if is_dict v then JObj (normalize_item d (items v)) else v) xs)) payload
   | _ \<Rightarrow> payload)"

definition installed_portmap_status :: "env \<Rightarrow> bool \<Rightarrow> json \<Rightarrow> row \<Rightarrow> docs \<Rightarrow> (int \<times> row) option \<times> docs" where
  "installed_portmap_status e authorized router_arg payload d =
     relay_portmap_status e authorized router_arg (normalize_report d payload) d"

datatype rule_value = Flag bool | Number int | Epoch "int option" | Words string

definition portmap_value :: "row \<Rightarrow> string \<Rightarrow> rule_value" where
  "portmap_value r k = (let v = dget r k in
     if k = ''enabled'' then Flag (truthy v)
     else if k \<in> set INTEGER_KEYS then Number (max 0 (to_int v 0))
     else if k = ''expiresAt'' then Epoch (portmap_epoch v)
     else if k = ''transportProtocol'' then Words (upper (clean_saved_value (por v (JStr ''TCP''))))
     else Words (clean_saved_value v))"

definition portmap_rules_equal :: "row \<Rightarrow> row \<Rightarrow> bool" where
  "portmap_rules_equal expected local = list_all (\<lambda>k. portmap_value expected k = portmap_value local k) COMPARE_KEYS"

text \<open>The rules and the runtimes of the items of the last report, by their identifiers.\<close>

definition reported_items :: "row \<Rightarrow> (string \<times> row) list" where
  "reported_items payload = dict_of (concat (map (\<lambda>item. if item_id item = [] then [] else [(item_id item, item)]) (dict_rows (dget payload ''rules''))))"

definition redundant :: "docs \<Rightarrow> row \<Rightarrow> json \<Rightarrow> bool" where
  "redundant d payload v =
    (let c = items v; rule = sub_dict (sub_dict c ''payload'') ''rule''; rid = clean_saved_value (dget rule ''id'');
         wanted = (case map_of (desired_rules d) rid of None \<Rightarrow> [] | Some r \<Rightarrow> r);
         item = (case map_of (reported_items payload) rid of None \<Rightarrow> [] | Some i \<Rightarrow> i); rt = sub_dict item ''runtime'' in
     is_dict v \<and> outstanding c \<and> dget c ''action'' = JStr ''upsert'' \<and> rid \<noteq> [] \<and> truthy (dget wanted ''enabled'')
     \<and> clean_saved_value (dget rt ''state'') = ''running'' \<and> portmap_epoch (dget rt ''startedAt'') \<noteq> None
     \<and> portmap_rules_equal wanted (sub_dict item ''rule''))"

text \<open>\<open>to_int\<close> reads the text of its argument, and the text of a floating point time is no integer, so the
  finishing time of a closed command is the default 0.\<close>

definition close_redundant :: "env \<Rightarrow> row \<Rightarrow> row" where
  "close_redundant e c = dmerge c [(''status'', JStr ''done''),
     (''result'', JObj [(''ok'', JBool True), (''unchanged'', JBool True), (''message'', JStr ''already synchronized'')]),
     (''finishedAt'', JStr (env_now_str e)), (''finishedEpoch'', JInt 0)]"

definition prune_commands :: "env \<Rightarrow> docs \<Rightarrow> nat \<times> docs" where
  "prune_commands e d =
    (let doc = runtime_document d; payload = normalize_report d (if is_dict (dget doc ''status'') then sub_dict doc ''status'' else doc);
         rows = elems (dget (items (load_json d ''portmap_commands.json'' (JObj [(''commands'', JList [])]))) ''commands'');
         hits = length (filter (redundant d payload) rows) in
     (hits, if hits = 0 then d else save_json d ''portmap_commands.json'' (JObj [(''commands'',
        JList (map (\<lambda>v. if redundant d payload v then JObj (close_redundant e (items v)) else v) rows))])))"

end
