(* ===== verification/RelayRuns.thy ===== *)
theory RelayRuns
  imports Relay PortmapRuns "HOL-Library.Multiset"
begin

text \<open>
  Reports of the router agent over time: revisions that increase whatever the clock does, presence that follows
  the last report, the commands that a report queues, and the saved rules document against the one of the
  hub before the patches.
\<close>

section \<open>Revisions\<close>

lemma number_JInt [simp]: "number (JInt i) = max 0 i"
  by (simp add: number_def to_int_def)

lemma number_JNull [simp]: "number JNull = 0"
  by code_simp

lemma number_nonneg [simp]: "0 \<le> number v"
  by (simp add: number_def)

lemma above_number: "number v < n \<Longrightarrow> 0 < n"
  by (simp add: number_def)

lemma report_revision_less: "number old < report_revision e old"
  by (simp add: report_revision_def)

datatype relay_event = Heartbeat env bool row | Report env bool json row | Prune env | Save env "row list"

text \<open>The reply of an event: whose revision it carries (\<open>None\<close> for the runtime), and the revision.\<close>

fun relay_step :: "relay_event \<Rightarrow> docs \<Rightarrow> (string option \<times> int) list \<times> docs" where
  "relay_step (Heartbeat e ok payload) d = (case relay_agent_status e ok payload d of
     (None, d') \<Rightarrow> ([], d') | (Some (n, _), d') \<Rightarrow> ([(Some (router_name e (dget payload ''router'')), n)], d'))"
| "relay_step (Report e ok arg payload) d = (case installed_portmap_status e ok arg payload d of
     (None, d') \<Rightarrow> ([], d') | (Some (n, _), d') \<Rightarrow> ([(None, n)], d'))"
| "relay_step (Prune e) d = ([], snd (prune_commands e d))"
| "relay_step (Save e rows) d = ([], durable_save_rules e rows d)"

fun relay_trace :: "relay_event list \<Rightarrow> docs \<Rightarrow> (string option \<times> int) list" where
  "relay_trace [] d = []"
| "relay_trace (ev # es) d = (case relay_step ev d of (rs, d') \<Rightarrow> rs @ relay_trace es d')"

definition relay_run :: "relay_event list \<Rightarrow> docs \<Rightarrow> docs" where
  "relay_run es d = fold (\<lambda>ev d. snd (relay_step ev d)) es d"

fun stored_revision :: "docs \<Rightarrow> string option \<Rightarrow> int" where
  "stored_revision d None = number (dget (runtime_document d) ''runtimeRevision'')"
| "stored_revision d (Some router) = number (dget (sub_dict (relay_statuses d) router) ''revision'')"

lemma queue_all_other: "key \<noteq> ''portmap_commands.json'' \<Longrightarrow> queue_all e router n cs d key = d key"
  by (induction e router n cs d rule: queue_all.induct) (simp_all add: queue_portmap_command_def save_commands_def)

lemma finish_updates_other: "key \<noteq> UPDATES \<Longrightarrow> finish_updates e router v d key = d key"
  by (simp add: finish_updates_def save_agent_commands_def Let_def)

lemma statuses_cong: "d ''agent_status.json'' = d' ''agent_status.json'' \<Longrightarrow> relay_statuses d = relay_statuses d'"
  by (simp add: relay_statuses_def load_json_def)

lemma runtime_cong: "d ''portmap_router_status.json'' = d' ''portmap_router_status.json'' \<Longrightarrow> runtime_document d = runtime_document d'"
  by (simp add: runtime_document_def load_json_def)

lemma heartbeat_docs:
  assumes "relay_agent_status e ok payload d = (Some (n, frame), d')"
  defines "router \<equiv> router_name e (dget payload ''router'')"
  shows "n = report_revision e (dget (sub_dict (relay_statuses d) router) ''revision'')"
    and "relay_statuses d' = dset router (JObj (heartbeat_row e router n payload (sub_dict (relay_statuses d) router))) (relay_statuses d)"
    and "runtime_document d' = runtime_document d" and "frame = presence e (JStr router) d'"
proof -
  have ok: "ok" using assms by (auto simp: relay_agent_status_def split: if_splits)
  let ?row = "heartbeat_row e router n payload (sub_dict (relay_statuses d) router)"
  let ?d1 = "save_json d ''agent_status.json'' (JObj (dset router (JObj ?row) (relay_statuses d)))"
  have n: "n = report_revision e (dget (sub_dict (relay_statuses d) router) ''revision'')"
    and d': "d' = finish_updates e router (dget ?row ''version'') ?d1" and frame: "frame = presence e (JStr router) d'"
    using assms ok by (auto simp: relay_agent_status_def Let_def)
  show "n = report_revision e (dget (sub_dict (relay_statuses d) router) ''revision'')" by (rule n)
  show "relay_statuses d' = dset router (JObj ?row) (relay_statuses d)"
    unfolding d' by (simp add: relay_statuses_def load_json_def finish_updates_other)
  show "runtime_document d' = runtime_document d" unfolding d' by (intro runtime_cong) (simp add: finish_updates_other)
  show "frame = presence e (JStr router) d'" by (rule frame)
qed

lemma report_docs:
  assumes "relay_portmap_status e ok arg payload d = (Some (n, frame), d')"
  defines "router \<equiv> report_router e arg payload"
  shows "n = report_revision e (dget (runtime_document d) ''runtimeRevision'')"
    and "runtime_document d' = runtime_record e router n payload"
    and "relay_statuses d' = relay_statuses d" and "frame = presence e (JStr router) d'"
proof -
  have ok: "ok" using assms by (auto simp: relay_portmap_status_def split: if_splits)
  let ?rec = "runtime_record e router n payload"
  let ?d1 = "append_portmap_history e ?rec (save_json d ''portmap_router_status.json'' (JObj ?rec))"
  have n: "n = report_revision e (dget (runtime_document d) ''runtimeRevision'')"
    and d': "d' = queue_all e router 1 (relay_commands payload ?d1) ?d1" and frame: "frame = presence e (JStr router) d'"
    using assms ok by (auto simp: relay_portmap_status_def reconcile_report_def Let_def)
  show "n = report_revision e (dget (runtime_document d) ''runtimeRevision'')" by (rule n)
  have "append_portmap_history e ?rec dd ''portmap_router_status.json'' = dd ''portmap_router_status.json''" for dd
    by (simp add: append_portmap_history_def Let_def split: prod.split)
  then show "runtime_document d' = ?rec"
    unfolding d' by (simp add: runtime_document_def load_json_def queue_all_other)
  show "relay_statuses d' = relay_statuses d"
    unfolding d' by (intro statuses_cong) (simp add: queue_all_other status_docs)
  show "frame = presence e (JStr router) d'" by (rule frame)
qed

lemma step_docs: "relay_step ev d = ([], d') \<Longrightarrow> relay_statuses d' = relay_statuses d \<and> runtime_document d' = runtime_document d"
proof (cases ev)
  case (Heartbeat e ok payload)
  then show "relay_step ev d = ([], d') \<Longrightarrow> ?thesis" by (auto simp: relay_agent_status_def Let_def split: if_splits)
next
  case (Report e ok arg payload)
  then show "relay_step ev d = ([], d') \<Longrightarrow> ?thesis"
    by (auto simp: installed_portmap_status_def relay_portmap_status_def Let_def split: if_splits)
next
  case (Prune e)
  then show "relay_step ev d = ([], d') \<Longrightarrow> ?thesis" by (auto simp: prune_commands_def Let_def intro!: statuses_cong runtime_cong)
next
  case (Save e rows)
  then show "relay_step ev d = ([], d') \<Longrightarrow> ?thesis" by (auto simp: durable_save_rules_def Let_def intro!: statuses_cong runtime_cong)
qed

lemma step_other: "relay_step ev d = ([], d') \<Longrightarrow> stored_revision d' key = stored_revision d key"
  using step_docs [of ev d d'] by (cases key) simp_all

lemma step_reply:
  assumes "relay_step ev d = (rs, d')" and "rs \<noteq> []"
  shows "\<exists>key n. rs = [(key, n)] \<and> stored_revision d key < n \<and> stored_revision d' key = n
    \<and> (\<forall>key'. key' \<noteq> key \<longrightarrow> stored_revision d' key' = stored_revision d key')"
proof (cases ev)
  case (Heartbeat e ok payload)
  let ?router = "router_name e (dget payload ''router'')"
  obtain n frame where reply: "relay_agent_status e ok payload d = (Some (n, frame), d')" and rs: "rs = [(Some ?router, n)]"
    using assms Heartbeat by (auto split: prod.splits option.splits)
  note docs = heartbeat_docs [OF reply]
  have less: "stored_revision d (Some ?router) < n" using report_revision_less docs(1) by simp
  then have pos: "0 < n" by (simp add: above_number)
  then have "stored_revision d' (Some ?router) = n"
    using docs(2) by (simp add: sub_dict_def dget_dset_json heartbeat_row_def dget_def dget_or_def)
  moreover have "stored_revision d' key' = stored_revision d key'" if "key' \<noteq> Some ?router" for key'
    using docs(2,3) that by (cases key') (auto simp: sub_dict_def dget_dset_json)
  ultimately show ?thesis using rs less by blast
next
  case (Report e ok arg payload)
  obtain n frame where reply: "relay_portmap_status e ok arg (normalize_report d payload) d = (Some (n, frame), d')" and rs: "rs = [(None, n)]"
    using assms Report by (auto simp: installed_portmap_status_def split: prod.splits option.splits)
  note docs = report_docs [OF reply]
  have less: "stored_revision d None < n" using report_revision_less docs(1) by simp
  then have pos: "0 < n" by (simp add: above_number)
  then have "stored_revision d' None = n" using docs(2) by (simp add: runtime_record_def dget_def dget_or_def)
  moreover have "stored_revision d' key' = stored_revision d key'" if "key' \<noteq> None" for key'
    using docs(3) that by (cases key') auto
  ultimately show ?thesis using rs less by blast
qed (use assms in auto)

definition replies_of :: "string option \<Rightarrow> (string option \<times> int) list \<Rightarrow> int list" where
  "replies_of key rs = map snd (filter (\<lambda>r. fst r = key) rs)"

lemma replies_above: "sorted_wrt (<) (replies_of key (relay_trace es d)) \<and> list_all (\<lambda>n. stored_revision d key < n) (replies_of key (relay_trace es d))"
proof (induction es arbitrary: d)
  case (Cons ev es)
  obtain rs d' where step: "relay_step ev d = (rs, d')" by (cases "relay_step ev d")
  show ?case
  proof (cases "rs = []")
    case True
    then show ?thesis using Cons.IH [of d'] step step_other [of ev d d' key] by simp
  next
    case False
    then obtain k n where k: "rs = [(k, n)]" "stored_revision d k < n" "stored_revision d' k = n"
        "\<forall>key'. key' \<noteq> k \<longrightarrow> stored_revision d' key' = stored_revision d key'"
      using step_reply [OF step] by blast
    show ?thesis
    proof (cases "key = k")
      case same: True
      have "list_all (\<lambda>m. n < m) (replies_of key (relay_trace es d'))" using Cons.IH [of d'] k(3) same by simp
      then show ?thesis using Cons.IH [of d'] step k(1,2) same by (auto simp: replies_of_def list_all_iff)
    next
      case False
      then show ?thesis using Cons.IH [of d'] step k(1,4) by (simp add: replies_of_def)
    qed
  qed
qed (simp add: replies_of_def)

section \<open>Presence\<close>

lemma presence_words: "presence_word seen age = ''online'' \<longleftrightarrow> seen \<noteq> 0 \<and> age \<le> 12"
    "presence_word seen age = ''stale'' \<longleftrightarrow> seen \<noteq> 0 \<and> 12 < age \<and> age \<le> 30"
  by (auto simp: presence_word_def)

text \<open>An accepted report of an agent at a hub whose router has the name \<open>router\<close>.\<close>

fun report_env :: "relay_event \<Rightarrow> env option" where
  "report_env (Heartbeat e ok _) = (if ok then Some e else None)"
| "report_env (Report e ok _ _) = (if ok then Some e else None)"
| "report_env _ = None"

definition named :: "string \<Rightarrow> env \<Rightarrow> bool" where
  "named router e = (router \<noteq> [] \<and> clean_saved_value (JStr (env_router e)) = router)"

lemma named_router: "named router e \<Longrightarrow> router_name e v = router"
  by (simp add: named_def router_name_def text_or_def)

definition seen_at :: "string \<Rightarrow> int \<Rightarrow> docs \<Rightarrow> bool" where
  "seen_at router t d = (agent_seen router d = t)"

lemma seen_heartbeat:
  assumes "relay_agent_status e True payload d = (Some (n, frame), d')" and "named router e"
    and "agent_seen router d \<le> env_now e" "0 \<le> env_now e"
  shows "agent_seen router d' = env_now e"
proof -
  note docs = heartbeat_docs [OF assms(1), unfolded named_router [OF assms(2)]]
  have "number (dget (sub_dict (relay_statuses d') router) ''lastSeenEpoch'') = env_now e"
    using docs(2) assms(4) by (simp add: sub_dict_def dget_dset_json heartbeat_row_def dget_def dget_or_def)
  moreover have "(if of_router router (runtime_document d) then number (dget (runtime_document d) ''receivedEpoch'') else 0) \<le> env_now e"
    using assms(3,4) by (simp add: agent_seen_def Let_def)
  ultimately show ?thesis using docs(3) by (simp add: agent_seen_def Let_def max_def)
qed

lemma seen_report:
  assumes "relay_portmap_status e True arg payload d = (Some (n, frame), d')" and "named router e"
    and "agent_seen router d \<le> env_now e" "0 \<le> env_now e"
  shows "agent_seen router d' = env_now e"
proof -
  note docs = report_docs [OF assms(1), unfolded report_router_def named_router [OF assms(2)]]
  have "clean_saved_value (JStr router) = router" using assms(2) by (auto simp: named_def)
  then have "of_router router (runtime_document d')" "number (dget (runtime_document d') ''receivedEpoch'') = env_now e"
    using docs(2) assms(4) by (simp_all add: of_router_def runtime_record_def dget_def dget_or_def)
  moreover have "number (dget (sub_dict (relay_statuses d) router) ''lastSeenEpoch'') \<le> env_now e"
    using assms(3) by (simp add: agent_seen_def Let_def)
  ultimately show ?thesis using docs(3) by (simp add: agent_seen_def Let_def max_def)
qed

lemma seen_step:
  assumes "report_env ev = Some e" and "named router e" and "agent_seen router d \<le> env_now e" "0 \<le> env_now e"
  shows "agent_seen router (snd (relay_step ev d)) = env_now e"
proof (cases ev)
  case (Heartbeat e' ok payload)
  then have ev: "e' = e" "ok" using assms(1) by (auto split: if_splits)
  obtain n frame d' where r: "relay_agent_status e True payload d = (Some (n, frame), d')"
    by (cases "relay_agent_status e True payload d") (auto simp: relay_agent_status_def Let_def)
  then show ?thesis using Heartbeat ev seen_heartbeat [OF r assms(2-4)] by simp
next
  case (Report e' ok arg payload)
  then have ev: "e' = e" "ok" using assms(1) by (auto split: if_splits)
  obtain n frame d' where r: "relay_portmap_status e True arg (normalize_report d payload) d = (Some (n, frame), d')"
    by (cases "relay_portmap_status e True arg (normalize_report d payload) d") (auto simp: relay_portmap_status_def Let_def)
  then show ?thesis using Report ev seen_report [OF r assms(2-4)] by (simp add: installed_portmap_status_def)
qed (use assms in auto)

lemma no_report_step: "report_env ev = None \<Longrightarrow> agent_seen router (snd (relay_step ev d)) = agent_seen router d"
proof -
  assume "report_env ev = None"
  then obtain d' where "relay_step ev d = ([], d')"
    by (cases ev) (auto simp: relay_agent_status_def installed_portmap_status_def relay_portmap_status_def split: if_splits)
  then show ?thesis using step_docs [of ev d d'] by (simp add: agent_seen_def)
qed

fun report_times :: "relay_event list \<Rightarrow> int list" where
  "report_times [] = []"
| "report_times (ev # es) = (case report_env ev of None \<Rightarrow> report_times es | Some e \<Rightarrow> env_now e # report_times es)"

definition reports_of :: "string \<Rightarrow> relay_event \<Rightarrow> bool" where
  "reports_of router ev = (case report_env ev of None \<Rightarrow> True | Some e \<Rightarrow> named router e \<and> 0 < env_now e)"

lemma seen_run:
  "list_all (reports_of router) es \<Longrightarrow> sorted (agent_seen router d # report_times es) \<Longrightarrow>
     agent_seen router (relay_run es d) = last (agent_seen router d # report_times es)"
proof (induction es arbitrary: d)
  case (Cons ev es)
  let ?d = "snd (relay_step ev d)"
  have run: "relay_run (ev # es) d = relay_run es ?d" by (simp add: relay_run_def)
  show ?case
  proof (cases "report_env ev")
    case None
    then show ?thesis using Cons.IH [of ?d] Cons.prems by (simp add: run no_report_step)
  next
    case (Some e)
    then have "agent_seen router ?d = env_now e" using Cons.prems by (intro seen_step) (auto simp: reports_of_def)
    then show ?thesis using Cons.IH [of ?d] Cons.prems Some by (simp add: run)
  qed
qed (simp add: relay_run_def)

section \<open>Commands of a report\<close>

lemma relay_slots: "distinct (map command_slot (relay_commands payload d))"
proof -
  let ?des = "filter (\<lambda>(rid, rule). rule_differs (local_rules payload) rid rule) (desired_rules d)"
  let ?del = "filter (\<lambda>(rid, _). map_of (desired_rules d) rid = None) (local_rules payload)"
  let ?ups = "map (\<lambda>(rid, rule). (''upsert'', [(''rule'', JObj rule)])) ?des"
  let ?dels = "map (\<lambda>(rid, _). (''delete'', [(''id'', JStr rid)])) ?del"
  have u: "map command_slot ?ups = map (\<lambda>x. (''upsert'', fst x)) ?des"
    by (auto simp: portmap_command_rule_id_def sub_dict_def desired_keys [symmetric])
  have x: "map command_slot ?dels = map (\<lambda>x. (''delete'', fst x)) ?del"
    by (auto simp: portmap_command_rule_id_def local_keys)
  have "distinct (map command_slot ?ups)" "distinct (map command_slot ?dels)"
    unfolding u x by (auto intro!: distinct_map_filter_fst simp: desired_rules_def local_rules_def)
  moreover have "set (map command_slot ?ups) \<inter> set (map command_slot ?dels) = {}" unfolding u x by auto
  ultimately show ?thesis unfolding relay_commands_def Let_def by (auto simp del: map_map)
qed

lemma relay_cong: "d ''portmaps.json'' = d' ''portmaps.json'' \<Longrightarrow> relay_commands p d = relay_commands p d'"
  using load_rules_cong [of d d'] by (simp add: relay_commands_def desired_rules_def load_portmap_rules_def)

lemma router_name_nonempty: "router_name e v \<noteq> []"
  by (simp add: router_name_def text_or_def)

lemma report_awaits:
  assumes "(action, p) \<in> set (relay_commands (normalize_report d payload) d)"
    and "length (commands_of ''portmap_commands.json'' d) + length (relay_commands (normalize_report d payload) d) \<le> 500"
  shows "list_ex (awaits (report_router e arg (normalize_report d payload)) action p)
    (commands_of ''portmap_commands.json'' (snd (installed_portmap_status e True arg payload d)))"
proof -
  let ?payload = "normalize_report d payload" let ?router = "report_router e arg ?payload"
  let ?rec = "runtime_record e ?router (report_revision e (dget (runtime_document d) ''runtimeRevision'')) ?payload"
  let ?d1 = "append_portmap_history e ?rec (save_json d ''portmap_router_status.json'' (JObj ?rec))"
  let ?cs = "relay_commands ?payload d"
  have r: "relay_commands ?payload ?d1 = ?cs" by (rule relay_cong, rule status_docs) simp_all
  have st: "snd (installed_portmap_status e True arg payload d) = queue_all e ?router 1 ?cs ?d1"
    by (simp add: installed_portmap_status_def relay_portmap_status_def reconcile_report_def Let_def r)
  have c1: "commands_of ''portmap_commands.json'' ?d1 = commands_of ''portmap_commands.json'' d"
    by (rule commands_cong, rule status_docs) simp_all
  have router: "?router \<noteq> []" by (simp add: report_router_def router_name_nonempty)
  show ?thesis
    using queue_all_awaits [OF relay_slots assms(1) router, of ?d1 e 1] assms(2) c1 unfolding st by (simp add: list_ex_iff)
qed

text \<open>A rules document that cannot be read: the handler of the hub queues nothing, the handler that is installed
  deletes every rule of the router.\<close>

theorem unreadable_rules_deleted:
  assumes "\<not> snd (load_portmap_rules_document d)"
  shows "reconcile_commands payload d = []
    \<and> relay_commands payload d = map (\<lambda>(rid, _). (''delete'', [(''id'', JStr rid)])) (local_rules payload)"
proof -
  have "load_portmap_rules d = []"
    using assms by (auto simp: load_portmap_rules_document_def load_portmap_rules_def Let_def split: option.splits json.splits)
  then have "desired_rules d = []" by (simp add: desired_rules_def dict_of_def)
  then show ?thesis using assms by (simp add: reconcile_commands_def relay_commands_def)
qed

text \<open>A command that is closed as redundant is old enough to be dropped at the next queueing.\<close>

theorem closed_command_dropped: "86400 < env_now e \<Longrightarrow> expired_command (env_now e) (close_redundant e c)"
  by (simp add: expired_command_def close_redundant_def is_status_def dget_dmerge_json to_int_def)

text \<open>A report of a second router overwrites the time of the first one, when the hub has no configured router.\<close>

definition unnamed_env :: "int \<Rightarrow> env" where
  "unnamed_env t = \<lparr>env_now = t, env_now_str = ''now'', env_now_text = ''now'', env_fresh = (\<lambda>n. ''id''), env_router = [], env_local_epoch = (\<lambda>_. None)\<rparr>"

theorem other_router_hides_presence:
  assumes "relay_portmap_status e True arg payload d = (Some (n, frame), d')"
    and "clean_saved_value (JStr (report_router e arg payload)) \<noteq> router" and "dget (relay_statuses d) router = JNull"
  shows "agent_state e router d' = ''offline''"
proof -
  note docs = report_docs [OF assms(1)]
  have "\<not> of_router router (runtime_document d')"
    using docs(2) assms(2) by (simp add: of_router_def runtime_record_def dget_def dget_or_def)
  then have "agent_seen router d' = 0" using docs(3) assms(3) by (simp add: agent_seen_def sub_dict_def dget_def dget_or_def)
  then show ?thesis by (simp add: agent_state_def presence_word_def)
qed

section \<open>Properties\<close>

text \<open>C31: The revisions that the hub gives out strictly increase: over any sequence of heartbeats and runtime reports,
  accepted or not, with any clock, the revisions of the replies to one router's heartbeats form an increasing
  sequence, and so do the revisions of the replies to runtime reports.\<close>

theorem relay_revisions_increase: "sorted_wrt (<) (replies_of key (relay_trace es d))"
  using replies_above [of key es d] by blast

text \<open>Presence follows the last report: at a hub with a configured router, after reports at increasing times the
  agent is online up to 12 seconds after the last one, stale up to 30 seconds and offline after that.\<close>

theorem presence_follows_reports:
  assumes "list_all (reports_of router) es" and "sorted (0 # report_times es)" and "report_times es \<noteq> []"
  shows "agent_state now router (relay_run es (\<lambda>_. None)) =
    (let age = env_now now - last (report_times es) in if age \<le> 12 then ''online'' else if age \<le> 30 then ''stale'' else ''offline'')"
proof -
  have start: "agent_seen router (\<lambda>_. None) = 0" by (simp add: agent_seen_def relay_statuses_def runtime_document_def load_json_def Let_def sub_dict_def dget_def dget_or_def)
  have "agent_seen router (relay_run es (\<lambda>_. None)) = last (report_times es)"
    using seen_run [of router es "\<lambda>_. None"] assms start by simp
  moreover have "t \<in> set (report_times es) \<Longrightarrow> 0 < t" for t
    using assms(1) by (induction es) (auto simp: reports_of_def split: option.splits)
  then have "0 < last (report_times es)" using assms(3) by simp
  ultimately show ?thesis by (simp add: agent_state_def presence_word_def agent_age_def Let_def)
qed

definition home_env :: "int \<Rightarrow> env" where
  "home_env t = (unnamed_env t)\<lparr>env_router := ''r''\<rparr>"

theorem presence_follows_reports_witness:
  "agent_state (home_env 125) ''r'' (relay_run [Heartbeat (home_env 90) True [], Report (home_env 100) True JNull []] (\<lambda>_. None)) = ''stale''"
proof -
  have "list_all (reports_of ''r'') [Heartbeat (home_env 90) True [], Report (home_env 100) True JNull []]" by code_simp
  moreover have "report_times [Heartbeat (home_env 90) True [], Report (home_env 100) True JNull []] = [90, 100]" by code_simp
  moreover have "env_now (home_env 125) = 125" by code_simp
  ultimately show ?thesis
    using presence_follows_reports [of "''r''" "[Heartbeat (home_env 90) True [], Report (home_env 100) True JNull []]" "home_env 125"] by simp
qed

text \<open>C32: As long as the stored commands and the new ones are together at most 500, the number that the queue
  keeps: after a runtime report every rule that the app wants and the router lacks or runs differently has a waiting
  upsert command, and every rule of the router that the app does not want has a waiting delete command.\<close>

theorem relay_report_reconciles:
  assumes "length (commands_of ''portmap_commands.json'' d) + length (relay_commands (normalize_report d payload) d) \<le> 500"
  shows "(let report = normalize_report d payload; router = report_router e arg report;
       cmds = commands_of ''portmap_commands.json'' (snd (installed_portmap_status e True arg payload d)) in
     list_all (\<lambda>(rid, rule). list_ex (awaits router ''upsert'' [(''rule'', JObj rule)]) cmds)
       (filter (\<lambda>(rid, rule). rule_differs (local_rules report) rid rule) (desired_rules d))
     \<and> list_all (\<lambda>(rid, _). list_ex (awaits router ''delete'' [(''id'', JStr rid)]) cmds)
       (filter (\<lambda>(rid, _). map_of (desired_rules d) rid = None) (local_rules report)))"
proof -
  let ?report = "normalize_report d payload" let ?cs = "relay_commands ?report d"
  have "(''upsert'', [(''rule'', JObj rule)]) \<in> set ?cs" if "(rid, rule) \<in> set (desired_rules d)" "rule_differs (local_rules ?report) rid rule"
    for rid rule using that by (force simp: relay_commands_def Let_def)
  moreover have "(''delete'', [(''id'', JStr rid)]) \<in> set ?cs" if "(rid, l) \<in> set (local_rules ?report)" "map_of (desired_rules d) rid = None"
    for rid l using that by (force simp: relay_commands_def Let_def)
  ultimately show ?thesis using report_awaits [OF _ assms] unfolding Let_def list_all_iff by auto
qed

definition one_rule :: "string \<Rightarrow> row" where
  "one_rule rid = [(''rules'', JList [JObj [(''rule'', JObj [(''id'', JStr rid)])]])]"

theorem relay_report_reconciles_witness:
  "(let report = normalize_report (\<lambda>_. None) (one_rule ''b''); router = report_router (home_env 9) JNull report;
       cmds = commands_of ''portmap_commands.json'' (snd (installed_portmap_status (home_env 9) True JNull (one_rule ''b'') (\<lambda>_. None))) in
     list_all (\<lambda>(rid, _). list_ex (awaits router ''delete'' [(''id'', JStr rid)]) cmds)
       (filter (\<lambda>(rid, _). map_of (desired_rules (\<lambda>_. None)) rid = None) (local_rules report)))"
proof -
  have "length (commands_of ''portmap_commands.json'' (\<lambda>_. None)) + length (relay_commands (normalize_report (\<lambda>_. None) (one_rule ''b'')) (\<lambda>_. None)) \<le> 500"
    by code_simp
  then show ?thesis using relay_report_reconciles [of "\<lambda>_. None" "one_rule ''b''" "home_env 9" JNull] by (simp add: Let_def)
qed

text \<open>The saved rules document of the patch holds the same rules as the one of the hub, in whatever order, so that what
  is known of the rules of the hub holds for the installed one.\<close>

theorem durable_rules_same:
  "mset (load_portmap_rules (durable_save_rules e rows d)) = mset (load_portmap_rules (save_portmap_rules e rows d))"
  by (simp add: load_portmap_rules_def load_portmap_rules_document_def durable_save_rules_def save_portmap_rules_def Let_def identified_def
      dget_def dget_or_def)

end
