(* ===== verification/Ipv6Records.thy ===== *)
theory Ipv6Records
  imports AgentUpdate Daily "HOL-Library.Product_Lexorder"
begin

text \<open>
  The IPv6 addresses of devices in \<open>src/hub.py\<close>: cleaned lists and prefixes, records with their scores, the choice
  of the primary address, and what the hub merges into the device archive from the router's neighbour table.
  The classes of addresses are those of \<open>ipaddress\<close> in Python 3.12. The host's own addresses, which the code
  takes from the command \<open>ip\<close>, and the configured addresses of the host are arguments.
\<close>

section \<open>Addresses and networks\<close>

definition v6_base :: "nat list \<Rightarrow> nat" where
  "v6_base hs = fold (\<lambda>h n. n * 65536 + h) hs 0 * 2 ^ (128 - 16 * length hs)"

definition ipv6_private_networks :: "(nat \<times> nat) list" where
  "ipv6_private_networks = [(1, 128), (0, 128), (65535 * 2 ^ 32, 96), (v6_base [100, 65435, 1], 48), (v6_base [256], 64),
     (v6_base [8193], 23), (v6_base [8193, 3512], 32), (v6_base [8194], 16), (v6_base [16383], 20), (v6_base [64512], 7),
     (v6_base [65152], 10)]"

definition ipv6_public_exceptions :: "(nat \<times> nat) list" where
  "ipv6_public_exceptions = [(v6_base [8193, 1] + 1, 128), (v6_base [8193, 1] + 2, 128), (v6_base [8193, 3], 32),
     (v6_base [8193, 4, 274], 48), (v6_base [8193, 32], 28), (v6_base [8193, 48], 28)]"

definition ipv6_is_private :: "nat \<Rightarrow> bool" where
  "ipv6_is_private n = (list_ex (\<lambda>(b, p). in_net 128 b p n) ipv6_private_networks
     \<and> \<not> list_ex (\<lambda>(b, p). in_net 128 b p n) ipv6_public_exceptions)"

definition ipv4_mapped :: "nat \<Rightarrow> bool" where
  "ipv4_mapped n = (n div 2 ^ 32 = 65535)"

text \<open>An address that the hub records: IPv6, of no special kind.\<close>

definition recordable :: "ip \<Rightarrow> bool" where
  "recordable a = (case a of V4 _ \<Rightarrow> False
     | V6 n _ \<Rightarrow> \<not> is_link_local a \<and> \<not> is_multicast a \<and> \<not> is_loopback a \<and> \<not> ipv4_mapped n)"

definition spaces_or_commas :: "string \<Rightarrow> string list" where
  "spaces_or_commas s = split_by (\<lambda>c. is_space c \<or> c = CHR '','') s"

definition raw_texts :: "(json \<Rightarrow> string) \<Rightarrow> json \<Rightarrow> string list" where
  "raw_texts f v = (case v of JList xs \<Rightarrow> map f xs | JStr s \<Rightarrow> spaces_or_commas s | _ \<Rightarrow> [])"

definition recorded_ip :: "string \<Rightarrow> string option" where
  "recorded_ip v = (let ip = takeWhile (\<lambda>c. c \<noteq> CHR ''/'') (strip v) in
     if ip = [] \<or> CHR '':'' \<notin> set ip \<or> startswith (lower ip) ''fe80:'' then None
     else case ip_address ip of Some a \<Rightarrow> if recordable a then Some (ip_str a) else None | None \<Rightarrow> None)"

definition normalize_ipv6_list :: "json \<Rightarrow> string list" where
  "normalize_ipv6_list v = take 8 (uniq (List.map_filter recorded_ip (raw_texts (\<lambda>x. py_str (por x (JStr []))) v)))"

text \<open>\<open>ip_network(text, strict=False)\<close> of a text with a colon: the masked address with its scope, and the length.\<close>

definition network6 :: "string \<Rightarrow> (ip \<times> nat) option" where
  "network6 s = (case split_on (CHR ''/'') s of
     [a] \<Rightarrow> (case IPv6Address a of Some (V6 n sc) \<Rightarrow> Some (V6 n sc, 128) | _ \<Rightarrow> None)
   | [a, m] \<Rightarrow> (case IPv6Address a of
       Some (V6 n sc) \<Rightarrow>
         (if m = [] \<or> \<not> list_all is_dec m \<or> 128 < dec_value m then None
          else let p = dec_value m; base = n div 2 ^ (128 - p) * 2 ^ (128 - p) in
            Some (if base = n then V6 n sc else V6 base None, p))
     | _ \<Rightarrow> None)
   | _ \<Rightarrow> None)"

definition network_last :: "ip \<times> nat \<Rightarrow> ip" where
  "network_last net = V6 (ip_value (fst net) + 2 ^ (128 - snd net) - 1) None"

definition recorded_prefix :: "string \<Rightarrow> string option" where
  "recorded_prefix t = (if t = [] \<or> CHR '':'' \<notin> set t then None
     else case network6 t of
       Some net \<Rightarrow>
         (let both = (\<lambda>P. P (fst net) \<and> P (network_last net)) in
          if both is_link_local \<or> both is_multicast \<or> both is_loopback then None
          else Some (ip_str (fst net) @ ''/'' @ nat_str (snd net)))
     | None \<Rightarrow> None)"

definition normalize_ipv6_prefixes :: "json \<Rightarrow> string list" where
  "normalize_ipv6_prefixes v = take 16 (uniq (List.map_filter recorded_prefix
     (map (\<lambda>s. clean_saved_value (JStr s)) (raw_texts (\<lambda>x. py_str (case x of JObj d \<Rightarrow> dget d ''prefix'' | _ \<Rightarrow> x)) v))))"

text \<open>A prefix that cannot be read raises, which the code answers with no.\<close>

fun in_some_prefix :: "nat \<Rightarrow> string list \<Rightarrow> bool" where
  "in_some_prefix n [] = False"
| "in_some_prefix n (p # ps) = (case network6 p of None \<Rightarrow> False
     | Some net \<Rightarrow> in_net 128 (ip_value (fst net)) (snd net) n \<or> in_some_prefix n ps)"

definition ipv6_in_prefixes :: "string \<Rightarrow> string list \<Rightarrow> bool" where
  "ipv6_in_prefixes ip prefixes = (ip \<noteq> [] \<and> (case ip_address ip of Some (V6 n _) \<Rightarrow> in_some_prefix n prefixes | _ \<Rightarrow> False))"

definition is_ula_ipv6 :: "string \<Rightarrow> bool" where
  "is_ula_ipv6 ip = (case ip_address ip of
     Some (V6 n s) \<Rightarrow> ipv6_is_private n \<and> (startswith (lower (ip_str (V6 n s))) ''fc'' \<or> startswith (lower (ip_str (V6 n s))) ''fd'')
   | _ \<Rightarrow> False)"

text \<open>The last two words are those for temporary and private.\<close>

definition is_temporary_ipv6 :: "string \<Rightarrow> bool" where
  "is_temporary_ipv6 source = list_ex (contains (lower source)) [''temporary'', ''privacy'', '' temp'', cjk [21, 22], cjk [23, 24]]"

section \<open>Scores\<close>

definition ipv6_reachability_score :: "json \<Rightarrow> int" where
  "ipv6_reachability_score v = (let s = upper (clean_saved_value v) in
     if s = ''REACHABLE'' then 20 else if s \<in> {''DELAY'', ''PROBE''} then 12 else if s = ''STALE'' then 4
     else if s = ''FAILED'' then -30 else 0)"

definition address_score :: "string \<Rightarrow> int option" where
  "address_score ip = (case ip_address ip of
     Some (V6 n s) \<Rightarrow> if recordable (V6 n s) then Some (if \<not> ipv6_is_private n then 100 else if is_ula_ipv6 ip then 40 else 0) else None
   | _ \<Rightarrow> None)"

definition score_ipv6_record :: "env \<Rightarrow> row \<Rightarrow> int" where
  "score_ipv6_record e rec =
    (let ip = clean_saved_value (dget rec ''ip''); source = py_str (por (dget rec ''source'') (JStr [])) in
     case (if ip = [] then None else address_score ip) of
       None \<Rightarrow> -9999
     | Some s \<Rightarrow> s + (if truthy (dget rec ''currentPrefix'') then 25 else 0) - (if truthy (dget rec ''historical'') then 35 else 0)
         + ipv6_reachability_score (por (dget rec ''state'') (dget rec ''ndState''))
         + (if contains source ''hub_local'' then 160 else 0) + (if truthy (dget rec ''primary'') then 120 else 0)
         - (if contains (lower source) ''crosscheck'' then 80 else 0) + (if contains (lower source) ''dhcp'' then 10 else 0)
         + (if is_temporary_ipv6 source then -10 else 8)
         + min 5 (time_to_epoch e (por (dget rec ''lastSeen'') (dget rec ''lastSeenAt'')) div 86400 mod 6))"

definition pick_order :: "env \<Rightarrow> row \<Rightarrow> int \<times> int" where
  "pick_order e r = (- score_ipv6_record e r, - time_to_epoch e (por (dget r ''lastReachable'') (dget r ''lastSeen'')))"

definition pick_primary_ipv6 :: "env \<Rightarrow> row list \<Rightarrow> string" where
  "pick_primary_ipv6 e records = (case sort_key (pick_order e) (filter (\<lambda>r. -9999 < score_ipv6_record e r) records) of
     [] \<Rightarrow> [] | r # _ \<Rightarrow> clean_saved_value (dget r ''ip''))"

section \<open>Records\<close>

definition first_ip :: "json \<Rightarrow> string option" where
  "first_ip v = (case normalize_ipv6_list (JList [v]) of [] \<Rightarrow> None | ip # _ \<Rightarrow> Some ip)"

definition answering :: "string \<Rightarrow> bool" where
  "answering state = (upper state \<in> {''REACHABLE'', ''DELAY'', ''PROBE''})"

definition normal_ipv6_record :: "env \<Rightarrow> string list \<Rightarrow> row \<Rightarrow> string \<Rightarrow> row" where
  "normal_ipv6_record e prefixes item ip =
    (let state = clean_saved_value (por (dget item ''state'') (dget item ''ndState''));
         source = text_or (clean_saved_value (dget item ''source'')) ''unknown'';
         current = (if prefixes \<noteq> [] then ipv6_in_prefixes ip prefixes else truthy (dget item ''currentPrefix''));
         last_seen' = text_or (clean_saved_value (por (dget item ''lastSeen'') (dget item ''seenAt''))) (env_now_str e);
         reachable = clean_saved_value (dget item ''lastReachable'') in
     [(''ip'', JStr ip),
      (''firstSeen'', JStr (text_or (clean_saved_value (por (por (dget item ''firstSeen'') (dget item ''seenAt'')) (dget item ''lastSeen''))) (env_now_str e))),
      (''lastSeen'', JStr last_seen'), (''lastReachable'', JStr (if reachable = [] \<and> answering state then last_seen' else reachable)),
      (''source'', JStr source), (''state'', JStr state),
      (''dev'', JStr (clean_saved_value (por (por (dget item ''dev'') (dget item ''iface'')) (dget item ''ifname'')))),
      (''currentPrefix'', JBool current), (''temporary'', JBool (truthy (dget item ''temporary'') \<or> is_temporary_ipv6 source)),
      (''primary'', JBool (truthy (dget item ''primary''))),
      (''historical'', JBool (if prefixes \<noteq> [] then \<not> current \<and> \<not> is_ula_ipv6 ip else truthy (dget item ''historical'')))])"

fun record_items :: "json \<Rightarrow> json list" where
  "record_items (JObj d) = map snd d"
| "record_items (JList xs) = xs"
| "record_items _ = []"

definition record_of :: "env \<Rightarrow> string list \<Rightarrow> json \<Rightarrow> (string \<times> row) option" where
  "record_of e prefixes v =
    (case (case v of JStr s \<Rightarrow> Some [(''ip'', v)] | JObj d \<Rightarrow> Some d | _ \<Rightarrow> None) of
       None \<Rightarrow> None
     | Some item \<Rightarrow> (case first_ip (por (por (por (dget item ''ip'') (dget item ''ipv6'')) (dget item ''address'')) (dget item ''addr'')) of
         None \<Rightarrow> None | Some ip \<Rightarrow> Some (ip, normal_ipv6_record e prefixes item ip)))"

definition normalize_ipv6_records :: "env \<Rightarrow> string list \<Rightarrow> json \<Rightarrow> row list" where
  "normalize_ipv6_records e prefixes v = take 24 (map snd (dict_of (List.map_filter (record_of e prefixes) (record_items v))))"

text \<open>The host: its IPv6 and IPv4 addresses, and the configured addresses of its network card.\<close>

record host =
  ho_ipv6 :: string
  ho_ipv4 :: string
  ho_macs :: "string list"

definition local_record :: "env \<Rightarrow> string \<Rightarrow> row" where
  "local_record e ip = [(''ip'', JStr ip), (''firstSeen'', JStr (env_now_str e)), (''lastSeen'', JStr (env_now_str e)),
     (''lastReachable'', JStr (env_now_str e)), (''source'', JStr ''hub_local_probe''), (''state'', JStr ''REACHABLE''), (''dev'', JStr ''hub''),
     (''currentPrefix'', JBool True), (''temporary'', JBool (is_temporary_ipv6 ''hub_local_probe'')), (''historical'', JBool False), (''primary'', JBool True)]"

definition local_hub_ipv6_records :: "env \<Rightarrow> host \<Rightarrow> row list" where
  "local_hub_ipv6_records e h = map (local_record e) (normalize_ipv6_list (JList [JStr (ho_ipv6 h)]))"

text \<open>Records by address, in order; the host's own records replace what is known of its addresses.\<close>

definition by_ip :: "row list \<Rightarrow> (string \<times> row) list" where
  "by_ip rs = dict_of (map (\<lambda>r. (py_str (dget r ''ip''), r)) (filter (\<lambda>r. truthy (dget r ''ip'')) rs))"

definition add_local :: "row \<Rightarrow> (string \<times> row) list \<Rightarrow> (string \<times> row) list" where
  "add_local rec d = (let ip = py_str (dget rec ''ip'');
     old = (case map_of d ip of None \<Rightarrow> [(''ip'', JStr ip), (''firstSeen'', dget rec ''firstSeen'')] | Some r \<Rightarrow> r) in dset ip (dmerge old rec) d)"

definition mark_primary :: "string \<Rightarrow> row list \<Rightarrow> row list" where
  "mark_primary best rs = map (\<lambda>r. dset ''primary'' (JBool (best \<noteq> [] \<and> dget r ''ip'' = JStr best)) r) rs"

definition best_first :: "env \<Rightarrow> string \<Rightarrow> row list \<Rightarrow> string list" where
  "best_first e best rs = normalize_ipv6_list (JList (JStr best # map (\<lambda>r. dget r ''ip'')
     (filter (\<lambda>r. dget r ''ip'' \<noteq> JStr best) (sort_key (\<lambda>r. - score_ipv6_record e r) rs))))"

definition with_best :: "string \<Rightarrow> row \<Rightarrow> row" where
  "with_best best d = (if best = [] then d else dmerge d [(''ipv6'', JStr best), (''ipv6Address'', JStr best), (''globalIpv6'', JStr best)])"

section \<open>Neighbours\<close>

definition is_host :: "host \<Rightarrow> string \<Rightarrow> json \<Rightarrow> bool" where
  "is_host h mac ip = (mac \<in> set (ho_macs h) \<or> ho_ipv4 h \<noteq> [] \<and> clean_saved_value ip = ho_ipv4 h)"

definition seen_record :: "env \<Rightarrow> string list \<Rightarrow> bool \<Rightarrow> row \<Rightarrow> string \<Rightarrow> row \<Rightarrow> row" where
  "seen_record e prefixes own n ip rec =
    (let source = (if own then ''router_ndp_crosscheck'' else text_or (clean_saved_value (dget n ''source'')) ''router_ndp'');
         seen_at = text_or (clean_saved_value (dget n ''seenAt'')) (env_now_str e); state = clean_saved_value (dget n ''state'');
         current = ipv6_in_prefixes ip prefixes;
         r = dmerge rec [(''lastSeen'', JStr seen_at), (''source'', JStr source), (''state'', JStr state), (''dev'', JStr (clean_saved_value (dget n ''dev''))),
           (''currentPrefix'', JBool current), (''temporary'', JBool (is_temporary_ipv6 source)), (''primary'', JBool False)];
         r' = (if answering state \<or> upper state = ''LEASED'' then dset ''lastReachable'' (JStr seen_at) r else r) in
     dset ''historical'' (JBool (prefixes \<noteq> [] \<and> \<not> current \<and> \<not> is_ula_ipv6 ip)) r')"

text \<open>The archived row of a device after one neighbour entry, and whether its addresses changed.\<close>

definition merge_neighbor :: "env \<Rightarrow> host \<Rightarrow> string list \<Rightarrow> row \<Rightarrow> string \<Rightarrow> string \<Rightarrow> row \<Rightarrow> row \<times> bool" where
  "merge_neighbor e h prefixes n mac ip old =
    (let own = is_host h mac (por (dget old ''ip'') (dget old ''lastIp''));
         known = by_ip (normalize_ipv6_records e prefixes (por (por (dget old ''ipv6Records'') (dget old ''ipv6List'')) (JList [])));
         seen_at = text_or (clean_saved_value (dget n ''seenAt'')) (env_now_str e);
         rec = (case map_of known ip of None \<Rightarrow> [(''ip'', JStr ip), (''firstSeen'', JStr seen_at)] | Some r \<Rightarrow> r);
         known1 = dset ip (seen_record e prefixes own n ip rec) known;
         known2 = (if own then fold add_local (local_hub_ipv6_records e h) known1 else known1);
         merged = normalize_ipv6_records e prefixes (JList (map (JObj \<circ> snd) known2));
         best = pick_primary_ipv6 e merged; marked = mark_primary best merged; ips = best_first e best marked;
         changed = (\<not> py_eq (JList (map JObj marked)) (dget old ''ipv6Records'') \<or> \<not> py_eq (JList (map JStr ips)) (dget old ''ipv6List'') \<or> \<not> py_eq (JStr best) (dget old ''ipv6''));
         old1 = (if changed then dset ''ipv6UpdatedAt'' (JStr (env_now_str e))
           (with_best best (dset ''ipv6List'' (JList (map JStr ips)) (dset ''ipv6Records'' (JList (map JObj marked)) old))) else old) in
     (dmerge old1 [(''mac'', JStr mac), (''ndpState'', dget n ''state''), (''ndpDev'', dget n ''dev''), (''archivedAt'', JStr (env_now_str e))], changed))"

definition merge_neighbor_into :: "env \<Rightarrow> host \<Rightarrow> string list \<Rightarrow> row \<Rightarrow> row \<times> nat \<Rightarrow> row \<times> nat" where
  "merge_neighbor_into e h prefixes n ac =
    (let mac = norm_mac (dget n ''mac''); ip = clean_saved_value (dget n ''ip'') in
     if mac = [] \<or> ip = [] then ac
     else case merge_neighbor e h prefixes n mac ip (items (dget (fst ac) mac)) of
       (r, changed) \<Rightarrow> (dset mac (JObj r) (fst ac), snd ac + (if changed then 1 else 0)))"

end
