(* ===== verification/Devices.thy ===== *)
theory Devices
  imports Ipv6Records Portmap
begin

text \<open>
  Devices: the archive of the last known state of each device (\<open>src/hub.py\<close>), the cards of the watched
  devices (\<open>src/hub0934_fixes.py\<close>), and the history that takes full snapshots of the online devices
  (\<open>src/device_history_patch.py\<close>): transition events, the devices document and the rollup of each day.
  A snapshot is given with the online devices and the neighbours already read from the router's payload.
\<close>

section \<open>The archive\<close>

definition merge_non_empty :: "row \<Rightarrow> row \<Rightarrow> row" where
  "merge_non_empty base overlay =
     fold (\<lambda>(k, v) r. if clean_saved_value v \<noteq> [] \<or> map_of r k = None then dset k v r else r) overlay base"

abbreviation ARCHIVE :: string where "ARCHIVE \<equiv> ''device_archive.json''"

definition load_device_archive :: "docs \<Rightarrow> row" where
  "load_device_archive d = items (load_json d ARCHIVE (JObj []))"

definition save_device_archive :: "row \<Rightarrow> docs \<Rightarrow> docs" where
  "save_device_archive a d = save_json d ARCHIVE (JObj (take_last 500 a))"

definition KEEP_KEYS :: "string list" where
  "KEEP_KEYS = [''name'', ''mac'', ''ip'', ''lastIp'', ''ssid'', ''band'', ''rssi'', ''rxrate'', ''channel'',
     ''connectType'', ''onlineSince'', ''onlineDurationText'', ''lastSeenAt'', ''offlineAt'',
     ''todayOnlineDurationSec'', ''todayOnlineDurationText'', ''todayOnlineDate'',
     ''hostName'', ''devType'', ''osType'', ''manufacture'', ''devRecommend'', ''ipv6'', ''ipv6Address'', ''globalIpv6'',
     ''ipv6List'', ''ipv6Records'', ''ipv6UpdatedAt'', ''ndpState'', ''ndpDev'', ''wolMode'',
     ''todayUpload'', ''todayDownload'', ''totalUpload'', ''totalDownload'', ''todayTraffic'', ''realtimeTraffic'',
     ''dailyUpBytes'', ''dailyDownBytes'', ''upBytes'', ''downBytes'', ''trafficDate'', ''trafficUpdatedAt'', ''trafficText'']"

definition DAY_COUNTERS :: "string list" where
  "DAY_COUNTERS = [''todayUpload'', ''todayDownload'', ''todayTraffic'', ''dailyUpBytes'', ''dailyDownBytes'']"

definition kept_fields :: "string list \<Rightarrow> row \<Rightarrow> row" where
  "kept_fields keys dev = List.map_filter (\<lambda>k. case map_of dev k of None \<Rightarrow> None | Some v \<Rightarrow> Some (k, v)) keys"

definition archived_row :: "env \<Rightarrow> string \<Rightarrow> row \<Rightarrow> row \<Rightarrow> row" where
  "archived_row e mac dev old =
    (let snap = kept_fields KEEP_KEYS dev;
         new_day = (clean_saved_value (dget snap ''trafficDate'') \<noteq> [] \<and> \<not> py_eq (dget snap ''trafficDate'') (dget old ''trafficDate''));
         base = (if new_day then fold dpop DAY_COUNTERS old else old);
         snap' = (if clean_saved_value (dget snap ''ip'') \<noteq> [] then dset ''lastIp'' (dget snap ''ip'') snap else snap) in
     dset ''archivedAt'' (JStr (env_now_str e)) (dset ''mac'' (JStr mac) (merge_non_empty base snap')))"

definition archive_device_snapshot :: "env \<Rightarrow> row \<Rightarrow> docs \<Rightarrow> docs" where
  "archive_device_snapshot e dev d =
    (let mac = norm_mac (dget dev ''mac''); archive = load_device_archive d in
     if mac = [] then d
     else save_device_archive (dset mac (JObj (archived_row e mac dev (items (dget archive mac)))) archive) d)"

section \<open>Hydration\<close>

definition HYDRATE_KEYS :: "string list" where
  "HYDRATE_KEYS = [''name'', ''lastIp'', ''ssid'', ''band'', ''rssi'', ''rxrate'', ''channel'', ''connectType'', ''onlineSince'',
     ''onlineDurationText'', ''lastSeenAt'', ''hostName'', ''devType'', ''osType'', ''manufacture'', ''devRecommend'',
     ''ipv6'', ''ipv6Address'', ''globalIpv6'', ''ipv6List'', ''ipv6Records'', ''ipv6UpdatedAt'', ''ndpState'', ''ndpDev'', ''wolMode'',
     ''totalUpload'', ''totalDownload'', ''realtimeTraffic'', ''upBytes'', ''downBytes'', ''trafficUpdatedAt'', ''trafficText'']"

definition hydrate_keys :: "string \<Rightarrow> row \<Rightarrow> string list" where
  "hydrate_keys today old = HYDRATE_KEYS @ (if dget old ''trafficDate'' = JStr today then DAY_COUNTERS @ [''trafficDate''] else [])
     @ (if dget old ''todayOnlineDate'' = JStr today then [''todayOnlineDurationSec'', ''todayOnlineDurationText'', ''todayOnlineDate''] else [])"

definition empty_field :: "string \<Rightarrow> row \<Rightarrow> bool" where
  "empty_field k r = (clean_saved_value (dget r k) = [])"

definition fill_field :: "row \<Rightarrow> string \<Rightarrow> row \<Rightarrow> row" where
  "fill_field old k r = (if empty_field k r \<and> \<not> empty_field k old then dset k (dget old k) r else r)"

definition set_if_empty :: "json \<Rightarrow> string \<Rightarrow> row \<Rightarrow> row" where
  "set_if_empty v k r = (if empty_field k r then dset k v r else r)"

definition lan_prefixes :: "docs \<Rightarrow> string list" where
  "lan_prefixes d = normalize_ipv6_prefixes (por (dget (items (por (dget (items (load_json d ''state.json'' (JObj []))) ''router'') (JObj [])))
     ''lanIpv6Prefixes'') (JList []))"

definition hydrate_records :: "env \<Rightarrow> docs \<Rightarrow> row \<Rightarrow> row \<Rightarrow> row" where
  "hydrate_records e d old out =
    (let records = normalize_ipv6_records e (lan_prefixes d) (por (por (dget out ''ipv6Records'') (dget old ''ipv6Records'')) (JList []));
         best = pick_primary_ipv6 e records in
     if records = [] then out
     else with_best best (dset ''ipv6List'' (JList (map JStr (best_first e best records))) (dset ''ipv6Records'' (JList (map JObj records)) out)))"

definition hydrate_list :: "row \<Rightarrow> row \<Rightarrow> row" where
  "hydrate_list old out = (case normalize_ipv6_list (por (por (dget out ''ipv6List'') (dget old ''ipv6List'')) (JList [])) of
     [] \<Rightarrow> out
   | ip # ips \<Rightarrow> fold (set_if_empty (JStr ip)) [''ipv6'', ''ipv6Address'', ''globalIpv6''] (dset ''ipv6List'' (JList (map JStr (ip # ips))) out))"

definition hydrate_offline :: "row \<Rightarrow> row \<Rightarrow> row" where
  "hydrate_offline old out = (if truthy (dget out ''online'') then out else
     (let ip = por (dget old ''lastIp'') (dget old ''ip'');
          out1 = (if empty_field ''ip'' out \<and> clean_saved_value ip \<noteq> [] then dset ''lastIp'' ip out else out) in
      if empty_field ''offlineAt'' out1 \<and> \<not> empty_field ''offlineAt'' old then dset ''offlineAt'' (dget old ''offlineAt'') out1 else out1))"

definition hydrate_device :: "env \<Rightarrow> string \<Rightarrow> docs \<Rightarrow> row \<Rightarrow> row \<Rightarrow> row" where
  "hydrate_device e today d archive dev =
    (let mac = norm_mac (dget dev ''mac''); old = items (dget archive mac) in
     if mac = [] \<or> old = [] then dev
     else hydrate_offline old (hydrate_list old (hydrate_records e d old (fold (fill_field old) (hydrate_keys today old) dev))))"

definition offline_card :: "string \<Rightarrow> row \<Rightarrow> row" where
  "offline_card mac snapshot =
    (let item = dset ''online'' (JBool False) (dset ''mac'' (JStr mac) snapshot);
         gone = clean_saved_value (dget item ''offlineAt''); at = text_or gone (clean_saved_value (dget item ''archivedAt'')) in
     dset ''lastSeenAt'' (JStr (text_or (clean_saved_value (dget item ''lastSeenAt'')) at)) (dset ''offlineAt'' (JStr at) item))"

text \<open>The latest first; sorting by text in reverse keeps the order of equal texts.\<close>

definition latest_first :: "(row \<Rightarrow> string) \<Rightarrow> row list \<Rightarrow> row list" where
  "latest_first f rows = rev (sort_key f (rev rows))"

definition archived_offline_devices :: "env \<Rightarrow> string \<Rightarrow> docs \<Rightarrow> row list \<Rightarrow> row \<Rightarrow> row list" where
  "archived_offline_devices e today d online archive =
    (let present = filter (\<lambda>m. m \<noteq> []) (map (\<lambda>r. norm_mac (dget r ''mac'')) online);
         mac_of = (\<lambda>(mac, v). norm_mac (por (JStr mac) (dget (items v) ''mac'')));
         gone = filter (\<lambda>kv. mac_of kv \<noteq> [] \<and> mac_of kv \<notin> set present) archive;
         rows = map (\<lambda>kv. hydrate_device e today d archive (offline_card (mac_of kv) (items (snd kv)))) gone in
     take 500 (latest_first (\<lambda>r. clean_saved_value (por (por (dget r ''offlineAt'') (dget r ''lastSeenAt'')) (dget r ''archivedAt''))) rows))"

definition merge_ipv6_neighbors :: "env \<Rightarrow> host \<Rightarrow> string list \<Rightarrow> row list \<Rightarrow> docs \<Rightarrow> nat \<times> docs" where
  "merge_ipv6_neighbors e h prefixes neighbors d =
    (if neighbors = [] then (0, d)
     else case fold (merge_neighbor_into e h prefixes) neighbors (load_device_archive d, 0) of
       (archive, changed) \<Rightarrow> (changed, save_device_archive archive d))"

definition attach_host :: "env \<Rightarrow> host \<Rightarrow> string list \<Rightarrow> row list \<Rightarrow> row \<Rightarrow> row \<Rightarrow> row" where
  "attach_host e h prefixes local archive dev =
    (let mac = norm_mac (dget dev ''mac''); old = (if mac = [] then [] else items (dget archive mac)) in
     if \<not> is_host h mac (dget dev ''ip'') then dev
     else let records = normalize_ipv6_records e prefixes (por (por (por (por (dget dev ''ipv6Records'') (dget old ''ipv6Records''))
                 (dget dev ''ipv6List'')) (dget old ''ipv6List'')) (JList []));
              merged = normalize_ipv6_records e prefixes (JList (map (JObj \<circ> snd) (fold add_local local (by_ip records))));
              best = pick_primary_ipv6 e merged; marked = mark_primary best merged;
              dev' = dset ''ipv6List'' (JList (map JStr (best_first e best marked))) (dset ''ipv6Records'' (JList (map JObj marked)) dev) in
       if best = [] then dev' else dset ''ipv6UpdatedAt'' (JStr (env_now_str e)) (with_best best dev'))"

definition attach_hub_local_ipv6 :: "env \<Rightarrow> host \<Rightarrow> docs \<Rightarrow> row list \<Rightarrow> row list" where
  "attach_hub_local_ipv6 e h d devices =
    (let local = local_hub_ipv6_records e h in
     if devices = [] \<or> local = [] then devices
     else map (attach_host e h (lan_prefixes d) local (load_device_archive d)) devices)"

section \<open>Watched devices\<close>

definition overlay_non_empty :: "row \<Rightarrow> row \<Rightarrow> row" where
  "overlay_non_empty base overlay = fold (\<lambda>(k, v) r.
     if clean_saved_value v \<noteq> [] \<or> (case v of JBool _ \<Rightarrow> True | _ \<Rightarrow> False) \<or> v = JInt 0 \<or> map_of r k = None then dset k v r else r) overlay base"

definition device_map :: "row list \<Rightarrow> (string \<times> row) list" where
  "device_map rows = dict_of (map (\<lambda>r. (norm_mac (dget r ''mac''), r)) (filter (\<lambda>r. norm_mac (dget r ''mac'') \<noteq> []) rows))"

definition watched_online :: "env \<Rightarrow> row \<Rightarrow> row \<Rightarrow> row" where
  "watched_online e online row0 =
    (let r = overlay_non_empty row0 online;
         r1 = dmerge r [(''online'', JBool True), (''offlineAt'', JNull),
           (''lastSeenAt'', JStr (text_or (clean_saved_value (dget online ''lastSeenAt'')) (env_now_str e)))] in
     set_if_empty (JStr (env_now_str e)) ''onlineSince'' r1)"

definition watched_offline :: "row \<Rightarrow> row" where
  "watched_offline r =
    (let last_ip = clean_saved_value (por (dget r ''lastIp'') (dget r ''ip''));
         at = clean_saved_value (por (dget r ''offlineAt'') (dget r ''archivedAt'')) in
     dmerge r [(''online'', JBool False), (''lastIp'', JStr last_ip), (''ip'', JNull), (''offlineAt'', JStr at),
       (''lastSeenAt'', JStr (text_or (clean_saved_value (dget r ''lastSeenAt'')) at))])"

abbreviation DEVICES :: string where "DEVICES \<equiv> ''devices.json''"

definition watched_card :: "env \<Rightarrow> string \<Rightarrow> docs \<Rightarrow> row \<Rightarrow> (string \<times> row) list \<Rightarrow> (string \<times> row) list \<Rightarrow> row \<Rightarrow> row option" where
  "watched_card e today d archive previous online config =
    (let mac = norm_mac (dget config ''mac''); alias = clean_saved_value (dget config ''name'');
         base = overlay_non_empty (case map_of previous mac of None \<Rightarrow> [] | Some r \<Rightarrow> r) (items (dget archive mac));
         r = (case map_of online mac of Some o' \<Rightarrow> watched_online e o' base | None \<Rightarrow> watched_offline base);
         r1 = dset ''mac'' (JStr mac) r; r2 = (if alias = [] then r1 else dset ''name'' (JStr alias) r1) in
     if mac = [] then None else Some (hydrate_device e today d archive r2))"

definition canonical_watched_devices :: "env \<Rightarrow> string \<Rightarrow> row list \<Rightarrow> docs \<Rightarrow> row list \<Rightarrow> row list" where
  "canonical_watched_devices e today configured d online =
    List.map_filter (watched_card e today d (load_device_archive d)
      (device_map (dict_rows (dget (items (load_json d DEVICES (JObj []))) ''watched''))) (device_map online)) configured"

section \<open>The rollup of a day\<close>

text \<open>\<open>_integer\<close>: the text of a number, here without a fraction.\<close>

definition natural :: "json \<Rightarrow> int" where
  "natural v = (case float_int (strip (py_str v)) of None \<Rightarrow> 0 | Some i \<Rightarrow> max 0 i)"

definition traffic_counter :: "string list \<Rightarrow> row \<Rightarrow> int" where
  "traffic_counter keys r = (case List.find (\<lambda>k. dget r k \<notin> {JNull, JStr []}) keys of None \<Rightarrow> 0 | Some k \<Rightarrow> natural (dget r k))"

definition advance_total :: "int \<Rightarrow> int \<Rightarrow> int \<Rightarrow> int" where
  "advance_total last_count total_bytes now_count =
    (if last_count \<le> 0 then max total_bytes now_count
     else if last_count \<le> now_count then total_bytes + (now_count - last_count) else total_bytes + now_count)"

definition advance_counter :: "string \<Rightarrow> string \<Rightarrow> int \<Rightarrow> row \<Rightarrow> row" where
  "advance_counter last_key total_key now_count entry =
    dset total_key (JInt (advance_total (natural (dget entry last_key)) (natural (dget entry total_key)) now_count))
      (dset last_key (JInt now_count) entry)"

definition or_text :: "json \<Rightarrow> row \<Rightarrow> string \<Rightarrow> string" where
  "or_text v entry k = text_or (clean_saved_value v) (clean_saved_value (dget entry k))"

definition rollup_online :: "string \<Rightarrow> string \<Rightarrow> row \<Rightarrow> row \<Rightarrow> row" where
  "rollup_online stamp mac dev entry =
    (let e1 = dmerge entry [(''mac'', JStr mac), (''name'', JStr (text_or (or_text (dget dev ''name'') entry ''name'') mac)),
           (''ip'', JStr (or_text (por (dget dev ''ip'') (dget dev ''lastIp'')) entry ''ip'')), (''online'', JBool True),
           (''onlineSince'', JStr (text_or (or_text (dget dev ''onlineSince'') entry ''onlineSince'') stamp)),
           (''firstSeenAt'', JStr (text_or (clean_saved_value (dget entry ''firstSeenAt'')) stamp)), (''lastSeenAt'', JStr stamp),
           (''offlineAt'', JStr []),
           (''onlineDurationSec'', JInt (max (natural (dget entry ''onlineDurationSec'')) (natural (dget dev ''todayOnlineDurationSec''))))] in
     advance_counter ''lastDownloadCounter'' ''downloadBytes'' (traffic_counter [''todayDownload'', ''dailyDownBytes''] dev)
       (advance_counter ''lastUploadCounter'' ''uploadBytes'' (traffic_counter [''todayUpload'', ''dailyUpBytes''] dev) e1))"

definition rollup_gone :: "string \<Rightarrow> string \<Rightarrow> row \<Rightarrow> row \<Rightarrow> row" where
  "rollup_gone stamp mac old entry =
    dmerge entry [(''mac'', JStr mac), (''name'', JStr (text_or (or_text (dget old ''name'') entry ''name'') mac)),
      (''ip'', JStr (or_text (por (dget old ''ip'') (dget old ''lastIp'')) entry ''ip'')), (''online'', JBool False),
      (''onlineSince'', JStr (or_text (dget old ''onlineSince'') entry ''onlineSince'')),
      (''lastSeenAt'', JStr (or_text (dget old ''lastSeenAt'') entry ''lastSeenAt'')), (''offlineAt'', JStr stamp),
      (''onlineDurationSec'', JInt (max (natural (dget entry ''onlineDurationSec'')) (natural (dget old ''todayOnlineDurationSec''))))]"

definition update_entry :: "(row \<Rightarrow> row) \<Rightarrow> string \<Rightarrow> row \<Rightarrow> row" where
  "update_entry f mac entries = dset mac (JObj (f (items (dget entries mac)))) entries"

definition rollup_entries :: "string \<Rightarrow> (string \<times> row) list \<Rightarrow> (string \<times> row) list \<Rightarrow> row \<Rightarrow> row" where
  "rollup_entries stamp current previous entries =
    fold (\<lambda>(mac, old). update_entry (rollup_gone stamp mac old) mac) (filter (\<lambda>p. map_of current (fst p) = None) previous)
      (fold (\<lambda>(mac, dev). update_entry (rollup_online stamp mac dev) mac) current entries)"

definition RETENTION :: nat where "RETENTION = 120"

definition drop_old_days :: "row \<Rightarrow> row" where
  "drop_old_days days = fold dpop (take (length days - RETENTION) (sort (map fst days))) days"

abbreviation ROLLUPS :: string where "ROLLUPS \<equiv> ''daily.json''"

definition load_rollups :: "docs \<Rightarrow> row" where
  "load_rollups d = (let root = items (load_json d ROLLUPS (JObj [])) in
     [(''version'', JInt 2), (''days'', JObj (items (dget root ''days''))), (''updatedAt'', dget_or root ''updatedAt'' (JStr []))])"

definition save_rollups :: "env \<Rightarrow> row \<Rightarrow> docs \<Rightarrow> docs" where
  "save_rollups e root d = save_json d ROLLUPS (JObj (dmerge root [(''days'', JObj (drop_old_days (items (dget root ''days'')))),
     (''version'', JInt 2), (''updatedAt'', JStr (env_now_str e))]))"

definition update_rollup :: "env \<Rightarrow> moment \<Rightarrow> row list \<Rightarrow> (string \<times> row) list \<Rightarrow> docs \<Rightarrow> docs" where
  "update_rollup e now online previous d =
    (let root = load_rollups d; days = items (dget root ''days''); day = items (dget days (mo_day now));
         entries = rollup_entries (mo_text now) (device_map online) previous (items (dget day ''devices''));
         day' = dmerge day [(''date'', JStr (mo_day now)), (''updatedAt'', JStr (mo_text now)), (''devices'', JObj entries)] in
     save_rollups e (dset ''days'' (JObj (dset (mo_day now) (JObj day') days)) root) d)"

section \<open>The history\<close>

record history =
  hs_docs :: docs
  hs_empty_streak :: int
  hs_last_snapshot :: string
  hs_last_error :: string

abbreviation HEALTH :: string where "HEALTH \<equiv> ''device_snapshot_health.json''"

definition load_history :: "docs \<Rightarrow> history" where
  "load_history d = (let root = items (load_json d HEALTH (JObj [])) in
     \<lparr>hs_docs = d, hs_empty_streak = natural (dget root ''emptyStreak''), hs_last_snapshot = clean_saved_value (dget root ''lastSnapshotAt''),
      hs_last_error = clean_saved_value (dget root ''lastError'')\<rparr>)"

definition save_health :: "env \<Rightarrow> bool \<Rightarrow> nat \<Rightarrow> string \<Rightarrow> history \<Rightarrow> history" where
  "save_health e accepted n error s =
    (let s1 = (if error \<noteq> [] then s\<lparr>hs_last_error := error\<rparr>
               else if accepted then s\<lparr>hs_last_error := [], hs_last_snapshot := env_now_str e\<rparr> else s) in
     s1\<lparr>hs_docs := save_json (hs_docs s1) HEALTH (JObj [(''accepted'', JBool accepted), (''onlineDeviceCount'', JInt (int n)),
       (''emptyStreak'', JInt (hs_empty_streak s1)), (''lastSnapshotAt'', JStr (hs_last_snapshot s1)),
       (''lastError'', JStr (hs_last_error s1)), (''updatedAt'', JStr (env_now_str e))])\<rparr>)"

definition duration_between :: "moment \<Rightarrow> json \<Rightarrow> json \<Rightarrow> string" where
  "duration_between now a b = (case (parse_time_safe now a, parse_time_safe now b) of
     (Some s, Some t) \<Rightarrow> human_duration_precise (JInt (t - s)) | _ \<Rightarrow> [])"

definition either :: "row \<Rightarrow> row \<Rightarrow> string \<Rightarrow> string" where
  "either device previous k = text_or (clean_saved_value (dget device k)) (clean_saved_value (dget previous k))"

definition transition_event :: "moment \<Rightarrow> bool \<Rightarrow> row \<Rightarrow> row \<Rightarrow> row" where
  "transition_event now online device previous =
    (let stamp = mo_text now;
         name = text_or (text_or (either device previous ''name'') (norm_mac (dget device ''mac''))) (cjk [12, 13, 25, 26]);
         since = text_or (either device previous ''onlineSince'') (if online then stamp else []);
         gone = (if online then [] else stamp);
         duration = (if online then [] else text_or (duration_between now (JStr since) (JStr gone))
           (clean_saved_value (por (dget previous ''todayOnlineDurationText'') (dget previous ''onlineDurationText''))));
         ip = JStr (clean_saved_value (por (por (por (dget device ''ip'') (dget device ''lastIp'')) (dget previous ''ip'')) (dget previous ''lastIp'')));
         field = (\<lambda>k. (k, dget_or device k (dget previous k))) in
     [(''type'', JStr (if online then ''device_online'' else ''device_offline'')), (''source'', JStr ''durable_device_snapshot''),
      (''title'', JStr (name @ (if online then CAME_ONLINE else WENT_OFFLINE))), (''name'', JStr name),
      (''mac'', JStr (norm_mac (por (dget device ''mac'') (dget previous ''mac'')))), (''createdAt'', JStr stamp), (''time'', JStr stamp),
      (''ip'', ip), (''lastIp'', ip), field ''rssi'', field ''band'', field ''rxrate'', field ''ssid'', field ''connectType'',
      (''onlineSince'', JStr since), (''offlineAt'', JStr gone), (''onlineDurationText'', JStr duration),
      (''oldValue'', JStr (if online then ''offline'' else ''online'')), (''newValue'', JStr (if online then ''online'' else ''offline'')),
      (''device'', JObj (if online then device else previous))])"

text \<open>The row of a device that has gone.\<close>

definition gone_row :: "moment \<Rightarrow> row \<Rightarrow> row" where
  "gone_row now old =
    (let seconds = natural (dget old ''todayOnlineDurationSec'') in
     dmerge old [(''online'', JBool False), (''lastIp'', JStr (clean_saved_value (por (dget old ''ip'') (dget old ''lastIp'')))), (''ip'', JNull),
       (''offlineAt'', JStr (mo_text now)), (''lastChangedAt'', JStr (mo_text now)), (''todayOnlineDurationSec'', JInt seconds),
       (''todayOnlineDurationText'', JStr (text_or (clean_saved_value (dget old ''todayOnlineDurationText'')) (human_duration (JInt seconds)))),
       (''todayOnlineDate'', JStr (text_or (clean_saved_value (dget old ''todayOnlineDate'')) (mo_day now)))])"

text \<open>The transitions from the previous to the current devices: those that came, then those that went.\<close>

datatype transition = Came string row | Went string row

definition transitions :: "(string \<times> row) list \<Rightarrow> (string \<times> row) list \<Rightarrow> transition list" where
  "transitions previous current =
     map (\<lambda>(mac, dev). Came mac dev) (filter (\<lambda>p. map_of previous (fst p) = None) current)
     @ map (\<lambda>(mac, old). Went mac old) (filter (\<lambda>p. map_of current (fst p) = None) previous)"

fun record_transition :: "env \<Rightarrow> moment \<Rightarrow> transition \<Rightarrow> docs \<Rightarrow> docs" where
  "record_transition e now (Came mac dev) d = add_event (env_now_str e) (transition_event now True dev []) d"
| "record_transition e now (Went mac old) d =
     archive_device_snapshot e (gone_row now old) (add_event (env_now_str e) (transition_event now False (gone_row now old) old) d)"

definition previous_online :: "docs \<Rightarrow> (string \<times> row) list" where
  "previous_online d = device_map (dict_rows (dget (items (load_json d DEVICES (JObj [(''online'', JList [])]))) ''online''))"

definition hydrated_online :: "env \<Rightarrow> moment \<Rightarrow> host \<Rightarrow> docs \<Rightarrow> row list \<Rightarrow> row list" where
  "hydrated_online e now h d online =
     attach_hub_local_ipv6 e h d (map (\<lambda>dev. dmerge (hydrate_device e (mo_day now) d (load_device_archive d) dev)
       [(''online'', JBool True), (''lastSeenAt'', JStr (mo_text now)), (''offlineAt'', JNull)]) online)"

definition devices_document :: "moment \<Rightarrow> row list \<Rightarrow> int \<Rightarrow> row list \<Rightarrow> json" where
  "devices_document now hydrated all_count watched =
     JObj [(''source'', JStr ''labrelay_durable_snapshot''), (''updatedAt'', JStr (mo_text now)), (''onlineDeviceCount'', JInt (int (length hydrated))),
       (''total'', JInt all_count), (''online'', JList (map JObj hydrated)), (''watched'', JList (map JObj watched))]"

definition state_document :: "env \<Rightarrow> moment \<Rightarrow> nat \<Rightarrow> int \<Rightarrow> row list \<Rightarrow> docs \<Rightarrow> json" where
  "state_document e now n all_count watched d =
    (let state = items (load_json d ''state.json'' (JObj []));
         router = dmerge (items (dget state ''router'')) [(''name'', JStr (env_router e)), (''mode'', JStr ''labrelay_durable_snapshot''),
           (''onlineDeviceCount'', JInt (int n)), (''total'', JInt all_count), (''devicesUpdatedAt'', JStr (mo_text now))] in
     JObj (dset ''updatedAt'' (JStr (mo_text now)) (dset ''devices'' (JList (map JObj watched)) (dset ''router'' (JObj router) state))))"

record snapshot =
  sn_online :: "row list"
  sn_total :: int
  sn_neighbors :: "row list"

text \<open>Taking an accepted snapshot.\<close>

definition take_snapshot :: "env \<Rightarrow> moment \<Rightarrow> host \<Rightarrow> row list \<Rightarrow> snapshot \<Rightarrow> docs \<Rightarrow> docs \<times> row list" where
  "take_snapshot e now h configured sn d0 =
    (let previous = previous_online d0; d1 = snd (merge_ipv6_neighbors e h [] (sn_neighbors sn) d0);
         hydrated = hydrated_online e now h d1 (sn_online sn);
         d2 = fold (record_transition e now) (transitions previous (device_map hydrated)) d1;
         d3 = fold (archive_device_snapshot e) hydrated d2;
         watched = canonical_watched_devices e (mo_day now) configured d3 hydrated;
         d4 = save_json d3 DEVICES (devices_document now hydrated (sn_total sn) watched);
         d5 = save_json d4 ''state.json'' (state_document e now (length hydrated) (sn_total sn) watched d4) in
     (update_rollup e now hydrated previous d5, hydrated))"

text \<open>A snapshot without devices counts only when it is confirmed by a second one.\<close>

datatype ingested = Deferred int | Accepted nat | Rejected string

definition ingest_rows :: "env \<Rightarrow> moment \<Rightarrow> host \<Rightarrow> row list \<Rightarrow> snapshot \<Rightarrow> history \<Rightarrow> ingested \<times> history" where
  "ingest_rows e now h configured sn s =
    (let unexpected = (sn_online sn = [] \<and> previous_online (hs_docs s) \<noteq> []);
         s1 = s\<lparr>hs_empty_streak := (if unexpected then hs_empty_streak s + 1 else 0)\<rparr> in
     if unexpected \<and> hs_empty_streak s1 < 2
     then (Deferred (hs_empty_streak s1), save_health e False 0 ''empty snapshot awaiting confirmation'' s1)
     else case take_snapshot e now h configured sn (hs_docs s1) of
       (d, hydrated) \<Rightarrow> (Accepted (length hydrated), save_health e True (length hydrated) [] (s1\<lparr>hs_docs := d\<rparr>)))"

text \<open>What arrives: a payload of the router, as its parser reads it, whose devices are counted for their online time of the
  day first; the rows that the live sampler prepared; or a payload that the parser cannot read, with its error.\<close>

datatype delivery =
    Payload snapshot
  | Prepared "row list" json "row list"
  | Unreadable string

definition prepared_snapshot :: "row list \<Rightarrow> json \<Rightarrow> row list \<Rightarrow> snapshot" where
  "prepared_snapshot rows n neighbors = \<lparr>sn_online = rows, sn_total = max (int (length rows)) (natural n), sn_neighbors = neighbors\<rparr>"

definition received :: "moment \<Rightarrow> delivery \<Rightarrow> docs \<Rightarrow> string + snapshot \<times> docs" where
  "received now p d = (case p of
     Payload sn \<Rightarrow> (case update_daily_online now (sn_online sn) d of (rows, d') \<Rightarrow> Inr (sn\<lparr>sn_online := rows\<rparr>, d'))
   | Prepared rows n neighbors \<Rightarrow> Inr (prepared_snapshot rows n neighbors, d)
   | Unreadable err \<Rightarrow> Inl err)"

definition ingest :: "env \<Rightarrow> moment \<Rightarrow> host \<Rightarrow> row list \<Rightarrow> delivery \<Rightarrow> history \<Rightarrow> ingested \<times> history" where
  "ingest e now h configured p s = (case received now p (hs_docs s) of
     Inl err \<Rightarrow> (Rejected err, save_health e False 0 err s)
   | Inr (sn, d) \<Rightarrow> ingest_rows e now h configured sn (s\<lparr>hs_docs := d\<rparr>))"

section \<open>The sources of snapshots\<close>

text \<open>The hook of the relay has authority: for \<open>HOOK_FALLBACK_GRACE_SECONDS\<close> after an accepted snapshot of the hook the
  fallback is not read (\<open>src/hub0935_sync_fix.py\<close>).\<close>

definition HOOK_GRACE :: int where "HOOK_GRACE = 35"

record source_state =
  so_hook :: int
  so_fallback :: int

datatype source_kind = Hook | Fallback

definition mark_source :: "source_kind \<Rightarrow> int \<Rightarrow> source_state \<Rightarrow> source_state" where
  "mark_source k now s = (case k of Hook \<Rightarrow> s\<lparr>so_hook := now\<rparr> | Fallback \<Rightarrow> s\<lparr>so_fallback := now\<rparr>)"

definition hook_recent :: "int \<Rightarrow> source_state \<Rightarrow> bool" where
  "hook_recent now s = (so_hook s \<noteq> 0 \<and> now - so_hook s \<le> HOOK_GRACE)"

definition source_snapshot :: "source_kind \<Rightarrow> env \<Rightarrow> moment \<Rightarrow> host \<Rightarrow> row list \<Rightarrow> delivery \<Rightarrow> history \<times> source_state \<Rightarrow> ingested option \<times> history \<times> source_state" where
  "source_snapshot k e now h configured p hs =
    (if k = Fallback \<and> hook_recent (env_now e) (snd hs) then (None, hs)
     else case ingest e now h configured p (fst hs) of
       (Accepted n, h') \<Rightarrow> (Some (Accepted n), h', mark_source k (env_now e) (snd hs))
     | (r, h') \<Rightarrow> (Some r, h', snd hs))"

section \<open>The report of a day with its devices\<close>

definition day_devices :: "string \<Rightarrow> docs \<Rightarrow> row" where
  "day_devices day d = items (dget (items (dget (items (dget (load_rollups d) ''days'')) day)) ''devices'')"

end
