(* ===== verification/DevicesRuns.thy ===== *)
theory DevicesRuns
  imports Devices IpText
begin

text \<open>
  Devices over time: the comings and goings of each device alternate, one snapshot without devices changes
  nothing, the traffic of a day adds up, the documents stay bounded, and the recorded IPv6 addresses are
  well-formed.
\<close>

section \<open>Fields that operations keep\<close>

lemma fold_keeps: "(\<And>x r. x \<in> set xs \<Longrightarrow> P r \<Longrightarrow> P (f x r)) \<Longrightarrow> P r \<Longrightarrow> P (fold f xs r)"
  by (induction xs arbitrary: r) auto

lemma dget_dmerge_other: "k \<notin> fst ` set b \<Longrightarrow> dget (dmerge a b) k = dget a k"
proof -
  assume "k \<notin> fst ` set b"
  then have "map_of (rev b) k = None" by (simp add: map_of_eq_None_iff)
  then show ?thesis by (simp add: dget_def dget_or_def dget_dmerge)
qed

lemma mac_with_best [simp]: "dget (with_best best d) ''mac'' = dget d ''mac''"
  by (simp add: with_best_def dget_dset_json)

lemma mac_hydrated [simp]: "dget (hydrate_device e today d archive dev) ''mac'' = dget dev ''mac''"
proof -
  let ?m = "dget dev ''mac''"
  have fields: "dget (fold (fill_field old) (hydrate_keys today old) dev) ''mac'' = ?m" for old
    by (rule fold_keeps) (auto simp: fill_field_def dget_dset_json hydrate_keys_def HYDRATE_KEYS_def DAY_COUNTERS_def)
  have records: "dget (hydrate_records e d old r) ''mac'' = dget r ''mac''" for old r
    by (simp add: hydrate_records_def Let_def dget_dset_json)
  have lists: "dget (hydrate_list old r) ''mac'' = dget r ''mac''" for old r
    by (auto simp: hydrate_list_def set_if_empty_def dget_dset_json split: list.splits)
  have gone: "dget (hydrate_offline old r) ''mac'' = dget r ''mac''" for old r
    by (simp add: hydrate_offline_def Let_def dget_dset_json)
  show ?thesis by (simp add: hydrate_device_def Let_def fields records lists gone)
qed

lemma mac_attached [simp]: "dget (attach_host e h ps local archive dev) ''mac'' = dget dev ''mac''"
  by (simp add: attach_host_def Let_def dget_dset_json)

lemma macs_hydrated: "map (\<lambda>r. dget r ''mac'') (hydrated_online e now h d online) = map (\<lambda>r. dget r ''mac'') online"
  by (simp add: hydrated_online_def attach_hub_local_ipv6_def Let_def comp_def dget_dset_json)

section \<open>The devices that are online\<close>

definition macs_of :: "row list \<Rightarrow> string set" where
  "macs_of rows = {m. m \<noteq> [] \<and> m \<in> norm_mac ` (\<lambda>r. dget r ''mac'') ` set rows}"

lemma device_map_ok: "dict_ok (device_map rows)"
  by (simp add: device_map_def)

lemma dom_dict_of: "fst ` set (dict_of kvs) = fst ` set kvs"
proof -
  have "dom (map_of (dict_of kvs)) = dom (map_of (rev kvs))" by (simp add: dget_dict_of [abs_def])
  then show ?thesis by (simp add: dom_map_of_conv_image_fst)
qed

lemma device_map_keys: "fst ` set (device_map rows) = macs_of rows"
  by (auto simp: device_map_def dom_dict_of macs_of_def image_iff)

lemma macs_cong: "map (\<lambda>r. dget r ''mac'') rows = map (\<lambda>r. dget r ''mac'') rows' \<Longrightarrow> macs_of rows = macs_of rows'"
  by (simp add: macs_of_def flip: set_map)

definition mac_text :: "row \<Rightarrow> bool" where
  "mac_text r = (case dget r ''mac'' of JStr m \<Rightarrow> length m \<le> 65536 | _ \<Rightarrow> False)"

text \<open>Compaction of the stored rows keeps their addresses.\<close>

lemma map_of_compact_fields:
  "map_of (map (\<lambda>(k, v). (k, compact_runtime_document v)) (filter (\<lambda>(k, v). k \<notin> set BLOCKED_KEYS) d)) k =
     (if k \<in> set BLOCKED_KEYS then None else map_option compact_runtime_document (map_of d k))"
  by (induction d) auto

lemma compact_mac: "mac_text r \<Longrightarrow> dget (items (compact_runtime_document (JObj r))) ''mac'' = dget r ''mac''"
proof -
  assume r: "mac_text r"
  have "''mac'' \<notin> set BLOCKED_KEYS" by (simp add: BLOCKED_KEYS_def)
  then show ?thesis
    using r by (auto simp: dget_def dget_or_def map_of_compact_fields mac_text_def split: option.splits json.splits)
qed

lemma compact_rows: "dict_rows (compact_runtime_document (JList (map JObj rows))) = map (\<lambda>r. items (compact_runtime_document (JObj r))) rows"
  by (simp add: dict_rows_def comp_def)

definition stored_macs :: "docs \<Rightarrow> string set" where
  "stored_macs d = fst ` set (previous_online d)"

lemma stored_macs_cong: "d DEVICES = d' DEVICES \<Longrightarrow> stored_macs d = stored_macs d'"
  by (simp add: stored_macs_def previous_online_def load_json_def)

lemma saved_rollup_other: "key \<noteq> ROLLUPS \<Longrightarrow> update_rollup e now online previous d key = d key"
  by (simp add: update_rollup_def save_rollups_def Let_def)

lemma stored_saved:
  assumes "list_all mac_text rows"
  shows "stored_macs (save_json d DEVICES (devices_document now rows n watched)) = macs_of rows"
proof -
  let ?doc = "compact_runtime_document (devices_document now rows n watched)"
  have "''online'' \<notin> set BLOCKED_KEYS" by (simp add: BLOCKED_KEYS_def)
  then have "dget (items ?doc) ''online'' = compact_runtime_document (JList (map JObj rows))"
    by (simp add: devices_document_def BLOCKED_KEYS_def dget_def dget_or_def)
  then have "stored_macs (save_json d DEVICES (devices_document now rows n watched)) =
      macs_of (map (\<lambda>r. items (compact_runtime_document (JObj r))) rows)"
    by (simp add: stored_macs_def previous_online_def prepare_def device_map_keys compact_rows del: compact_runtime_document.simps(1))
  also have "\<dots> = macs_of rows"
    by (rule macs_cong) (use assms compact_mac in \<open>auto simp: list_all_iff\<close>)
  finally show ?thesis .
qed

lemma taken_macs:
  assumes "list_all mac_text (sn_online sn)" and "take_snapshot e now h configured sn d = (d', hydrated)"
  shows "stored_macs d' = macs_of (sn_online sn)" and "macs_of hydrated = macs_of (sn_online sn)"
proof -
  let ?d1 = "snd (merge_ipv6_neighbors e h [] (sn_neighbors sn) d)"
  have hyd: "hydrated = hydrated_online e now h ?d1 (sn_online sn)" using assms(2) by (simp add: take_snapshot_def Let_def)
  have macs: "map (\<lambda>r. dget r ''mac'') hydrated = map (\<lambda>r. dget r ''mac'') (sn_online sn)" unfolding hyd by (rule macs_hydrated)
  then show eq: "macs_of hydrated = macs_of (sn_online sn)" by (rule macs_cong)
  have "list_all mac_text hydrated = list_all mac_text (sn_online sn)"
  proof -
    have "list_all mac_text rows = list_all (\<lambda>v. case v of JStr m \<Rightarrow> length m \<le> 65536 | _ \<Rightarrow> False) (map (\<lambda>r. dget r ''mac'') rows)" for rows
      by (simp add: list_all_iff mac_text_def)
    then show ?thesis using macs by simp
  qed
  then have macs_ok: "list_all mac_text hydrated" using assms(1) by simp
  obtain d3 watched v where d': "d' = update_rollup e now hydrated (previous_online d)
      (save_json (save_json d3 DEVICES (devices_document now hydrated (sn_total sn) watched)) ''state.json'' v)"
    using assms(2) hyd by (auto simp: take_snapshot_def Let_def)
  have "d' DEVICES = save_json d3 DEVICES (devices_document now hydrated (sn_total sn) watched) DEVICES"
    unfolding d' by (simp add: saved_rollup_other)
  then have "stored_macs d' = stored_macs (save_json d3 DEVICES (devices_document now hydrated (sn_total sn) watched))"
    by (rule stored_macs_cong)
  then show "stored_macs d' = macs_of (sn_online sn)" using stored_saved [OF macs_ok] eq by simp
qed

section \<open>Runs of snapshots\<close>

text \<open>The surroundings of a delivery, and a run of deliveries.\<close>

type_synonym taken = "env \<times> moment \<times> host \<times> row list \<times> delivery"

definition ingest_one :: "taken \<Rightarrow> history \<Rightarrow> ingested \<times> history" where
  "ingest_one t s = (case t of (e, now, h, configured, p) \<Rightarrow> ingest e now h configured p s)"

definition ingest_run :: "taken list \<Rightarrow> history \<Rightarrow> history" where
  "ingest_run ts s = fold (\<lambda>t s. snd (ingest_one t s)) ts s"

fun rows_of :: "delivery \<Rightarrow> row list" where
  "rows_of (Payload sn) = sn_online sn"
| "rows_of (Prepared rows n neighbors) = rows"
| "rows_of (Unreadable err) = []"

definition delivered :: "taken \<Rightarrow> delivery" where
  "delivered t = snd (snd (snd (snd t)))"

abbreviation addressed :: "taken \<Rightarrow> bool" where
  "addressed t \<equiv> list_all mac_text (rows_of (delivered t))"

text \<open>A delivery that was read and has no devices.\<close>

definition no_devices :: "taken \<Rightarrow> bool" where
  "no_devices t = (rows_of (delivered t) = [] \<and> (\<nexists>err. delivered t = Unreadable err))"

lemma stamped_macs: "map (\<lambda>r. dget r ''mac'') (stamp_devices now entries devices) = map (\<lambda>r. dget r ''mac'') devices"
  by (induction devices) (simp_all add: Let_def dget_dset_json)

lemma received_rows:
  assumes "received now p d = Inr (sn, d')"
  shows "map (\<lambda>r. dget r ''mac'') (sn_online sn) = map (\<lambda>r. dget r ''mac'') (rows_of p)" and "key \<noteq> DAILY_ONLINE \<Longrightarrow> d' key = d key"
  using assms by (auto simp: received_def update_daily_online_def prepared_snapshot_def Let_def stamped_macs split: delivery.splits)

lemma mac_text_macs: "list_all mac_text rows = list_all (\<lambda>v. case v of JStr m \<Rightarrow> length m \<le> 65536 | _ \<Rightarrow> False) (map (\<lambda>r. dget r ''mac'') rows)"
  by (simp add: list_all_iff mac_text_def)

lemma previous_cong: "d DEVICES = d' DEVICES \<Longrightarrow> previous_online d = previous_online d'"
  by (simp add: previous_online_def load_json_def)

section \<open>The log of events\<close>

abbreviation EVENTS :: string where "EVENTS \<equiv> ''events.json''"

definition event_rows :: "docs \<Rightarrow> row list" where
  "event_rows d = dict_rows (load_json d EVENTS (JList []))"

definition is_move :: "string \<Rightarrow> row \<Rightarrow> bool" where
  "is_move mac ev = (dget ev ''type'' \<in> {JStr ''device_online'', JStr ''device_offline''} \<and> dget ev ''mac'' = JStr mac)"

definition came_online :: "row \<Rightarrow> bool" where
  "came_online ev = (dget ev ''type'' = JStr ''device_online'')"

text \<open>What the log of events says of a device: whether it came, for each recorded coming or going.\<close>

definition device_log :: "string \<Rightarrow> docs \<Rightarrow> bool list" where
  "device_log mac d = map came_online (filter (is_move mac) (event_rows d))"

lemma event_rows_cong: "d EVENTS = d' EVENTS \<Longrightarrow> event_rows d = event_rows d'"
  by (simp add: event_rows_def load_json_def)

text \<open>Rows are added, and old ones dropped only while a thousand are kept.\<close>

definition grows :: "'a list \<Rightarrow> 'a list \<Rightarrow> 'a list \<Rightarrow> bool" where
  "grows xs new ys = (\<exists>k. ys = drop k (xs @ new) \<and> (k = 0 \<or> 1000 \<le> length ys))"

lemma grows_refl: "grows xs [] xs"
  unfolding grows_def by (intro exI [of _ 0]) simp

lemma grows_trans:
  assumes "grows xs n1 ys" and "grows ys n2 zs"
  shows "grows xs (n1 @ n2) zs"
proof -
  obtain j where j: "ys = drop j (xs @ n1)" "j = 0 \<or> 1000 \<le> length ys" using assms(1) unfolding grows_def by blast
  obtain k where k: "zs = drop k (ys @ n2)" "k = 0 \<or> 1000 \<le> length zs" using assms(2) unfolding grows_def by blast
  show ?thesis
  proof (cases "j = 0")
    case True
    then show ?thesis unfolding grows_def using j k by (intro exI [of _ k]) simp
  next
    case False
    then have "1000 \<le> length ys" using j(2) by simp
    then have "j \<le> length (xs @ n1)" unfolding j(1) length_drop by linarith
    then have "ys @ n2 = drop j (xs @ n1 @ n2)" using j(1) by simp
    then have "zs = drop (k + j) (xs @ n1 @ n2)" unfolding k(1) by (simp only: drop_drop)
    moreover have "1000 \<le> length zs"
    proof (cases "k = 0")
      case True
      then show ?thesis unfolding k(1) using \<open>1000 \<le> length ys\<close> by simp
    next
      case False
      then show ?thesis using k(2) by blast
    qed
    ultimately show ?thesis unfolding grows_def by blast
  qed
qed

lemma filter_drop: "\<exists>j. filter P (drop k xs) = drop j (filter P xs)"
proof -
  have "filter P xs = filter P (take k xs) @ filter P (drop k xs)" by (metis append_take_drop_id filter_append)
  then have "filter P (drop k xs) = drop (length (filter P (take k xs))) (filter P xs)" by simp
  then show ?thesis by blast
qed

definition logged :: "string \<Rightarrow> docs \<Rightarrow> bool list \<Rightarrow> docs \<Rightarrow> bool" where
  "logged mac d bs d' = (\<exists>new. grows (event_rows d) new (event_rows d') \<and> map came_online (filter (is_move mac) new) = bs)"

lemma logged_same: "event_rows d = event_rows d' \<Longrightarrow> logged mac d [] d'"
  unfolding logged_def by (intro exI [of _ "[]"]) (simp add: grows_refl)

lemma logged_trans:
  assumes "logged mac d xs d'" and "logged mac d' ys d''"
  shows "logged mac d (xs @ ys) d''"
proof -
  obtain m n where m: "grows (event_rows d) m (event_rows d')" "map came_online (filter (is_move mac) m) = xs"
    and n: "grows (event_rows d') n (event_rows d'')" "map came_online (filter (is_move mac) n) = ys"
    using assms unfolding logged_def by blast
  have "map came_online (filter (is_move mac) (m @ n)) = xs @ ys" using m n by simp
  then show ?thesis unfolding logged_def using grows_trans [OF m(1) n(1)] by blast
qed

lemma logged_then: "logged mac d bs d' \<Longrightarrow> event_rows d' = event_rows d'' \<Longrightarrow> logged mac d bs d''"
  by (simp add: logged_def)

lemma logged_after: "event_rows d = event_rows d' \<Longrightarrow> logged mac d' bs d'' \<Longrightarrow> logged mac d bs d''"
  by (simp add: logged_def)

text \<open>What that means for the log of the device.\<close>

lemma logged_log:
  assumes "logged mac d bs d'"
  obtains j where "device_log mac d' = drop j (device_log mac d @ bs)" and "length (event_rows d') < 1000 \<Longrightarrow> j = 0"
proof -
  obtain new k where k: "event_rows d' = drop k (event_rows d @ new)" "k = 0 \<or> 1000 \<le> length (event_rows d')"
    and bs: "map came_online (filter (is_move mac) new) = bs" using assms unfolding logged_def grows_def by blast
  have all: "map came_online (filter (is_move mac) (event_rows d @ new)) = device_log mac d @ bs" by (simp add: device_log_def bs)
  show thesis
  proof (cases "k = 0")
    case True
    then show thesis using all k by (intro that [of 0]) (simp_all add: device_log_def)
  next
    case False
    obtain j where "filter (is_move mac) (drop k (event_rows d @ new)) = drop j (filter (is_move mac) (event_rows d @ new))"
      using filter_drop by blast
    then have "device_log mac d' = drop j (map came_online (filter (is_move mac) (event_rows d @ new)))"
      unfolding device_log_def k(1) by (simp only: drop_map)
    then have "device_log mac d' = drop j (device_log mac d @ bs)" unfolding all .
    then show thesis using False k(2) by (intro that [of j]) auto
  qed
qed

lemma add_event_logged:
  assumes "dget ev ''type'' = JStr (if came then ''device_online'' else ''device_offline'')" and "dget ev ''mac'' = JStr m"
  shows "logged mac d (if m = mac then [came] else []) (add_event now ev d)"
proof -
  obtain x where x: "event_rows (add_event now ev d) = take_last 1000 (event_rows d @ [x])"
    and fields: "dget x ''type'' = dget ev ''type''" "dget x ''mac'' = dget ev ''mac''"
    by (auto simp: add_event_def event_rows_def Let_def dget_dset_json)
  have "grows (event_rows d) [x] (event_rows (add_event now ev d))"
    unfolding grows_def x by (intro exI [of _ "length (event_rows d @ [x]) - 1000"]) (auto simp: take_last_def)
  moreover have "map came_online (filter (is_move mac) [x]) = (if m = mac then [came] else [])"
    using fields assms by (auto simp: is_move_def came_online_def)
  ultimately show ?thesis unfolding logged_def by blast
qed

section \<open>Comings and goings\<close>

lemma device_map_mac: "(m, r) \<in> set (device_map rows) \<Longrightarrow> norm_mac (dget r ''mac'') = m \<and> m \<noteq> []"
proof -
  assume "(m, r) \<in> set (device_map rows)"
  then have "map_of (device_map rows) m = Some r" using device_map_ok by (simp add: map_of_eq_Some_iff)
  then show ?thesis by (auto simp: device_map_def dget_dict_of dest!: map_of_SomeD)
qed

lemma archive_events [simp]: "event_rows (archive_device_snapshot e dev d) = event_rows d"
  by (rule event_rows_cong) (simp add: archive_device_snapshot_def save_device_archive_def Let_def)

fun moved :: "transition \<Rightarrow> string \<times> bool" where
  "moved (Came mac dev) = (mac, True)"
| "moved (Went mac old) = (mac, False)"

fun of_mac :: "transition \<Rightarrow> bool" where
  "of_mac (Came mac dev) = (norm_mac (dget dev ''mac'') = mac \<and> mac \<noteq> [])"
| "of_mac (Went mac old) = (norm_mac (dget old ''mac'') = mac \<and> mac \<noteq> [])"

lemma mac_truthy: "norm_mac v \<noteq> [] \<Longrightarrow> truthy v"
  by (cases "truthy v") (simp_all add: norm_mac_def)

lemma transition_logged:
  assumes "of_mac tr"
  shows "logged mac d (map snd (filter (\<lambda>m. fst m = mac) [moved tr])) (record_transition e now tr d)"
proof (cases tr)
  case (Came m dev)
  have "dget (transition_event now True dev []) ''mac'' = JStr m"
    using assms Came mac_truthy [of "dget dev ''mac''"] by (auto simp: transition_event_def por_def Let_def dget_def dget_or_def)
  moreover have "dget (transition_event now True dev []) ''type'' = JStr (if True then ''device_online'' else ''device_offline'')"
    by (simp add: transition_event_def Let_def dget_def dget_or_def)
  ultimately have "logged mac d (if m = mac then [True] else []) (add_event (env_now_str e) (transition_event now True dev []) d)"
    using add_event_logged [where came = True and m = m] by blast
  then show ?thesis using Came by (simp split: if_splits)
next
  case (Went m old)
  have same: "dget (gone_row now old) ''mac'' = dget old ''mac''" by (simp add: gone_row_def Let_def)
  have "dget (transition_event now False (gone_row now old) old) ''mac'' = JStr m"
    using assms Went mac_truthy [of "dget old ''mac''"] same by (auto simp: transition_event_def por_def Let_def dget_def dget_or_def)
  moreover have "dget (transition_event now False (gone_row now old) old) ''type'' = JStr (if False then ''device_online'' else ''device_offline'')"
    by (simp add: transition_event_def Let_def dget_def dget_or_def)
  ultimately have "logged mac d (if m = mac then [False] else []) (add_event (env_now_str e) (transition_event now False (gone_row now old) old) d)"
    using add_event_logged [where came = False and m = m] by blast
  then have "logged mac d (if m = mac then [False] else []) (record_transition e now tr d)"
    using Went by (simp add: logged_def)
  then show ?thesis using Went by (simp split: if_splits)
qed

lemma transitions_logged:
  "list_all of_mac trs \<Longrightarrow> logged mac d (map snd (filter (\<lambda>m. fst m = mac) (map moved trs))) (fold (record_transition e now) trs d)"
proof (induction trs arbitrary: d)
  case (Cons tr trs)
  have "logged mac d (map snd (filter (\<lambda>m. fst m = mac) [moved tr])) (record_transition e now tr d)"
    using Cons.prems by (intro transition_logged) simp
  from logged_trans [OF this Cons.IH] show ?case using Cons.prems by (auto split: if_splits)
qed (simp add: logged_same)

lemma filter_key: "dict_ok d \<Longrightarrow> filter (\<lambda>p. fst p = k) d = (case map_of d k of None \<Rightarrow> [] | Some v \<Rightarrow> [(k, v)])"
  by (induction d) (force simp: filter_empty_conv split: option.splits)+

lemma transitions_moved:
  assumes "dict_ok previous" and "dict_ok current"
  shows "map snd (filter (\<lambda>m. fst m = mac) (map moved (transitions previous current))) =
    (if mac \<in> fst ` set current \<and> mac \<notin> fst ` set previous then [True]
     else if mac \<in> fst ` set previous \<and> mac \<notin> fst ` set current then [False] else [])"
proof -
  have came: "filter (\<lambda>m. fst m = mac) (map moved (map (\<lambda>(mac, dev). Came mac dev) xs))
      = map (\<lambda>p. (fst p, True)) (filter (\<lambda>p. fst p = mac) xs)" for xs :: "(string \<times> row) list"
    by (induction xs) auto
  have went: "filter (\<lambda>m. fst m = mac) (map moved (map (\<lambda>(mac, old). Went mac old) xs))
      = map (\<lambda>p. (fst p, False)) (filter (\<lambda>p. fst p = mac) xs)" for xs :: "(string \<times> row) list"
    by (induction xs) auto
  have swap: "filter (\<lambda>p. fst p = mac) (filter P xs) = filter P (filter (\<lambda>p. fst p = mac) xs)" for P and xs :: "(string \<times> row) list"
    by (simp add: filter_filter conj_commute)
  have mem: "mac \<in> fst ` set d \<longleftrightarrow> map_of d mac \<noteq> None" for d :: "(string \<times> row) list"
    by (simp add: map_of_eq_None_iff)
  show ?thesis
    unfolding transitions_def map_append filter_append came went swap filter_key [OF assms(1)] filter_key [OF assms(2)] mem
    by (auto split: option.splits)
qed

text \<open>What the stored list of online devices says of a device before and after.\<close>

definition change_of :: "string \<Rightarrow> docs \<Rightarrow> docs \<Rightarrow> bool list" where
  "change_of mac d d' = (if (mac \<in> stored_macs d) = (mac \<in> stored_macs d') then [] else [mac \<in> stored_macs d'])"

fun stored_changes :: "string \<Rightarrow> taken list \<Rightarrow> history \<Rightarrow> bool list" where
  "stored_changes mac [] s = []"
| "stored_changes mac (t # ts) s = change_of mac (hs_docs s) (hs_docs (snd (ingest_one t s))) @ stored_changes mac ts (snd (ingest_one t s))"

lemma taken_logged:
  assumes "list_all mac_text (sn_online sn)" and "take_snapshot e now h configured sn d = (d', hydrated)"
  shows "logged mac d (change_of mac d d') d'"
proof -
  let ?d1 = "snd (merge_ipv6_neighbors e h [] (sn_neighbors sn) d)" and ?trs = "transitions (previous_online d) (device_map hydrated)"
  have hyd: "hydrated = hydrated_online e now h ?d1 (sn_online sn)" using assms(2) by (simp add: take_snapshot_def Let_def)
  have d1: "event_rows d = event_rows ?d1"
    by (rule event_rows_cong) (simp add: merge_ipv6_neighbors_def save_device_archive_def case_prod_beta)
  have "list_all of_mac ?trs"
    using device_map_mac by (auto simp: transitions_def list_all_iff previous_online_def)
  from transitions_logged [OF this, of mac ?d1 e now]
  have "logged mac ?d1 (map snd (filter (\<lambda>m. fst m = mac) (map moved ?trs))) (fold (record_transition e now) ?trs ?d1)" .
  moreover have "event_rows (fold (record_transition e now) ?trs ?d1) = event_rows d'"
  proof -
    have keep: "event_rows (fold (archive_device_snapshot e) rows u) = event_rows u" for rows u
      by (induction rows arbitrary: u) simp_all
    have other: "event_rows (update_rollup e now online previous u) = event_rows u" for online previous u
      by (rule event_rows_cong) (simp add: saved_rollup_other)
    have save: "event_rows (save_json u key v) = event_rows u" if "key \<noteq> EVENTS" for u key v
      using that by (intro event_rows_cong) simp
    show ?thesis using assms(2) hyd by (auto simp: take_snapshot_def Let_def other save keep)
  qed
  ultimately have "logged mac d (map snd (filter (\<lambda>m. fst m = mac) (map moved ?trs))) d'"
    using logged_after [OF d1] logged_then by blast
  moreover have "map snd (filter (\<lambda>m. fst m = mac) (map moved ?trs)) = change_of mac d d'"
    using transitions_moved [OF _ device_map_ok, of "previous_online d" mac hydrated] taken_macs [OF assms]
    by (auto simp: change_of_def stored_macs_def device_map_keys previous_online_def device_map_ok)
  ultimately show ?thesis by simp
qed

lemma health_other: "key \<noteq> HEALTH \<Longrightarrow> hs_docs (save_health e b n err u) key = hs_docs u key"
  by (simp add: save_health_def Let_def)

lemma health_events [simp]: "event_rows (hs_docs (save_health e b n err u)) = event_rows (hs_docs u)"
  by (rule event_rows_cong) (simp add: health_other)

lemma health_stored [simp]: "stored_macs (hs_docs (save_health e b n err u)) = stored_macs (hs_docs u)"
  by (rule stored_macs_cong) (simp add: health_other)

lemma change_of_same: "stored_macs d = stored_macs d' \<Longrightarrow> change_of mac d d' = []"
  by (simp add: change_of_def)

lemma change_of_cong: "stored_macs d = stored_macs u \<Longrightarrow> stored_macs d' = stored_macs u' \<Longrightarrow> change_of mac d d' = change_of mac u u'"
  by (simp add: change_of_def)

lemma ingest_logged:
  assumes "addressed t"
  shows "logged mac (hs_docs s) (change_of mac (hs_docs s) (hs_docs (snd (ingest_one t s)))) (hs_docs (snd (ingest_one t s)))"
proof -
  obtain e now h configured p where t: "t = (e, now, h, configured, p)" by (cases t) auto
  have p: "list_all mac_text (rows_of p)" using assms t by (simp add: delivered_def)
  show ?thesis
  proof (cases "received now p (hs_docs s)")
    case (Inl err)
    then show ?thesis using t by (simp add: ingest_one_def ingest_def change_of_same logged_same)
  next
    case (Inr b)
    obtain sn d where b: "b = (sn, d)" by (cases b)
    note rec = received_rows [OF Inr [unfolded b]]
    have sn: "list_all mac_text (sn_online sn)" using p rec(1) by (simp add: mac_text_macs)
    have "hs_docs s EVENTS = d EVENTS" "hs_docs s DEVICES = d DEVICES" by (simp_all add: rec(2))
    then have ev: "event_rows (hs_docs s) = event_rows d" and st: "stored_macs (hs_docs s) = stored_macs d"
      using event_rows_cong [of "hs_docs s" d] stored_macs_cong [of "hs_docs s" d] by simp_all
    let ?s = "s\<lparr>hs_docs := d\<rparr>" and ?r = "ingest_rows e now h configured sn (s\<lparr>hs_docs := d\<rparr>)"
    have step: "ingest_one t s = ?r" using t Inr b by (simp add: ingest_one_def ingest_def)
    obtain d' hydrated where snap: "take_snapshot e now h configured sn d = (d', hydrated)" by (cases "take_snapshot e now h configured sn d")
    let ?wait = "sn_online sn = [] \<and> previous_online d \<noteq> [] \<and> hs_empty_streak s + 1 < 2"
    have deferred: "\<exists>u. snd ?r = save_health e False 0 ''empty snapshot awaiting confirmation'' u \<and> hs_docs u = d" if ?wait
      using that by (auto simp: ingest_rows_def)
    have accepted: "\<exists>u n. snd ?r = save_health e True n [] u \<and> hs_docs u = d'" if "\<not> ?wait"
    proof -
      let ?n = "if sn_online sn = [] \<and> previous_online d \<noteq> [] then hs_empty_streak s + 1 else 0"
      have "snd ?r = save_health e True (length hydrated) [] (s\<lparr>hs_empty_streak := ?n, hs_docs := d'\<rparr>)"
        using that snap by (auto simp: ingest_rows_def Let_def)
      then show ?thesis by (intro exI conjI) (assumption, simp)
    qed
    show ?thesis
    proof (cases ?wait)
      case True
      then obtain u where 1: "snd ?r = save_health e False 0 ''empty snapshot awaiting confirmation'' u" "hs_docs u = d"
        using deferred by blast
      then show ?thesis using ev st unfolding step by (simp add: change_of_same logged_same)
    next
      case False
      then obtain u n where 2: "snd ?r = save_health e True n [] u" "hs_docs u = d'" using accepted by blast
      have "logged mac (hs_docs s) (change_of mac d d') d'" using logged_after [OF ev taken_logged [OF sn snap]] .
      moreover have "change_of mac (hs_docs s) (hs_docs (snd ?r)) = change_of mac d d'" using 2 st by (intro change_of_cong) simp_all
      moreover have "event_rows d' = event_rows (hs_docs (snd ?r))" using 2 by simp
      ultimately show ?thesis unfolding step by (simp add: logged_then)
    qed
  qed
qed

lemma run_logged:
  "list_all addressed ts \<Longrightarrow> logged mac (hs_docs s) (stored_changes mac ts s) (hs_docs (ingest_run ts s))"
proof (induction ts arbitrary: s)
  case (Cons t ts)
  then have "logged mac (hs_docs s) (change_of mac (hs_docs s) (hs_docs (snd (ingest_one t s)))) (hs_docs (snd (ingest_one t s)))"
    by (intro ingest_logged) simp
  from logged_trans [OF this Cons.IH] show ?case using Cons.prems by (simp add: ingest_run_def)
qed (simp add: ingest_run_def logged_same)

lemma changes_turn:
  "distinct_adj ((mac \<in> stored_macs (hs_docs s)) # stored_changes mac ts s)
   \<and> last ((mac \<in> stored_macs (hs_docs s)) # stored_changes mac ts s) = (mac \<in> stored_macs (hs_docs (ingest_run ts s)))"
proof (induction ts arbitrary: s)
  case (Cons t ts)
  have "ingest_run (t # ts) s = ingest_run ts (snd (ingest_one t s))" by (simp add: ingest_run_def)
  then show ?case using Cons.IH [of "snd (ingest_one t s)"] by (auto simp: change_of_def split: if_splits)
qed (simp add: ingest_run_def)

section \<open>Empty snapshots\<close>

lemma ingest_run_snoc: "ingest_run (ts @ [t]) s = snd (ingest_one t (ingest_run ts s))"
  by (simp add: ingest_run_def)

lemma ingest_run_two: "ingest_run (ts @ [t, t']) s = snd (ingest_one t' (snd (ingest_one t (ingest_run ts s))))"
  by (simp add: ingest_run_def)

text \<open>A delivery that was read is a snapshot with the devices that were delivered.\<close>

lemma read_delivery:
  assumes "t = (e, now, h, configured, p)" and "\<nexists>err. p = Unreadable err"
  obtains sn d where "ingest_one t s = ingest_rows e now h configured sn (s\<lparr>hs_docs := d\<rparr>)"
    and "map (\<lambda>r. dget r ''mac'') (sn_online sn) = map (\<lambda>r. dget r ''mac'') (rows_of p)"
    and "\<And>key. key \<noteq> DAILY_ONLINE \<Longrightarrow> d key = hs_docs s key"
proof -
  obtain sn d where r: "received now p (hs_docs s) = Inr (sn, d)"
    using assms(2) by (cases p) (auto simp: received_def update_daily_online_def Let_def)
  show thesis
    using received_rows [OF r] r assms(1) by (intro that [of sn d]) (simp_all add: ingest_one_def ingest_def)
qed

text \<open>What an accepted snapshot leaves.\<close>

lemma accepted_stored:
  assumes "addressed t" and "rows_of (delivered t) \<noteq> []"
  shows "stored_macs (hs_docs (snd (ingest_one t s))) = macs_of (rows_of (delivered t)) \<and> hs_empty_streak (snd (ingest_one t s)) = 0"
proof -
  obtain e now h configured p where t: "t = (e, now, h, configured, p)" by (cases t) auto
  have p: "delivered t = p" "\<nexists>err. p = Unreadable err" using assms(2) t by (auto simp: delivered_def)
  obtain sn d where r: "ingest_one t s = ingest_rows e now h configured sn (s\<lparr>hs_docs := d\<rparr>)"
    and macs: "map (\<lambda>r. dget r ''mac'') (sn_online sn) = map (\<lambda>r. dget r ''mac'') (rows_of p)" using read_delivery [OF t p(2)] by blast
  have sn: "list_all mac_text (sn_online sn)" "sn_online sn \<noteq> []" using assms macs p(1) by (auto simp: mac_text_macs)
  obtain d' hydrated where snap: "take_snapshot e now h configured sn d = (d', hydrated)" by (cases "take_snapshot e now h configured sn d")
  have step: "snd (ingest_one t s) = save_health e True (length hydrated) [] (s\<lparr>hs_empty_streak := 0, hs_docs := d'\<rparr>)"
    using r sn(2) snap by (simp add: ingest_rows_def Let_def)
  have "stored_macs d' = macs_of (rows_of p)" using taken_macs(1) [OF sn(1) snap] macs_cong [OF macs] by simp
  then show ?thesis using p(1) unfolding step by (simp add: save_health_def Let_def stored_macs_def previous_online_def)
qed

text \<open>The first delivery without devices, and the second.\<close>

lemma first_empty:
  assumes "no_devices t" and "previous_online (hs_docs s) \<noteq> []" and "hs_empty_streak s = 0"
  obtains s' where "ingest_one t s = (Deferred 1, s')" and "hs_empty_streak s' = 1"
    and "\<And>key. key \<noteq> HEALTH \<Longrightarrow> key \<noteq> DAILY_ONLINE \<Longrightarrow> hs_docs s' key = hs_docs s key"
proof -
  obtain e now h configured p where t: "t = (e, now, h, configured, p)" by (cases t) auto
  have p: "rows_of p = []" "\<nexists>err. p = Unreadable err" using assms(1) t by (auto simp: no_devices_def delivered_def)
  obtain sn d where r: "ingest_one t s = ingest_rows e now h configured sn (s\<lparr>hs_docs := d\<rparr>)" and sn: "sn_online sn = []"
    and same: "\<And>key. key \<noteq> DAILY_ONLINE \<Longrightarrow> d key = hs_docs s key" using read_delivery [OF t p(2), of s] p(1) by auto
  have "d DEVICES = hs_docs s DEVICES" by (rule same) simp
  then have "previous_online d \<noteq> []" using assms(2) previous_cong by metis
  then have "ingest_one t s = (Deferred 1, save_health e False 0 ''empty snapshot awaiting confirmation'' (s\<lparr>hs_docs := d, hs_empty_streak := 1\<rparr>))"
    using assms(3) r sn by (simp add: ingest_rows_def Let_def)
  from that [OF this] show thesis using same by (simp add: save_health_def Let_def)
qed

lemma second_empty:
  assumes "no_devices t" and "previous_online (hs_docs s) \<noteq> []" and "hs_empty_streak s = 1"
  shows "fst (ingest_one t s) = Accepted 0 \<and> stored_macs (hs_docs (snd (ingest_one t s))) = {}"
proof -
  obtain e now h configured p where t: "t = (e, now, h, configured, p)" by (cases t) auto
  have p: "rows_of p = []" "\<nexists>err. p = Unreadable err" using assms(1) t by (auto simp: no_devices_def delivered_def)
  obtain sn d where r: "ingest_one t s = ingest_rows e now h configured sn (s\<lparr>hs_docs := d\<rparr>)" and sn: "sn_online sn = []"
    and same: "\<And>key. key \<noteq> DAILY_ONLINE \<Longrightarrow> d key = hs_docs s key" using read_delivery [OF t p(2), of s] p(1) by auto
  have "d DEVICES = hs_docs s DEVICES" by (rule same) simp
  then have full: "previous_online d \<noteq> []" using assms(2) previous_cong by metis
  obtain d' hydrated where snap: "take_snapshot e now h configured sn d = (d', hydrated)" by (cases "take_snapshot e now h configured sn d")
  have "hydrated = []" using snap sn by (auto simp: take_snapshot_def hydrated_online_def attach_hub_local_ipv6_def Let_def)
  then have "ingest_one t s = (Accepted 0, save_health e True 0 [] (s\<lparr>hs_empty_streak := 2, hs_docs := d'\<rparr>))"
    using assms(3) r sn full snap by (simp add: ingest_rows_def Let_def)
  then show ?thesis using taken_macs(1) [OF _ snap] sn by (simp add: macs_of_def)
qed

section \<open>Traffic\<close>

lemma int_str_no_dot: "CHR ''.'' \<notin> set (int_str i)"
proof -
  have "\<not> is_dec (CHR ''.'')" by code_simp
  then have "CHR ''.'' \<notin> set (nat_str n)" for n using nat_str_dec [of n] by (auto simp: list_all_iff)
  then show ?thesis by (simp add: int_str_def)
qed

lemma natural_JNull [simp]: "natural JNull = 0"
  by code_simp

lemma natural_JInt [simp]: "natural (JInt i) = max 0 i"
  using int_str_no_dot [of i] by (simp add: natural_def float_int_def Let_def)

fun traffic_from :: "int \<Rightarrow> int list \<Rightarrow> int" where
  "traffic_from last_count [] = 0"
| "traffic_from last_count (c # cs) = (if last_count \<le> c then c - last_count else c) + traffic_from c cs"

lemma advance_fields:
  assumes "last_key \<noteq> total_key" and "list_all (\<lambda>c. 0 < c) cs" and "0 \<le> total_bytes" "0 < last_count"
    and "dget entry last_key = JInt last_count" "dget entry total_key = JInt total_bytes"
  shows "dget (fold (advance_counter last_key total_key) cs entry) total_key = JInt (total_bytes + traffic_from last_count cs)"
  using assms(2-6)
proof (induction cs arbitrary: entry last_count total_bytes)
  case (Cons c cs)
  let ?e = "advance_counter last_key total_key c entry"
  let ?total = "if last_count \<le> c then total_bytes + (c - last_count) else total_bytes + c"
  have "dget ?e last_key = JInt c" "dget ?e total_key = JInt ?total"
    using assms(1) Cons.prems by (simp_all add: advance_counter_def advance_total_def dget_dset_json)
  moreover have "0 \<le> ?total" using Cons.prems by auto
  ultimately have "dget (fold (advance_counter last_key total_key) cs ?e) total_key = JInt (?total + traffic_from c cs)"
    using Cons.IH [of ?total c ?e] Cons.prems by simp
  then show ?case by simp
qed simp

text \<open>A reading of zero after a restart of the router: the traffic that follows is lost.\<close>

theorem zero_reading_loses_traffic:
  "dget (fold (advance_counter ''lastUploadCounter'' ''uploadBytes'') [100, 0, 50] []) ''uploadBytes'' = JInt 100 \<and> traffic_from 0 [100, 0, 50] = 150"
  by (simp add: advance_counter_def advance_total_def dget_dset_json dget_def dget_or_def)

section \<open>Retention\<close>

lemma dpop_length: "dict_ok d \<Longrightarrow> k \<in> fst ` set d \<Longrightarrow> length (dpop k d) = length d - 1"
proof (induction d)
  case (Cons p d)
  show ?case
  proof (cases "fst p = k")
    case True
    have "k \<notin> fst ` set e \<Longrightarrow> dpop k e = e" for e :: "('a \<times> 'b) list" by (induction e) auto
    then show ?thesis using True Cons.prems(1) by (cases p) simp
  next
    case False
    then have k: "k \<in> fst ` set d" using Cons.prems(2) by auto
    then have "0 < length d" by auto
    then show ?thesis using Cons.IH k Cons.prems(1) False by (cases p) simp
  qed
qed simp

lemma dset_keys: "fst ` set (dset k v d) = insert k (fst ` set d)"
  by (induction d) auto

lemma dpop_keys: "fst ` set (dpop k d) = fst ` set d - {k}"
  by (induction d) auto

lemma fold_dpop:
  "dict_ok d \<Longrightarrow> distinct ks \<Longrightarrow> set ks \<subseteq> fst ` set d \<Longrightarrow>
     length (fold dpop ks d) = length d - length ks \<and> fst ` set (fold dpop ks d) = fst ` set d - set ks"
proof (induction ks arbitrary: d)
  case (Cons k ks)
  have "set ks \<subseteq> fst ` set (dpop k d)" using Cons.prems by (auto simp: dpop_keys)
  then show ?case using Cons.IH [of "dpop k d"] Cons.prems by (auto simp: dpop_length dpop_keys)
qed simp

lemma dropped_days:
  assumes "dict_ok days"
  shows "length (drop_old_days days) \<le> RETENTION
    \<and> (\<forall>k \<in> fst ` set days - fst ` set (drop_old_days days). \<forall>k' \<in> fst ` set (drop_old_days days). k < k')"
proof -
  let ?keys = "sort (map fst days)" let ?n = "length days - RETENTION"
  have keys: "distinct ?keys" "set ?keys = fst ` set days" "sorted ?keys" using assms by simp_all
  have fold: "length (drop_old_days days) = length days - length (take ?n ?keys)"
      "fst ` set (drop_old_days days) = fst ` set days - set (take ?n ?keys)"
    using fold_dpop [OF assms, of "take ?n ?keys"] keys(1) set_take_subset [of ?n ?keys] keys(2)
    unfolding drop_old_days_def by auto
  have parts: "set (take ?n ?keys) \<union> set (drop ?n ?keys) = fst ` set days" "set (take ?n ?keys) \<inter> set (drop ?n ?keys) = {}"
    using keys(1,2) by (metis append_take_drop_id set_append) (metis append_take_drop_id distinct_append keys(1))
  then have kept: "fst ` set (drop_old_days days) = set (drop ?n ?keys)" using fold(2) by blast
  have dropped: "fst ` set days - fst ` set (drop_old_days days) \<subseteq> set (take ?n ?keys)" using fold(2) by auto
  have "k < k'" if "k \<in> set (take ?n ?keys)" "k' \<in> set (drop ?n ?keys)" for k k'
  proof -
    have "sorted (take ?n ?keys @ drop ?n ?keys)" "distinct (take ?n ?keys @ drop ?n ?keys)" using keys by simp_all
    then have "k \<le> k'" "k \<noteq> k'" using that unfolding sorted_append distinct_append by blast+
    then show ?thesis by simp
  qed
  then show ?thesis using fold(1) kept dropped by (auto simp: min_def)
qed

section \<open>IPv6 records\<close>

text \<open>The text of an address that is recorded.\<close>

definition canonical_ip :: "string \<Rightarrow> bool" where
  "canonical_ip ip = (\<exists>a. recordable a \<and> ip = ip_str a)"

lemma recorded_canonical: "recorded_ip v = Some ip \<Longrightarrow> canonical_ip ip"
  by (auto simp: recorded_ip_def canonical_ip_def Let_def split: if_splits option.splits)

lemma map_filter_in: "y \<in> set (List.map_filter f xs) \<Longrightarrow> \<exists>x \<in> set xs. f x = Some y"
  by (auto simp: List.map_filter_def)

lemma listed_canonical: "ip \<in> set (normalize_ipv6_list v) \<Longrightarrow> canonical_ip ip"
  unfolding normalize_ipv6_list_def by (auto dest!: in_set_takeD map_filter_in intro: recorded_canonical)

lemma record_of_fields:
  assumes "record_of e ps v = Some (ip, r)"
  shows "canonical_ip ip \<and> dget r ''ip'' = JStr ip"
proof -
  obtain item w where ip: "first_ip w = Some ip" and r: "r = normal_ipv6_record e ps item ip"
    using assms by (auto simp: record_of_def split: option.splits)
  have "ip \<in> set (normalize_ipv6_list (JList [w]))" using ip by (auto simp: first_ip_def split: list.splits)
  moreover have "dget r ''ip'' = JStr ip" unfolding r by (simp add: normal_ipv6_record_def Let_def dget_def dget_or_def)
  ultimately show ?thesis using listed_canonical by blast
qed

definition records_ok :: "row list \<Rightarrow> bool" where
  "records_ok rs = (distinct (map (\<lambda>r. dget r ''ip'') rs) \<and> length rs \<le> 24 \<and> (\<forall>r \<in> set rs. \<exists>ip. dget r ''ip'' = JStr ip \<and> canonical_ip ip))"

lemma normalized_records_ok: "records_ok (normalize_ipv6_records e ps v)"
proof -
  let ?d = "dict_of (List.map_filter (record_of e ps) (record_items v))"
  have entry: "canonical_ip ip \<and> dget r ''ip'' = JStr ip" if "(ip, r) \<in> set ?d" for ip r
  proof -
    have "(ip, r) \<in> set (List.map_filter (record_of e ps) (record_items v))" using that set_dict_of by fastforce
    then show ?thesis using record_of_fields by (fastforce simp: List.map_filter_def)
  qed
  then have "map (\<lambda>r. dget r ''ip'') (map snd ?d) = map JStr (map fst ?d)" by auto
  moreover have "distinct (map JStr (map fst ?d))" using dict_of_ok by (subst distinct_map) (auto simp: inj_on_def)
  ultimately have "distinct (map (\<lambda>r. dget r ''ip'') (map snd ?d))" by (simp only:)
  then have "distinct (map (\<lambda>r. dget r ''ip'') (normalize_ipv6_records e ps v))"
    unfolding normalize_ipv6_records_def take_map [symmetric] by (rule distinct_take)
  moreover have "\<exists>ip. dget r ''ip'' = JStr ip \<and> canonical_ip ip" if "r \<in> set (normalize_ipv6_records e ps v)" for r
  proof -
    have "r \<in> snd ` set ?d" using that unfolding normalize_ipv6_records_def by (auto dest: in_set_takeD)
    then show ?thesis using entry by auto
  qed
  ultimately show ?thesis by (simp add: records_ok_def normalize_ipv6_records_def)
qed

lemma pick_best:
  assumes "r \<in> set rs" and "-9999 < score_ipv6_record e r"
  shows "\<exists>r' \<in> set rs. pick_primary_ipv6 e rs = clean_saved_value (dget r' ''ip'') \<and> (\<forall>q \<in> set rs. score_ipv6_record e q \<le> score_ipv6_record e r')"
proof -
  let ?valid = "filter (\<lambda>r. -9999 < score_ipv6_record e r) rs"
  have "r \<in> set (sort_key (pick_order e) ?valid)" using assms by simp
  then obtain r' qs where sorted: "sort_key (pick_order e) ?valid = r' # qs" by (cases "sort_key (pick_order e) ?valid") auto
  have r': "r' \<in> set ?valid" using sorted by (metis list.set_intros(1) set_sort)
  have "sorted (map (pick_order e) (r' # qs))" using sorted_sort_key [of "pick_order e" ?valid] sorted by simp
  then have "score_ipv6_record e q \<le> score_ipv6_record e r'" if "q \<in> set (r' # qs)" for q
    using that by (auto simp: pick_order_def less_eq_prod_def)
  moreover have "set (r' # qs) = set ?valid" using sorted by (metis set_sort)
  ultimately have "\<forall>q \<in> set ?valid. score_ipv6_record e q \<le> score_ipv6_record e r'" by blast
  then have "\<forall>q \<in> set rs. score_ipv6_record e q \<le> score_ipv6_record e r'" using r' by fastforce
  then show ?thesis using r' sorted by (auto simp: pick_primary_ipv6_def)
qed

text \<open>The term for recency is the day number modulo six, so that a later sighting can score less.\<close>

definition day_env :: env where
  "day_env = \<lparr>env_now = 0, env_now_str = ''now'', env_now_text = ''now'', env_fresh = (\<lambda>n. ''id''), env_router = ''r'',
     env_local_epoch = (\<lambda>t. if t = ''monday'' then Some 432000 else if t = ''tuesday'' then Some 518400 else None)\<rparr>"

definition sighting :: "string \<Rightarrow> row" where
  "sighting day = [(''ip'', JStr ''2001:4860::1''), (''lastSeen'', JStr day)]"

theorem later_sighting_scores_less:
  "time_to_epoch day_env (JStr ''monday'') < time_to_epoch day_env (JStr ''tuesday'')
    \<and> score_ipv6_record day_env (sighting ''tuesday'') < score_ipv6_record day_env (sighting ''monday'')"
  by (intro conjI; code_simp)

section \<open>Sources\<close>

lemma fallback_yields:
  assumes "source_snapshot Hook e now h configured p hs = (Some (Accepted n), hs')" and "0 < env_now e"
    and "env_now e' - env_now e \<le> HOOK_GRACE"
  shows "source_snapshot Fallback e' now' h' configured' p' hs' = (None, hs')"
proof -
  have "so_hook (snd hs') = env_now e"
    using assms(1) by (auto simp: source_snapshot_def mark_source_def split: prod.splits ingested.splits)
  then show ?thesis using assms(2,3) by (simp add: source_snapshot_def hook_recent_def)
qed

section \<open>Properties\<close>

text \<open>C33: Over any run of deliveries whose rows all have a MAC address, with deferred and unreadable ones among them, the comings and goings of a device in the
  log of events alternate, if they did before and ended with the stored state, and the last of them says whether the device is in the stored list of
  online devices; and as long as the log has less than its thousand events, so that none was dropped, exactly one
  event was added for every change of the stored list with respect to the device, in their order.\<close>

theorem device_moves_alternate:
  assumes "list_all addressed ts" and "distinct_adj (device_log mac (hs_docs s))"
    and "device_log mac (hs_docs s) \<noteq> [] \<Longrightarrow> last (device_log mac (hs_docs s)) = (mac \<in> stored_macs (hs_docs s))"
    and "d = hs_docs (ingest_run ts s)"
  shows "distinct_adj (device_log mac d) \<and> (device_log mac d \<noteq> [] \<longrightarrow> last (device_log mac d) = (mac \<in> stored_macs d))
    \<and> (length (event_rows d) < 1000 \<longrightarrow> device_log mac d = device_log mac (hs_docs s) @ stored_changes mac ts s)"
proof -
  let ?log = "device_log mac (hs_docs s)" and ?new = "stored_changes mac ts s"
  obtain j where j: "device_log mac d = drop j (?log @ ?new)" "length (event_rows d) < 1000 \<Longrightarrow> j = 0"
    using logged_log [OF run_logged [OF assms(1), of mac s]] assms(4) by blast
  note turn = changes_turn [of mac s ts]
  have "distinct_adj (?log @ ?new)" using turn assms(2,3) by (cases ?new) (auto simp: distinct_adj_append_iff)
  then have "distinct_adj (device_log mac d)" unfolding j(1) by (metis append_take_drop_id distinct_adj_appendD2)
  moreover have "last (?log @ ?new) = (mac \<in> stored_macs d)" if "?log @ ?new \<noteq> []"
    using that turn assms(3,4) by (cases "?new = []") auto
  moreover have "last (device_log mac d) = last (?log @ ?new)" if "device_log mac d \<noteq> []"
    using that unfolding j(1) by (intro last_drop) (simp only: drop_eq_Nil not_le)
  ultimately show ?thesis using j by fastforce
qed

definition test_moment :: moment where
  "test_moment = \<lparr>mo_local = 0, mo_epoch = 0, mo_day = ''2024-01-01'', mo_text = ''2024-01-01 00:00:00'', mo_parse = (\<lambda>_. None)\<rparr>"

definition seen_now :: "row list \<Rightarrow> taken" where
  "seen_now rows = (day_env, test_moment, \<lparr>ho_ipv6 = [], ho_ipv4 = [], ho_macs = []\<rparr>, [], Payload \<lparr>sn_online = rows, sn_total = 0, sn_neighbors = []\<rparr>)"

definition phone :: row where "phone = [(''mac'', JStr ''aa:bb:cc:dd:ee:01'')]"

definition phone_docs :: docs where
  "phone_docs = hs_docs (ingest_run [seen_now [phone], seen_now [], seen_now []] (load_history (\<lambda>_. None)))"

theorem device_moves_alternate_witness:
  "distinct_adj (device_log ''aa:bb:cc:dd:ee:01'' phone_docs)"
proof -
  have "list_all addressed [seen_now [phone], seen_now [], seen_now []]" by code_simp
  moreover have "device_log ''aa:bb:cc:dd:ee:01'' (hs_docs (load_history (\<lambda>_. None))) = []" by code_simp
  ultimately show ?thesis
    using device_moves_alternate [of "[seen_now [phone], seen_now [], seen_now []]" "''aa:bb:cc:dd:ee:01''" "load_history (\<lambda>_. None)" phone_docs]
    by (simp add: phone_docs_def)
qed

text \<open>C34: After a delivery with devices, all with a MAC address, a single delivery without devices is deferred: it changes no document but the health
  report and the online time of the day, so that no coming or going is recorded. A second one in a row is accepted:
  no device is in the stored list, and, unless the log of events is full, each device that was gets an event that says it went.\<close>

theorem single_empty_snapshot_deferred:
  assumes "ts \<noteq> []" and "addressed (last ts)" and "macs_of (rows_of (delivered (last ts))) \<noteq> {}"
    and "no_devices t" and "no_devices t'"
    and "d = hs_docs (ingest_run ts s)" and "d' = hs_docs (ingest_run (ts @ [t]) s)" and "d'' = hs_docs (ingest_run (ts @ [t, t']) s)"
  shows "fst (ingest_one t (ingest_run ts s)) = Deferred 1
    \<and> (key \<noteq> HEALTH \<and> key \<noteq> DAILY_ONLINE \<longrightarrow> d' key = d key)
    \<and> fst (ingest_one t' (ingest_run (ts @ [t]) s)) = Accepted 0 \<and> stored_macs d'' = {}
    \<and> (length (event_rows d'') < 1000 \<and> mac \<in> stored_macs d \<longrightarrow> device_log mac d'' = device_log mac d @ [False])"
proof -
  let ?s = "ingest_run ts s"
  obtain s0 where s0: "?s = snd (ingest_one (last ts) s0)"
    using ingest_run_snoc [of "butlast ts" "last ts" s] assms(1) by simp
  have "rows_of (delivered (last ts)) \<noteq> []" using assms(3) by (auto simp: macs_of_def)
  note last = accepted_stored [OF assms(2) this, of s0]
  have full: "previous_online (hs_docs ?s) \<noteq> []" using last assms(3) s0 by (auto simp: stored_macs_def)
  obtain s1 where first: "ingest_one t ?s = (Deferred 1, s1)" and streak: "hs_empty_streak s1 = 1"
    and same: "\<And>key. key \<noteq> HEALTH \<Longrightarrow> key \<noteq> DAILY_ONLINE \<Longrightarrow> hs_docs s1 key = hs_docs ?s key"
    using first_empty [OF assms(4) full] last s0 by auto
  have d': "d' = hs_docs s1" using first assms(7) by (simp add: ingest_run_snoc)
  have "hs_docs s1 DEVICES = hs_docs ?s DEVICES" "hs_docs s1 EVENTS = hs_docs ?s EVENTS" by (rule same; simp)+
  note kept = this
  then have "previous_online (hs_docs s1) \<noteq> []" using full previous_cong by metis
  note second = second_empty [OF assms(5) this streak]
  have s2: "d'' = hs_docs (snd (ingest_one t' s1))" using first assms(8) by (simp add: ingest_run_two)
  have "addressed t'" using assms(5) by (simp add: no_devices_def)
  from ingest_logged [OF this, of mac s1] have "logged mac d' (change_of mac d' d'') d''" unfolding d' s2 .
  then obtain j where j: "device_log mac d'' = drop j (device_log mac d' @ change_of mac d' d'')" "length (event_rows d'') < 1000 \<Longrightarrow> j = 0"
    using logged_log by blast
  have "device_log mac d' = device_log mac d" "stored_macs d' = stored_macs d"
    unfolding d' assms(6) device_log_def using event_rows_cong [of "hs_docs s1" "hs_docs ?s"] stored_macs_cong [of "hs_docs s1" "hs_docs ?s"] kept
    by simp_all
  then have "length (event_rows d'') < 1000 \<and> mac \<in> stored_macs d \<longrightarrow> device_log mac d'' = device_log mac d @ [False]"
    using j second s2 by (simp add: change_of_def)
  moreover have "fst (ingest_one t' (ingest_run (ts @ [t]) s)) = Accepted 0 \<and> stored_macs d'' = {}"
    using second s2 first by (simp add: ingest_run_snoc)
  moreover have "key \<noteq> HEALTH \<and> key \<noteq> DAILY_ONLINE \<longrightarrow> d' key = d key" using same unfolding d' assms(6) by blast
  ultimately show ?thesis using first by simp
qed

theorem single_empty_snapshot_deferred_witness:
  "fst (ingest_one (seen_now []) (ingest_run [seen_now [phone]] (load_history (\<lambda>_. None)))) = Deferred 1 \<and> stored_macs phone_docs = {}"
proof -
  have "addressed (last [seen_now [phone]])" "rows_of (delivered (last [seen_now [phone]])) = [phone]" "no_devices (seen_now [])"
    by (simp_all add: seen_now_def delivered_def no_devices_def) code_simp
  moreover have "norm_mac (dget phone ''mac'') \<noteq> []" by code_simp
  then have "macs_of [phone] \<noteq> {}" by (auto simp: macs_of_def)
  ultimately show ?thesis
    using single_empty_snapshot_deferred [of "[seen_now [phone]]" "seen_now []" "seen_now []" _ "load_history (\<lambda>_. None)" _ phone_docs]
    by (simp add: phone_docs_def)
qed

text \<open>The traffic of a day: over positive readings of a router's counter, whatever restarts there are among them, the
  total is the first reading plus the growth between readings, a smaller reading counting as a restart from zero.\<close>

theorem daily_traffic_counted:
  assumes "last_key \<noteq> total_key" and "list_all (\<lambda>c. 0 < c) cs"
  shows "dget (fold (advance_counter last_key total_key) cs []) total_key = (if cs = [] then JNull else JInt (traffic_from 0 cs))"
proof (cases cs)
  case (Cons c cs')
  let ?e = "advance_counter last_key total_key c []"
  have "dget ?e last_key = JInt c" "dget ?e total_key = JInt c"
    using assms Cons by (simp_all add: advance_counter_def advance_total_def dget_def dget_or_def)
  then show ?thesis using advance_fields [OF assms(1), of cs' c c ?e] assms(2) Cons by simp
qed (simp add: dget_def dget_or_def)

theorem daily_traffic_counted_witness:
  "dget (fold (advance_counter ''lastUploadCounter'' ''uploadBytes'') [100, 130, 20] []) ''uploadBytes'' = JInt 150"
  using daily_traffic_counted [of "''lastUploadCounter''" "''uploadBytes''" "[100, 130, 20]"] by simp

text \<open>After every update the rollups hold at most 120 days, and every day that was dropped is earlier than every day that is kept.\<close>

theorem rollups_bounded:
  assumes "dict_ok (items (dget (load_rollups d) ''days''))"
  shows "(let days = items (dget (load_rollups (update_rollup e now online previous d)) ''days'') in
     length days \<le> 120 \<and> (\<forall>k \<in> insert (mo_day now) (fst ` set (items (dget (load_rollups d) ''days''))) - fst ` set days. \<forall>k' \<in> fst ` set days. k < k'))"
proof -
  let ?days = "items (dget (load_rollups d) ''days'')"
  obtain v where root: "update_rollup e now online previous d = save_rollups e (dset ''days'' (JObj (dset (mo_day now) v ?days)) (load_rollups d)) d"
    by (simp add: update_rollup_def Let_def)
  let ?new = "dset (mo_day now) v ?days"
  have "items (dget (load_rollups (update_rollup e now online previous d)) ''days'') = drop_old_days ?new"
    unfolding root by (simp add: save_rollups_def load_rollups_def Let_def dget_dset_json)
  moreover have "dict_ok ?new" using assms by simp
  moreover have "fst ` set ?new = insert (mo_day now) (fst ` set ?days)" by (rule dset_keys)
  ultimately show ?thesis using dropped_days [of ?new] by (simp add: RETENTION_def Let_def)
qed

theorem rollups_bounded_witness:
  "length (items (dget (load_rollups (update_rollup day_env test_moment [phone] [] (\<lambda>_. None))) ''days'')) \<le> 120"
  using rollups_bounded [of "\<lambda>_. None" day_env test_moment "[phone]" "[]"]
  by (simp add: load_rollups_def load_json_def Let_def dget_def dget_or_def)

text \<open>C35: The records of a device's IPv6 addresses: at most 24, one for each address, each the text of an address that may be recorded;
  and the primary address is that of a record whose score no record exceeds.\<close>

theorem ipv6_records_primary:
  assumes "rs = normalize_ipv6_records e ps v" and "r \<in> set rs" and "-9999 < score_ipv6_record e r"
  shows "records_ok rs \<and> (\<exists>r' \<in> set rs. pick_primary_ipv6 e rs = clean_saved_value (dget r' ''ip'')
    \<and> (\<forall>q \<in> set rs. score_ipv6_record e q \<le> score_ipv6_record e r'))"
  using normalized_records_ok [of e ps v] pick_best [OF assms(2,3)] assms(1) by blast

theorem ipv6_records_primary_witness:
  "pick_primary_ipv6 day_env (normalize_ipv6_records day_env [] (JList [JStr ''2001:4860::1''])) \<noteq> ''x''"
proof -
  let ?rs = "normalize_ipv6_records day_env [] (JList [JStr ''2001:4860::1''])"
  have "hd ?rs \<in> set ?rs" by code_simp
  moreover have "-9999 < score_ipv6_record day_env (hd ?rs)" by code_simp
  ultimately have "\<exists>r' \<in> set ?rs. pick_primary_ipv6 day_env ?rs = clean_saved_value (dget r' ''ip'')"
    using ipv6_records_primary [of ?rs day_env "[]" "JList [JStr ''2001:4860::1'']" "hd ?rs"] by blast
  moreover have "\<not> list_ex (\<lambda>r. clean_saved_value (dget r ''ip'') = ''x'') ?rs" by code_simp
  ultimately show ?thesis by (auto simp: list_ex_iff)
qed

end
