(* ===== verification/Followup.thy ===== *)
theory Followup
  imports Relay
begin

text \<open>
  The update of the agent as it is installed at start-up: \<open>src/followup_stability_patch.py\<close> queues a command at once
  and reads the release manifest in a background thread, \<open>src/final_stability_patch.py\<close> checks for updates in the
  background and reports the state. A step is what a request does under the lock of the hub, or what a thread does
  between two calls that lock: a thread reads the queue and writes it back in two steps. Messages are ASCII glosses.
\<close>

section \<open>Requests\<close>

definition ACTIVE_STATES :: "json list" where
  "ACTIVE_STATES = map JStr [''preparing'', ''pending'', ''accepted'', ''scheduled'']"

definition is_active :: "string \<Rightarrow> row \<Rightarrow> bool" where
  "is_active router r = (dget r ''router'' = JStr router \<and> dget r ''action'' = JStr ''update'' \<and> dget r ''state'' \<in> set ACTIVE_STATES)"

definition active_update :: "string \<Rightarrow> docs \<Rightarrow> row" where
  "active_update router = latest_where (is_active router)"

definition deduplicated :: "row \<Rightarrow> row" where
  "deduplicated c = [(''ok'', JBool True), (''commandId'', dget_or c ''id'' (JStr [])), (''targetVersion'', dget_or c ''targetVersion'' (JStr [])),
     (''state'', dget_or c ''state'' (JStr ''pending'')), (''message'', dget_or c ''message'' (JStr ''an update is already in progress'')),
     (''deduplicated'', JBool True)]"

definition preparing_command :: "release_config \<Rightarrow> env \<Rightarrow> string \<Rightarrow> row" where
  "preparing_command cfg e router =
     [(''id'', JStr (env_fresh e 0)), (''router'', JStr router), (''action'', JStr ''update''), (''state'', JStr ''preparing''),
      (''targetVersion'', JStr []), (''repositoryRoot'', JStr (rl_root cfg)), (''manifestUrl'', JStr (rl_manifest_url cfg)),
      (''installerUrl'', JStr (rl_installer_url cfg)), (''createdAt'', JStr (env_now_str e)), (''updatedAt'', JStr (env_now_str e)),
      (''message'', JStr ''update task created, reading the manifest'')]"

text \<open>The reply, the documents, and the command for which a thread is started.\<close>

definition update_request :: "release_config \<Rightarrow> env \<Rightarrow> bool \<Rightarrow> row \<Rightarrow> docs \<Rightarrow> agent_reply \<times> docs \<times> string option" where
  "update_request cfg e authorized payload d =
    (if \<not> authorized then (bad_request_token, d, None)
     else let router = target_router e (dget payload ''router'') d; active = active_update router d; c = preparing_command cfg e router in
       if active \<noteq> [] then ((202, deduplicated active), d, None)
       else ((202, [(''ok'', JBool True), (''commandId'', dget c ''id''), (''targetVersion'', JStr []), (''state'', JStr ''preparing''),
               (''message'', dget c ''message'')]), append_command c d, Some (env_fresh e 0)))"

section \<open>The thread that reads the manifest\<close>

text \<open>What becomes of the command: it waits for the router, or has failed.\<close>

definition failed_values :: "string \<Rightarrow> row" where
  "failed_values err = [(''state'', JStr ''failed''), (''message'', JStr (''update source unavailable: '' @ err))]"

definition prepared_values :: "release_config \<Rightarrow> string + row \<Rightarrow> row" where
  "prepared_values cfg found = (case found of
     Inl err \<Rightarrow> failed_values err
   | Inr m \<Rightarrow> if manifest_version m = [] then failed_values ''the manifest has no version''
       else [(''state'', JStr ''pending''), (''targetVersion'', JStr (manifest_version m)), (''repositoryRoot'', JStr (rl_root cfg)),
         (''manifestUrl'', JStr (rl_manifest_url cfg)), (''installerUrl'', JStr (rl_installer_url cfg)),
         (''message'', JStr ''manifest ready, waiting for the router to take the command'')])"

definition updated_row :: "env \<Rightarrow> row \<Rightarrow> row \<Rightarrow> row" where
  "updated_row e values r = dset ''updatedAt'' (JStr (env_now_str e)) (dmerge r values)"

text \<open>\<open>_update_command\<close> on the rows that were read; without a row of that identifier nothing is written.\<close>

definition update_command :: "env \<Rightarrow> string \<Rightarrow> row \<Rightarrow> json list \<Rightarrow> docs \<Rightarrow> docs" where
  "update_command e i values rows d = (case close_first i (updated_row e values) rows of
     (rows', hit) \<Rightarrow> if hit then save_agent_commands (take_last 100 rows') d else d)"

text \<open>The stages of a thread: before the lock, with the lock, with the values, and with the rows read.\<close>

datatype worker =
    Waiting string
  | Fetching string
  | Writing string row
  | Stored string row "json list"

fun worker_id :: "worker \<Rightarrow> string" where
  "worker_id (Waiting i) = i"
| "worker_id (Fetching i) = i"
| "worker_id (Writing i v) = i"
| "worker_id (Stored i v rows) = i"

record flow =
  fl_agent :: agent_state
  fl_lock :: "nat option"
  fl_workers :: "(nat \<times> worker) list"
  fl_next :: nat

abbreviation fl_docs :: "flow \<Rightarrow> docs" where "fl_docs s \<equiv> ag_docs (fl_agent s)"

definition set_docs :: "docs \<Rightarrow> flow \<Rightarrow> flow" where
  "set_docs d s = s\<lparr>fl_agent := (fl_agent s)\<lparr>ag_docs := d\<rparr>\<rparr>"

definition set_worker :: "nat \<Rightarrow> worker \<Rightarrow> flow \<Rightarrow> flow" where
  "set_worker t w s = s\<lparr>fl_workers := dset t w (fl_workers s)\<rparr>"

definition start_worker :: "string option \<Rightarrow> flow \<Rightarrow> flow" where
  "start_worker i s = (case i of None \<Rightarrow> s | Some i \<Rightarrow> s\<lparr>fl_workers := fl_workers s @ [(fl_next s, Waiting i)], fl_next := Suc (fl_next s)\<rparr>)"

definition acquire_manifest :: "nat \<Rightarrow> flow \<Rightarrow> flow" where
  "acquire_manifest t s = (case (map_of (fl_workers s) t, fl_lock s) of
     (Some (Waiting i), None) \<Rightarrow> set_worker t (Fetching i) (s\<lparr>fl_lock := Some t\<rparr>) | _ \<Rightarrow> s)"

definition fetch_manifest :: "release_config \<Rightarrow> nat \<Rightarrow> env \<Rightarrow> fetch \<Rightarrow> flow \<Rightarrow> flow" where
  "fetch_manifest cfg t e fetch s = (case map_of (fl_workers s) t of
     Some (Fetching i) \<Rightarrow> (case agent_release_manifest cfg (env_now e) True fetch (ag_cache (fl_agent s)) of (found, c) \<Rightarrow>
       set_worker t (Writing i (prepared_values cfg found)) (s\<lparr>fl_agent := (fl_agent s)\<lparr>ag_cache := c\<rparr>\<rparr>))
   | _ \<Rightarrow> s)"

definition read_queue :: "nat \<Rightarrow> flow \<Rightarrow> flow" where
  "read_queue t s = (case map_of (fl_workers s) t of
     Some (Writing i values) \<Rightarrow> set_worker t (Stored i values (agent_commands (fl_docs s))) s | _ \<Rightarrow> s)"

definition write_queue :: "nat \<Rightarrow> env \<Rightarrow> flow \<Rightarrow> flow" where
  "write_queue t e s = (case map_of (fl_workers s) t of
     Some (Stored i values rows) \<Rightarrow>
       (set_docs (update_command e i values rows (fl_docs s)) s)\<lparr>fl_workers := dpop t (fl_workers s), fl_lock := None\<rparr>
   | _ \<Rightarrow> s)"

section \<open>Runs\<close>

datatype flow_event =
    Request env bool row
  | Cleanup env bool row
  | Ack env bool row
  | Report env bool row
  | Acquire nat
  | Fetch nat env fetch
  | Read nat
  | Write nat env

definition flow_do :: "release_config \<Rightarrow> flow_event \<Rightarrow> flow \<Rightarrow> flow" where
  "flow_do cfg ev s = (case ev of
     Request e ok payload \<Rightarrow> (case update_request cfg e ok payload (fl_docs s) of (_, d, started) \<Rightarrow> start_worker started (set_docs d s))
   | Cleanup e ok payload \<Rightarrow> s\<lparr>fl_agent := snd (agent_cleanup_request e ok payload (fl_agent s))\<rparr>
   | Ack e ok payload \<Rightarrow> s\<lparr>fl_agent := snd (router_agent_ack e ok payload (fl_agent s))\<rparr>
   | Report e ok payload \<Rightarrow> set_docs (snd (relay_agent_status e ok payload (fl_docs s))) s
   | Acquire t \<Rightarrow> acquire_manifest t s
   | Fetch t e fetch \<Rightarrow> fetch_manifest cfg t e fetch s
   | Read t \<Rightarrow> read_queue t s
   | Write t e \<Rightarrow> write_queue t e s)"

definition flow_run :: "release_config \<Rightarrow> flow_event list \<Rightarrow> flow \<Rightarrow> flow" where
  "flow_run cfg es s = fold (flow_do cfg) es s"

definition new_flow :: "docs \<Rightarrow> flow" where
  "new_flow d = \<lparr>fl_agent = \<lparr>ag_docs = d, ag_cache = \<lparr>rc_at = 0, rc_data = None\<rparr>\<rparr>, fl_lock = None, fl_workers = [], fl_next = 0\<rparr>"

text \<open>A restart of the hub keeps the documents and no thread.\<close>

definition restart_flow :: "flow \<Rightarrow> flow" where
  "restart_flow s = new_flow (fl_docs s)"

section \<open>The check for updates\<close>

text \<open>\<open>_friendly_update_error\<close>\<close>

definition friendly_update_error :: "json \<Rightarrow> string" where
  "friendly_update_error v =
    (let text = strip (py_str (por v (JStr []))); low = lower text; has = contains low in
     if has ''502'' \<or> has ''<!doctype'' \<or> has ''<html'' then ''update source unavailable (gateway 502), the last version is kept''
     else if has ''timeout'' \<or> has ''timed out'' \<or> has ''read timed out'' then ''update source timed out, retrying in the background''
     else if has ''404'' then ''update manifest missing, using the local one''
     else if has ''ssl'' \<or> has ''certificate'' then ''certificate of the update source not accepted''
     else if text \<noteq> [] then ''update check failed: '' @ take 120 text else ''update check failed, the last version is kept'')"

text \<open>The local manifest, if there is a readable one with a version; the version and the root of the environment.\<close>

definition FALLBACK_ROOT :: string where
  "FALLBACK_ROOT = ''https://github.com/OnlyChallgener/labprobe-hub/releases/latest/download''"

definition rstrip_slash :: "string \<Rightarrow> string" where "rstrip_slash = rstrip_of (\<lambda>c. c = CHR ''/'')"

definition binary_of :: "string \<Rightarrow> string \<Rightarrow> json" where
  "binary_of root arch = JObj [(''url'', JStr (root @ ''/agent/labrelay-linux-'' @ arch)), (''fallbackUrl'', JStr (FALLBACK_ROOT @ ''/labrelay-linux-'' @ arch))]"

definition built_manifest :: "string option \<Rightarrow> string option \<Rightarrow> row" where
  "built_manifest version_env root_env =
    (let version = strip (case version_env of Some v \<Rightarrow> text_or v ''0.2.28'' | None \<Rightarrow> ''0.2.28'');
         root = text_or (rstrip_slash (strip (case root_env of Some r \<Rightarrow> r | None \<Rightarrow> []))) FALLBACK_ROOT in
     [(''schemaVersion'', JInt 1), (''versionName'', JStr version),
      (''changelog'', JStr ''LabRelay OpenWrt installer and update-source stability fixes.''),
      (''installUrl'', JStr (root @ ''/agent/install.sh'')), (''checksumsUrl'', JStr (root @ ''/agent/checksums.txt'')),
      (''binaries'', JObj [(''arm64'', binary_of root ''arm64''), (''amd64'', binary_of root ''amd64'')]),
      (''installer'', JObj [(''url'', JStr (root @ ''/agent/install.sh'')), (''fallbackUrl'', JStr (FALLBACK_ROOT @ ''/labprobe-install.sh''))]),
      (''source'', JStr ''hub-local-fallback'')])"

definition fallback_manifest :: "json option \<Rightarrow> string option \<Rightarrow> string option \<Rightarrow> row" where
  "fallback_manifest local version_env root_env = (case local of
     Some (JObj m) \<Rightarrow> if truthy (dget m ''versionName'') then m else built_manifest version_env root_env
   | _ \<Rightarrow> built_manifest version_env root_env)"

definition idle_check :: row where
  "idle_check = [(''state'', JStr ''idle''), (''message'', JStr ''waiting for a check''), (''startedAt'', JInt 0), (''updatedAt'', JInt 0),
     (''latestVersion'', JStr [])]"

text \<open>A check is started, with a thread, unless one was started less than 20 seconds ago.\<close>

definition start_check :: "int \<Rightarrow> row \<Rightarrow> row \<times> bool" where
  "start_check now c =
    (if dget c ''state'' = JStr ''checking'' \<and> now - int_or (por (dget c ''startedAt'') (JInt 0)) 0 < 20 then (c, False)
     else (dmerge c [(''state'', JStr ''checking''), (''message'', JStr ''checking for agent updates in the background''),
       (''startedAt'', JInt now), (''updatedAt'', JInt now)], True))"

text \<open>What the thread makes of the manifest that it found, or of the error, with the local manifest.\<close>

definition check_found :: "int \<Rightarrow> string + row \<Rightarrow> row \<Rightarrow> row \<Rightarrow> release_cache \<Rightarrow> row \<times> release_cache" where
  "check_found now found fallback c cache =
    (let remote_error = (case found of Inl err \<Rightarrow> friendly_update_error (JStr err) | Inr _ \<Rightarrow> []);
         m = (case found of Inl _ \<Rightarrow> fallback | Inr m \<Rightarrow> m); latest = manifest_version m in
     if latest \<noteq> []
     then (dmerge c [(''state'', JStr ''ready''),
             (''message'', JStr (if remote_error \<noteq> [] then ''the local manifest of the hub was used'' else ''update check done'')),
             (''latestVersion'', JStr latest), (''updatedAt'', JInt now), (''remoteWarning'', JStr remote_error)],
           \<lparr>rc_at = now, rc_data = Some m\<rparr>)
     else (dmerge c [(''state'', JStr ''failed''), (''message'', JStr (text_or remote_error ''the manifest has no version'')), (''updatedAt'', JInt now)], cache))"

definition check_thread :: "release_config \<Rightarrow> int \<Rightarrow> bool \<Rightarrow> fetch \<Rightarrow> row \<Rightarrow> row \<times> release_cache \<Rightarrow> row \<times> release_cache" where
  "check_thread cfg now force fetch fallback s = (case s of (c, cache) \<Rightarrow>
     (case agent_release_manifest cfg now force fetch cache of (found, cache') \<Rightarrow> check_found now found fallback c cache'))"

definition check_reply :: "row \<Rightarrow> row" where
  "check_reply c = [(''ok'', JBool True), (''accepted'', JBool True), (''state'', dget_or c ''state'' (JStr ''checking'')),
     (''message'', dget_or c ''message'' (JStr ''checking for agent updates'')), (''protocol'', JStr ''HTTPS'')]"

text \<open>The reply, the check, and whether a thread was started; the reply is of the state after it was started.\<close>

definition update_check :: "env \<Rightarrow> bool \<Rightarrow> row \<Rightarrow> agent_reply \<times> row \<times> bool" where
  "update_check e authorized c =
    (if \<not> authorized then (bad_request_token, c, False)
     else case start_check (env_now e) c of (c', started) \<Rightarrow> ((202, check_reply c'), c', started))"

definition WORKING_STATES :: "string list" where
  "WORKING_STATES = [''preparing'', ''pending'', ''accepted'', ''scheduled'', ''downloading'', ''installing'']"

definition shown_message :: "json \<Rightarrow> string" where
  "shown_message v = (let m = clean_saved_value v in
     if m \<noteq> [] \<and> list_ex (contains (lower m)) [''502'', ''<!doctype'', ''<html'', ''timed out'', ''timeout'']
     then friendly_update_error (JStr m) else m)"

definition shown_state :: "bool \<Rightarrow> row \<Rightarrow> row \<Rightarrow> string \<times> string" where
  "shown_state available command passive =
    (let word = clean_saved_value (dget command ''state''); m = shown_message (dget command ''message'') in
     if word \<in> set WORKING_STATES then (word, text_or m ''an update of the agent is in progress'')
     else if word = ''failed'' then (''failed'', text_or m ''the update of the agent failed'')
     else let s = py_str (por (dget passive ''state'') (JStr ''idle'')); pm = py_str (por (dget passive ''message'') (JStr [])) in
       (s, if s = ''ready'' then (if available then ''new version found'' else ''already the latest version'') else text_or pm ''waiting for a check''))"

definition update_status :: "release_config \<Rightarrow> env \<Rightarrow> bool \<Rightarrow> json \<Rightarrow> bool \<Rightarrow> row \<Rightarrow> agent_state \<Rightarrow> agent_reply \<times> row \<times> bool" where
  "update_status cfg e authorized named refresh c s =
    (if \<not> authorized then (bad_request_token, c, False)
     else let router = target_router e named (ag_docs s); agent = agent_status_for router (ag_docs s);
              command = latest_agent_command router ''update'' (ag_docs s);
              m = (case rc_data (ag_cache s) of Some m \<Rightarrow> m | None \<Rightarrow> []);
              (passive, started) = (if refresh \<or> m = [] \<and> dget c ''state'' \<notin> {JStr ''checking'', JStr ''failed''}
                then start_check (env_now e) c else (c, False));
              latest = text_or (text_or (manifest_version m) (clean_saved_value (dget passive ''latestVersion''))) UNKNOWN_VERSION;
              current = text_or (clean_saved_value (dget agent ''version'')) UNKNOWN_VERSION;
              available = (latest \<noteq> UNKNOWN_VERSION \<and> current \<noteq> UNKNOWN_VERSION
                \<and> tuple_less (version_parts (JStr current)) (version_parts (JStr latest)));
              (word, message) = shown_state available command passive in
       ((200, [(''ok'', JBool True), (''router'', JStr router), (''currentVersion'', JStr current), (''latestVersion'', JStr latest),
          (''updateAvailable'', JBool available), (''state'', JStr word), (''message'', JStr message),
          (''lastSeenAt'', dget_or agent ''lastSeenAt'' (JStr [])), (''manifestUrl'', JStr (rl_manifest_url cfg)),
          (''installerUrl'', JStr (rl_installer_url cfg)), (''protocol'', JStr ''HTTPS''),
          (''checkedAt'', JInt (int_or (por (dget passive ''updatedAt'') (JInt 0)) 0)), (''remoteWarning'', dget_or passive ''remoteWarning'' (JStr []))]),
        passive, started))"

end
