(* ===== verification/FollowupRuns.thy ===== *)
theory FollowupRuns
  imports Followup AgentRuns
begin

text \<open>
  The installed update of the agent over any interleaving of requests, reports and the threads that read the manifest:
  one update of a router is active at a time, a command that is handed out names its version, and the
  threads bring every command out of its preparation; and what a restart or an unlucky moment breaks.
\<close>

section \<open>Rows\<close>

abbreviation active_row :: "string \<Rightarrow> json \<Rightarrow> bool" where
  "active_row router v \<equiv> is_dict v \<and> is_active router (items v)"

definition named :: "json \<Rightarrow> bool" where
  "named v = (row_state v = JStr ''pending'' \<and> dget (items v) ''action'' = JStr ''update''
     \<longrightarrow> clean_saved_value (dget (items v) ''targetVersion'') \<noteq> [])"

text \<open>The queue: known identifiers, a version for every command that waits, at most one active update for a router, and a
  command is in preparation exactly when one of the threads \<open>L\<close> works on it.\<close>

definition flow_row :: "bool \<Rightarrow> string list \<Rightarrow> string set \<Rightarrow> json \<Rightarrow> bool" where
  "flow_row strict ids L v = (is_dict v \<and> row_id v \<in> JStr ` set ids \<and> named v \<and> (row_state v = JStr ''preparing'' \<longrightarrow> row_id v \<in> JStr ` L)
     \<and> (strict \<longrightarrow> row_id v \<in> JStr ` L \<longrightarrow> row_state v = JStr ''preparing''))"

definition flow_queue :: "bool \<Rightarrow> string list \<Rightarrow> string set \<Rightarrow> json list \<Rightarrow> bool" where
  "flow_queue strict ids L rows = (distinct (map row_id rows) \<and> list_all (flow_row strict ids L) rows
     \<and> (strict \<longrightarrow> (\<forall>router. length (filter (active_row router) rows) \<le> 1)))"

definition prepared :: "row \<Rightarrow> bool" where
  "prepared values = (\<exists>cfg found. values = prepared_values cfg found)"

lemma updated_row_fields:
  assumes "prepared values"
  shows "dget (updated_row e values r) ''id'' = dget r ''id''" "dget (updated_row e values r) ''router'' = dget r ''router''"
    "dget (updated_row e values r) ''action'' = dget r ''action''"
    "dget (updated_row e values r) ''state'' \<in> {JStr ''failed'', JStr ''pending''}"
    "named (JObj (updated_row e values r))"
proof -
  obtain cfg found where v: "values = prepared_values cfg found" using assms by (auto simp: prepared_def)
  consider (failed) err where "values = failed_values err"
    | (found) m where "manifest_version m \<noteq> []" "found = Inr m"
    using v by (cases found) (auto simp: prepared_values_def split: if_splits)
  then have "dget (updated_row e values r) ''id'' = dget r ''id'' \<and> dget (updated_row e values r) ''router'' = dget r ''router''
    \<and> dget (updated_row e values r) ''action'' = dget r ''action'' \<and> dget (updated_row e values r) ''state'' \<in> {JStr ''failed'', JStr ''pending''}
    \<and> named (JObj (updated_row e values r))"
  proof cases
    case failed
    then show ?thesis by (simp add: failed_values_def updated_row_def named_def)
  next
    case found
    then have "clean_saved_value (JStr (manifest_version m)) \<noteq> []" by (simp add: manifest_version_def)
    then show ?thesis using found v by (simp add: prepared_values_def updated_row_def named_def)
  qed
  then show "dget (updated_row e values r) ''id'' = dget r ''id''" "dget (updated_row e values r) ''router'' = dget r ''router''"
    "dget (updated_row e values r) ''action'' = dget r ''action''"
    "dget (updated_row e values r) ''state'' \<in> {JStr ''failed'', JStr ''pending''}"
    "named (JObj (updated_row e values r))" by blast+
qed

lemma filter_mono_length: "(\<And>v. v \<in> set xs \<Longrightarrow> P (g v) \<Longrightarrow> Q v) \<Longrightarrow> length (filter P (map g xs)) \<le> length (filter Q xs)"
  by (induction xs) (auto intro: le_SucI)

lemma flow_queue_map:
  assumes "flow_queue strict ids L rows"
    and "\<And>v. v \<in> set rows \<Longrightarrow> row_id (g v) = row_id v"
    and "\<And>v. v \<in> set rows \<Longrightarrow> flow_row strict ids L v \<Longrightarrow> flow_row strict ids L' (g v)"
    and "\<And>v router. strict \<Longrightarrow> v \<in> set rows \<Longrightarrow> flow_row strict ids L v \<Longrightarrow> active_row router (g v) \<Longrightarrow> active_row router v"
  shows "flow_queue strict ids L' (map g rows)"
proof -
  have "map row_id (map g rows) = map row_id rows" using assms(2) by simp
  then have "distinct (map row_id (map g rows))" using assms(1) by (metis flow_queue_def)
  moreover have "list_all (flow_row strict ids L') (map g rows)"
    using assms(1,3) by (auto simp: flow_queue_def list_all_iff)
  moreover have "length (filter (active_row router) (map g rows)) \<le> 1" if strict for router
  proof -
    have "length (filter (active_row router) (map g rows)) \<le> length (filter (active_row router) rows)"
      using assms(1,4) that by (intro filter_mono_length) (auto simp: flow_queue_def list_all_iff)
    also have "\<dots> \<le> 1" using assms(1) that by (simp add: flow_queue_def)
    finally show ?thesis .
  qed
  ultimately show ?thesis by (simp add: flow_queue_def)
qed

lemma close_first_map:
  assumes "distinct (map row_id rows)" and "list_all is_dict rows"
  shows "fst (close_first i f rows) = map (\<lambda>v. if row_id v = JStr i then JObj (f (items v)) else v) rows"
  using assms
proof (induction rows)
  case (Cons v rows)
  show ?case
  proof (cases "row_id v = JStr i")
    case True
    then have "\<forall>u \<in> set rows. row_id u \<noteq> JStr i" using Cons.prems(1) by force
    then have "map (\<lambda>v. if row_id v = JStr i then JObj (f (items v)) else v) rows = rows" by (intro map_idI) auto
    then show ?thesis using Cons.prems True by simp
  qed (use Cons in \<open>auto split: prod.splits\<close>)
qed simp

lemma close_first_hit: "list_all is_dict rows \<Longrightarrow> snd (close_first i f rows) \<longleftrightarrow> JStr i \<in> row_id ` set rows"
  by (induction rows) (auto split: prod.splits)

lemma flow_queue_dict: "flow_queue strict ids L rows \<Longrightarrow> list_all is_dict rows \<and> distinct (map row_id rows)"
  by (auto simp: flow_queue_def flow_row_def list_all_iff)

lemma flow_queue_drop: "flow_queue strict ids L rows \<Longrightarrow> flow_queue strict ids L (take_last n rows)"
proof -
  assume ok: "flow_queue strict ids L rows"
  obtain k where k: "take_last n rows = drop k rows" using take_last_drop by blast
  have "length (filter (active_row router) (drop k rows)) \<le> 1" if strict for router
  proof -
    have "length (filter (active_row router) (drop k rows)) \<le> length (filter (active_row router) rows)"
      by (metis append_take_drop_id filter_append le_add2 length_append)
    also have "\<dots> \<le> 1" using ok that by (simp add: flow_queue_def)
    finally show ?thesis .
  qed
  moreover have "distinct (map row_id (drop k rows))"
    using ok distinct_drop [of "map row_id rows" k] unfolding drop_map by (simp add: flow_queue_def)
  moreover have "list_all (flow_row strict ids L) (drop k rows)" using ok by (auto simp: flow_queue_def list_all_iff dest: in_set_dropD)
  ultimately show ?thesis unfolding k flow_queue_def by blast
qed

lemma flow_row_more: "flow_row strict ids L v \<Longrightarrow> i \<notin> set ids \<Longrightarrow> flow_row strict (ids @ [i]) (insert i L) v \<and> flow_row strict (ids @ [i]) L v"
  by (auto simp: flow_row_def)

lemma flow_queue_more: "flow_queue strict ids L rows \<Longrightarrow> i \<notin> set ids \<Longrightarrow> flow_queue strict (ids @ [i]) (insert i L) rows \<and> flow_queue strict (ids @ [i]) L rows"
  using flow_row_more by (auto simp: flow_queue_def list_all_iff)

section \<open>What one event does to the queue\<close>

abbreviation flow_rows :: "flow \<Rightarrow> json list" where "flow_rows s \<equiv> agent_commands (fl_docs s)"

lemma flow_queue_append:
  assumes "flow_queue strict ids L rows" and "i \<notin> set ids" and "L \<subseteq> set ids" and "dget c ''id'' = JStr i"
    and "dget c ''state'' = JStr ''preparing'' \<and> L' = insert i L \<or> dget c ''state'' = JStr ''pending'' \<and> dget c ''action'' \<noteq> JStr ''update'' \<and> L' = L"
    and "\<And>router. strict \<Longrightarrow> is_active router c \<Longrightarrow> filter (active_row router) rows = []"
  shows "flow_queue strict (ids @ [i]) L' (take_last 100 (rows @ [JObj c]))"
proof (rule flow_queue_drop)
  have old: "flow_queue strict (ids @ [i]) L' rows" using flow_queue_more [OF assms(1,2)] assms(5) by auto
  have "JStr i \<notin> row_id ` set rows" using assms(1,2) by (force simp: flow_queue_def flow_row_def list_all_iff)
  moreover have "flow_row strict (ids @ [i]) L' (JObj c)" using assms(2-5) by (auto simp: flow_row_def named_def)
  moreover have "length (filter (active_row router) (rows @ [JObj c])) \<le> 1" if strict for router
    using old assms(6) [of router] that by (cases "is_active router c") (auto simp: flow_queue_def)
  ultimately show "flow_queue strict (ids @ [i]) L' (rows @ [JObj c])" using old assms(4) by (simp add: flow_queue_def)
qed

lemma no_active: "active_update router d = [] \<Longrightarrow> filter (active_row router) (agent_commands d) = []"
proof (rule ccontr)
  assume none: "active_update router d = []" and "filter (active_row router) (agent_commands d) \<noteq> []"
  then obtain v where "v \<in> set (agent_commands d)" "active_row router v" by (auto simp: filter_empty_conv)
  then have "List.find (\<lambda>v. is_dict v \<and> is_active router (items v)) (rev (agent_commands d)) \<noteq> None"
    by (auto simp: find_None_iff)
  then obtain u where u: "List.find (\<lambda>v. is_dict v \<and> is_active router (items v)) (rev (agent_commands d)) = Some u" by auto
  then have "is_active router (items u)" using find_SomeD by fast
  moreover have "items u = []" using none u by (simp add: active_update_def latest_where_def)
  ultimately show False by (simp add: is_active_def)
qed

text \<open>Which commands the agent may acknowledge with a word.\<close>

definition may_ack :: "string \<Rightarrow> json \<Rightarrow> bool" where
  "may_ack word v = (row_state v \<in> {JStr ''pending'', JStr ''accepted''} \<or> word \<noteq> ''accepted'' \<and> row_state v \<noteq> JStr ''preparing'')"

lemma flow_queue_acked:
  assumes "flow_queue strict ids L rows" and "\<And>v. strict \<Longrightarrow> v \<in> set rows \<Longrightarrow> row_id v = JStr i \<Longrightarrow> may_ack word v"
    and "word \<in> {''accepted'', ''completed'', ''failed''}"
  shows "flow_queue strict ids L (fst (close_first i (ack_change e word payload) rows))"
proof -
  have same: "dget (ack_change e word payload r) ''router'' = dget r ''router''" "dget (ack_change e word payload r) ''action'' = dget r ''action''" for r
    by (simp_all add: ack_change_def Let_def split: json.splits)
  show ?thesis
    unfolding close_first_map [OF conjunct2 [OF flow_queue_dict [OF assms(1)]] conjunct1 [OF flow_queue_dict [OF assms(1)]]]
  proof (rule flow_queue_map [OF assms(1)])
    fix v assume v: "v \<in> set rows" and ok: "flow_row strict ids L v"
    have "flow_row strict ids L (JObj (ack_change e word payload (items v)))" if i: "row_id v = JStr i"
    proof -
      have "JStr word \<noteq> JStr ''preparing''" "JStr word \<noteq> JStr ''pending''" using assms(3) by auto
      moreover have "row_state v \<noteq> JStr ''preparing''" if strict using assms(2) [OF that v i] by (auto simp: may_ack_def)
      ultimately show ?thesis using ok unfolding flow_row_def named_def by simp
    qed
    then show "flow_row strict ids L (if row_id v = JStr i then JObj (ack_change e word payload (items v)) else v)"
      using ok by simp
    fix router assume "strict" and act: "active_row router (if row_id v = JStr i then JObj (ack_change e word payload (items v)) else v)"
    show "active_row router v"
    proof (cases "row_id v = JStr i")
      case True
      then have "dget (ack_change e word payload (items v)) ''state'' \<in> set ACTIVE_STATES" using act by (simp add: is_active_def)
      then have "word = ''accepted''" using assms(3) by (auto simp: ACTIVE_STATES_def)
      then have "row_state v \<in> set ACTIVE_STATES" using assms(2) [OF \<open>strict\<close> v True] by (auto simp: may_ack_def ACTIVE_STATES_def)
      then show ?thesis using act True ok by (simp add: is_active_def same flow_row_def)
    qed (use act in simp)
  qed simp
qed

lemma flow_queue_finished:
  assumes "flow_queue strict ids L rows"
  shows "flow_queue strict ids L (map (\<lambda>v. if update_reached router version v then JObj (Relay.finish_update e version (items v)) else v) rows)"
proof (rule flow_queue_map [OF assms])
  fix v assume ok: "flow_row strict ids L v"
  then show "flow_row strict ids L (if update_reached router version v then JObj (Relay.finish_update e version (items v)) else v)"
    by (auto simp: flow_row_def named_def Relay.finish_update_def update_reached_def)
  fix r assume strict and "active_row r (if update_reached router version v then JObj (Relay.finish_update e version (items v)) else v)"
  then show "active_row r v"
    by (auto simp: is_active_def Relay.finish_update_def update_reached_def ACTIVE_STATES_def split: if_splits)
qed (simp add: Relay.finish_update_def)

lemma flow_queue_prepared:
  assumes "flow_queue strict ids L rows" and "prepared values" and "i \<in> L"
  shows "flow_queue strict ids (L - {i}) (fst (close_first i (updated_row e values) rows))"
proof -
  note fields = updated_row_fields [OF assms(2), of e]
  show ?thesis
    unfolding close_first_map [OF conjunct2 [OF flow_queue_dict [OF assms(1)]] conjunct1 [OF flow_queue_dict [OF assms(1)]]]
  proof (rule flow_queue_map [OF assms(1)])
    fix v assume v: "v \<in> set rows" and ok: "flow_row strict ids L v"
    show "flow_row strict ids (L - {i}) (if row_id v = JStr i then JObj (updated_row e values (items v)) else v)"
      using ok fields(1,4,5) [of "items v"] by (auto simp: flow_row_def)
    fix router assume strict and "active_row router (if row_id v = JStr i then JObj (updated_row e values (items v)) else v)"
    then show "active_row router v"
      using ok assms(3) fields(2,3) [of "items v"] by (auto simp: flow_row_def is_active_def ACTIVE_STATES_def split: if_splits)
  qed (simp add: fields(1))
qed

section \<open>The invariant\<close>

fun flow_drawn :: "flow_event \<Rightarrow> string list" where
  "flow_drawn (Request e ok payload) = [env_fresh e 0]"
| "flow_drawn (Cleanup e ok payload) = [env_fresh e 0]"
| "flow_drawn _ = []"

text \<open>The agent acknowledges as accepted only what waits for it or what it has accepted, and does not answer a command that is
  still in preparation, which it has not been given.\<close>

definition admissible :: "flow_event \<Rightarrow> flow \<Rightarrow> bool" where
  "admissible ev s = (case ev of
     Ack e ok payload \<Rightarrow> list_all (\<lambda>v. row_id v = JStr (clean_saved_value (dget payload ''id'')) \<longrightarrow>
       may_ack (text_or (clean_saved_value (dget payload ''state'')) ''accepted'') v) (flow_rows s)
   | _ \<Rightarrow> True)"

fun proper :: "release_config \<Rightarrow> flow_event list \<Rightarrow> flow \<Rightarrow> bool" where
  "proper cfg [] s = True"
| "proper cfg (ev # es) s = (admissible ev s \<and> proper cfg es (flow_do cfg ev s))"

definition live :: "(nat \<times> worker) list \<Rightarrow> string set" where
  "live ws = (worker_id \<circ> snd) ` set ws"

lemma in_live: "x \<in> live ws \<longleftrightarrow> (\<exists>u w. (u, w) \<in> set ws \<and> worker_id w = x)"
  by (force simp: live_def)

fun is_waiting :: "worker \<Rightarrow> bool" where
  "is_waiting (Waiting i) = True"
| "is_waiting _ = False"

fun worker_ok :: "bool \<Rightarrow> string list \<Rightarrow> string set \<Rightarrow> json list \<Rightarrow> worker \<Rightarrow> bool" where
  "worker_ok strict ids L rows (Writing i values) = prepared values"
| "worker_ok strict ids L rows (Stored i values snap) =
     (prepared values \<and> flow_queue strict ids L snap \<and> (JStr i \<in> row_id ` set rows \<longrightarrow> JStr i \<in> row_id ` set snap))"
| "worker_ok strict ids L rows _ = True"

definition workers_ok :: "bool \<Rightarrow> string list \<Rightarrow> flow \<Rightarrow> bool" where
  "workers_ok strict ids s = (dict_ok (fl_workers s) \<and> distinct (map (worker_id \<circ> snd) (fl_workers s)) \<and> live (fl_workers s) \<subseteq> set ids
     \<and> (\<forall>(t, w) \<in> set (fl_workers s). t < fl_next s \<and> worker_ok strict ids (live (fl_workers s)) (flow_rows s) w
         \<and> (is_waiting w \<longleftrightarrow> fl_lock s \<noteq> Some t))
     \<and> (\<forall>t. fl_lock s = Some t \<longrightarrow> t \<in> fst ` set (fl_workers s)))"

definition flow_ok :: "bool \<Rightarrow> string list \<Rightarrow> flow \<Rightarrow> bool" where
  "flow_ok strict ids s = (flow_queue strict ids (live (fl_workers s)) (flow_rows s) \<and> workers_ok strict ids s)"

lemma worker_ok_more:
  "worker_ok strict ids L rows w \<Longrightarrow> i \<notin> set ids \<Longrightarrow> worker_id w \<in> set ids \<Longrightarrow>
     row_id ` set rows' \<subseteq> insert (JStr i) (row_id ` set rows) \<Longrightarrow> L' = L \<or> L' = insert i L \<Longrightarrow> worker_ok strict (ids @ [i]) L' rows' w"
proof (cases w)
  case (Stored j vals snap)
  assume w: "worker_ok strict ids L rows w" and new: "i \<notin> set ids" "worker_id w \<in> set ids" and rows: "row_id ` set rows' \<subseteq> insert (JStr i) (row_id ` set rows)"
    and L: "L' = L \<or> L' = insert i L"
  have "flow_queue strict (ids @ [i]) L' snap" using w Stored flow_queue_more [OF _ new(1)] L by auto
  moreover have "j \<noteq> i" using new Stored by auto
  ultimately show ?thesis using w Stored rows by auto
qed auto

lemma worker_ok_rows:
  "worker_ok strict ids L rows w \<Longrightarrow> row_id ` set rows' \<subseteq> row_id ` set rows \<Longrightarrow> worker_ok strict ids L rows' w"
  by (cases w) auto

lemma workers_same:
  assumes "workers_ok strict ids s" and "fl_workers s' = fl_workers s" and "fl_lock s' = fl_lock s" and "fl_next s' = fl_next s"
    and "row_id ` set (flow_rows s') \<subseteq> row_id ` set (flow_rows s)"
  shows "workers_ok strict ids s'"
  using assms worker_ok_rows [OF _ assms(5)] unfolding workers_ok_def by (auto split: prod.splits)

lemma flow_ok_same:
  assumes "flow_ok strict ids s" and "fl_workers s' = fl_workers s" and "fl_lock s' = fl_lock s" and "fl_next s' = fl_next s"
    and "flow_queue strict ids (live (fl_workers s)) (flow_rows s')" and "map row_id (flow_rows s') = map row_id (flow_rows s)"
  shows "flow_ok strict ids s'"
proof -
  have "row_id ` set (flow_rows s') = row_id ` set (flow_rows s)" using assms(6) by (metis set_map)
  then show ?thesis using assms workers_same [of strict ids s s'] by (auto simp: flow_ok_def)
qed

lemma flow_ok_rows_same: "flow_ok strict ids s \<Longrightarrow> fl_workers s' = fl_workers s \<Longrightarrow> fl_lock s' = fl_lock s \<Longrightarrow> fl_next s' = fl_next s \<Longrightarrow>
    flow_rows s' = flow_rows s \<Longrightarrow> flow_ok strict ids s'"
  by (rule flow_ok_same) (auto simp: flow_ok_def)

text \<open>A worker goes on from one stage to the next.\<close>

lemma dset_workers:
  assumes "dict_ok ws" and "map_of ws t = Some w" and "worker_id w' = worker_id w"
  shows "map (worker_id \<circ> snd) (dset t w' ws) = map (worker_id \<circ> snd) ws" and "map fst (dset t w' ws) = map fst ws"
    and "set (dset t w' ws) = insert (t, w') (set ws - {(t, w)})"
  using assms by (induction ws) (auto split: if_splits dest: map_of_SomeD)

lemma set_worker_ok:
  assumes "flow_ok strict ids s" and "map_of (fl_workers s) t = Some w" and "worker_id w' = worker_id w"
    and "fl_next s' = fl_next s" and "flow_rows s' = flow_rows s" and "fl_workers s' = dset t w' (fl_workers s)"
    and "fl_lock s' = Some t" and "fl_lock s = None \<or> fl_lock s = Some t" and "\<not> is_waiting w'"
    and "worker_ok strict ids (live (fl_workers s)) (flow_rows s) w'"
  shows "flow_ok strict ids s'"
proof -
  have ok: "dict_ok (fl_workers s)" using assms(1) by (simp add: flow_ok_def workers_ok_def)
  note set = dset_workers [OF ok assms(2,3)]
  have live: "live (fl_workers s') = live (fl_workers s)"
    using arg_cong [OF set(1), of set] unfolding live_def assms(6) by (simp only: set_map)
  have t: "(t, w) \<in> set (fl_workers s)" using assms(2) by (rule map_of_SomeD)
  have others: "u = t \<and> x = w' \<or> (u, x) \<in> set (fl_workers s) \<and> u \<noteq> t" if "(u, x) \<in> set (fl_workers s')" for u x
    using that ok t unfolding assms(6) set(3) by (auto dest: eq_key_imp_eq_value)
  have "dict_ok (fl_workers s')" "distinct (map (worker_id \<circ> snd) (fl_workers s'))"
    using assms(1) set(1,2) unfolding assms(6) by (auto simp: flow_ok_def workers_ok_def)
  moreover have "u < fl_next s' \<and> worker_ok strict ids (live (fl_workers s')) (flow_rows s') x \<and> (is_waiting x \<longleftrightarrow> fl_lock s' \<noteq> Some u)"
    if "(u, x) \<in> set (fl_workers s')" for u x
    using others [OF that] assms(1,4,5,7,8,9,10) live t by (fastforce simp: flow_ok_def workers_ok_def)
  moreover have "t \<in> fst ` set (fl_workers s')" unfolding assms(6) set(3) by force
  ultimately show ?thesis using assms(1,5,7) live unfolding flow_ok_def workers_ok_def by auto
qed

lemma worker_in: "workers_ok strict ids s \<Longrightarrow> (t, w) \<in> set (fl_workers s) \<Longrightarrow>
    t < fl_next s \<and> worker_id w \<in> set ids \<and> worker_ok strict ids (live (fl_workers s)) (flow_rows s) w \<and> (is_waiting w \<longleftrightarrow> fl_lock s \<noteq> Some t)"
  by (auto simp: workers_ok_def live_def subset_iff image_iff)

text \<open>A row is added, and perhaps a thread for it.\<close>

lemma flow_ok_append:
  assumes "flow_ok strict ids s" and "i \<notin> set ids" and "fl_lock s' = fl_lock s"
    and "fl_workers s' = fl_workers s @ started" and "started = [] \<and> fl_next s' = fl_next s \<or> started = [(fl_next s, Waiting i)] \<and> fl_next s' = Suc (fl_next s)"
    and "row_id ` set (flow_rows s') \<subseteq> insert (JStr i) (row_id ` set (flow_rows s))"
    and "flow_queue strict (ids @ [i]) (live (fl_workers s')) (flow_rows s')"
  shows "flow_ok strict (ids @ [i]) s'"
proof -
  have ok: "workers_ok strict ids s" using assms(1) by (simp add: flow_ok_def)
  have L: "live (fl_workers s') = live (fl_workers s) \<or> live (fl_workers s') = insert i (live (fl_workers s))"
    using assms(4,5) by (auto simp: live_def)
  have old: "t < fl_next s' \<and> worker_ok strict (ids @ [i]) (live (fl_workers s')) (flow_rows s') w \<and> (is_waiting w \<longleftrightarrow> fl_lock s' \<noteq> Some t)"
    if "(t, w) \<in> set (fl_workers s)" for t w
  proof -
    have "worker_ok strict (ids @ [i]) (live (fl_workers s')) (flow_rows s') w"
      using worker_in [OF ok that] by (intro worker_ok_more [OF _ assms(2) _ assms(6) L]) auto
    then show ?thesis using worker_in [OF ok that] assms(3,5) by auto
  qed
  have next_free: "fl_next s \<notin> fst ` set (fl_workers s)" "i \<notin> live (fl_workers s)"
    using ok assms(2) by (force simp: workers_ok_def)+
  have lock: "fl_lock s \<noteq> Some (fl_next s)" using ok next_free(1) by (auto simp: workers_ok_def)
  have "dict_ok (fl_workers s')" "distinct (map (worker_id \<circ> snd) (fl_workers s'))"
    using ok next_free assms(4,5) by (auto simp: workers_ok_def live_def image_iff)
  moreover have "live (fl_workers s') \<subseteq> set (ids @ [i])" using L ok by (auto simp: workers_ok_def)
  moreover have "t < fl_next s' \<and> worker_ok strict (ids @ [i]) (live (fl_workers s')) (flow_rows s') w \<and> (is_waiting w \<longleftrightarrow> fl_lock s' \<noteq> Some t)"
    if "(t, w) \<in> set (fl_workers s')" for t w
  proof (cases "(t, w) \<in> set (fl_workers s)")
    case False
    then have "t = fl_next s" "w = Waiting i" "fl_next s' = Suc (fl_next s)" using that assms(4,5) by auto
    then show ?thesis using lock assms(3) by simp
  qed (rule old)
  moreover have "t \<in> fst ` set (fl_workers s')" if "fl_lock s' = Some t" for t
    using that ok assms(3,4) by (force simp: workers_ok_def)
  ultimately show ?thesis using assms(7) unfolding flow_ok_def workers_ok_def by auto
qed

text \<open>The thread with the lock writes the queue and ends.\<close>

lemma flow_ok_write:
  assumes "flow_ok strict ids s" and "map_of (fl_workers s) t = Some (Stored i vals snap)"
  shows "flow_ok strict ids (write_queue t e s)"
proof -
  have ok: "workers_ok strict ids s" and queue: "flow_queue strict ids (live (fl_workers s)) (flow_rows s)" using assms(1) by (simp_all add: flow_ok_def)
  have t: "(t, Stored i vals snap) \<in> set (fl_workers s)" using assms(2) by (rule map_of_SomeD)
  note me = worker_in [OF ok t]
  then have lock: "fl_lock s = Some t" and vals: "prepared vals" and snap: "flow_queue strict ids (live (fl_workers s)) snap"
    and mine: "JStr i \<in> row_id ` set (flow_rows s) \<Longrightarrow> JStr i \<in> row_id ` set snap" by auto
  have i: "i \<in> live (fl_workers s)" using t by (force simp: live_def)
  let ?s = "write_queue t e s"
  have ws: "fl_workers ?s = dpop t (fl_workers s)" "fl_lock ?s = None" "fl_next ?s = fl_next s"
    and rows: "flow_rows ?s = agent_commands (update_command e i vals snap (fl_docs s))"
    using assms(2) by (simp_all add: write_queue_def set_docs_def)
  have dist: "distinct (map (worker_id \<circ> snd) (fl_workers s))" "dict_ok (fl_workers s)" using ok by (simp_all add: workers_ok_def)
  have left: "(u, x) \<in> set (dpop t (fl_workers s)) \<longleftrightarrow> (u, x) \<in> set (fl_workers s) \<and> u \<noteq> t" for u x
    by (auto simp: AList.delete_eq)
  have L: "live (dpop t (fl_workers s)) = live (fl_workers s) - {i}"
  proof -
    have "worker_id x \<noteq> i" if "(u, x) \<in> set (fl_workers s)" "u \<noteq> t" for u x
    proof
      assume "worker_id x = i"
      moreover have "inj_on (worker_id \<circ> snd) (set (fl_workers s))" using dist by (simp add: distinct_map)
      ultimately have "(u, x) = (t, Stored i vals snap)" using that(1) t inj_onD [of _ _ "(u, x)" "(t, Stored i vals snap)"] by fastforce
      then show False using that(2) by simp
    qed
    moreover have "worker_id x = i" if "(t, x) \<in> set (fl_workers s)" for x
      using eq_key_imp_eq_value [OF dist(2) that t] by simp
    ultimately have "x \<in> live (dpop t (fl_workers s)) \<longleftrightarrow> x \<in> live (fl_workers s) \<and> x \<noteq> i" for x
      unfolding in_live left by blast
    then show ?thesis by blast
  qed
  have "flow_queue strict ids (live (fl_workers s) - {i}) (flow_rows ?s)"
  proof (cases "JStr i \<in> row_id ` set snap")
    case True
    then have "snd (close_first i (updated_row e vals) snap)" using close_first_hit flow_queue_dict [OF snap] by blast
    then have "flow_rows ?s = take_last 100 (fst (close_first i (updated_row e vals) snap))"
      unfolding rows by (auto simp: update_command_def split: prod.splits)
    then show ?thesis using flow_queue_drop [OF flow_queue_prepared [OF snap vals i]] by simp
  next
    case False
    then have "\<not> snd (close_first i (updated_row e vals) snap)" using close_first_hit flow_queue_dict [OF snap] by blast
    then have same: "flow_rows ?s = flow_rows s" unfolding rows by (auto simp: update_command_def split: prod.splits)
    have "JStr i \<notin> row_id ` set (flow_rows s)" using False mine by blast
    then have "row_id v \<noteq> JStr i" if "v \<in> set (flow_rows s)" for v using that by force
    then have left: "row_id v \<in> JStr ` live (fl_workers s) \<longleftrightarrow> row_id v \<in> JStr ` (live (fl_workers s) - {i})" if "v \<in> set (flow_rows s)" for v
      using that by blast
    have "flow_row strict ids (live (fl_workers s) - {i}) v" if "v \<in> set (flow_rows s)" for v
    proof -
      have "flow_row strict ids (live (fl_workers s)) v" using queue that by (simp add: flow_queue_def list_all_iff)
      then show ?thesis unfolding flow_row_def left [OF that] .
    qed
    then show ?thesis using queue unfolding same by (auto simp: flow_queue_def list_all_iff)
  qed
  moreover have "workers_ok strict ids ?s"
  proof -
    have "t' < fl_next ?s \<and> worker_ok strict ids (live (fl_workers ?s)) (flow_rows ?s) x \<and> (is_waiting x \<longleftrightarrow> fl_lock ?s \<noteq> Some t')"
      if "(t', x) \<in> set (fl_workers ?s)" for t' x
    proof -
      have x: "(t', x) \<in> set (fl_workers s)" "t' \<noteq> t" using that unfolding ws left by simp_all
      then have "is_waiting x" "t' < fl_next s" using worker_in [OF ok x(1)] lock by auto
      then show ?thesis unfolding ws by (cases x) auto
    qed
    moreover have "distinct (map (worker_id \<circ> snd) (dpop t (fl_workers s)))" using dist(1) by (simp add: AList.delete_eq distinct_map_filter)
    ultimately show ?thesis
      using ok dist(2) unfolding workers_ok_def ws L by auto
  qed
  ultimately show ?thesis unfolding flow_ok_def ws L by simp
qed

lemma flow_ok_unused: "flow_ok strict ids s \<Longrightarrow> i \<notin> set ids \<Longrightarrow> flow_ok strict (ids @ [i]) s"
  using flow_ok_append [of strict ids s i s "[]"] flow_queue_more by (auto simp: flow_ok_def)

lemma flow_ok_request:
  assumes "flow_ok strict ids s" and "env_fresh e 0 \<notin> set ids"
  shows "flow_ok strict (ids @ [env_fresh e 0]) (flow_do cfg (Request e ok payload) s)"
proof -
  let ?i = "env_fresh e 0" and ?router = "target_router e (dget payload ''router'') (fl_docs s)"
  show ?thesis
  proof (cases "ok \<and> active_update ?router (fl_docs s) = []")
    case False
    then have "flow_do cfg (Request e ok payload) s = s"
      by (auto simp: flow_do_def update_request_def start_worker_def set_docs_def Let_def)
    then show ?thesis using flow_ok_unused [OF assms] by simp
  next
    case True
    let ?c = "preparing_command cfg e ?router"
    let ?s = "flow_do cfg (Request e ok payload) s"
    have s: "flow_rows ?s = take_last 100 (flow_rows s @ [JObj ?c])" "fl_lock ?s = fl_lock s"
      "fl_workers ?s = fl_workers s @ [(fl_next s, Waiting ?i)]" "fl_next ?s = Suc (fl_next s)"
      using True by (simp_all add: flow_do_def update_request_def start_worker_def set_docs_def append_command_def Let_def)
    have c: "dget ?c ''id'' = JStr ?i" "dget ?c ''state'' = JStr ''preparing''" "dget ?c ''router'' = JStr ?router"
      by (simp_all add: preparing_command_def)
    have none: "filter (active_row ?router) (flow_rows s) = []" using no_active [of ?router "fl_docs s"] True by blast
    then have none: "filter (active_row r) (flow_rows s) = []" if "is_active r ?c" for r
      using that c(3) by (simp add: is_active_def)
    have L: "live (fl_workers ?s) = insert ?i (live (fl_workers s))" unfolding s by (simp add: live_def)
    have queue: "flow_queue strict (ids @ [?i]) (live (fl_workers ?s)) (flow_rows ?s)"
      unfolding s(1) L using assms none c by (intro flow_queue_append) (auto simp: flow_ok_def workers_ok_def)
    have "row_id ` set (flow_rows ?s) \<subseteq> insert (JStr ?i) (row_id ` set (flow_rows s))"
      using set_take_last [of 100 "flow_rows s @ [JObj ?c]"] c(1) unfolding s(1) by auto
    then show ?thesis using flow_ok_append [OF assms s(2,3) _ _ queue] s(4) by simp
  qed
qed

lemma flow_ok_cleanup:
  assumes "flow_ok strict ids s" and "env_fresh e 0 \<notin> set ids"
  shows "flow_ok strict (ids @ [env_fresh e 0]) (flow_do cfg (Cleanup e ok payload) s)"
proof (cases ok)
  case False
  then have "flow_do cfg (Cleanup e ok payload) s = s" by (simp add: flow_do_def agent_cleanup_request_def)
  then show ?thesis using flow_ok_unused [OF assms] by simp
next
  case True
  let ?i = "env_fresh e 0" and ?router = "target_router e (dget payload ''router'') (fl_docs s)" and ?s = "flow_do cfg (Cleanup e ok payload) s"
  let ?c = "new_cleanup_command e ?router"
  have s: "flow_rows ?s = take_last 100 (flow_rows s @ [JObj ?c])" "fl_lock ?s = fl_lock s" "fl_workers ?s = fl_workers s @ []" "fl_next ?s = fl_next s"
    using True by (simp_all add: flow_do_def agent_cleanup_request_def with_docs_def append_command_def Let_def)
  have c: "dget ?c ''id'' = JStr ?i" "dget ?c ''state'' = JStr ''pending''" "dget ?c ''action'' = JStr ''cleanup''"
    by (simp_all add: new_cleanup_command_def)
  have queue: "flow_queue strict (ids @ [?i]) (live (fl_workers ?s)) (flow_rows ?s)"
    unfolding s(1,3) using assms c by (intro flow_queue_append [where L = "live (fl_workers s)"]) (auto simp: flow_ok_def workers_ok_def is_active_def)
  have "row_id ` set (flow_rows ?s) \<subseteq> insert (JStr ?i) (row_id ` set (flow_rows s))"
    using set_take_last [of 100 "flow_rows s @ [JObj ?c]"] c(1) unfolding s(1) by auto
  then show ?thesis using flow_ok_append [OF assms s(2,3) _ _ queue] s(4) by simp
qed

lemma flow_ok_ack:
  assumes "flow_ok strict ids s" and "strict \<Longrightarrow> admissible (Ack e ok payload) s"
  shows "flow_ok strict ids (flow_do cfg (Ack e ok payload) s)"
proof -
  let ?s = "flow_do cfg (Ack e ok payload) s" and ?i = "clean_saved_value (dget payload ''id'')"
  let ?word = "text_or (clean_saved_value (dget payload ''state'')) ''accepted''"
  obtain rows hit where c: "close_first ?i (ack_change e ?word payload) (flow_rows s) = (rows, hit)" by fastforce
  have same: "fl_workers ?s = fl_workers s" "fl_lock ?s = fl_lock s" "fl_next ?s = fl_next s" by (simp_all add: flow_do_def)
  show ?thesis
  proof (cases "ok \<and> ?word \<in> {''accepted'', ''completed'', ''failed''} \<and> hit")
    case True
    then have rows: "flow_rows ?s = fst (close_first ?i (ack_change e ?word payload) (flow_rows s))"
      using c by (auto simp: flow_do_def router_agent_ack_def with_docs_def Let_def)
    have "flow_queue strict ids (live (fl_workers s)) (flow_rows ?s)"
      unfolding rows using assms True by (intro flow_queue_acked) (auto simp: flow_ok_def admissible_def list_all_iff)
    then show ?thesis using close_first_ids same rows by (intro flow_ok_same [OF assms(1)]) simp_all
  next
    case False
    then have "flow_rows ?s = flow_rows s" using c by (auto simp: flow_do_def router_agent_ack_def Let_def)
    then show ?thesis using flow_ok_rows_same [OF assms(1) same] by simp
  qed
qed

lemma flow_ok_report: "flow_ok strict ids s \<Longrightarrow> flow_ok strict ids (flow_do cfg (Report e ok payload) s)"
proof -
  assume s: "flow_ok strict ids s"
  let ?s = "flow_do cfg (Report e ok payload) s"
  have same: "fl_workers ?s = fl_workers s" "fl_lock ?s = fl_lock s" "fl_next ?s = fl_next s" by (simp_all add: flow_do_def set_docs_def)
  show ?thesis
  proof (cases "flow_rows ?s = flow_rows s")
    case False
    then obtain router version where rows: "flow_rows ?s =
        map (\<lambda>v. if update_reached router version v then JObj (Relay.finish_update e version (items v)) else v) (flow_rows s)"
      by (auto simp: flow_do_def set_docs_def relay_agent_status_def finish_updates_def Let_def split: if_splits)
    have "flow_queue strict ids (live (fl_workers s)) (flow_rows ?s)" unfolding rows using s by (intro flow_queue_finished) (simp add: flow_ok_def)
    then show ?thesis using same rows by (intro flow_ok_same [OF s]) (simp_all add: Relay.finish_update_def)
  qed (rule flow_ok_rows_same [OF s same])
qed

lemma flow_ok_thread:
  assumes "flow_ok strict ids s"
  shows "flow_ok strict ids (acquire_manifest t s)" and "flow_ok strict ids (fetch_manifest cfg t e fetch s)" and "flow_ok strict ids (read_queue t s)"
    and "flow_ok strict ids (write_queue t e s)"
proof -
  have queue: "flow_queue strict ids (live (fl_workers s)) (flow_rows s)" and ok: "workers_ok strict ids s" using assms by (simp_all add: flow_ok_def)
  have lock: "fl_lock s = Some t" if "map_of (fl_workers s) t = Some w" "\<not> is_waiting w" for w
    using worker_in [OF ok map_of_SomeD [OF that(1)]] that(2) by simp
  show "flow_ok strict ids (acquire_manifest t s)"
  proof (cases "\<exists>i. map_of (fl_workers s) t = Some (Waiting i) \<and> fl_lock s = None")
    case True
    then obtain i where w: "map_of (fl_workers s) t = Some (Waiting i)" "fl_lock s = None" by auto
    then show ?thesis by (intro set_worker_ok [OF assms w(1), of "Fetching i"]) (auto simp: acquire_manifest_def set_worker_def)
  next
    case False
    then have "acquire_manifest t s = s" by (auto simp: acquire_manifest_def split: option.splits worker.splits)
    then show ?thesis using assms by simp
  qed
  show "flow_ok strict ids (fetch_manifest cfg t e fetch s)"
  proof (cases "\<exists>i. map_of (fl_workers s) t = Some (Fetching i)")
    case True
    then obtain i where w: "map_of (fl_workers s) t = Some (Fetching i)" by auto
    obtain found c where f: "agent_release_manifest cfg (env_now e) True fetch (ag_cache (fl_agent s)) = (found, c)" by fastforce
    have v: "prepared (prepared_values cfg found)" by (auto simp: prepared_def)
    show ?thesis using w f v lock [OF w]
      by (intro set_worker_ok [OF assms w, of "Writing i (prepared_values cfg found)"]) (simp_all add: fetch_manifest_def set_worker_def)
  next
    case False
    then have "fetch_manifest cfg t e fetch s = s" by (auto simp: fetch_manifest_def split: option.splits worker.splits)
    then show ?thesis using assms by simp
  qed
  show "flow_ok strict ids (read_queue t s)"
  proof (cases "\<exists>i vals. map_of (fl_workers s) t = Some (Writing i vals)")
    case True
    then obtain i vals where w: "map_of (fl_workers s) t = Some (Writing i vals)" by auto
    then have "prepared vals" using worker_in [OF ok map_of_SomeD [OF w]] by simp
    then show ?thesis using w lock [OF w] queue by (intro set_worker_ok [OF assms w]) (auto simp: read_queue_def set_worker_def)
  next
    case False
    then have "read_queue t s = s" by (auto simp: read_queue_def split: option.splits worker.splits)
    then show ?thesis using assms by simp
  qed
  show "flow_ok strict ids (write_queue t e s)"
  proof (cases "\<exists>i vals snap. map_of (fl_workers s) t = Some (Stored i vals snap)")
    case True
    then show ?thesis using flow_ok_write [OF assms] by blast
  next
    case False
    then have "write_queue t e s = s" by (auto simp: write_queue_def split: option.splits worker.splits)
    then show ?thesis using assms by simp
  qed
qed

lemma flow_ok_step:
  assumes "flow_ok strict ids s" and "strict \<Longrightarrow> admissible ev s" and "distinct (ids @ flow_drawn ev)"
  shows "flow_ok strict (ids @ flow_drawn ev) (flow_do cfg ev s)"
proof (cases ev)
  case (Request e ok payload)
  then show ?thesis using flow_ok_request [OF assms(1)] assms(3) by simp
next
  case (Cleanup e ok payload)
  then show ?thesis using flow_ok_cleanup [OF assms(1)] assms(3) by simp
next
  case (Ack e ok payload)
  then show ?thesis using flow_ok_ack [OF assms(1)] assms(2) by simp
next
  case (Report e ok payload)
  then show ?thesis using flow_ok_report [OF assms(1)] by simp
qed (use flow_ok_thread [OF assms(1)] in \<open>simp_all add: flow_do_def\<close>)

lemma flow_ok_run:
  "flow_ok strict ids s \<Longrightarrow> (strict \<Longrightarrow> proper cfg es s) \<Longrightarrow> distinct (ids @ concat (map flow_drawn es)) \<Longrightarrow> flow_ok strict (ids @ concat (map flow_drawn es)) (flow_run cfg es s)"
proof (induction es arbitrary: ids s)
  case (Cons ev es)
  have "flow_ok strict (ids @ flow_drawn ev) (flow_do cfg ev s)" using Cons.prems by (intro flow_ok_step) auto
  from Cons.IH [OF this] show ?case using Cons.prems by (simp add: flow_run_def)
qed (simp add: flow_run_def)

text \<open>A queue with which the hub can start: nothing is in preparation, and what waits has a version.\<close>

definition calm :: "string list \<Rightarrow> docs \<Rightarrow> bool" where
  "calm ids d = (distinct (map row_id (agent_commands d))
     \<and> list_all (\<lambda>v. is_dict v \<and> row_id v \<in> JStr ` set ids \<and> named v \<and> row_state v \<noteq> JStr ''preparing'') (agent_commands d))"

definition one_each :: "docs \<Rightarrow> bool" where
  "one_each d = (\<forall>router. length (filter (active_row router) (agent_commands d)) \<le> 1)"

lemma flow_ok_new: "calm ids d \<Longrightarrow> (strict \<Longrightarrow> one_each d) \<Longrightarrow> flow_ok strict ids (new_flow d)"
  by (auto simp: flow_ok_def workers_ok_def flow_queue_def flow_row_def calm_def one_each_def new_flow_def live_def list_all_iff)

section \<open>The threads settle\<close>

text \<open>What a thread still has to do; a stage that it has behind it changes nothing.\<close>

definition finish :: "env \<Rightarrow> fetch \<Rightarrow> nat \<Rightarrow> flow_event list" where
  "finish e fetch t = [Acquire t, Fetch t e fetch, Read t, Write t e]"

text \<open>The thread with the lock first, then the others as they came.\<close>

definition turns :: "flow \<Rightarrow> nat list" where
  "turns s = (case fl_lock s of None \<Rightarrow> map fst (fl_workers s) | Some t \<Rightarrow> t # filter (\<lambda>u. u \<noteq> t) (map fst (fl_workers s)))"

lemma flow_run_append: "flow_run cfg (es @ fs) s = flow_run cfg fs (flow_run cfg es s)"
  by (simp add: flow_run_def)

lemma flow_do_thread [simp]:
  "flow_do cfg (Acquire t) s = acquire_manifest t s" "flow_do cfg (Fetch t e fetch) s = fetch_manifest cfg t e fetch s"
  "flow_do cfg (Read t) s = read_queue t s" "flow_do cfg (Write t e) s = write_queue t e s"
  by (simp_all add: flow_do_def)

lemma dpop_dset [simp]: "dpop t (dset t w ws) = dpop t ws"
  by (induction ws) auto

lemma delete_first: "t \<notin> fst ` set rest \<Longrightarrow> dpop t rest = rest"
  by (induction rest) auto

lemma delete_keys: "map fst (dpop t ws) = filter (\<lambda>u. u \<noteq> t) (map fst ws)"
  by (induction ws) auto

lemma finish_thread:
  assumes "map_of (fl_workers s) t = Some w" and "is_waiting w \<Longrightarrow> fl_lock s = None"
  shows "fl_workers (flow_run cfg (finish e fetch t) s) = dpop t (fl_workers s) \<and> fl_lock (flow_run cfg (finish e fetch t) s) = None"
  using assms
  by (cases w) (simp_all add: flow_run_def finish_def acquire_manifest_def fetch_manifest_def read_queue_def write_queue_def
      set_worker_def set_docs_def case_prod_beta)

lemma finish_ok: "flow_ok strict ids s \<Longrightarrow> flow_ok strict ids (flow_run cfg (finish e fetch t) s)"
  using flow_ok_thread by (simp add: flow_run_def finish_def)

lemma finish_waiting:
  "flow_ok strict ids s \<Longrightarrow> fl_lock s = None \<Longrightarrow>
     fl_workers (flow_run cfg (concat (map (\<lambda>t. finish (e t) (fetch t) t) (map fst (fl_workers s)))) s) = []
     \<and> flow_ok strict ids (flow_run cfg (concat (map (\<lambda>t. finish (e t) (fetch t) t) (map fst (fl_workers s)))) s)"
proof (induction "map fst (fl_workers s)" arbitrary: s)
  case Nil
  then show ?case by (simp add: flow_run_def)
next
  case (Cons t ts)
  then obtain w rest where ws: "fl_workers s = (t, w) # rest" "ts = map fst rest" by (cases "fl_workers s") auto
  let ?s = "flow_run cfg (finish (e t) (fetch t) t) s"
  have dist: "dict_ok (fl_workers s)" using Cons.prems(1) by (simp add: flow_ok_def workers_ok_def)
  have step: "fl_workers ?s = dpop t (fl_workers s) \<and> fl_lock ?s = None"
    using Cons.prems(2) ws by (intro finish_thread) simp_all
  moreover have "dpop t (fl_workers s) = rest" using dist ws by (auto simp: delete_first)
  ultimately have left: "fl_workers ?s = rest" "fl_lock ?s = None" by simp_all
  have "ts = map fst (fl_workers ?s)" using left ws by simp
  from Cons.hyps(1) [OF this finish_ok [OF Cons.prems(1)] left(2)]
  show ?case using left ws by (simp add: flow_run_append)
qed

lemma turns_settle:
  assumes "flow_ok strict ids s"
  shows "fl_workers (flow_run cfg (concat (map (\<lambda>t. finish (e t) (fetch t) t) (turns s))) s) = []
     \<and> flow_ok strict ids (flow_run cfg (concat (map (\<lambda>t. finish (e t) (fetch t) t) (turns s))) s)"
proof (cases "fl_lock s")
  case None
  then show ?thesis using finish_waiting [OF assms] by (simp add: turns_def)
next
  case (Some t)
  have ok: "workers_ok strict ids s" using assms by (simp add: flow_ok_def)
  then obtain w where w: "map_of (fl_workers s) t = Some w" using Some
    by (cases "map_of (fl_workers s) t") (auto simp: workers_ok_def map_of_eq_None_iff)
  let ?s = "flow_run cfg (finish (e t) (fetch t) t) s"
  have "\<not> is_waiting w" using worker_in [OF ok map_of_SomeD [OF w]] Some by simp
  then have step: "fl_workers ?s = dpop t (fl_workers s)" "fl_lock ?s = None" using finish_thread [OF w] by blast+
  have "map fst (fl_workers ?s) = filter (\<lambda>u. u \<noteq> t) (map fst (fl_workers s))"
    unfolding step by (rule delete_keys)
  then show ?thesis using finish_waiting [OF finish_ok [OF assms] step(2)] Some by (simp add: turns_def flow_run_append)
qed

section \<open>Properties\<close>

text \<open>C36: From a queue in which nothing is in preparation, every update that waits has its version and every router has at
  most one active update, with identifiers that are never drawn twice, and with an agent that does not acknowledge as accepted
  what was finished before, nor answers what is still in preparation: whatever the requests,
  reports and threads do, and in whatever order, a router has at most one active update, and an update that the hub hands
  out to the agent names the version to install.\<close>

theorem one_active_update:
  assumes "calm ids d" and "one_each d" and "distinct (ids @ concat (map flow_drawn es))" and "proper cfg es (new_flow d)"
    and "s = flow_run cfg es (new_flow d)"
  shows "length (filter (active_row router) (flow_rows s)) \<le> 1
    \<and> (\<exists>rows. dget (snd (router_agent_commands e True word (fl_agent s))) ''commands'' = JList rows
       \<and> list_all (\<lambda>v. is_dict v \<and> (dget (items v) ''action'' = JStr ''update'' \<longrightarrow>
           clean_saved_value (dget (items v) ''targetVersion'') \<noteq> [])) rows)"
proof -
  let ?ids = "ids @ concat (map flow_drawn es)"
  have "flow_ok True ?ids s" unfolding assms(5) using flow_ok_run [of True ids "new_flow d" cfg es] flow_ok_new [of ids d True] assms(1-4) by simp
  then have ok: "flow_queue True ?ids (live (fl_workers s)) (flow_rows s)" by (simp only: flow_ok_def)
  have "is_dict v \<and> (dget (items v) ''action'' = JStr ''update'' \<longrightarrow> clean_saved_value (dget (items v) ''targetVersion'') \<noteq> [])"
    if "v \<in> set (take 5 (filter (pending_for r) (flow_rows s)))" for v r
    using in_set_takeD [OF that] ok by (auto simp: flow_queue_def flow_row_def list_all_iff pending_for_def FollowupRuns.named_def)
  then show ?thesis using ok by (auto simp: flow_queue_def router_agent_commands_def list_all_iff)
qed

text \<open>C37: From every state that a hub reaches which started with a queue in which nothing is in preparation and every update that
  waits has its version, with identifiers that are never drawn twice and any acknowledgements of the agent: when the threads take their turns, whatever each of them is answered, all of them end and no
  command is left in its preparation.\<close>

theorem update_requests_settle:
  assumes "calm ids d" and "distinct (ids @ concat (map flow_drawn es))"
    and "s = flow_run cfg es (new_flow d)" and "s' = flow_run cfg (concat (map (\<lambda>t. finish (e t) (fetch t) t) (turns s))) s"
  shows "fl_workers s' = [] \<and> (\<forall>v \<in> set (flow_rows s'). row_state v \<noteq> JStr ''preparing'')"
proof -
  let ?ids = "ids @ concat (map flow_drawn es)"
  have "flow_ok False ?ids s" unfolding assms(3) using flow_ok_run [of False ids "new_flow d" cfg es] flow_ok_new [of ids d False] assms(1,2) by simp
  from turns_settle [OF this] have "fl_workers s' = []" "flow_ok False ?ids s'" unfolding assms(4) by blast+
  then show ?thesis by (auto simp: flow_ok_def flow_queue_def flow_row_def list_all_iff live_def)
qed

section \<open>Examples\<close>

definition no_docs :: docs where "no_docs = (\<lambda>_. None)"

text \<open>Two requests for two routers, the first of them made twice; the first thread has the lock, a source answers it.\<close>

definition sample_flow :: "flow_event list" where
  "sample_flow = [Request (sample_env ''a1'' 1000) True [(''router'', JStr ''r'')], Request (sample_env ''b2'' 1001) True [(''router'', JStr ''r'')],
     Acquire 0, Request (sample_env ''c3'' 1002) True [(''router'', JStr ''q'')], Fetch 0 (sample_env [] 1003) github_only,
     Read 0, Write 0 (sample_env [] 1004)]"

definition old_queue :: docs where
  "old_queue = save_agent_commands [JObj [(''id'', JStr ''z9''), (''router'', JStr ''r''), (''action'', JStr ''update''), (''state'', JStr ''completed'')]] no_docs"

lemma old_queue_rows: "agent_commands old_queue = [JObj [(''id'', JStr ''z9''), (''router'', JStr ''r''), (''action'', JStr ''update''), (''state'', JStr ''completed'')]]"
  by (simp add: old_queue_def)

lemma sample_flow_facts:
  "distinct ([''z9''] @ concat (map flow_drawn sample_flow))" "proper sample_release sample_flow (new_flow old_queue)" "calm [''z9''] old_queue"
  "one_each old_queue"
proof -
  have "concat (map flow_drawn sample_flow) = [''a1'', ''b2'', ''c3'']" by code_simp
  then show "distinct ([''z9''] @ concat (map flow_drawn sample_flow))" by simp
  show "proper sample_release sample_flow (new_flow old_queue)" by code_simp
  show "calm [''z9''] old_queue" by (simp add: calm_def old_queue_rows named_def dget_def dget_or_def)
  show "one_each old_queue" by (simp add: one_each_def old_queue_rows)
qed

definition sample_reached :: flow where
  "sample_reached = flow_run sample_release sample_flow (new_flow old_queue)"

theorem one_active_update_witness:
  "length (filter (active_row ''r'') (flow_rows sample_reached)) \<le> 1
   \<and> map row_state (flow_rows sample_reached) = [JStr ''completed'', JStr ''pending'', JStr ''preparing'']
   \<and> map (\<lambda>v. dget (items v) ''targetVersion'') (flow_rows sample_reached) = [JNull, JStr ''1.2.0'', JStr []]"
proof -
  from one_active_update [OF sample_flow_facts(3,4,1,2) sample_reached_def]
  have "length (filter (active_row ''r'') (flow_rows sample_reached)) \<le> 1" by blast
  moreover have "map row_state (flow_rows sample_reached) = [JStr ''completed'', JStr ''pending'', JStr ''preparing'']"
    "map (\<lambda>v. dget (items v) ''targetVersion'') (flow_rows sample_reached) = [JNull, JStr ''1.2.0'', JStr []]"
    by code_simp+
  ultimately show ?thesis by blast
qed

definition sample_settled :: flow where
  "sample_settled = flow_run sample_release
     (concat (map (\<lambda>t. finish (sample_env [] 1005) (if t = 0 then github_only else no_source) t) (turns sample_reached))) sample_reached"

theorem update_requests_settle_witness:
  "fl_workers sample_settled = [] \<and> list_all (\<lambda>v. row_state v \<noteq> JStr ''preparing'') (flow_rows sample_settled)
   \<and> map row_state (flow_rows sample_settled) = [JStr ''completed'', JStr ''pending'', JStr ''pending'']"
proof -
  from update_requests_settle [OF sample_flow_facts(3,1) sample_reached_def sample_settled_def]
  have "fl_workers sample_settled = [] \<and> (\<forall>v \<in> set (flow_rows sample_settled). row_state v \<noteq> JStr ''preparing'')" .
  moreover have "map row_state (flow_rows sample_settled) = [JStr ''completed'', JStr ''pending'', JStr ''pending'']" by code_simp
  ultimately show ?thesis by (simp add: list_all_iff)
qed

text \<open>The hub does not look at the state of a command that is acknowledged: a late acknowledgement makes a finished update
  active again, beside the one that was requested after it.\<close>

theorem late_ack_second_update:
  "(let s = flow_run sample_release [Request (sample_env ''a1'' 1000) True [], Acquire 0, Fetch 0 (sample_env [] 1001) github_only, Read 0,
        Write 0 (sample_env [] 1002), Ack (sample_env [] 1003) True [(''id'', JStr ''a1''), (''state'', JStr ''failed'')],
        Request (sample_env ''b2'' 1004) True [], Ack (sample_env [] 1005) True [(''id'', JStr ''a1'')]] (new_flow no_docs) in
    map row_state (filter (active_row ''r'') (flow_rows s)) = [JStr ''accepted'', JStr ''preparing''])"
  by code_simp

text \<open>A restart forgets the thread and not the command: the next request is answered with the old command, and no thread
  is ever started for it.\<close>

theorem restart_blocks_updates:
  "(let s = restart_flow (flow_run sample_release [Request (sample_env ''a1'' 1000) True []] (new_flow no_docs));
        s' = flow_run sample_release [Request (sample_env ''b2'' 9000) True []] s in
    fl_workers s' = [] \<and> map row_state (flow_rows s') = [JStr ''preparing'']
    \<and> dget (snd (fst (update_request sample_release (sample_env ''b2'' 9000) True [] (fl_docs s)))) ''deduplicated'' = JBool True)"
  by code_simp

text \<open>A request between the two steps of a thread is accepted and then lost: the thread writes the rows back that it read before.\<close>

theorem request_overwritten:
  "(let s = flow_run sample_release [Request (sample_env ''a1'' 1000) True [], Acquire 0, Fetch 0 (sample_env [] 1001) github_only, Read 0] (new_flow no_docs) in
    map row_id (flow_rows (flow_run sample_release [Cleanup (sample_env ''c3'' 1002) True []] s)) = [JStr ''a1'', JStr ''c3'']
    \<and> map row_id (flow_rows (flow_run sample_release [Cleanup (sample_env ''c3'' 1002) True [], Write 0 (sample_env [] 1003)] s)) = [JStr ''a1''])"
  by code_simp

end
