(* ===== verification/Vpn.thy ===== *)
theory Vpn
  imports Daily Effects "HOL-Library.Product_Lexorder"
begin

text \<open>
  The public addresses of VPN and STUN services in \<open>src/hub.py\<close>: the document of addresses, the merged list that the
  apps show, the webhook of Lucky, and the repair of the list from recent events. Besides the characters of
  \<open>Daily\<close> one more control code stands for the colon of double width.
\<close>

section \<open>Addresses and names\<close>

definition FULL_COLON :: char where "FULL_COLON = char_of (159::nat)"

definition BAD_PARTS :: "string list" where
  "BAD_PARTS = [''#{'', ''{stun_'', ''token='', ''bearer '', ''authorization'']"

definition clean_vpn_address :: "json \<Rightarrow> string" where
  "clean_vpn_address v =
    (let text = clean_saved_value v in if list_ex (contains (lower text)) BAD_PARTS then [] else text)"

text \<open>The characters that \<open>[^a-z0-9_\<dots>-]+\<close> keeps, with the Chinese ones, and its runs of others.\<close>

definition key_char :: "char \<Rightarrow> bool" where
  "key_char c = (is_dec c \<or> CHR ''a'' \<le> c \<and> c \<le> CHR ''z'' \<or> c \<in> {CHR ''_'', CHR ''-''}
     \<or> 128 \<le> code c \<and> code c < 159 \<and> \<not> is_space c)"

function sub_runs :: "(char \<Rightarrow> bool) \<Rightarrow> string \<Rightarrow> string" where
  "sub_runs ok [] = []"
| "sub_runs ok (c # s) = (if ok c then c # sub_runs ok s else CHR ''_'' # sub_runs ok (dropWhile (\<lambda>c. \<not> ok c) s))"
  by pat_completeness auto
termination
  by (relation "measure (\<lambda>(ok, s). length s)") (auto simp: le_imp_less_Suc length_dropWhile_le)

definition vpn_service_key :: "string \<Rightarrow> string" where
  "vpn_service_key name =
    (let raw = text_or (clean_saved_value (JStr name)) ''STUN'';
         key = replace_char (CHR ''/'') (CHR ''_'') (replace_char (CHR '' '') (CHR ''_'') (strip (lower raw))) in
     text_or (strip_of (\<lambda>c. c = CHR ''_'') (sub_runs key_char key)) ''stun'')"

section \<open>The document of addresses\<close>

abbreviation VPN_STATE :: string where "VPN_STATE \<equiv> ''vpn_stun_addresses.json''"

definition load_vpn_addresses :: "docs \<Rightarrow> row" where
  "load_vpn_addresses d = items (load_json d VPN_STATE (JObj []))"

definition vpn_row :: "string \<Rightarrow> string \<Rightarrow> string \<Rightarrow> string \<Rightarrow> row" where
  "vpn_row name addr source updated =
     [(''name'', JStr name), (''address'', JStr addr), (''stun'', JStr addr), (''source'', JStr source), (''updatedAt'', JStr updated)]"

text \<open>The row that is kept of a stored item, with its key; \<open>None\<close> when it has no address.\<close>

definition kept_item :: "string \<Rightarrow> string \<Rightarrow> string \<Rightarrow> row \<Rightarrow> (string \<times> row) option" where
  "kept_item source updated k item =
    (let name = text_or (clean_saved_value (dget item ''name'')) k; addr = clean_vpn_address (por (dget item ''address'') (dget item ''stun'')) in
     if addr = [] then None
     else Some (vpn_service_key name, vpn_row name addr (text_or (clean_saved_value (dget item ''source'')) source)
       (text_or (clean_saved_value (dget item ''updatedAt'')) updated)))"

definition saved_addresses :: "string \<Rightarrow> row \<Rightarrow> row" where
  "saved_addresses now data = fold (\<lambda>(k, v) clean. case v of
     JObj item \<Rightarrow> (case kept_item ''webhook'' now k item of None \<Rightarrow> clean | Some (key, r) \<Rightarrow> dset key (JObj r) clean)
   | _ \<Rightarrow> clean) data []"

definition save_vpn_addresses :: "env \<Rightarrow> row \<Rightarrow> docs \<Rightarrow> docs" where
  "save_vpn_addresses e data d = save_json d VPN_STATE (JObj (saved_addresses (env_now_str e) data))"

type_synonym 'a vpn_op = "(docs, py_error, 'a) op"

text \<open>An item of the loaded document that is neither empty nor a dictionary raises an error.\<close>

definition upsert_vpn_address :: "env \<Rightarrow> string \<Rightarrow> string \<Rightarrow> string \<Rightarrow> (row \<times> string) vpn_op" where
  "upsert_vpn_address e name address source =
    (let service = text_or (clean_saved_value (JStr name)) ''STUN''; addr = clean_vpn_address (JStr address); key = vpn_service_key service in
     if addr = [] then ret ([], [])
     else sbind (gets load_vpn_addresses) (\<lambda>data.
       case por (dget data key) (JObj []) of
         JObj old \<Rightarrow> (let item = vpn_row service addr source (env_now_str e) in
           sbind (modify (save_vpn_addresses e (dset key (JObj item) data)))
             (\<lambda>_. ret (item, clean_vpn_address (dget old ''address''))))
       | _ \<Rightarrow> fail AttributeError))"

section \<open>The list of addresses\<close>

definition add_item :: "string \<Rightarrow> string \<times> json \<Rightarrow> (string \<times> row) list \<Rightarrow> (string \<times> row) list" where
  "add_item source kv merged = (case kv of
     (k, JObj item) \<Rightarrow> (case kept_item source [] k item of None \<Rightarrow> merged | Some (key, r) \<Rightarrow> dset key r merged)
   | _ \<Rightarrow> merged)"

definition legacy_item :: "row \<Rightarrow> string \<times> string \<Rightarrow> (string \<times> row) list \<Rightarrow> (string \<times> row) list" where
  "legacy_item state kd merged = (case dget state (fst kd) of
     JObj item \<Rightarrow>
       (let name = text_or (clean_saved_value (dget item ''name'')) (snd kd);
            addr = clean_vpn_address (por (por (dget item ''address'') (dget item ''stun'')) (dget item ''publicAddress''));
            key = vpn_service_key name in
        if addr = [] \<or> map_of merged key \<noteq> None then merged
        else dset key (vpn_row name addr (text_or (clean_saved_value (dget item ''source'')) ''legacy'') (clean_saved_value (dget item ''updatedAt''))) merged)
   | _ \<Rightarrow> merged)"

definition state_items :: "row \<Rightarrow> (string \<times> row) list" where
  "state_items state = fold (legacy_item state) [(''luckyStun'', ''Lucky''), (''stun'', ''STUN'')]
     (fold (add_item ''state'') (items (dget state ''vpn'')) [])"

definition merged_items :: "row \<Rightarrow> docs \<Rightarrow> (string \<times> row) list" where
  "merged_items state d = fold (add_item ''webhook'') (load_vpn_addresses d) (state_items state)"

definition PREFERRED :: "string list" where
  "PREFERRED = [''wireguard'', ''openvpn'', ''lucky'', ''easytier'', ''stun'']"

definition preference :: "string \<Rightarrow> nat" where
  "preference key = (let n = length (takeWhile (\<lambda>p. p \<noteq> key) PREFERRED) in if n < length PREFERRED then n else 50)"

definition row_name :: "row \<Rightarrow> string" where "row_name r = py_str (dget r ''name'')"

definition vpn_addresses_list :: "row \<Rightarrow> row list vpn_op" where
  "vpn_addresses_list state =
     sbind (gets load_vpn_addresses) (\<lambda>data. sbind (guard (list_all (is_dict \<circ> snd) data) AttributeError)
       (\<lambda>_. gets (\<lambda>d. sort_key (\<lambda>r. (preference (vpn_service_key (row_name r)), row_name r)) (map snd (merged_items state d)))))"

section \<open>The webhook of Lucky\<close>

definition is_colon :: "char \<Rightarrow> bool" where "is_colon c = (c = CHR '':'' \<or> c = FULL_COLON)"

text \<open>The match of \<open>^\s*([^:]{1,32})\s*[:]\s*(.+?)\s*$\<close>, for both colons, in a text without white space at its ends.\<close>

definition named_address :: "string \<Rightarrow> (string \<times> string) option" where
  "named_address raw =
    (let p = takeWhile (\<lambda>c. \<not> is_colon c) raw; r = drop (Suc (length p)) raw in
     if p \<noteq> [] \<and> r \<noteq> [] \<and> list_all is_space (drop 32 p) then Some (take 32 p, strip r) else None)"

definition one_line :: "json \<Rightarrow> string" where
  "one_line v = replace_char (char_of (10::nat)) (CHR '' '') (replace_char (char_of (13::nat)) (CHR '' '') (strip (py_str (por v (JStr [])))))"

definition LUCKY_BAD :: "string list" where
  "LUCKY_BAD = [''null'', ''none'', ''-'', ''#{'', ''{stun_'', ''token='', ''bearer '']"

definition clean_addr :: "json \<Rightarrow> string" where
  "clean_addr v = (let text = strip (py_str (por v (JStr []))) in if list_ex (contains (lower text)) LUCKY_BAD then [] else text)"

definition parse_lucky_content :: "string \<Rightarrow> string \<times> string" where
  "parse_lucky_content text =
    (let raw = one_line (JStr text) in
     if raw = [] then (''Lucky'', [])
     else case named_address raw of
       Some (name, addr) \<Rightarrow> (text_or (strip name) ''Lucky'', clean_addr (JStr addr))
     | None \<Rightarrow> (''Lucky'', clean_addr (JStr raw)))"

definition text_content :: "row \<Rightarrow> string" where
  "text_content payload = (case dget payload ''text'' of
     JObj t \<Rightarrow> py_str (por (dget t ''content'') (JStr []))
   | _ \<Rightarrow> (case dget payload ''content'' of JStr s \<Rightarrow> s | _ \<Rightarrow> []))"

definition lucky_address :: "row \<Rightarrow> string" where
  "lucky_address payload = clean_addr (por (por (por (por (dget payload ''address'') (dget payload ''ipAddr'')) (dget payload ''newValue''))
     (dget payload ''value'')) (JStr (snd (parse_lucky_content (text_content payload)))))"

definition lucky_service :: "row \<Rightarrow> string" where
  "lucky_service payload =
    (let name = py_str (por (por (dget payload ''name'') (JStr (fst (parse_lucky_content (text_content payload))))) (JStr ''Lucky'')) in
     text_or (strip (py_str (por (por (dget payload ''service'') (JStr name)) (JStr ''Lucky'')))) ''Lucky'')"

definition is_stun_key :: "string \<Rightarrow> bool" where
  "is_stun_key key = (contains key ''lucky'' \<or> contains key ''stun'')"

definition stun_fields :: "env \<Rightarrow> string \<Rightarrow> string \<Rightarrow> row \<Rightarrow> row" where
  "stun_fields e service address item =
     [(''luckyStun'', JObj item), (''stun'', JObj [(''name'', JStr service), (''publicAddress'', JStr address), (''address'', JStr address),
        (''source'', JStr ''Lucky Webhook''), (''updatedAt'', JStr (env_now_str e))])]"

definition lucky_event :: "string \<Rightarrow> string \<Rightarrow> string \<Rightarrow> string \<Rightarrow> row" where
  "lucky_event service old address content =
     [(''type'', JStr ''stun_changed''), (''title'', JStr (service @ '' STUN '' @ ADDRESS_CHANGED)), (''name'', JStr service),
      (''oldValue'', JStr old), (''newValue'', JStr address), (''source'', JStr ''lucky''), (''content'', JStr content)]"

text \<open>\<open>state.setdefault("vpn", {})[key] = item\<close>\<close>

definition set_vpn_item :: "string \<Rightarrow> row \<Rightarrow> row \<Rightarrow> py_error + row" where
  "set_vpn_item key item state = (case dget_or state ''vpn'' (JObj []) of
     JObj vpn \<Rightarrow> Inr (dset ''vpn'' (JObj (dset key (JObj item) vpn)) state)
   | _ \<Rightarrow> Inl TypeError)"

abbreviation STATE :: string where "STATE \<equiv> ''state.json''"

datatype lucky_reply = Ignored row | Saved string string | Unauthorized

definition store_lucky :: "env \<Rightarrow> row \<Rightarrow> string \<Rightarrow> lucky_reply vpn_op" where
  "store_lucky e payload address =
    (let service = lucky_service payload; key = vpn_service_key service in
     sbind (gets (\<lambda>d. dset ''updatedAt'' (JStr (env_now_str e)) (items (load_json d STATE (JObj []))))) (\<lambda>state.
     sbind (upsert_vpn_address e service address ''Lucky Webhook'') (\<lambda>(item, old).
     sbind (pure (set_vpn_item key item state)) (\<lambda>state1.
     sbind (vpn_addresses_list state1) (\<lambda>shown.
      (let state2 = dset ''vpnStunAddresses'' (JList (map JObj shown)) state1;
           state3 = (if is_stun_key key then dmerge state2 (stun_fields e service address item) else state2) in
       sbind (modify (if address \<noteq> old then add_event (env_now_str e) (lucky_event service old address (text_content payload)) else id)) (\<lambda>_.
       sbind (modify (\<lambda>d. save_json d STATE (JObj state3))) (\<lambda>_.
       ret (Saved service address)))))))))"

text \<open>A payload of the request that is not a dictionary has no method \<open>get\<close>.\<close>

definition hook_lucky :: "env \<Rightarrow> bool \<Rightarrow> json \<Rightarrow> lucky_reply vpn_op" where
  "hook_lucky e ok payload =
    (if \<not> ok then ret Unauthorized
     else case por payload (JObj []) of
       JObj p \<Rightarrow> (let address = lucky_address p in
         if address = [] then ret (Ignored (filter (\<lambda>kv. lower (fst kv) \<notin> {''token'', ''password'', ''secret''}) p))
         else store_lucky e p address)
     | _ \<Rightarrow> fail AttributeError)"

section \<open>Repair from events\<close>

definition parse_vpn_text_content :: "json \<Rightarrow> string \<times> string" where
  "parse_vpn_text_content text =
    (let raw = one_line text in
     if raw = [] then ([], [])
     else case named_address raw of
       Some (name, addr) \<Rightarrow> (clean_saved_value (JStr name), clean_vpn_address (JStr addr))
     | None \<Rightarrow> ([], clean_vpn_address (JStr raw)))"

definition KNOWN_NAMES :: "string list" where
  "KNOWN_NAMES = [''wireguard'', ''openvpn'', ''open_vpn'', ''lucky'', ''easytier'', ''easy_tier'', ''stun'']"

definition vpn_address_from_event :: "row \<Rightarrow> string \<times> string" where
  "vpn_address_from_event event =
    (let ty = py_str (por (dget event ''type'') (JStr [])); title = py_str (por (dget event ''title'') (JStr []));
         content = por (por (dget event ''content'') (dget event ''text'')) (JStr []);
         (parsed_name, parsed_addr) = parse_vpn_text_content content;
         name1 = text_or (clean_saved_value (por (dget event ''name'') (dget event ''service''))) parsed_name;
         addr = text_or (clean_vpn_address (por (por (por (dget event ''address'') (dget event ''newValue'')) (dget event ''value'')) (dget event ''stun''))) parsed_addr;
         name = (if name1 = [] \<and> title \<noteq> []
           then clean_saved_value (JStr (strip (replace_all ADDRESS_CHANGED [] (replace_all (''STUN '' @ ADDRESS_CHANGED) [] title)))) else name1);
         known = list_ex (contains (replace_char (CHR '' '') (CHR ''_'') (lower name))) KNOWN_NAMES \<or> list_ex (contains (lower ty)) [''stun'', ''vpn'', ''lucky''] in
     if name = [] \<or> \<not> known then ([], []) else (name, addr))"

text \<open>One event of the repair; the keys with an address (no address of the list is empty), the state and whether it changed
  are carried along.\<close>

definition repair_event :: "env \<Rightarrow> row \<Rightarrow> string list \<times> row \<times> bool \<Rightarrow> (string list \<times> row \<times> bool) vpn_op" where
  "repair_event e event acc = (case acc of (current, state, changed) \<Rightarrow> (case vpn_address_from_event event of (name, addr) \<Rightarrow>
     (let key = vpn_service_key name in
      if name = [] \<or> addr = [] \<or> key \<in> set current then ret acc
      else sbind (upsert_vpn_address e name addr (text_or (clean_saved_value (dget event ''source'')) ''event_repair'')) (\<lambda>(item, old).
        if item = [] then ret acc
        else sbind (pure (set_vpn_item key item state)) (\<lambda>state1. ret (key # current, state1, True))))))"

fun repair_events :: "env \<Rightarrow> row list \<Rightarrow> string list \<times> row \<times> bool \<Rightarrow> (string list \<times> row \<times> bool) vpn_op" where
  "repair_events e [] acc = ret acc"
| "repair_events e (event # es) acc = sbind (repair_event e event acc) (repair_events e es)"

definition ensure_vpn_addresses :: "env \<Rightarrow> row \<Rightarrow> row vpn_op" where
  "ensure_vpn_addresses e state =
     sbind (vpn_addresses_list state) (\<lambda>shown.
     sbind (gets (\<lambda>d. rev (dict_rows (JList (take_last 300 (elems (load_json d ''events.json'' (JList [])))))))) (\<lambda>events.
     sbind (repair_events e events (map (vpn_service_key \<circ> row_name) shown, state, False)) (\<lambda>(current, state1, changed).
     if \<not> changed then ret state1
     else sbind (vpn_addresses_list state1) (\<lambda>shown1.
       (let rows = JList (map JObj shown1);
            state2 = dmerge state1 [(''vpnStunAddresses'', rows), (''vpnAddresses'', rows), (''updatedAt'', JStr (env_now_str e))] in
        sbind (modify (\<lambda>d. save_json d STATE (JObj state2))) (\<lambda>_. ret state2))))))"

end
