(* ===== verification/VpnRuns.thy ===== *)
theory VpnRuns
  imports Vpn
begin

text \<open>
  What becomes of VPN addresses: the list shows only clean addresses, one for each service; a webhook changes the address
  of its own service only and reports a change once; the repair fills in what is missing from the latest events
  and touches nothing else.
\<close>

section \<open>Clean texts\<close>

definition clean_text :: "string \<Rightarrow> bool" where
  "clean_text s = (s \<noteq> [] \<and> clean_saved_value (JStr s) = s)"

definition address_text :: "string \<Rightarrow> bool" where
  "address_text s = (s \<noteq> [] \<and> clean_vpn_address (JStr s) = s)"

lemma clean_vpn_idem: "clean_vpn_address (JStr (clean_vpn_address v)) = clean_vpn_address v"
  by (simp add: clean_vpn_address_def Let_def) (simp add: clean_saved_value_def)

lemma clean_vpn_JNull [simp]: "clean_vpn_address JNull = []"
  by (simp add: clean_vpn_address_def clean_saved_value_def)

lemma cleaned [simp]:
  "clean_saved_value v \<noteq> [] \<Longrightarrow> clean_text (clean_saved_value v)"
  "clean_vpn_address v \<noteq> [] \<Longrightarrow> address_text (clean_vpn_address v)"
  "clean_text s \<Longrightarrow> clean_text (text_or (clean_saved_value v) s)"
  by (simp_all add: clean_text_def address_text_def clean_vpn_idem text_or_def)

lemma clean_names [simp]: "clean_text ''STUN''" "clean_text ''Lucky Webhook''" "clean_text ''event_repair''" "clean_text ''webhook''"
  by (code_simp)+

definition free_of_bad_parts :: "string \<Rightarrow> bool" where
  "free_of_bad_parts s = (\<not> list_ex (contains (lower s)) BAD_PARTS)"

lemma address_free: "address_text s \<Longrightarrow> free_of_bad_parts s"
  by (auto simp: address_text_def free_of_bad_parts_def clean_vpn_address_def Let_def split: if_splits)

lemma kept_row:
  assumes "clean_text name" and "address_text addr" and "clean_text source" and "clean_text updated"
  shows "kept_item s u k (vpn_row name addr source updated) = Some (vpn_service_key name, vpn_row name addr source updated)"
  using assms by (simp add: kept_item_def vpn_row_def dget_def dget_or_def por_def text_or_def clean_text_def address_text_def Let_def)

lemma kept_fields_of:
  assumes "kept_item s u k item = Some (key, r)"
  shows "key = vpn_service_key (row_name r)" and "\<exists>a. dget r ''address'' = JStr a \<and> address_text a"
  using assms by (auto simp: kept_item_def vpn_row_def row_name_def dget_def dget_or_def Let_def split: if_splits)

section \<open>The document\<close>

definition vpn_entry :: "string \<Rightarrow> json \<Rightarrow> bool" where
  "vpn_entry k v = (\<exists>name addr source updated. v = JObj (vpn_row name addr source updated) \<and> k = vpn_service_key name
     \<and> clean_text name \<and> address_text addr \<and> clean_text source \<and> clean_text updated)"

definition addresses_ok :: "row \<Rightarrow> bool" where
  "addresses_ok data = (dict_ok data \<and> (\<forall>(k, v) \<in> set data. vpn_entry k v))"

lemma entry_dict: "vpn_entry k v \<Longrightarrow> \<exists>r. v = JObj r"
  by (auto simp: vpn_entry_def)

lemma addresses_ok_dset: "addresses_ok data \<Longrightarrow> vpn_entry k v \<Longrightarrow> addresses_ok (dset k v data)"
  using set_dset [of k v data] by (auto simp: addresses_ok_def)

lemma saved_id: "addresses_ok data \<Longrightarrow> saved_addresses now data = data"
proof -
  let ?f = "\<lambda>(k, v) clean. case v of JObj item \<Rightarrow> (case kept_item ''webhook'' now k item of None \<Rightarrow> clean | Some (key, r) \<Rightarrow> dset key (JObj r) clean) | _ \<Rightarrow> clean"
  have "addresses_ok (acc @ xs) \<Longrightarrow> fold ?f xs acc = acc @ xs" for acc xs
  proof (induction xs arbitrary: acc)
    case (Cons x xs)
    obtain k v where x: "x = (k, v)" by (cases x)
    then have "vpn_entry k v" and new: "k \<notin> fst ` set acc" using Cons.prems by (auto simp: addresses_ok_def)
    then have "?f (k, v) acc = acc @ [(k, v)]" by (auto simp: vpn_entry_def kept_row dset_append_new)
    then show ?case using Cons x by simp
  qed simp
  from this [of "[]" data] show "addresses_ok data \<Longrightarrow> ?thesis" by (simp add: saved_addresses_def)
qed

lemma vpn_load_saved [simp]: "load_vpn_addresses (save_vpn_addresses e data d) = saved_addresses (env_now_str e) data"
  by (simp add: load_vpn_addresses_def save_vpn_addresses_def)

lemma vpn_load_cong: "d VPN_STATE = d' VPN_STATE \<Longrightarrow> load_vpn_addresses d = load_vpn_addresses d'"
  by (simp add: load_vpn_addresses_def load_json_def)

text \<open>The address that is stored for a service.\<close>

definition stored_address :: "string \<Rightarrow> docs \<Rightarrow> string" where
  "stored_address key d = (case map_of (load_vpn_addresses d) key of Some (JObj r) \<Rightarrow> clean_vpn_address (dget r ''address'') | _ \<Rightarrow> [])"

lemma upsert_eq:
  fixes name :: string
  assumes "addresses_ok (load_vpn_addresses d)" and "clean_text (env_now_str e)" and "clean_text source"
    and "clean_vpn_address (JStr address) \<noteq> []"
  defines "service \<equiv> text_or (clean_saved_value (JStr name)) ''STUN''"
  defines "item \<equiv> vpn_row service (clean_vpn_address (JStr address)) source (env_now_str e)"
  defines "d' \<equiv> save_vpn_addresses e (dset (vpn_service_key service) (JObj item) (load_vpn_addresses d)) d"
  shows "upsert_vpn_address e name address source d = (Inr (item, stored_address (vpn_service_key service) d), d')"
    and "load_vpn_addresses d' = dset (vpn_service_key service) (JObj item) (load_vpn_addresses d)"
    and "addresses_ok (load_vpn_addresses d')"
proof -
  have "clean_text service" "address_text (clean_vpn_address (JStr address))" using assms by simp_all
  then have "vpn_entry (vpn_service_key service) (JObj item)"
    unfolding vpn_entry_def item_def using assms(2,3) by blast
  note ok = addresses_ok_dset [OF assms(1) this]
  show new: "load_vpn_addresses d' = dset (vpn_service_key service) (JObj item) (load_vpn_addresses d)"
    by (simp add: d'_def saved_id [OF ok])
  show "addresses_ok (load_vpn_addresses d')" using ok new by simp
  have "por (dget (load_vpn_addresses d) (vpn_service_key service)) (JObj []) =
      (case map_of (load_vpn_addresses d) (vpn_service_key service) of Some (JObj r) \<Rightarrow> JObj r | _ \<Rightarrow> JObj [])"
    using assms(1) by (auto simp: dget_def dget_or_def por_def addresses_ok_def vpn_entry_def vpn_row_def split: option.splits dest!: map_of_SomeD)
  then show "upsert_vpn_address e name address source d = (Inr (item, stored_address (vpn_service_key service) d), d')"
    using assms(1,4)
    by (auto simp: upsert_vpn_address_def sbind_def gets_def modify_def ret_def stored_address_def service_def item_def d'_def Let_def
        addresses_ok_def vpn_entry_def dget_def dget_or_def split: option.splits json.splits dest!: map_of_SomeD)
qed

lemma upsert_empty: "clean_vpn_address (JStr address) = [] \<Longrightarrow> upsert_vpn_address e name address source d = (Inr ([], []), d)"
  by (simp add: upsert_vpn_address_def ret_def Let_def)

section \<open>The list\<close>

definition merged_ok :: "(string \<times> row) list \<Rightarrow> bool" where
  "merged_ok m = (dict_ok m \<and> (\<forall>(k, r) \<in> set m. k = vpn_service_key (row_name r) \<and> (\<exists>a. dget r ''address'' = JStr a \<and> address_text a)))"

lemma merged_ok_dset:
  "merged_ok m \<Longrightarrow> k = vpn_service_key (row_name r) \<Longrightarrow> \<exists>a. dget r ''address'' = JStr a \<and> address_text a \<Longrightarrow> merged_ok (dset k r m)"
  using set_dset [of k r m] by (auto simp: merged_ok_def)

lemma add_item_ok: "merged_ok m \<Longrightarrow> merged_ok (add_item source kv m)"
  by (auto simp: add_item_def split: prod.splits json.splits option.splits intro!: merged_ok_dset intro: kept_fields_of(1,2))

lemma legacy_item_ok: "merged_ok m \<Longrightarrow> merged_ok (legacy_item state kd m)"
  by (auto simp: legacy_item_def Let_def vpn_row_def row_name_def dget_def dget_or_def split: json.splits intro!: merged_ok_dset)

lemma fold_ok: "(\<And>x m. P m \<Longrightarrow> P (f x m)) \<Longrightarrow> P m \<Longrightarrow> P (fold f xs m)"
  by (induction xs arbitrary: m) auto

lemma merged_items_ok: "merged_ok (merged_items state d)"
proof -
  have "merged_ok []" by (simp add: merged_ok_def)
  then have "merged_ok (fold (add_item ''state'') (items (dget state ''vpn'')) [])" by (rule fold_ok [where P = merged_ok, rotated]) (rule add_item_ok)
  then have "merged_ok (state_items state)" unfolding state_items_def by (rule fold_ok [where P = merged_ok, rotated]) (rule legacy_item_ok)
  then show ?thesis unfolding merged_items_def by (rule fold_ok [where P = merged_ok, rotated]) (rule add_item_ok)
qed

lemma merged_keys: "map (vpn_service_key \<circ> row_name) (map snd (merged_items state d)) = map fst (merged_items state d)"
  using merged_items_ok [of state d] by (auto simp: merged_ok_def)

lemma merged_lookup:
  assumes "addresses_ok (load_vpn_addresses d)"
  shows "map_of (merged_items state d) key =
    (case map_of (load_vpn_addresses d) key of Some (JObj r) \<Rightarrow> Some r | _ \<Rightarrow> map_of (state_items state) key)"
proof -
  have "addresses_ok data \<Longrightarrow> map_of (fold (add_item ''webhook'') data m) key =
      (case map_of data key of Some (JObj r) \<Rightarrow> Some r | _ \<Rightarrow> map_of m key)" for data m
  proof (induction data arbitrary: m)
    case (Cons x data)
    obtain k v where x: "x = (k, v)" by (cases x)
    then have entry: "vpn_entry k v" and ok: "addresses_ok data" and new: "map_of data k = None"
      using Cons.prems by (auto simp: addresses_ok_def map_of_eq_None_iff)
    then obtain r where r: "v = JObj r" "add_item ''webhook'' (k, v) m = dset k r m"
      by (auto simp: vpn_entry_def add_item_def kept_row)
    show ?case using Cons.IH [OF ok, of "dset k r m"] x r new by (cases "key = k") (auto split: option.splits json.splits)
  qed simp
  then show ?thesis using assms by (simp add: merged_items_def)
qed

lemma list_eq:
  assumes "addresses_ok (load_vpn_addresses d)"
  shows "vpn_addresses_list state d =
    (Inr (sort_key (\<lambda>r. (preference (vpn_service_key (row_name r)), row_name r)) (map snd (merged_items state d))), d)"
proof -
  have "list_all (is_dict \<circ> snd) (load_vpn_addresses d)"
    using assms by (auto simp: addresses_ok_def list_all_iff vpn_entry_def)
  then show ?thesis by (simp add: vpn_addresses_list_def guard_def) (simp add: gets_def)
qed

lemma list_state: "vpn_addresses_list state d = (r, d') \<Longrightarrow> d' = d"
  by (auto simp: vpn_addresses_list_def guard_def sbind_def gets_def ret_def fail_def split: if_splits)

section \<open>The webhook\<close>

lemma key_of_service [simp]: "vpn_service_key (text_or (clean_saved_value (JStr s)) ''STUN'') = vpn_service_key s"
  using clean_names(1) by (simp add: vpn_service_key_def text_or_def clean_text_def)

abbreviation EVENTS :: string where "EVENTS \<equiv> ''events.json''"

lemma store_lucky_reply: "store_lucky e payload address d = (Inr reply, d') \<Longrightarrow> reply = Saved (lucky_service payload) address"
  by (auto simp: store_lucky_def sbind_Inr ret_def Let_def case_prod_unfold)

lemma store_lucky_eq:
  assumes "addresses_ok (load_vpn_addresses d)" and "clean_text (env_now_str e)" and "clean_vpn_address (JStr address) = address" and "address \<noteq> []"
    and "store_lucky e payload address d = (Inr reply, d')"
  defines "name \<equiv> text_or (clean_saved_value (JStr (lucky_service payload))) ''STUN''"
  shows "load_vpn_addresses d' = dset (vpn_service_key name) (JObj (vpn_row name address ''Lucky Webhook'' (env_now_str e))) (load_vpn_addresses d)"
    and "addresses_ok (load_vpn_addresses d')"
    and "d' EVENTS = (if stored_address (vpn_service_key name) d = address then d
           else add_event (env_now_str e) (lucky_event (lucky_service payload) (stored_address (vpn_service_key name) d) address (text_content payload)) d) EVENTS"
    and "reply = Saved (lucky_service payload) address"
proof -
  let ?item = "vpn_row name address ''Lucky Webhook'' (env_now_str e)"
  let ?d1 = "save_vpn_addresses e (dset (vpn_service_key name) (JObj ?item) (load_vpn_addresses d)) d"
  note up = upsert_eq [OF assms(1,2) clean_names(2), of address "lucky_service payload", folded name_def, unfolded assms(3), OF assms(4)]
  obtain v where d': "d' = save_json (if address \<noteq> stored_address (vpn_service_key name) d
        then add_event (env_now_str e) (lucky_event (lucky_service payload) (stored_address (vpn_service_key name) d) address (text_content payload)) ?d1 else ?d1) STATE v"
    and reply: "reply = Saved (lucky_service payload) address"
    using assms(5) up(1) list_eq [OF up(3)]
    by (auto simp: store_lucky_def sbind_def gets_def modify_def pure_def ret_def Let_def split: prod.splits sum.splits if_splits)
  have other: "d' VPN_STATE = ?d1 VPN_STATE" unfolding d' by (simp add: if_distrib)
  then show "load_vpn_addresses d' = dset (vpn_service_key name) (JObj ?item) (load_vpn_addresses d)"
    using up(2) vpn_load_cong [of d' ?d1] by metis
  show "addresses_ok (load_vpn_addresses d')" using other up(3) vpn_load_cong [of d' ?d1] by metis
  have events: "?d1 EVENTS = d EVENTS" by (simp add: save_vpn_addresses_def)
  then have "add_event t ev ?d1 EVENTS = add_event t ev d EVENTS" for t ev by (simp add: add_event_def load_json_def Let_def)
  then show "d' EVENTS = (if stored_address (vpn_service_key name) d = address then d
           else add_event (env_now_str e) (lucky_event (lucky_service payload) (stored_address (vpn_service_key name) d) address (text_content payload)) d) EVENTS"
    unfolding d' using events by simp
  show "reply = Saved (lucky_service payload) address" by (rule reply)
qed

section \<open>Runs\<close>

datatype vpn_event = Webhook env bool json | Repair env row

fun vpn_env :: "vpn_event \<Rightarrow> env" where
  "vpn_env (Webhook e ok payload) = e"
| "vpn_env (Repair e state) = e"

fun vpn_do :: "vpn_event \<Rightarrow> docs \<Rightarrow> docs" where
  "vpn_do (Webhook e ok payload) d = snd (hook_lucky e ok payload d)"
| "vpn_do (Repair e state) d = snd (ensure_vpn_addresses e state d)"

definition vpn_run :: "vpn_event list \<Rightarrow> docs \<Rightarrow> docs" where
  "vpn_run es d = fold vpn_do es d"

definition dated :: "vpn_event \<Rightarrow> bool" where
  "dated ev = clean_text (env_now_str (vpn_env ev))"

definition stays_ok :: "docs \<Rightarrow> docs \<Rightarrow> bool" where
  "stays_ok d d' = (addresses_ok (load_vpn_addresses d) \<longrightarrow> addresses_ok (load_vpn_addresses d'))"

lemma stays_ok_rel [simp]: "transp stays_ok" "reflp stays_ok"
  by (auto simp: stays_ok_def transp_def reflp_def)

lemma stays_ok_other: "d' VPN_STATE = d VPN_STATE \<Longrightarrow> stays_ok d d'"
  using vpn_load_cong [of d' d] by (simp add: stays_ok_def)

lemma upsert_stays: "clean_text (env_now_str e) \<Longrightarrow> clean_text source \<Longrightarrow> steps_by stays_ok (upsert_vpn_address e name address source)"
  using upsert_eq [of _ e source address name] upsert_empty [of address e name source]
  by (cases "clean_vpn_address (JStr address) = []") (auto simp: steps_by_def stays_ok_def)

lemma list_stays: "steps_by stays_ok (vpn_addresses_list state)"
  unfolding steps_by_def using list_state [of state] by (metis prod.collapse reflpD stays_ok_rel(2))

lemma pure_stays: "steps_by stays_ok (pure r)" "steps_by stays_ok (ret a)" "steps_by stays_ok (fail x)" "steps_by stays_ok (gets g)"
  by (simp_all add: steps_by_def op_defs reflpD [OF stays_ok_rel(2)])

lemma modify_stays: "(\<And>d. f d VPN_STATE = d VPN_STATE) \<Longrightarrow> steps_by stays_ok (modify f)"
  by (rule steps_by_modify) (rule stays_ok_other, simp)

lemma if_stays: "steps_by R a \<Longrightarrow> steps_by R b \<Longrightarrow> steps_by R (if c then a else b)"
  by simp

lemmas stays = steps_by_bind [OF stays_ok_rel(1)] list_stays pure_stays modify_stays if_stays

lemma hook_stays:
  assumes "clean_text (env_now_str e)"
  shows "steps_by stays_ok (hook_lucky e ok payload)"
proof -
  have "steps_by stays_ok (store_lucky e p address)" for p address
    unfolding store_lucky_def Let_def case_prod_unfold
    by (intro stays upsert_stays assms clean_names) auto
  then show ?thesis
    unfolding hook_lucky_def Let_def by (auto intro: pure_stays split: json.split)
qed

lemma repair_event_stays: "clean_text (env_now_str e) \<Longrightarrow> steps_by stays_ok (repair_event e event acc)"
  unfolding repair_event_def Let_def case_prod_unfold
  by (intro stays upsert_stays) simp_all

lemma repair_stays:
  assumes "clean_text (env_now_str e)"
  shows "steps_by stays_ok (ensure_vpn_addresses e state)"
proof -
  have all: "steps_by stays_ok (repair_events e events acc)" for events acc
  proof (induction events arbitrary: acc)
    case (Cons event events)
    show ?case unfolding repair_events.simps
      by (rule steps_by_bind [OF stays_ok_rel(1) repair_event_stays [OF assms] Cons.IH])
  qed (simp add: pure_stays)
  show ?thesis
    unfolding ensure_vpn_addresses_def Let_def case_prod_unfold by (intro stays all) simp
qed

lemma run_stays: "list_all dated es \<Longrightarrow> addresses_ok (load_vpn_addresses d) \<Longrightarrow> addresses_ok (load_vpn_addresses (vpn_run es d))"
proof (induction es arbitrary: d)
  case (Cons ev es)
  have "stays_ok d (vpn_do ev d)"
    using hook_stays repair_stays Cons.prems(1) by (cases ev) (auto simp: steps_by_def dated_def)
  then show ?case using Cons by (simp add: vpn_run_def stays_ok_def)
qed (simp add: vpn_run_def)

lemma no_addresses: "d VPN_STATE = None \<Longrightarrow> addresses_ok (load_vpn_addresses d)"
  by (simp add: addresses_ok_def load_vpn_addresses_def load_json_def)

section \<open>The repair\<close>

text \<open>What the events of the repair say, the latest first.\<close>

definition usable :: "row \<Rightarrow> (string \<times> string) option" where
  "usable event = (case vpn_address_from_event event of (name, addr) \<Rightarrow>
     if name = [] \<or> addr = [] then None else Some (vpn_service_key name, addr))"

definition usable_events :: "docs \<Rightarrow> (string \<times> string) list" where
  "usable_events d = List.map_filter usable (rev (dict_rows (JList (take_last 300 (elems (load_json d EVENTS (JList [])))))))"

lemma event_address: "vpn_address_from_event event = (name, addr) \<Longrightarrow> addr \<noteq> [] \<Longrightarrow> address_text addr"
  by (auto simp: vpn_address_from_event_def parse_vpn_text_content_def text_or_def Let_def split: prod.splits if_splits option.splits)

lemma repair_one:
  assumes "addresses_ok (load_vpn_addresses d)" and "clean_text (env_now_str e)"
    and "repair_event e event (current, state, changed) d = (Inr (current', state', changed'), d')"
  shows "(case usable event of None \<Rightarrow> d' = d \<and> current' = current
     | Some (key, addr) \<Rightarrow> if key \<in> set current then d' = d \<and> current' = current
         else current' = key # current \<and> (\<exists>item. dget item ''address'' = JStr addr \<and> address_text addr
                \<and> load_vpn_addresses d' = dset key (JObj item) (load_vpn_addresses d)))"
    and "addresses_ok (load_vpn_addresses d')"
proof -
  obtain name addr where ev: "vpn_address_from_event event = (name, addr)" by (cases "vpn_address_from_event event")
  let ?source = "text_or (clean_saved_value (dget event ''source'')) ''event_repair''"
  have source: "clean_text ?source" by simp
  show "(case usable event of None \<Rightarrow> d' = d \<and> current' = current
     | Some (key, addr) \<Rightarrow> if key \<in> set current then d' = d \<and> current' = current
         else current' = key # current \<and> (\<exists>item. dget item ''address'' = JStr addr \<and> address_text addr
                \<and> load_vpn_addresses d' = dset key (JObj item) (load_vpn_addresses d)))"
  proof (cases "name = [] \<or> addr = [] \<or> vpn_service_key name \<in> set current")
    case True
    then show ?thesis using assms(3) ev by (auto simp: repair_event_def usable_def ret_def split: if_splits)
  next
    case False
    then have addr: "address_text addr" using event_address [OF ev] by simp
    then have clean: "clean_vpn_address (JStr addr) = addr" "addr \<noteq> []" by (simp_all add: address_text_def)
    note up = upsert_eq [OF assms(1,2) source, of addr name, unfolded clean(1), OF clean(2)]
    have "current' = vpn_service_key name # current"
      "d' = save_vpn_addresses e (dset (vpn_service_key name) (JObj (vpn_row (text_or (clean_saved_value (JStr name)) ''STUN'') addr ?source (env_now_str e))) (load_vpn_addresses d)) d"
      using assms(3) ev False up(1) by (auto simp: repair_event_def sbind_def pure_def ret_def vpn_row_def Let_def split: sum.splits if_splits)
    moreover have "dget (vpn_row n addr ?source (env_now_str e)) ''address'' = JStr addr" for n
      by (simp add: vpn_row_def dget_def dget_or_def)
    ultimately show ?thesis using ev False up(2) addr by (auto simp: usable_def)
  qed
  show "addresses_ok (load_vpn_addresses d')"
    using steps_byD [OF repair_event_stays [OF assms(2)] assms(3)] assms(1) by (simp add: stays_ok_def)
qed

lemma stored_dset:
  "load_vpn_addresses d' = dset key (JObj item) (load_vpn_addresses d) \<Longrightarrow> dget item ''address'' = JStr addr \<Longrightarrow> address_text addr
     \<Longrightarrow> stored_address key' d' = (if key' = key then addr else stored_address key' d)"
  by (simp add: stored_address_def address_text_def)

lemma repair_all:
  assumes "addresses_ok (load_vpn_addresses d)" and "clean_text (env_now_str e)"
    and "repair_events e events (current, state, changed) d = (Inr (current', state', changed'), d')"
  shows "addresses_ok (load_vpn_addresses d') \<and> (\<forall>key \<in> set current. map_of (load_vpn_addresses d') key = map_of (load_vpn_addresses d) key)
    \<and> (\<forall>key. key \<notin> set current \<longrightarrow> stored_address key d' =
          (case map_of (List.map_filter usable events) key of None \<Rightarrow> stored_address key d | Some a \<Rightarrow> a))"
  using assms(1,3)
proof (induction events arbitrary: current state changed d)
  case (Cons event events)
  obtain current1 state1 changed1 d1 where one: "repair_event e event (current, state, changed) d = (Inr (current1, state1, changed1), d1)"
    and rest: "repair_events e events (current1, state1, changed1) d1 = (Inr (current', state', changed'), d')"
    using Cons.prems(2) by (auto simp: sbind_Inr)
  note step = repair_one [OF Cons.prems(1) assms(2) one]
  note IH = Cons.IH [OF step(2) rest]
  consider (same) "d1 = d" "current1 = current" "usable event = None \<or> (\<exists>k a. usable event = Some (k, a) \<and> k \<in> set current)"
    | (added) key addr item where "usable event = Some (key, addr)" "key \<notin> set current" "current1 = key # current"
        "dget item ''address'' = JStr addr" "address_text addr" "load_vpn_addresses d1 = dset key (JObj item) (load_vpn_addresses d)"
    using step(1) by (auto split: option.splits if_splits)
  then show ?case
  proof cases
    case same
    then show ?thesis using IH by (auto simp: List.map_filter_simps)
  next
    case added
    have "map_of (load_vpn_addresses d') k = map_of (load_vpn_addresses d) k" if "k \<in> set current" for k
      using IH that added by (auto simp: added(6))
    moreover have "stored_address key d' = stored_address key d1"
      using IH added(3) by (simp add: stored_address_def)
    ultimately show ?thesis
      using IH added stored_dset [OF added(6,4,5)] by (auto simp: List.map_filter_simps split: option.splits)
  qed
qed (simp add: ret_def List.map_filter_simps)

text \<open>C38: Whatever the stored documents hold, every address in the list that the apps show is free of place holders and
  of credentials, no service is listed twice, and the known services come first.\<close>

theorem shown_addresses_clean:
  assumes "vpn_addresses_list state d = (Inr rows, d')"
  shows "list_all (\<lambda>r. \<exists>a. dget r ''address'' = JStr a \<and> a \<noteq> [] \<and> free_of_bad_parts a) rows
    \<and> distinct (map (vpn_service_key \<circ> row_name) rows) \<and> sorted (map (preference \<circ> vpn_service_key \<circ> row_name) rows)"
proof -
  let ?f = "\<lambda>r. (preference (vpn_service_key (row_name r)), row_name r)"
  have rows: "rows = sort_key ?f (map snd (merged_items state d))"
    using assms by (auto simp: vpn_addresses_list_def guard_def sbind_def gets_def ret_def fail_def split: if_splits)
  have ok: "merged_ok (merged_items state d)" by (rule merged_items_ok)
  have "distinct (map (vpn_service_key \<circ> row_name) (map snd (merged_items state d)))"
    using ok unfolding merged_keys merged_ok_def by blast
  then have "distinct (map (vpn_service_key \<circ> row_name) rows)"
    by (auto simp: rows distinct_map intro: inj_on_imageI2 inj_on_imageI)
  moreover have "\<exists>a. dget r ''address'' = JStr a \<and> a \<noteq> [] \<and> free_of_bad_parts a" if "r \<in> set rows" for r
  proof -
    have "r \<in> snd ` set (merged_items state d)" using that unfolding rows by simp
    then obtain k where "(k, r) \<in> set (merged_items state d)" by force
    then obtain a where "dget r ''address'' = JStr a" "address_text a" using ok by (auto simp: merged_ok_def)
    then show ?thesis using address_free by (auto simp: address_text_def)
  qed
  moreover have "sorted (map ?f rows)" unfolding rows by simp
  then have "sorted (map fst (map ?f rows))" by (auto simp: sorted_map less_eq_prod_def elim!: sorted_wrt_mono_rel [rotated])
  ultimately show ?thesis by (simp add: comp_def list_all_iff)
qed

definition secret_state :: row where
  "secret_state = [(''vpn'', JObj [(''a'', JObj [(''address'', JStr ''token=1'')]), (''OpenVPN'', JObj [(''address'', JStr ''1.2.3.4:1'')])])]"

theorem shown_addresses_clean_witness:
  "(case fst (vpn_addresses_list secret_state (\<lambda>_. None)) of Inr rows \<Rightarrow> length rows = 1 \<and> list_all (\<lambda>r. dget r ''address'' \<noteq> JStr ''token=1'') rows | Inl _ \<Rightarrow> False)"
proof -
  have rows: "fst (vpn_addresses_list secret_state (\<lambda>_. None)) = Inr [vpn_row ''OpenVPN'' ''1.2.3.4:1'' ''state'' []]" by code_simp
  then have step: "vpn_addresses_list secret_state (\<lambda>_. None) = (Inr [vpn_row ''OpenVPN'' ''1.2.3.4:1'' ''state'' []], snd (vpn_addresses_list secret_state (\<lambda>_. None)))"
    by (metis prod.collapse)
  have "\<not> free_of_bad_parts ''token=1''" by code_simp
  then show ?thesis using shown_addresses_clean [OF step] rows by auto
qed

text \<open>C39: A webhook with a proper address, after any sequence of webhooks and repairs: the address becomes the stored and
  the shown one of its service, no other service changes, and an event is recorded exactly when the address is
  not the one that was stored, so that a repeated webhook records nothing.\<close>

theorem webhook_updates_service:
  assumes "list_all dated es" and "d0 VPN_STATE = None" and "d = vpn_run es d0" and "clean_text (env_now_str e)"
    and "hook_lucky e True (JObj payload) d = (Inr (Saved service address), d')" and "clean_vpn_address (JStr address) = address"
  defines "key \<equiv> vpn_service_key service"
  shows "stored_address key d' = address
    \<and> (\<exists>r. map_of (merged_items state d') key = Some r \<and> dget r ''address'' = JStr address)
    \<and> (\<forall>k. k \<noteq> key \<longrightarrow> map_of (load_vpn_addresses d') k = map_of (load_vpn_addresses d) k)
    \<and> d' EVENTS = (if stored_address key d = address then d
         else add_event (env_now_str e) (lucky_event service (stored_address key d) address (text_content payload)) d) EVENTS"
proof -
  have ok: "addresses_ok (load_vpn_addresses d)" unfolding assms(3) by (rule run_stays [OF assms(1) no_addresses [of d0, OF assms(2)]])
  have call: "store_lucky e payload (lucky_address payload) d = (Inr (Saved service address), d')" and some: "lucky_address payload \<noteq> []"
    using assms(5) by (cases "payload = []"; auto simp: hook_lucky_def por_def Let_def ret_def split: if_splits)+
  then have reply: "service = lucky_service payload" "address = lucky_address payload" by (auto dest: store_lucky_reply)
  note stored = store_lucky_eq [OF ok assms(4) _ some call, folded reply, OF assms(6), unfolded key_of_service, folded key_def]
  let ?item = "vpn_row (text_or (clean_saved_value (JStr service)) ''STUN'') address ''Lucky Webhook'' (env_now_str e)"
  have item: "dget ?item ''address'' = JStr address" "address_text address"
    using assms(6) some reply by (simp_all add: vpn_row_def dget_def dget_or_def address_text_def)
  have "stored_address key d' = address" using stored_dset [OF stored(1) item] by simp
  moreover have "map_of (merged_items state d') key = Some ?item" using merged_lookup [OF stored(2)] stored(1) by simp
  ultimately show ?thesis using stored(1,3) item(1) by auto
qed

definition midnight_env :: env where
  "midnight_env = \<lparr>env_now = 0, env_now_str = ''2024-01-01 00:00:00'', env_now_text = ''t'', env_fresh = (\<lambda>n. ''id''), env_router = ''r'',
     env_local_epoch = (\<lambda>_. None)\<rparr>"

definition wireguard_push :: "string \<Rightarrow> row" where
  "wireguard_push a = [(''text'', JObj [(''content'', JStr (''WireGuard: '' @ a))])]"

theorem webhook_updates_service_witness:
  "stored_address ''wireguard'' (snd (hook_lucky midnight_env True (JObj (wireguard_push ''1.2.3.4:51820''))
     (vpn_run [Webhook midnight_env True (JObj (wireguard_push ''1.2.3.4:1''))] (\<lambda>_. None)))) = ''1.2.3.4:51820''"
proof -
  let ?d = "vpn_run [Webhook midnight_env True (JObj (wireguard_push ''1.2.3.4:1''))] (\<lambda>_. None)"
  have "fst (hook_lucky midnight_env True (JObj (wireguard_push ''1.2.3.4:51820'')) ?d) = Inr (Saved ''WireGuard'' ''1.2.3.4:51820'')"
    by code_simp
  then have step: "hook_lucky midnight_env True (JObj (wireguard_push ''1.2.3.4:51820'')) ?d = (Inr (Saved ''WireGuard'' ''1.2.3.4:51820''),
      snd (hook_lucky midnight_env True (JObj (wireguard_push ''1.2.3.4:51820'')) ?d))" by (metis prod.collapse)
  have "list_all dated [Webhook midnight_env True (JObj (wireguard_push ''1.2.3.4:1''))]" "clean_text (env_now_str midnight_env)"
    "clean_vpn_address (JStr ''1.2.3.4:51820'') = ''1.2.3.4:51820''" by code_simp+
  moreover have "vpn_service_key ''WireGuard'' = ''wireguard''" by code_simp
  ultimately show ?thesis using webhook_updates_service [OF _ _ refl _ step] by simp
qed

text \<open>C40: The repair, after any sequence of webhooks and repairs: a service that the list shows keeps its stored address, and
  every other service gets the address of the latest of the last 300 events that names one for it.\<close>

theorem repair_fills_in:
  assumes "list_all dated es" and "d0 VPN_STATE = None" and "d = vpn_run es d0" and "clean_text (env_now_str e)"
    and "ensure_vpn_addresses e state d = (Inr state', d')"
  shows "(\<forall>key \<in> fst ` set (merged_items state d). map_of (load_vpn_addresses d') key = map_of (load_vpn_addresses d) key)
    \<and> (\<forall>key. key \<notin> fst ` set (merged_items state d) \<longrightarrow> stored_address key d' =
          (case map_of (usable_events d) key of None \<Rightarrow> [] | Some a \<Rightarrow> a))"
proof -
  have ok: "addresses_ok (load_vpn_addresses d)" unfolding assms(3) by (rule run_stays [OF assms(1) no_addresses [of d0, OF assms(2)]])
  let ?shown = "sort_key (\<lambda>r. (preference (vpn_service_key (row_name r)), row_name r)) (map snd (merged_items state d))"
  let ?keys = "map (vpn_service_key \<circ> row_name) ?shown"
  obtain current state1 changed d1 where all: "repair_events e (rev (dict_rows (JList (take_last 300 (elems (load_json d EVENTS (JList []))))))) (?keys, state, False) d
      = (Inr (current, state1, changed), d1)" and same: "d' VPN_STATE = d1 VPN_STATE"
    using assms(5) list_eq [OF ok, of state] unfolding ensure_vpn_addresses_def
    by (auto simp: sbind_Inr gets_def ret_def modify_def Let_def split: if_splits dest!: list_state)
  have "set ?keys = set (map (vpn_service_key \<circ> row_name) (map snd (merged_items state d)))"
    by (simp only: set_map set_sort)
  then have keys: "set ?keys = fst ` set (merged_items state d)" unfolding merged_keys by simp
  have load: "load_vpn_addresses d' = load_vpn_addresses d1" using vpn_load_cong [of d' d1] same by simp
  then have stored: "stored_address key d' = stored_address key d1" for key by (simp add: stored_address_def)
  have "stored_address key d = []" if "key \<notin> fst ` set (merged_items state d)" for key
  proof -
    have "map_of (merged_items state d) key = None" using that by (simp add: map_of_eq_None_iff)
    then show ?thesis using merged_lookup [OF ok, of state key] by (auto simp: stored_address_def split: option.splits json.splits)
  qed
  then show ?thesis using repair_all [OF ok assms(4) all] unfolding keys load stored usable_events_def by (simp split: option.split)
qed

definition old_events :: docs where
  "old_events = [EVENTS \<mapsto> JList [JObj [(''type'', JStr ''stun_changed''), (''name'', JStr ''EasyTier''), (''newValue'', JStr ''1.2.3.4:1'')],
     JObj [(''type'', JStr ''stun_changed''), (''name'', JStr ''EasyTier''), (''newValue'', JStr ''1.2.3.4:2'')]]]"

theorem repair_fills_in_witness:
  "stored_address ''easytier'' (snd (ensure_vpn_addresses midnight_env [] old_events)) = ''1.2.3.4:2''"
proof -
  have "\<not> isl (fst (ensure_vpn_addresses midnight_env [] old_events))" by code_simp
  then obtain state' where "fst (ensure_vpn_addresses midnight_env [] old_events) = Inr state'"
    by (cases "fst (ensure_vpn_addresses midnight_env [] old_events)") auto
  then have step: "ensure_vpn_addresses midnight_env [] old_events = (Inr state', snd (ensure_vpn_addresses midnight_env [] old_events))"
    by (metis prod.collapse)
  have "list_all dated []" "old_events VPN_STATE = None" "old_events = vpn_run [] old_events" "clean_text (env_now_str midnight_env)"
    by (simp_all add: old_events_def vpn_run_def) code_simp
  moreover have "merged_items [] old_events = []" "map_of (usable_events old_events) ''easytier'' = Some ''1.2.3.4:2''" by code_simp+
  ultimately show ?thesis using repair_fills_in [OF _ _ _ _ step, of "[]" old_events] by simp
qed

text \<open>An address that contains a hyphen, as host names do, is taken for an empty one.\<close>

theorem hyphen_ignored:
  "fst (hook_lucky midnight_env True (JObj (wireguard_push ''my-home.example:51820'')) (\<lambda>_. None)) = Inr (Ignored (wireguard_push ''my-home.example:51820''))"
  by code_simp

text \<open>The webhook and the document have different lists of forbidden parts: such an address is not stored, yet it is recorded in an event.\<close>

theorem refused_address_recorded:
  "(case hook_lucky midnight_env True (JObj (wireguard_push ''authorization:x'')) (\<lambda>_. None) of (r, d) \<Rightarrow>
      (r, load_vpn_addresses d, map (\<lambda>ev. dget ev ''newValue'') (dict_rows (load_json d EVENTS (JList [])))))
   = (Inr (Saved ''WireGuard'' ''authorization:x''), [], [JStr ''authorization:x''])"
  by code_simp

end
