(* ===== verification/Spec2Isabelle.thy ===== *)
theory Spec2Isabelle
  imports Prelude PyText Json Storage Ipaddr Ddns DdnsRuns HubCore Commands Portmap PortmapRuns
    Effects IpText Firewall FirewallRuns Stun StunApi StunRuns Wireguard WireguardRuns
    AlistSum ControlActor SlowCache Ipv6 Ipv6Runs Providers ProvidersRuns Tasks TasksRuns
    AgentUpdate AgentRuns ConfigSync ConfigRuns Daily DailyRuns Relay RelayRuns
    Ipv6Records Devices DevicesRuns Followup FollowupRuns Vpn VpnRuns
begin

text \<open>
  LabProbe Hub: a service in Python on the home network. It stores what a router and the agent on it report,
  gives the apps documents and changes, sends commands to the agent, writes settings to the router, and
  publishes addresses at DNS services. The development models the logic of the hub and states what makes it
  correct; a module \<open>X\<close> holds the operations of a part and its companion \<open>XRuns\<close> what holds over runs of them.

  The parts, with their sources under \<open>src/\<close>:

  \<^item> \<open>Prelude\<close>, \<open>PyText\<close>, \<open>Json\<close>, \<open>Effects\<close>: Python's strings, integers, JSON values and dictionaries
    (association lists in order of insertion, \<open>dict_ok\<close> when keys are distinct), the text of a JSON document and
    its parser, and operations that raise errors and keep the state that was reached.
  \<^item> \<open>Storage\<close>: \<open>labprobe_storage.py\<close>. The state is the record \<open>store\<close>: the documents, the log of revisions and
    its counter. \<open>save\<close> writes a document and the changes that \<open>changes_for_document\<close> finds, \<open>prune_revisions\<close>
    bounds the log, \<open>changes_since\<close> is the feed that the apps follow.
  \<^item> \<open>HubCore\<close>, \<open>Commands\<close>: what all services of \<open>hub.py\<close> share: documents by name (the locale
    \<open>document_store\<close> is interpreted both on the store and on the map that the services use), events, tokens, and
    the queue of commands that an agent polls and acknowledges.
  \<^item> \<open>Portmap\<close>: the port maps of \<open>hub.py\<close>. \<open>Relay\<close>: the handlers that replace some of these and of \<open>AgentUpdate\<close>
    when the hub starts (\<open>hub_entry.py\<close> installs \<open>portmap_persistence_patch.py\<close>, then
    \<open>labrelay_sync_patch.py\<close>, then \<open>hub0934_fixes.py\<close>, which calls the handler installed before it).
  \<^item> \<open>Ipaddr\<close>, \<open>IpText\<close>, \<open>Firewall\<close>: \<open>router/firewall_automation.py\<close>, firewall rules of the router that follow
    an address. \<open>Stun\<close>, \<open>StunApi\<close>: \<open>stun_service.py\<close>. \<open>Wireguard\<close>: \<open>wireguard_service.py\<close>, which changes STUN
    rules and firewall bindings through the operations of the two.
  \<^item> \<open>Ddns\<close>: the records, samples, publication and handlers of \<open>lab_ddns.py\<close>; \<open>Providers\<close>: the adapters of
    \<open>lab_ddns_providers.py\<close>.
  \<^item> \<open>ControlActor\<close> (\<open>router_control_actor_patch.py\<close>), \<open>SlowCache\<close> (\<open>router_slow_cache_patch.py\<close>), \<open>Tasks\<close>
    (\<open>router_task_manager_patch.py\<close> with the NAT test of \<open>router_native_features_patch.py\<close>) and \<open>ConfigSync\<close>
    (\<open>router_config_sync_patch.py\<close>): the parts with threads of their own. A step is what a thread does between
    two points at which another can run: a critical section, or a call to the router.
  \<^item> \<open>Ipv6\<close>: \<open>router/ipv6/\<close>, the IPv6 settings of the router.
  \<^item> \<open>AgentUpdate\<close>: releases of the agent, its update and cleanup commands, in \<open>hub.py\<close>.
    \<open>Followup\<close>: the request for an update and the check that \<open>followup_stability_patch.py\<close> and
    \<open>final_stability_patch.py\<close> install instead, with the threads that read the manifest as steps of an interleaving; the
    handler \<open>update_status\<close> of the former is replaced by that of the latter.
  \<^item> \<open>Vpn\<close>: the public addresses of VPN and STUN services in \<open>hub.py\<close>: their document, the list that the apps show,
    the webhook of Lucky and the repair from events.
  \<^item> \<open>Daily\<close>: durations, online time and the daily report, in \<open>hub.py\<close>.
  \<^item> \<open>Ipv6Records\<close>, \<open>Devices\<close>: the IPv6 addresses of devices and the device archive of \<open>hub.py\<close>, the cards of
    watched devices of \<open>hub0934_fixes.py\<close>, the history of \<open>device_history_patch.py\<close> and the priority of its two
    sources in \<open>hub0935_sync_fix.py\<close>.

  What the lemmas show:

  \<^item> Invariants of the state under any sequence of operations: the store and its log (\<open>reachable_store_ok\<close>), the
    DDNS records (\<open>ddns_records_ok\<close>), the queues (\<open>portmap_single_outstanding\<close>, \<open>agent_queue_ok\<close>,
    \<open>one_active_update\<close>), the ports
    (\<open>portmap_ports_unique\<close>), revisions (\<open>wireguard_no_lost_update\<close>, \<open>relay_revisions_increase\<close>), the moves of
    devices (\<open>device_moves_alternate\<close>), and of the threads under every interleaving (\<open>actor_accounting\<close>,
    \<open>slow_cache_consistent\<close>, \<open>task_single_owner\<close>).
  \<^item> What is written outside of the hub is gated: \<open>stability_gate\<close>, \<open>firewall_write_gated\<close>,
    \<open>firewall_write_minimal\<close>, \<open>stun_writes_owned\<close>, \<open>adapter_writes_as_needed\<close>, \<open>wireguard_no_secrets\<close>; so is what the
    apps are shown: \<open>shown_addresses_clean\<close>.
  \<^item> References: \<open>deliver_commands_reference\<close>, \<open>events_diff_replay\<close>, the plan of the provider adapters,
    \<open>daily_traffic_counted\<close>; round trips: \<open>save_load_roundtrip\<close>, \<open>requested_config_reads_back\<close>,
    \<open>config_survives_restart\<close>, \<open>duration_reads_back\<close>.
  \<^item> Progress: \<open>sync_pull_complete\<close>, \<open>actor_call_answered\<close>, \<open>active_task_ends\<close>, \<open>apps_know_config\<close>,
    \<open>update_requests_settle\<close>; what a request changes: \<open>webhook_updates_service\<close>, \<open>repair_fills_in\<close>.
  \<^item> Deviations of the code from what it means to do, each shown on a run, for example
    \<open>unstamped_sample_bypasses_gate\<close>, \<open>unreadable_rules_deleted\<close>, \<open>refresh_survives_exchange\<close>,
    \<open>zero_reading_loses_traffic\<close>, \<open>restart_blocks_updates\<close>, \<open>request_overwritten\<close>. Where the code relies on its
    clients, the property has this as a hypothesis and a run shows what happens without it:
    \<open>unstamped_sample_bypasses_gate\<close>, \<open>portmap_duplicate_post\<close>, \<open>late_ack_second_update\<close>.

  Interfaces as locales: \<open>document_store\<close> (a document reads back and the others stay), \<open>delivery\<close> (what an agent
  sees of a queue), \<open>slot_queue\<close> (at most one outstanding command in a slot) and \<open>record_service\<close> (the calls of a
  DNS service); every one is interpreted on the operations of the services that provide it.

  Conventions. A character is one of 256 codes. Texts in Chinese that the code only shows are glossed in ASCII;
  those that it compares or takes apart are lists of codes from 128 on, one for each character (\<open>cjk\<close>). Numbers
  are integers: times have no fraction, a local time is a number of seconds. A Python set that the code iterates
  over is a list. The clock, fresh identifiers, the configured names and the environment are arguments (the
  record \<open>env\<close>, the record \<open>moment\<close>); so are the client of the router, the HTTP session, SHA-256, HMAC, the
  commands of the host and the loaders of documents, each as a function or as the label of a step, so that the
  properties hold for every answer. Where a handler holds the lock of the hub for the whole request, a request
  is one step; so is the creation of a task with the start of its thread.

  Bounds and fuel. Loops of the code are recursions on the data. The parser of JSON takes the length of its input as
  fuel, which the round trip shows to be enough for every text that is stored. The loops of the tasks that poll the
  router until a time limit take the list of the answers that fit into it, of any length, and \<open>active_task_ends\<close> shows
  that every task ends. The
  numbers of rows that are kept (revisions, events, commands, bindings, days, addresses) are those of the code.

  Not modelled: the transport, login and cryptography of the router's protocol (\<open>router_rpc*.py\<close>,
  \<open>router_compat.py\<close>, the patches of login and transport), the web sockets and realtime channels, MQTT, the
  dashboard and telemetry documents, look-ups of addresses on the Internet, the user interface and the command line:
  they move data that the models take as arguments, or depend on formats of the router that the sources do not
  define. Of the devices, reading the payload of the router and the text of its neighbour table, and the
  enrichment of the daily report with rollups; of the store, file handling and the settings of SQLite; of the DDNS
  service, starting and stopping its threads; of \<open>final_stability_patch.py\<close>, the files of the local repository and the
  frozen time of tasks. \<open>agent_presence_patch.py\<close> is replaced at start-up by
  \<open>labrelay_sync_patch.py\<close>, which is modelled. The agent itself is a Rust program (\<open>labrelay/\<close>): the handlers are
  modelled for whatever it sends.
\<close>

end
